(* ===== verification/Prelude.thy ===== *)
theory Prelude
  imports Main "HOL-Library.Word" "HOL-Library.Char_ord" "HOL-Library.List_Lexorder"
begin

text \<open>
  What every component shares: the machine types of \<^verbatim>\<open>common/types.h\<close>, the reading of a
  \<^verbatim>\<open>std::string\<close> as bytes, \<^verbatim>\<open>std::map\<close> as an association list in key order,
  facts on words and lists, and one interface for transition systems with an invariant.
\<close>

unbundle bit_operations_syntax

named_theorems parse_rules \<open>one rule per getter: what it reads back from its own encoding\<close>
named_theorems reader_safe \<open>one rule per getter: its cursor stays inside the buffer\<close>
named_theorems put_nonempty \<open>encoders that write at least one byte\<close>

section \<open>Machine types\<close>

type_synonym u8 = "8 word"
type_synonym u16 = "16 word"
type_synonym u32 = "32 word"
type_synonym u64 = "64 word"
type_synonym i32 = "32 word"
type_synonym i64 = "64 word"
type_synonym bytes = "u8 list"

text \<open>
  Signed integers keep their width too: an \<open>i32\<close> is a word read with \<^const>\<open>sint\<close>.  A double
  travels as its bit pattern and nothing here computes with it, so \<open>f64\<close> is that pattern.
\<close>

type_synonym f64 = "64 word"

text \<open>Points of the steady clock and durations, in milliseconds.\<close>

type_synonym msec = int

section \<open>Strings as bytes\<close>

definition byte_of_char :: "char \<Rightarrow> u8" where
  "byte_of_char c = word_of_nat (of_char c)"

definition char_of_byte :: "u8 \<Rightarrow> char" where
  "char_of_byte b = char_of (unat b)"

definition bytes_of_string :: "string \<Rightarrow> bytes" where
  "bytes_of_string s = map byte_of_char s"

definition string_of_bytes :: "bytes \<Rightarrow> string" where
  "string_of_bytes bs = map char_of_byte bs"

lemma char_of_byte_of_char [simp]: "char_of_byte (byte_of_char c) = c"
proof -
  have "(of_char c :: nat) < 256" by simp
  then have "unat (word_of_nat (of_char c) :: u8) = of_char c"
    by (simp add: unat_of_nat)
  then show ?thesis by (simp add: char_of_byte_def byte_of_char_def)
qed

lemma byte_of_char_of_byte [simp]: "byte_of_char (char_of_byte b) = b"
proof -
  have "unat b < 256" using unsigned_less [of b] by simp
  then show ?thesis by (simp add: char_of_byte_def byte_of_char_def)
qed

lemma string_of_bytes_of_string [simp]: "string_of_bytes (bytes_of_string s) = s"
  by (simp add: string_of_bytes_def bytes_of_string_def comp_def)

lemma bytes_of_string_of_bytes [simp]: "bytes_of_string (string_of_bytes b) = b"
  by (simp add: string_of_bytes_def bytes_of_string_def comp_def)

lemma length_bytes_of_string [simp]: "length (bytes_of_string s) = length s"
  by (simp add: bytes_of_string_def)

lemma length_string_of_bytes [simp]: "length (string_of_bytes b) = length b"
  by (simp add: string_of_bytes_def)

lemma bytes_of_string_inj [simp]: "bytes_of_string s = bytes_of_string t \<longleftrightarrow> s = t"
  by (metis string_of_bytes_of_string)

lemma bytes_of_string_empty [simp]: "bytes_of_string s = [] \<longleftrightarrow> s = []"
  by (simp add: bytes_of_string_def)

lemma bytes_of_string_append [simp]:
  "bytes_of_string (s @ t) = bytes_of_string s @ bytes_of_string t"
  by (simp add: bytes_of_string_def)

section \<open>std::map: an association list in key order\<close>

text \<open>
  Iterating a \<^verbatim>\<open>std::map\<close> visits its keys in increasing order, and several loops of the program
  depend on that order (which peer is found first, in which order events are queued), so a map is
  the sorted list of its entries.
\<close>

type_synonym ('k, 'v) omap = "('k \<times> 'v) list"

definition om_find :: "'k \<Rightarrow> ('k, 'v) omap \<Rightarrow> 'v option" where
  "om_find k m = map_of m k"

fun om_put :: "'k::linorder \<Rightarrow> 'v \<Rightarrow> ('k, 'v) omap \<Rightarrow> ('k, 'v) omap" where
  "om_put k v [] = [(k, v)]"
| "om_put k v ((k', v') # m) =
     (if k < k' then (k, v) # (k', v') # m
      else if k = k' then (k, v) # m
      else (k', v') # om_put k v m)"

definition om_erase :: "'k \<Rightarrow> ('k, 'v) omap \<Rightarrow> ('k, 'v) omap" where
  "om_erase k m = filter (\<lambda>e. fst e \<noteq> k) m"

definition om_ok :: "('k::linorder, 'v) omap \<Rightarrow> bool" where
  "om_ok m \<longleftrightarrow> sorted_wrt (<) (map fst m)"

lemma om_find_Nil [simp]: "om_find k [] = None"
  by (simp add: om_find_def)

lemma om_find_Cons: "om_find k ((k', v) # m) = (if k = k' then Some v else om_find k m)"
  by (simp add: om_find_def)

lemma set_fst_om_put: "fst ` set (om_put k v m) = insert k (fst ` set m)"
  by (induction k v m rule: om_put.induct) auto

lemma om_find_put [simp]:
  "om_find k (om_put k' v m) = (if k = k' then Some v else om_find k m)"
  by (induction k' v m rule: om_put.induct) (auto simp: om_find_Cons)

lemma om_find_erase [simp]:
  "om_find k (om_erase k' m) = (if k = k' then None else om_find k m)"
  by (induction m) (auto simp: om_erase_def om_find_Cons)

lemma om_ok_Nil [simp]: "om_ok []"
  by (simp add: om_ok_def)

lemma om_ok_put [simp]: "om_ok m \<Longrightarrow> om_ok (om_put k v m)"
proof (induction k v m rule: om_put.induct)
  case (1 k v)
  then show ?case by (simp add: om_ok_def)
next
  case (2 k v k' v' m)
  have keys: "\<forall>y \<in> fst ` set m. k' < y" using "2.prems" by (auto simp: om_ok_def)
  have tl: "om_ok m" using "2.prems" by (simp add: om_ok_def)
  consider "k < k'" | "k = k'" | "k' < k" by (meson linorder_less_linear)
  then show ?case
  proof cases
    case 1
    then show ?thesis using "2.prems" keys by (auto simp: om_ok_def)
  next
    case 2
    then show ?thesis using "2.prems" by (auto simp: om_ok_def)
  next
    case 3
    then have "om_ok (om_put k v m)" using "2.IH" tl by (simp add: not_less_iff_gr_or_eq)
    moreover have "\<forall>y \<in> fst ` set (om_put k v m). k' < y"
      using keys 3 by (simp add: set_fst_om_put)
    moreover have "\<not> k < k'" "k \<noteq> k'" using 3 by auto
    ultimately show ?thesis by (simp add: om_ok_def)
  qed
qed

lemma sorted_wrt_map_filter:
  "sorted_wrt (<) (map f xs) \<Longrightarrow> sorted_wrt (<) (map f (filter P xs))"
  by (induction xs) auto

lemma om_ok_filter [simp]: "om_ok m \<Longrightarrow> om_ok (filter P m)"
  by (simp add: om_ok_def sorted_wrt_map_filter)

lemma om_ok_erase [simp]: "om_ok m \<Longrightarrow> om_ok (om_erase k m)"
  by (simp add: om_erase_def)

lemma om_ok_distinct: "om_ok m \<Longrightarrow> distinct (map fst m)"
  by (simp add: om_ok_def strict_sorted_iff)

lemma om_find_in: "om_find k m = Some v \<Longrightarrow> (k, v) \<in> set m"
  by (simp add: om_find_def map_of_SomeD)

lemma om_find_iff: "om_ok m \<Longrightarrow> om_find k m = Some v \<longleftrightarrow> (k, v) \<in> set m"
  by (simp add: om_find_def om_ok_distinct)

lemma om_find_None: "om_find k m = None \<longleftrightarrow> k \<notin> fst ` set m"
  by (simp add: om_find_def map_of_eq_None_iff)

lemma om_find_filter:
  assumes "om_ok m"
  shows "om_find k (filter P m) =
    (case om_find k m of None \<Rightarrow> None | Some v \<Rightarrow> if P (k, v) then Some v else None)"
proof (cases "om_find k m")
  case None
  then have "om_find k (filter P m) = None" by (auto simp: om_find_None)
  with None show ?thesis by simp
next
  case (Some v)
  then have iff: "\<And>w. (k, w) \<in> set m \<longleftrightarrow> w = v" using assms by (auto simp: om_find_iff [symmetric])
  show ?thesis
  proof (cases "P (k, v)")
    case True
    then have "om_find k (filter P m) = Some v"
      using assms iff by (subst om_find_iff) auto
    with True Some show ?thesis by simp
  next
    case False
    then have "om_find k (filter P m) = None" using iff by (auto simp: om_find_None)
    with False Some show ?thesis by simp
  qed
qed

lemma om_find_map_snd:
  "om_find k (map (\<lambda>e. (fst e, f (fst e) (snd e))) m) = map_option (f k) (om_find k m)"
  by (induction m) (auto simp: om_find_Cons)

lemma set_om_put_subset: "set (om_put k v m) \<subseteq> insert (k, v) (set m)"
  by (induction k v m rule: om_put.induct) auto

lemma set_om_put:
  fixes m :: "('a::linorder, 'b) omap"
  shows "om_ok m \<Longrightarrow>
  set (om_put k v m) = insert (k, v) {e \<in> set m. fst e \<noteq> k}"
proof -
  assume ok: "om_ok m"
  show ?thesis
  proof (rule set_eqI)
    fix e :: "'a \<times> 'b"
    obtain k' v' where e: "e = (k', v')" by (cases e)
    show "e \<in> set (om_put k v m) \<longleftrightarrow> e \<in> insert (k, v) {e \<in> set m. fst e \<noteq> k}"
      using ok by (auto simp: e om_find_iff [symmetric] split: if_splits)
  qed
qed

section \<open>Words\<close>

lemma bit_ucast_byte: "bit (ucast (b :: u8) :: 'a::len word) n \<longleftrightarrow> bit b n \<and> n < LENGTH('a)"
  by (auto simp: bit_simps)

lemma unat_of_nat_len: "n < 2 ^ 64 \<Longrightarrow> unat (word_of_nat n :: u64) = n"
  by (simp add: unat_of_nat)

text \<open>Assembling a value from its little-endian bytes gives its low bits back.\<close>

lemma le_assemble:
  fixes v :: "'a::len word"
  shows "foldl (\<lambda>acc i. acc OR push_bit (i * 8) (ucast (ucast (drop_bit (i * 8) v) :: u8))) 0 [0..<n]
         = take_bit (8 * n) v"
proof (induction n)
  case 0
  then show ?case by simp
next
  case (Suc n)
  have "take_bit (8 * n) v OR push_bit (n * 8) (ucast (ucast (drop_bit (n * 8) v) :: u8))
        = take_bit (8 * Suc n) v"
    by (rule bit_eqI) (auto simp: bit_simps)
  with Suc show ?case by simp
qed

section \<open>Transition systems\<close>

text \<open>
  The contract between a stateful component and the claims about its runs: an invariant holds of
  the initial state and every operation keeps it.  A run is the fold of its operations.
\<close>

definition run :: "('s \<Rightarrow> 'e \<Rightarrow> 's) \<Rightarrow> 's \<Rightarrow> 'e list \<Rightarrow> 's" where
  "run step s es = foldl step s es"

lemma run_Nil [simp]: "run step s [] = s"
  by (simp add: run_def)

lemma run_Cons [simp]: "run step s (e # es) = run step (step s e) es"
  by (simp add: run_def)

lemma run_append: "run step s (es @ fs) = run step (run step s es) fs"
  by (simp add: run_def)

locale transition_system =
  fixes init :: 's and step :: "'s \<Rightarrow> 'e \<Rightarrow> 's" and inv :: "'s \<Rightarrow> bool"
  assumes inv_init: "inv init"
    and inv_step: "inv s \<Longrightarrow> inv (step s e)"
begin

lemma inv_run_from: "inv s \<Longrightarrow> inv (run step s es)"
  by (induction es arbitrary: s) (simp_all add: inv_step)

lemma inv_run: "inv (run step init es)"
  by (rule inv_run_from [OF inv_init])

lemma inv_prefix: "inv (run step init (take n es))"
  by (rule inv_run)

end

end
