(* ===== verification/Byte_Buffer.thy ===== *)
theory Byte_Buffer
  imports Prelude
begin

text \<open>
  \<^verbatim>\<open>common/byte_buffer.h\<close> and \<^verbatim>\<open>common/byte_buffer.cpp\<close>: the little-endian wire format.

  A \<^verbatim>\<open>byte_writer\<close> only ever appends, so each \<open>put_\<close> operation is the bytes it appends, and a
  sequence of calls is the concatenation.  A \<^verbatim>\<open>byte_reader\<close> is its buffer and its cursor; each
  \<open>get_\<close> operation returns what it read (\<open>None\<close> where the code returns false) and the reader it
  leaves behind, so that what a failed read does to the cursor can be stated.
\<close>

section \<open>byte_writer\<close>

definition put_u8 :: "u8 \<Rightarrow> bytes" where
  "put_u8 value = [value]"

definition put_u16 :: "u16 \<Rightarrow> bytes" where
  "put_u16 value = map (\<lambda>i. ucast (drop_bit (i * 8) value)) [0..<2]"

definition put_u32 :: "u32 \<Rightarrow> bytes" where
  "put_u32 value = map (\<lambda>i. ucast (drop_bit (i * 8) value)) [0..<4]"

definition put_u64 :: "u64 \<Rightarrow> bytes" where
  "put_u64 value = map (\<lambda>i. ucast (drop_bit (i * 8) value)) [0..<8]"

definition varint_more_bit :: u8 where
  "varint_more_bit = 0x80"

definition varint_payload_mask :: u8 where
  "varint_payload_mask = 0x7f"

function put_var :: "u64 \<Rightarrow> bytes" where
  "put_var value =
     (if ucast varint_more_bit \<le> value
      then (ucast value OR varint_more_bit) # put_var (drop_bit 7 value)
      else [ucast value])"
  by pat_completeness auto
termination
proof (relation "measure unat", simp)
  fix v :: u64
  assume "ucast varint_more_bit \<le> v"
  then have "128 \<le> unat v"
    by (simp add: varint_more_bit_def word_le_nat_alt)
  then show "(drop_bit 7 v, v) \<in> measure unat"
    by (simp add: unat_drop_bit_eq, simp add: drop_bit_eq_div)
qed

declare put_var.simps [simp del]

definition put_svar :: "i64 \<Rightarrow> bytes" where
  "put_svar value =
     (let magnitude = push_bit 1 value;
          sign_fill = (if sint value < 0 then NOT 0 else 0)
      in put_var (magnitude XOR sign_fill))"

definition put_bool :: "bool \<Rightarrow> bytes" where
  "put_bool value = [if value then 1 else 0]"

definition put_f64 :: "f64 \<Rightarrow> bytes" where
  "put_f64 value = put_u64 value"

definition put_bytes :: "bytes \<Rightarrow> bytes" where
  "put_bytes data = put_var (word_of_nat (length data)) @ data"

definition put_string :: "string \<Rightarrow> bytes" where
  "put_string value = put_var (word_of_nat (length value)) @ bytes_of_string value"

section \<open>byte_reader\<close>

record byte_reader =
  rd_data :: bytes
  rd_pos :: nat

definition reader_of :: "bytes \<Rightarrow> byte_reader" where
  "reader_of data = \<lparr>rd_data = data, rd_pos = 0\<rparr>"

definition remaining :: "byte_reader \<Rightarrow> nat" where
  "remaining r = length (rd_data r) - rd_pos r"

definition at_end :: "byte_reader \<Rightarrow> bool" where
  "at_end r \<longleftrightarrow> rd_pos r = length (rd_data r)"

type_synonym 'a getter = "byte_reader \<Rightarrow> 'a option \<times> byte_reader"

definition advance :: "nat \<Rightarrow> byte_reader \<Rightarrow> byte_reader" where
  "advance n r = r\<lparr>rd_pos := rd_pos r + n\<rparr>"

definition get_u8 :: "u8 getter" where
  "get_u8 r =
     (if remaining r < 1 then (None, r)
      else (Some (rd_data r ! rd_pos r), advance 1 r))"

definition get_u16 :: "u16 getter" where
  "get_u16 r =
     (if remaining r < 2 then (None, r)
      else (Some (foldl (\<lambda>value i. value OR push_bit (i * 8) (ucast (rd_data r ! (rd_pos r + i)))) 0 [0..<2]),
            advance 2 r))"

definition get_u32 :: "u32 getter" where
  "get_u32 r =
     (if remaining r < 4 then (None, r)
      else (Some (foldl (\<lambda>value i. value OR push_bit (i * 8) (ucast (rd_data r ! (rd_pos r + i)))) 0 [0..<4]),
            advance 4 r))"

definition get_u64 :: "u64 getter" where
  "get_u64 r =
     (if remaining r < 8 then (None, r)
      else (Some (foldl (\<lambda>value i. value OR push_bit (i * 8) (ucast (rd_data r ! (rd_pos r + i)))) 0 [0..<8]),
            advance 8 r))"

text \<open>The loop of \<open>get_var\<close>; \<open>start\<close> is where a failure puts the cursor back.\<close>

function get_var_loop :: "nat \<Rightarrow> byte_reader \<Rightarrow> u64 \<Rightarrow> nat \<Rightarrow> u64 option \<times> byte_reader" where
  "get_var_loop start r value shift =
     (if shift < 64 then
        (if length (rd_data r) \<le> rd_pos r then (None, r\<lparr>rd_pos := start\<rparr>)
         else
           let byte = rd_data r ! rd_pos r;
               r' = advance 1 r
           in if shift = 63 \<and> 1 < (byte AND varint_payload_mask)
              then (None, r'\<lparr>rd_pos := start\<rparr>)
              else
                let value' = value OR push_bit shift (ucast (byte AND varint_payload_mask))
                in if byte AND varint_more_bit = 0 then (Some value', r')
                   else get_var_loop start r' value' (shift + 7))
      else (None, r\<lparr>rd_pos := start\<rparr>))"
  by pat_completeness auto
termination
  by (relation "measure (\<lambda>(start, r, value, shift). 64 - shift)") auto

declare get_var_loop.simps [simp del]

definition get_var :: "u64 getter" where
  "get_var r = get_var_loop (rd_pos r) r 0 0"

definition get_svar :: "i64 getter" where
  "get_svar r =
     (case get_var r of
        (None, r') \<Rightarrow> (None, r')
      | (Some zig, r') \<Rightarrow>
          let sign_fill = NOT (zig AND 1) + 1
          in (Some (drop_bit 1 zig XOR sign_fill), r'))"

definition get_bool :: "bool getter" where
  "get_bool r =
     (case get_u8 r of
        (None, r') \<Rightarrow> (None, r')
      | (Some value, r') \<Rightarrow> (Some (value \<noteq> 0), r'))"

definition get_f64 :: "f64 getter" where
  "get_f64 r =
     (case get_u64 r of
        (None, r') \<Rightarrow> (None, r')
      | (Some bits, r') \<Rightarrow> (Some bits, r'))"

definition get_bytes :: "bytes getter" where
  "get_bytes r =
     (case get_var r of
        (None, r') \<Rightarrow> (None, r')
      | (Some len, r') \<Rightarrow>
          if remaining r' < unat len then (None, r'\<lparr>rd_pos := rd_pos r\<rparr>)
          else (Some (take (unat len) (drop (rd_pos r') (rd_data r'))), advance (unat len) r'))"

definition get_string :: "string getter" where
  "get_string r =
     (case get_var r of
        (None, r') \<Rightarrow> (None, r')
      | (Some len, r') \<Rightarrow>
          if remaining r' < unat len then (None, r'\<lparr>rd_pos := rd_pos r\<rparr>)
          else (Some (string_of_bytes (take (unat len) (drop (rd_pos r') (rd_data r')))),
                advance (unat len) r'))"

text \<open>
  The chains \<open>reader.get_x(..) && reader.get_y(..)\<close> of the callers: stop at the first getter that
  returns false.
\<close>

definition get_bind :: "'a getter \<Rightarrow> ('a \<Rightarrow> 'b getter) \<Rightarrow> 'b getter" where
  "get_bind m f r = (case m r of (None, r') \<Rightarrow> (None, r') | (Some x, r') \<Rightarrow> f x r')"

definition get_return :: "'a \<Rightarrow> 'a getter" where
  "get_return x r = (Some x, r)"

definition get_fail :: "'a getter" where
  "get_fail r = (None, r)"

section \<open>Cursor safety\<close>

text \<open>
  A reader is sound when its cursor lies inside its buffer.  A getter is safe when it keeps that,
  never changes the buffer, and only moves forward.
\<close>

definition reader_ok :: "byte_reader \<Rightarrow> bool" where
  "reader_ok r \<longleftrightarrow> rd_pos r \<le> length (rd_data r)"

definition safe_getter :: "'a getter \<Rightarrow> bool" where
  "safe_getter g \<longleftrightarrow> (\<forall>r. reader_ok r \<longrightarrow>
     reader_ok (snd (g r)) \<and> rd_data (snd (g r)) = rd_data r \<and> rd_pos r \<le> rd_pos (snd (g r)))"

lemma reader_of_ok [simp]: "reader_ok (reader_of data)"
  by (simp add: reader_ok_def reader_of_def)

lemma advance_simps [simp]:
  "rd_data (advance n r) = rd_data r" "rd_pos (advance n r) = rd_pos r + n"
  by (simp_all add: advance_def)

lemma get_var_loop_safe:
  "start \<le> rd_pos r \<Longrightarrow> reader_ok r \<Longrightarrow>
   reader_ok (snd (get_var_loop start r v shift)) \<and>
   rd_data (snd (get_var_loop start r v shift)) = rd_data r \<and>
   start \<le> rd_pos (snd (get_var_loop start r v shift))"
proof (induction start r v shift rule: get_var_loop.induct)
  case (1 start r v shift)
  let ?byte = "rd_data r ! rd_pos r"
  show ?case
  proof (cases "shift < 64 \<and> rd_pos r < length (rd_data r) \<and>
      \<not> (shift = 63 \<and> 1 < ?byte AND varint_payload_mask) \<and> ?byte AND varint_more_bit \<noteq> 0")
    case True
    then have "reader_ok (advance 1 r)" by (simp add: reader_ok_def)
    with 1 True show ?thesis
      by (auto simp: get_var_loop.simps [of start r v shift] Let_def not_le)
  next
    case False
    with "1.prems" show ?thesis
      by (auto simp: get_var_loop.simps [of start r v shift] Let_def reader_ok_def not_le)
  qed
qed

lemma get_var_safe [reader_safe]: "safe_getter get_var"
  by (simp add: safe_getter_def get_var_def get_var_loop_safe)

lemma get_u8_safe [reader_safe]: "safe_getter get_u8"
  by (auto simp: safe_getter_def get_u8_def reader_ok_def remaining_def)

lemma get_u16_safe [reader_safe]: "safe_getter get_u16"
  by (auto simp: safe_getter_def get_u16_def reader_ok_def remaining_def)

lemma get_u32_safe [reader_safe]: "safe_getter get_u32"
  by (auto simp: safe_getter_def get_u32_def reader_ok_def remaining_def)

lemma get_u64_safe [reader_safe]: "safe_getter get_u64"
  by (auto simp: safe_getter_def get_u64_def reader_ok_def remaining_def)

lemma safe_getter_step:
  "safe_getter g \<Longrightarrow> reader_ok r \<Longrightarrow> g r = (x, r') \<Longrightarrow>
   reader_ok r' \<and> rd_data r' = rd_data r \<and> rd_pos r \<le> rd_pos r'"
  by (metis safe_getter_def snd_conv)

lemma get_bytes_safe [reader_safe]: "safe_getter get_bytes"
  unfolding safe_getter_def
proof (intro allI impI)
  fix r
  assume ok: "reader_ok r"
  obtain x r' where g: "get_var r = (x, r')" by (cases "get_var r")
  note s = safe_getter_step [OF get_var_safe ok g]
  show "reader_ok (snd (get_bytes r)) \<and> rd_data (snd (get_bytes r)) = rd_data r \<and>
        rd_pos r \<le> rd_pos (snd (get_bytes r))"
    using s ok by (cases x) (auto simp: get_bytes_def g reader_ok_def remaining_def)
qed

lemma get_string_via_bytes:
  "get_string r = (case get_bytes r of (x, r') \<Rightarrow> (map_option string_of_bytes x, r'))"
  by (simp add: get_string_def get_bytes_def split: prod.splits option.splits)

lemma get_map_safe:
  "safe_getter g \<Longrightarrow> (\<And>r. snd (h r) = snd (g r)) \<Longrightarrow> safe_getter h"
  by (simp add: safe_getter_def)

lemma get_string_safe [reader_safe]: "safe_getter get_string"
  by (rule get_map_safe [OF get_bytes_safe]) (simp add: get_string_via_bytes split: prod.splits)

lemma get_svar_safe [reader_safe]: "safe_getter get_svar"
  by (rule get_map_safe [OF get_var_safe])
    (simp add: get_svar_def Let_def split: prod.splits option.splits)

lemma get_bool_safe [reader_safe]: "safe_getter get_bool"
  by (rule get_map_safe [OF get_u8_safe]) (simp add: get_bool_def split: prod.splits option.splits)

lemma get_f64_safe [reader_safe]: "safe_getter get_f64"
  by (rule get_map_safe [OF get_u64_safe]) (simp add: get_f64_def split: prod.splits option.splits)

lemma get_return_safe [reader_safe]: "safe_getter (get_return x)"
  by (simp add: safe_getter_def get_return_def)

lemma get_fail_safe [reader_safe]: "safe_getter get_fail"
  by (simp add: safe_getter_def get_fail_def)

lemma get_bind_safe [reader_safe]:
  assumes m: "safe_getter m" and f: "\<And>x. safe_getter (f x)"
  shows "safe_getter (get_bind m f)"
  unfolding safe_getter_def
proof (intro allI impI)
  fix r
  assume ok: "reader_ok r"
  obtain x r' where g: "m r = (x, r')" by (cases "m r")
  note s = safe_getter_step [OF m ok g]
  show "reader_ok (snd (get_bind m f r)) \<and> rd_data (snd (get_bind m f r)) = rd_data r \<and>
        rd_pos r \<le> rd_pos (snd (get_bind m f r))"
  proof (cases x)
    case None
    with s g show ?thesis by (simp add: get_bind_def)
  next
    case (Some y)
    obtain z r'' where h: "f y r' = (z, r'')" by (cases "f y r'")
    have "reader_ok r'' \<and> rd_data r'' = rd_data r' \<and> rd_pos r' \<le> rd_pos r''"
      using safe_getter_step [OF f _ h] s by blast
    with s g h Some show ?thesis by (auto simp: get_bind_def)
  qed
qed

lemma safe_getter_if [reader_safe]:
  "(b \<Longrightarrow> safe_getter g) \<Longrightarrow> (\<not> b \<Longrightarrow> safe_getter h) \<Longrightarrow> safe_getter (if b then g else h)"
  by simp

text \<open>A failed primitive read leaves the cursor where it was.\<close>

lemma get_var_loop_None:
  "get_var_loop start r v shift = (None, r') \<Longrightarrow> r' = r\<lparr>rd_pos := start\<rparr>"
proof (induction start r v shift rule: get_var_loop.induct)
  case (1 start r v shift)
  let ?byte = "rd_data r ! rd_pos r"
  show ?case
  proof (cases "shift < 64 \<and> rd_pos r < length (rd_data r) \<and>
      \<not> (shift = 63 \<and> 1 < ?byte AND varint_payload_mask) \<and> ?byte AND varint_more_bit \<noteq> 0")
    case True
    with 1 have "r' = (advance 1 r)\<lparr>rd_pos := start\<rparr>"
      by (auto simp: get_var_loop.simps [of start r v shift] Let_def not_le split: if_splits)
    then show ?thesis by (simp add: advance_def)
  next
    case False
    with "1.prems" show ?thesis
      by (auto simp: get_var_loop.simps [of start r v shift] Let_def not_le advance_def
        split: if_splits)
  qed
qed

lemma get_var_None: "get_var r = (None, r') \<Longrightarrow> r' = r"
  unfolding get_var_def by (drule get_var_loop_None) simp

section \<open>Reading back what was written\<close>

text \<open>
  \<open>parses g bs x\<close>: whatever surrounds them, the getter \<open>g\<close> reads the bytes \<open>bs\<close> as \<open>x\<close> and stops
  right behind them.
\<close>

definition unread :: "byte_reader \<Rightarrow> bytes" where
  "unread r = drop (rd_pos r) (rd_data r)"

definition parses :: "'a getter \<Rightarrow> bytes \<Rightarrow> 'a \<Rightarrow> bool" where
  "parses g bs x \<longleftrightarrow> (\<forall>r rest. reader_ok r \<longrightarrow> unread r = bs @ rest \<longrightarrow>
     g r = (Some x, advance (length bs) r))"

lemma unread_reader_of [simp]: "unread (reader_of data) = data"
  by (simp add: unread_def reader_of_def)

lemma unread_length: "reader_ok r \<Longrightarrow> length (unread r) = remaining r"
  by (simp add: unread_def remaining_def)

lemma unread_advance: "unread (advance n r) = drop n (unread r)"
  by (simp add: unread_def add.commute)

lemma unread_nth: "reader_ok r \<Longrightarrow> i < remaining r \<Longrightarrow> rd_data r ! (rd_pos r + i) = unread r ! i"
  by (simp add: unread_def reader_ok_def remaining_def)

lemma parsesI:
  "(\<And>r rest. reader_ok r \<Longrightarrow> unread r = bs @ rest \<Longrightarrow> length bs \<le> remaining r \<Longrightarrow>
      reader_ok (advance (length bs) r) \<Longrightarrow> unread (advance (length bs) r) = rest \<Longrightarrow>
      g r = (Some x, advance (length bs) r)) \<Longrightarrow> parses g bs x"
proof (unfold parses_def, intro allI impI)
  fix r rest
  assume step: "\<And>r rest. reader_ok r \<Longrightarrow> unread r = bs @ rest \<Longrightarrow> length bs \<le> remaining r \<Longrightarrow>
      reader_ok (advance (length bs) r) \<Longrightarrow> unread (advance (length bs) r) = rest \<Longrightarrow>
      g r = (Some x, advance (length bs) r)"
    and ok: "reader_ok r" and u: "unread r = bs @ rest"
  from u have "length bs + length rest = remaining r"
    using unread_length [OF ok] by simp
  then have l: "length bs \<le> remaining r" by simp
  then have "reader_ok (advance (length bs) r)"
    using ok by (simp add: reader_ok_def remaining_def)
  with step ok u l show "g r = (Some x, advance (length bs) r)"
    by (simp add: unread_advance)
qed

lemma parsesD: "parses g bs x \<Longrightarrow> reader_ok r \<Longrightarrow> unread r = bs @ rest \<Longrightarrow>
  g r = (Some x, advance (length bs) r)"
  by (simp add: parses_def)

lemma parses_whole: "parses g bs x \<Longrightarrow> g (reader_of (bs @ rest)) = (Some x, advance (length bs) (reader_of (bs @ rest)))"
  by (rule parsesD [where rest = rest]) simp_all

lemma parses_return [parse_rules]: "parses (get_return x) [] x"
  by (rule parsesI) (simp add: get_return_def advance_def)

lemma parses_bind [parse_rules]:
  assumes "parses g bs x" and "parses (f x) cs y"
  shows "parses (get_bind g f) (bs @ cs) y"
proof (rule parsesI)
  fix r rest
  assume ok: "reader_ok r" and u: "unread r = (bs @ cs) @ rest"
    and l: "length (bs @ cs) \<le> remaining r"
  have g: "g r = (Some x, advance (length bs) r)"
    using parsesD [OF assms(1) ok] u by simp
  have "reader_ok (advance (length bs) r)"
    using ok l by (simp add: reader_ok_def remaining_def)
  moreover have "unread (advance (length bs) r) = cs @ rest"
    using u by (simp add: unread_advance)
  ultimately have "f x (advance (length bs) r) = (Some y, advance (length cs) (advance (length bs) r))"
    by (rule parsesD [OF assms(2)])
  with g show "get_bind g f r = (Some y, advance (length (bs @ cs)) r)"
    by (simp add: get_bind_def advance_def add.assoc)
qed

lemma parses_bind_last [parse_rules]:
  "parses g bs x \<Longrightarrow> parses (f x) [] y \<Longrightarrow> parses (get_bind g f) bs y"
  using parses_bind [of g bs x f "[]" y] by simp

subsection \<open>Fixed-width integers\<close>

lemma parses_u8 [parse_rules]: "parses get_u8 (put_u8 x) x"
proof (rule parsesI)
  fix r rest
  assume ok: "reader_ok r" and u: "unread r = put_u8 x @ rest" and l: "length (put_u8 x) \<le> remaining r"
  have "rd_data r ! rd_pos r = x"
    using unread_nth [OF ok, of 0] u l by (simp add: put_u8_def)
  with l show "get_u8 r = (Some x, advance (length (put_u8 x)) r)"
    by (simp add: get_u8_def put_u8_def)
qed

text \<open>The assembling loop of the readers, fed with the bytes the writer's loop produced.\<close>

lemma le_loop:
  fixes x :: "'a::len word"
  assumes ok: "reader_ok r" and l: "n \<le> remaining r"
    and u: "unread r = map (\<lambda>i. ucast (drop_bit (i * 8) x)) [0..<n] @ rest"
    and w: "LENGTH('a) = 8 * n"
  shows "foldl (\<lambda>v i. v OR push_bit (i * 8) (ucast (rd_data r ! (rd_pos r + i)))) 0 [0..<n] = x"
proof -
  have nth: "\<And>i. i < n \<Longrightarrow> rd_data r ! (rd_pos r + i) = ucast (drop_bit (i * 8) x)"
    using unread_nth [OF ok] l by (simp add: u nth_append)
  have "foldl (\<lambda>v i. v OR push_bit (i * 8) (ucast (rd_data r ! (rd_pos r + i)))) 0 [0..<n]
      = foldl (\<lambda>v i. v OR push_bit (i * 8) (ucast (ucast (drop_bit (i * 8) x) :: u8))) 0 [0..<n]"
    by (rule foldl_cong) (simp_all add: nth)
  also have "\<dots> = take_bit (8 * n) x" by (rule le_assemble)
  also have "\<dots> = x" using w by (metis take_bit_length_eq)
  finally show ?thesis .
qed

lemma parses_u16 [parse_rules]: "parses get_u16 (put_u16 x) x"
  by (rule parsesI) (simp add: get_u16_def put_u16_def le_loop del: upt_rec_numeral upt_Suc)

lemma parses_u32 [parse_rules]: "parses get_u32 (put_u32 x) x"
  by (rule parsesI) (simp add: get_u32_def put_u32_def le_loop del: upt_rec_numeral upt_Suc)

lemma parses_u64 [parse_rules]: "parses get_u64 (put_u64 x) x"
  by (rule parsesI) (simp add: get_u64_def put_u64_def le_loop del: upt_rec_numeral upt_Suc)

lemma parses_f64 [parse_rules]: "parses get_f64 (put_f64 x) x"
  using parses_u64 [of x] by (simp add: parses_def get_f64_def put_f64_def)

lemma parses_bool [parse_rules]: "parses get_bool (put_bool x) x"
  using parses_u8 [of "if x then 1 else 0"]
  by (auto simp: parses_def get_bool_def put_bool_def put_u8_def)

subsection \<open>LEB128\<close>

lemma payload_mask: "b AND varint_payload_mask = take_bit 7 b"
  by (simp add: varint_payload_mask_def take_bit_eq_mask mask_eq_exp_minus_1)

lemma more_bit_exp: "varint_more_bit = 2 ^ 7"
  by (simp add: varint_more_bit_def)

lemma more_bit: "b AND varint_more_bit = 0 \<longleftrightarrow> \<not> bit b 7"
  by (simp only: more_bit_exp and_exp_eq_0_iff_not_bit)

lemma bit_more_bit: "bit varint_more_bit n \<longleftrightarrow> n = 7"
  unfolding more_bit_exp by (auto simp only: bit_exp_iff possible_bit_word) simp

lemma big_iff: "ucast varint_more_bit \<le> x \<longleftrightarrow> drop_bit 7 x \<noteq> 0" for x :: u64
proof -
  have "drop_bit 7 x = 0 \<longleftrightarrow> unat (drop_bit 7 x) = 0" by (simp only: unat_eq_zero)
  also have "\<dots> \<longleftrightarrow> unat x < 128"
    by (simp only: unat_drop_bit_eq) (simp add: drop_bit_eq_div div_eq_0_iff)
  finally have "drop_bit 7 x \<noteq> 0 \<longleftrightarrow> 128 \<le> unat x" by linarith
  moreover have "unat (ucast varint_more_bit :: u64) = 128" by (simp add: varint_more_bit_def)
  ultimately show ?thesis by (simp only: word_le_nat_alt)
qed

lemma put_var_small: "drop_bit 7 x = 0 \<Longrightarrow> put_var x = [ucast x]"
  by (simp add: put_var.simps [of x] big_iff)

lemma put_var_big:
  "drop_bit 7 x \<noteq> 0 \<Longrightarrow> put_var x = (ucast x OR varint_more_bit) # put_var (drop_bit 7 x)"
  by (simp add: put_var.simps [of x] big_iff)

lemma drop_bit_zero_iff: "drop_bit k x = 0 \<longleftrightarrow> (\<forall>n. bit x n \<longrightarrow> n < k)" for x :: "'a::len word"
proof
  assume "drop_bit k x = 0"
  then have "\<And>n. \<not> bit x (k + n)" by (metis bit_0_eq bit_drop_bit_eq bot_apply bot_bool_def comp_apply)
  then show "\<forall>n. bit x n \<longrightarrow> n < k" by (metis le_add_diff_inverse not_le)
next
  assume "\<forall>n. bit x n \<longrightarrow> n < k"
  then show "drop_bit k x = 0" by (intro bit_eqI) (auto simp: bit_simps)
qed

text \<open>
  One round of the loop.  After \<open>shift\<close> bits the accumulator holds the low bits, and what is left
  of the value, \<open>x\<close>, fits in the bits that remain.
\<close>

lemma get_var_loop_put_var:
  "\<lbrakk>drop_bit (64 - shift) x = 0; shift \<le> 63; 7 dvd shift; reader_ok r; unread r = put_var x @ rest\<rbrakk>
   \<Longrightarrow> get_var_loop start r v shift = (Some (v OR push_bit shift x), advance (length (put_var x)) r)"
proof (induction x arbitrary: r v shift rule: put_var.induct)
  case (1 x)
  note fits = "1.prems"(1) [unfolded drop_bit_zero_iff, rule_format]
  have "unread r \<noteq> []" using "1.prems"(5) put_var.simps [of x] by (simp split: if_splits)
  then have inside: "rd_pos r < length (rd_data r)" by (simp add: unread_def)
  then have ne: "unread r = rd_data r ! rd_pos r # drop (Suc (rd_pos r)) (rd_data r)"
    by (simp add: unread_def Cons_nth_drop_Suc)
  show ?case
  proof (cases "drop_bit 7 x = 0")
    case True
    then have low: "\<And>n. bit x n \<Longrightarrow> n < 7" by (simp add: drop_bit_zero_iff)
    have byte: "rd_data r ! rd_pos r = ucast x"
      using ne "1.prems"(5) put_var_small [OF True] by simp
    have "shift = 63 \<Longrightarrow> take_bit 7 (ucast x :: u8) = of_bool (bit x 0)"
      by (rule bit_eqI) (use fits in \<open>auto simp: bit_simps\<close>)
    then have top: "\<not> (shift = 63 \<and> 1 < take_bit 7 (ucast x :: u8))" by auto
    have low7: "ucast (take_bit 7 (ucast x :: u8)) = x"
      by (rule bit_eqI) (auto simp: bit_simps dest: low)
    have more: "\<not> bit (ucast x :: u8) 7" using low by (auto simp: bit_simps)
    show ?thesis
      using inside "1.prems"(2) top more low7
      by (simp add: get_var_loop.simps [of start r v shift] byte payload_mask more_bit Let_def
        put_var_small [OF True])
  next
    case False
    then obtain k where k: "bit x k" "7 \<le> k" by (auto simp: drop_bit_zero_iff not_less)
    then have "7 < 64 - shift" using fits by fastforce
    then have sh: "shift + 7 \<le> 63" "shift \<noteq> 63" using "1.prems"(2,3) by presburger+
    have byte: "rd_data r ! rd_pos r = ucast x OR varint_more_bit"
      and tail: "unread (advance 1 r) = put_var (drop_bit 7 x) @ rest"
      using ne "1.prems"(5) put_var_big [OF False] by (simp_all add: unread_def)
    have ok: "reader_ok (advance 1 r)" using inside by (simp add: reader_ok_def)
    have "drop_bit (64 - (shift + 7)) (drop_bit 7 x) = 0"
      using "1.prems"(1) sh by simp
    then have IH: "get_var_loop start (advance 1 r) w (shift + 7) =
        (Some (w OR push_bit (shift + 7) (drop_bit 7 x)),
         advance (length (put_var (drop_bit 7 x))) (advance 1 r))" for w
      using "1.IH" [of "shift + 7" "advance 1 r" w] False sh(1) "1.prems"(3) ok tail
      by (simp add: big_iff)
    have more: "bit (ucast x OR varint_more_bit) 7" by (simp add: bit_or_iff bit_more_bit)
    have glue: "(v OR push_bit shift (ucast (take_bit 7 (ucast x OR varint_more_bit)))) OR
        push_bit (shift + 7) (drop_bit 7 x) = v OR push_bit shift x"
    proof (rule bit_eqI)
      fix n
      have "\<not> n < shift + 7 \<Longrightarrow> 7 + (n - (shift + 7)) = n - shift" by arith
      then show "bit ((v OR push_bit shift (ucast (take_bit 7 (ucast x OR varint_more_bit)))) OR
          push_bit (shift + 7) (drop_bit 7 x)) n \<longleftrightarrow> bit (v OR push_bit shift x) n"
        by (cases "n < shift + 7") (auto simp: bit_simps bit_more_bit)
    qed
    show ?thesis
      using inside sh more glue IH
      by (simp add: get_var_loop.simps [of start r v shift] byte payload_mask more_bit Let_def
        put_var_big [OF False] advance_def)
  qed
qed

lemma parses_var [parse_rules]: "parses get_var (put_var x) x"
proof (rule parsesI)
  fix r rest
  assume "reader_ok r" and "unread r = put_var x @ rest"
  moreover have "drop_bit (64 - 0) x = 0" by (simp add: drop_bit_zero_iff bit_imp_le_length) 
  ultimately show "get_var r = (Some x, advance (length (put_var x)) r)"
    using get_var_loop_put_var [of 0 x r rest "rd_pos r" 0] by (simp add: get_var_def)
qed

subsection \<open>Zig-zag\<close>

definition zigzag :: "i64 \<Rightarrow> u64" where
  "zigzag x = push_bit 1 x XOR (if sint x < 0 then NOT 0 else 0)"

lemma put_svar_zigzag: "put_svar x = put_var (zigzag x)"
  by (simp add: put_svar_def zigzag_def Let_def)

lemma bit_zigzag: "bit (zigzag x) n \<longleftrightarrow> n < 64 \<and> ((0 < n \<and> bit x (n - 1)) \<noteq> bit x 63)"
proof -
  have "sint x < 0 \<longleftrightarrow> bit x 63" by (simp add: bit_last_iff [symmetric])
  then show ?thesis
    unfolding zigzag_def bit_xor_iff bit_push_bit_iff by (auto simp: bit_simps)
qed

lemma zag: "drop_bit 1 (zigzag x) XOR (NOT (zigzag x AND 1) + 1) = x"
proof -
  have low: "zigzag x AND 1 = of_bool (bit x 63)"
    by (rule bit_eqI) (auto simp: bit_simps bit_zigzag)
  have fill: "NOT (zigzag x AND 1) + 1 = (if bit x 63 then NOT 0 else 0)"
    by (simp add: low)
  show ?thesis
    unfolding fill
  proof (rule bit_eqI)
    fix n
    assume "possible_bit TYPE(64 word) n"
    then have "n < 64" by simp
    then show "bit (drop_bit 1 (zigzag x) XOR (if bit x 63 then NOT 0 else 0)) n = bit x n"
      by (cases "n = 63") (auto simp: bit_simps bit_zigzag)
  qed
qed

lemma parses_svar [parse_rules]: "parses get_svar (put_svar x) x"
  unfolding put_svar_zigzag parses_def
  using parsesD [OF parses_var [of "zigzag x"]] zag [of x] by (simp add: get_svar_def Let_def)

subsection \<open>Byte strings\<close>

text \<open>A length that a \<^verbatim>\<open>size_t\<close> holds.\<close>

definition fits64 :: "nat \<Rightarrow> bool" where
  "fits64 n \<longleftrightarrow> n < 2 ^ 64"

lemma unat_fits64: "fits64 n \<Longrightarrow> unat (word_of_nat n :: u64) = n"
  by (simp add: fits64_def unat_of_nat)

lemma parses_bytes [parse_rules]:
  assumes "fits64 (length bs)"
  shows "parses get_bytes (put_bytes bs) bs"
proof (rule parsesI)
  fix r rest
  let ?n = "length (put_var (word_of_nat (length bs)))"
  assume ok: "reader_ok r" and u: "unread r = put_bytes bs @ rest"
    and l: "length (put_bytes bs) \<le> remaining r"
  have g: "get_var r = (Some (word_of_nat (length bs)), advance ?n r)"
    using parsesD [OF parses_var ok] u by (simp add: put_bytes_def)
  have "unread (advance ?n r) = bs @ rest" using u by (simp add: unread_advance put_bytes_def)
  moreover have "length bs \<le> remaining (advance ?n r)"
    using l by (simp add: remaining_def put_bytes_def)
  ultimately show "get_bytes r = (Some bs, advance (length (put_bytes bs)) r)"
    using assms
    by (simp add: get_bytes_def g unat_fits64 unread_def put_bytes_def advance_def add.assoc)
qed

lemma put_string_bytes: "put_string s = put_bytes (bytes_of_string s)"
  by (simp add: put_string_def put_bytes_def)

lemma parses_string [parse_rules]: "fits64 (length s) \<Longrightarrow> parses get_string (put_string s) s"
  using parses_bytes [of "bytes_of_string s"]
  by (simp add: parses_def get_string_via_bytes put_string_bytes)

subsection \<open>Every encoder writes something\<close>

lemma put_var_nonempty [put_nonempty]: "put_var x \<noteq> []"
  by (simp add: put_var.simps [of x])

lemma put_string_nonempty [put_nonempty]: "put_string s \<noteq> []"
  by (simp add: put_string_def put_var_nonempty)

lemma put_bytes_nonempty [put_nonempty]: "put_bytes s \<noteq> []"
  by (simp add: put_bytes_def put_var_nonempty)

lemma put_u8_nonempty [put_nonempty]: "put_u8 x \<noteq> []"
  by (simp add: put_u8_def)

lemma put_svar_nonempty [put_nonempty]: "put_svar s \<noteq> []"
  by (simp add: put_svar_zigzag put_var_nonempty)

end
