(* ===== verification/Codec.thy ===== *)
theory Codec
  imports Byte_Buffer
begin

text \<open>
  The contract of one message of \<^verbatim>\<open>net/wire.cpp\<close>: a \<^verbatim>\<open>serialize\<close> that writes at least one
  byte, and a \<^verbatim>\<open>deserialize\<close> that reads it back.  \<open>norm\<close> is what the wire keeps of a message (an
  attribute carries only the value its type names).  The length-prefixed lists of the protocol are
  proved once here, for any element codec.
\<close>

section \<open>Length-prefixed lists\<close>

definition read_list_count :: "u64 \<Rightarrow> u64 getter" where
  "read_list_count cap r =
     (case get_var r of
        (None, r') \<Rightarrow> (None, r')
      | (Some count, r') \<Rightarrow>
          if count \<le> cap \<and> unat count \<le> remaining r' then (Some count, r') else (None, r'))"

text \<open>The loop that reads \<open>count\<close> elements and stops at the first that fails.\<close>

fun get_n :: "'a getter \<Rightarrow> nat \<Rightarrow> 'a list getter" where
  "get_n g 0 = get_return []"
| "get_n g (Suc n) = get_bind g (\<lambda>x. get_bind (get_n g n) (\<lambda>xs. get_return (x # xs)))"

definition get_list :: "u64 \<Rightarrow> 'a getter \<Rightarrow> 'a list getter" where
  "get_list cap g = get_bind (read_list_count cap) (\<lambda>count. get_n g (unat count))"

definition put_list :: "('a \<Rightarrow> bytes) \<Rightarrow> 'a list \<Rightarrow> bytes" where
  "put_list put xs = put_var (word_of_nat (length xs)) @ concat (map put xs)"

lemma put_list_nonempty [put_nonempty]: "put_list put xs \<noteq> []"
  by (simp add: put_list_def put_nonempty)

lemma read_list_count_safe [reader_safe]: "safe_getter (read_list_count cap)"
  by (rule get_map_safe [OF get_var_safe])
    (simp add: read_list_count_def split: prod.splits option.splits)

lemma get_n_safe: "safe_getter g \<Longrightarrow> safe_getter (get_n g n)"
  by (induction n) (auto intro: reader_safe)

lemma get_list_safe [reader_safe]: "safe_getter g \<Longrightarrow> safe_getter (get_list cap g)"
  by (auto simp: get_list_def intro: reader_safe get_n_safe)

lemma get_bind_Some:
  "get_bind m f r = (Some y, r'') \<longleftrightarrow> (\<exists>x r'. m r = (Some x, r') \<and> f x r' = (Some y, r''))"
  by (auto simp: get_bind_def split: prod.splits option.splits)

lemma get_return_Some: "get_return x r = (Some y, r') \<longleftrightarrow> y = x \<and> r' = r"
  by (auto simp: get_return_def)

lemma get_fail_Some [simp]: "get_fail r = (Some y, r') \<longleftrightarrow> False"
  by (simp add: get_fail_def)

lemma get_n_length: "get_n g n r = (Some xs, r') \<Longrightarrow> length xs = n"
  by (induction n arbitrary: r xs r') (auto simp: get_bind_Some get_return_Some)

lemma read_list_count_bound:
  assumes "read_list_count cap r = (Some count, r')"
  shows "count \<le> cap \<and> unat count \<le> remaining r'"
  using assms by (simp add: read_list_count_def split: prod.splits option.splits if_splits)

text \<open>What \<^verbatim>\<open>reserve\<close> may be asked for: never more than the cap.\<close>

lemma get_list_bound:
  assumes "get_list cap g r = (Some xs, r')"
  shows "length xs \<le> unat cap"
proof -
  from assms obtain count r1 where "read_list_count cap r = (Some count, r1)"
    and "get_n g (unat count) r1 = (Some xs, r')"
    by (auto simp: get_list_def get_bind_Some)
  then show ?thesis
    using read_list_count_bound get_n_length by (metis word_le_nat_alt)
qed

lemma concat_length_le:
  "(\<And>x. put x \<noteq> []) \<Longrightarrow> length xs \<le> length (concat (map put xs))"
proof (induction xs)
  case (Cons x xs)
  then have "0 < length (put x)" and "length xs \<le> length (concat (map put xs))" by simp_all
  then show ?case by (cases "put x") simp_all
qed simp

lemma parses_return_eq: "x = y \<Longrightarrow> parses (get_return x) [] y"
  by (simp add: parses_return)

lemma parses_if: "b \<Longrightarrow> parses g bs x \<Longrightarrow> parses (if b then g else h) bs x"
  by simp

lemma parses_if_not: "\<not> b \<Longrightarrow> parses h bs x \<Longrightarrow> parses (if b then g else h) bs x"
  by simp

lemma parses_count:
  assumes "length xs \<le> unat cap" and "\<And>x. put x \<noteq> []"
    and body: "parses (get_n g (length xs)) (concat (map put xs)) ys"
  shows "parses (get_list cap g) (put_list put xs) ys"
proof (rule parsesI)
  fix r rest
  let ?c = "word_of_nat (length xs) :: u64" and ?body = "concat (map put xs)"
  let ?n = "length (put_var ?c)"
  assume ok: "reader_ok r" and u: "unread r = put_list put xs @ rest"
    and l: "length (put_list put xs) \<le> remaining r"
  have len: "unat ?c = length xs"
    using le_less_trans [OF assms(1) unsigned_less [of cap]]
    by (simp add: unat_of_nat)
  have g: "get_var r = (Some ?c, advance ?n r)"
    using parsesD [OF parses_var ok] u by (simp add: put_list_def)
  have u': "unread (advance ?n r) = ?body @ rest" using u by (simp add: unread_advance put_list_def)
  have ok': "reader_ok (advance ?n r)"
    using ok l by (simp add: reader_ok_def remaining_def put_list_def)
  have "length xs \<le> length ?body" using assms(2) by (rule concat_length_le)
  also have "\<dots> \<le> remaining (advance ?n r)"
    using u' unread_length [OF ok'] by (metis le_add1 length_append)
  finally have c: "read_list_count cap r = (Some ?c, advance ?n r)"
    using assms(1) len by (simp add: read_list_count_def g word_le_nat_alt)
  have "get_n g (length xs) (advance ?n r) = (Some ys, advance (length ?body) (advance ?n r))"
    using parsesD [OF body ok' u'] .
  with c len show "get_list cap g r = (Some ys, advance (length (put_list put xs)) r)"
    by (simp add: get_list_def get_bind_def put_list_def advance_def add.assoc)
qed

section \<open>The contract of a message\<close>

locale codec =
  fixes put :: "'a \<Rightarrow> bytes" and get :: "'a getter" and ok :: "'a \<Rightarrow> bool" and norm :: "'a \<Rightarrow> 'a"
  assumes parses_put: "ok x \<Longrightarrow> parses get (put x) (norm x)"
    and put_pos: "put x \<noteq> []"
    and get_safe: "safe_getter get"
begin

lemma parses_n: "\<forall>x\<in>set xs. ok x \<Longrightarrow>
  parses (get_n get (length xs)) (concat (map put xs)) (map norm xs)"
proof (induction xs)
  case Nil
  then show ?case by (simp add: parses_return)
next
  case (Cons x xs)
  have "parses (get_n get (length (x # xs))) (put x @ concat (map put xs)) (map norm (x # xs))"
    unfolding length_Cons get_n.simps
    by (rule parses_bind [OF parses_put parses_bind_last])
      (use Cons in \<open>auto intro: parses_return_eq\<close>)
  then show ?case by simp
qed

lemma parses_list:
  assumes "\<forall>x\<in>set xs. ok x" and "length xs \<le> unat cap"
  shows "parses (get_list cap get) (put_list put xs) (map norm xs)"
  using assms(2) put_pos parses_n [OF assms(1)] by (rule parses_count)

lemma list_safe: "safe_getter (get_list cap get)"
  by (rule get_list_safe [OF get_safe])

text \<open>The whole buffer holds one message: it comes back, and nothing is left over.\<close>

lemma roundtrip: "ok x \<Longrightarrow>
  get (reader_of (put x)) = (Some (norm x), advance (length (put x)) (reader_of (put x)))"
  using parses_whole [OF parses_put, of x "[]"] by simp

lemma roundtrip_trailing: "ok x \<Longrightarrow> fst (get (reader_of (put x @ rest))) = Some (norm x)"
  using parses_whole [OF parses_put, of x rest] by simp

text \<open>Two messages with one encoding keep the same on the wire.\<close>

lemma put_inj: "ok x \<Longrightarrow> ok y \<Longrightarrow> put x = put y \<Longrightarrow> norm x = norm y"
  by (metis fst_conv option.inject roundtrip)

text \<open>No encoding is a proper prefix of another.\<close>

lemma prefix_free:
  assumes "ok x" and "ok y" and "put x @ r = put y @ s"
  shows "norm x = norm y \<and> put x = put y \<and> r = s"
proof -
  let ?buf = "reader_of (put x @ r)"
  have "get ?buf = (Some (norm x), advance (length (put x)) ?buf)"
    by (rule parses_whole [OF parses_put [OF assms(1)]])
  moreover have "get ?buf = (Some (norm y), advance (length (put y)) ?buf)"
    using parses_whole [OF parses_put [OF assms(2)], of s] assms(3) by simp
  ultimately have "norm x = norm y" and "length (put x) = length (put y)"
    by (simp_all add: advance_def reader_of_def)
  with assms(3) show ?thesis by simp
qed

end

text \<open>The strings of the protocol are such a codec, so lists of player ids are covered.\<close>

definition string_ok :: "string \<Rightarrow> bool" where
  "string_ok s \<longleftrightarrow> fits64 (length s)"

interpretation string_codec: codec put_string get_string string_ok id
  by unfold_locales (simp_all add: string_ok_def parse_rules put_nonempty reader_safe)

end
