(* ===== verification/Messages.thy ===== *)
theory Messages
  imports Prelude
begin

text \<open>
  \<^verbatim>\<open>net/messages.h\<close>: the message tags and the structs that travel between peers, field by field.
  A record field carries a short prefix of its struct, because field names are global.
\<close>

definition wire_protocol_version :: u8 where
  "wire_protocol_version = 2"

definition max_message_size :: u32 where
  "max_message_size = 4 * 1024 * 1024"

datatype message_type =
    mt_none
  | emu_infos_request | emu_infos_response
  | connect_request | connect_response | mt_connect_infos
  | p2p_connect_request | p2p_connect_response | mt_p2p_data | p2p_data_ack | p2p_connection_close
  | mt_session_infos | mt_session_search | mt_session_search_response | mt_session_join_request
  | mt_session_join_response | mt_session_destroy | session_register | session_unregister
  | mt_presence_request | mt_presence_info
  | mt_lobby_search | mt_lobby_search_response | mt_lobby_join_request | mt_lobby_join_response
  | mt_lobby_infos | lobby_leave | mt_lobby_member_update | mt_lobby_destroy
  | mt_net_advertise | peer_connected | peer_disconnected

fun tag_of :: "message_type \<Rightarrow> u16" where
  "tag_of mt_none = 0"
| "tag_of emu_infos_request = 1"
| "tag_of emu_infos_response = 2"
| "tag_of connect_request = 10"
| "tag_of connect_response = 11"
| "tag_of mt_connect_infos = 12"
| "tag_of p2p_connect_request = 20"
| "tag_of p2p_connect_response = 21"
| "tag_of mt_p2p_data = 22"
| "tag_of p2p_data_ack = 23"
| "tag_of p2p_connection_close = 24"
| "tag_of mt_session_infos = 30"
| "tag_of mt_session_search = 31"
| "tag_of mt_session_search_response = 32"
| "tag_of mt_session_join_request = 33"
| "tag_of mt_session_join_response = 34"
| "tag_of mt_session_destroy = 35"
| "tag_of session_register = 36"
| "tag_of session_unregister = 37"
| "tag_of mt_presence_request = 50"
| "tag_of mt_presence_info = 51"
| "tag_of mt_lobby_search = 60"
| "tag_of mt_lobby_search_response = 61"
| "tag_of mt_lobby_join_request = 62"
| "tag_of mt_lobby_join_response = 63"
| "tag_of mt_lobby_infos = 64"
| "tag_of lobby_leave = 65"
| "tag_of mt_lobby_member_update = 66"
| "tag_of mt_lobby_destroy = 67"
| "tag_of mt_net_advertise = 40"
| "tag_of peer_connected = 41"
| "tag_of peer_disconnected = 42"

record net_envelope =
  env_type_tag :: u16
  env_source_id :: string
  env_dest_id :: string
  env_game_id :: string
  env_timestamp :: i64
  env_payload :: bytes

record net_advertise =
  adv_product_user_id :: string
  adv_game_id :: string
  adv_tcp_port :: u16
  adv_udp_port :: u16

record emu_infos =
  emu_emulator :: string
  emu_appid :: string
  emu_country :: string
  emu_language :: string
  emu_username :: string

record connect_infos =
  ci_product_user_id :: string
  ci_display_name :: string

record p2p_data =
  pd_socket_name :: string
  pd_channel :: i32
  pd_data :: bytes

record session_attribute =
  sa_key :: string
  sa_value_type :: i32
  sa_as_bool :: bool
  sa_as_int64 :: i64
  sa_as_double :: f64
  sa_as_string :: string
  sa_advertisement :: i32

record session_infos =
  si_session_id :: string
  si_owner_id :: string
  si_bucket_id :: string
  si_host_address :: string
  si_max_players :: u32
  si_open_slots :: u32
  si_permission_level :: i32
  si_state :: i32
  si_allow_join_in_progress :: bool
  si_invites_allowed :: bool
  si_sanctions_enabled :: bool
  si_registered_players :: "string list"
  si_attributes :: "session_attribute list"

record search_parameter =
  sp_attribute :: session_attribute
  sp_comparison_op :: i32

record session_search =
  ss_search_id :: string
  ss_session_id :: string
  ss_target_user_id :: string
  ss_max_results :: u32
  ss_parameters :: "search_parameter list"

record session_search_response =
  ssr_search_id :: string
  ssr_sessions :: "session_infos list"

record session_join_request =
  sjq_session_id :: string

record session_join_response =
  sjr_session_id :: string
  sjr_player_id :: string
  sjr_reason :: i32

record session_destroy =
  sd_session_id :: string

record session_members =
  sm_session_id :: string
  sm_player_ids :: "string list"

record presence_data_record =
  pr_key :: string
  pr_value :: string

record presence_info =
  pi_epic_id :: string
  pi_status :: i32
  pi_product_id :: string
  pi_product_version :: string
  pi_platform :: string
  pi_rich_text :: string
  pi_product_name :: string
  pi_integrated_platform :: string
  pi_join_info :: string
  pi_records :: "presence_data_record list"

record presence_request =
  pq_target_epic_id :: string

record lobby_member =
  lm_user_id :: string
  lm_platform :: i32
  lm_attributes :: "session_attribute list"

record lobby_infos =
  li_lobby_id :: string
  li_owner_id :: string
  li_bucket_id :: string
  li_permission_level :: i32
  li_max_members :: u32
  li_available_slots :: u32
  li_allow_invites :: bool
  li_allow_host_migration :: bool
  li_allow_join_by_id :: bool
  li_rtc_enabled :: bool
  li_attributes :: "session_attribute list"
  li_members :: "lobby_member list"

record lobby_search =
  ls_search_id :: string
  ls_lobby_id :: string
  ls_target_user_id :: string
  ls_max_results :: u32
  ls_parameters :: "search_parameter list"

record lobby_search_response =
  lsr_search_id :: string
  lsr_lobbies :: "lobby_infos list"

record lobby_join_request =
  ljq_lobby_id :: string
  ljq_by_id :: bool
  ljq_member :: lobby_member

record lobby_join_response =
  ljr_lobby_id :: string
  ljr_player_id :: string
  ljr_reason :: i32

record lobby_member_update =
  lmu_lobby_id :: string
  lmu_member :: lobby_member

record lobby_destroy =
  ld_lobby_id :: string
  ld_reason :: i32

text \<open>A default-constructed attribute, which a \<^verbatim>\<open>deserialize\<close> fills in.\<close>

definition new_attribute :: session_attribute where
  "new_attribute = \<lparr>sa_key = [], sa_value_type = 0, sa_as_bool = False, sa_as_int64 = 0,
     sa_as_double = 0, sa_as_string = [], sa_advertisement = 0\<rparr>"

text \<open>No two tags share a number, so dispatching on the number is dispatching on the tag.\<close>

lemma tag_of_inj: "tag_of a = tag_of b \<Longrightarrow> a = b"
proof -
  define untag where "untag n = map_of [(tag_of t, t). t \<leftarrow> [mt_none, emu_infos_request,
    emu_infos_response, connect_request, connect_response, mt_connect_infos, p2p_connect_request,
    p2p_connect_response, mt_p2p_data, p2p_data_ack, p2p_connection_close, mt_session_infos,
    mt_session_search, mt_session_search_response, mt_session_join_request,
    mt_session_join_response, mt_session_destroy, session_register, session_unregister,
    mt_presence_request, mt_presence_info, mt_lobby_search, mt_lobby_search_response,
    mt_lobby_join_request, mt_lobby_join_response, mt_lobby_infos, lobby_leave,
    mt_lobby_member_update, mt_lobby_destroy, mt_net_advertise, peer_connected,
    peer_disconnected]] n" for n
  have "untag (tag_of t) = Some t" for t by (cases t) (simp_all add: untag_def)
  then show "tag_of a = tag_of b \<Longrightarrow> a = b" by (metis option.inject)
qed

end
