(* ===== verification/Wire.thy ===== *)
theory Wire
  imports Codec Messages
begin

text \<open>
  \<^verbatim>\<open>net/wire.cpp\<close>: one \<open>serialize_\<close> and one \<open>deserialize_\<close> per message, in the file's order, and the
  proof that each pair is a codec.  The \<open>_ok\<close> predicates say which messages the protocol can carry:
  strings whose length a \<^verbatim>\<open>size_t\<close> holds, lists within the receiver's caps, and an attribute type the
  receiver knows.  \<^verbatim>\<open>deserialize\<close> fills a message that its callers drop when it returns false, so the
  model returns the message or nothing.
\<close>

definition attribute_bool :: i32 where "attribute_bool = 0"
definition attribute_int64 :: i32 where "attribute_int64 = 1"
definition attribute_double :: i32 where "attribute_double = 2"
definition attribute_string :: i32 where "attribute_string = 3"

definition max_players_in_list :: u64 where "max_players_in_list = 1000"
definition max_attributes_in_list :: u64 where "max_attributes_in_list = 64"
definition max_search_parameters :: u64 where "max_search_parameters = 64"
definition max_search_results :: u64 where "max_search_results = 200"
definition max_data_records :: u64 where "max_data_records = 32"
definition max_lobby_members :: u64 where "max_lobby_members = 64"

lemmas list_caps = max_players_in_list_def max_attributes_in_list_def max_search_parameters_def
  max_search_results_def max_data_records_def max_lobby_members_def

lemmas attribute_types = attribute_bool_def attribute_int64_def attribute_double_def
  attribute_string_def

text \<open>An \<open>i32\<close> travels as an \<open>i64\<close> and is narrowed back.\<close>

lemma narrow_widen [simp]: "(ucast (scast (x :: i32) :: i64) :: i32) = x"
  by (rule bit_eqI) (auto simp: bit_simps)

lemma sint_widen [simp]: "sint (scast (x :: i32) :: i64) = sint x"
  by (simp add: sint_up_scast is_up)

section \<open>Envelope and discovery\<close>

definition serialize_net_envelope :: "net_envelope \<Rightarrow> bytes" where
  "serialize_net_envelope msg =
     put_u8 wire_protocol_version @
     put_u16 (env_type_tag msg) @
     put_string (env_source_id msg) @
     put_string (env_dest_id msg) @
     put_string (env_game_id msg) @
     put_svar (env_timestamp msg) @
     put_bytes (env_payload msg)"

definition deserialize_net_envelope :: "net_envelope getter" where
  "deserialize_net_envelope =
     get_bind get_u8 (\<lambda>version.
     if version \<noteq> wire_protocol_version then get_fail else
     get_bind get_u16 (\<lambda>type_tag.
     get_bind get_string (\<lambda>source_id.
     get_bind get_string (\<lambda>dest_id.
     get_bind get_string (\<lambda>game_id.
     get_bind get_svar (\<lambda>timestamp.
     get_bind get_bytes (\<lambda>payload.
     get_return \<lparr>env_type_tag = type_tag, env_source_id = source_id, env_dest_id = dest_id,
       env_game_id = game_id, env_timestamp = timestamp, env_payload = payload\<rparr>)))))))"

definition envelope_ok :: "net_envelope \<Rightarrow> bool" where
  "envelope_ok msg \<longleftrightarrow> string_ok (env_source_id msg) \<and> string_ok (env_dest_id msg) \<and>
     string_ok (env_game_id msg) \<and> fits64 (length (env_payload msg))"

interpretation envelope_codec: codec serialize_net_envelope deserialize_net_envelope envelope_ok id
proof
  fix x
  assume ok: "envelope_ok x"
  show "parses deserialize_net_envelope (serialize_net_envelope x) (id x)"
    unfolding serialize_net_envelope_def deserialize_net_envelope_def
    by (rule parses_bind, rule parse_rules, rule parses_if_not, simp)
      (rule parse_rules parses_return_eq |
        use ok in \<open>simp add: envelope_ok_def string_ok_def\<close>)+
next
  fix x
  show "serialize_net_envelope x \<noteq> []" by (simp add: serialize_net_envelope_def put_nonempty)
qed (auto simp: deserialize_net_envelope_def intro!: reader_safe)

lemmas [parse_rules] = string_codec.parses_list
lemmas [parse_rules] = envelope_codec.parses_put
lemmas [put_nonempty] = envelope_codec.put_pos
lemmas [reader_safe] = envelope_codec.get_safe

definition serialize_emu_infos :: "emu_infos \<Rightarrow> bytes" where
  "serialize_emu_infos msg =
     put_string (emu_emulator msg) @
     put_string (emu_appid msg) @
     put_string (emu_country msg) @
     put_string (emu_language msg) @
     put_string (emu_username msg)"

definition deserialize_emu_infos :: "emu_infos getter" where
  "deserialize_emu_infos =
     get_bind get_string (\<lambda>emulator.
     get_bind get_string (\<lambda>appid.
     get_bind get_string (\<lambda>country.
     get_bind get_string (\<lambda>language.
     get_bind get_string (\<lambda>username.
     get_return \<lparr>emu_emulator = emulator, emu_appid = appid, emu_country = country,
       emu_language = language, emu_username = username\<rparr>)))))"

definition emu_infos_ok :: "emu_infos \<Rightarrow> bool" where
  "emu_infos_ok msg \<longleftrightarrow>
     string_ok (emu_emulator msg) \<and>
     string_ok (emu_appid msg) \<and>
     string_ok (emu_country msg) \<and>
     string_ok (emu_language msg) \<and>
     string_ok (emu_username msg)"

interpretation emu_infos_codec: codec serialize_emu_infos deserialize_emu_infos emu_infos_ok id
proof
  fix x
  assume ok: "emu_infos_ok x"
  show "parses deserialize_emu_infos (serialize_emu_infos x) (id x)"
    unfolding serialize_emu_infos_def deserialize_emu_infos_def
    by (rule parse_rules parses_return_eq |
        use ok in \<open>simp add: emu_infos_ok_def string_ok_def\<close>)+
next
  fix x
  show "serialize_emu_infos x \<noteq> []" by (simp add: serialize_emu_infos_def put_nonempty)
qed (auto simp: deserialize_emu_infos_def intro!: reader_safe)

lemmas [parse_rules] = emu_infos_codec.parses_put emu_infos_codec.parses_list
lemmas [put_nonempty] = emu_infos_codec.put_pos
lemmas [reader_safe] = emu_infos_codec.get_safe

definition serialize_net_advertise :: "net_advertise \<Rightarrow> bytes" where
  "serialize_net_advertise msg =
     put_string (adv_product_user_id msg) @
     put_string (adv_game_id msg) @
     put_u16 (adv_tcp_port msg) @
     put_u16 (adv_udp_port msg)"

definition deserialize_net_advertise :: "net_advertise getter" where
  "deserialize_net_advertise =
     get_bind get_string (\<lambda>product_user_id.
     get_bind get_string (\<lambda>game_id.
     get_bind get_u16 (\<lambda>tcp_port.
     get_bind get_u16 (\<lambda>udp_port.
     get_return \<lparr>adv_product_user_id = product_user_id, adv_game_id = game_id,
       adv_tcp_port = tcp_port, adv_udp_port = udp_port\<rparr>))))"

definition net_advertise_ok :: "net_advertise \<Rightarrow> bool" where
  "net_advertise_ok msg \<longleftrightarrow>
     string_ok (adv_product_user_id msg) \<and>
     string_ok (adv_game_id msg)"

interpretation net_advertise_codec: codec serialize_net_advertise deserialize_net_advertise net_advertise_ok id
proof
  fix x
  assume ok: "net_advertise_ok x"
  show "parses deserialize_net_advertise (serialize_net_advertise x) (id x)"
    unfolding serialize_net_advertise_def deserialize_net_advertise_def
    by (rule parse_rules parses_return_eq |
        use ok in \<open>simp add: net_advertise_ok_def string_ok_def\<close>)+
next
  fix x
  show "serialize_net_advertise x \<noteq> []" by (simp add: serialize_net_advertise_def put_nonempty)
qed (auto simp: deserialize_net_advertise_def intro!: reader_safe)

lemmas [parse_rules] = net_advertise_codec.parses_put net_advertise_codec.parses_list
lemmas [put_nonempty] = net_advertise_codec.put_pos
lemmas [reader_safe] = net_advertise_codec.get_safe

definition serialize_connect_infos :: "connect_infos \<Rightarrow> bytes" where
  "serialize_connect_infos msg =
     put_string (ci_product_user_id msg) @
     put_string (ci_display_name msg)"

definition deserialize_connect_infos :: "connect_infos getter" where
  "deserialize_connect_infos =
     get_bind get_string (\<lambda>product_user_id.
     get_bind get_string (\<lambda>display_name.
     get_return \<lparr>ci_product_user_id = product_user_id, ci_display_name = display_name\<rparr>))"

definition connect_infos_ok :: "connect_infos \<Rightarrow> bool" where
  "connect_infos_ok msg \<longleftrightarrow>
     string_ok (ci_product_user_id msg) \<and>
     string_ok (ci_display_name msg)"

interpretation connect_infos_codec: codec serialize_connect_infos deserialize_connect_infos connect_infos_ok id
proof
  fix x
  assume ok: "connect_infos_ok x"
  show "parses deserialize_connect_infos (serialize_connect_infos x) (id x)"
    unfolding serialize_connect_infos_def deserialize_connect_infos_def
    by (rule parse_rules parses_return_eq |
        use ok in \<open>simp add: connect_infos_ok_def string_ok_def\<close>)+
next
  fix x
  show "serialize_connect_infos x \<noteq> []" by (simp add: serialize_connect_infos_def put_nonempty)
qed (auto simp: deserialize_connect_infos_def intro!: reader_safe)

lemmas [parse_rules] = connect_infos_codec.parses_put connect_infos_codec.parses_list
lemmas [put_nonempty] = connect_infos_codec.put_pos
lemmas [reader_safe] = connect_infos_codec.get_safe

section \<open>P2P packets\<close>

definition serialize_p2p_data :: "p2p_data \<Rightarrow> bytes" where
  "serialize_p2p_data msg =
     put_string (pd_socket_name msg) @
     put_svar (scast (pd_channel msg)) @
     put_bytes (pd_data msg)"

definition deserialize_p2p_data :: "p2p_data getter" where
  "deserialize_p2p_data =
     get_bind get_string (\<lambda>socket_name.
     get_bind get_svar (\<lambda>channel.
     if sint channel < - (2 ^ 31) \<or> 2 ^ 31 - 1 < sint channel then get_fail else
     get_bind get_bytes (\<lambda>data.
     get_return \<lparr>pd_socket_name = socket_name, pd_channel = ucast channel, pd_data = data\<rparr>)))"

definition p2p_data_ok :: "p2p_data \<Rightarrow> bool" where
  "p2p_data_ok msg \<longleftrightarrow> string_ok (pd_socket_name msg) \<and> fits64 (length (pd_data msg))"

lemma i32_range: "- (2 ^ 31) \<le> sint (x :: i32)" "sint (x :: i32) \<le> 2 ^ 31 - 1"
  using sint_range_size [of x] by (simp_all add: word_size)

interpretation p2p_data_codec: codec serialize_p2p_data deserialize_p2p_data p2p_data_ok id
proof
  fix x
  assume ok: "p2p_data_ok x"
  have in_range: "\<not> (sint (pd_channel x) < - (2 ^ 31) \<or> 2 ^ 31 - 1 < sint (pd_channel x))"
    using i32_range [of "pd_channel x"] by linarith
  show "parses deserialize_p2p_data (serialize_p2p_data x) (id x)"
    unfolding serialize_p2p_data_def deserialize_p2p_data_def
    by (rule parses_bind, rule parse_rules, use ok in \<open>simp add: p2p_data_ok_def string_ok_def\<close>,
        rule parses_bind, rule parse_rules, rule parses_if_not, use in_range in simp)
      (rule parse_rules parses_return_eq |
        use ok in \<open>simp add: p2p_data_ok_def string_ok_def\<close>)+
next
  fix x
  show "serialize_p2p_data x \<noteq> []" by (simp add: serialize_p2p_data_def put_nonempty)
qed (auto simp: deserialize_p2p_data_def intro!: reader_safe)

section \<open>Attributes\<close>

definition serialize_session_attribute :: "session_attribute \<Rightarrow> bytes" where
  "serialize_session_attribute msg =
     put_string (sa_key msg) @
     put_svar (scast (sa_value_type msg)) @
     put_svar (scast (sa_advertisement msg)) @
     (if sa_value_type msg = attribute_bool then put_bool (sa_as_bool msg)
      else if sa_value_type msg = attribute_int64 then put_svar (sa_as_int64 msg)
      else if sa_value_type msg = attribute_double then put_f64 (sa_as_double msg)
      else put_string (sa_as_string msg))"

definition deserialize_session_attribute :: "session_attribute getter" where
  "deserialize_session_attribute =
     get_bind get_string (\<lambda>key.
     get_bind get_svar (\<lambda>value_type.
     get_bind get_svar (\<lambda>advertisement.
     if sint value_type < sint attribute_bool \<or> sint attribute_string < sint value_type then get_fail
     else
       let msg = new_attribute\<lparr>sa_key := key, sa_value_type := ucast value_type,
                   sa_advertisement := ucast advertisement\<rparr>
       in if sa_value_type msg = attribute_bool then
            get_bind get_bool (\<lambda>v. get_return (msg\<lparr>sa_as_bool := v\<rparr>))
          else if sa_value_type msg = attribute_int64 then
            get_bind get_svar (\<lambda>v. get_return (msg\<lparr>sa_as_int64 := v\<rparr>))
          else if sa_value_type msg = attribute_double then
            get_bind get_f64 (\<lambda>v. get_return (msg\<lparr>sa_as_double := v\<rparr>))
          else
            get_bind get_string (\<lambda>v. get_return (msg\<lparr>sa_as_string := v\<rparr>)))))"

definition session_attribute_ok :: "session_attribute \<Rightarrow> bool" where
  "session_attribute_ok msg \<longleftrightarrow> string_ok (sa_key msg) \<and> string_ok (sa_as_string msg) \<and>
     sint attribute_bool \<le> sint (sa_value_type msg) \<and>
     sint (sa_value_type msg) \<le> sint attribute_string"

text \<open>Only the value the type names is on the wire; the others come back as their defaults.\<close>

definition session_attribute_norm :: "session_attribute \<Rightarrow> session_attribute" where
  "session_attribute_norm msg =
     new_attribute\<lparr>sa_key := sa_key msg, sa_value_type := sa_value_type msg,
       sa_advertisement := sa_advertisement msg,
       sa_as_bool := (if sa_value_type msg = attribute_bool then sa_as_bool msg else False),
       sa_as_int64 := (if sa_value_type msg = attribute_int64 then sa_as_int64 msg else 0),
       sa_as_double := (if sa_value_type msg = attribute_double then sa_as_double msg else 0),
       sa_as_string := (if sa_value_type msg \<in> {attribute_bool, attribute_int64, attribute_double}
                        then [] else sa_as_string msg)\<rparr>"

lemma parses_attribute_value:
  assumes "session_attribute_ok x"
    and msg: "msg = new_attribute\<lparr>sa_key := sa_key x, sa_value_type := sa_value_type x,
                sa_advertisement := sa_advertisement x\<rparr>"
  shows "parses
    (if sa_value_type msg = attribute_bool then
       get_bind get_bool (\<lambda>v. get_return (msg\<lparr>sa_as_bool := v\<rparr>))
     else if sa_value_type msg = attribute_int64 then
       get_bind get_svar (\<lambda>v. get_return (msg\<lparr>sa_as_int64 := v\<rparr>))
     else if sa_value_type msg = attribute_double then
       get_bind get_f64 (\<lambda>v. get_return (msg\<lparr>sa_as_double := v\<rparr>))
     else get_bind get_string (\<lambda>v. get_return (msg\<lparr>sa_as_string := v\<rparr>)))
    (if sa_value_type x = attribute_bool then put_bool (sa_as_bool x)
     else if sa_value_type x = attribute_int64 then put_svar (sa_as_int64 x)
     else if sa_value_type x = attribute_double then put_f64 (sa_as_double x)
     else put_string (sa_as_string x))
    (session_attribute_norm x)"
proof -
  have str: "fits64 (length (sa_as_string x))"
    using assms(1) by (simp add: session_attribute_ok_def string_ok_def)
  have types: "attribute_bool \<noteq> attribute_int64" "attribute_bool \<noteq> attribute_double"
      "attribute_int64 \<noteq> attribute_double"
    by (simp_all add: attribute_types)
  show ?thesis
    using types str
    by (auto simp: msg session_attribute_norm_def new_attribute_def
        intro!: parses_bind_last [OF parses_bool] parses_bind_last [OF parses_svar]
          parses_bind_last [OF parses_f64] parses_bind_last [OF parses_string] parses_return_eq)
qed

interpretation session_attribute_codec: codec serialize_session_attribute
  deserialize_session_attribute session_attribute_ok session_attribute_norm
proof
  fix x
  assume ok: "session_attribute_ok x"
  then have key: "fits64 (length (sa_key x))"
    and range: "\<not> (sint (sa_value_type x) < sint attribute_bool \<or>
                 sint attribute_string < sint (sa_value_type x))"
    by (simp_all add: session_attribute_ok_def string_ok_def not_less)
  show "parses deserialize_session_attribute (serialize_session_attribute x)
          (session_attribute_norm x)"
    unfolding serialize_session_attribute_def deserialize_session_attribute_def Let_def
    by (rule parses_bind [OF parses_string [OF key]], rule parses_bind [OF parses_svar],
        rule parses_bind [OF parses_svar], rule parses_if_not, use range in simp,
        rule parses_attribute_value [OF ok]) simp
next
  fix x
  show "serialize_session_attribute x \<noteq> []"
    by (simp add: serialize_session_attribute_def put_nonempty)
qed (auto simp: deserialize_session_attribute_def Let_def intro!: reader_safe)

lemmas [parse_rules] = p2p_data_codec.parses_put session_attribute_codec.parses_put
  session_attribute_codec.parses_list
lemmas [put_nonempty] = p2p_data_codec.put_pos session_attribute_codec.put_pos
lemmas [reader_safe] = p2p_data_codec.get_safe session_attribute_codec.get_safe

section \<open>Sessions\<close>

definition serialize_session_infos :: "session_infos \<Rightarrow> bytes" where
  "serialize_session_infos msg =
     put_string (si_session_id msg) @
     put_string (si_owner_id msg) @
     put_string (si_bucket_id msg) @
     put_string (si_host_address msg) @
     put_u32 (si_max_players msg) @
     put_u32 (si_open_slots msg) @
     put_svar (scast (si_permission_level msg)) @
     put_svar (scast (si_state msg)) @
     put_bool (si_allow_join_in_progress msg) @
     put_bool (si_invites_allowed msg) @
     put_bool (si_sanctions_enabled msg) @
     put_list put_string (si_registered_players msg) @
     put_list serialize_session_attribute (si_attributes msg)"

definition deserialize_session_infos :: "session_infos getter" where
  "deserialize_session_infos =
     get_bind get_string (\<lambda>session_id.
     get_bind get_string (\<lambda>owner_id.
     get_bind get_string (\<lambda>bucket_id.
     get_bind get_string (\<lambda>host_address.
     get_bind get_u32 (\<lambda>max_players.
     get_bind get_u32 (\<lambda>open_slots.
     get_bind get_svar (\<lambda>permission_level.
     get_bind get_svar (\<lambda>state.
     get_bind get_bool (\<lambda>allow_join_in_progress.
     get_bind get_bool (\<lambda>invites_allowed.
     get_bind get_bool (\<lambda>sanctions_enabled.
     get_bind (get_list max_players_in_list get_string) (\<lambda>registered_players.
     get_bind (get_list max_attributes_in_list deserialize_session_attribute) (\<lambda>attributes.
     get_return \<lparr>si_session_id = session_id, si_owner_id = owner_id, si_bucket_id = bucket_id,
       si_host_address = host_address, si_max_players = max_players,
       si_open_slots = open_slots, si_permission_level = ucast permission_level,
       si_state = ucast state, si_allow_join_in_progress = allow_join_in_progress,
       si_invites_allowed = invites_allowed, si_sanctions_enabled = sanctions_enabled,
       si_registered_players = registered_players, si_attributes = attributes\<rparr>)))))))))))))"

definition session_infos_ok :: "session_infos \<Rightarrow> bool" where
  "session_infos_ok msg \<longleftrightarrow>
     string_ok (si_session_id msg) \<and>
     string_ok (si_owner_id msg) \<and>
     string_ok (si_bucket_id msg) \<and>
     string_ok (si_host_address msg) \<and>
     (\<forall>e\<in>set (si_registered_players msg). string_ok e) \<and> length (si_registered_players msg) \<le> unat max_players_in_list \<and>
     (\<forall>e\<in>set (si_attributes msg). session_attribute_ok e) \<and> length (si_attributes msg) \<le> unat max_attributes_in_list"

definition session_infos_norm :: "session_infos \<Rightarrow> session_infos" where
  "session_infos_norm msg = msg\<lparr>si_attributes := map session_attribute_norm (si_attributes msg)\<rparr>"

interpretation session_infos_codec: codec serialize_session_infos deserialize_session_infos session_infos_ok session_infos_norm
proof
  fix x
  assume ok: "session_infos_ok x"
  show "parses deserialize_session_infos (serialize_session_infos x) (session_infos_norm x)"
    unfolding serialize_session_infos_def deserialize_session_infos_def
    by (rule parse_rules parses_return_eq |
        use ok in \<open>simp add: session_infos_ok_def string_ok_def session_infos_norm_def\<close>)+
next
  fix x
  show "serialize_session_infos x \<noteq> []" by (simp add: serialize_session_infos_def put_nonempty)
qed (auto simp: deserialize_session_infos_def intro!: reader_safe)

lemmas [parse_rules] = session_infos_codec.parses_put session_infos_codec.parses_list
lemmas [put_nonempty] = session_infos_codec.put_pos
lemmas [reader_safe] = session_infos_codec.get_safe

definition write_search_parameter :: "search_parameter \<Rightarrow> bytes" where
  "write_search_parameter msg =
     serialize_session_attribute (sp_attribute msg) @
     put_svar (scast (sp_comparison_op msg))"

definition read_search_parameter :: "search_parameter getter" where
  "read_search_parameter =
     get_bind deserialize_session_attribute (\<lambda>attribute.
     get_bind get_svar (\<lambda>comparison_op.
     get_return \<lparr>sp_attribute = attribute, sp_comparison_op = ucast comparison_op\<rparr>))"

definition search_parameter_ok :: "search_parameter \<Rightarrow> bool" where
  "search_parameter_ok msg \<longleftrightarrow>
     session_attribute_ok (sp_attribute msg)"

definition search_parameter_norm :: "search_parameter \<Rightarrow> search_parameter" where
  "search_parameter_norm msg = msg\<lparr>sp_attribute := session_attribute_norm (sp_attribute msg)\<rparr>"

interpretation search_parameter_codec: codec write_search_parameter read_search_parameter search_parameter_ok search_parameter_norm
proof
  fix x
  assume ok: "search_parameter_ok x"
  show "parses read_search_parameter (write_search_parameter x) (search_parameter_norm x)"
    unfolding write_search_parameter_def read_search_parameter_def
    by (rule parse_rules parses_return_eq |
        use ok in \<open>simp add: search_parameter_ok_def string_ok_def search_parameter_norm_def\<close>)+
next
  fix x
  show "write_search_parameter x \<noteq> []" by (simp add: write_search_parameter_def put_nonempty)
qed (auto simp: read_search_parameter_def intro!: reader_safe)

lemmas [parse_rules] = search_parameter_codec.parses_put search_parameter_codec.parses_list
lemmas [put_nonempty] = search_parameter_codec.put_pos
lemmas [reader_safe] = search_parameter_codec.get_safe

definition serialize_session_search :: "session_search \<Rightarrow> bytes" where
  "serialize_session_search msg =
     put_string (ss_search_id msg) @
     put_string (ss_session_id msg) @
     put_string (ss_target_user_id msg) @
     put_u32 (ss_max_results msg) @
     put_list write_search_parameter (ss_parameters msg)"

definition deserialize_session_search :: "session_search getter" where
  "deserialize_session_search =
     get_bind get_string (\<lambda>search_id.
     get_bind get_string (\<lambda>session_id.
     get_bind get_string (\<lambda>target_user_id.
     get_bind get_u32 (\<lambda>max_results.
     get_bind (get_list max_search_parameters read_search_parameter) (\<lambda>parameters.
     get_return \<lparr>ss_search_id = search_id, ss_session_id = session_id,
       ss_target_user_id = target_user_id, ss_max_results = max_results,
       ss_parameters = parameters\<rparr>)))))"

definition session_search_ok :: "session_search \<Rightarrow> bool" where
  "session_search_ok msg \<longleftrightarrow>
     string_ok (ss_search_id msg) \<and>
     string_ok (ss_session_id msg) \<and>
     string_ok (ss_target_user_id msg) \<and>
     (\<forall>e\<in>set (ss_parameters msg). search_parameter_ok e) \<and> length (ss_parameters msg) \<le> unat max_search_parameters"

definition session_search_norm :: "session_search \<Rightarrow> session_search" where
  "session_search_norm msg = msg\<lparr>ss_parameters := map search_parameter_norm (ss_parameters msg)\<rparr>"

interpretation session_search_codec: codec serialize_session_search deserialize_session_search session_search_ok session_search_norm
proof
  fix x
  assume ok: "session_search_ok x"
  show "parses deserialize_session_search (serialize_session_search x) (session_search_norm x)"
    unfolding serialize_session_search_def deserialize_session_search_def
    by (rule parse_rules parses_return_eq |
        use ok in \<open>simp add: session_search_ok_def string_ok_def session_search_norm_def\<close>)+
next
  fix x
  show "serialize_session_search x \<noteq> []" by (simp add: serialize_session_search_def put_nonempty)
qed (auto simp: deserialize_session_search_def intro!: reader_safe)

lemmas [parse_rules] = session_search_codec.parses_put session_search_codec.parses_list
lemmas [put_nonempty] = session_search_codec.put_pos
lemmas [reader_safe] = session_search_codec.get_safe

definition serialize_session_search_response :: "session_search_response \<Rightarrow> bytes" where
  "serialize_session_search_response msg =
     put_string (ssr_search_id msg) @
     put_list serialize_session_infos (ssr_sessions msg)"

definition deserialize_session_search_response :: "session_search_response getter" where
  "deserialize_session_search_response =
     get_bind get_string (\<lambda>search_id.
     get_bind (get_list max_search_results deserialize_session_infos) (\<lambda>sessions.
     get_return \<lparr>ssr_search_id = search_id, ssr_sessions = sessions\<rparr>))"

definition session_search_response_ok :: "session_search_response \<Rightarrow> bool" where
  "session_search_response_ok msg \<longleftrightarrow>
     string_ok (ssr_search_id msg) \<and>
     (\<forall>e\<in>set (ssr_sessions msg). session_infos_ok e) \<and> length (ssr_sessions msg) \<le> unat max_search_results"

definition session_search_response_norm :: "session_search_response \<Rightarrow> session_search_response" where
  "session_search_response_norm msg = msg\<lparr>ssr_sessions := map session_infos_norm (ssr_sessions msg)\<rparr>"

interpretation session_search_response_codec: codec serialize_session_search_response deserialize_session_search_response session_search_response_ok session_search_response_norm
proof
  fix x
  assume ok: "session_search_response_ok x"
  show "parses deserialize_session_search_response (serialize_session_search_response x) (session_search_response_norm x)"
    unfolding serialize_session_search_response_def deserialize_session_search_response_def
    by (rule parse_rules parses_return_eq |
        use ok in \<open>simp add: session_search_response_ok_def string_ok_def session_search_response_norm_def\<close>)+
next
  fix x
  show "serialize_session_search_response x \<noteq> []" by (simp add: serialize_session_search_response_def put_nonempty)
qed (auto simp: deserialize_session_search_response_def intro!: reader_safe)

lemmas [parse_rules] = session_search_response_codec.parses_put session_search_response_codec.parses_list
lemmas [put_nonempty] = session_search_response_codec.put_pos
lemmas [reader_safe] = session_search_response_codec.get_safe

definition serialize_session_join_request :: "session_join_request \<Rightarrow> bytes" where
  "serialize_session_join_request msg =
     put_string (sjq_session_id msg)"

definition deserialize_session_join_request :: "session_join_request getter" where
  "deserialize_session_join_request =
     get_bind get_string (\<lambda>session_id.
     get_return \<lparr>sjq_session_id = session_id\<rparr>)"

definition session_join_request_ok :: "session_join_request \<Rightarrow> bool" where
  "session_join_request_ok msg \<longleftrightarrow>
     string_ok (sjq_session_id msg)"

interpretation session_join_request_codec: codec serialize_session_join_request deserialize_session_join_request session_join_request_ok id
proof
  fix x
  assume ok: "session_join_request_ok x"
  show "parses deserialize_session_join_request (serialize_session_join_request x) (id x)"
    unfolding serialize_session_join_request_def deserialize_session_join_request_def
    by (rule parse_rules parses_return_eq |
        use ok in \<open>simp add: session_join_request_ok_def string_ok_def\<close>)+
next
  fix x
  show "serialize_session_join_request x \<noteq> []" by (simp add: serialize_session_join_request_def put_nonempty)
qed (auto simp: deserialize_session_join_request_def intro!: reader_safe)

lemmas [parse_rules] = session_join_request_codec.parses_put session_join_request_codec.parses_list
lemmas [put_nonempty] = session_join_request_codec.put_pos
lemmas [reader_safe] = session_join_request_codec.get_safe

definition serialize_session_join_response :: "session_join_response \<Rightarrow> bytes" where
  "serialize_session_join_response msg =
     put_string (sjr_session_id msg) @
     put_string (sjr_player_id msg) @
     put_svar (scast (sjr_reason msg))"

definition deserialize_session_join_response :: "session_join_response getter" where
  "deserialize_session_join_response =
     get_bind get_string (\<lambda>session_id.
     get_bind get_string (\<lambda>player_id.
     get_bind get_svar (\<lambda>reason.
     get_return \<lparr>sjr_session_id = session_id, sjr_player_id = player_id, sjr_reason = ucast reason\<rparr>)))"

definition session_join_response_ok :: "session_join_response \<Rightarrow> bool" where
  "session_join_response_ok msg \<longleftrightarrow>
     string_ok (sjr_session_id msg) \<and>
     string_ok (sjr_player_id msg)"

interpretation session_join_response_codec: codec serialize_session_join_response deserialize_session_join_response session_join_response_ok id
proof
  fix x
  assume ok: "session_join_response_ok x"
  show "parses deserialize_session_join_response (serialize_session_join_response x) (id x)"
    unfolding serialize_session_join_response_def deserialize_session_join_response_def
    by (rule parse_rules parses_return_eq |
        use ok in \<open>simp add: session_join_response_ok_def string_ok_def\<close>)+
next
  fix x
  show "serialize_session_join_response x \<noteq> []" by (simp add: serialize_session_join_response_def put_nonempty)
qed (auto simp: deserialize_session_join_response_def intro!: reader_safe)

lemmas [parse_rules] = session_join_response_codec.parses_put session_join_response_codec.parses_list
lemmas [put_nonempty] = session_join_response_codec.put_pos
lemmas [reader_safe] = session_join_response_codec.get_safe

definition serialize_session_destroy :: "session_destroy \<Rightarrow> bytes" where
  "serialize_session_destroy msg =
     put_string (sd_session_id msg)"

definition deserialize_session_destroy :: "session_destroy getter" where
  "deserialize_session_destroy =
     get_bind get_string (\<lambda>session_id.
     get_return \<lparr>sd_session_id = session_id\<rparr>)"

definition session_destroy_ok :: "session_destroy \<Rightarrow> bool" where
  "session_destroy_ok msg \<longleftrightarrow>
     string_ok (sd_session_id msg)"

interpretation session_destroy_codec: codec serialize_session_destroy deserialize_session_destroy session_destroy_ok id
proof
  fix x
  assume ok: "session_destroy_ok x"
  show "parses deserialize_session_destroy (serialize_session_destroy x) (id x)"
    unfolding serialize_session_destroy_def deserialize_session_destroy_def
    by (rule parse_rules parses_return_eq |
        use ok in \<open>simp add: session_destroy_ok_def string_ok_def\<close>)+
next
  fix x
  show "serialize_session_destroy x \<noteq> []" by (simp add: serialize_session_destroy_def put_nonempty)
qed (auto simp: deserialize_session_destroy_def intro!: reader_safe)

lemmas [parse_rules] = session_destroy_codec.parses_put session_destroy_codec.parses_list
lemmas [put_nonempty] = session_destroy_codec.put_pos
lemmas [reader_safe] = session_destroy_codec.get_safe

definition serialize_session_members :: "session_members \<Rightarrow> bytes" where
  "serialize_session_members msg =
     put_string (sm_session_id msg) @
     put_list put_string (sm_player_ids msg)"

definition deserialize_session_members :: "session_members getter" where
  "deserialize_session_members =
     get_bind get_string (\<lambda>session_id.
     get_bind (get_list max_players_in_list get_string) (\<lambda>player_ids.
     get_return \<lparr>sm_session_id = session_id, sm_player_ids = player_ids\<rparr>))"

definition session_members_ok :: "session_members \<Rightarrow> bool" where
  "session_members_ok msg \<longleftrightarrow>
     string_ok (sm_session_id msg) \<and>
     (\<forall>e\<in>set (sm_player_ids msg). string_ok e) \<and> length (sm_player_ids msg) \<le> unat max_players_in_list"

interpretation session_members_codec: codec serialize_session_members deserialize_session_members session_members_ok id
proof
  fix x
  assume ok: "session_members_ok x"
  show "parses deserialize_session_members (serialize_session_members x) (id x)"
    unfolding serialize_session_members_def deserialize_session_members_def
    by (rule parse_rules parses_return_eq |
        use ok in \<open>simp add: session_members_ok_def string_ok_def\<close>)+
next
  fix x
  show "serialize_session_members x \<noteq> []" by (simp add: serialize_session_members_def put_nonempty)
qed (auto simp: deserialize_session_members_def intro!: reader_safe)

lemmas [parse_rules] = session_members_codec.parses_put session_members_codec.parses_list
lemmas [put_nonempty] = session_members_codec.put_pos
lemmas [reader_safe] = session_members_codec.get_safe

section \<open>Presence\<close>

definition write_data_record :: "presence_data_record \<Rightarrow> bytes" where
  "write_data_record msg =
     put_string (pr_key msg) @
     put_string (pr_value msg)"

definition read_data_record :: "presence_data_record getter" where
  "read_data_record =
     get_bind get_string (\<lambda>key.
     get_bind get_string (\<lambda>value.
     get_return \<lparr>pr_key = key, pr_value = value\<rparr>))"

definition presence_data_record_ok :: "presence_data_record \<Rightarrow> bool" where
  "presence_data_record_ok msg \<longleftrightarrow>
     string_ok (pr_key msg) \<and>
     string_ok (pr_value msg)"

interpretation presence_data_record_codec: codec write_data_record read_data_record presence_data_record_ok id
proof
  fix x
  assume ok: "presence_data_record_ok x"
  show "parses read_data_record (write_data_record x) (id x)"
    unfolding write_data_record_def read_data_record_def
    by (rule parse_rules parses_return_eq |
        use ok in \<open>simp add: presence_data_record_ok_def string_ok_def\<close>)+
next
  fix x
  show "write_data_record x \<noteq> []" by (simp add: write_data_record_def put_nonempty)
qed (auto simp: read_data_record_def intro!: reader_safe)

lemmas [parse_rules] = presence_data_record_codec.parses_put presence_data_record_codec.parses_list
lemmas [put_nonempty] = presence_data_record_codec.put_pos
lemmas [reader_safe] = presence_data_record_codec.get_safe

definition serialize_presence_info :: "presence_info \<Rightarrow> bytes" where
  "serialize_presence_info msg =
     put_string (pi_epic_id msg) @
     put_svar (scast (pi_status msg)) @
     put_string (pi_product_id msg) @
     put_string (pi_product_version msg) @
     put_string (pi_platform msg) @
     put_string (pi_rich_text msg) @
     put_string (pi_product_name msg) @
     put_string (pi_integrated_platform msg) @
     put_string (pi_join_info msg) @
     put_list write_data_record (pi_records msg)"

definition deserialize_presence_info :: "presence_info getter" where
  "deserialize_presence_info =
     get_bind get_string (\<lambda>epic_id.
     get_bind get_svar (\<lambda>status.
     get_bind get_string (\<lambda>product_id.
     get_bind get_string (\<lambda>product_version.
     get_bind get_string (\<lambda>platform.
     get_bind get_string (\<lambda>rich_text.
     get_bind get_string (\<lambda>product_name.
     get_bind get_string (\<lambda>integrated_platform.
     get_bind get_string (\<lambda>join_info.
     get_bind (get_list max_data_records read_data_record) (\<lambda>records.
     get_return \<lparr>pi_epic_id = epic_id, pi_status = ucast status, pi_product_id = product_id,
       pi_product_version = product_version, pi_platform = platform,
       pi_rich_text = rich_text, pi_product_name = product_name,
       pi_integrated_platform = integrated_platform, pi_join_info = join_info,
       pi_records = records\<rparr>))))))))))"

definition presence_info_ok :: "presence_info \<Rightarrow> bool" where
  "presence_info_ok msg \<longleftrightarrow>
     string_ok (pi_epic_id msg) \<and>
     string_ok (pi_product_id msg) \<and>
     string_ok (pi_product_version msg) \<and>
     string_ok (pi_platform msg) \<and>
     string_ok (pi_rich_text msg) \<and>
     string_ok (pi_product_name msg) \<and>
     string_ok (pi_integrated_platform msg) \<and>
     string_ok (pi_join_info msg) \<and>
     (\<forall>e\<in>set (pi_records msg). presence_data_record_ok e) \<and> length (pi_records msg) \<le> unat max_data_records"

interpretation presence_info_codec: codec serialize_presence_info deserialize_presence_info presence_info_ok id
proof
  fix x
  assume ok: "presence_info_ok x"
  show "parses deserialize_presence_info (serialize_presence_info x) (id x)"
    unfolding serialize_presence_info_def deserialize_presence_info_def
    by (rule parse_rules parses_return_eq |
        use ok in \<open>simp add: presence_info_ok_def string_ok_def\<close>)+
next
  fix x
  show "serialize_presence_info x \<noteq> []" by (simp add: serialize_presence_info_def put_nonempty)
qed (auto simp: deserialize_presence_info_def intro!: reader_safe)

lemmas [parse_rules] = presence_info_codec.parses_put presence_info_codec.parses_list
lemmas [put_nonempty] = presence_info_codec.put_pos
lemmas [reader_safe] = presence_info_codec.get_safe

definition serialize_presence_request :: "presence_request \<Rightarrow> bytes" where
  "serialize_presence_request msg =
     put_string (pq_target_epic_id msg)"

definition deserialize_presence_request :: "presence_request getter" where
  "deserialize_presence_request =
     get_bind get_string (\<lambda>target_epic_id.
     get_return \<lparr>pq_target_epic_id = target_epic_id\<rparr>)"

definition presence_request_ok :: "presence_request \<Rightarrow> bool" where
  "presence_request_ok msg \<longleftrightarrow>
     string_ok (pq_target_epic_id msg)"

interpretation presence_request_codec: codec serialize_presence_request deserialize_presence_request presence_request_ok id
proof
  fix x
  assume ok: "presence_request_ok x"
  show "parses deserialize_presence_request (serialize_presence_request x) (id x)"
    unfolding serialize_presence_request_def deserialize_presence_request_def
    by (rule parse_rules parses_return_eq |
        use ok in \<open>simp add: presence_request_ok_def string_ok_def\<close>)+
next
  fix x
  show "serialize_presence_request x \<noteq> []" by (simp add: serialize_presence_request_def put_nonempty)
qed (auto simp: deserialize_presence_request_def intro!: reader_safe)

lemmas [parse_rules] = presence_request_codec.parses_put presence_request_codec.parses_list
lemmas [put_nonempty] = presence_request_codec.put_pos
lemmas [reader_safe] = presence_request_codec.get_safe

end
