(* ===== verification/Wire_Lobby.thy ===== *)
theory Wire_Lobby
  imports Wire
begin

text \<open>
  The lobby half of \<^verbatim>\<open>net/wire.cpp\<close>: members with their own attributes, lobbies, searches, joins
  and teardown.
\<close>

definition write_member :: "lobby_member \<Rightarrow> bytes" where
  "write_member msg =
     put_string (lm_user_id msg) @
     put_svar (scast (lm_platform msg)) @
     put_list serialize_session_attribute (lm_attributes msg)"

definition read_member :: "lobby_member getter" where
  "read_member =
     get_bind get_string (\<lambda>user_id.
     get_bind get_svar (\<lambda>platform.
     get_bind (get_list max_attributes_in_list deserialize_session_attribute) (\<lambda>attributes.
     get_return \<lparr>lm_user_id = user_id, lm_platform = ucast platform, lm_attributes = attributes\<rparr>)))"

definition lobby_member_ok :: "lobby_member \<Rightarrow> bool" where
  "lobby_member_ok msg \<longleftrightarrow>
     string_ok (lm_user_id msg) \<and>
     (\<forall>e\<in>set (lm_attributes msg). session_attribute_ok e) \<and> length (lm_attributes msg) \<le> unat max_attributes_in_list"

definition lobby_member_norm :: "lobby_member \<Rightarrow> lobby_member" where
  "lobby_member_norm msg = msg\<lparr>lm_attributes := map session_attribute_norm (lm_attributes msg)\<rparr>"

interpretation lobby_member_codec: codec write_member read_member lobby_member_ok lobby_member_norm
proof
  fix x
  assume ok: "lobby_member_ok x"
  show "parses read_member (write_member x) (lobby_member_norm x)"
    unfolding write_member_def read_member_def
    by (rule parse_rules parses_return_eq |
        use ok in \<open>simp add: lobby_member_ok_def string_ok_def lobby_member_norm_def\<close>)+
next
  fix x
  show "write_member x \<noteq> []" by (simp add: write_member_def put_nonempty)
qed (auto simp: read_member_def intro!: reader_safe)

lemmas [parse_rules] = lobby_member_codec.parses_put lobby_member_codec.parses_list
lemmas [put_nonempty] = lobby_member_codec.put_pos
lemmas [reader_safe] = lobby_member_codec.get_safe

definition serialize_lobby_infos :: "lobby_infos \<Rightarrow> bytes" where
  "serialize_lobby_infos msg =
     put_string (li_lobby_id msg) @
     put_string (li_owner_id msg) @
     put_string (li_bucket_id msg) @
     put_svar (scast (li_permission_level msg)) @
     put_u32 (li_max_members msg) @
     put_u32 (li_available_slots msg) @
     put_bool (li_allow_invites msg) @
     put_bool (li_allow_host_migration msg) @
     put_bool (li_allow_join_by_id msg) @
     put_bool (li_rtc_enabled msg) @
     put_list serialize_session_attribute (li_attributes msg) @
     put_list write_member (li_members msg)"

definition deserialize_lobby_infos :: "lobby_infos getter" where
  "deserialize_lobby_infos =
     get_bind get_string (\<lambda>lobby_id.
     get_bind get_string (\<lambda>owner_id.
     get_bind get_string (\<lambda>bucket_id.
     get_bind get_svar (\<lambda>permission_level.
     get_bind get_u32 (\<lambda>max_members.
     get_bind get_u32 (\<lambda>available_slots.
     get_bind get_bool (\<lambda>allow_invites.
     get_bind get_bool (\<lambda>allow_host_migration.
     get_bind get_bool (\<lambda>allow_join_by_id.
     get_bind get_bool (\<lambda>rtc_enabled.
     get_bind (get_list max_attributes_in_list deserialize_session_attribute) (\<lambda>attributes.
     get_bind (get_list max_lobby_members read_member) (\<lambda>members.
     get_return \<lparr>li_lobby_id = lobby_id, li_owner_id = owner_id, li_bucket_id = bucket_id,
       li_permission_level = ucast permission_level, li_max_members = max_members,
       li_available_slots = available_slots, li_allow_invites = allow_invites,
       li_allow_host_migration = allow_host_migration,
       li_allow_join_by_id = allow_join_by_id, li_rtc_enabled = rtc_enabled,
       li_attributes = attributes, li_members = members\<rparr>))))))))))))"

definition lobby_infos_ok :: "lobby_infos \<Rightarrow> bool" where
  "lobby_infos_ok msg \<longleftrightarrow>
     string_ok (li_lobby_id msg) \<and>
     string_ok (li_owner_id msg) \<and>
     string_ok (li_bucket_id msg) \<and>
     (\<forall>e\<in>set (li_attributes msg). session_attribute_ok e) \<and> length (li_attributes msg) \<le> unat max_attributes_in_list \<and>
     (\<forall>e\<in>set (li_members msg). lobby_member_ok e) \<and> length (li_members msg) \<le> unat max_lobby_members"

definition lobby_infos_norm :: "lobby_infos \<Rightarrow> lobby_infos" where
  "lobby_infos_norm msg = msg\<lparr>li_attributes := map session_attribute_norm (li_attributes msg), li_members := map lobby_member_norm (li_members msg)\<rparr>"

interpretation lobby_infos_codec: codec serialize_lobby_infos deserialize_lobby_infos lobby_infos_ok lobby_infos_norm
proof
  fix x
  assume ok: "lobby_infos_ok x"
  show "parses deserialize_lobby_infos (serialize_lobby_infos x) (lobby_infos_norm x)"
    unfolding serialize_lobby_infos_def deserialize_lobby_infos_def
    by (rule parse_rules parses_return_eq |
        use ok in \<open>simp add: lobby_infos_ok_def string_ok_def lobby_infos_norm_def\<close>)+
next
  fix x
  show "serialize_lobby_infos x \<noteq> []" by (simp add: serialize_lobby_infos_def put_nonempty)
qed (auto simp: deserialize_lobby_infos_def intro!: reader_safe)

lemmas [parse_rules] = lobby_infos_codec.parses_put lobby_infos_codec.parses_list
lemmas [put_nonempty] = lobby_infos_codec.put_pos
lemmas [reader_safe] = lobby_infos_codec.get_safe

definition serialize_lobby_search :: "lobby_search \<Rightarrow> bytes" where
  "serialize_lobby_search msg =
     put_string (ls_search_id msg) @
     put_string (ls_lobby_id msg) @
     put_string (ls_target_user_id msg) @
     put_u32 (ls_max_results msg) @
     put_list write_search_parameter (ls_parameters msg)"

definition deserialize_lobby_search :: "lobby_search getter" where
  "deserialize_lobby_search =
     get_bind get_string (\<lambda>search_id.
     get_bind get_string (\<lambda>lobby_id.
     get_bind get_string (\<lambda>target_user_id.
     get_bind get_u32 (\<lambda>max_results.
     get_bind (get_list max_search_parameters read_search_parameter) (\<lambda>parameters.
     get_return \<lparr>ls_search_id = search_id, ls_lobby_id = lobby_id,
       ls_target_user_id = target_user_id, ls_max_results = max_results,
       ls_parameters = parameters\<rparr>)))))"

definition lobby_search_ok :: "lobby_search \<Rightarrow> bool" where
  "lobby_search_ok msg \<longleftrightarrow>
     string_ok (ls_search_id msg) \<and>
     string_ok (ls_lobby_id msg) \<and>
     string_ok (ls_target_user_id msg) \<and>
     (\<forall>e\<in>set (ls_parameters msg). search_parameter_ok e) \<and> length (ls_parameters msg) \<le> unat max_search_parameters"

definition lobby_search_norm :: "lobby_search \<Rightarrow> lobby_search" where
  "lobby_search_norm msg = msg\<lparr>ls_parameters := map search_parameter_norm (ls_parameters msg)\<rparr>"

interpretation lobby_search_codec: codec serialize_lobby_search deserialize_lobby_search lobby_search_ok lobby_search_norm
proof
  fix x
  assume ok: "lobby_search_ok x"
  show "parses deserialize_lobby_search (serialize_lobby_search x) (lobby_search_norm x)"
    unfolding serialize_lobby_search_def deserialize_lobby_search_def
    by (rule parse_rules parses_return_eq |
        use ok in \<open>simp add: lobby_search_ok_def string_ok_def lobby_search_norm_def\<close>)+
next
  fix x
  show "serialize_lobby_search x \<noteq> []" by (simp add: serialize_lobby_search_def put_nonempty)
qed (auto simp: deserialize_lobby_search_def intro!: reader_safe)

lemmas [parse_rules] = lobby_search_codec.parses_put lobby_search_codec.parses_list
lemmas [put_nonempty] = lobby_search_codec.put_pos
lemmas [reader_safe] = lobby_search_codec.get_safe

definition serialize_lobby_search_response :: "lobby_search_response \<Rightarrow> bytes" where
  "serialize_lobby_search_response msg =
     put_string (lsr_search_id msg) @
     put_list serialize_lobby_infos (lsr_lobbies msg)"

definition deserialize_lobby_search_response :: "lobby_search_response getter" where
  "deserialize_lobby_search_response =
     get_bind get_string (\<lambda>search_id.
     get_bind (get_list max_search_results deserialize_lobby_infos) (\<lambda>lobbies.
     get_return \<lparr>lsr_search_id = search_id, lsr_lobbies = lobbies\<rparr>))"

definition lobby_search_response_ok :: "lobby_search_response \<Rightarrow> bool" where
  "lobby_search_response_ok msg \<longleftrightarrow>
     string_ok (lsr_search_id msg) \<and>
     (\<forall>e\<in>set (lsr_lobbies msg). lobby_infos_ok e) \<and> length (lsr_lobbies msg) \<le> unat max_search_results"

definition lobby_search_response_norm :: "lobby_search_response \<Rightarrow> lobby_search_response" where
  "lobby_search_response_norm msg = msg\<lparr>lsr_lobbies := map lobby_infos_norm (lsr_lobbies msg)\<rparr>"

interpretation lobby_search_response_codec: codec serialize_lobby_search_response deserialize_lobby_search_response lobby_search_response_ok lobby_search_response_norm
proof
  fix x
  assume ok: "lobby_search_response_ok x"
  show "parses deserialize_lobby_search_response (serialize_lobby_search_response x) (lobby_search_response_norm x)"
    unfolding serialize_lobby_search_response_def deserialize_lobby_search_response_def
    by (rule parse_rules parses_return_eq |
        use ok in \<open>simp add: lobby_search_response_ok_def string_ok_def lobby_search_response_norm_def\<close>)+
next
  fix x
  show "serialize_lobby_search_response x \<noteq> []" by (simp add: serialize_lobby_search_response_def put_nonempty)
qed (auto simp: deserialize_lobby_search_response_def intro!: reader_safe)

lemmas [parse_rules] = lobby_search_response_codec.parses_put lobby_search_response_codec.parses_list
lemmas [put_nonempty] = lobby_search_response_codec.put_pos
lemmas [reader_safe] = lobby_search_response_codec.get_safe

definition serialize_lobby_join_request :: "lobby_join_request \<Rightarrow> bytes" where
  "serialize_lobby_join_request msg =
     put_string (ljq_lobby_id msg) @
     put_bool (ljq_by_id msg) @
     write_member (ljq_member msg)"

definition deserialize_lobby_join_request :: "lobby_join_request getter" where
  "deserialize_lobby_join_request =
     get_bind get_string (\<lambda>lobby_id.
     get_bind get_bool (\<lambda>by_id.
     get_bind read_member (\<lambda>member.
     get_return \<lparr>ljq_lobby_id = lobby_id, ljq_by_id = by_id, ljq_member = member\<rparr>)))"

definition lobby_join_request_ok :: "lobby_join_request \<Rightarrow> bool" where
  "lobby_join_request_ok msg \<longleftrightarrow>
     string_ok (ljq_lobby_id msg) \<and>
     lobby_member_ok (ljq_member msg)"

definition lobby_join_request_norm :: "lobby_join_request \<Rightarrow> lobby_join_request" where
  "lobby_join_request_norm msg = msg\<lparr>ljq_member := lobby_member_norm (ljq_member msg)\<rparr>"

interpretation lobby_join_request_codec: codec serialize_lobby_join_request deserialize_lobby_join_request lobby_join_request_ok lobby_join_request_norm
proof
  fix x
  assume ok: "lobby_join_request_ok x"
  show "parses deserialize_lobby_join_request (serialize_lobby_join_request x) (lobby_join_request_norm x)"
    unfolding serialize_lobby_join_request_def deserialize_lobby_join_request_def
    by (rule parse_rules parses_return_eq |
        use ok in \<open>simp add: lobby_join_request_ok_def string_ok_def lobby_join_request_norm_def\<close>)+
next
  fix x
  show "serialize_lobby_join_request x \<noteq> []" by (simp add: serialize_lobby_join_request_def put_nonempty)
qed (auto simp: deserialize_lobby_join_request_def intro!: reader_safe)

lemmas [parse_rules] = lobby_join_request_codec.parses_put lobby_join_request_codec.parses_list
lemmas [put_nonempty] = lobby_join_request_codec.put_pos
lemmas [reader_safe] = lobby_join_request_codec.get_safe

definition serialize_lobby_join_response :: "lobby_join_response \<Rightarrow> bytes" where
  "serialize_lobby_join_response msg =
     put_string (ljr_lobby_id msg) @
     put_string (ljr_player_id msg) @
     put_svar (scast (ljr_reason msg))"

definition deserialize_lobby_join_response :: "lobby_join_response getter" where
  "deserialize_lobby_join_response =
     get_bind get_string (\<lambda>lobby_id.
     get_bind get_string (\<lambda>player_id.
     get_bind get_svar (\<lambda>reason.
     get_return \<lparr>ljr_lobby_id = lobby_id, ljr_player_id = player_id, ljr_reason = ucast reason\<rparr>)))"

definition lobby_join_response_ok :: "lobby_join_response \<Rightarrow> bool" where
  "lobby_join_response_ok msg \<longleftrightarrow>
     string_ok (ljr_lobby_id msg) \<and>
     string_ok (ljr_player_id msg)"

interpretation lobby_join_response_codec: codec serialize_lobby_join_response deserialize_lobby_join_response lobby_join_response_ok id
proof
  fix x
  assume ok: "lobby_join_response_ok x"
  show "parses deserialize_lobby_join_response (serialize_lobby_join_response x) (id x)"
    unfolding serialize_lobby_join_response_def deserialize_lobby_join_response_def
    by (rule parse_rules parses_return_eq |
        use ok in \<open>simp add: lobby_join_response_ok_def string_ok_def\<close>)+
next
  fix x
  show "serialize_lobby_join_response x \<noteq> []" by (simp add: serialize_lobby_join_response_def put_nonempty)
qed (auto simp: deserialize_lobby_join_response_def intro!: reader_safe)

lemmas [parse_rules] = lobby_join_response_codec.parses_put lobby_join_response_codec.parses_list
lemmas [put_nonempty] = lobby_join_response_codec.put_pos
lemmas [reader_safe] = lobby_join_response_codec.get_safe

definition serialize_lobby_member_update :: "lobby_member_update \<Rightarrow> bytes" where
  "serialize_lobby_member_update msg =
     put_string (lmu_lobby_id msg) @
     write_member (lmu_member msg)"

definition deserialize_lobby_member_update :: "lobby_member_update getter" where
  "deserialize_lobby_member_update =
     get_bind get_string (\<lambda>lobby_id.
     get_bind read_member (\<lambda>member.
     get_return \<lparr>lmu_lobby_id = lobby_id, lmu_member = member\<rparr>))"

definition lobby_member_update_ok :: "lobby_member_update \<Rightarrow> bool" where
  "lobby_member_update_ok msg \<longleftrightarrow>
     string_ok (lmu_lobby_id msg) \<and>
     lobby_member_ok (lmu_member msg)"

definition lobby_member_update_norm :: "lobby_member_update \<Rightarrow> lobby_member_update" where
  "lobby_member_update_norm msg = msg\<lparr>lmu_member := lobby_member_norm (lmu_member msg)\<rparr>"

interpretation lobby_member_update_codec: codec serialize_lobby_member_update deserialize_lobby_member_update lobby_member_update_ok lobby_member_update_norm
proof
  fix x
  assume ok: "lobby_member_update_ok x"
  show "parses deserialize_lobby_member_update (serialize_lobby_member_update x) (lobby_member_update_norm x)"
    unfolding serialize_lobby_member_update_def deserialize_lobby_member_update_def
    by (rule parse_rules parses_return_eq |
        use ok in \<open>simp add: lobby_member_update_ok_def string_ok_def lobby_member_update_norm_def\<close>)+
next
  fix x
  show "serialize_lobby_member_update x \<noteq> []" by (simp add: serialize_lobby_member_update_def put_nonempty)
qed (auto simp: deserialize_lobby_member_update_def intro!: reader_safe)

lemmas [parse_rules] = lobby_member_update_codec.parses_put lobby_member_update_codec.parses_list
lemmas [put_nonempty] = lobby_member_update_codec.put_pos
lemmas [reader_safe] = lobby_member_update_codec.get_safe

definition serialize_lobby_destroy :: "lobby_destroy \<Rightarrow> bytes" where
  "serialize_lobby_destroy msg =
     put_string (ld_lobby_id msg) @
     put_svar (scast (ld_reason msg))"

definition deserialize_lobby_destroy :: "lobby_destroy getter" where
  "deserialize_lobby_destroy =
     get_bind get_string (\<lambda>lobby_id.
     get_bind get_svar (\<lambda>reason.
     get_return \<lparr>ld_lobby_id = lobby_id, ld_reason = ucast reason\<rparr>))"

definition lobby_destroy_ok :: "lobby_destroy \<Rightarrow> bool" where
  "lobby_destroy_ok msg \<longleftrightarrow>
     string_ok (ld_lobby_id msg)"

interpretation lobby_destroy_codec: codec serialize_lobby_destroy deserialize_lobby_destroy lobby_destroy_ok id
proof
  fix x
  assume ok: "lobby_destroy_ok x"
  show "parses deserialize_lobby_destroy (serialize_lobby_destroy x) (id x)"
    unfolding serialize_lobby_destroy_def deserialize_lobby_destroy_def
    by (rule parse_rules parses_return_eq |
        use ok in \<open>simp add: lobby_destroy_ok_def string_ok_def\<close>)+
next
  fix x
  show "serialize_lobby_destroy x \<noteq> []" by (simp add: serialize_lobby_destroy_def put_nonempty)
qed (auto simp: deserialize_lobby_destroy_def intro!: reader_safe)

lemmas [parse_rules] = lobby_destroy_codec.parses_put lobby_destroy_codec.parses_list
lemmas [put_nonempty] = lobby_destroy_codec.put_pos
lemmas [reader_safe] = lobby_destroy_codec.get_safe

end
