(* ===== verification/Framing.thy ===== *)
theory Framing
  imports Messages
begin

text \<open>
  Framing on a TCP stream: \<^verbatim>\<open>frame_message\<close> and \<^verbatim>\<open>try_deframe\<close> of \<^verbatim>\<open>net/wire.cpp\<close>, the big-endian
  helpers and \<^verbatim>\<open>message_router::take_frame\<close> of \<^verbatim>\<open>net/message_router.cpp\<close>.  A stream delivers
  its bytes in pieces of any size; the interface \<open>framer\<close> says what taking frames off a buffer
  must satisfy for the pieces not to matter.
\<close>

section \<open>Big-endian integers\<close>

definition frame_prefix_len :: nat where
  "frame_prefix_len = 4"

definition write_be32 :: "u32 \<Rightarrow> bytes" where
  "write_be32 v =
     [ucast (drop_bit 24 v AND 0xff), ucast (drop_bit 16 v AND 0xff),
      ucast (drop_bit 8 v AND 0xff), ucast (v AND 0xff)]"

definition read_be32 :: "bytes \<Rightarrow> u32" where
  "read_be32 data =
     push_bit 24 (ucast (data ! 0)) OR push_bit 16 (ucast (data ! 1)) OR
     push_bit 8 (ucast (data ! 2)) OR ucast (data ! 3)"

definition write_be64 :: "u64 \<Rightarrow> bytes" where
  "write_be64 v = map (\<lambda>i. ucast (drop_bit (56 - 8 * i) v AND 0xff)) [0..<8]"

definition read_be64 :: "bytes \<Rightarrow> u64" where
  "read_be64 data = foldl (\<lambda>v i. push_bit 8 v OR ucast (data ! i)) 0 [0..<8]"

lemma low_byte: "(ucast (x AND 0xff) :: u8) = ucast x" for x :: "'a::len word"
proof -
  have "x AND 0xff = take_bit 8 x" by (simp add: take_bit_eq_mask mask_eq_exp_minus_1)
  then show ?thesis by (intro bit_eqI) (auto simp: bit_simps)
qed

lemma length_write_be32 [simp]: "length (write_be32 v) = 4"
  by (simp add: write_be32_def)

lemma length_write_be64 [simp]: "length (write_be64 v) = 8"
  by (simp add: write_be64_def)

lemma read_write_be32 [simp]: "read_be32 (write_be32 v @ rest) = v"
proof -
  define w :: u32 where "w =
      push_bit 24 (ucast (ucast (drop_bit 24 v) :: u8)) OR push_bit 16 (ucast (ucast (drop_bit 16 v) :: u8)) OR
      push_bit 8 (ucast (ucast (drop_bit 8 v) :: u8)) OR ucast (ucast v :: u8)"
  have "read_be32 (write_be32 v @ rest) = w"
    by (simp add: read_be32_def write_be32_def low_byte w_def)
  also have "w = v"
  proof (rule bit_eqI)
    fix n
    assume "possible_bit TYPE(32 word) n"
    then have n: "n < 32" by simp
    consider "n < 8" | "8 \<le> n" "n < 16" | "16 \<le> n" "n < 24" | "24 \<le> n" by linarith
    then show "bit w n = bit v n"
      by cases (use n in \<open>auto simp: bit_simps w_def\<close>)
  qed
  finally show ?thesis .
qed

lemma read_be32_append: "4 \<le> length data \<Longrightarrow> read_be32 (data @ rest) = read_be32 data"
  by (cases "data = []") (simp_all add: read_be32_def nth_append)

text \<open>Reading \<open>k\<close> of the eight bytes has shifted in the top \<open>8 * k\<close> bits.\<close>

lemma read_write_be64 [simp]: "read_be64 (write_be64 v @ rest) = v"
proof -
  have step: "push_bit 8 (drop_bit (64 - 8 * k) v) OR ucast (ucast (drop_bit (56 - 8 * k) v) :: u8)
      = drop_bit (64 - 8 * Suc k) v" if "k < 8" for k
  proof (rule bit_eqI)
    fix n
    assume "possible_bit TYPE(64 word) n"
    then have n: "n < 64" by simp
    show "bit (push_bit 8 (drop_bit (64 - 8 * k) v) OR ucast (ucast (drop_bit (56 - 8 * k) v) :: u8)) n
        = bit (drop_bit (64 - 8 * Suc k) v) n"
    proof (cases "n < 8")
      case True
      then show ?thesis using that n by (auto simp: bit_simps)
    next
      case False
      then have "64 - 8 * k + (n - 8) = 56 - 8 * k + n" using that by arith
      with False show ?thesis using that n by (auto simp: bit_simps)
    qed
  qed
  have "k \<le> 8 \<Longrightarrow> foldl (\<lambda>w i. push_bit 8 w OR ucast ((write_be64 v @ rest) ! i)) 0 [0..<k]
      = drop_bit (64 - 8 * k) v" for k
  proof (induction k)
    case 0
    then show ?case by (intro bit_eqI) (auto simp: bit_simps dest: bit_imp_le_length)
  next
    case (Suc k)
    then have "(write_be64 v @ rest) ! k = ucast (drop_bit (56 - 8 * k) v)"
      by (simp add: write_be64_def nth_append low_byte del: upt_rec_numeral)
    with Suc step [of k] show ?case by simp
  qed
  from this [of 8] show ?thesis by (simp add: read_be64_def del: upt_rec_numeral)
qed

section \<open>Frames\<close>

definition frame_message :: "bytes \<Rightarrow> bytes" where
  "frame_message body =
     (let body_len = (word_of_nat (length body) :: u32)
      in [ucast (drop_bit 24 body_len), ucast (drop_bit 16 body_len),
          ucast (drop_bit 8 body_len), ucast body_len] @ body)"

text \<open>\<open>Some (body, consumed)\<close> where the code returns true.\<close>

definition try_deframe :: "bytes \<Rightarrow> (bytes \<times> nat) option" where
  "try_deframe data =
     (if length data < frame_prefix_len then None
      else
        let body_len = read_be32 data
        in if max_message_size < body_len then None
           else if length data - frame_prefix_len < unat body_len then None
           else Some (take (unat body_len) (drop frame_prefix_len data),
                      frame_prefix_len + unat body_len))"

datatype frame_state = frame_none | frame_ready | frame_refused

text \<open>The state found, the buffer left, and the frame's body.\<close>

definition take_frame :: "bytes \<Rightarrow> frame_state \<times> bytes \<times> bytes" where
  "take_frame buffer =
     (if frame_prefix_len \<le> length buffer \<and> max_message_size < read_be32 buffer
      then (frame_refused, [], [])
      else case try_deframe buffer of
             None \<Rightarrow> (frame_none, buffer, [])
           | Some (body, consumed) \<Rightarrow> (frame_ready, drop consumed buffer, body))"

text \<open>The reading loops take frames until there is no whole one, or one is refused.\<close>

function drain_frames :: "bytes \<Rightarrow> frame_state \<times> bytes list \<times> bytes" where
  "drain_frames buffer =
     (case take_frame buffer of
        (frame_ready, buffer', body) \<Rightarrow>
          (case drain_frames buffer' of (st, frames, left) \<Rightarrow> (st, body # frames, left))
      | (st, buffer', body) \<Rightarrow> (st, [], buffer'))"
  by pat_completeness auto

lemma take_frame_ready:
  assumes "take_frame buffer = (frame_ready, buffer', body)"
  shows "length buffer = frame_prefix_len + length body + length buffer'"
    and "unat (read_be32 buffer) = length body" and "read_be32 buffer \<le> max_message_size"
    and "frame_prefix_len \<le> length buffer"
    and "body = take (length body) (drop frame_prefix_len buffer)"
    and "buffer' = drop (frame_prefix_len + length body) buffer"
  using assms
  by (auto simp: take_frame_def try_deframe_def Let_def not_less split: if_splits)

termination drain_frames
  by (relation "measure length") (auto dest!: take_frame_ready(1) [OF sym] simp: frame_prefix_len_def)

declare drain_frames.simps [simp del]

text \<open>One arrival of bytes on a connection; a refused connection is dropped and takes no more.\<close>

definition feed :: "(bytes \<Rightarrow> frame_state \<times> bytes list \<times> bytes) \<Rightarrow>
    frame_state \<times> bytes list \<times> bytes \<Rightarrow> bytes \<Rightarrow> frame_state \<times> bytes list \<times> bytes" where
  "feed drain c chunk =
     (case c of (st, frames, left) \<Rightarrow>
        if st = frame_refused then c
        else case drain (left @ chunk) of (st', frames', left') \<Rightarrow> (st', frames @ frames', left'))"

section \<open>The interface of a framer\<close>

locale framer =
  fixes take1 :: "bytes \<Rightarrow> frame_state \<times> bytes \<times> bytes"
    and drain :: "bytes \<Rightarrow> frame_state \<times> bytes list \<times> bytes"
  assumes ready_shrinks: "take1 b = (frame_ready, b', f) \<Longrightarrow> length b' < length b"
    and ready_append: "take1 b = (frame_ready, b', f) \<Longrightarrow> take1 (b @ c) = (frame_ready, b' @ c, f)"
    and refused_append: "take1 b = (frame_refused, b', f) \<Longrightarrow> take1 (b @ c) = (frame_refused, b', f)"
    and none_keeps: "take1 b = (frame_none, b', f) \<Longrightarrow> b' = b"
    and drain_ready: "take1 b = (frame_ready, b', f) \<Longrightarrow> drain b' = (st, fs, l) \<Longrightarrow>
      drain b = (st, f # fs, l)"
    and drain_stop: "take1 b = (st, b', f) \<Longrightarrow> st \<noteq> frame_ready \<Longrightarrow> drain b = (st, [], b')"
begin

lemma drain_append:
  "drain (a @ c) = (case drain a of (st, fs, l) \<Rightarrow>
     if st = frame_refused then (st, fs, l)
     else case drain (l @ c) of (st', fs', l') \<Rightarrow> (st', fs @ fs', l'))"
proof (induction a rule: length_induct)
  case (1 a)
  obtain st b' f where t: "take1 a = (st, b', f)" by (cases "take1 a")
  obtain st' fs' l' where rest: "drain (b' @ c) = (st', fs', l')" by (cases "drain (b' @ c)")
  obtain st1 fs1 l1 where d: "drain b' = (st1, fs1, l1)" by (cases "drain b'")
  show ?case
  proof (cases st)
    case frame_none
    with t have "b' = a" by (simp add: none_keeps)
    with frame_none t drain_stop [OF t] rest show ?thesis by simp
  next
    case frame_ready
    with t have "length b' < length a" by (simp add: ready_shrinks)
    with 1 have IH: "drain (b' @ c) = (if st1 = frame_refused then (st1, fs1, l1)
        else case drain (l1 @ c) of (st', fs', l') \<Rightarrow> (st', fs1 @ fs', l'))"
      using d by fastforce
    have "drain (a @ c) = (st', f # fs', l')"
      using drain_ready [OF _ rest] ready_append t frame_ready by blast
    moreover have "drain a = (st1, f # fs1, l1)"
      using drain_ready [OF _ d] t frame_ready by blast
    ultimately show ?thesis using IH rest by (auto split: prod.splits)
  next
    case frame_refused
    have "drain (a @ c) = (frame_refused, [], b')"
      using refused_append t frame_refused drain_stop by blast
    moreover have "drain a = (frame_refused, [], b')"
      using t frame_refused drain_stop by blast
    ultimately show ?thesis by simp
  qed
qed

lemma feed_from:
  "foldl (feed drain) (drain a) chunks = drain (a @ concat chunks)"
proof (induction chunks arbitrary: a)
  case Nil
  then show ?case by simp
next
  case (Cons c chunks)
  have "feed drain (drain a) c = drain (a @ c)"
    by (simp add: feed_def drain_append split: prod.splits)
  with Cons [of "a @ c"] show ?case by simp
qed

text \<open>However the stream is cut, the frames and the leftover are those of the whole stream.\<close>

lemma chunking_irrelevant:
  "drain [] = (frame_none, [], []) \<Longrightarrow>
   foldl (feed drain) (frame_none, [], []) chunks = drain (concat chunks)"
  using feed_from [of "[]" chunks] by simp

end

lemma read_be32_cong: "4 \<le> length a \<Longrightarrow> read_be32 (a @ c) = read_be32 a"
  by (simp add: read_be32_append)

interpretation take_frames: framer take_frame drain_frames
proof
  fix b b' f
  assume t: "take_frame b = (frame_ready, b', f)"
  then show "length b' < length b"
    by (auto dest: take_frame_ready(1) simp: frame_prefix_len_def)
  note r = take_frame_ready [OF t]
  show "take_frame (b @ c) = (frame_ready, b' @ c, f)" for c
  proof -
    have len: "unat (read_be32 (b @ c)) = length f" "read_be32 (b @ c) \<le> max_message_size"
      using r(2,3,4) by (simp_all add: read_be32_append frame_prefix_len_def)
    have "try_deframe (b @ c) = Some (f, frame_prefix_len + length f)"
      using r len by (simp add: try_deframe_def Let_def not_less)
    then show ?thesis
      using r len by (simp add: take_frame_def not_less)
  qed
  show "drain_frames b = (st, f # fs, l)" if "drain_frames b' = (st, fs, l)" for st fs l
    using t that by (simp add: drain_frames.simps [of b])
next
  fix b b' f c
  assume "take_frame b = (frame_refused, b', f)"
  then have "frame_prefix_len \<le> length b \<and> max_message_size < read_be32 b \<and> b' = [] \<and> f = []"
    by (auto simp: take_frame_def split: if_splits option.splits prod.splits)
  then show "take_frame (b @ c) = (frame_refused, b', f)"
    by (simp add: take_frame_def read_be32_append frame_prefix_len_def)
next
  fix b b' f
  assume "take_frame b = (frame_none, b', f)"
  then show "b' = b" by (auto simp: take_frame_def split: if_splits option.splits prod.splits)
next
  fix b st b' f
  assume "take_frame b = (st, b', f)" and "st \<noteq> frame_ready"
  then show "drain_frames b = (st, [], b')"
    by (cases st) (simp_all add: drain_frames.simps [of b])
qed

text \<open>What one side frames, the other side takes off the front of its buffer.\<close>

lemma frame_message_prefix:
  "frame_message body = write_be32 (word_of_nat (length body)) @ body"
  by (simp add: frame_message_def write_be32_def Let_def low_byte)

lemma take_frame_message:
  assumes "length body \<le> unat max_message_size"
  shows "take_frame (frame_message body @ rest) = (frame_ready, rest, body)"
proof -
  have "length body < 2 ^ 32" using assms by (simp add: max_message_size_def)
  then have len: "unat (word_of_nat (length body) :: u32) = length body" by (simp add: unat_of_nat)
  then have "word_of_nat (length body) \<le> max_message_size"
    using assms by (simp add: word_le_nat_alt)
  then show ?thesis
    using len
    by (simp add: take_frame_def try_deframe_def frame_message_prefix frame_prefix_len_def
      Let_def not_less)
qed

lemma drain_frame_messages:
  assumes "\<forall>b \<in> set bodies. length b \<le> unat max_message_size"
    and "drain_frames rest = (frame_none, [], rest)"
  shows "drain_frames (concat (map frame_message bodies) @ rest) = (frame_none, bodies, rest)"
  using assms(1)
proof (induction bodies)
  case Nil
  then show ?case using assms(2) by simp
next
  case (Cons b bodies)
  then have "take_frame (frame_message b @ (concat (map frame_message bodies) @ rest)) =
      (frame_ready, concat (map frame_message bodies) @ rest, b)"
    by (intro take_frame_message) simp
  with Cons show ?case using take_frames.drain_ready by simp
qed

lemma drain_frames_Nil [simp]: "drain_frames [] = (frame_none, [], [])"
  by (simp add: drain_frames.simps [of "[]"] take_frame_def try_deframe_def frame_prefix_len_def)

end
