(* ===== verification/Wire_Properties.thy ===== *)
theory Wire_Properties
  imports Wire Wire_Lobby Framing
begin

text \<open>
  What the wire format promises to the rest of the program, over \<^verbatim>\<open>byte_buffer.cpp\<close>,
  \<^verbatim>\<open>wire.cpp\<close> and the reading loops of \<^verbatim>\<open>message_router.cpp\<close>: every codec is a left inverse, a
  hostile list count is refused before anything is allocated, a failed read never leaves the
  buffer, and a stream of envelopes survives being cut anywhere.
\<close>

section \<open>Integers\<close>

text \<open>A number written as a varint is read back whatever follows it in the buffer, and the
  cursor stops right after it.\<close>

theorem varint_roundtrip:
  "get_var (reader_of (put_var x @ rest)) =
     (Some x, advance (length (put_var x)) (reader_of (put_var x @ rest)))"
  by (rule parses_whole [OF parses_var])

text \<open>A signed number survives the zigzag encoding, its minimum included.\<close>

theorem svarint_roundtrip:
  "fst (get_svar (reader_of (put_svar x @ rest))) = Some x"
  by (simp add: parses_whole [OF parses_svar])

text \<open>A varint read that fails, because the buffer ends or the tenth byte carries more than the
  one bit left, gives its bytes back: the cursor is where it was.\<close>

theorem failed_varint_keeps_cursor:
  assumes "fst (get_var r) = None"
  shows "snd (get_var r) = r"
  using assms get_var_None [of r "snd (get_var r)"] by (simp add: prod_eq_iff)

theorem failed_varint_keeps_cursor_witness:
  "snd (get_var (reader_of [0x80, 0x80])) = reader_of [0x80, 0x80]"
  by (rule failed_varint_keeps_cursor)
    (simp add: get_var_def reader_of_def get_var_loop.simps at_end_def varint_more_bit_def
      advance_def)

section \<open>Messages\<close>

text \<open>C1. A session record is read back as it was written, up to the attribute values its types do
  not name, whatever bytes follow it.\<close>

theorem session_infos_roundtrip:
  assumes "session_infos_ok s"
  shows "fst (deserialize_session_infos (reader_of (serialize_session_infos s @ rest))) =
    Some (s\<lparr>si_attributes := map session_attribute_norm (si_attributes s)\<rparr>)"
  using session_infos_codec.roundtrip_trailing [OF assms] by (simp add: session_infos_norm_def)

definition example_attribute :: session_attribute where
  "example_attribute = new_attribute\<lparr>sa_key := ''map'', sa_value_type := 3, sa_as_string := ''dust''\<rparr>"

definition example_session :: session_infos where
  "example_session =
     \<lparr>si_session_id = ''s1'', si_owner_id = ''u1'', si_bucket_id = ''b'', si_host_address = ''h'',
      si_max_players = 4, si_open_slots = 3, si_permission_level = 0, si_state = 2,
      si_allow_join_in_progress = True, si_invites_allowed = False, si_sanctions_enabled = False,
      si_registered_players = [''u1'', ''u2''], si_attributes = [example_attribute]\<rparr>"

lemma example_session_ok: "session_infos_ok example_session"
  by (simp add: session_infos_ok_def example_session_def example_attribute_def string_ok_def
      fits64_def session_attribute_ok_def new_attribute_def list_caps attribute_types)

theorem session_infos_roundtrip_witness:
  "fst (deserialize_session_infos (reader_of (serialize_session_infos example_session @ [1, 2]))) =
    Some example_session"
  using session_infos_roundtrip [OF example_session_ok, of "[1, 2]"]
  by (simp add: example_session_def example_attribute_def session_attribute_norm_def
      new_attribute_def attribute_types)

text \<open>A lobby record, members and attributes included, is read back as it was written.\<close>

theorem lobby_infos_roundtrip:
  assumes "lobby_infos_ok l"
  shows "fst (deserialize_lobby_infos (reader_of (serialize_lobby_infos l @ rest))) =
    Some (lobby_infos_norm l)"
  using lobby_infos_codec.roundtrip_trailing [OF assms] .

definition example_lobby :: lobby_infos where
  "example_lobby =
     \<lparr>li_lobby_id = ''l1'', li_owner_id = ''u1'', li_bucket_id = ''b'', li_permission_level = 0,
      li_max_members = 4, li_available_slots = 3, li_allow_invites = True,
      li_allow_host_migration = True, li_allow_join_by_id = False, li_rtc_enabled = False,
      li_attributes = [example_attribute],
      li_members = [\<lparr>lm_user_id = ''u1'', lm_platform = 1, lm_attributes = [example_attribute]\<rparr>]\<rparr>"

lemma example_lobby_ok: "lobby_infos_ok example_lobby"
  by (simp add: lobby_infos_ok_def example_lobby_def lobby_member_ok_def example_attribute_def
      string_ok_def fits64_def session_attribute_ok_def new_attribute_def list_caps attribute_types)

theorem lobby_infos_roundtrip_witness:
  "fst (deserialize_lobby_infos (reader_of (serialize_lobby_infos example_lobby @ [7]))) =
    Some example_lobby"
  using lobby_infos_roundtrip [OF example_lobby_ok, of "[7]"]
  by (simp add: lobby_infos_norm_def lobby_member_norm_def example_lobby_def example_attribute_def
      session_attribute_norm_def new_attribute_def attribute_types)

text \<open>A record accepted from the network never holds more players or attributes than the caps,
  whatever the bytes say.\<close>

theorem session_infos_caps:
  assumes "deserialize_session_infos r = (Some s, r')"
  shows "length (si_registered_players s) \<le> 1000 \<and> length (si_attributes s) \<le> 64"
proof -
  obtain n1 p r1 n2 q r2 where "get_list max_players_in_list n1 p = (Some (si_registered_players s), r1)"
    and "get_list max_attributes_in_list n2 q = (Some (si_attributes s), r2)"
    using assms by (auto simp only: deserialize_session_infos_def get_bind_Some get_return_Some
        session_infos.simps)
  from this [THEN get_list_bound] show ?thesis
    by (simp add: max_players_in_list_def max_attributes_in_list_def)
qed

theorem session_infos_caps_witness:
  "length (si_registered_players example_session) \<le> 1000 \<and>
   length (si_attributes example_session) \<le> 64"
proof (rule session_infos_caps)
  have "fst (deserialize_session_infos (reader_of (serialize_session_infos example_session))) =
      Some (session_infos_norm example_session)"
    using session_infos_codec.roundtrip [OF example_session_ok] by simp
  then show "deserialize_session_infos (reader_of (serialize_session_infos example_session)) =
      (Some example_session,
       snd (deserialize_session_infos (reader_of (serialize_session_infos example_session))))"
    by (simp add: prod_eq_iff session_infos_norm_def example_session_def example_attribute_def
        session_attribute_norm_def new_attribute_def attribute_types)
qed

text \<open>Parsing a search response, the message with the deepest nesting of counted lists, keeps the
  cursor inside the buffer and never moves it back, whether it succeeds or fails and whatever the
  bytes are.\<close>

theorem search_response_stays_inside:
  assumes "rd_pos r \<le> length (rd_data r)"
    and "deserialize_session_search_response r = (result, r')"
  shows "rd_data r' = rd_data r \<and> rd_pos r \<le> rd_pos r' \<and> rd_pos r' \<le> length (rd_data r)"
  using session_search_response_codec.get_safe assms
  unfolding safe_getter_def reader_ok_def by (metis snd_conv)

definition hostile_response :: bytes where
  "hostile_response = [1, 65, 0xff, 0xff, 0x03, 9, 9]"

theorem search_response_stays_inside_witness:
  "rd_pos (snd (deserialize_session_search_response (reader_of hostile_response))) \<le> 7"
  using search_response_stays_inside [of "reader_of hostile_response"
      "fst (deserialize_session_search_response (reader_of hostile_response))"
      "snd (deserialize_session_search_response (reader_of hostile_response))"]
  by (simp add: reader_of_def hostile_response_def)

section \<open>Streams\<close>

text \<open>C2. However a stream is cut into arrivals, the reading loop takes the same frames and keeps the
  same leftover as if all of it had arrived at once; a refused length prefix included.\<close>

theorem stream_cuts_irrelevant:
  "foldl (feed drain_frames) (frame_none, [], []) chunks = drain_frames (concat chunks)"
  by (rule take_frames.chunking_irrelevant) simp

text \<open>What a peer makes of the bytes that have arrived: the envelopes of the whole frames.\<close>

definition received_envelopes :: "bytes list \<Rightarrow> net_envelope option list" where
  "received_envelopes chunks =
     (case foldl (feed drain_frames) (frame_none, [], []) chunks of
        (st, frames, left) \<Rightarrow> map (\<lambda>f. fst (deserialize_net_envelope (reader_of f))) frames)"

definition sent_stream :: "net_envelope list \<Rightarrow> bytes" where
  "sent_stream msgs = concat (map (\<lambda>m. frame_message (serialize_net_envelope m)) msgs)"

text \<open>C3. Envelopes framed one after another arrive complete, unchanged and in order, however the
  stream is cut on the way.\<close>

theorem envelopes_arrive_in_order:
  assumes "\<forall>m\<in>set msgs. envelope_ok m \<and>
      length (serialize_net_envelope m) \<le> unat max_message_size"
    and "concat chunks = sent_stream msgs"
  shows "received_envelopes chunks = map Some msgs"
proof -
  have "drain_frames (concat (map frame_message (map serialize_net_envelope msgs)) @ []) =
      (frame_none, map serialize_net_envelope msgs, [])"
    using assms(1) by (intro drain_frame_messages) auto
  moreover have "fst (deserialize_net_envelope (reader_of (serialize_net_envelope m))) = Some m"
    if "m \<in> set msgs" for m
    using that assms(1) envelope_codec.roundtrip by fastforce
  ultimately show ?thesis
    using assms(2)
    by (simp add: received_envelopes_def sent_stream_def take_frames.chunking_irrelevant o_def)
qed

definition example_envelope :: net_envelope where
  "example_envelope = \<lparr>env_type_tag = 9, env_source_id = ''a'', env_dest_id = ''b'',
     env_game_id = ''g'', env_timestamp = -5, env_payload = [1, 2, 3]\<rparr>"

theorem envelopes_arrive_in_order_witness:
  "received_envelopes [take 3 (sent_stream [example_envelope, example_envelope]),
     drop 3 (sent_stream [example_envelope, example_envelope])] =
   [Some example_envelope, Some example_envelope]"
proof (rule envelopes_arrive_in_order [of "[example_envelope, example_envelope]", simplified])
  show "envelope_ok example_envelope \<and>
      length (serialize_net_envelope example_envelope) \<le> unat max_message_size"
    by (simp add: envelope_ok_def example_envelope_def string_ok_def fits64_def
        serialize_net_envelope_def put_u8_def put_u16_def put_string_def put_bytes_def
        put_svar_zigzag zigzag_def put_var_small max_message_size_def)
qed simp

end
