(* ===== verification/Crypto.thy ===== *)
theory Crypto
  imports Framing
begin

text \<open>
  \<^verbatim>\<open>common/crypto.cpp\<close>: SHA-256, HMAC, HKDF, base64url and the canonical encoder, on byte
  lists.  Overwriting secrets in memory (\<^verbatim>\<open>secure_wipe\<close>) has no place in a model of values and is
  left out.  The AEAD and X25519 wrappers are in the theories of the secure channel.
\<close>

section \<open>SHA-256\<close>

definition sha256_block_size :: nat where
  "sha256_block_size = 64"

definition sha256_digest_size :: nat where
  "sha256_digest_size = 32"

definition rotr :: "u32 \<Rightarrow> nat \<Rightarrow> u32" where
  "rotr x bits = drop_bit bits x OR push_bit (32 - bits) x"

text \<open>The table of the source, in decimal.\<close>

definition sha256_k :: "u32 list" where
  "sha256_k =
    [1116352408, 1899447441, 3049323471, 3921009573, 961987163, 1508970993,
     2453635748, 2870763221, 3624381080, 310598401, 607225278, 1426881987,
     1925078388, 2162078206, 2614888103, 3248222580, 3835390401, 4022224774,
     264347078, 604807628, 770255983, 1249150122, 1555081692, 1996064986,
     2554220882, 2821834349, 2952996808, 3210313671, 3336571891, 3584528711,
     113926993, 338241895, 666307205, 773529912, 1294757372, 1396182291,
     1695183700, 1986661051, 2177026350, 2456956037, 2730485921, 2820302411,
     3259730800, 3345764771, 3516065817, 3600352804, 4094571909, 275423344,
     430227734, 506948616, 659060556, 883997877, 958139571, 1322822218,
     1537002063, 1747873779, 1955562222, 2024104815, 2227730452, 2361852424,
     2428436474, 2756734187, 3204031479, 3329325298]"

text \<open>The message schedule: sixteen words of the block, then each word from four before it.\<close>

definition sha256_block_words :: "bytes \<Rightarrow> u32 list" where
  "sha256_block_words block = map (\<lambda>i. read_be32 (drop (i * 4) block)) [0..<16]"

definition sha256_schedule :: "bytes \<Rightarrow> u32 list" where
  "sha256_schedule block =
     foldl (\<lambda>w i.
       let s0 = rotr (w ! (i - 15)) 7 XOR rotr (w ! (i - 15)) 18 XOR drop_bit 3 (w ! (i - 15));
           s1 = rotr (w ! (i - 2)) 17 XOR rotr (w ! (i - 2)) 19 XOR drop_bit 10 (w ! (i - 2))
       in w @ [w ! (i - 16) + s0 + w ! (i - 7) + s1])
       (sha256_block_words block) [16..<64]"

record sha256_state =
  sha_a :: u32
  sha_b :: u32
  sha_c :: u32
  sha_d :: u32
  sha_e :: u32
  sha_f :: u32
  sha_g :: u32
  sha_h :: u32

definition sha256_round :: "sha256_state \<Rightarrow> u32 \<times> u32 \<Rightarrow> sha256_state" where
  "sha256_round st kw =
     (case kw of (k, w) \<Rightarrow>
        let s1 = rotr (sha_e st) 6 XOR rotr (sha_e st) 11 XOR rotr (sha_e st) 25;
            ch = (sha_e st AND sha_f st) XOR (NOT (sha_e st) AND sha_g st);
            t1 = sha_h st + s1 + ch + k + w;
            s0 = rotr (sha_a st) 2 XOR rotr (sha_a st) 13 XOR rotr (sha_a st) 22;
            maj = (sha_a st AND sha_b st) XOR (sha_a st AND sha_c st) XOR (sha_b st AND sha_c st);
            t2 = s0 + maj
        in \<lparr>sha_a = t1 + t2, sha_b = sha_a st, sha_c = sha_b st, sha_d = sha_c st,
            sha_e = sha_d st + t1, sha_f = sha_e st, sha_g = sha_f st, sha_h = sha_g st\<rparr>)"

definition sha256_compress :: "sha256_state \<Rightarrow> bytes \<Rightarrow> sha256_state" where
  "sha256_compress st block =
     (let r = foldl sha256_round st (zip sha256_k (sha256_schedule block))
      in \<lparr>sha_a = sha_a st + sha_a r, sha_b = sha_b st + sha_b r, sha_c = sha_c st + sha_c r,
          sha_d = sha_d st + sha_d r, sha_e = sha_e st + sha_e r, sha_f = sha_f st + sha_f r,
          sha_g = sha_g st + sha_g r, sha_h = sha_h st + sha_h r\<rparr>)"

definition sha256_init :: sha256_state where
  "sha256_init =
     \<lparr>sha_a = 0x6a09e667, sha_b = 0xbb67ae85, sha_c = 0x3c6ef372, sha_d = 0xa54ff53a,
      sha_e = 0x510e527f, sha_f = 0x9b05688c, sha_g = 0x1f83d9ab, sha_h = 0x5be0cd19\<rparr>"

text \<open>The loop that pads with zeroes until eight bytes are left in the block.\<close>

function sha256_zero_pad :: "bytes \<Rightarrow> bytes" where
  "sha256_zero_pad message =
     (if length message mod sha256_block_size \<noteq> 56 then sha256_zero_pad (message @ [0])
      else message)"
  by pat_completeness auto

lemma pad_measure_step:
  assumes "n mod 64 \<noteq> (56 :: nat)"
  shows "nat ((56 - int (Suc n)) mod 64) < nat ((56 - int n) mod 64)"
proof -
  define x where "x = 56 - int n"
  have nz: "x mod 64 \<noteq> 0"
  proof
    assume "x mod 64 = 0"
    then have "64 dvd 56 - int n" unfolding x_def by (rule mod_0_imp_dvd)
    then have "int n mod 64 = 56" using mod_eq_dvd_iff [of 56 64 "int n"] by simp
    then have "int (n mod 64) = 56" by (simp add: zmod_int)
    with assms show False by simp
  qed
  moreover have "0 \<le> x mod 64" and "x mod 64 < 64" by simp_all
  ultimately have "(x mod 64 - 1) mod 64 = x mod 64 - 1" by (intro mod_pos_pos_trivial) linarith+
  then have "(x - 1) mod 64 = x mod 64 - 1" by (simp add: mod_diff_left_eq)
  then have "nat ((x - 1) mod 64) < nat (x mod 64)"
    using nz \<open>0 \<le> x mod 64\<close> by linarith
  moreover have "56 - int (Suc n) = x - 1" by (simp add: x_def)
  ultimately show ?thesis unfolding x_def by metis
qed

termination sha256_zero_pad
proof (relation "measure (\<lambda>m. nat ((56 - int (length m)) mod 64))")
  fix m :: bytes
  assume "length m mod sha256_block_size \<noteq> 56"
  then show "(m @ [0], m) \<in> measure (\<lambda>m. nat ((56 - int (length m)) mod 64))"
    using pad_measure_step [of "length m"] by (simp add: sha256_block_size_def)
qed simp

declare sha256_zero_pad.simps [simp del]

definition sha256_pad :: "bytes \<Rightarrow> bytes" where
  "sha256_pad data =
     (let bit_length = (word_of_nat (length data) :: u64) * 8
      in sha256_zero_pad (data @ [0x80]) @ write_be64 bit_length)"

text \<open>The blocks of the padded message, in order.\<close>

definition sha256_blocks :: "bytes \<Rightarrow> bytes list" where
  "sha256_blocks message =
     map (\<lambda>i. take sha256_block_size (drop (i * sha256_block_size) message))
       [0..<length message div sha256_block_size]"

definition sha256_digest :: "sha256_state \<Rightarrow> bytes" where
  "sha256_digest st = concat (map write_be32
     [sha_a st, sha_b st, sha_c st, sha_d st, sha_e st, sha_f st, sha_g st, sha_h st])"

definition sha256 :: "bytes \<Rightarrow> bytes" where
  "sha256 data = sha256_digest (foldl sha256_compress sha256_init (sha256_blocks (sha256_pad data)))"

lemma length_sha256 [simp]: "length (sha256 data) = 32"
  by (simp add: sha256_def sha256_digest_def)

text \<open>The padded message is whole blocks and starts with the message.\<close>

lemma sha256_zero_pad_shape:
  "\<exists>k. sha256_zero_pad m = m @ replicate k 0 \<and> (length m + k) mod 64 = 56"
proof (induction m rule: sha256_zero_pad.induct)
  case (1 m)
  show ?case
  proof (cases "length m mod sha256_block_size = 56")
    case True
    then show ?thesis
      by (intro exI [of _ 0]) (simp add: sha256_zero_pad.simps [of m] sha256_block_size_def)
  next
    case False
    with 1 obtain k where "sha256_zero_pad (m @ [0]) = (m @ [0]) @ replicate k 0"
      and "(length (m @ [0]) + k) mod 64 = 56" by blast
    with False show ?thesis
      by (intro exI [of _ "Suc k"]) (simp add: sha256_zero_pad.simps [of m])
  qed
qed

lemma sha256_pad_whole_blocks: "length (sha256_pad data) mod 64 = 0"
proof -
  obtain k where "sha256_zero_pad (data @ [0x80]) = (data @ [0x80]) @ replicate k 0"
    and "(length (data @ [0x80]) + k) mod 64 = 56" using sha256_zero_pad_shape by blast
  then have "length (sha256_pad data) = length (data @ [0x80]) + k + 8"
    and m: "(length (data @ [0x80]) + k) mod 64 = 56"
    by (simp_all add: sha256_pad_def Let_def)
  then show ?thesis
    using mod_add_left_eq [of "length (data @ [0x80]) + k" 64 8] by simp
qed

section \<open>HMAC and HKDF\<close>

definition hmac_block_key :: "bytes \<Rightarrow> bytes" where
  "hmac_block_key key =
     (let k = (if sha256_block_size < length key then sha256 key else key)
      in k @ replicate (sha256_block_size - length k) 0)"

definition hmac_sha256 :: "bytes \<Rightarrow> bytes \<Rightarrow> bytes" where
  "hmac_sha256 key message =
     (let block_key = hmac_block_key key;
          inner_hash = sha256 (map (\<lambda>b. b XOR 0x36) block_key @ message)
      in sha256 (map (\<lambda>b. b XOR 0x5c) block_key @ inner_hash))"

text \<open>The expansion: \<open>n\<close> more blocks from the previous one, numbered from \<open>i\<close>.\<close>

fun hkdf_expand :: "bytes \<Rightarrow> bytes \<Rightarrow> nat \<Rightarrow> nat \<Rightarrow> bytes list" where
  "hkdf_expand prk previous i 0 = []"
| "hkdf_expand prk previous i (Suc n) =
     (let block = hmac_sha256 prk (previous @ [word_of_nat (i + 1)])
      in block # hkdf_expand prk block (i + 1) n)"

definition hkdf_sha256 :: "bytes \<Rightarrow> bytes \<Rightarrow> nat \<Rightarrow> bytes list" where
  "hkdf_sha256 salt ikm num_outputs =
     (if num_outputs < 1 \<or> 3 < num_outputs then []
      else hkdf_expand (hmac_sha256 salt ikm) [] 0 num_outputs)"

lemma length_hmac_sha256 [simp]: "length (hmac_sha256 key message) = 32"
  by (simp add: hmac_sha256_def Let_def)

lemma hkdf_expand_lengths: "length (hkdf_expand prk previous i n) = n"
  "b \<in> set (hkdf_expand prk previous i n) \<Longrightarrow> length b = 32"
  by (induction n arbitrary: previous i) (auto simp: Let_def)

lemma hkdf_expand_prefix:
  "m \<le> n \<Longrightarrow> take m (hkdf_expand prk previous i n) = hkdf_expand prk previous i m"
proof (induction m arbitrary: n previous i)
  case (Suc m)
  then obtain k where "n = Suc k" "m \<le> k" by (cases n) auto
  with Suc.IH show ?case by (simp add: Let_def)
qed simp

lemma hkdf_outputs:
  assumes "1 \<le> n" and "n \<le> 3"
  shows "length (hkdf_sha256 salt ikm n) = n"
    and "\<forall>b\<in>set (hkdf_sha256 salt ikm n). length b = 32"
  using assms hkdf_expand_lengths(2) by (auto simp: hkdf_sha256_def hkdf_expand_lengths(1))

lemma hkdf_two: "\<exists>a b. hkdf_sha256 salt ikm 2 = [a, b] \<and> length a = 32 \<and> length b = 32"
proof -
  have "length (hkdf_sha256 salt ikm 2) = 2" and "\<forall>b\<in>set (hkdf_sha256 salt ikm 2). length b = 32"
    using hkdf_outputs [of 2] by simp_all
  then show ?thesis by (cases "hkdf_sha256 salt ikm 2" rule: list.exhaust)
      (auto simp: numeral_2_eq_2 length_Suc_conv)
qed

section \<open>base64url\<close>

definition base64url_table :: string where
  "base64url_table = ''ABCDEFGHIJKLMNOPQRSTUVWXYZabcdefghijklmnopqrstuvwxyz0123456789-_''"

definition sextet :: "u32 \<Rightarrow> nat \<Rightarrow> char" where
  "sextet n shift = base64url_table ! unat (drop_bit shift n AND 0x3f)"

fun base64url_encode :: "bytes \<Rightarrow> string" where
  "base64url_encode (a # b # c # rest) =
     (let n = push_bit 16 (ucast a) OR push_bit 8 (ucast b) OR ucast c
      in [sextet n 18, sextet n 12, sextet n 6, sextet n 0] @ base64url_encode rest)"
| "base64url_encode [a, b] =
     (let n = push_bit 16 (ucast a) OR push_bit 8 (ucast b)
      in [sextet n 18, sextet n 12, sextet n 6])"
| "base64url_encode [a] = (let n = push_bit 16 (ucast a) in [sextet n 18, sextet n 12])"
| "base64url_encode [] = []"

section \<open>The canonical encoder\<close>

definition enc_field :: "bytes \<Rightarrow> bytes" where
  "enc_field data =
     (let length' = (word_of_nat (length data) :: u32)
      in [ucast (drop_bit 24 length' AND 0xff), ucast (drop_bit 16 length' AND 0xff),
          ucast (drop_bit 8 length' AND 0xff), ucast (length' AND 0xff)] @ data)"

definition enc_text :: "string \<Rightarrow> bytes" where
  "enc_text text = enc_field (bytes_of_string text)"

definition enc_u32 :: "u32 \<Rightarrow> bytes" where
  "enc_u32 v = enc_field (write_be32 v)"

definition enc_u64 :: "u64 \<Rightarrow> bytes" where
  "enc_u64 v = enc_field (write_be64 v)"

text \<open>A field can be cut off the front of an encoding in one way only.\<close>

definition field_ok :: "bytes \<Rightarrow> bool" where
  "field_ok data \<longleftrightarrow> length data < 2 ^ 32"

lemma enc_field_eq: "enc_field data = write_be32 (word_of_nat (length data)) @ data"
  by (simp add: enc_field_def write_be32_def Let_def)

lemma enc_field_cut:
  assumes "field_ok a" and "field_ok b" and "enc_field a @ r = enc_field b @ s"
  shows "a = b \<and> r = s"
proof -
  have "read_be32 (enc_field a @ r) = read_be32 (enc_field b @ s)" using assms(3) by simp
  then have "(word_of_nat (length a) :: u32) = word_of_nat (length b)"
    by (simp add: enc_field_eq)
  moreover have "unat (word_of_nat (length a) :: u32) = length a"
    and "unat (word_of_nat (length b) :: u32) = length b"
    using assms(1,2) by (simp_all add: field_ok_def unat_of_nat)
  ultimately have "length a = length b" by metis
  with assms(3) show ?thesis by (simp add: enc_field_eq)
qed

lemma enc_text_cut:
  assumes "length a < 2 ^ 32" and "length b < 2 ^ 32" and "enc_text a @ r = enc_text b @ s"
  shows "a = b \<and> r = s"
proof -
  have "bytes_of_string a = bytes_of_string b \<and> r = s"
    using assms by (intro enc_field_cut) (simp_all add: enc_text_def field_ok_def bytes_of_string_def)
  then show ?thesis by (metis string_of_bytes_of_string)
qed

lemma enc_u64_cut: "enc_u64 v @ r = enc_u64 w @ s \<Longrightarrow> v = w \<and> r = s"
  using enc_field_cut [of "write_be64 v" "write_be64 w" r s] read_write_be64 [of v "[]"]
    read_write_be64 [of w "[]"]
  by (auto simp: enc_u64_def field_ok_def)

end
