(* ===== verification/Aead.thy ===== *)
theory Aead
  imports Crypto
begin

text \<open>
  IETF ChaCha20-Poly1305 as the mesh uses it: the parts of \<^verbatim>\<open>monocypher.c\<close> that
  \<^verbatim>\<open>aead_encrypt\<close> and \<^verbatim>\<open>aead_decrypt\<close> of \<^verbatim>\<open>common/crypto.cpp\<close> call, on byte lists and
  words at their C widths, and the contract of an AEAD the secure channel rests on.
\<close>

section \<open>Little-endian words\<close>

definition load32_le :: "bytes \<Rightarrow> u32" where
  "load32_le s =
     ucast (s ! 0) OR push_bit 8 (ucast (s ! 1)) OR push_bit 16 (ucast (s ! 2)) OR
     push_bit 24 (ucast (s ! 3))"

definition load64_le :: "bytes \<Rightarrow> u64" where
  "load64_le s = ucast (load32_le s) OR push_bit 32 (ucast (load32_le (drop 4 s)))"

definition store32_le :: "u32 \<Rightarrow> bytes" where
  "store32_le w = [ucast w, ucast (drop_bit 8 w), ucast (drop_bit 16 w), ucast (drop_bit 24 w)]"

definition store64_le :: "u64 \<Rightarrow> bytes" where
  "store64_le w = store32_le (ucast w) @ store32_le (ucast (drop_bit 32 w))"

definition load32_le_buf :: "bytes \<Rightarrow> nat \<Rightarrow> u32 list" where
  "load32_le_buf src n = map (\<lambda>i. load32_le (drop (i * 4) src)) [0..<n]"

definition store32_le_buf :: "u32 list \<Rightarrow> bytes" where
  "store32_le_buf src = concat (map store32_le src)"

definition rotl32 :: "u32 \<Rightarrow> nat \<Rightarrow> u32" where
  "rotl32 x n = push_bit n x XOR drop_bit (32 - n) x"

definition gap :: "u64 \<Rightarrow> u64 \<Rightarrow> u64" where
  "gap x pow_2 = (NOT x + 1) AND (pow_2 - 1)"

section \<open>Comparing tags\<close>

text \<open>\<^verbatim>\<open>-1\<close> for a difference, \<^verbatim>\<open>0\<close> for none, without a branch.\<close>

definition neq0 :: "u64 \<Rightarrow> i32" where
  "neq0 diff =
     (let half = drop_bit 32 diff OR (ucast (ucast diff :: u32) :: u64);
          eq0 = 1 AND drop_bit 32 (half - 1)
      in ucast eq0 - 1)"

definition x16 :: "bytes \<Rightarrow> bytes \<Rightarrow> u64" where
  "x16 a b = (load64_le a XOR load64_le b) OR (load64_le (drop 8 a) XOR load64_le (drop 8 b))"

definition crypto_verify16 :: "bytes \<Rightarrow> bytes \<Rightarrow> i32" where
  "crypto_verify16 a b = neq0 (x16 a b)"

definition crypto_verify32 :: "bytes \<Rightarrow> bytes \<Rightarrow> i32" where
  "crypto_verify32 a b = neq0 (x16 a b OR x16 (drop 16 a) (drop 16 b))"

section \<open>ChaCha20\<close>

definition quarter_round :: "u32 list \<Rightarrow> nat \<times> nat \<times> nat \<times> nat \<Rightarrow> u32 list" where
  "quarter_round t0 q =
     (case q of (a, b, c, d) \<Rightarrow>
        let t1 = t0[a := t0 ! a + t0 ! b];
            t2 = t1[d := rotl32 (t1 ! d XOR t1 ! a) 16];
            t3 = t2[c := t2 ! c + t2 ! d];
            t4 = t3[b := rotl32 (t3 ! b XOR t3 ! c) 12];
            t5 = t4[a := t4 ! a + t4 ! b];
            t6 = t5[d := rotl32 (t5 ! d XOR t5 ! a) 8];
            t7 = t6[c := t6 ! c + t6 ! d]
        in t7[b := rotl32 (t7 ! b XOR t7 ! c) 7])"

definition chacha20_double_round :: "u32 list \<Rightarrow> u32 list" where
  "chacha20_double_round t = foldl quarter_round t
     [(0, 4, 8, 12), (1, 5, 9, 13), (2, 6, 10, 14), (3, 7, 11, 15),
      (0, 5, 10, 15), (1, 6, 11, 12), (2, 7, 8, 13), (3, 4, 9, 14)]"

definition chacha20_rounds :: "u32 list \<Rightarrow> u32 list" where
  "chacha20_rounds input = (chacha20_double_round ^^ 10) input"

definition chacha20_constant :: bytes where
  "chacha20_constant = bytes_of_string ''expand 32-byte k''"

text \<open>The sixteen output words of one block: \<^verbatim>\<open>pool[j] + input[j]\<close>.\<close>

definition chacha20_words :: "u32 list \<Rightarrow> u32 list" where
  "chacha20_words input = map2 (+) (chacha20_rounds input) input"

definition chacha20_next :: "u32 list \<Rightarrow> u32 list" where
  "chacha20_next input =
     (let i1 = input[12 := input ! 12 + 1]
      in if i1 ! 12 = 0 then i1[13 := i1 ! 13 + 1] else i1)"

text \<open>\<open>n\<close> whole blocks; \<^verbatim>\<open>NULL\<close> for the plain text asks for the key stream itself.\<close>

fun chacha20_blocks :: "nat \<Rightarrow> u32 list \<Rightarrow> bytes option \<Rightarrow> bytes \<times> u32 list \<times> bytes option" where
  "chacha20_blocks 0 input plain = ([], input, plain)"
| "chacha20_blocks (Suc n) input plain =
     (let p = chacha20_words input;
          block = (case plain of
              Some text \<Rightarrow> concat (map (\<lambda>j. store32_le (p ! j XOR load32_le (drop (4 * j) text))) [0..<16])
            | None \<Rightarrow> concat (map store32_le p))
      in case chacha20_blocks n (chacha20_next input) (map_option (drop 64) plain) of
           (out, input', plain') \<Rightarrow> (block @ out, input', plain'))"

definition chacha20_input :: "bytes \<Rightarrow> bytes \<Rightarrow> u64 \<Rightarrow> u32 list" where
  "chacha20_input key nonce ctr =
     load32_le_buf chacha20_constant 4 @ load32_le_buf key 8 @
     [ucast ctr, ucast (drop_bit 32 ctr)] @ load32_le_buf nonce 2"

definition crypto_chacha20_djb :: "bytes option \<Rightarrow> nat \<Rightarrow> bytes \<Rightarrow> bytes \<Rightarrow> u64 \<Rightarrow> bytes \<times> u64" where
  "crypto_chacha20_djb plain_text text_size key nonce ctr =
     (case chacha20_blocks (text_size div 64) (chacha20_input key nonce ctr) plain_text of
        (whole, input, plain_left) \<Rightarrow>
          let rest = text_size mod 64;
              tmp = concat (map store32_le (chacha20_words input));
              text = (case plain_left of None \<Rightarrow> replicate 128 0 | Some p \<Rightarrow> p);
              last_block = (if 0 < rest then map (\<lambda>i. tmp ! i XOR text ! i) [0..<rest] else [])
          in (whole @ last_block,
              ucast (input ! 12) + push_bit 32 (ucast (input ! 13)) + (if 0 < rest then 1 else 0)))"

section \<open>Poly1305\<close>

record poly1305_ctx =
  po_c :: bytes
  po_r :: "u32 list"
  po_pad :: "u32 list"
  po_h :: "u32 list"

definition poly_block :: "u32 list \<Rightarrow> u32 \<Rightarrow> u32 list \<Rightarrow> bytes \<Rightarrow> u32 list" where
  "poly_block r end_bit h inp =
     (let r0 = r ! 0; r1 = r ! 1; r2 = r ! 2; r3 = r ! 3;
          rr0 = drop_bit 2 r0 * 5; rr1 = drop_bit 2 r1 + r1; rr2 = drop_bit 2 r2 + r2;
          rr3 = drop_bit 2 r3 + r3; rr4 = r0 AND 3;
          s0 = (ucast (h ! 0) :: u64) + ucast (load32_le inp);
          s1 = (ucast (h ! 1) :: u64) + ucast (load32_le (drop 4 inp));
          s2 = (ucast (h ! 2) :: u64) + ucast (load32_le (drop 8 inp));
          s3 = (ucast (h ! 3) :: u64) + ucast (load32_le (drop 12 inp));
          s4 = h ! 4 + end_bit;
          x0 = s0 * ucast r0 + s1 * ucast rr3 + s2 * ucast rr2 + s3 * ucast rr1 + ucast (s4 * rr0);
          x1 = s0 * ucast r1 + s1 * ucast r0 + s2 * ucast rr3 + s3 * ucast rr2 + ucast (s4 * rr1);
          x2 = s0 * ucast r2 + s1 * ucast r1 + s2 * ucast r0 + s3 * ucast rr3 + ucast (s4 * rr2);
          x3 = s0 * ucast r3 + s1 * ucast r2 + s2 * ucast r1 + s3 * ucast r0 + ucast (s4 * rr3);
          x4 = s4 * rr4;
          u5 = (ucast (drop_bit 32 x3) :: u32) + x4;
          u0 = ucast (drop_bit 2 u5 * 5) + (x0 AND 0xffffffff);
          u1 = ucast (ucast (drop_bit 32 u0) :: u32) + (x1 AND 0xffffffff) + drop_bit 32 x0;
          u2 = ucast (ucast (drop_bit 32 u1) :: u32) + (x2 AND 0xffffffff) + drop_bit 32 x1;
          u3 = ucast (ucast (drop_bit 32 u2) :: u32) + (x3 AND 0xffffffff) + drop_bit 32 x2;
          u4 = (ucast (drop_bit 32 u3) :: u32) + (u5 AND 3)
      in [ucast (u0 AND 0xffffffff), ucast (u1 AND 0xffffffff), ucast (u2 AND 0xffffffff),
          ucast (u3 AND 0xffffffff), u4])"

fun poly_loop :: "u32 list \<Rightarrow> u32 \<Rightarrow> nat \<Rightarrow> u32 list \<Rightarrow> bytes \<Rightarrow> u32 list" where
  "poly_loop r end_bit 0 h inp = h"
| "poly_loop r end_bit (Suc n) h inp =
     poly_loop r end_bit n (poly_block r end_bit h inp) (drop 16 inp)"

definition poly_blocks :: "poly1305_ctx \<Rightarrow> bytes \<Rightarrow> nat \<Rightarrow> u32 \<Rightarrow> poly1305_ctx" where
  "poly_blocks ctx inp nb_blocks end_bit =
     ctx\<lparr>po_h := poly_loop (po_r ctx) end_bit nb_blocks (po_h ctx) inp\<rparr>"

definition crypto_poly1305_init :: "bytes \<Rightarrow> poly1305_ctx" where
  "crypto_poly1305_init key =
     (let r = load32_le_buf key 4
      in \<lparr>po_c = [], po_r = [r ! 0 AND 0x0fffffff, r ! 1 AND 0x0ffffffc, r ! 2 AND 0x0ffffffc,
            r ! 3 AND 0x0ffffffc],
          po_pad = load32_le_buf (drop 16 key) 4, po_h = replicate 5 0\<rparr>)"

text \<open>\<^verbatim>\<open>c_idx\<close> is the length of the pending bytes.\<close>

definition crypto_poly1305_update :: "poly1305_ctx \<Rightarrow> bytes \<Rightarrow> poly1305_ctx" where
  "crypto_poly1305_update ctx message =
     (if message = [] then ctx
      else
        let aligned = min (unat (gap (word_of_nat (length (po_c ctx))) 16)) (length message);
            ctx1 = ctx\<lparr>po_c := po_c ctx @ take aligned message\<rparr>;
            message1 = drop aligned message;
            ctx2 = (if length (po_c ctx1) = 16 then (poly_blocks ctx1 (po_c ctx1) 1 1)\<lparr>po_c := []\<rparr>
                    else ctx1);
            nb_blocks = length message1 div 16;
            ctx3 = poly_blocks ctx2 message1 nb_blocks 1
        in ctx3\<lparr>po_c := po_c ctx3 @ drop (nb_blocks * 16) message1\<rparr>)"

fun poly_carry :: "u64 \<Rightarrow> u32 list \<Rightarrow> u64" where
  "poly_carry c [] = c"
| "poly_carry c (h # hs) = poly_carry (drop_bit 32 (c + ucast h)) hs"

fun poly_emit :: "u64 \<Rightarrow> (u32 \<times> u32) list \<Rightarrow> bytes" where
  "poly_emit c [] = []"
| "poly_emit c ((h, pad) # hs) =
     (let c' = c + (ucast h + ucast pad)
      in store32_le (ucast c') @ poly_emit (drop_bit 32 c') hs)"

definition crypto_poly1305_final :: "poly1305_ctx \<Rightarrow> bytes" where
  "crypto_poly1305_final ctx =
     (let ctx1 = (if po_c ctx \<noteq> []
                  then poly_blocks ctx (po_c ctx @ [1] @ replicate (15 - length (po_c ctx)) 0) 1 0
                  else ctx);
          c = poly_carry 5 (take 4 (po_h ctx1)) + ucast (po_h ctx1 ! 4);
          c' = drop_bit 2 c * 5
      in poly_emit c' (zip (take 4 (po_h ctx1)) (take 4 (po_pad ctx1))))"

section \<open>The AEAD\<close>

definition lock_auth :: "bytes \<Rightarrow> bytes \<Rightarrow> bytes \<Rightarrow> bytes" where
  "lock_auth auth_key ad cipher_text =
     (let zero = (\<lambda>n. replicate (unat (gap (word_of_nat n) 16)) 0);
          sizes = store64_le (word_of_nat (length ad)) @ store64_le (word_of_nat (length cipher_text))
      in crypto_poly1305_final
          (foldl crypto_poly1305_update (crypto_poly1305_init auth_key)
             [ad, zero (length ad), cipher_text, zero (length cipher_text), sizes]))"

record aead_ctx =
  ac_counter :: u64
  ac_key :: bytes
  ac_nonce :: bytes

definition crypto_aead_init_ietf :: "bytes \<Rightarrow> bytes \<Rightarrow> aead_ctx" where
  "crypto_aead_init_ietf key nonce =
     \<lparr>ac_counter = push_bit 32 (ucast (load32_le nonce)), ac_key = take 32 key,
      ac_nonce = take 8 (drop 4 nonce)\<rparr>"

text \<open>The cipher text, the tag, and the context re-keyed for a next message.\<close>

definition crypto_aead_write :: "aead_ctx \<Rightarrow> bytes \<Rightarrow> bytes \<Rightarrow> bytes \<times> bytes \<times> aead_ctx" where
  "crypto_aead_write ctx ad plain_text =
     (let auth_key = fst (crypto_chacha20_djb None 64 (ac_key ctx) (ac_nonce ctx) (ac_counter ctx));
          cipher_text = fst (crypto_chacha20_djb (Some plain_text) (length plain_text) (ac_key ctx)
            (ac_nonce ctx) (ac_counter ctx + 1))
      in (cipher_text, lock_auth auth_key ad cipher_text, ctx\<lparr>ac_key := take 32 (drop 32 auth_key)\<rparr>))"

definition crypto_aead_read :: "aead_ctx \<Rightarrow> bytes \<Rightarrow> bytes \<Rightarrow> bytes \<Rightarrow> bytes option \<times> aead_ctx" where
  "crypto_aead_read ctx mac ad cipher_text =
     (let auth_key = fst (crypto_chacha20_djb None 64 (ac_key ctx) (ac_nonce ctx) (ac_counter ctx));
          real_mac = lock_auth auth_key ad cipher_text;
          mismatch = crypto_verify16 mac real_mac
      in if mismatch = 0
         then (Some (fst (crypto_chacha20_djb (Some cipher_text) (length cipher_text) (ac_key ctx)
                 (ac_nonce ctx) (ac_counter ctx + 1))), ctx\<lparr>ac_key := take 32 (drop 32 auth_key)\<rparr>)
         else (None, ctx))"

definition aead_tag_len :: nat where
  "aead_tag_len = 16"

text \<open>\<^verbatim>\<open>aead_encrypt\<close> writes cipher text and tag next to each other in every use.\<close>

definition aead_encrypt :: "bytes \<Rightarrow> bytes \<Rightarrow> bytes \<Rightarrow> bytes \<Rightarrow> bytes \<times> bytes" where
  "aead_encrypt key nonce ad plain =
     (case crypto_aead_write (crypto_aead_init_ietf key nonce) ad plain of
        (cipher, mac, ctx) \<Rightarrow> (cipher, mac))"

definition aead_decrypt :: "bytes \<Rightarrow> bytes \<Rightarrow> bytes \<Rightarrow> bytes \<Rightarrow> bytes \<Rightarrow> bytes option" where
  "aead_decrypt key nonce mac ad cipher =
     fst (crypto_aead_read (crypto_aead_init_ietf key nonce) mac ad cipher)"

section \<open>The tag comparison is equality\<close>

lemma store_load32: "4 \<le> length s \<Longrightarrow> store32_le (load32_le s) = take 4 s"
proof -
  have b: "store32_le (load32_le [a, b, c, d]) = [a, b, c, d]" for a b c d
  proof -
    have "(ucast (load32_le [a, b, c, d]) :: u8) = a"
      and "(ucast (drop_bit 8 (load32_le [a, b, c, d])) :: u8) = b"
      and "(ucast (drop_bit 16 (load32_le [a, b, c, d])) :: u8) = c"
      and "(ucast (drop_bit 24 (load32_le [a, b, c, d])) :: u8) = d"
      by (rule bit_eqI, auto simp: load32_le_def bit_simps dest: bit_imp_le_length)+
    then show ?thesis by (simp add: store32_le_def)
  qed
  assume "4 \<le> length s"
  then obtain a b c d r where s: "s = a # b # c # d # r"
    by (metis Suc_le_length_iff numeral_eq_Suc pred_numeral_simps(2,3) BitM.simps)
  have "load32_le s = load32_le [a, b, c, d]" by (simp add: s load32_le_def)
  then show ?thesis using b by (simp add: s)
qed

lemma load64_halves:
  "load64_le a = load64_le b \<longleftrightarrow>
     load32_le a = load32_le b \<and> load32_le (drop 4 a) = load32_le (drop 4 b)"
proof
  assume eq: "load64_le a = load64_le b"
  have low: "(ucast (load64_le s) :: u32) = load32_le s" for s
    by (rule bit_eqI) (auto simp: load64_le_def bit_simps)
  have high: "(ucast (drop_bit 32 (load64_le s)) :: u32) = load32_le (drop 4 s)" for s
    by (rule bit_eqI) (auto simp: load64_le_def bit_simps dest: bit_imp_le_length)
  show "load32_le a = load32_le b \<and> load32_le (drop 4 a) = load32_le (drop 4 b)"
    using eq low [of a] low [of b] high [of a] high [of b] by metis
qed (simp add: load64_le_def)

lemma load32_inj: "4 \<le> length a \<Longrightarrow> 4 \<le> length b \<Longrightarrow> load32_le a = load32_le b \<longleftrightarrow> take 4 a = take 4 b"
proof
  assume "4 \<le> length a" "4 \<le> length b" "take 4 a = take 4 b"
  then have "\<forall>i<4. a ! i = b ! i" by (metis nth_take)
  then show "load32_le a = load32_le b" by (simp add: load32_le_def)
qed (metis store_load32)

lemma load64_inj:
  assumes "8 \<le> length a" and "8 \<le> length b"
  shows "load64_le a = load64_le b \<longleftrightarrow> take 8 a = take 8 b"
proof -
  have "take 8 s = take 4 s @ take 4 (drop 4 s)" for s :: bytes
    by (metis numeral_Bit0 take_add)
  moreover have "length (take 4 a) = length (take 4 b)" using assms by simp
  ultimately show ?thesis
    using assms by (simp add: load64_halves load32_inj)
qed

lemma xor_zero_iff: "a XOR b = 0 \<longleftrightarrow> a = b" for a b :: "'a::len word"
  by (auto simp: bit_eq_iff bit_xor_iff)

lemma x16_zero:
  assumes "length a = 16" and "length b = 16"
  shows "x16 a b = 0 \<longleftrightarrow> a = b"
proof -
  have "x16 a b = 0 \<longleftrightarrow> load64_le a = load64_le b \<and> load64_le (drop 8 a) = load64_le (drop 8 b)"
    by (simp add: x16_def or_eq_0_iff xor_zero_iff)
  also have "\<dots> \<longleftrightarrow> take 8 a = take 8 b \<and> drop 8 a = drop 8 b"
    using assms by (simp add: load64_inj)
  also have "\<dots> \<longleftrightarrow> a = b" by (metis append_take_drop_id)
  finally show ?thesis .
qed

lemma neq0_zero: "neq0 diff = 0 \<longleftrightarrow> diff = 0"
proof -
  define half :: u64 where "half = drop_bit 32 diff OR (ucast (ucast diff :: u32) :: u64)"
  have bits: "bit half n \<Longrightarrow> n < 32" for n
    by (auto simp: half_def bit_simps dest: bit_imp_le_length)
  have zero: "half = 0 \<longleftrightarrow> diff = 0"
  proof
    assume h: "half = 0"
    show "diff = 0"
    proof (rule bit_eqI)
      fix n
      have "\<not> bit half n" "\<not> bit half (n - 32)" using h by simp_all
      then show "bit diff n = bit (0 :: u64) n"
        by (cases "n < 32") (auto simp: half_def bit_simps dest: bit_imp_le_length)
    qed
  qed (simp add: half_def)
  have "half \<noteq> 0 \<Longrightarrow> drop_bit 32 (half - 1) = 0"
  proof -
    assume "half \<noteq> 0"
    have "half = take_bit 32 half" using bits by (intro bit_eqI) (auto simp: bit_take_bit_iff)
    then have "unat half < 2 ^ 32"
      by (metis take_bit_eq_mod unsigned_take_bit_eq mod_less_divisor zero_less_numeral zero_less_power)
    then have "unat (half - 1) < 2 ^ 32" using \<open>half \<noteq> 0\<close>
      by (metis less_imp_diff_less unat_minus_one)
    then show ?thesis by (simp add: drop_bit_eq_div word_unat_eq_iff unat_div)
  qed
  then show ?thesis
    unfolding neq0_def Let_def half_def [symmetric] using zero
    by (cases "half = 0") (simp_all add: mask_eq_exp_minus_1)
qed

lemma verify16_eq: "length a = 16 \<Longrightarrow> length b = 16 \<Longrightarrow> crypto_verify16 a b = 0 \<longleftrightarrow> a = b"
  by (simp add: crypto_verify16_def neq0_zero x16_zero)

lemma verify32_eq:
  assumes "length a = 32" and "length b = 32"
  shows "crypto_verify32 a b = 0 \<longleftrightarrow> a = b"
proof -
  have "x16 a b = 0 \<longleftrightarrow> take 16 a = take 16 b"
  proof -
    have "x16 a b = x16 (take 16 a) (take 16 b)"
      by (simp add: x16_def load64_le_def load32_le_def drop_take)
    with x16_zero [of "take 16 a" "take 16 b"] assms show ?thesis by simp
  qed
  moreover have "x16 (drop 16 a) (drop 16 b) = 0 \<longleftrightarrow> drop 16 a = drop 16 b"
    using assms by (intro x16_zero) simp_all
  ultimately show ?thesis
    by (simp add: crypto_verify32_def neq0_zero or_eq_0_iff) (metis append_take_drop_id)
qed

section \<open>The stream cipher is an involution\<close>

abbreviation xor_bytes :: "bytes \<Rightarrow> bytes \<Rightarrow> bytes" where
  "xor_bytes \<equiv> map2 (\<lambda>x y. x XOR y)"

lemma xor_bytes_cancel: "length s = length t \<Longrightarrow> xor_bytes s (xor_bytes s t) = t"
  by (induction s t rule: list_induct2) (simp_all flip: xor.assoc)

lemma length_quarter_round [simp]: "length (quarter_round t q) = length t"
  by (cases q) (simp only: quarter_round_def Let_def prod.case length_list_update)

lemma length_chacha20_rounds [simp]: "length (chacha20_rounds t) = length t"
proof -
  have l: "length (foldl quarter_round t qs) = length t" for t qs
    by (induction qs arbitrary: t) simp_all
  have "length ((chacha20_double_round ^^ n) t) = length t" for n
    by (induction n) (simp_all add: chacha20_double_round_def l)
  then show ?thesis by (simp add: chacha20_rounds_def)
qed

lemma length_chacha20_words [simp]: "length (chacha20_words input) = length input"
  by (simp add: chacha20_words_def)

lemma length_chacha20_next [simp]: "length (chacha20_next input) = length input"
  by (simp add: chacha20_next_def Let_def)

lemma length_chacha20_input [simp]: "length (chacha20_input key nonce ctr) = 16"
  by (simp add: chacha20_input_def load32_le_buf_def)

lemma length_store32 [simp]: "length (store32_le w) = 4"
  by (simp add: store32_le_def)

lemma length_store32_concat [simp]: "length (concat (map store32_le ws)) = 4 * length ws"
  by (induction ws) simp_all

lemma store32_xor: "store32_le (a XOR b) = xor_bytes (store32_le a) (store32_le b)"
  by (auto simp: store32_le_def intro!: bit_eqI simp: bit_simps)

lemma words_xor:
  "4 * length ws \<le> length t \<Longrightarrow>
   concat (map (\<lambda>j. store32_le (ws ! j XOR load32_le (drop (4 * j) t))) [0..<length ws]) =
   xor_bytes (concat (map store32_le ws)) (take (4 * length ws) t)"
proof (induction ws arbitrary: t)
  case Nil
  then show ?case by simp
next
  case (Cons w ws)
  have "concat (map (\<lambda>j. store32_le ((w # ws) ! j XOR load32_le (drop (4 * j) t))) [0..<length (w # ws)])
      = store32_le (w XOR load32_le t) @
        concat (map (\<lambda>j. store32_le (ws ! j XOR load32_le (drop (4 * j) (drop 4 t)))) [0..<length ws])"
    by (simp add: map_upt_Suc add.commute del: upt_Suc)
  also have "\<dots> = store32_le (w XOR load32_le t) @
      xor_bytes (concat (map store32_le ws)) (take (4 * length ws) (drop 4 t))"
    using Cons.prems by (subst Cons.IH) simp_all
  also have "\<dots> = xor_bytes (store32_le w) (take 4 t) @
      xor_bytes (concat (map store32_le ws)) (take (4 * length ws) (drop 4 t))"
    using Cons.prems by (simp add: store32_xor store_load32)
  also have "\<dots> = xor_bytes (concat (map store32_le (w # ws))) (take (4 * length (w # ws)) t)"
    using Cons.prems by (simp add: take_add zip_append)
  finally show ?case .
qed

fun chacha20_stream :: "nat \<Rightarrow> u32 list \<Rightarrow> bytes" where
  "chacha20_stream 0 input = []"
| "chacha20_stream (Suc n) input =
     concat (map store32_le (chacha20_words input)) @ chacha20_stream n (chacha20_next input)"

lemma length_chacha20_stream [simp]: "length input = 16 \<Longrightarrow> length (chacha20_stream n input) = 64 * n"
  by (induction n arbitrary: input) simp_all

lemma chacha20_blocks_stream:
  "length input = 16 \<Longrightarrow> 64 * n \<le> length t \<Longrightarrow>
   chacha20_blocks n input (Some t) =
     (xor_bytes (chacha20_stream n input) (take (64 * n) t), (chacha20_next ^^ n) input, Some (drop (64 * n) t))"
proof (induction n arbitrary: input t)
  case 0
  then show ?case by simp
next
  case (Suc n)
  have "concat (map (\<lambda>j. store32_le (chacha20_words input ! j XOR load32_le (drop (4 * j) t))) [0..<16]) =
      xor_bytes (concat (map store32_le (chacha20_words input))) (take 64 t)"
    using words_xor [of "chacha20_words input" t] Suc.prems by simp
  moreover have "take (64 * Suc n) t = take 64 t @ take (64 * n) (drop 64 t)"
    by (simp add: take_add)
  moreover have "chacha20_blocks n (chacha20_next input) (Some (drop 64 t)) =
      (xor_bytes (chacha20_stream n (chacha20_next input)) (take (64 * n) (drop 64 t)),
       (chacha20_next ^^ n) (chacha20_next input), Some (drop (64 * n) (drop 64 t)))"
    using Suc.prems by (intro Suc.IH) simp_all
  moreover have "(chacha20_next ^^ n) (chacha20_next input) = (chacha20_next ^^ Suc n) input"
    by (simp only: funpow_Suc_right o_apply)
  ultimately show ?case
    using Suc.prems by (simp add: Let_def zip_append add.commute del: funpow.simps)
qed

lemma length_chacha20_next_pow [simp]: "length ((chacha20_next ^^ n) input) = length input"
  by (induction n) simp_all

text \<open>The key stream for \<open>n\<close> bytes.\<close>

definition chacha20_key_stream :: "nat \<Rightarrow> bytes \<Rightarrow> bytes \<Rightarrow> u64 \<Rightarrow> bytes" where
  "chacha20_key_stream n key nonce ctr =
     take n (chacha20_stream (Suc (n div 64)) (chacha20_input key nonce ctr))"

lemma chacha20_stream_snoc:
  "chacha20_stream (Suc n) input =
   chacha20_stream n input @ concat (map store32_le (chacha20_words ((chacha20_next ^^ n) input)))"
proof (induction n arbitrary: input)
  case (Suc n)
  from Suc [of "chacha20_next input"] show ?case
    by (simp add: funpow_Suc_right del: funpow.simps)
qed simp

lemma map_nth_xor:
  "length b = r \<Longrightarrow> r \<le> length a \<Longrightarrow>
   map (\<lambda>i. a ! i XOR b ! i) [0..<r] = xor_bytes (take r a) b"
  by (rule nth_equalityI) simp_all

lemma chacha20_djb_xor:
  "fst (crypto_chacha20_djb (Some t) (length t) key nonce ctr) =
   xor_bytes (chacha20_key_stream (length t) key nonce ctr) t"
proof -
  let ?n = "length t div 64" and ?r = "length t mod 64" and ?in = "chacha20_input key nonce ctr"
  let ?last = "concat (map store32_le (chacha20_words ((chacha20_next ^^ ?n) ?in)))"
  have n: "64 * ?n + ?r = length t" by simp
  have last_block: "(if 0 < ?r then map (\<lambda>i. ?last ! i XOR drop (64 * ?n) t ! i) [0..<?r] else []) =
      xor_bytes (take ?r ?last) (drop (64 * ?n) t)"
  proof -
    have "map (\<lambda>i. ?last ! i XOR drop (64 * ?n) t ! i) [0..<?r] = xor_bytes (take ?r ?last) (drop (64 * ?n) t)"
      by (rule map_nth_xor) (simp_all add: minus_mult_div_eq_mod)
    then show ?thesis by simp
  qed
  have blocks: "chacha20_blocks ?n ?in (Some t) =
      (xor_bytes (chacha20_stream ?n ?in) (take (64 * ?n) t), (chacha20_next ^^ ?n) ?in, Some (drop (64 * ?n) t))"
    by (rule chacha20_blocks_stream) simp_all
  have "fst (crypto_chacha20_djb (Some t) (length t) key nonce ctr) =
      xor_bytes (chacha20_stream ?n ?in) (take (64 * ?n) t) @ xor_bytes (take ?r ?last) (drop (64 * ?n) t)"
    by (simp only: crypto_chacha20_djb_def blocks Let_def prod.case option.case fst_conv last_block)
  also have "\<dots> = xor_bytes (chacha20_stream ?n ?in @ take ?r ?last) (take (64 * ?n) t @ drop (64 * ?n) t)"
    by (simp only: zip_append map_append length_chacha20_stream length_chacha20_input length_take
        min.absorb2 times_div_less_eq_dividend)
  also have "take (64 * ?n) t @ drop (64 * ?n) t = t" by (rule append_take_drop_id)
  also have "chacha20_stream ?n ?in @ take ?r ?last = chacha20_key_stream (length t) key nonce ctr"
    unfolding chacha20_key_stream_def chacha20_stream_snoc
    by (simp add: minus_mult_div_eq_mod)
  finally show ?thesis .
qed

lemma length_chacha20_key_stream [simp]: "length (chacha20_key_stream n key nonce ctr) = n"
  using mod_less_divisor [of 64 n] div_mult_mod_eq [of n 64]
  by (simp add: chacha20_key_stream_def del: chacha20_stream.simps mod_less_divisor)

lemma chacha20_djb_twice:
  assumes "fst (crypto_chacha20_djb (Some t) (length t) key nonce ctr) = c"
  shows "length c = length t" and "fst (crypto_chacha20_djb (Some c) (length c) key nonce ctr) = t"
  using assms by (auto simp: chacha20_djb_xor xor_bytes_cancel)

section \<open>The contract of an AEAD\<close>

lemma length_poly_emit: "length (poly_emit c hs) = 4 * length hs"
  by (induction c hs rule: poly_emit.induct) (simp_all add: Let_def)

lemma length_poly_block [simp]: "length (poly_block r e h inp) = 5"
  by (simp add: poly_block_def Let_def)

lemma length_poly_loop: "length h = 5 \<Longrightarrow> length (poly_loop r e n h inp) = 5"
  by (induction r e n h inp rule: poly_loop.induct) simp_all

definition poly_ctx_ok :: "poly1305_ctx \<Rightarrow> bool" where
  "poly_ctx_ok ctx \<longleftrightarrow> length (po_h ctx) = 5 \<and> length (po_pad ctx) = 4"

lemma poly_ctx_ok_steps:
  "poly_ctx_ok (crypto_poly1305_init key)"
  "poly_ctx_ok ctx \<Longrightarrow> poly_ctx_ok (poly_blocks ctx inp n e)"
  "poly_ctx_ok ctx \<Longrightarrow> poly_ctx_ok (crypto_poly1305_update ctx message)"
  "poly_ctx_ok ctx \<Longrightarrow> poly_ctx_ok (ctx\<lparr>po_c := c\<rparr>)"
  by (simp_all add: poly_ctx_ok_def crypto_poly1305_init_def poly_blocks_def length_poly_loop Let_def
      load32_le_buf_def crypto_poly1305_update_def)

lemma length_poly1305_final: "poly_ctx_ok ctx \<Longrightarrow> length (crypto_poly1305_final ctx) = 16"
  by (simp add: crypto_poly1305_final_def Let_def length_poly_emit poly_ctx_ok_def poly_blocks_def
      length_poly_loop)

lemma length_lock_auth [simp]: "length (lock_auth auth_key ad cipher_text) = 16"
  unfolding lock_auth_def Let_def foldl.simps
  by (intro length_poly1305_final poly_ctx_ok_steps)

text \<open>
  Opening gives back what was sealed, and whatever opens is what sealing it would have given: under
  one key and nonce there is exactly one sealed form of a text and its associated data.
\<close>

locale aead =
  fixes enc :: "bytes \<Rightarrow> bytes \<Rightarrow> bytes \<Rightarrow> bytes \<Rightarrow> bytes \<times> bytes"
    and dec :: "bytes \<Rightarrow> bytes \<Rightarrow> bytes \<Rightarrow> bytes \<Rightarrow> bytes \<Rightarrow> bytes option"
  assumes enc_lengths: "enc key nonce ad plain = (cipher, mac) \<Longrightarrow>
      length cipher = length plain \<and> length mac = aead_tag_len"
    and dec_iff: "length mac = aead_tag_len \<Longrightarrow>
      dec key nonce mac ad cipher = Some plain \<longleftrightarrow> enc key nonce ad plain = (cipher, mac)"
begin

text \<open>A sealed text is the cipher text followed by its tag.\<close>

definition box :: "bytes \<Rightarrow> bytes \<Rightarrow> bytes \<Rightarrow> bytes \<Rightarrow> bytes" where
  "box key nonce ad plain = fst (enc key nonce ad plain) @ snd (enc key nonce ad plain)"

definition unbox :: "bytes \<Rightarrow> bytes \<Rightarrow> bytes \<Rightarrow> bytes \<Rightarrow> bytes option" where
  "unbox key nonce ad sealed =
     (if length sealed < aead_tag_len then None
      else dec key nonce (drop (length sealed - aead_tag_len) sealed) ad
        (take (length sealed - aead_tag_len) sealed))"

lemma box_length: "length (box key nonce ad plain) = length plain + aead_tag_len"
  using enc_lengths [of key nonce ad plain] by (cases "enc key nonce ad plain") (simp add: box_def)

lemma unbox_iff: "unbox key nonce ad sealed = Some plain \<longleftrightarrow> sealed = box key nonce ad plain"
proof (cases "length sealed < aead_tag_len")
  case True
  then show ?thesis using box_length [of key nonce ad plain] by (auto simp: unbox_def)
next
  case False
  let ?n = "length sealed - aead_tag_len"
  obtain c m where e: "enc key nonce ad plain = (c, m)" by (cases "enc key nonce ad plain")
  have "unbox key nonce ad sealed = Some plain \<longleftrightarrow> (c, m) = (take ?n sealed, drop ?n sealed)"
    using False by (simp add: unbox_def dec_iff e)
  also have "\<dots> \<longleftrightarrow> sealed = c @ m"
  proof
    assume "(c, m) = (take ?n sealed, drop ?n sealed)"
    then show "sealed = c @ m" by simp
  next
    assume s: "sealed = c @ m"
    then have "?n = length c" using enc_lengths [OF e] by simp
    then show "(c, m) = (take ?n sealed, drop ?n sealed)" by (simp add: s)
  qed
  finally show ?thesis by (simp add: box_def e)
qed

lemma unbox_box [simp]: "unbox key nonce ad (box key nonce ad plain) = Some plain"
  by (simp add: unbox_iff)

lemma box_inj [simp]: "box key nonce ad plain = box key nonce ad plain' \<longleftrightarrow> plain = plain'"
  by (metis option.inject unbox_box)

lemma unbox_inj:
  "unbox key nonce ad s = Some plain \<Longrightarrow> unbox key nonce ad t = Some plain \<Longrightarrow> s = t"
  by (simp add: unbox_iff)

lemma unbox_length: "unbox key nonce ad sealed = Some plain \<Longrightarrow> length sealed = length plain + aead_tag_len"
  by (auto simp: unbox_iff box_length)

end

interpretation chachapoly: aead aead_encrypt aead_decrypt
proof
  fix key nonce ad plain cipher mac
  assume e: "aead_encrypt key nonce ad plain = (cipher, mac)"
  show "length cipher = length plain \<and> length mac = aead_tag_len"
    using e by (auto simp: aead_encrypt_def crypto_aead_write_def Let_def aead_tag_len_def
        chacha20_djb_xor)
next
  fix mac key nonce ad cipher plain
  assume m: "length (mac :: bytes) = aead_tag_len"
  let ?ctx = "crypto_aead_init_ietf key nonce"
  let ?auth = "fst (crypto_chacha20_djb None 64 (ac_key ?ctx) (ac_nonce ?ctx) (ac_counter ?ctx))"
  let ?x = "\<lambda>t. fst (crypto_chacha20_djb (Some t) (length t) (ac_key ?ctx) (ac_nonce ?ctx) (ac_counter ?ctx + 1))"
  have flip: "?x cipher = plain \<longleftrightarrow> ?x plain = cipher"
    using chacha20_djb_twice(2) by metis
  have "aead_decrypt key nonce mac ad cipher = Some plain \<longleftrightarrow>
      mac = lock_auth ?auth ad cipher \<and> ?x cipher = plain"
    using verify16_eq [of mac "lock_auth ?auth ad cipher"] m
    by (simp add: aead_decrypt_def crypto_aead_read_def Let_def aead_tag_len_def)
  also have "\<dots> \<longleftrightarrow> aead_encrypt key nonce ad plain = (cipher, mac)"
    using flip by (auto simp: aead_encrypt_def crypto_aead_write_def Let_def)
  finally show "aead_decrypt key nonce mac ad cipher = Some plain \<longleftrightarrow>
    aead_encrypt key nonce ad plain = (cipher, mac)" .
qed

end
