(* ===== verification/Secure_Channel.thy ===== *)
theory Secure_Channel
  imports Aead
begin

text \<open>
  \<^verbatim>\<open>net/secure_channel.cpp\<close>: the Noise cipher state and the XX handshake, with the X25519
  wrappers of \<^verbatim>\<open>common/crypto.cpp\<close>.  The scalar multiplication itself is a parameter (the
  record \<open>x25519\<close>), and so is the platform's random source: a write is given the 32 bytes it
  would draw, or nothing where the platform has none.  A step gives its output, or \<open>None\<close> where
  the code returns false, and the state it leaves behind in either case.
\<close>

section \<open>X25519\<close>

record x25519 =
  xk_public :: "bytes \<Rightarrow> bytes"
  xk_shared :: "bytes \<Rightarrow> bytes \<Rightarrow> bytes"

definition x25519_public_key :: "x25519 \<Rightarrow> bytes \<Rightarrow> bytes" where
  "x25519_public_key X secret = xk_public X secret"

text \<open>The all-zero secret of a low-order public key is refused.\<close>

definition x25519_shared :: "x25519 \<Rightarrow> bytes \<Rightarrow> bytes \<Rightarrow> bytes option" where
  "x25519_shared X secret peer_public =
     (let shared = xk_shared X secret peer_public
      in if crypto_verify32 shared (replicate 32 0) \<noteq> 0 then Some shared else None)"

section \<open>The cipher state\<close>

record cipher_state =
  cs_key :: bytes
  cs_nonce :: u64
  cs_has_key :: bool

definition new_cipher_state :: cipher_state where
  "new_cipher_state = \<lparr>cs_key = replicate 32 0, cs_nonce = 0, cs_has_key = False\<rparr>"

definition cs_init_key :: "bytes \<Rightarrow> cipher_state \<Rightarrow> cipher_state" where
  "cs_init_key key cs = cs\<lparr>cs_key := key, cs_nonce := 0, cs_has_key := True\<rparr>"

definition build_nonce :: "u64 \<Rightarrow> bytes" where
  "build_nonce nonce = replicate 4 0 @ map (\<lambda>i. ucast (drop_bit (8 * i) nonce AND 0xff)) [0..<8]"

definition nonce_limit :: u64 where
  "nonce_limit = NOT 0"

definition tag_len :: nat where
  "tag_len = 16"

definition cs_encrypt :: "bytes \<Rightarrow> bytes \<Rightarrow> cipher_state \<Rightarrow> bytes option \<times> cipher_state" where
  "cs_encrypt ad plain cs =
     (if \<not> cs_has_key cs then (Some plain, cs)
      else if cs_nonce cs = nonce_limit then (None, cs)
      else case aead_encrypt (cs_key cs) (build_nonce (cs_nonce cs)) ad plain of
             (cipher, mac) \<Rightarrow> (Some (cipher @ mac), cs\<lparr>cs_nonce := cs_nonce cs + 1\<rparr>))"

definition cs_decrypt :: "bytes \<Rightarrow> bytes \<Rightarrow> cipher_state \<Rightarrow> bytes option \<times> cipher_state" where
  "cs_decrypt ad cipher cs =
     (if \<not> cs_has_key cs then (Some cipher, cs)
      else if cs_nonce cs = nonce_limit \<or> length cipher < tag_len then (None, cs)
      else
        let body = length cipher - tag_len
        in case aead_decrypt (cs_key cs) (build_nonce (cs_nonce cs)) (drop body cipher) ad (take body cipher) of
             None \<Rightarrow> (None, cs)
           | Some plain \<Rightarrow> (Some plain, cs\<lparr>cs_nonce := cs_nonce cs + 1\<rparr>))"

section \<open>The handshake\<close>

datatype noise_token = tok_e | tok_s | tok_ee | tok_es | tok_se

definition xx_message :: "nat \<Rightarrow> noise_token list" where
  "xx_message index =
     (if index = 0 then [tok_e]
      else if index = 1 then [tok_e, tok_ee, tok_s, tok_es]
      else if index = 2 then [tok_s, tok_se]
      else [])"

definition protocol_name :: bytes where
  "protocol_name = bytes_of_string ''Noise_XX_25519_ChaChaPoly_SHA256''"

definition udp_subkey_domain :: string where
  "udp_subkey_domain = ''eosr-udp-subkey-v1''"

definition dh_len :: nat where
  "dh_len = 32"

definition max_noise_message :: nat where
  "max_noise_message = 65535"

record noise_handshake =
  nh_ck :: bytes
  nh_h :: bytes
  nh_cs :: cipher_state
  nh_initiator :: bool
  nh_s_priv :: bytes
  nh_s_pub :: bytes
  nh_e_priv :: bytes
  nh_e_pub :: bytes
  nh_have_e :: bool
  nh_remote_static :: bytes
  nh_have_rs :: bool
  nh_re :: bytes
  nh_have_re :: bool
  nh_fixed_ephemeral :: bool
  nh_fixed_e_priv :: bytes
  nh_message_index :: nat
  nh_done :: bool
  nh_split_done :: bool
  nh_handshake_hash :: bytes

definition mix_hash :: "bytes \<Rightarrow> noise_handshake \<Rightarrow> noise_handshake" where
  "mix_hash data n = n\<lparr>nh_h := sha256 (nh_h n @ data)\<rparr>"

definition new_noise_handshake :: "bool \<Rightarrow> bytes \<Rightarrow> bytes \<Rightarrow> bytes \<Rightarrow> noise_handshake" where
  "new_noise_handshake initiator static_priv static_pub prologue =
     mix_hash prologue
       \<lparr>nh_ck = protocol_name, nh_h = protocol_name, nh_cs = new_cipher_state,
        nh_initiator = initiator, nh_s_priv = static_priv, nh_s_pub = static_pub,
        nh_e_priv = replicate 32 0, nh_e_pub = replicate 32 0, nh_have_e = False,
        nh_remote_static = replicate 32 0, nh_have_rs = False, nh_re = replicate 32 0,
        nh_have_re = False, nh_fixed_ephemeral = False, nh_fixed_e_priv = replicate 32 0,
        nh_message_index = 0, nh_done = False, nh_split_done = False,
        nh_handshake_hash = replicate 32 0\<rparr>"

definition set_fixed_ephemeral :: "bytes \<Rightarrow> noise_handshake \<Rightarrow> noise_handshake" where
  "set_fixed_ephemeral ephemeral_priv n =
     n\<lparr>nh_fixed_e_priv := ephemeral_priv, nh_fixed_ephemeral := True\<rparr>"

definition mix_key :: "bytes \<Rightarrow> noise_handshake \<Rightarrow> bool \<times> noise_handshake" where
  "mix_key ikm n =
     (case hkdf_sha256 (nh_ck n) ikm 2 of
        [a, b] \<Rightarrow> (True, n\<lparr>nh_ck := a, nh_cs := cs_init_key b (nh_cs n)\<rparr>)
      | _ \<Rightarrow> (False, n))"

definition encrypt_and_hash :: "bytes \<Rightarrow> noise_handshake \<Rightarrow> bytes option \<times> noise_handshake" where
  "encrypt_and_hash plain n =
     (case cs_encrypt (nh_h n) plain (nh_cs n) of
        (None, cs) \<Rightarrow> (None, n\<lparr>nh_cs := cs\<rparr>)
      | (Some out, cs) \<Rightarrow> (Some out, mix_hash out (n\<lparr>nh_cs := cs\<rparr>)))"

definition decrypt_and_hash :: "bytes \<Rightarrow> noise_handshake \<Rightarrow> bytes option \<times> noise_handshake" where
  "decrypt_and_hash cipher n =
     (let extra = (if cs_has_key (nh_cs n) then tag_len else 0)
      in if length cipher < extra then (None, n)
         else case cs_decrypt (nh_h n) cipher (nh_cs n) of
                (None, cs) \<Rightarrow> (None, n\<lparr>nh_cs := cs\<rparr>)
              | (Some out, cs) \<Rightarrow> (Some out, mix_hash cipher (n\<lparr>nh_cs := cs\<rparr>)))"

definition ensure_ephemeral :: "x25519 \<Rightarrow> bytes option \<Rightarrow> noise_handshake \<Rightarrow> bool \<times> noise_handshake" where
  "ensure_ephemeral X rng n =
     (if nh_have_e n then (True, n)
      else
        case (if nh_fixed_ephemeral n then Some (nh_fixed_e_priv n) else rng) of
          None \<Rightarrow> (False, n)
        | Some e \<Rightarrow> (True, n\<lparr>nh_e_priv := e, nh_e_pub := x25519_public_key X e, nh_have_e := True\<rparr>))"

text \<open>The secret of a DH token and its mixing into the chaining key, the same on both sides.\<close>

definition dh_inputs :: "noise_token \<Rightarrow> noise_handshake \<Rightarrow> bytes \<times> bytes" where
  "dh_inputs t n =
     (case t of
        tok_ee \<Rightarrow> (nh_e_priv n, nh_re n)
      | tok_es \<Rightarrow> if nh_initiator n then (nh_e_priv n, nh_remote_static n) else (nh_s_priv n, nh_re n)
      | tok_se \<Rightarrow> if nh_initiator n then (nh_s_priv n, nh_re n) else (nh_e_priv n, nh_remote_static n)
      | _ \<Rightarrow> ([], []))"

definition mix_dh :: "x25519 \<Rightarrow> noise_token \<Rightarrow> noise_handshake \<Rightarrow> bool \<times> noise_handshake" where
  "mix_dh X t n =
     (case dh_inputs t n of (our_priv, peer_pub) \<Rightarrow>
        case x25519_shared X our_priv peer_pub of
          None \<Rightarrow> (False, n)
        | Some shared \<Rightarrow> mix_key shared n)"

definition write_token :: "x25519 \<Rightarrow> bytes option \<Rightarrow> noise_token \<Rightarrow> noise_handshake \<Rightarrow>
    bytes option \<times> noise_handshake" where
  "write_token X rng t n =
     (case t of
        tok_e \<Rightarrow>
          (case ensure_ephemeral X rng n of
             (False, n') \<Rightarrow> (None, n')
           | (True, n') \<Rightarrow> (Some (nh_e_pub n'), mix_hash (nh_e_pub n') n'))
      | tok_s \<Rightarrow> encrypt_and_hash (nh_s_pub n) n
      | _ \<Rightarrow>
          (case mix_dh X t n of
             (False, n') \<Rightarrow> (None, n')
           | (True, n') \<Rightarrow> (Some [], n')))"

fun write_tokens :: "x25519 \<Rightarrow> bytes option \<Rightarrow> noise_token list \<Rightarrow> noise_handshake \<Rightarrow>
    bytes option \<times> noise_handshake" where
  "write_tokens X rng [] n = (Some [], n)"
| "write_tokens X rng (t # ts) n =
     (case write_token X rng t n of
        (None, n') \<Rightarrow> (None, n')
      | (Some a, n') \<Rightarrow>
          (case write_tokens X rng ts n' of
             (None, n'') \<Rightarrow> (None, n'')
           | (Some b, n'') \<Rightarrow> (Some (a @ b), n'')))"

text \<open>The size of the frame a write would give, found before any state moves.\<close>

fun tokens_size :: "noise_token list \<Rightarrow> bool \<Rightarrow> nat \<times> bool" where
  "tokens_size [] keyed = (0, keyed)"
| "tokens_size (t # ts) keyed =
     (case t of
        tok_e \<Rightarrow> (case tokens_size ts keyed of (n, k) \<Rightarrow> (dh_len + n, k))
      | tok_s \<Rightarrow> (case tokens_size ts keyed of (n, k) \<Rightarrow> (dh_len + (if keyed then tag_len else 0) + n, k))
      | _ \<Rightarrow> tokens_size ts True)"

definition message_size :: "nat \<Rightarrow> bool \<Rightarrow> nat \<Rightarrow> nat" where
  "message_size index keyed payload_len =
     (case tokens_size (xx_message index) keyed of
        (n, k) \<Rightarrow> n + payload_len + (if k then tag_len else 0))"

definition nh_we_write :: "noise_handshake \<Rightarrow> nat \<Rightarrow> bool" where
  "nh_we_write n index \<longleftrightarrow> (index mod 2 = 0) = nh_initiator n"

text \<open>What both directions do once their message is complete.\<close>

definition finish_message :: "noise_handshake \<Rightarrow> noise_handshake" where
  "finish_message n =
     (let n' = (if nh_message_index n = 2 then n\<lparr>nh_done := True, nh_handshake_hash := nh_h n\<rparr> else n)
      in n'\<lparr>nh_message_index := nh_message_index n' + 1\<rparr>)"

definition write_message :: "x25519 \<Rightarrow> bytes option \<Rightarrow> bytes \<Rightarrow> noise_handshake \<Rightarrow>
    bytes option \<times> noise_handshake" where
  "write_message X rng payload n =
     (if nh_done n \<or> \<not> nh_we_write n (nh_message_index n) then (None, n)
      else if max_noise_message <
          message_size (nh_message_index n) (cs_has_key (nh_cs n)) (length payload) then (None, n)
      else
        case write_tokens X rng (xx_message (nh_message_index n)) n of
          (None, n') \<Rightarrow> (None, n')
        | (Some out, n') \<Rightarrow>
            (case encrypt_and_hash payload n' of
               (None, n'') \<Rightarrow> (None, n'')
             | (Some enc_payload, n'') \<Rightarrow> (Some (out @ enc_payload), finish_message n'')))"

text \<open>Reading a token takes its bytes off the message and gives what is left.\<close>

definition read_token :: "x25519 \<Rightarrow> noise_token \<Rightarrow> bytes \<Rightarrow> noise_handshake \<Rightarrow>
    bytes option \<times> noise_handshake" where
  "read_token X t message n =
     (case t of
        tok_e \<Rightarrow>
          if length message < dh_len then (None, n)
          else
            let re = take dh_len message
            in (Some (drop dh_len message), mix_hash re (n\<lparr>nh_re := re, nh_have_re := True\<rparr>))
      | tok_s \<Rightarrow>
          let slen = (if cs_has_key (nh_cs n) then dh_len + tag_len else dh_len)
          in if length message < slen then (None, n)
             else
               (case decrypt_and_hash (take slen message) n of
                  (None, n') \<Rightarrow> (None, n')
                | (Some rs, n') \<Rightarrow>
                    if length rs \<noteq> dh_len then (None, n')
                    else (Some (drop slen message), n'\<lparr>nh_remote_static := rs, nh_have_rs := True\<rparr>))
      | _ \<Rightarrow>
          (case mix_dh X t n of
             (False, n') \<Rightarrow> (None, n')
           | (True, n') \<Rightarrow> (Some message, n')))"

fun read_tokens :: "x25519 \<Rightarrow> noise_token list \<Rightarrow> bytes \<Rightarrow> noise_handshake \<Rightarrow>
    bytes option \<times> noise_handshake" where
  "read_tokens X [] message n = (Some message, n)"
| "read_tokens X (t # ts) message n =
     (case read_token X t message n of
        (None, n') \<Rightarrow> (None, n')
      | (Some left, n') \<Rightarrow> read_tokens X ts left n')"

definition read_message :: "x25519 \<Rightarrow> bytes \<Rightarrow> noise_handshake \<Rightarrow> bytes option \<times> noise_handshake" where
  "read_message X message n =
     (if nh_done n \<or> nh_we_write n (nh_message_index n) \<or> max_noise_message < length message then (None, n)
      else
        case read_tokens X (xx_message (nh_message_index n)) message n of
          (None, n') \<Rightarrow> (None, n')
        | (Some left, n') \<Rightarrow>
            (case decrypt_and_hash left n' of
               (None, n'') \<Rightarrow> (None, n'')
             | (Some payload, n'') \<Rightarrow> (Some payload, finish_message n'')))"

section \<open>Splitting\<close>

record transport_keys =
  tk_send :: cipher_state
  tk_recv :: cipher_state
  tk_udp_send :: bytes
  tk_udp_recv :: bytes

definition noise_split :: "noise_handshake \<Rightarrow> transport_keys \<Rightarrow> bool \<times> noise_handshake \<times> transport_keys" where
  "noise_split n tk =
     (if \<not> nh_done n \<or> nh_split_done n then (False, n, tk)
      else
        case (hkdf_sha256 (nh_ck n) (enc_text udp_subkey_domain) 2, hkdf_sha256 (nh_ck n) [] 2) of
          ([udp0, udp1], [out0, out1]) \<Rightarrow>
            (True, n\<lparr>nh_split_done := True\<rparr>,
             if nh_initiator n
             then \<lparr>tk_send = cs_init_key out0 (tk_send tk), tk_recv = cs_init_key out1 (tk_recv tk),
                   tk_udp_send = udp0, tk_udp_recv = udp1\<rparr>
             else \<lparr>tk_send = cs_init_key out1 (tk_send tk), tk_recv = cs_init_key out0 (tk_recv tk),
                   tk_udp_send = udp1, tk_udp_recv = udp0\<rparr>)
        | _ \<Rightarrow> (False, n, tk))"

section \<open>Both ends of a cipher state stay together\<close>

lemma cs_encrypt_box:
  "cs_encrypt ad plain cs =
     (if \<not> cs_has_key cs then (Some plain, cs)
      else if cs_nonce cs = nonce_limit then (None, cs)
      else (Some (chachapoly.box (cs_key cs) (build_nonce (cs_nonce cs)) ad plain),
            cs\<lparr>cs_nonce := cs_nonce cs + 1\<rparr>))"
  by (simp add: cs_encrypt_def chachapoly.box_def split: prod.splits)

lemma cs_decrypt_unbox:
  "cs_decrypt ad cipher cs =
     (if \<not> cs_has_key cs then (Some cipher, cs)
      else if cs_nonce cs = nonce_limit then (None, cs)
      else case chachapoly.unbox (cs_key cs) (build_nonce (cs_nonce cs)) ad cipher of
             None \<Rightarrow> (None, cs)
           | Some plain \<Rightarrow> (Some plain, cs\<lparr>cs_nonce := cs_nonce cs + 1\<rparr>))"
  by (simp add: cs_decrypt_def chachapoly.unbox_def tag_len_def aead_tag_len_def Let_def
      split: option.splits)

lemma cs_decrypt_iff:
  "cs_decrypt ad cipher cs = (Some plain, cs') \<longleftrightarrow> cs_encrypt ad plain cs = (Some cipher, cs')"
  by (auto simp: cs_decrypt_unbox cs_encrypt_box chachapoly.unbox_iff split: option.splits)

lemma cs_encrypt_length:
  "cs_encrypt ad plain cs = (Some cipher, cs') \<Longrightarrow>
   length cipher = length plain + (if cs_has_key cs then tag_len else 0)"
  by (auto simp: cs_encrypt_box chachapoly.box_length tag_len_def aead_tag_len_def split: if_splits)

section \<open>The symmetric part of a handshake\<close>

type_synonym sym = "bytes \<times> bytes \<times> cipher_state"

definition sym_of :: "noise_handshake \<Rightarrow> sym" where
  "sym_of n = (nh_ck n, nh_h n, nh_cs n)"

definition set_sym :: "sym \<Rightarrow> noise_handshake \<Rightarrow> noise_handshake" where
  "set_sym s n = (case s of (ck, h, cs) \<Rightarrow> n\<lparr>nh_ck := ck, nh_h := h, nh_cs := cs\<rparr>)"

definition sym_hash :: "bytes \<Rightarrow> sym \<Rightarrow> sym" where
  "sym_hash d s = (case s of (ck, h, cs) \<Rightarrow> (ck, sha256 (h @ d), cs))"

definition sym_key :: "bytes \<Rightarrow> sym \<Rightarrow> sym" where
  "sym_key ikm s =
     (case s of (ck, h, cs) \<Rightarrow> (hkdf_sha256 ck ikm 2 ! 0, h, cs_init_key (hkdf_sha256 ck ikm 2 ! 1) cs))"

definition sym_seal :: "bytes \<Rightarrow> sym \<Rightarrow> bytes \<times> sym" where
  "sym_seal plain s =
     (case s of (ck, h, cs) \<Rightarrow>
        case cs_encrypt h plain cs of (c, cs') \<Rightarrow> (the c, ck, sha256 (h @ the c), cs'))"

definition sym_ready :: "sym \<Rightarrow> bool" where
  "sym_ready s \<longleftrightarrow> (case s of (ck, h, cs) \<Rightarrow> cs_has_key cs \<longrightarrow> cs_nonce cs \<noteq> nonce_limit)"

lemma sym_of_set [simp]: "sym_of (set_sym s n) = s"
  by (simp add: sym_of_def set_sym_def split: prod.splits)

lemma set_sym_of [simp]: "set_sym (sym_of n) n = n"
  by (simp add: sym_of_def set_sym_def)

lemma set_set_sym [simp]: "set_sym s (set_sym t n) = set_sym s n"
  by (simp add: set_sym_def split: prod.splits)

lemma set_sym_fields [simp]:
  "nh_initiator (set_sym s n) = nh_initiator n" "nh_s_priv (set_sym s n) = nh_s_priv n"
  "nh_s_pub (set_sym s n) = nh_s_pub n" "nh_e_priv (set_sym s n) = nh_e_priv n"
  "nh_e_pub (set_sym s n) = nh_e_pub n" "nh_have_e (set_sym s n) = nh_have_e n"
  "nh_remote_static (set_sym s n) = nh_remote_static n" "nh_have_rs (set_sym s n) = nh_have_rs n"
  "nh_re (set_sym s n) = nh_re n" "nh_have_re (set_sym s n) = nh_have_re n"
  "nh_fixed_ephemeral (set_sym s n) = nh_fixed_ephemeral n"
  "nh_fixed_e_priv (set_sym s n) = nh_fixed_e_priv n"
  "nh_message_index (set_sym s n) = nh_message_index n" "nh_done (set_sym s n) = nh_done n"
  "nh_split_done (set_sym s n) = nh_split_done n"
  by (simp_all add: set_sym_def split: prod.splits)

lemma set_sym_updates [simp]:
  "sym_of (n\<lparr>nh_re := x\<rparr>) = sym_of n" "sym_of (n\<lparr>nh_have_re := b\<rparr>) = sym_of n"
  "sym_of (n\<lparr>nh_remote_static := x\<rparr>) = sym_of n" "sym_of (n\<lparr>nh_have_rs := b\<rparr>) = sym_of n"
  "sym_of (n\<lparr>nh_e_priv := x\<rparr>) = sym_of n" "sym_of (n\<lparr>nh_e_pub := x\<rparr>) = sym_of n"
  "sym_of (n\<lparr>nh_have_e := b\<rparr>) = sym_of n" "sym_of (n\<lparr>nh_message_index := i\<rparr>) = sym_of n"
  "sym_of (n\<lparr>nh_done := b\<rparr>) = sym_of n" "sym_of (n\<lparr>nh_handshake_hash := x\<rparr>) = sym_of n"
  by (simp_all add: sym_of_def)

lemma mix_hash_sym: "mix_hash d n = set_sym (sym_hash d (sym_of n)) n"
  by (simp add: mix_hash_def set_sym_def sym_hash_def sym_of_def)

lemma mix_key_sym: "mix_key s n = (True, set_sym (sym_key s (sym_of n)) n)"
proof -
  obtain a b where "hkdf_sha256 (nh_ck n) s 2 = [a, b]" using hkdf_two by blast
  then show ?thesis by (simp add: mix_key_def set_sym_def sym_key_def sym_of_def)
qed

lemma encrypt_and_hash_sym:
  assumes "sym_ready (sym_of n)"
  shows "encrypt_and_hash p n =
    (Some (fst (sym_seal p (sym_of n))), set_sym (snd (sym_seal p (sym_of n))) n)"
  using assms
  by (simp add: encrypt_and_hash_def sym_seal_def sym_of_def set_sym_def mix_hash_def
      cs_encrypt_box sym_ready_def)

lemma decrypt_and_hash_sym:
  assumes "sym_ready (sym_of n)"
  shows "decrypt_and_hash (fst (sym_seal p (sym_of n))) n =
    (Some p, set_sym (snd (sym_seal p (sym_of n))) n)"
proof -
  obtain c cs' where e: "cs_encrypt (nh_h n) p (nh_cs n) = (Some c, cs')"
    using assms that by (cases "cs_has_key (nh_cs n)") (auto simp: cs_encrypt_box sym_ready_def sym_of_def)
  then have "cs_decrypt (nh_h n) c (nh_cs n) = (Some p, cs')" by (simp add: cs_decrypt_iff)
  then show ?thesis
    using cs_encrypt_length [OF e] e
    by (simp add: decrypt_and_hash_def sym_seal_def sym_of_def set_sym_def mix_hash_def)
qed

lemma sym_seal_length:
  "sym_ready s \<Longrightarrow>
   length (fst (sym_seal p s)) = length p + (if cs_has_key (snd (snd s)) then tag_len else 0)"
  by (auto simp: sym_seal_def sym_ready_def cs_encrypt_box chachapoly.box_length tag_len_def
      aead_tag_len_def split: prod.splits)

lemma sym_ready_steps [simp]:
  "sym_ready (sym_key k s)" "cs_has_key (snd (snd (sym_key k s)))"
  "sym_ready (sym_hash d s) = sym_ready s"
  "cs_has_key (snd (snd (sym_hash d s))) = cs_has_key (snd (snd s))"
  "cs_has_key (snd (snd (snd (sym_seal p s)))) = cs_has_key (snd (snd s))"
  "sym_ready (snd (sym_seal p (sym_key k s)))"
  by (auto simp: sym_ready_def sym_key_def sym_hash_def sym_seal_def cs_init_key_def
      nonce_limit_def cs_encrypt_box split: prod.splits)

lemma has_key_sym: "cs_has_key (nh_cs n) = cs_has_key (snd (snd (sym_of n)))"
  by (simp add: sym_of_def)

lemmas handshake_sym = mix_hash_sym mix_key_sym encrypt_and_hash_sym decrypt_and_hash_sym
  sym_seal_length has_key_sym

end
