(* ===== verification/Replay_Window.thy ===== *)
theory Replay_Window
  imports Prelude
begin

text \<open>
  The sliding replay window of \<^verbatim>\<open>net/peer_channel.cpp\<close>, and the contract the datagram path
  relies on: a window that has opened the sequences in a set opens exactly the ones that are
  not in it and not 64 or more behind the newest.
\<close>

section \<open>The window\<close>

definition replay_width :: u64 where
  "replay_width = 64"

record replay_window =
  rw_highest :: u64
  rw_seen :: u64

definition new_replay_window :: replay_window where
  "new_replay_window = \<lparr>rw_highest = 0, rw_seen = 0\<rparr>"

text \<open>\<^verbatim>\<open>accept\<close>: whether the sequence is new, and the window after.\<close>

definition rw_accept :: "u64 \<Rightarrow> replay_window \<Rightarrow> bool \<times> replay_window" where
  "rw_accept seq w =
     (if rw_highest w < seq then
        let shift = seq - rw_highest w;
            seen = (if replay_width \<le> shift then 0 else push_bit (unat shift) (rw_seen w))
        in (True, w\<lparr>rw_seen := seen OR 1, rw_highest := seq\<rparr>)
      else
        let age = rw_highest w - seq
        in if replay_width \<le> age then (False, w)
           else let b = push_bit (unat age) (1 :: u64)
                in if rw_seen w AND b \<noteq> 0 then (False, w)
                   else (True, w\<lparr>rw_seen := rw_seen w OR b\<rparr>))"

section \<open>The contract\<close>

text \<open>The specification keeps every sequence ever opened.\<close>

definition may_open :: "u64 \<Rightarrow> u64 set \<Rightarrow> bool" where
  "may_open seq opened \<longleftrightarrow> seq \<notin> opened \<and> (\<forall>a\<in>opened. unat a < unat seq + 64)"

locale replay_guard =
  fixes accept :: "u64 \<Rightarrow> 'w \<Rightarrow> bool \<times> 'w"
    and fresh :: 'w
    and remembers :: "'w \<Rightarrow> u64 set \<Rightarrow> bool"
  assumes remembers_fresh: "remembers fresh {}"
    and accept_iff: "remembers w A \<Longrightarrow> accept seq w = (ok, w') \<Longrightarrow> ok \<longleftrightarrow> may_open seq A"
    and accept_remembers: "remembers w A \<Longrightarrow> accept seq w = (ok, w') \<Longrightarrow>
      remembers w' (if ok then insert seq A else A)"
begin

text \<open>What a window opens out of the sequences presented to it, in their order.\<close>

primrec opened :: "'w \<Rightarrow> u64 list \<Rightarrow> u64 list" where
  "opened w [] = []"
| "opened w (s # ss) =
     (case accept s w of (ok, w') \<Rightarrow> (if ok then s # opened w' ss else opened w' ss))"

lemma opened_new:
  "remembers w A \<Longrightarrow> distinct (opened w ss) \<and> set (opened w ss) \<inter> A = {}"
proof (induction ss arbitrary: w A)
  case Nil
  then show ?case by simp
next
  case (Cons s ss)
  obtain ok w' where a: "accept s w = (ok, w')" by (cases "accept s w")
  note rem = accept_remembers [OF Cons.prems a] and new = accept_iff [OF Cons.prems a]
  from Cons.IH [OF rem] show ?case
    using a new by (cases ok) (auto simp: may_open_def)
qed

text \<open>The window after those sequences.\<close>

definition after :: "'w \<Rightarrow> u64 list \<Rightarrow> 'w" where
  "after w ss = foldl (\<lambda>w s. snd (accept s w)) w ss"

lemma after_remembers: "remembers w A \<Longrightarrow> remembers (after w ss) (A \<union> set (opened w ss))"
proof (induction ss arbitrary: w A)
  case Nil
  then show ?case by (simp add: after_def)
next
  case (Cons s ss)
  obtain ok w' where a: "accept s w = (ok, w')" by (cases "accept s w")
  from Cons.IH [OF accept_remembers [OF Cons.prems a]] show ?case
    using a by (cases ok) (simp_all add: after_def)
qed

lemma after_accept: "fst (accept s (after fresh ss)) \<longleftrightarrow> may_open s (set (opened fresh ss))"
  using accept_iff [OF after_remembers [OF remembers_fresh]]
  by (metis prod.collapse sup_bot_left)

text \<open>Reordering within the window loses nothing.\<close>

lemma opened_all:
  assumes "remembers w A" and "distinct ss" and "set ss \<inter> A = {}"
    and "\<forall>s\<in>set ss. \<forall>a\<in>set ss \<union> A. unat a < unat s + 64"
  shows "opened w ss = ss"
  using assms
proof (induction ss arbitrary: w A)
  case Nil
  then show ?case by simp
next
  case (Cons s ss)
  obtain ok w' where a: "accept s w = (ok, w')" by (cases "accept s w")
  have ok using accept_iff [OF Cons.prems(1) a] Cons.prems by (auto simp: may_open_def)
  with accept_remembers [OF Cons.prems(1) a] have "remembers w' (insert s A)" by simp
  then have "opened w' ss = ss" using Cons.prems by (intro Cons.IH) auto
  with a \<open>ok\<close> show ?case by simp
qed

end

section \<open>The window keeps the contract\<close>

definition rw_remembers :: "replay_window \<Rightarrow> u64 set \<Rightarrow> bool" where
  "rw_remembers w A \<longleftrightarrow>
     (\<forall>a\<in>A. unat a \<le> unat (rw_highest w)) \<and> (rw_highest w \<in> A \<or> rw_highest w = 0) \<and>
     (\<forall>s. unat s \<le> unat (rw_highest w) \<and> unat (rw_highest w) < unat s + 64 \<longrightarrow>
        (bit (rw_seen w) (unat (rw_highest w) - unat s) \<longleftrightarrow> s \<in> A))"

lemma unat_minus_below: "unat b \<le> unat a \<Longrightarrow> unat (a - b) = unat a - unat b" for a b :: u64
  by (simp add: unat_sub word_le_nat_alt)

lemma rw_accept_ahead:
  assumes rem: "rw_remembers w A" and ahead: "unat (rw_highest w) < unat s"
    and acc: "rw_accept s w = (ok, w')"
  shows "ok" and "may_open s A" and "rw_remembers w' (insert s A)"
proof -
  have d: "unat (s - rw_highest w) = unat s - unat (rw_highest w)"
    using ahead by (simp add: unat_minus_below)
  have "rw_accept s w = (True, w\<lparr>rw_seen := (if 64 \<le> unat s - unat (rw_highest w) then 0
       else push_bit (unat s - unat (rw_highest w)) (rw_seen w)) OR 1, rw_highest := s\<rparr>)"
    using ahead d
    by (simp add: rw_accept_def Let_def replay_width_def word_less_nat_alt word_le_nat_alt)
  with acc have w': "w' = w\<lparr>rw_seen := (if 64 \<le> unat s - unat (rw_highest w) then 0
       else push_bit (unat s - unat (rw_highest w)) (rw_seen w)) OR 1, rw_highest := s\<rparr>" and ok
    by simp_all
  then show ok by simp
  show "may_open s A"
    using rem ahead unfolding may_open_def rw_remembers_def by (metis leD less_trans trans_less_add1 le_less_trans)
  have below: "\<And>a. a \<in> A \<Longrightarrow> unat a \<le> unat (rw_highest w)"
    and bits: "\<And>t. unat t \<le> unat (rw_highest w) \<Longrightarrow> unat (rw_highest w) < unat t + 64 \<Longrightarrow>
        bit (rw_seen w) (unat (rw_highest w) - unat t) \<longleftrightarrow> t \<in> A"
    using rem unfolding rw_remembers_def by blast+
  have "bit (rw_seen w') (unat s - unat t) \<longleftrightarrow> t \<in> insert s A"
    if t: "unat t \<le> unat s" "unat s < unat t + 64" for t
  proof -
    consider "t = s" | "t \<noteq> s" "unat t \<le> unat (rw_highest w)" | "t \<noteq> s" "unat (rw_highest w) < unat t"
      by linarith
    then show ?thesis
    proof cases
      case 1
      then show ?thesis by (simp add: w' bit_or_iff)
    next
      case 2
      then have "unat s - unat t - (unat s - unat (rw_highest w)) = unat (rw_highest w) - unat t"
          and "unat s - unat (rw_highest w) < 64" and "0 < unat s - unat t"
          and "unat s - unat (rw_highest w) \<le> unat s - unat t" and "unat s - unat t < 64"
        using t ahead by linarith+
      then show ?thesis
        using 2 bits [of t] t ahead by (simp add: w' bit_or_iff bit_push_bit_iff bit_1_iff)
    next
      case 3
      then have "t \<notin> A" and "unat t \<noteq> unat s"
        using below [of t] by (auto simp: word_unat_eq_iff)
      moreover have "\<not> unat s - unat (rw_highest w) \<le> unat s - unat t"
        using 3 t ahead by linarith
      ultimately show ?thesis
        using 3 t ahead by (simp add: w' bit_or_iff bit_push_bit_iff bit_1_iff bit_exp_iff)
    qed
  qed
  moreover have "\<forall>a\<in>insert s A. unat a \<le> unat s" using below ahead by fastforce
  ultimately show "rw_remembers w' (insert s A)"
    unfolding rw_remembers_def by (simp add: w')
qed

lemma rw_accept_behind:
  assumes rem: "rw_remembers w A" and behind: "unat s \<le> unat (rw_highest w)"
    and acc: "rw_accept s w = (ok, w')"
  shows "ok \<longleftrightarrow> may_open s A" and "rw_remembers w' (if ok then insert s A else A)"
proof -
  have d: "unat (rw_highest w - s) = unat (rw_highest w) - unat s"
    using behind by (simp add: unat_minus_below)
  let ?age = "unat (rw_highest w) - unat s"
  have masked: "rw_seen w AND push_bit ?age 1 \<noteq> 0 \<longleftrightarrow> bit (rw_seen w) ?age"
  proof -
    have "rw_seen w AND push_bit ?age 1 = 0 \<longleftrightarrow> \<not> bit (rw_seen w) ?age"
      using bit_imp_le_length [of "rw_seen w" ?age] unfolding bit_eq_iff
      by (auto simp: bit_and_iff bit_push_bit_iff bit_1_iff bit_exp_iff)
    then show ?thesis by blast
  qed
  have r: "(ok, w') = (if 64 \<le> ?age \<or> bit (rw_seen w) ?age then (False, w)
       else (True, w\<lparr>rw_seen := rw_seen w OR push_bit ?age 1\<rparr>))"
    using acc [symmetric] behind d masked
    by (simp add: rw_accept_def Let_def replay_width_def word_less_nat_alt word_le_nat_alt)
  have old: "64 \<le> ?age \<Longrightarrow> \<not> may_open s A"
    using rem behind unfolding rw_remembers_def may_open_def by fastforce
  have new: "?age < 64 \<Longrightarrow> bit (rw_seen w) ?age \<longleftrightarrow> s \<in> A"
    using rem behind unfolding rw_remembers_def by auto
  have near: "?age < 64 \<Longrightarrow> a \<in> A \<Longrightarrow> unat a < unat s + 64" for a
    using rem behind unfolding rw_remembers_def by fastforce
  show "ok \<longleftrightarrow> may_open s A"
  proof (cases "64 \<le> ?age")
    case True
    with r old show ?thesis by simp
  next
    case False
    with r new near show ?thesis by (auto simp: may_open_def)
  qed
  show "rw_remembers w' (if ok then insert s A else A)"
  proof (cases ok)
    case False
    with r rem show ?thesis by (auto split: if_splits)
  next
    case True
    with r have "w' = w\<lparr>rw_seen := rw_seen w OR push_bit ?age 1\<rparr>" and age: "?age < 64"
      by (auto split: if_splits)
    moreover have "bit (rw_seen w OR push_bit ?age 1) (unat (rw_highest w) - unat t) \<longleftrightarrow>
        t \<in> insert s A" if "unat t \<le> unat (rw_highest w)" "unat (rw_highest w) < unat t + 64" for t
    proof -
      have "?age = unat (rw_highest w) - unat t \<longleftrightarrow> t = s"
        using that behind by (auto simp: word_unat_eq_iff)
      moreover have "bit (rw_seen w) (unat (rw_highest w) - unat t) \<longleftrightarrow> t \<in> A"
        using rem that unfolding rw_remembers_def by blast
      ultimately show ?thesis
        using that age by (auto simp: bit_or_iff bit_push_bit_iff bit_1_iff bit_exp_iff)
    qed
    moreover have "\<forall>a\<in>insert s A. unat a \<le> unat (rw_highest w)"
      and "rw_highest w \<in> insert s A \<or> rw_highest w = 0"
      using rem behind unfolding rw_remembers_def by auto
    ultimately show ?thesis
      using True unfolding rw_remembers_def by simp
  qed
qed

interpretation replay: replay_guard rw_accept new_replay_window rw_remembers
proof
  show "rw_remembers new_replay_window {}"
    by (simp add: rw_remembers_def new_replay_window_def)
next
  fix w A seq ok w'
  assume r: "rw_remembers w A" "rw_accept seq w = (ok, w')"
  show "ok \<longleftrightarrow> may_open seq A"
  proof (cases "unat (rw_highest w) < unat seq")
    case True
    with rw_accept_ahead(1,2) [OF r(1) _ r(2)] show ?thesis by simp
  next
    case False
    with rw_accept_behind(1) [OF r(1) _ r(2)] show ?thesis by simp
  qed
next
  fix w A seq ok w'
  assume r: "rw_remembers w A" "rw_accept seq w = (ok, w')"
  show "rw_remembers w' (if ok then insert seq A else A)"
  proof (cases "unat (rw_highest w) < unat seq")
    case True
    with rw_accept_ahead(1,3) [OF r(1) _ r(2)] show ?thesis by simp
  next
    case False
    with rw_accept_behind(2) [OF r(1) _ r(2)] show ?thesis by simp
  qed
qed

end
