(* ===== verification/Peer_Channel.thy ===== *)
theory Peer_Channel
  imports Secure_Channel Replay_Window
begin

text \<open>
  \<^verbatim>\<open>net/peer_channel.cpp\<close>: the authenticated channel to one peer, from the handshake that keys
  it to the sealed frames and datagrams it carries.  The replay window is in its own theory.
\<close>

section \<open>Encodings\<close>

definition prologue_domain :: string where
  "prologue_domain = ''eosr-noise-v1''"

definition udp_tag_domain :: string where
  "udp_tag_domain = ''eosr-udp-tag-v1''"

definition tag_of_key :: "bytes \<Rightarrow> u32" where
  "tag_of_key key =
     (let digest = sha256 (enc_text udp_tag_domain @ enc_field key)
      in push_bit 24 (ucast (digest ! 0)) OR push_bit 16 (ucast (digest ! 1)) OR
         push_bit 8 (ucast (digest ! 2)) OR ucast (digest ! 3))"

definition datagram_ad :: "string \<Rightarrow> string \<Rightarrow> u64 \<Rightarrow> bytes" where
  "datagram_ad sender_id dest_id seq = enc_text sender_id @ enc_text dest_id @ enc_u64 seq"

definition build_datagram_nonce :: "u64 \<Rightarrow> bytes" where
  "build_datagram_nonce seq = replicate 4 0 @ map (\<lambda>i. ucast (drop_bit (8 * i) seq AND 0xff)) [0..<8]"

definition mesh_prologue :: "string \<Rightarrow> string \<Rightarrow> string \<Rightarrow> bytes" where
  "mesh_prologue product_id sandbox_id deployment_id =
     enc_text prologue_domain @ [wire_protocol_version] @ enc_text product_id @
     enc_text sandbox_id @ enc_text deployment_id"

section \<open>The channel\<close>

definition handshake_message_size :: "nat list" where
  "handshake_message_size = [32, 96, 64]"

definition handshake_message_count :: nat where
  "handshake_message_count = 3"

definition we_write :: "bool \<Rightarrow> nat \<Rightarrow> bool" where
  "we_write initiator index \<longleftrightarrow> (index mod 2 = 0) = initiator"

datatype channel_step = step_continue | step_done | step_failed

text \<open>\<open>pc_handshake\<close> is the owned pointer, \<open>None\<close> once it has been let go.\<close>

record peer_channel =
  pc_handshake :: "noise_handshake option"
  pc_keys :: transport_keys
  pc_remote_static :: bytes
  pc_udp_send_tag :: u32
  pc_udp_recv_tag :: u32
  pc_udp_seq :: u64
  pc_udp_replay :: replay_window
  pc_initiator :: bool
  pc_established :: bool
  pc_message_index :: nat

definition new_peer_channel :: "bool \<Rightarrow> bytes \<Rightarrow> bytes \<Rightarrow> bytes \<Rightarrow> peer_channel" where
  "new_peer_channel initiator static_priv static_pub prologue =
     \<lparr>pc_handshake = Some (new_noise_handshake initiator static_priv static_pub prologue),
      pc_keys = \<lparr>tk_send = new_cipher_state, tk_recv = new_cipher_state,
        tk_udp_send = replicate 32 0, tk_udp_recv = replicate 32 0\<rparr>,
      pc_remote_static = replicate 32 0, pc_udp_send_tag = 0, pc_udp_recv_tag = 0, pc_udp_seq = 0,
      pc_udp_replay = new_replay_window, pc_initiator = initiator, pc_established = False,
      pc_message_index = 0\<rparr>"

definition pc_open :: "x25519 \<Rightarrow> bytes option \<Rightarrow> peer_channel \<Rightarrow> bytes option \<times> peer_channel" where
  "pc_open X rng c =
     (if \<not> pc_initiator c \<or> pc_message_index c \<noteq> 0 then (None, c)
      else
        case pc_handshake c of
          None \<Rightarrow> (None, c)
        | Some n \<Rightarrow>
            (case write_message X rng [] n of
               (None, n') \<Rightarrow> (None, c\<lparr>pc_handshake := Some n'\<rparr>)
             | (Some message, n') \<Rightarrow>
                 (Some message, c\<lparr>pc_handshake := Some n', pc_message_index := pc_message_index c + 1\<rparr>)))"

text \<open>The end of the handshake: keep the key the peer proved, key both transports, let go.\<close>

definition pc_finish :: "noise_handshake \<Rightarrow> peer_channel \<Rightarrow> channel_step \<times> peer_channel" where
  "pc_finish n c =
     (if \<not> nh_done n then (step_continue, c)
      else if \<not> nh_have_rs n then (step_failed, c)
      else
        let c1 = c\<lparr>pc_remote_static := nh_remote_static n\<rparr>
        in case noise_split n (pc_keys c1) of
             (False, n', tk) \<Rightarrow> (step_failed, c1\<lparr>pc_handshake := Some n', pc_keys := tk\<rparr>)
           | (True, n', tk) \<Rightarrow>
               (step_done, c1\<lparr>pc_keys := tk, pc_udp_send_tag := tag_of_key (tk_udp_send tk),
                  pc_udp_recv_tag := tag_of_key (tk_udp_recv tk), pc_handshake := None,
                  pc_established := True\<rparr>))"

text \<open>The step reached, the reply to send (empty where there is none), and the channel.\<close>

definition read_handshake :: "x25519 \<Rightarrow> bytes option \<Rightarrow> bytes \<Rightarrow> peer_channel \<Rightarrow>
    channel_step \<times> bytes \<times> peer_channel" where
  "read_handshake X rng message c =
     (if pc_established c \<or> handshake_message_count \<le> pc_message_index c then (step_failed, [], c)
      else
        case pc_handshake c of
          None \<Rightarrow> (step_failed, [], c)
        | Some n \<Rightarrow>
            if we_write (pc_initiator c) (pc_message_index c) then (step_failed, [], c)
            else if length message \<noteq> handshake_message_size ! pc_message_index c then (step_failed, [], c)
            else
              (case read_message X message n of
                 (None, n1) \<Rightarrow> (step_failed, [], c\<lparr>pc_handshake := Some n1\<rparr>)
               | (Some payload, n1) \<Rightarrow>
                   let c1 = c\<lparr>pc_handshake := Some n1, pc_message_index := pc_message_index c + 1\<rparr>
                   in if pc_message_index c1 < handshake_message_count then
                        (case write_message X rng [] n1 of
                           (None, n2) \<Rightarrow> (step_failed, [], c1\<lparr>pc_handshake := Some n2\<rparr>)
                         | (Some reply, n2) \<Rightarrow>
                             (case pc_finish n2 (c1\<lparr>pc_handshake := Some n2,
                                 pc_message_index := pc_message_index c1 + 1\<rparr>) of
                                (st, c2) \<Rightarrow> (st, reply, c2)))
                      else (case pc_finish n1 c1 of (st, c2) \<Rightarrow> (st, [], c2))))"

definition pc_seal :: "bytes \<Rightarrow> bytes \<Rightarrow> peer_channel \<Rightarrow> bytes option \<times> peer_channel" where
  "pc_seal plain ad c =
     (if \<not> pc_established c then (None, c)
      else case cs_encrypt ad plain (tk_send (pc_keys c)) of
             (cipher, cs) \<Rightarrow> (cipher, c\<lparr>pc_keys := (pc_keys c)\<lparr>tk_send := cs\<rparr>\<rparr>))"

definition pc_unseal :: "bytes \<Rightarrow> bytes \<Rightarrow> peer_channel \<Rightarrow> bytes option \<times> peer_channel" where
  "pc_unseal cipher ad c =
     (if \<not> pc_established c \<or> length cipher < aead_tag_len then (None, c)
      else case cs_decrypt ad cipher (tk_recv (pc_keys c)) of
             (plain, cs) \<Rightarrow> (plain, c\<lparr>pc_keys := (pc_keys c)\<lparr>tk_recv := cs\<rparr>\<rparr>))"

definition seal_datagram :: "string \<Rightarrow> string \<Rightarrow> bytes \<Rightarrow> peer_channel \<Rightarrow>
    (u64 \<times> bytes) option \<times> peer_channel" where
  "seal_datagram sender_id dest_id plain c =
     (if \<not> pc_established c \<or> pc_udp_seq c = nonce_limit then (None, c)
      else
        let seq = pc_udp_seq c
        in case aead_encrypt (tk_udp_send (pc_keys c)) (build_datagram_nonce seq)
               (datagram_ad sender_id dest_id seq) plain of
             (cipher, mac) \<Rightarrow> (Some (seq, cipher @ mac), c\<lparr>pc_udp_seq := seq + 1\<rparr>))"

definition open_datagram :: "string \<Rightarrow> string \<Rightarrow> u64 \<Rightarrow> bytes \<Rightarrow> peer_channel \<Rightarrow>
    bytes option \<times> peer_channel" where
  "open_datagram sender_id dest_id seq cipher c =
     (if \<not> pc_established c \<or> length cipher < aead_tag_len then (None, c)
      else
        let body = length cipher - aead_tag_len
        in case aead_decrypt (tk_udp_recv (pc_keys c)) (build_datagram_nonce seq) (drop body cipher)
               (datagram_ad sender_id dest_id seq) (take body cipher) of
             None \<Rightarrow> (None, c)
           | Some plain \<Rightarrow>
               (case rw_accept seq (pc_udp_replay c) of
                  (False, w) \<Rightarrow> (None, c\<lparr>pc_udp_replay := w\<rparr>)
                | (True, w) \<Rightarrow> (Some plain, c\<lparr>pc_udp_replay := w\<rparr>)))"

end
