(* ===== verification/Handshake.thy ===== *)
theory Handshake
  imports Peer_Channel
begin

text \<open>
  Two channels run against each other: the XX handshake of an initiator and a responder that agree
  on their prologue ends with both established, each holding the other's static key, and their
  transport and datagram keys mirrored.  The proof follows the symmetric state, which the writer
  and the reader of a message move through together, token by token.
\<close>

section \<open>Tokens\<close>

text \<open>Two key pairs agree on a secret, and it is not the refused all-zero one.\<close>

definition dh_agree :: "x25519 \<Rightarrow> bytes \<Rightarrow> bytes \<Rightarrow> bool" where
  "dh_agree X a b \<longleftrightarrow> xk_shared X a (xk_public X b) = xk_shared X b (xk_public X a) \<and>
     x25519_shared X a (xk_public X b) \<noteq> None"

definition dh_secret :: "x25519 \<Rightarrow> bytes \<Rightarrow> bytes \<Rightarrow> bytes" where
  "dh_secret X a b = xk_shared X a (xk_public X b)"

lemma dh_agreeD:
  assumes "dh_agree X a b"
  shows "x25519_shared X a (xk_public X b) = Some (dh_secret X a b)"
    and "x25519_shared X b (xk_public X a) = Some (dh_secret X a b)"
  using assms by (auto simp: dh_agree_def x25519_shared_def dh_secret_def Let_def split: if_splits)

lemma write_token_s:
  "sym_ready (sym_of n) \<Longrightarrow> write_token X rng tok_s n =
     (Some (fst (sym_seal (nh_s_pub n) (sym_of n))), set_sym (snd (sym_seal (nh_s_pub n) (sym_of n))) n)"
  by (simp add: write_token_def encrypt_and_hash_sym)

lemma read_token_s:
  "sym_ready (sym_of n) \<Longrightarrow> length p = dh_len \<Longrightarrow>
   read_token X tok_s (fst (sym_seal p (sym_of n)) @ rest) n =
     (Some rest, (set_sym (snd (sym_seal p (sym_of n))) n)\<lparr>nh_remote_static := p, nh_have_rs := True\<rparr>)"
  by (simp add: read_token_def Let_def decrypt_and_hash_sym sym_seal_length has_key_sym)

lemma mix_dh_sym:
  "dh_inputs t n = (a, b) \<Longrightarrow> x25519_shared X a b = Some s \<Longrightarrow>
   mix_dh X t n = (True, set_sym (sym_key s (sym_of n)) n)"
  by (simp add: mix_dh_def mix_key_sym)

lemma dh_token:
  assumes "t \<in> {tok_ee, tok_es, tok_se}" and "dh_inputs t n = (a, b)" and "x25519_shared X a b = Some s"
  shows "write_token X rng t n = (Some [], set_sym (sym_key s (sym_of n)) n)"
    and "read_token X t message n = (Some message, set_sym (sym_key s (sym_of n)) n)"
  using assms mix_dh_sym [OF assms(2,3)] by (auto simp: write_token_def read_token_def)

lemma write_token_e:
  "\<not> nh_have_e n \<Longrightarrow> \<not> nh_fixed_ephemeral n \<Longrightarrow> write_token X (Some e) tok_e n =
     (Some (xk_public X e), set_sym (sym_hash (xk_public X e) (sym_of n))
        (n\<lparr>nh_e_priv := e, nh_e_pub := xk_public X e, nh_have_e := True\<rparr>))"
  by (simp add: write_token_def ensure_ephemeral_def x25519_public_key_def mix_hash_sym)

lemma read_token_e:
  "length p = dh_len \<Longrightarrow> read_token X tok_e (p @ rest) n =
     (Some rest, set_sym (sym_hash p (sym_of n)) (n\<lparr>nh_re := p, nh_have_re := True\<rparr>))"
  by (simp add: read_token_def Let_def mix_hash_sym)

lemma finish_message_fields [simp]:
  "sym_of (finish_message n) = sym_of n" "nh_re (finish_message n) = nh_re n"
  "nh_have_re (finish_message n) = nh_have_re n" "nh_e_priv (finish_message n) = nh_e_priv n"
  "nh_e_pub (finish_message n) = nh_e_pub n" "nh_s_priv (finish_message n) = nh_s_priv n"
  "nh_s_pub (finish_message n) = nh_s_pub n" "nh_initiator (finish_message n) = nh_initiator n"
  "nh_remote_static (finish_message n) = nh_remote_static n"
  "nh_have_rs (finish_message n) = nh_have_rs n" "nh_have_e (finish_message n) = nh_have_e n"
  "nh_fixed_ephemeral (finish_message n) = nh_fixed_ephemeral n"
  "nh_split_done (finish_message n) = nh_split_done n"
  "nh_message_index (finish_message n) = Suc (nh_message_index n)"
  "nh_done (finish_message n) \<longleftrightarrow> nh_message_index n = 2 \<or> nh_done n"
  by (simp_all add: finish_message_def Let_def)

section \<open>The three messages\<close>

text \<open>The symmetric states the two sides pass through.\<close>

definition xx_sym1 :: "bytes \<Rightarrow> sym \<Rightarrow> sym" where
  "xx_sym1 ea_pub s = snd (sym_seal [] (sym_hash ea_pub s))"

definition xx_sym2a :: "bytes \<Rightarrow> bytes \<Rightarrow> sym \<Rightarrow> sym" where
  "xx_sym2a eb_pub ee s = sym_key ee (sym_hash eb_pub s)"

definition xx_sym2b :: "bytes \<Rightarrow> bytes \<Rightarrow> sym \<Rightarrow> sym" where
  "xx_sym2b sb_pub es s = sym_key es (snd (sym_seal sb_pub s))"

definition xx_sym3 :: "bytes \<Rightarrow> bytes \<Rightarrow> sym \<Rightarrow> sym" where
  "xx_sym3 sa_pub se s = sym_key se (snd (sym_seal sa_pub s))"

definition initial_sym :: "bytes \<Rightarrow> sym" where
  "initial_sym prologue = sym_hash prologue (protocol_name, protocol_name, new_cipher_state)"

lemma initial_sym_unkeyed [simp]:
  "\<not> cs_has_key (snd (snd (initial_sym prologue)))" "sym_ready (initial_sym prologue)"
  by (simp_all add: initial_sym_def sym_hash_def new_cipher_state_def sym_ready_def)

lemma new_noise_fields [simp]:
  "sym_of (new_noise_handshake i sk pk prologue) = initial_sym prologue"
  "nh_initiator (new_noise_handshake i sk pk prologue) = i"
  "nh_s_priv (new_noise_handshake i sk pk prologue) = sk"
  "nh_s_pub (new_noise_handshake i sk pk prologue) = pk"
  "\<not> nh_have_e (new_noise_handshake i sk pk prologue)"
  "\<not> nh_fixed_ephemeral (new_noise_handshake i sk pk prologue)"
  "\<not> nh_done (new_noise_handshake i sk pk prologue)"
  "\<not> nh_split_done (new_noise_handshake i sk pk prologue)"
  "nh_message_index (new_noise_handshake i sk pk prologue) = 0"
  unfolding new_noise_handshake_def mix_hash_sym
  by (simp_all add: initial_sym_def) (simp add: sym_of_def)

lemma sym_seal_unkeyed:
  "\<not> cs_has_key (snd (snd s)) \<Longrightarrow> fst (sym_seal p s) = p"
  by (cases s) (simp add: sym_seal_def cs_encrypt_box)

lemma sym_ready_unkeyed: "\<not> cs_has_key (snd (snd s)) \<Longrightarrow> sym_ready s"
  by (cases s) (simp add: sym_ready_def)

lemmas xx_simps = write_token_s read_token_s dh_token write_token_e read_token_e
  encrypt_and_hash_sym decrypt_and_hash_sym sym_seal_unkeyed sym_seal_length has_key_sym
  xx_message_def message_size_def dh_len_def tag_len_def max_noise_message_def nh_we_write_def
  dh_inputs_def sym_ready_unkeyed

text \<open>First message, out and in.\<close>

lemma write_first:
  assumes "nh_initiator n" "nh_message_index n = 0" "\<not> nh_done n" "\<not> nh_have_e n"
    "\<not> nh_fixed_ephemeral n" "\<not> cs_has_key (snd (snd (sym_of n)))"
  shows "write_message X (Some e) [] n = (Some (xk_public X e),
    finish_message (set_sym (xx_sym1 (xk_public X e) (sym_of n))
      (n\<lparr>nh_e_priv := e, nh_e_pub := xk_public X e, nh_have_e := True\<rparr>)))"
  using assms by (simp add: write_message_def xx_simps xx_sym1_def)

lemma read_first:
  assumes "\<not> nh_initiator n" "nh_message_index n = 0" "\<not> nh_done n"
    "\<not> cs_has_key (snd (snd (sym_of n)))" and "length p = 32"
  shows "read_message X p n = (Some [],
    finish_message (set_sym (xx_sym1 p (sym_of n)) (n\<lparr>nh_re := p, nh_have_re := True\<rparr>)))"
  using assms read_token_e [of p X "[]" n] decrypt_and_hash_sym
      [of "set_sym (sym_hash p (sym_of n)) (n\<lparr>nh_re := p, nh_have_re := True\<rparr>)" "[]"]
  by (simp add: read_message_def xx_simps xx_sym1_def)

text \<open>Second message: the responder's ephemeral and static key.\<close>

definition second_message :: "bytes \<Rightarrow> bytes \<Rightarrow> bytes \<Rightarrow> bytes \<Rightarrow> sym \<Rightarrow> bytes" where
  "second_message e_pub s_pub ee es s =
     e_pub @ fst (sym_seal s_pub (xx_sym2a e_pub ee s)) @
     fst (sym_seal [] (xx_sym2b s_pub es (xx_sym2a e_pub ee s)))"

definition second_sym :: "bytes \<Rightarrow> bytes \<Rightarrow> bytes \<Rightarrow> bytes \<Rightarrow> sym \<Rightarrow> sym" where
  "second_sym e_pub s_pub ee es s = snd (sym_seal [] (xx_sym2b s_pub es (xx_sym2a e_pub ee s)))"

lemma xx_sym_ready [simp]:
  "sym_ready (xx_sym2a p k s)" "cs_has_key (snd (snd (xx_sym2a p k s)))"
  "sym_ready (xx_sym2b p k s)" "cs_has_key (snd (snd (xx_sym2b p k s)))"
  "sym_ready (xx_sym3 p k s)" "cs_has_key (snd (snd (xx_sym3 p k s)))"
  "sym_ready (second_sym e p k l s)" "cs_has_key (snd (snd (second_sym e p k l s)))"
  by (simp_all add: xx_sym2a_def xx_sym2b_def xx_sym3_def second_sym_def)

lemma second_message_length:
  "length e_pub = 32 \<Longrightarrow> length s_pub = 32 \<Longrightarrow> length (second_message e_pub s_pub ee es s) = 96"
  by (simp add: second_message_def sym_seal_length tag_len_def)

lemma write_second:
  assumes "\<not> nh_initiator n" "nh_message_index n = 1" "\<not> nh_done n" "\<not> nh_have_e n"
    "\<not> nh_fixed_ephemeral n" "\<not> cs_has_key (snd (snd (sym_of n)))"
    and "x25519_shared X e (nh_re n) = Some ee" and "x25519_shared X (nh_s_priv n) (nh_re n) = Some es"
    and "length (nh_s_pub n) = 32"
  shows "write_message X (Some e) [] n = (Some (second_message (xk_public X e) (nh_s_pub n) ee es (sym_of n)),
    finish_message (set_sym (second_sym (xk_public X e) (nh_s_pub n) ee es (sym_of n))
      (n\<lparr>nh_e_priv := e, nh_e_pub := xk_public X e, nh_have_e := True\<rparr>)))"
  using assms
  by (simp add: write_message_def xx_simps second_message_def second_sym_def xx_sym2a_def xx_sym2b_def)

lemma read_second:
  assumes "nh_initiator n" "nh_message_index n = 1" "\<not> nh_done n"
    "\<not> cs_has_key (snd (snd (sym_of n)))" and "length e_pub = 32" and "length s_pub = 32"
    and "x25519_shared X (nh_e_priv n) e_pub = Some ee" and "x25519_shared X (nh_e_priv n) s_pub = Some es"
  shows "read_message X (second_message e_pub s_pub ee es (sym_of n)) n = (Some [],
    finish_message (set_sym (second_sym e_pub s_pub ee es (sym_of n))
      (n\<lparr>nh_re := e_pub, nh_have_re := True, nh_remote_static := s_pub, nh_have_rs := True\<rparr>)))"
proof -
  let ?n1 = "set_sym (sym_hash e_pub (sym_of n)) (n\<lparr>nh_re := e_pub, nh_have_re := True\<rparr>)"
  let ?n2 = "set_sym (xx_sym2a e_pub ee (sym_of n)) ?n1"
  let ?n3 = "(set_sym (snd (sym_seal s_pub (xx_sym2a e_pub ee (sym_of n)))) ?n2)
      \<lparr>nh_remote_static := s_pub, nh_have_rs := True\<rparr>"
  let ?n4 = "set_sym (xx_sym2b s_pub es (xx_sym2a e_pub ee (sym_of n))) ?n3"
  let ?last = "fst (sym_seal [] (xx_sym2b s_pub es (xx_sym2a e_pub ee (sym_of n))))"
  let ?s = "fst (sym_seal s_pub (xx_sym2a e_pub ee (sym_of n)))"
  have "read_token X tok_e (e_pub @ ?s @ ?last) n = (Some (?s @ ?last), ?n1)"
    using assms by (simp add: read_token_e dh_len_def)
  moreover have "read_token X tok_ee (?s @ ?last) ?n1 = (Some (?s @ ?last), ?n2)"
    using assms by (subst dh_token(2)) (auto simp: dh_inputs_def xx_sym2a_def)
  moreover have "read_token X tok_s (?s @ ?last) ?n2 = (Some ?last, ?n3)"
    using assms read_token_s [of ?n2 s_pub X ?last] by (simp add: dh_len_def)
  moreover have "read_token X tok_es ?last ?n3 = (Some ?last, ?n4)"
    using assms by (subst dh_token(2)) (auto simp: dh_inputs_def xx_sym2b_def)
  moreover have "decrypt_and_hash ?last ?n4 = (Some [], set_sym (second_sym e_pub s_pub ee es (sym_of n)) ?n4)"
    using decrypt_and_hash_sym [of ?n4 "[]"] by (simp add: second_sym_def)
  ultimately show ?thesis
    using assms(1-4) second_message_length [OF assms(5,6)]
    by (simp add: read_message_def xx_message_def nh_we_write_def max_noise_message_def)
      (simp add: second_message_def set_sym_def split: prod.splits)
qed

text \<open>Third message: the initiator's static key.\<close>

definition third_message :: "bytes \<Rightarrow> bytes \<Rightarrow> sym \<Rightarrow> bytes" where
  "third_message s_pub se s = fst (sym_seal s_pub s) @ fst (sym_seal [] (xx_sym3 s_pub se s))"

definition third_sym :: "bytes \<Rightarrow> bytes \<Rightarrow> sym \<Rightarrow> sym" where
  "third_sym s_pub se s = snd (sym_seal [] (xx_sym3 s_pub se s))"

lemma third_message_length:
  "length s_pub = 32 \<Longrightarrow> sym_ready s \<Longrightarrow> cs_has_key (snd (snd s)) \<Longrightarrow>
   length (third_message s_pub se s) = 64"
  by (simp add: third_message_def sym_seal_length tag_len_def)

lemma write_third:
  assumes "nh_initiator n" "nh_message_index n = 2" "\<not> nh_done n" "sym_ready (sym_of n)"
    "cs_has_key (snd (snd (sym_of n)))" and "x25519_shared X (nh_s_priv n) (nh_re n) = Some se"
  shows "write_message X rng [] n = (Some (third_message (nh_s_pub n) se (sym_of n)),
    finish_message (set_sym (third_sym (nh_s_pub n) se (sym_of n)) n))"
  using assms by (simp add: write_message_def xx_simps third_message_def third_sym_def xx_sym3_def)

lemma read_third:
  assumes "\<not> nh_initiator n" "nh_message_index n = 2" "\<not> nh_done n" "sym_ready (sym_of n)"
    "cs_has_key (snd (snd (sym_of n)))" and "length s_pub = 32"
    and "x25519_shared X (nh_e_priv n) s_pub = Some se"
  shows "read_message X (third_message s_pub se (sym_of n)) n = (Some [],
    finish_message (set_sym (third_sym s_pub se (sym_of n))
      (n\<lparr>nh_remote_static := s_pub, nh_have_rs := True\<rparr>)))"
proof -
  let ?n1 = "(set_sym (snd (sym_seal s_pub (sym_of n))) n)\<lparr>nh_remote_static := s_pub, nh_have_rs := True\<rparr>"
  let ?n2 = "set_sym (xx_sym3 s_pub se (sym_of n)) ?n1"
  let ?last = "fst (sym_seal [] (xx_sym3 s_pub se (sym_of n)))"
  let ?s = "fst (sym_seal s_pub (sym_of n))"
  have "read_token X tok_s (?s @ ?last) n = (Some ?last, ?n1)"
    using assms by (simp add: read_token_s dh_len_def)
  moreover have "read_token X tok_se ?last ?n1 = (Some ?last, ?n2)"
    using assms by (subst dh_token(2)) (auto simp: dh_inputs_def xx_sym3_def)
  moreover have "decrypt_and_hash ?last ?n2 = (Some [], set_sym (third_sym s_pub se (sym_of n)) ?n2)"
    using decrypt_and_hash_sym [of ?n2 "[]"] by (simp add: third_sym_def)
  ultimately show ?thesis
    using assms(1-5) third_message_length [OF assms(6,4,5)]
    by (simp add: read_message_def xx_message_def nh_we_write_def max_noise_message_def)
      (simp add: third_message_def set_sym_def split: prod.splits)
qed

section \<open>Two channels\<close>

text \<open>An initiator and a responder, and the four steps that run the handshake between them.\<close>

definition run_handshake :: "x25519 \<Rightarrow> bytes \<Rightarrow> bytes \<Rightarrow> peer_channel \<Rightarrow> peer_channel \<Rightarrow>
    (channel_step \<times> peer_channel) \<times> (channel_step \<times> peer_channel)" where
  "run_handshake X ea eb a b =
     (case pc_open X (Some ea) a of
        (None, a1) \<Rightarrow> ((step_failed, a1), (step_failed, b))
      | (Some m0, a1) \<Rightarrow>
          (case read_handshake X (Some eb) m0 b of (st_b, m1, b1) \<Rightarrow>
             if st_b \<noteq> step_continue then ((step_failed, a1), (st_b, b1))
             else
               (case read_handshake X None m1 a1 of (st_a, m2, a2) \<Rightarrow>
                  (case read_handshake X None m2 b1 of (st_b', m3, b2) \<Rightarrow> ((st_a, a2), (st_b', b2))))))"

text \<open>The symmetric state both ends finish in.\<close>

definition final_sym :: "x25519 \<Rightarrow> bytes \<Rightarrow> bytes \<Rightarrow> bytes \<Rightarrow> bytes \<Rightarrow> bytes \<Rightarrow> sym" where
  "final_sym X sa sb ea eb prologue =
     third_sym (xk_public X sa) (dh_secret X sa eb)
       (second_sym (xk_public X eb) (xk_public X sb) (dh_secret X ea eb) (dh_secret X ea sb)
          (xx_sym1 (xk_public X ea) (initial_sym prologue)))"

definition transport_of :: "bytes \<Rightarrow> bool \<Rightarrow> transport_keys" where
  "transport_of ck initiator =
     (let out = hkdf_sha256 ck [] 2; udp = hkdf_sha256 ck (enc_text udp_subkey_domain) 2;
          k = (\<lambda>key. \<lparr>cs_key = key, cs_nonce = 0, cs_has_key = True\<rparr>)
      in if initiator
         then \<lparr>tk_send = k (out ! 0), tk_recv = k (out ! 1), tk_udp_send = udp ! 0, tk_udp_recv = udp ! 1\<rparr>
         else \<lparr>tk_send = k (out ! 1), tk_recv = k (out ! 0), tk_udp_send = udp ! 1, tk_udp_recv = udp ! 0\<rparr>)"

text \<open>An established channel over a chaining key.\<close>

definition established_channel :: "bytes \<Rightarrow> bool \<Rightarrow> bytes \<Rightarrow> peer_channel" where
  "established_channel ck initiator remote_static =
     \<lparr>pc_handshake = None, pc_keys = transport_of ck initiator, pc_remote_static = remote_static,
      pc_udp_send_tag = tag_of_key (tk_udp_send (transport_of ck initiator)),
      pc_udp_recv_tag = tag_of_key (tk_udp_recv (transport_of ck initiator)),
      pc_udp_seq = 0, pc_udp_replay = new_replay_window, pc_initiator = initiator,
      pc_established = True, pc_message_index = 3\<rparr>"

lemma noise_split_done:
  assumes "nh_done n" "\<not> nh_split_done n"
  shows "\<exists>n'. noise_split n \<lparr>tk_send = new_cipher_state, tk_recv = new_cipher_state,
      tk_udp_send = u, tk_udp_recv = v\<rparr> = (True, n', transport_of (fst (sym_of n)) (nh_initiator n))"
proof -
  obtain a b where o: "hkdf_sha256 (nh_ck n) [] 2 = [a, b]" using hkdf_two by blast
  obtain c d where u: "hkdf_sha256 (nh_ck n) (enc_text udp_subkey_domain) 2 = [c, d]"
    using hkdf_two by blast
  show ?thesis
    using assms o u
    by (simp add: noise_split_def transport_of_def Let_def sym_of_def cs_init_key_def new_cipher_state_def)
qed

text \<open>An unestablished channel in mid-handshake.\<close>

definition shaking :: "peer_channel \<Rightarrow> noise_handshake \<Rightarrow> bool \<Rightarrow> nat \<Rightarrow> bool" where
  "shaking c n initiator index \<longleftrightarrow>
     c = (new_peer_channel initiator [] [] [])\<lparr>pc_handshake := Some n, pc_message_index := index\<rparr> \<and>
     nh_initiator n = initiator \<and> nh_message_index n = index \<and> \<not> nh_split_done n"

lemma shaking_new: "shaking (new_peer_channel i sk pk prologue)
    (new_noise_handshake i sk pk prologue) i 0"
  by (simp add: shaking_def new_peer_channel_def)

lemma pc_finish_done:
  assumes "shaking c n i index" and "nh_done n" "nh_have_rs n"
  shows "pc_finish n (c\<lparr>pc_message_index := 3\<rparr>) =
    (step_done, established_channel (fst (sym_of n)) i (nh_remote_static n))"
proof -
  have "\<not> nh_split_done n" and i: "nh_initiator n = i" using assms(1) by (simp_all add: shaking_def)
  from noise_split_done [OF assms(2) this(1)] obtain n' where
    "noise_split n \<lparr>tk_send = new_cipher_state, tk_recv = new_cipher_state,
       tk_udp_send = replicate 32 0, tk_udp_recv = replicate 32 0\<rparr> =
     (True, n', transport_of (fst (sym_of n)) i)" using i by blast
  then show ?thesis
    using assms
    by (simp add: pc_finish_def shaking_def new_peer_channel_def established_channel_def Let_def)
qed

text \<open>What both sides must have for the handshake to go through.\<close>

definition handshake_keys_ok :: "x25519 \<Rightarrow> bytes \<Rightarrow> bytes \<Rightarrow> bytes \<Rightarrow> bytes \<Rightarrow> bool" where
  "handshake_keys_ok X sa sb ea eb \<longleftrightarrow>
     dh_agree X ea eb \<and> dh_agree X ea sb \<and> dh_agree X sa eb \<and>
     (\<forall>k\<in>{sa, sb, ea, eb}. length (xk_public X k) = 32)"

lemma run_handshake_established:
  assumes ok: "handshake_keys_ok X sa sb ea eb"
  shows "run_handshake X ea eb (new_peer_channel True sa (xk_public X sa) prologue)
      (new_peer_channel False sb (xk_public X sb) prologue) =
    ((step_done, established_channel (fst (final_sym X sa sb ea eb prologue)) True (xk_public X sb)),
     (step_done, established_channel (fst (final_sym X sa sb ea eb prologue)) False (xk_public X sa)))"
proof -
  let ?a = "new_peer_channel True sa (xk_public X sa) prologue"
  let ?b = "new_peer_channel False sb (xk_public X sb) prologue"
  let ?na = "new_noise_handshake True sa (xk_public X sa) prologue"
  let ?nb = "new_noise_handshake False sb (xk_public X sb) prologue"
  let ?s1 = "xx_sym1 (xk_public X ea) (initial_sym prologue)"
  let ?ee = "dh_secret X ea eb" and ?es = "dh_secret X ea sb" and ?se = "dh_secret X sa eb"
  let ?s2 = "second_sym (xk_public X eb) (xk_public X sb) ?ee ?es ?s1"
  let ?s3 = "final_sym X sa sb ea eb prologue"
  note agree = dh_agreeD [of X ea eb] dh_agreeD [of X ea sb] dh_agreeD [of X sa eb]
  have len: "length (xk_public X sa) = 32" "length (xk_public X sb) = 32"
    "length (xk_public X ea) = 32" "length (xk_public X eb) = 32"
    and dh: "dh_agree X ea eb" "dh_agree X ea sb" "dh_agree X sa eb"
    using ok by (simp_all add: handshake_keys_ok_def)
  have unkeyed: "\<not> cs_has_key (snd (snd ?s1))"
    by (simp add: xx_sym1_def)
  let ?na1 = "finish_message (set_sym ?s1
      (?na\<lparr>nh_e_priv := ea, nh_e_pub := xk_public X ea, nh_have_e := True\<rparr>))"
  let ?nb1 = "finish_message (set_sym ?s1 (?nb\<lparr>nh_re := xk_public X ea, nh_have_re := True\<rparr>))"
  let ?nb2 = "finish_message (set_sym ?s2
      (?nb1\<lparr>nh_e_priv := eb, nh_e_pub := xk_public X eb, nh_have_e := True\<rparr>))"
  let ?na2 = "finish_message (set_sym ?s2 (?na1\<lparr>nh_re := xk_public X eb, nh_have_re := True,
      nh_remote_static := xk_public X sb, nh_have_rs := True\<rparr>))"
  let ?na3 = "finish_message (set_sym ?s3 ?na2)"
  let ?nb3 = "finish_message (set_sym ?s3 (?nb2\<lparr>nh_remote_static := xk_public X sa, nh_have_rs := True\<rparr>))"
  let ?m1 = "second_message (xk_public X eb) (xk_public X sb) ?ee ?es ?s1"
  let ?m2 = "third_message (xk_public X sa) ?se ?s2"
  have w1: "write_message X (Some ea) [] ?na = (Some (xk_public X ea), ?na1)"
    by (subst write_first) simp_all
  have r1: "read_message X (xk_public X ea) ?nb = (Some [], ?nb1)"
    using len by (subst read_first) simp_all
  have w2: "write_message X (Some eb) [] ?nb1 = (Some ?m1, ?nb2)"
    using len unkeyed agree dh by (subst write_second [where ee = ?ee and es = ?es]) simp_all
  have r2: "read_message X ?m1 ?na1 = (Some [], ?na2)"
    using len unkeyed agree dh read_second [of ?na1 "xk_public X eb" "xk_public X sb" X ?ee ?es] by simp
  have w3: "write_message X None [] ?na2 = (Some ?m2, ?na3)"
    using agree dh by (subst write_third [where se = ?se]) (simp_all add: final_sym_def)
  have r3: "read_message X ?m2 ?nb2 = (Some [], ?nb3)"
    using len agree dh read_third [of ?nb2 "xk_public X sa" X ?se] by (simp add: final_sym_def)
  have a1: "pc_open X (Some ea) ?a = (Some (xk_public X ea), ?a\<lparr>pc_handshake := Some ?na1, pc_message_index := 1\<rparr>)"
    using w1 by (simp add: pc_open_def new_peer_channel_def)
  have b1: "read_handshake X (Some eb) (xk_public X ea) ?b =
      (step_continue, ?m1, ?b\<lparr>pc_handshake := Some ?nb2, pc_message_index := 2\<rparr>)"
    using r1 w2 len
    by (simp add: read_handshake_def new_peer_channel_def handshake_message_count_def we_write_def
        handshake_message_size_def pc_finish_def)
  let ?a3 = "?a\<lparr>pc_handshake := Some ?na3, pc_message_index := 3\<rparr>"
  have fa: "pc_finish ?na3 ?a3 = (step_done, established_channel (fst ?s3) True (xk_public X sb))"
    using pc_finish_done [of ?a3 ?na3 True 3] by (simp add: shaking_def new_peer_channel_def)
  have a2: "read_handshake X None ?m1 (?a\<lparr>pc_handshake := Some ?na1, pc_message_index := 1\<rparr>) =
      (step_done, ?m2, established_channel (fst ?s3) True (xk_public X sb))"
    using r2 w3 fa second_message_length [OF len(4) len(2)]
    by (simp add: read_handshake_def new_peer_channel_def handshake_message_count_def we_write_def
        handshake_message_size_def numeral_3_eq_3)
  let ?b3 = "?b\<lparr>pc_handshake := Some ?nb3, pc_message_index := 3\<rparr>"
  have fb: "pc_finish ?nb3 ?b3 = (step_done, established_channel (fst ?s3) False (xk_public X sa))"
    using pc_finish_done [of ?b3 ?nb3 False 3] by (simp add: shaking_def new_peer_channel_def)
  have b2: "read_handshake X None ?m2 (?b\<lparr>pc_handshake := Some ?nb2, pc_message_index := 2\<rparr>) =
      (step_done, [], established_channel (fst ?s3) False (xk_public X sa))"
    using r3 fb third_message_length [OF len(1)]
    by (simp add: read_handshake_def new_peer_channel_def handshake_message_count_def we_write_def
        handshake_message_size_def)
  show ?thesis by (simp add: run_handshake_def a1 b1 a2 b2 del: One_nat_def)
qed

end
