(* ===== verification/Channel_Sessions.thy ===== *)
theory Channel_Sessions
  imports Handshake
begin

text \<open>
  Sessions over an established channel: sealed frames open in the order they were sealed and only
  there, a nonce is never used twice under one key, and a datagram opens at most once.
\<close>

section \<open>Frames\<close>

text \<open>One side's sending state is the other side's receiving state.\<close>

definition linked :: "peer_channel \<Rightarrow> peer_channel \<Rightarrow> bool" where
  "linked a b \<longleftrightarrow> pc_established a \<and> pc_established b \<and> tk_send (pc_keys a) = tk_recv (pc_keys b) \<and>
     cs_has_key (tk_send (pc_keys a))"

fun seal_all :: "(bytes \<times> bytes) list \<Rightarrow> peer_channel \<Rightarrow> bytes option list \<times> peer_channel" where
  "seal_all [] c = ([], c)"
| "seal_all ((ad, plain) # fs) c =
     (case pc_seal plain ad c of (r, c') \<Rightarrow>
        case seal_all fs c' of (rs, c'') \<Rightarrow> (r # rs, c''))"

fun unseal_all :: "(bytes \<times> bytes) list \<Rightarrow> peer_channel \<Rightarrow> bytes option list \<times> peer_channel" where
  "unseal_all [] c = ([], c)"
| "unseal_all ((ad, cipher) # fs) c =
     (case pc_unseal cipher ad c of (r, c') \<Rightarrow>
        case unseal_all fs c' of (rs, c'') \<Rightarrow> (r # rs, c''))"

text \<open>What opens at one end is what the other end would seal there, and both move on together.\<close>

lemma seal_opens:
  assumes "linked a b" and "pc_seal plain ad a = (Some cipher, a')"
  shows "\<exists>b'. pc_unseal cipher ad b = (Some plain, b') \<and> linked a' b'"
proof -
  obtain cs where e: "cs_encrypt ad plain (tk_send (pc_keys a)) = (Some cipher, cs)"
    and a': "a' = a\<lparr>pc_keys := (pc_keys a)\<lparr>tk_send := cs\<rparr>\<rparr>"
    using assms by (auto simp: pc_seal_def linked_def split: prod.splits)
  have "aead_tag_len \<le> length cipher"
    using cs_encrypt_length [OF e] assms(1) by (auto simp: linked_def tag_len_def aead_tag_len_def)
  moreover have "cs_has_key cs" using e assms(1) by (auto simp: cs_encrypt_box linked_def split: if_splits)
  ultimately show ?thesis
    using assms(1) e a' by (simp add: pc_unseal_def linked_def flip: cs_decrypt_iff)
qed

lemma opens_sealed:
  assumes "linked a b" and "pc_unseal cipher ad b = (Some plain, b')"
  shows "\<exists>a'. pc_seal plain ad a = (Some cipher, a') \<and> linked a' b'"
proof -
  obtain cs where "cs_decrypt ad cipher (tk_recv (pc_keys b)) = (Some plain, cs)"
    and b': "b' = b\<lparr>pc_keys := (pc_keys b)\<lparr>tk_recv := cs\<rparr>\<rparr>"
    using assms by (auto simp: pc_unseal_def linked_def split: prod.splits if_splits)
  then have e: "cs_encrypt ad plain (tk_recv (pc_keys b)) = (Some cipher, cs)"
    by (simp add: cs_decrypt_iff)
  then have "cs_has_key cs" using assms(1) by (auto simp: cs_encrypt_box linked_def split: if_splits)
  then show ?thesis using assms(1) e b' by (simp add: pc_seal_def linked_def)
qed

lemma seal_all_opens:
  assumes "linked a b" and "seal_all fs a = (map Some ciphers, a')"
  shows "\<exists>b'. unseal_all (zip (map fst fs) ciphers) b = (map (Some \<circ> snd) fs, b') \<and> linked a' b'"
  using assms
proof (induction fs arbitrary: a b ciphers)
  case Nil
  then show ?case by simp
next
  case (Cons f fs)
  obtain ad plain where f: "f = (ad, plain)" by fastforce
  obtain c cs a1 where c: "ciphers = c # cs" "pc_seal plain ad a = (Some c, a1)"
    "seal_all fs a1 = (map Some cs, a')"
    using Cons.prems(2) f by (auto split: prod.splits simp: Cons_eq_map_conv)
  from seal_opens [OF Cons.prems(1) c(2)] obtain b1 where
    "pc_unseal c ad b = (Some plain, b1)" "linked a1 b1" by blast
  with Cons.IH [OF this(2) c(3)] show ?case by (auto simp: f c(1))
qed

lemma unseal_all_sealed:
  assumes "linked a b" and "unseal_all fs b = (map Some plains, b')"
  shows "\<exists>a'. seal_all (zip (map fst fs) plains) a = (map (Some \<circ> snd) fs, a') \<and> linked a' b'"
  using assms
proof (induction fs arbitrary: a b plains)
  case Nil
  then show ?case by simp
next
  case (Cons f fs)
  obtain ad cipher where f: "f = (ad, cipher)" by fastforce
  obtain p ps b1 where p: "plains = p # ps" "pc_unseal cipher ad b = (Some p, b1)"
    "unseal_all fs b1 = (map Some ps, b')"
    using Cons.prems(2) f by (auto split: prod.splits simp: Cons_eq_map_conv)
  from opens_sealed [OF Cons.prems(1) p(2)] obtain a1 where
    "pc_seal p ad a = (Some cipher, a1)" "linked a1 b1" by blast
  with Cons.IH [OF this(2) p(3)] show ?case by (auto simp: f p(1))
qed

lemma established_linked:
  "linked (established_channel ck i r) (established_channel ck (\<not> i) r')"
  by (simp add: linked_def established_channel_def transport_of_def Let_def)

section \<open>Nonces\<close>

lemma build_nonce_inj: "build_nonce a = build_nonce b \<Longrightarrow> a = b"
proof (rule bit_eqI)
  fix n
  assume eq: "build_nonce a = build_nonce b" and "possible_bit TYPE(64 word) n"
  then have n: "n < 64" "n div 8 < 8" by simp_all
  have low: "bit (ucast (drop_bit (8 * (n div 8)) x AND 0xff) :: u8) (n mod 8) = bit x n" for x :: u64
    using n by (simp add: low_byte bit_simps)
  from eq have "map (\<lambda>i. ucast (drop_bit (8 * i) a AND 0xff) :: u8) [0..<8] =
      map (\<lambda>i. ucast (drop_bit (8 * i) b AND 0xff)) [0..<8]"
    by (simp add: build_nonce_def del: upt_rec_numeral)
  then have "(ucast (drop_bit (8 * (n div 8)) a AND 0xff) :: u8) = ucast (drop_bit (8 * (n div 8)) b AND 0xff)"
    using n(2) by (simp del: upt_rec_numeral)
  then show "bit a n = bit b n" using low by metis
qed

lemma nonce_up: "n \<noteq> nonce_limit \<Longrightarrow> unat (n + 1) = Suc (unat n)"
proof -
  assume "n \<noteq> nonce_limit"
  then have "1 + n \<noteq> 0" by (metis add.commute add_eq_0_iff bit.compl_zero nonce_limit_def)
  then show ?thesis by (metis add.commute unatSuc)
qed

text \<open>The nonces a cipher state seals under, over any sequence of texts.\<close>

fun used_nonces :: "(bytes \<times> bytes) list \<Rightarrow> cipher_state \<Rightarrow> bytes list" where
  "used_nonces [] cs = []"
| "used_nonces ((ad, plain) # fs) cs =
     (case cs_encrypt ad plain cs of
        (None, cs') \<Rightarrow> used_nonces fs cs'
      | (Some c, cs') \<Rightarrow> build_nonce (cs_nonce cs) # used_nonces fs cs')"

lemma used_nonces_ahead:
  "cs_has_key cs \<Longrightarrow> b \<in> set (used_nonces fs cs) \<Longrightarrow> \<exists>n. b = build_nonce n \<and> unat (cs_nonce cs) \<le> unat n"
proof (induction fs arbitrary: cs)
  case (Cons f fs)
  obtain ad plain where f: "f = (ad, plain)" by fastforce
  show ?case
  proof (cases "cs_nonce cs = nonce_limit")
    case True
    then show ?thesis using Cons.IH [of cs] Cons.prems by (auto simp: f cs_encrypt_box)
  next
    case False
    then have up: "unat (cs_nonce cs + 1) = Suc (unat (cs_nonce cs))"
      by (rule nonce_up)
    consider "b = build_nonce (cs_nonce cs)" | "b \<in> set (used_nonces fs (cs\<lparr>cs_nonce := cs_nonce cs + 1\<rparr>))"
      using Cons.prems False by (auto simp: f cs_encrypt_box)
    then show ?thesis
    proof cases
      case 2
      from Cons.IH [OF _ this] Cons.prems(1) up show ?thesis by fastforce
    qed auto
  qed
qed simp

lemma used_nonces_distinct: "cs_has_key cs \<Longrightarrow> distinct (used_nonces fs cs)"
proof (induction fs arbitrary: cs)
  case (Cons f fs)
  obtain ad plain where f: "f = (ad, plain)" by fastforce
  show ?case
  proof (cases "cs_nonce cs = nonce_limit")
    case True
    with Cons show ?thesis by (simp add: f cs_encrypt_box)
  next
    case False
    then have up: "unat (cs_nonce cs + 1) = Suc (unat (cs_nonce cs))"
      by (rule nonce_up)
    have "build_nonce (cs_nonce cs) \<notin> set (used_nonces fs (cs\<lparr>cs_nonce := cs_nonce cs + 1\<rparr>))"
      using used_nonces_ahead [of "cs\<lparr>cs_nonce := cs_nonce cs + 1\<rparr>" "build_nonce (cs_nonce cs)" fs]
        Cons.prems up by (fastforce dest: build_nonce_inj)
    then show ?thesis using Cons False by (simp add: f cs_encrypt_box)
  qed
qed simp

section \<open>Datagrams\<close>

text \<open>A list of datagrams presented to a channel, and the sequences of those that open.\<close>

fun open_all :: "(string \<times> string \<times> u64 \<times> bytes) list \<Rightarrow> peer_channel \<Rightarrow> u64 list \<times> peer_channel" where
  "open_all [] c = ([], c)"
| "open_all ((src, dst, seq, cipher) # ds) c =
     (case open_datagram src dst seq cipher c of
        (None, c') \<Rightarrow> open_all ds c'
      | (Some plain, c') \<Rightarrow> (case open_all ds c' of (ss, c'') \<Rightarrow> (seq # ss, c'')))"

lemma open_datagram_window:
  assumes "open_datagram src dst seq cipher c = (r, c')"
  shows "(r = None \<and> pc_udp_replay c' = pc_udp_replay c) \<or>
    (r = None \<and> rw_accept seq (pc_udp_replay c) = (False, pc_udp_replay c')) \<or>
    (r \<noteq> None \<and> rw_accept seq (pc_udp_replay c) = (True, pc_udp_replay c'))"
  using assms by (auto simp: open_datagram_def Let_def split: if_splits option.splits prod.splits bool.splits)

lemma open_all_distinct:
  assumes "rw_remembers (pc_udp_replay c) A" and "open_all ds c = (ss, c')"
  shows "distinct ss \<and> set ss \<inter> A = {}"
  using assms
proof (induction ds arbitrary: c A ss c')
  case Nil
  then show ?case by simp
next
  case (Cons d ds)
  obtain src dst seq cipher where d: "d = (src, dst, seq, cipher)" by (metis prod_cases4)
  obtain r c1 where o: "open_datagram src dst seq cipher c = (r, c1)" by fastforce
  obtain ss1 c2 where rest: "open_all ds c1 = (ss1, c2)" by fastforce
  from open_datagram_window [OF o] show ?case
  proof (elim disjE conjE)
    assume "r = None" "pc_udp_replay c1 = pc_udp_replay c"
    then show ?thesis using Cons.IH [of c1 A ss] Cons.prems o by (simp add: d)
  next
    assume "r = None" and w: "rw_accept seq (pc_udp_replay c) = (False, pc_udp_replay c1)"
    then show ?thesis
      using Cons.IH [of c1 A ss] Cons.prems o replay.accept_remembers [OF Cons.prems(1) w] by (simp add: d)
  next
    assume "r \<noteq> None" and w: "rw_accept seq (pc_udp_replay c) = (True, pc_udp_replay c1)"
    then have "seq \<notin> A" using replay.accept_iff [OF Cons.prems(1) w] by (simp add: may_open_def)
    moreover have "distinct ss1 \<and> set ss1 \<inter> insert seq A = {}"
      using Cons.IH [OF _ rest] replay.accept_remembers [OF Cons.prems(1) w] by simp
    moreover have "ss = seq # ss1" using Cons.prems(2) o rest \<open>r \<noteq> None\<close> by (auto simp: d)
    ultimately show ?thesis by auto
  qed
qed

text \<open>A sealed datagram opens at the other end where its sequence is still open.\<close>

definition datagram_linked :: "peer_channel \<Rightarrow> peer_channel \<Rightarrow> bool" where
  "datagram_linked a b \<longleftrightarrow> pc_established a \<and> pc_established b \<and>
     tk_udp_send (pc_keys a) = tk_udp_recv (pc_keys b)"

lemma sealed_datagram_opens:
  assumes "datagram_linked a b" and "seal_datagram src dst plain a = (Some (seq, cipher), a')"
    and "rw_accept seq (pc_udp_replay b) = (True, w)"
  shows "open_datagram src dst seq cipher b = (Some plain, b\<lparr>pc_udp_replay := w\<rparr>)"
proof -
  let ?key = "tk_udp_recv (pc_keys b)" and ?nonce = "build_datagram_nonce seq"
  let ?ad = "datagram_ad src dst seq"
  have "cipher = chachapoly.box ?key ?nonce ?ad plain"
    using assms(1,2)
    by (cases "aead_encrypt ?key ?nonce ?ad plain")
      (auto simp: seal_datagram_def datagram_linked_def Let_def chachapoly.box_def split: if_splits prod.splits)
  then have u: "chachapoly.unbox ?key ?nonce ?ad cipher = Some plain" by simp
  have len: "\<not> length cipher < aead_tag_len" using chachapoly.unbox_length [OF u] by simp
  with u have "aead_decrypt ?key ?nonce (drop (length cipher - aead_tag_len) cipher) ?ad
      (take (length cipher - aead_tag_len) cipher) = Some plain"
    by (simp add: chachapoly.unbox_def)
  then show ?thesis
    using assms(1,3) len by (simp add: open_datagram_def datagram_linked_def Let_def)
qed

section \<open>Any use of a channel\<close>

text \<open>The operations of \<^verbatim>\<open>peer_channel\<close> with any input, whatever they return.\<close>

datatype channel_op =
  op_open "bytes option" |
  op_read_handshake "bytes option" bytes |
  op_seal bytes bytes |
  op_unseal bytes bytes |
  op_seal_datagram string string bytes |
  op_open_datagram string string u64 bytes

fun channel_do :: "x25519 \<Rightarrow> peer_channel \<Rightarrow> channel_op \<Rightarrow> peer_channel" where
  "channel_do X c (op_open rng) = snd (pc_open X rng c)"
| "channel_do X c (op_read_handshake rng message) = snd (snd (read_handshake X rng message c))"
| "channel_do X c (op_seal plain ad) = snd (pc_seal plain ad c)"
| "channel_do X c (op_unseal cipher ad) = snd (pc_unseal cipher ad c)"
| "channel_do X c (op_seal_datagram src dst plain) = snd (seal_datagram src dst plain c)"
| "channel_do X c (op_open_datagram src dst seq cipher) = snd (open_datagram src dst seq cipher c)"

text \<open>Established means keyed both ways, with the handshake let go.\<close>

definition channel_inv :: "peer_channel \<Rightarrow> bool" where
  "channel_inv c \<longleftrightarrow>
     (pc_established c \<longrightarrow> pc_handshake c = None \<and> cs_has_key (tk_send (pc_keys c)) \<and>
        cs_has_key (tk_recv (pc_keys c)))"

lemma noise_split_keyed:
  "noise_split n tk = (True, n', tk') \<Longrightarrow> cs_has_key (tk_send tk') \<and> cs_has_key (tk_recv tk')"
  by (auto simp: noise_split_def cs_init_key_def split: if_splits list.splits prod.splits)

lemma pc_finish_inv:
  "\<not> pc_established c \<Longrightarrow> pc_finish n c = (st, c') \<Longrightarrow>
   channel_inv c' \<and> (pc_established c' \<longleftrightarrow> st = step_done) \<and> (st = step_done \<longrightarrow> nh_done n \<and> nh_have_rs n)"
  by (auto simp: pc_finish_def channel_inv_def Let_def dest: noise_split_keyed
      split: if_splits prod.splits bool.splits)

lemma read_handshake_inv:
  assumes "channel_inv c"
  shows "channel_inv (snd (snd (read_handshake X rng message c)))"
proof (cases "pc_established c")
  case True
  with assms show ?thesis by (simp add: read_handshake_def)
next
  case False
  show ?thesis
  proof -
    have fin: "channel_inv (snd (pc_finish n d))" if "\<not> pc_established d" for n d
      using pc_finish_inv [OF that, of n "fst (pc_finish n d)" "snd (pc_finish n d)"] by simp
    have un: "channel_inv d" if "\<not> pc_established d" for d
      using that by (simp add: channel_inv_def)
    show ?thesis
      using False fin un
      by (auto simp: read_handshake_def Let_def case_prod_beta split: option.splits)
  qed
qed

lemma cs_has_key_kept:
  "cs_encrypt ad plain cs = (r, cs') \<Longrightarrow> cs_has_key cs' = cs_has_key cs"
  "cs_decrypt ad cipher cs = (r, cs') \<Longrightarrow> cs_has_key cs' = cs_has_key cs"
  by (auto simp: cs_encrypt_box cs_decrypt_unbox split: if_splits option.splits)

lemma channel_do_inv: "channel_inv c \<Longrightarrow> channel_inv (channel_do X c op)"
proof (cases op)
  case (op_read_handshake rng message)
  then show "channel_inv c \<Longrightarrow> ?thesis" by (simp add: read_handshake_inv)
qed (auto simp: channel_inv_def pc_open_def pc_seal_def pc_unseal_def seal_datagram_def
    open_datagram_def Let_def dest: cs_has_key_kept split: option.splits prod.splits bool.splits)

interpretation channels: transition_system "new_peer_channel initiator static_priv static_pub prologue"
  "channel_do X" channel_inv
  for initiator static_priv static_pub prologue X
proof
  show "channel_inv (new_peer_channel initiator static_priv static_pub prologue)"
    by (simp add: channel_inv_def new_peer_channel_def)
qed (rule channel_do_inv)

lemma pc_seal_keyed:
  assumes "channel_inv c" and "pc_seal plain ad c = (Some cipher, c')"
  shows "cipher = chachapoly.box (cs_key (tk_send (pc_keys c))) (build_nonce (cs_nonce (tk_send (pc_keys c)))) ad plain"
  using assms by (auto simp: pc_seal_def channel_inv_def cs_encrypt_box split: if_splits)

end
