(* ===== verification/Channel_Properties.thy ===== *)
theory Channel_Properties
  imports Channel_Sessions
begin

text \<open>
  What the secure channel promises to the router: \<^verbatim>\<open>secure_channel.cpp\<close>, \<^verbatim>\<open>peer_channel.cpp\<close>
  and the primitives of \<^verbatim>\<open>crypto.cpp\<close> under them.
\<close>

section \<open>Authenticated encryption\<close>

text \<open>C4. A text decrypts under a key, nonce and associated data exactly when it is what encrypting the
  result would have given: nothing else opens, and what was sealed opens to itself.\<close>

theorem aead_opens_only_sealed:
  assumes "length mac = 16"
  shows "aead_decrypt key nonce mac ad cipher = Some plain \<longleftrightarrow>
    aead_encrypt key nonce ad plain = (cipher, mac)"
  using chachapoly.dec_iff [of mac] assms by (simp add: aead_tag_len_def)

theorem aead_opens_only_sealed_witness:
  "aead_decrypt [] [] (snd (aead_encrypt [] [] [1] [2, 3])) [1] (fst (aead_encrypt [] [] [1] [2, 3])) =
    Some [2, 3]"
proof -
  have "length (snd (aead_encrypt [] [] [1] [2, 3])) = 16"
    using chachapoly.enc_lengths [of "[]" "[]" "[1]" "[2, 3]"]
    by (cases "aead_encrypt [] [] [1] [2, 3]") (simp add: aead_tag_len_def)
  from aead_opens_only_sealed [OF this] show ?thesis by simp
qed

section \<open>The replay window\<close>

text \<open>C5. The 64-bit bitmap keeps its contract over any history: a sequence is accepted exactly when
  it was never accepted before and is less than 64 behind every sequence that was.\<close>

theorem replay_window_exact:
  "fst (rw_accept seq (replay.after new_replay_window history)) \<longleftrightarrow>
    seq \<notin> set (replay.opened new_replay_window history) \<and>
    (\<forall>a\<in>set (replay.opened new_replay_window history). unat a < unat seq + 64)"
  by (simp add: replay.after_accept may_open_def)

theorem replay_window_exact_witness:
  "fst (rw_accept 3 (replay.after new_replay_window [5]))"
  by (subst replay_window_exact) (simp add: replay.opened_def rw_accept_def new_replay_window_def
      replay_width_def)

text \<open>Reordering alone never loses a datagram: distinct sequences that lie within 64 of each other
  are all accepted, in whatever order they come.\<close>

theorem replay_window_tolerates_reordering:
  assumes "distinct ss" and "\<forall>s\<in>set ss. \<forall>t\<in>set ss. unat t < unat s + 64"
  shows "replay.opened new_replay_window ss = ss"
  using replay.opened_all [OF replay.remembers_fresh assms(1)] assms(2) by simp

theorem replay_window_tolerates_reordering_witness:
  "replay.opened new_replay_window [7, 5, 60, 6] = [7, 5, 60, 6]"
  by (rule replay_window_tolerates_reordering) simp_all

section \<open>The handshake\<close>

text \<open>C6. An initiator and a responder that agree on the prologue and whose keys agree complete the
  handshake in its three messages: both are established, each holds the other's static key, what
  one sends under is what the other receives under on both transports, and the datagram tags
  match.\<close>

theorem handshake_agreement:
  assumes "handshake_keys_ok X sa sb ea eb"
    and "run_handshake X ea eb (new_peer_channel True sa (xk_public X sa) prologue)
      (new_peer_channel False sb (xk_public X sb) prologue) = ((st_a, a), (st_b, b))"
  shows "st_a = step_done \<and> st_b = step_done \<and> pc_established a \<and> pc_established b \<and>
    pc_remote_static a = xk_public X sb \<and> pc_remote_static b = xk_public X sa \<and>
    tk_send (pc_keys a) = tk_recv (pc_keys b) \<and> tk_recv (pc_keys a) = tk_send (pc_keys b) \<and>
    tk_udp_send (pc_keys a) = tk_udp_recv (pc_keys b) \<and>
    tk_udp_recv (pc_keys a) = tk_udp_send (pc_keys b) \<and>
    pc_udp_send_tag a = pc_udp_recv_tag b \<and> pc_udp_recv_tag a = pc_udp_send_tag b"
  using assms(2) run_handshake_established [OF assms(1), of prologue]
  by (auto simp: established_channel_def transport_of_def Let_def)

definition toy_x25519 :: x25519 where
  "toy_x25519 = \<lparr>xk_public = (\<lambda>s. s), xk_shared = (\<lambda>a b. map2 (+) a b)\<rparr>"

lemma toy_keys_ok:
  "handshake_keys_ok toy_x25519 (replicate 32 1) (replicate 32 2) (replicate 32 3) (replicate 32 4)"
  by (simp add: handshake_keys_ok_def dh_agree_def toy_x25519_def x25519_shared_def Let_def verify32_eq
      zip_replicate)

theorem handshake_agreement_witness:
  "pc_remote_static (snd (fst (run_handshake toy_x25519 (replicate 32 3) (replicate 32 4)
      (new_peer_channel True (replicate 32 1) (replicate 32 1) [9])
      (new_peer_channel False (replicate 32 2) (replicate 32 2) [9])))) = replicate 32 2"
  using handshake_agreement [OF toy_keys_ok, of "[9]"
      "fst (fst (run_handshake toy_x25519 (replicate 32 3) (replicate 32 4)
        (new_peer_channel True (replicate 32 1) (replicate 32 1) [9])
        (new_peer_channel False (replicate 32 2) (replicate 32 2) [9])))"]
  by (simp add: toy_x25519_def prod_eq_iff del: replicate.simps)

text \<open>C7. However a channel is driven, with whatever messages and in whatever order, what it seals is
  always an authenticated box under its sending key: no text ever leaves it in the clear.\<close>

theorem channel_never_sends_plain:
  assumes "c = run (channel_do X) (new_peer_channel initiator sk pk prologue) ops"
    and "pc_seal plain ad c = (Some sealed, c')"
  shows "sealed = fst (aead_encrypt (cs_key (tk_send (pc_keys c)))
        (build_nonce (cs_nonce (tk_send (pc_keys c)))) ad plain) @
      snd (aead_encrypt (cs_key (tk_send (pc_keys c)))
        (build_nonce (cs_nonce (tk_send (pc_keys c)))) ad plain)"
  using pc_seal_keyed [OF _ assms(2)] channels.inv_run [of X initiator sk pk prologue ops] assms(1)
  by (simp add: chachapoly.box_def)

lemma run_handshake_ops:
  assumes "run_handshake X ea eb a b = ((step_done, a'), r)"
  shows "\<exists>m1. a' = run (channel_do X) a [op_open (Some ea), op_read_handshake None m1]"
  using assms by (auto simp: run_handshake_def split: prod.splits option.splits if_splits) (metis snd_conv)

theorem channel_never_sends_plain_witness:
  "\<exists>(c :: peer_channel) sealed. pc_established c \<and> sealed =
      fst (aead_encrypt (cs_key (tk_send (pc_keys c))) (build_nonce (cs_nonce (tk_send (pc_keys c)))) [] [7]) @
      snd (aead_encrypt (cs_key (tk_send (pc_keys c))) (build_nonce (cs_nonce (tk_send (pc_keys c)))) [] [7])"
proof -
  note keys = toy_keys_ok
  let ?pub = "xk_public toy_x25519"
  obtain m1 ck where run: "established_channel ck True (?pub (replicate 32 2)) =
      run (channel_do toy_x25519) (new_peer_channel True (replicate 32 1) (?pub (replicate 32 1)) [9])
        [op_open (Some (replicate 32 3)), op_read_handshake None m1]"
    using run_handshake_ops [OF run_handshake_established [OF keys, of "[9]"]] by blast
  obtain sealed c' where "pc_seal [7] [] (established_channel ck True (?pub (replicate 32 2))) = (Some sealed, c')"
    by (auto simp: pc_seal_def established_channel_def transport_of_def Let_def cs_encrypt_box nonce_limit_def)
  from channel_never_sends_plain [OF run this]
  have "pc_established (established_channel ck True (?pub (replicate 32 2)))"
    and "sealed = fst (aead_encrypt (cs_key (tk_send (pc_keys (established_channel ck True (?pub (replicate 32 2))))))
        (build_nonce (cs_nonce (tk_send (pc_keys (established_channel ck True (?pub (replicate 32 2))))))) [] [7]) @
      snd (aead_encrypt (cs_key (tk_send (pc_keys (established_channel ck True (?pub (replicate 32 2))))))
        (build_nonce (cs_nonce (tk_send (pc_keys (established_channel ck True (?pub (replicate 32 2))))))) [] [7])"
    by (simp_all add: established_channel_def)
  then show ?thesis by blast
qed

section \<open>Sessions\<close>

text \<open>C8. Over an established pair of channels, frames sealed on one side open on the other to the same
  texts in the same order.\<close>

theorem frames_open_in_order:
  assumes "seal_all fs (established_channel ck i r) = (map Some ciphers, a')"
  shows "fst (unseal_all (zip (map fst fs) ciphers) (established_channel ck (\<not> i) r')) =
    map (Some \<circ> snd) fs"
proof -
  from seal_all_opens [OF established_linked [of ck i r r'] assms] obtain b' where
    "unseal_all (zip (map fst fs) ciphers) (established_channel ck (\<not> i) r') =
      (map (Some \<circ> snd) fs, b')" by blast
  then show ?thesis by simp
qed

text \<open>C9. Nothing else opens: whatever frames are presented to an established channel, if they all open
  then they are, byte for byte, what the other side seals for those texts in that order.  A
  frame that is altered, replayed, dropped or moved is refused.\<close>

theorem only_sealed_frames_open:
  assumes "unseal_all fs (established_channel ck i r) = (map Some plains, b')"
  shows "fst (seal_all (zip (map fst fs) plains) (established_channel ck (\<not> i) r')) =
    map (Some \<circ> snd) fs"
proof -
  have "linked (established_channel ck (\<not> i) r') (established_channel ck i r)"
    using established_linked [of ck "\<not> i" r' r] by simp
  from unseal_all_sealed [OF this assms] show ?thesis by force
qed

lemma example_seal:
  "\<exists>c a'. seal_all [([1], [2])] (established_channel ck True r) = (map Some [c], a') \<and>
     unseal_all [([1], c)] (established_channel ck False r') =
       (map Some [[2]], snd (unseal_all [([1], c)] (established_channel ck False r')))"
proof -
  let ?a = "established_channel ck True r" and ?b = "established_channel ck False r'"
  have "nonce_limit \<noteq> 0" by (simp add: nonce_limit_def)
  then obtain c a' where s: "pc_seal [2] [1] ?a = (Some c, a')"
    by (auto simp: pc_seal_def established_channel_def transport_of_def Let_def cs_encrypt_box)
  from seal_opens [OF _ s] established_linked [of ck True r r']
  obtain b' where "pc_unseal c [1] ?b = (Some [2], b')" by auto
  with s show ?thesis by (intro exI [of _ c] exI [of _ a']) simp
qed

theorem frames_open_in_order_witness:
  "\<exists>c. fst (unseal_all [([1], c)] (established_channel [] False [])) = [Some [2]]"
proof -
  obtain c a' where "seal_all [([1], [2])] (established_channel [] True []) = (map Some [c], a')"
    using example_seal by blast
  from frames_open_in_order [OF this, of "[]"] show ?thesis by auto
qed

theorem only_sealed_frames_open_witness:
  "\<exists>c. fst (seal_all [([1], [2])] (established_channel [] True [])) = [Some c]"
proof -
  obtain c where "unseal_all [([1], c)] (established_channel [] False []) =
      (map Some [[2]], snd (unseal_all [([1], c)] (established_channel [] False [])))"
    using example_seal by blast
  from only_sealed_frames_open [OF this, of "[]"] show ?thesis by auto
qed

text \<open>C10. A key is never used twice with one nonce: over any texts, the nonces a cipher state seals
  under are pairwise different, up to the end of the counter, where it refuses.\<close>

theorem nonces_never_repeat:
  "distinct (used_nonces texts (cs_init_key key cs))"
  by (rule used_nonces_distinct) (simp add: cs_init_key_def)

text \<open>C11. Whatever datagrams reach an established channel, replayed, reordered or forged, no sequence
  number is delivered twice.\<close>

theorem datagrams_open_once:
  "distinct (fst (open_all datagrams (established_channel ck i r)))"
proof -
  have "rw_remembers (pc_udp_replay (established_channel ck i r)) {}"
    using replay.remembers_fresh by (simp add: established_channel_def)
  from open_all_distinct [OF this, of datagrams] show ?thesis by (metis prod.collapse)
qed

section \<open>What the handshake is bound to\<close>

text \<open>Two titles share a prologue only if they are the same title: no field can run into the next.\<close>

theorem prologue_injective:
  assumes "mesh_prologue p s d = mesh_prologue p' s' d'"
    and "\<forall>x\<in>{p, s, d, p', s', d'}. length x < 2 ^ 32"
  shows "p = p' \<and> s = s' \<and> d = d'"
proof -
  have "enc_text p @ (enc_text s @ enc_text d) = enc_text p' @ (enc_text s' @ enc_text d')"
    using assms(1) by (simp add: mesh_prologue_def)
  from enc_text_cut [OF _ _ this] have "p = p'" and r: "enc_text s @ enc_text d = enc_text s' @ enc_text d'"
    using assms(2) by auto
  from enc_text_cut [OF _ _ r] have "s = s'" and "enc_text d @ [] = enc_text d' @ []"
    using assms(2) by auto
  with enc_text_cut [OF _ _ this(2)] \<open>p = p'\<close> show ?thesis using assms(2) by auto
qed

theorem prologue_injective_witness:
  "mesh_prologue ''ab'' ''c'' ''d'' \<noteq> mesh_prologue ''a'' ''bc'' ''d''"
  using prologue_injective [of "''ab''" "''c''" "''d''" "''a''" "''bc''" "''d''"] by auto

end
