(* ===== verification/Handles.thy ===== *)
theory Handles
  imports Prelude
begin

text \<open>
  \<^verbatim>\<open>common/ids.cpp\<close>, \<^verbatim>\<open>common/ids.h\<close> and \<^verbatim>\<open>common/handle_store.h\<close>: well-formed ids, the
  interning of id strings, and the opaque handles a game holds.  A handle is the number behind the
  pointer; every store draws from one process-wide counter.
\<close>

section \<open>Id strings\<close>

definition id_hex_length :: nat where
  "id_hex_length = 32"

definition is_hex_char :: "char \<Rightarrow> bool" where
  "is_hex_char c \<longleftrightarrow>
     (CHR ''0'' \<le> c \<and> c \<le> CHR ''9'') \<or> (CHR ''a'' \<le> c \<and> c \<le> CHR ''f'') \<or>
     (CHR ''A'' \<le> c \<and> c \<le> CHR ''F'')"

definition id_string_is_valid :: "string \<Rightarrow> bool" where
  "id_string_is_valid id_str \<longleftrightarrow>
     length id_str = id_hex_length \<and> list_all is_hex_char id_str \<and>
     \<not> list_all (\<lambda>c. c = CHR ''0'') id_str"

text \<open>The registry: each string's handle, and the next address to hand out.\<close>

record id_registry =
  reg_table :: "(string, nat) omap"
  reg_next :: nat

definition intern :: "string \<Rightarrow> id_registry \<Rightarrow> nat \<times> id_registry" where
  "intern id_str reg =
     (case om_find id_str (reg_table reg) of
        Some h \<Rightarrow> (h, reg)
      | None \<Rightarrow> (reg_next reg, \<lparr>reg_table = om_put id_str (reg_next reg) (reg_table reg),
                   reg_next = Suc (reg_next reg)\<rparr>))"

section \<open>Handle stores\<close>

type_synonym 'a handle_store = "(u64, 'a) omap"

definition next_handle_id :: "u64 \<Rightarrow> u64 \<times> u64" where
  "next_handle_id counter = (counter, counter + 1)"

definition hs_add :: "'a \<Rightarrow> u64 \<Rightarrow> 'a handle_store \<Rightarrow> u64 \<times> u64 \<times> 'a handle_store" where
  "hs_add object counter store =
     (case next_handle_id counter of (i, counter') \<Rightarrow> (i, counter', om_put i object store))"

definition hs_find :: "u64 \<Rightarrow> 'a handle_store \<Rightarrow> 'a option" where
  "hs_find handle store = om_find handle store"

definition hs_release :: "u64 \<Rightarrow> 'a handle_store \<Rightarrow> 'a handle_store" where
  "hs_release handle store = om_erase handle store"

definition hs_clear :: "'a handle_store \<Rightarrow> 'a handle_store" where
  "hs_clear store = []"

definition hs_live_count :: "'a handle_store \<Rightarrow> nat" where
  "hs_live_count store = length store"

section \<open>Every store of the process\<close>

text \<open>The stores by number, with the counter they share, starting at 1.\<close>

record 'a handle_world =
  hw_counter :: u64
  hw_stores :: "nat \<Rightarrow> 'a handle_store"

definition new_handle_world :: "'a handle_world" where
  "new_handle_world = \<lparr>hw_counter = 1, hw_stores = (\<lambda>_. [])\<rparr>"

datatype 'a handle_op = ho_add nat 'a | ho_release nat u64 | ho_clear nat

fun handle_do :: "'a handle_world \<Rightarrow> 'a handle_op \<Rightarrow> 'a handle_world" where
  "handle_do w (ho_add i object) =
     (case hs_add object (hw_counter w) (hw_stores w i) of
        (h, counter, store) \<Rightarrow> \<lparr>hw_counter = counter, hw_stores = (hw_stores w)(i := store)\<rparr>)"
| "handle_do w (ho_release i h) = w\<lparr>hw_stores := (hw_stores w)(i := hs_release h (hw_stores w i))\<rparr>"
| "handle_do w (ho_clear i) = w\<lparr>hw_stores := (hw_stores w)(i := hs_clear (hw_stores w i))\<rparr>"

text \<open>
  Every live handle was issued, and lives in one store only.  With fewer operations than the
  counter has values, it never comes round.
\<close>

definition hw_inv :: "'a handle_world \<Rightarrow> bool" where
  "hw_inv w \<longleftrightarrow>
     (\<forall>i h. hs_find h (hw_stores w i) \<noteq> None \<longrightarrow> 0 < unat h \<and> unat h < unat (hw_counter w)) \<and>
     (\<forall>i j h. hs_find h (hw_stores w i) \<noteq> None \<longrightarrow> hs_find h (hw_stores w j) \<noteq> None \<longrightarrow> i = j) \<and>
     0 < unat (hw_counter w)"

lemma hw_inv_new: "hw_inv new_handle_world"
  by (simp add: hw_inv_def new_handle_world_def hs_find_def)

lemma counter_up: "unat (c :: u64) + 1 < 2 ^ 64 \<Longrightarrow> unat (c + 1) = unat c + 1"
  using unat_add_lem [of c 1] by simp

lemma handle_do_counter:
  "unat (hw_counter w) + 1 < 2 ^ 64 \<Longrightarrow> unat (hw_counter (handle_do w op)) \<le> unat (hw_counter w) + 1 \<and>
   unat (hw_counter w) \<le> unat (hw_counter (handle_do w op))"
  by (cases op) (auto simp: hs_add_def next_handle_id_def counter_up)

lemma hw_inv_step:
  assumes inv: "hw_inv w" and small: "unat (hw_counter w) + 1 < 2 ^ 64"
  shows "hw_inv (handle_do w op)"
proof (cases op)
  case (ho_add i object)
  have fresh: "hs_find (hw_counter w) (hw_stores w j) = None" for j
    using inv by (fastforce simp: hw_inv_def)
  show ?thesis
    using inv small fresh
    by (auto simp: ho_add hs_add_def next_handle_id_def hw_inv_def hs_find_def counter_up less_Suc_eq
        split: if_splits) (metis option.exhaust option.simps(3))+
next
  case (ho_release i h)
  then show ?thesis
    using inv by (auto simp: hw_inv_def hs_find_def hs_release_def split: if_splits)
      (metis option.exhaust option.simps(3))+
next
  case (ho_clear i)
  then show ?thesis
    using inv by (auto simp: hw_inv_def hs_find_def hs_clear_def split: if_splits)
qed

text \<open>A handle below the counter that no store holds stays that way: it is never issued again.\<close>

definition dead_handle :: "u64 \<Rightarrow> 'a handle_world \<Rightarrow> bool" where
  "dead_handle h w \<longleftrightarrow> unat h < unat (hw_counter w) \<and> (\<forall>i. hs_find h (hw_stores w i) = None)"

lemma dead_handle_step:
  assumes "dead_handle h w" and "unat (hw_counter w) + 1 < 2 ^ 64"
  shows "dead_handle h (handle_do w op)"
  using assms
  by (cases op) (auto simp: dead_handle_def hs_add_def next_handle_id_def hs_find_def counter_up
      hs_release_def hs_clear_def)

lemma handle_run_inv:
  assumes "hw_inv w" and "unat (hw_counter w) + length ops < 2 ^ 64"
  shows "hw_inv (run handle_do w ops) \<and>
    unat (hw_counter (run handle_do w ops)) \<le> unat (hw_counter w) + length ops \<and>
    (dead_handle h w \<longrightarrow> dead_handle h (run handle_do w ops))"
  using assms
proof (induction ops arbitrary: w)
  case Nil
  then show ?case by simp
next
  case (Cons op ops)
  have small: "unat (hw_counter w) + 1 < 2 ^ 64" using Cons.prems by simp
  have up: "unat (hw_counter (handle_do w op)) \<le> unat (hw_counter w) + 1"
    using handle_do_counter [OF small] by blast
  with Cons.prems have "unat (hw_counter (handle_do w op)) + length ops < 2 ^ 64" by simp
  from Cons.IH [OF hw_inv_step [OF Cons.prems(1) small] this] dead_handle_step [OF _ small] up
  show ?case by fastforce
qed

text \<open>C12. Once a handle is released it finds nothing in any store for the life of the process, whatever is
  added, released or cleared afterwards: it is never issued again, and a second release or a
  release in the wrong store is a no-op.\<close>

theorem released_handle_is_dead:
  assumes "w = run handle_do new_handle_world before"
    and "hs_find h (hw_stores w i) \<noteq> None"
    and "length before + length later + 3 < 2 ^ 64"
  shows "hs_find h (hw_stores (run handle_do w (ho_release i h # later)) j) = None"
proof -
  have "hw_inv w" and up: "unat (hw_counter w) \<le> 1 + length before"
    using handle_run_inv [OF hw_inv_new, of before] assms(1,3) by (simp_all add: new_handle_world_def)
  then have live: "unat h < unat (hw_counter w)" and other: "\<And>k. k \<noteq> i \<Longrightarrow> hs_find h (hw_stores w k) = None"
    using assms(2) unfolding hw_inv_def by blast+
  have small: "unat (hw_counter w) + 1 < 2 ^ 64" using up assms(3) by simp
  have "dead_handle h (handle_do w (ho_release i h))"
    using live other by (simp add: dead_handle_def hs_release_def hs_find_def)
  moreover have "unat (hw_counter (handle_do w (ho_release i h))) + length later < 2 ^ 64"
    using up assms(3) by simp
  ultimately have "dead_handle h (run handle_do (handle_do w (ho_release i h)) later)"
    using handle_run_inv [OF hw_inv_step [OF \<open>hw_inv w\<close> small]] by blast
  then show ?thesis by (simp add: dead_handle_def)
qed

theorem released_handle_is_dead_witness:
  "hs_find 1 (hw_stores (run handle_do (run handle_do new_handle_world [ho_add 0 CHR ''a''])
     (ho_release 0 1 # [ho_add 0 CHR ''b'', ho_add 1 CHR ''c''])) 0) = None"
  by (rule released_handle_is_dead [of _ "[ho_add 0 CHR ''a'']"])
    (simp_all add: new_handle_world_def hs_add_def next_handle_id_def hs_find_def om_find_Cons)

section \<open>Interning\<close>

definition reg_ok :: "id_registry \<Rightarrow> bool" where
  "reg_ok reg \<longleftrightarrow> (\<forall>s h. om_find s (reg_table reg) = Some h \<longrightarrow> h < reg_next reg) \<and>
     (\<forall>s t h. om_find s (reg_table reg) = Some h \<longrightarrow> om_find t (reg_table reg) = Some h \<longrightarrow> s = t)"

lemma intern_ok: "reg_ok reg \<Longrightarrow> reg_ok (snd (intern s reg))"
  by (auto simp: intern_def reg_ok_def less_Suc_eq split: option.splits if_splits)

lemma intern_finds: "om_find s (reg_table (snd (intern s reg))) = Some (fst (intern s reg))"
  by (simp add: intern_def split: option.splits)

lemma intern_keeps: "om_find t (reg_table reg) = Some h \<Longrightarrow> om_find t (reg_table (snd (intern s reg))) = Some h"
  by (auto simp: intern_def split: option.splits)

definition new_id_registry :: id_registry where
  "new_id_registry = \<lparr>reg_table = [], reg_next = 1\<rparr>"

definition intern_step :: "id_registry \<Rightarrow> string \<Rightarrow> id_registry" where
  "intern_step reg s = snd (intern s reg)"

interpretation registry: transition_system new_id_registry intern_step reg_ok
proof
  show "reg_ok new_id_registry" by (simp add: reg_ok_def new_id_registry_def)
qed (simp add: intern_step_def intern_ok)

lemma intern_run_keeps:
  "om_find t (reg_table reg) = Some h \<Longrightarrow> om_find t (reg_table (run intern_step reg ss)) = Some h"
  by (induction ss arbitrary: reg) (simp_all add: intern_step_def intern_keeps)

text \<open>Two id strings resolve to one handle exactly when they are the same string, however many ids
  are interned before, between and after: validating a handle by identity validates the id.\<close>

theorem intern_identity:
  "fst (intern s (run intern_step new_id_registry before)) =
     fst (intern t (run intern_step (snd (intern s (run intern_step new_id_registry before))) between)) \<longleftrightarrow>
   s = t"
proof -
  let ?r0 = "run intern_step new_id_registry before"
  let ?r1 = "run intern_step (snd (intern s ?r0)) between"
  have keep: "om_find s (reg_table ?r1) = Some (fst (intern s ?r0))"
    by (rule intern_run_keeps [OF intern_finds])
  have "?r1 = run intern_step new_id_registry (before @ s # between)"
    by (simp add: run_append intern_step_def)
  then have "reg_ok (snd (intern t ?r1))" using registry.inv_run intern_ok by metis
  moreover have "om_find s (reg_table (snd (intern t ?r1))) = Some (fst (intern s ?r0))"
    by (rule intern_keeps [OF keep])
  moreover have "om_find t (reg_table (snd (intern t ?r1))) = Some (fst (intern t ?r1))"
    by (rule intern_finds)
  ultimately show ?thesis unfolding reg_ok_def by auto
qed

end
