(* ===== verification/Callbacks.thy ===== *)
theory Callbacks
  imports Prelude "HOL-Library.Multiset"
begin

text \<open>
  \<^verbatim>\<open>core/callback_manager.cpp\<close> and \<^verbatim>\<open>core/frame_result.cpp\<close>: the per-tick frames, the one-shot
  completions queued per owner and the persistent notifications.  An owner is the address behind
  its pointer, since the maps are walked in address order.  The delegates a delivery fires are the
  game's: a delivery is the list of results handed over, in order, each freed once it has fired.
  What an owner's \<^verbatim>\<open>cb_run_frame\<close> and \<^verbatim>\<open>run_callbacks\<close> do are parameters.  The locks and the
  trace records are left out.
\<close>

section \<open>Results\<close>

record 'p frame_result =
  fr_type_id :: int
  fr_payload :: 'p
  fr_func :: "nat option"
  fr_ok_timeout :: msec
  fr_created_time :: msec
  fr_done :: bool
  fr_remove_on_timeout :: bool

definition create_callback :: "msec \<Rightarrow> int \<Rightarrow> 'p \<Rightarrow> nat option \<Rightarrow> msec \<Rightarrow> 'p frame_result \<Rightarrow> 'p frame_result" where
  "create_callback now type_id payload func ok_timeout r =
     r\<lparr>fr_type_id := type_id, fr_func := func, fr_ok_timeout := ok_timeout, fr_payload := payload,
       fr_created_time := now, fr_done := False, fr_remove_on_timeout := False\<rparr>"

definition callback_ok_timeout :: "msec \<Rightarrow> 'p frame_result \<Rightarrow> bool" where
  "callback_ok_timeout now r \<longleftrightarrow> fr_ok_timeout r \<le> now - fr_created_time r"

section \<open>The manager\<close>

definition first_notification_id :: u64 where
  "first_notification_id = 1"

record 'p callback_manager =
  cm_frames_to_run :: "nat list"
  cm_callbacks_to_run :: "(nat, 'p frame_result list) omap"
  cm_notifications :: "(nat, (u64, 'p frame_result) omap) omap"
  cm_max_tick_budget :: msec
  cm_next_notification_id :: u64

definition new_callback_manager :: "'p callback_manager" where
  "new_callback_manager = \<lparr>cm_frames_to_run = [], cm_callbacks_to_run = [], cm_notifications = [],
     cm_max_tick_budget = 0, cm_next_notification_id = first_notification_id\<rparr>"

definition register_frame :: "nat \<Rightarrow> 'p callback_manager \<Rightarrow> 'p callback_manager" where
  "register_frame owner cm = cm\<lparr>cm_frames_to_run := List.insort_insert owner (cm_frames_to_run cm)\<rparr>"

definition unregister_frame :: "nat \<Rightarrow> 'p callback_manager \<Rightarrow> 'p callback_manager" where
  "unregister_frame owner cm = cm\<lparr>cm_frames_to_run := removeAll owner (cm_frames_to_run cm)\<rparr>"

text \<open>\<^verbatim>\<open>map[owner]\<close>: the entry, made empty where there is none.\<close>

definition om_at :: "'k::linorder \<Rightarrow> 'v \<Rightarrow> ('k, 'v) omap \<Rightarrow> 'v" where
  "om_at k d m = (case om_find k m of None \<Rightarrow> d | Some v \<Rightarrow> v)"

definition register_callbacks :: "nat \<Rightarrow> 'p callback_manager \<Rightarrow> 'p callback_manager" where
  "register_callbacks owner cm =
     cm\<lparr>cm_callbacks_to_run := om_put owner (om_at owner [] (cm_callbacks_to_run cm)) (cm_callbacks_to_run cm)\<rparr>"

text \<open>The manager, and the results given back to their owner to free.\<close>

definition unregister_callbacks :: "nat \<Rightarrow> 'p callback_manager \<Rightarrow> 'p callback_manager \<times> (nat \<times> 'p frame_result) list" where
  "unregister_callbacks owner cm =
     (case om_find owner (cm_callbacks_to_run cm) of
        None \<Rightarrow> (cm, [])
      | Some queue \<Rightarrow>
          (cm\<lparr>cm_callbacks_to_run := om_erase owner (cm_callbacks_to_run cm)\<rparr>, map (Pair owner) queue))"

definition add_callback :: "nat \<Rightarrow> 'p frame_result \<Rightarrow> 'p callback_manager \<Rightarrow> 'p callback_manager" where
  "add_callback owner result cm =
     cm\<lparr>cm_callbacks_to_run :=
         om_put owner (om_at owner [] (cm_callbacks_to_run cm) @ [result]) (cm_callbacks_to_run cm)\<rparr>"

definition add_notification :: "nat \<Rightarrow> 'p frame_result \<Rightarrow> 'p callback_manager \<Rightarrow> u64 \<times> 'p callback_manager" where
  "add_notification owner result cm =
     (let i = cm_next_notification_id cm
      in (i, cm\<lparr>cm_next_notification_id := i + 1,
                cm_notifications := om_put owner (om_put i result (om_at owner [] (cm_notifications cm)))
                  (cm_notifications cm)\<rparr>))"

definition remove_notification :: "nat \<Rightarrow> u64 \<Rightarrow> 'p callback_manager \<Rightarrow> 'p callback_manager" where
  "remove_notification owner i cm =
     (case om_find owner (cm_notifications cm) of
        None \<Rightarrow> cm
      | Some notes \<Rightarrow> cm\<lparr>cm_notifications := om_put owner (om_erase i notes) (cm_notifications cm)\<rparr>)"

definition remove_all_notifications :: "nat \<Rightarrow> 'p callback_manager \<Rightarrow> 'p callback_manager" where
  "remove_all_notifications owner cm = cm\<lparr>cm_notifications := om_erase owner (cm_notifications cm)\<rparr>"

definition notification_ids :: "nat \<Rightarrow> int \<Rightarrow> 'p callback_manager \<Rightarrow> u64 list" where
  "notification_ids owner type_id cm =
     (case om_find owner (cm_notifications cm) of
        None \<Rightarrow> []
      | Some notes \<Rightarrow> map fst (filter (\<lambda>note. fr_type_id (snd note) = type_id) notes))"

definition find_notification :: "nat \<Rightarrow> u64 \<Rightarrow> 'p callback_manager \<Rightarrow> 'p frame_result option" where
  "find_notification owner i cm =
     (case om_find owner (cm_notifications cm) of None \<Rightarrow> None | Some notes \<Rightarrow> om_find i notes)"

definition set_max_tick_budget :: "msec \<Rightarrow> 'p callback_manager \<Rightarrow> 'p callback_manager" where
  "set_max_tick_budget budget cm = cm\<lparr>cm_max_tick_budget := budget\<rparr>"

definition queued :: "'p callback_manager \<Rightarrow> (nat \<times> 'p frame_result) list" where
  "queued cm = concat (map (\<lambda>(owner, queue). map (Pair owner) queue) (cm_callbacks_to_run cm))"

definition cm_clear :: "'p callback_manager \<Rightarrow> 'p callback_manager \<times> (nat \<times> 'p frame_result) list" where
  "cm_clear cm =
     (cm\<lparr>cm_frames_to_run := [], cm_callbacks_to_run := [], cm_notifications := [],
         cm_next_notification_id := first_notification_id\<rparr>, queued cm)"

section \<open>One tick\<close>

text \<open>The frames registered when the tick starts and still registered when their turn comes.\<close>

definition run_frames :: "(nat \<Rightarrow> 'p callback_manager \<Rightarrow> 'p callback_manager) \<Rightarrow>
    'p callback_manager \<Rightarrow> 'p callback_manager" where
  "run_frames cb_run_frame cm =
     foldl (\<lambda>c owner. if owner \<in> set (cm_frames_to_run c) then cb_run_frame owner c else c) cm
       (cm_frames_to_run cm)"

type_synonym 'p run_callbacks = "nat \<Rightarrow> 'p frame_result \<Rightarrow> bool \<times> 'p frame_result"

text \<open>An owner's queue: the results to deliver and the ones to keep, each in its order.\<close>

fun drain_queue :: "'p run_callbacks \<Rightarrow> msec \<Rightarrow> nat \<Rightarrow> 'p frame_result list \<Rightarrow>
    'p frame_result list \<times> 'p frame_result list" where
  "drain_queue run_callbacks now owner [] = ([], [])"
| "drain_queue run_callbacks now owner (res # queue) =
     (let (deliver, res') =
        (if callback_ok_timeout now res
         then (if fr_done res then (True, res) else run_callbacks owner res)
         else (False, res))
      in case drain_queue run_callbacks now owner queue of
           (ready, keep) \<Rightarrow> if deliver then (res' # ready, keep) else (ready, res' # keep))"

definition collect_ready_callbacks :: "'p run_callbacks \<Rightarrow> msec \<Rightarrow> 'p callback_manager \<Rightarrow>
    (nat \<times> 'p frame_result) list \<times> 'p callback_manager" where
  "collect_ready_callbacks run_callbacks now cm =
     (concat (map (\<lambda>(owner, queue). map (Pair owner) (fst (drain_queue run_callbacks now owner queue)))
        (cm_callbacks_to_run cm)),
      cm\<lparr>cm_callbacks_to_run := map (\<lambda>(owner, queue). (owner, snd (drain_queue run_callbacks now owner queue)))
        (cm_callbacks_to_run cm)\<rparr>)"

definition tick :: "(nat \<Rightarrow> 'p callback_manager \<Rightarrow> 'p callback_manager) \<Rightarrow> 'p run_callbacks \<Rightarrow> msec \<Rightarrow>
    'p callback_manager \<Rightarrow> (nat \<times> 'p frame_result) list \<times> 'p callback_manager" where
  "tick cb_run_frame run_callbacks now cm =
     collect_ready_callbacks run_callbacks now (run_frames cb_run_frame cm)"

section \<open>Lemmas on ordered maps as multisets\<close>

lemma om_erase_absent: "om_find k m = None \<Longrightarrow> om_erase k m = m"
  by (auto simp: om_erase_def om_find_None intro!: filter_True)

lemma mset_om_put: "om_ok m \<Longrightarrow> mset (om_put k v m) = add_mset (k, v) (mset (om_erase k m))"
proof (induction k v m rule: om_put.induct)
  case (2 k v k' v' m)
  have later: "\<forall>y\<in>fst ` set m. k' < y" and ok: "om_ok m" using "2.prems" by (auto simp: om_ok_def)
  show ?case
  proof (cases "k < k' \<or> k = k'")
    case True
    then have "om_find k m = None" using later by (auto simp: om_find_None)
    then have "om_erase k m = m" by (rule om_erase_absent)
    with True show ?thesis by (auto simp: om_erase_def simp flip: mset_filter)
  next
    case False
    then show ?thesis using 2 ok by (auto simp: om_erase_def)
  qed
qed (simp add: om_erase_def)

lemma mset_om_find:
  "om_ok m \<Longrightarrow> om_find k m = Some v \<Longrightarrow> mset m = add_mset (k, v) (mset (om_erase k m))"
proof (induction m)
  case (Cons e m)
  have later: "\<forall>y\<in>fst ` set m. fst e < y" and ok: "om_ok m" using Cons.prems(1) by (auto simp: om_ok_def)
  show ?case
  proof (cases "fst e = k")
    case True
    then have "om_find k m = None" using later by (auto simp: om_find_None)
    then have "om_erase k m = m" by (rule om_erase_absent)
    with True Cons.prems(2) show ?thesis by (cases e) (auto simp: om_erase_def om_find_Cons)
  next
    case False
    with Cons.prems(2) have "om_find k m = Some v" by (cases e) (auto simp: om_find_Cons)
    with Cons.IH ok False show ?thesis by (simp add: om_erase_def)
  qed
qed simp

section \<open>Every result is handed over or freed, once\<close>

text \<open>The operations on the queues; \<open>cb_collect\<close> is the delivering half of a tick.\<close>

datatype 'p callback_op =
  cb_register nat | cb_unregister nat | cb_add nat "'p frame_result" | cb_collect msec | cb_clear

text \<open>The manager, the results delivered (fired, then freed) and those freed without firing.\<close>

record 'p callback_log =
  cl_manager :: "'p callback_manager"
  cl_delivered :: "(nat \<times> 'p frame_result) list"
  cl_freed :: "(nat \<times> 'p frame_result) list"

definition new_callback_log :: "'p callback_log" where
  "new_callback_log = \<lparr>cl_manager = new_callback_manager, cl_delivered = [], cl_freed = []\<rparr>"

fun callback_do :: "'p run_callbacks \<Rightarrow> 'p callback_log \<Rightarrow> 'p callback_op \<Rightarrow> 'p callback_log" where
  "callback_do rc l (cb_register owner) = l\<lparr>cl_manager := register_callbacks owner (cl_manager l)\<rparr>"
| "callback_do rc l (cb_unregister owner) =
     (case unregister_callbacks owner (cl_manager l) of
        (cm, freed) \<Rightarrow> l\<lparr>cl_manager := cm, cl_freed := cl_freed l @ freed\<rparr>)"
| "callback_do rc l (cb_add owner result) = l\<lparr>cl_manager := add_callback owner result (cl_manager l)\<rparr>"
| "callback_do rc l (cb_collect now) =
     (case collect_ready_callbacks rc now (cl_manager l) of
        (ready, cm) \<Rightarrow> l\<lparr>cl_manager := cm, cl_delivered := cl_delivered l @ ready\<rparr>)"
| "callback_do rc l cb_clear =
     (case cm_clear (cl_manager l) of
        (cm, freed) \<Rightarrow> l\<lparr>cl_manager := cm, cl_freed := cl_freed l @ freed\<rparr>)"

fun added :: "'p callback_op list \<Rightarrow> (nat \<times> 'p frame_result) list" where
  "added [] = []"
| "added (cb_add owner result # ops) = (owner, result) # added ops"
| "added (_ # ops) = added ops"

text \<open>What identifies a result; readying one may fill its payload in but not change this.\<close>

definition keeps_tag :: "('p frame_result \<Rightarrow> 'i) \<Rightarrow> 'p run_callbacks \<Rightarrow> bool" where
  "keeps_tag tag rc \<longleftrightarrow> (\<forall>owner r. tag (snd (rc owner r)) = tag r)"

definition tags :: "('p frame_result \<Rightarrow> 'i) \<Rightarrow> (nat \<times> 'p frame_result) list \<Rightarrow> (nat \<times> 'i) multiset" where
  "tags tag xs = mset (map (\<lambda>(owner, r). (owner, tag r)) xs)"

lemma tags_simps [simp]:
  "tags tag [] = {#}" "tags tag (x # xs) = add_mset (fst x, tag (snd x)) (tags tag xs)"
  "tags tag (xs @ ys) = tags tag xs + tags tag ys"
  by (simp_all add: tags_def case_prod_beta)

text \<open>The tags of a whole queue map, entry by entry.\<close>

definition queue_tags :: "('p frame_result \<Rightarrow> 'i) \<Rightarrow> (nat, 'p frame_result list) omap \<Rightarrow> (nat \<times> 'i) multiset" where
  "queue_tags tag m = (\<Sum>e\<in>#mset m. tags tag (map (Pair (fst e)) (snd e)))"

lemma queue_tags_queued: "queue_tags tag (cm_callbacks_to_run cm) = tags tag (queued cm)"
proof -
  have "queue_tags tag m = tags tag (concat (map (\<lambda>(owner, queue). map (Pair owner) queue) m))" for m
    by (induction m) (auto simp: queue_tags_def)
  then show ?thesis by (simp add: queued_def)
qed

lemma queue_tags_put:
  assumes "om_ok m"
  shows "queue_tags tag (om_put k q m) = tags tag (map (Pair k) q) + queue_tags tag (om_erase k m)"
  using mset_om_put [OF assms] by (simp add: queue_tags_def)

lemma queue_tags_split:
  assumes "om_ok m"
  shows "queue_tags tag m = tags tag (map (Pair k) (om_at k [] m)) + queue_tags tag (om_erase k m)"
proof (cases "om_find k m")
  case None
  then show ?thesis by (simp add: om_at_def om_erase_absent)
next
  case (Some q)
  then show ?thesis using mset_om_find [OF assms Some] by (simp add: queue_tags_def om_at_def)
qed

lemma drain_queue_tags:
  assumes "keeps_tag tag rc"
  shows "tags tag (map (Pair k) (fst (drain_queue rc now owner q))) +
    tags tag (map (Pair k) (snd (drain_queue rc now owner q))) = tags tag (map (Pair k) q)"
proof (induction q)
  case (Cons r q)
  have "tag (snd (rc owner r)) = tag r" using assms by (simp add: keeps_tag_def)
  with Cons show ?case by (auto simp: Let_def case_prod_beta)
qed simp

lemma collect_tags:
  assumes "keeps_tag tag rc" and "collect_ready_callbacks rc now cm = (ready, cm')"
  shows "tags tag ready + tags tag (queued cm') = tags tag (queued cm)"
proof -
  have "tags tag (concat (map (\<lambda>(owner, queue). map (Pair owner) (fst (drain_queue rc now owner queue))) m)) +
      queue_tags tag (map (\<lambda>(owner, queue). (owner, snd (drain_queue rc now owner queue))) m) = queue_tags tag m" for m
  proof (induction m)
    case (Cons e m)
    let ?d = "drain_queue rc now (fst e) (snd e)"
    have "tags tag (map (Pair (fst e)) (fst ?d)) + tags tag (map (Pair (fst e)) (snd ?d)) =
        tags tag (map (Pair (fst e)) (snd e))"
      by (rule drain_queue_tags [OF assms(1)])
    moreover have "a + A + (b + B) = (a + b) + (A + B)" for a b A B :: "(nat \<times> 'b) multiset"
      by (simp add: ac_simps)
    ultimately show ?case
      using Cons.IH by (simp only: queue_tags_def list.map concat.simps tags_simps mset.simps
          case_prod_beta fst_conv snd_conv image_mset_add_mset sum_mset.add_mset)
  qed (simp add: queue_tags_def)
  then show ?thesis
    using assms(2) by (auto simp: collect_ready_callbacks_def simp flip: queue_tags_queued)
qed

definition cm_ok :: "'p callback_manager \<Rightarrow> bool" where
  "cm_ok cm \<longleftrightarrow> om_ok (cm_callbacks_to_run cm)"

lemma cm_ok_step: "cm_ok (cl_manager l) \<Longrightarrow> cm_ok (cl_manager (callback_do rc l op))"
proof (cases op)
  case (cb_collect now)
  have "fst \<circ> (\<lambda>(owner, queue). (owner, snd (drain_queue rc now owner queue))) = fst"
    by (simp add: fun_eq_iff)
  then show "cm_ok (cl_manager l) \<Longrightarrow> ?thesis"
    by (simp add: cb_collect cm_ok_def collect_ready_callbacks_def om_ok_def)
qed (auto simp: cm_ok_def register_callbacks_def unregister_callbacks_def add_callback_def cm_clear_def
    split: option.splits)

definition balance :: "('p frame_result \<Rightarrow> 'i) \<Rightarrow> 'p callback_log \<Rightarrow> (nat \<times> 'i) multiset" where
  "balance tag l = tags tag (cl_delivered l) + tags tag (cl_freed l) + tags tag (queued (cl_manager l))"

lemma balance_step:
  assumes "keeps_tag tag rc" and ok: "cm_ok (cl_manager l)"
  shows "balance tag (callback_do rc l op) = balance tag l + tags tag (added [op])"
proof (cases op)
  case (cb_register owner)
  let ?m = "cm_callbacks_to_run (cl_manager l)"
  have "queue_tags tag (om_put owner (om_at owner [] ?m) ?m) = queue_tags tag ?m"
    using ok by (simp only: cm_ok_def queue_tags_put queue_tags_split [of ?m tag owner, symmetric])
  then show ?thesis
    by (simp add: cb_register balance_def register_callbacks_def flip: queue_tags_queued)
next
  case (cb_unregister owner)
  let ?m = "cm_callbacks_to_run (cl_manager l)"
  show ?thesis
  proof (cases "om_find owner ?m")
    case None
    then show ?thesis by (simp add: cb_unregister balance_def unregister_callbacks_def)
  next
    case (Some queue)
    have "queue_tags tag ?m = tags tag (map (Pair owner) queue) + queue_tags tag (om_erase owner ?m)"
      using ok Some queue_tags_split [of ?m tag owner] by (simp add: cm_ok_def om_at_def)
    with Some show ?thesis
      by (simp add: cb_unregister balance_def unregister_callbacks_def flip: queue_tags_queued)
  qed
next
  case (cb_add owner result)
  let ?m = "cm_callbacks_to_run (cl_manager l)"
  have "queue_tags tag (om_put owner (om_at owner [] ?m @ [result]) ?m) =
      queue_tags tag ?m + {#(owner, tag result)#}"
    using ok queue_tags_split [of ?m tag owner] by (simp add: cm_ok_def queue_tags_put)
  then show ?thesis
    by (simp add: cb_add balance_def add_callback_def flip: queue_tags_queued)
next
  case (cb_collect now)
  then show ?thesis
    using collect_tags [OF assms(1)]
    by (cases "collect_ready_callbacks rc now (cl_manager l)") (simp add: balance_def ac_simps)
next
  case cb_clear
  then show ?thesis
    by (simp add: balance_def cm_clear_def) (simp add: queued_def)
qed

lemma balance_run:
  assumes "keeps_tag tag rc" and "cm_ok (cl_manager l)"
  shows "balance tag (run (callback_do rc) l ops) = balance tag l + tags tag (added ops)"
  using assms(2)
proof (induction ops arbitrary: l)
  case (Cons op ops)
  have "tags tag (added (op # ops)) = tags tag (added [op]) + tags tag (added ops)"
    by (cases op) simp_all
  then show ?case
    using Cons.IH [OF cm_ok_step [OF Cons.prems]] balance_step [OF assms(1) Cons.prems] by simp
qed simp

text \<open>C13. Over any sequence of operations every queued completion is in exactly one place: delivered,
  freed without firing because its owner unregistered or the platform was released, or still
  queued.  None is lost and none fires twice.\<close>

theorem results_conserved:
  assumes "keeps_tag tag rc"
  shows "tags tag (cl_delivered (run (callback_do rc) new_callback_log ops)) +
      tags tag (cl_freed (run (callback_do rc) new_callback_log ops)) +
      tags tag (queued (cl_manager (run (callback_do rc) new_callback_log ops))) =
    tags tag (added ops)"
proof -
  have "cm_ok (cl_manager new_callback_log)"
    by (simp add: cm_ok_def new_callback_log_def new_callback_manager_def)
  from balance_run [OF assms this, of ops] show ?thesis
    by (simp add: balance_def new_callback_log_def new_callback_manager_def queued_def)
qed

definition example_result :: "nat frame_result" where
  "example_result = \<lparr>fr_type_id = 1, fr_payload = 7, fr_func = None, fr_ok_timeout = 5,
     fr_created_time = 0, fr_done = True, fr_remove_on_timeout = False\<rparr>"

theorem results_conserved_witness:
  "tags fr_payload (cl_delivered (run (callback_do (\<lambda>_ r. (False, r))) new_callback_log
      [cb_add 1 example_result, cb_collect 4, cb_collect 9])) = {#(1, 7)#}"
  using results_conserved [of fr_payload "\<lambda>_ r. (False, r)"
      "[cb_add 1 example_result, cb_collect 4, cb_collect 9]"]
  by (simp add: keeps_tag_def new_callback_log_def new_callback_manager_def add_callback_def om_at_def
      collect_ready_callbacks_def callback_ok_timeout_def example_result_def queued_def)

section \<open>What a tick delivers\<close>

definition deliverable :: "'p run_callbacks \<Rightarrow> msec \<Rightarrow> nat \<Rightarrow> 'p frame_result \<Rightarrow> bool" where
  "deliverable rc now owner r \<longleftrightarrow> callback_ok_timeout now r \<and> (fr_done r \<or> fst (rc owner r))"

text \<open>The result as it is after its turn: readying it may have filled it in.\<close>

definition after_turn :: "'p run_callbacks \<Rightarrow> msec \<Rightarrow> nat \<Rightarrow> 'p frame_result \<Rightarrow> 'p frame_result" where
  "after_turn rc now owner r = (if callback_ok_timeout now r \<and> \<not> fr_done r then snd (rc owner r) else r)"

lemma drain_queue_eq:
  "drain_queue rc now owner q =
     (map (after_turn rc now owner) (filter (deliverable rc now owner) q),
      map (after_turn rc now owner) (filter (\<lambda>r. \<not> deliverable rc now owner r) q))"
  by (induction q) (auto simp: Let_def deliverable_def after_turn_def case_prod_beta)

definition results_for :: "nat \<Rightarrow> (nat \<times> 'p frame_result) list \<Rightarrow> 'p frame_result list" where
  "results_for owner xs = map snd (filter (\<lambda>e. fst e = owner) xs)"

lemma results_for_append: "results_for owner (xs @ ys) = results_for owner xs @ results_for owner ys"
  by (simp add: results_for_def)

text \<open>C14. A tick hands an owner the results whose minimum age has passed and that are done or that the
  owner declares ready, all of them, in the order they were queued; the others stay queued in
  their order.\<close>

theorem tick_delivers_in_order:
  assumes "om_ok (cm_callbacks_to_run cm)" and "om_find owner (cm_callbacks_to_run cm) = Some queue"
    and "collect_ready_callbacks rc now cm = (ready, cm')"
  shows "results_for owner ready =
      map (after_turn rc now owner) (filter (deliverable rc now owner) queue) \<and>
    om_find owner (cm_callbacks_to_run cm') =
      Some (map (after_turn rc now owner) (filter (\<lambda>r. \<not> deliverable rc now owner r) queue))"
proof
  have other: "results_for owner (map (Pair k) q) = (if k = owner then q else [])"
    for k and q :: "'a frame_result list" by (induction q) (auto simp: results_for_def)
  have absent: "om_find owner m = None \<Longrightarrow>
      results_for owner (concat (map (\<lambda>(k, q). map (Pair k) (fst (drain_queue rc now k q))) m)) = []" for m
  proof (induction m)
    case (Cons e m)
    then show ?case by (cases e) (simp add: om_find_Cons other results_for_append split: if_splits)
  qed (simp add: results_for_def)
  have "om_ok m \<Longrightarrow> om_find owner m = Some queue \<Longrightarrow>
      results_for owner (concat (map (\<lambda>(k, q). map (Pair k) (fst (drain_queue rc now k q))) m)) =
      fst (drain_queue rc now owner queue)" for m
  proof (induction m)
    case (Cons e m)
    obtain k q where e: "e = (k, q)" by fastforce
    have ok: "om_ok m" and later: "\<forall>y\<in>fst ` set m. k < y" using Cons.prems(1) by (auto simp: om_ok_def e)
    show ?case
    proof (cases "k = owner")
      case True
      then have "om_find owner m = None" using later by (auto simp: om_find_None)
      with True Cons.prems(2) absent show ?thesis by (simp add: e om_find_Cons other results_for_append)
    next
      case False
      with Cons ok show ?thesis by (simp add: e om_find_Cons other results_for_append)
    qed
  qed simp
  from this [OF assms(1,2)] show "results_for owner ready =
      map (after_turn rc now owner) (filter (deliverable rc now owner) queue)"
    using assms(3) by (auto simp: collect_ready_callbacks_def drain_queue_eq)
  show "om_find owner (cm_callbacks_to_run cm') =
      Some (map (after_turn rc now owner) (filter (\<lambda>r. \<not> deliverable rc now owner r) queue))"
    using assms(2,3) om_find_map_snd [of owner "\<lambda>k q. snd (drain_queue rc now k q)" "cm_callbacks_to_run cm"]
    by (auto simp: collect_ready_callbacks_def drain_queue_eq case_prod_unfold)
qed

theorem tick_delivers_in_order_witness:
  "results_for 2 (fst (collect_ready_callbacks (\<lambda>_ r. (False, r)) 6
      (add_callback 2 example_result new_callback_manager))) = [example_result]"
  using tick_delivers_in_order [of "add_callback 2 example_result new_callback_manager" 2 "[example_result]"
      "\<lambda>_ r. (False, r)" 6]
  by (simp add: add_callback_def new_callback_manager_def om_at_def om_find_Cons om_ok_def
      collect_ready_callbacks_def deliverable_def after_turn_def callback_ok_timeout_def example_result_def)

section \<open>Notification ids\<close>

text \<open>Between two releases of the platform.\<close>

datatype 'p note_op = note_add nat "'p frame_result" | note_remove nat u64 | note_remove_all nat

fun note_do :: "'p callback_manager \<Rightarrow> 'p note_op list \<Rightarrow> u64 list \<times> 'p callback_manager" where
  "note_do cm [] = ([], cm)"
| "note_do cm (note_add owner r # ops) =
     (case add_notification owner r cm of (i, cm1) \<Rightarrow>
        case note_do cm1 ops of (ids, cm2) \<Rightarrow> (i # ids, cm2))"
| "note_do cm (note_remove owner i # ops) = note_do (remove_notification owner i cm) ops"
| "note_do cm (note_remove_all owner # ops) = note_do (remove_all_notifications owner cm) ops"

lemma note_next_kept [simp]:
  "cm_next_notification_id (remove_notification owner i cm) = cm_next_notification_id cm"
  "cm_next_notification_id (remove_all_notifications owner cm) = cm_next_notification_id cm"
  by (simp_all add: remove_notification_def remove_all_notifications_def split: option.splits)

lemma note_ids_from:
  assumes "unat (cm_next_notification_id cm) + length ops < 2 ^ 64"
  shows "distinct (fst (note_do cm ops)) \<and>
    (\<forall>i\<in>set (fst (note_do cm ops)). unat (cm_next_notification_id cm) \<le> unat i)"
  using assms
proof (induction cm ops rule: note_do.induct)
  case (2 cm owner r ops)
  obtain cm1 where a: "add_notification owner r cm = (cm_next_notification_id cm, cm1)"
    and n: "cm_next_notification_id cm1 = cm_next_notification_id cm + 1"
    by (simp add: add_notification_def Let_def)
  have "unat (cm_next_notification_id cm) + 1 < 2 ^ 64" using "2.prems" by simp
  then have up: "unat (cm_next_notification_id cm1) = unat (cm_next_notification_id cm) + 1"
    using unat_add_lem [of "cm_next_notification_id cm" 1] n by simp
  then have "distinct (fst (note_do cm1 ops)) \<and>
      (\<forall>i\<in>set (fst (note_do cm1 ops)). unat (cm_next_notification_id cm1) \<le> unat i)"
    using "2.IH" [OF a [symmetric]] "2.prems" by simp
  then show ?case using a up by (fastforce simp: case_prod_beta)
qed simp_all

lemma first_next [simp]: "cm_next_notification_id new_callback_manager = 1"
  by (simp add: new_callback_manager_def first_notification_id_def)

text \<open>Every notification registered between two releases gets an id of its own, never the invalid
  id 0, removed ones included: an id a game kept after removing its notification never names
  another.\<close>

theorem notification_ids_fresh:
  assumes "length ops < 2 ^ 64 - 1"
  shows "distinct (fst (note_do new_callback_manager ops)) \<and> 0 \<notin> set (fst (note_do new_callback_manager ops))"
  using note_ids_from [of new_callback_manager ops] assms by fastforce

theorem notification_ids_fresh_witness:
  "distinct (fst (note_do new_callback_manager
     [note_add 1 example_result, note_remove 1 1, note_add 2 example_result]))"
  using notification_ids_fresh [of "[note_add 1 example_result, note_remove 1 1, note_add 2 example_result]"]
  by simp

text \<open>A notification is found under its id until it is removed, and only by its owner.\<close>

lemma find_added:
  assumes "add_notification owner r cm = (i, cm')"
  shows "find_notification owner i cm' = Some r"
    and "owner' \<noteq> owner \<or> i' \<noteq> i \<Longrightarrow> find_notification owner' i' cm' = find_notification owner' i' cm"
  using assms by (auto simp: add_notification_def find_notification_def Let_def om_at_def om_find_Cons
      split: option.splits if_splits)

lemma find_removed:
  "find_notification owner i (remove_notification owner' i' cm) =
    (if owner = owner' \<and> i = i' then None else find_notification owner i cm)"
  by (auto simp: remove_notification_def find_notification_def split: option.splits)

end
