(* ===== verification/Eos_Types.thy ===== *)
theory Eos_Types
  imports Messages
begin

text \<open>
  What the interfaces share of the game-facing ABI: result codes with the numbers that travel on the
  wire, and the version rule every option struct is checked with.  A pointer a caller may leave null
  is an \<open>option\<close>, and an id handle is the id string it was interned from.  Last, what an interface
  hands to the mesh, and what the mesh may report while it carries a send out.
\<close>

datatype eos_result =
    EOS_Success | EOS_InvalidParameters | EOS_InvalidUser | EOS_LimitExceeded | EOS_NoConnection
  | EOS_NotFound | EOS_IncompatibleVersion | EOS_AlreadyPending | EOS_NotImplemented | EOS_NoChange
  | EOS_TimedOut | EOS_UnexpectedError | EOS_Sessions_TooManyPlayers
  | EOS_Sessions_SessionAlreadyExists | EOS_Sessions_NotAllowed | EOS_Lobby_NotOwner
  | EOS_Lobby_TooManyPlayers | EOS_Lobby_NotAllowed | EOS_Lobby_PresenceLobbyExists

fun result_number :: "eos_result \<Rightarrow> i32" where
  "result_number EOS_Success = 0"
| "result_number EOS_NoConnection = 1"
| "result_number EOS_InvalidUser = 3"
| "result_number EOS_AlreadyPending = 9"
| "result_number EOS_InvalidParameters = 10"
| "result_number EOS_IncompatibleVersion = 13"
| "result_number EOS_NotImplemented = 16"
| "result_number EOS_NotFound = 18"
| "result_number EOS_NoChange = 20"
| "result_number EOS_LimitExceeded = 22"
| "result_number EOS_TimedOut = 27"
| "result_number EOS_Sessions_TooManyPlayers = 5001"
| "result_number EOS_Sessions_SessionAlreadyExists = 5003"
| "result_number EOS_Sessions_NotAllowed = 5018"
| "result_number EOS_Lobby_NotOwner = 9000"
| "result_number EOS_Lobby_TooManyPlayers = 9004"
| "result_number EOS_Lobby_NotAllowed = 9016"
| "result_number EOS_Lobby_PresenceLobbyExists = 9018"
| "result_number EOS_UnexpectedError = 0x7FFFFFFF"

type_synonym id_handle = "string option"

definition version_is_supported :: "int \<Rightarrow> int \<Rightarrow> bool" where
  "version_is_supported version latest \<longleftrightarrow> 0 < version \<and> version \<le> latest"

text \<open>An option struct that says which version of it the caller fills in.\<close>

datatype 'x versioned = versioned (api_version: int) (fields: 'x)

definition version_ok :: "int \<Rightarrow> int \<Rightarrow> bool" where
  "version_ok version latest \<longleftrightarrow> 0 < version \<and> version \<le> latest"

definition text_or_empty :: "string option \<Rightarrow> string" where
  "text_or_empty text = (case text of None \<Rightarrow> [] | Some t \<Rightarrow> t)"

text \<open>The handle of an id, none for the empty id.\<close>

definition handle_of_id :: "string \<Rightarrow> id_handle" where
  "handle_of_id product_user_id = (if product_user_id = [] then None else Some product_user_id)"

lemma result_number_inj: "result_number a = result_number b \<Longrightarrow> a = b"
  by (cases a; cases b) simp_all

section \<open>The mesh as an interface sees it\<close>

text \<open>
  The calls an interface makes to the router, in order.  A send whose connection turns out broken
  drops the peer, and the listeners hear of it before the send returns: \<open>lost_in_send\<close> names the
  players reported lost inside the send that was made last.
\<close>

datatype mesh_call = mesh_send net_envelope | mesh_listen message_type | mesh_unlisten message_type

type_synonym lost_in_send = "mesh_call list \<Rightarrow> string list"

end
