(* ===== verification/P2P.thy ===== *)
theory P2P
  imports Eos_Types Wire Callbacks "HOL-Library.Product_Lexorder"
begin

text \<open>
  \<^verbatim>\<open>interfaces/p2p.cpp\<close>: the connections a game opens to its peers, the packets it sends and
  receives on them, and the events it is told about.  What the interface hands to the mesh is the
  list \<open>p2_out\<close>, in the order of the calls; whether the datagram path takes a packet is the
  environment's, a function of everything handed over before.  The mesh reports a lost peer
  between calls, not from inside a send.  Trace records are left out.
\<close>

section \<open>Names, versions and limits\<close>

definition cb_connection_request :: int where "cb_connection_request = 1"
definition cb_connection_established :: int where "cb_connection_established = 2"
definition cb_connection_closed :: int where "cb_connection_closed = 3"
definition cb_connection_interrupted :: int where "cb_connection_interrupted = 4"
definition cb_packet_queue_full :: int where "cb_packet_queue_full = 5"
definition cb_query_nat :: int where "cb_query_nat = 6"

definition default_port :: u16 where "default_port = 7777"
definition default_additional_ports :: u16 where "default_additional_ports = 99"
definition max_channel :: i32 where "max_channel = 255"
definition max_packet_size :: nat where "max_packet_size = 1170"
definition socket_name_size :: nat where "socket_name_size = 33"
definition max_queue_size_unlimited :: u64 where "max_queue_size_unlimited = 0"
definition sendpacket_with_reliability :: int where "sendpacket_with_reliability = 2"
definition sendpacket_with_disable_auto_accept :: int where "sendpacket_with_disable_auto_accept = 3"
definition receivepacket_with_requested_channel :: int where "receivepacket_with_requested_channel = 2"
definition packet_size_with_requested_channel :: int where "packet_size_with_requested_channel = 2"

fun bounded_length :: "string \<Rightarrow> nat \<Rightarrow> nat" where
  "bounded_length (c # text) (Suc n) = (if c \<noteq> CHR 0x00 then Suc (bounded_length text n) else 0)"
| "bounded_length _ _ = 0"

definition socket_char_allowed :: "char \<Rightarrow> bool" where
  "socket_char_allowed c \<longleftrightarrow>
     (CHR ''A'' \<le> c \<and> c \<le> CHR ''Z'') \<or> (CHR ''a'' \<le> c \<and> c \<le> CHR ''z'') \<or>
     (CHR ''0'' \<le> c \<and> c \<le> CHR ''9'') \<or> c \<in> {CHR ''-'', CHR ''_'', CHR '' '', CHR ''+'', CHR ''='', CHR ''.''}"

definition socket_name_is_valid :: "string \<Rightarrow> bool" where
  "socket_name_is_valid name \<longleftrightarrow>
     name \<noteq> [] \<and> length name \<le> socket_name_size - 1 \<and> list_all socket_char_allowed name"

text \<open>\<open>so_socket_name\<close> is the fixed buffer, which a caller may leave unterminated.\<close>

record socket_id =
  so_api_version :: int
  so_socket_name :: string

definition socket_name_of :: "socket_id \<Rightarrow> string" where
  "socket_name_of socket = take (bounded_length (so_socket_name socket) socket_name_size) (so_socket_name socket)"

definition socket_id_is_valid :: "socket_id option \<Rightarrow> bool" where
  "socket_id_is_valid socket \<longleftrightarrow>
     (case socket of None \<Rightarrow> False
      | Some s \<Rightarrow> so_api_version s = 1 \<and> socket_name_is_valid (socket_name_of s))"

definition write_socket_id :: "string \<Rightarrow> socket_id" where
  "write_socket_id name =
     (let copy = (if length name < socket_name_size - 1 then length name else socket_name_size - 1)
      in \<lparr>so_api_version = 1,
          so_socket_name = take copy name @ replicate (socket_name_size - copy) (CHR 0x00)\<rparr>)"

definition requested_channel_of :: "int \<Rightarrow> int \<Rightarrow> u8 option \<Rightarrow> u8 option" where
  "requested_channel_of version introduced field = (if introduced \<le> version then field else None)"

section \<open>State\<close>

record received_packet =
  rp_peer :: string
  rp_socket :: string
  rp_channel :: u8
  rp_data :: bytes

type_synonym connection_key = "string \<times> string"

datatype connection_state = connection_requested | connection_pending | connection_open

record delayed_packet =
  dp_data :: bytes
  dp_channel :: u8
  dp_reliable :: bool

record connection =
  co_state :: connection_state
  co_delayed :: "delayed_packet list"

definition new_connection :: "connection_state \<Rightarrow> connection" where
  "new_connection s = \<lparr>co_state = s, co_delayed = []\<rparr>"

datatype event_kind = ev_request | ev_established | ev_interrupted | ev_closed

datatype closed_reason =
    CCR_Unknown | CCR_ClosedByLocalUser | CCR_ClosedByPeer | CCR_TimedOut | CCR_TooManyConnections
  | CCR_InvalidMessage | CCR_InvalidData | CCR_ConnectionFailed | CCR_ConnectionClosed
  | CCR_NegotiationFailed | CCR_UnexpectedError | CCR_ConnectionIgnored

record pending_event =
  pe_type :: event_kind
  pe_peer :: string
  pe_socket :: string
  pe_reason :: closed_reason

record overflow_packet =
  op_channel :: u8
  op_size_bytes :: u32
  op_queue_size_bytes :: u64
  op_queue_max_bytes :: u64

datatype p2p_output =
    out_mesh net_envelope
  | out_datagram string bytes
  | out_listen message_type
  | out_unlisten message_type
  | out_register_frame | out_register_callbacks | out_unregister_callbacks | out_unregister_frame

type_synonym datagram_env = "p2p_output list \<Rightarrow> string \<Rightarrow> bytes \<Rightarrow> bool"

datatype relay_control = RC_NoRelays | RC_AllowRelays | RC_ForceRelays

record sdk_p2p =
  p2_product_user_id :: string
  p2_product_id :: string
  p2_out :: "p2p_output list"
  p2_receive_queue :: "received_packet list"
  p2_connections :: "(connection_key, connection) omap"
  p2_pending_events :: "pending_event list"
  p2_overflows :: "overflow_packet list"
  p2_notify_filters :: "(u64, string) omap"
  p2_nat_queried :: bool
  p2_relay_control :: relay_control
  p2_port :: u16
  p2_additional_ports :: u16
  p2_incoming_queue_max_bytes :: u64
  p2_outgoing_queue_max_bytes :: u64
  p2_registered :: bool

definition new_sdk_p2p :: "string \<Rightarrow> string \<Rightarrow> sdk_p2p" where
  "new_sdk_p2p product_user_id product_id =
     \<lparr>p2_product_user_id = product_user_id, p2_product_id = product_id, p2_out = [],
      p2_receive_queue = [], p2_connections = [], p2_pending_events = [], p2_overflows = [],
      p2_notify_filters = [], p2_nat_queried = False, p2_relay_control = RC_AllowRelays,
      p2_port = default_port, p2_additional_ports = default_additional_ports,
      p2_incoming_queue_max_bytes = max_queue_size_unlimited,
      p2_outgoing_queue_max_bytes = max_queue_size_unlimited, p2_registered = False\<rparr>"

section \<open>Registration\<close>

definition p2p_message_types :: "message_type list" where
  "p2p_message_types = [p2p_connect_request, p2p_connect_response, mt_p2p_data, p2p_connection_close,
     peer_connected, peer_disconnected]"

definition p2p_emu_init :: "sdk_p2p \<Rightarrow> sdk_p2p" where
  "p2p_emu_init st =
     (if p2_registered st then st
      else st\<lparr>p2_out := p2_out st @ [out_register_frame, out_register_callbacks] @ map out_listen p2p_message_types,
              p2_registered := True\<rparr>)"

definition p2p_emu_deinit :: "sdk_p2p \<Rightarrow> sdk_p2p" where
  "p2p_emu_deinit st =
     (if \<not> p2_registered st then st
      else st\<lparr>p2_out := p2_out st @ map out_unlisten p2p_message_types @ [out_unregister_callbacks, out_unregister_frame],
              p2_receive_queue := [], p2_connections := [], p2_pending_events := [], p2_overflows := [],
              p2_notify_filters := [], p2_registered := False\<rparr>)"

definition is_local_user :: "id_handle \<Rightarrow> sdk_p2p \<Rightarrow> bool" where
  "is_local_user user st \<longleftrightarrow> user = Some (p2_product_user_id st)"

definition remember_filter :: "u64 \<Rightarrow> socket_id option \<Rightarrow> sdk_p2p \<Rightarrow> sdk_p2p" where
  "remember_filter i socket_filter st =
     (if i = 0 then st
      else st\<lparr>p2_notify_filters :=
          om_put i (case socket_filter of None \<Rightarrow> [] | Some s \<Rightarrow> socket_name_of s) (p2_notify_filters st)\<rparr>)"

section \<open>Queues\<close>

definition queue_event :: "event_kind \<Rightarrow> string \<Rightarrow> string \<Rightarrow> closed_reason \<Rightarrow> sdk_p2p \<Rightarrow> sdk_p2p" where
  "queue_event type peer socket reason st =
     st\<lparr>p2_pending_events := p2_pending_events st @
        [\<lparr>pe_type = type, pe_peer = peer, pe_socket = socket, pe_reason = reason\<rparr>]\<rparr>"

definition flush_packets :: "string \<Rightarrow> string \<Rightarrow> sdk_p2p \<Rightarrow> sdk_p2p" where
  "flush_packets peer socket st =
     st\<lparr>p2_receive_queue := filter (\<lambda>p.
        \<not> ((peer = [] \<or> rp_peer p = peer) \<and> (socket = [] \<or> rp_socket p = socket))) (p2_receive_queue st)\<rparr>"

definition discard_delayed :: "string \<Rightarrow> string \<Rightarrow> sdk_p2p \<Rightarrow> sdk_p2p" where
  "discard_delayed peer socket st =
     st\<lparr>p2_connections := map (\<lambda>(key, entry).
        (key, if (peer = [] \<or> fst key = peer) \<and> (socket = [] \<or> snd key = socket)
              then entry\<lparr>co_delayed := []\<rparr> else entry)) (p2_connections st)\<rparr>"

definition incoming_queued_bytes :: "sdk_p2p \<Rightarrow> u64" where
  "incoming_queued_bytes st = sum_list (map (\<lambda>p. word_of_nat (length (rp_data p))) (p2_receive_queue st))"

definition outgoing_queued_bytes :: "sdk_p2p \<Rightarrow> u64" where
  "outgoing_queued_bytes st = sum_list (map (\<lambda>(key, entry).
     sum_list (map (\<lambda>d. word_of_nat (length (dp_data d))) (co_delayed entry))) (p2_connections st))"

definition outgoing_queued_packets :: "sdk_p2p \<Rightarrow> u64" where
  "outgoing_queued_packets st =
     sum_list (map (\<lambda>(key, entry). word_of_nat (length (co_delayed entry))) (p2_connections st))"

section \<open>Sending\<close>

definition send_p2p :: "datagram_env \<Rightarrow> message_type \<Rightarrow> string \<Rightarrow> string \<Rightarrow> u8 \<Rightarrow> bytes \<Rightarrow> bool \<Rightarrow>
    sdk_p2p \<Rightarrow> sdk_p2p" where
  "send_p2p dgram type peer socket channel data reliable st =
     (let body = serialize_p2p_data \<lparr>pd_socket_name = socket, pd_channel = ucast channel, pd_data = data\<rparr>
      in if \<not> reliable \<and> type = mt_p2p_data \<and> dgram (p2_out st) peer body
         then st\<lparr>p2_out := p2_out st @ [out_datagram peer body]\<rparr>
         else st\<lparr>p2_out := p2_out st @ [out_mesh
           \<lparr>env_type_tag = tag_of type, env_source_id = p2_product_user_id st, env_dest_id = peer,
            env_game_id = p2_product_id st, env_timestamp = 0, env_payload = body\<rparr>]\<rparr>)"

definition set_connection :: "connection_key \<Rightarrow> connection \<Rightarrow> sdk_p2p \<Rightarrow> sdk_p2p" where
  "set_connection key entry st = st\<lparr>p2_connections := om_put key entry (p2_connections st)\<rparr>"

definition erase_connection :: "connection_key \<Rightarrow> sdk_p2p \<Rightarrow> sdk_p2p" where
  "erase_connection key st = st\<lparr>p2_connections := om_erase key (p2_connections st)\<rparr>"

definition flush_delayed :: "datagram_env \<Rightarrow> connection_key \<Rightarrow> connection \<Rightarrow> sdk_p2p \<Rightarrow> sdk_p2p" where
  "flush_delayed dgram key entry st =
     set_connection key (entry\<lparr>co_delayed := []\<rparr>)
       (foldl (\<lambda>s held. send_p2p dgram mt_p2p_data (fst key) (snd key) (dp_channel held) (dp_data held)
          (dp_reliable held) s) st (co_delayed entry))"

record send_packet_options =
  spo_api_version :: int
  spo_local_user_id :: id_handle
  spo_remote_user_id :: id_handle
  spo_socket_id :: "socket_id option"
  spo_channel :: u8
  spo_data_length_bytes :: u32
  spo_data :: "bytes option"
  spo_allow_delayed_delivery :: bool
  spo_unreliable :: bool
  spo_disable_auto_accept_connection :: bool

definition packet_must_arrive :: "send_packet_options \<Rightarrow> bool" where
  "packet_must_arrive opts \<longleftrightarrow> spo_api_version opts < sendpacket_with_reliability \<or> \<not> spo_unreliable opts"

text \<open>The bytes the caller points at.\<close>

definition packet_bytes :: "send_packet_options \<Rightarrow> bytes" where
  "packet_bytes opts =
     (case spo_data opts of None \<Rightarrow> [] | Some d \<Rightarrow> take (unat (spo_data_length_bytes opts)) d)"

text \<open>The packet, once its connection has been looked up or made.\<close>

definition deliver_packet :: "datagram_env \<Rightarrow> send_packet_options \<Rightarrow> connection_key \<Rightarrow> connection \<Rightarrow> sdk_p2p \<Rightarrow>
    eos_result \<times> sdk_p2p" where
  "deliver_packet dgram opts key entry st =
     (let data = packet_bytes opts;
          reliable = packet_must_arrive opts
      in if co_state entry \<noteq> connection_open then
           if \<not> spo_allow_delayed_delivery opts then (EOS_Success, st)
           else
             let held = outgoing_queued_bytes st
             in if p2_outgoing_queue_max_bytes st \<noteq> max_queue_size_unlimited \<and>
                   p2_outgoing_queue_max_bytes st < held + word_of_nat (length data)
                then (EOS_LimitExceeded, st)
                else (EOS_Success, set_connection key (entry\<lparr>co_delayed := co_delayed entry @
                       [\<lparr>dp_data = data, dp_channel = spo_channel opts, dp_reliable = reliable\<rparr>]\<rparr>) st)
         else (EOS_Success, send_p2p dgram mt_p2p_data (fst key) (snd key) (spo_channel opts) data reliable st))"

definition send_packet :: "datagram_env \<Rightarrow> send_packet_options option \<Rightarrow> sdk_p2p \<Rightarrow> eos_result \<times> sdk_p2p" where
  "send_packet dgram options st =
     (case options of
        None \<Rightarrow> (EOS_InvalidParameters, st)
      | Some opts \<Rightarrow>
          if \<not> version_is_supported (spo_api_version opts) 3 \<or> \<not> socket_id_is_valid (spo_socket_id opts) \<or>
             (0 < spo_data_length_bytes opts \<and> spo_data opts = None)
          then (EOS_InvalidParameters, st)
          else if \<not> is_local_user (spo_local_user_id opts) st \<or> spo_remote_user_id opts = None
          then (EOS_InvalidUser, st)
          else if max_packet_size < unat (spo_data_length_bytes opts) then (EOS_LimitExceeded, st)
          else
            let key = (the (spo_remote_user_id opts), socket_name_of (the (spo_socket_id opts)));
                disable_auto_accept = (sendpacket_with_disable_auto_accept \<le> spo_api_version opts \<and>
                  spo_disable_auto_accept_connection opts)
            in case om_find key (p2_connections st) of
                 None \<Rightarrow>
                   if disable_auto_accept then (EOS_NoConnection, st)
                   else
                     let entry = new_connection connection_pending
                     in deliver_packet dgram opts key entry
                          (send_p2p dgram p2p_connect_request (fst key) (snd key) 0 [] True (set_connection key entry st))
               | Some entry \<Rightarrow> deliver_packet dgram opts key entry st)"

section \<open>Receiving\<close>

record channel_options =
  cho_api_version :: int
  cho_local_user_id :: id_handle
  cho_max_data_size_bytes :: u32
  cho_requested_channel :: "u8 option"

definition wants_channel :: "u8 option \<Rightarrow> received_packet \<Rightarrow> bool" where
  "wants_channel requested p \<longleftrightarrow> (case requested of None \<Rightarrow> True | Some c \<Rightarrow> rp_channel p = c)"

definition get_next_received_packet_size :: "channel_options option \<Rightarrow> bool \<Rightarrow> sdk_p2p \<Rightarrow> eos_result \<times> u32 option" where
  "get_next_received_packet_size options out_given st =
     (case options of
        None \<Rightarrow> (EOS_InvalidParameters, None)
      | Some opts \<Rightarrow>
          if \<not> out_given \<or> \<not> version_is_supported (cho_api_version opts) 2 then (EOS_InvalidParameters, None)
          else if \<not> is_local_user (cho_local_user_id opts) st then (EOS_InvalidUser, None)
          else
            (case List.find (wants_channel (requested_channel_of (cho_api_version opts)
                packet_size_with_requested_channel (cho_requested_channel opts))) (p2_receive_queue st) of
               None \<Rightarrow> (EOS_NotFound, None)
             | Some p \<Rightarrow> (EOS_Success, Some (word_of_nat (length (rp_data p))))))"

text \<open>What a successful receive writes out: the data copied, its length, the sender, socket and channel.\<close>

record packet_out =
  po_data :: bytes
  po_bytes_written :: u32
  po_peer :: string
  po_socket :: socket_id
  po_channel :: u8

text \<open>The first packet a test accepts, and the queue without it.\<close>

fun take_first :: "('a \<Rightarrow> bool) \<Rightarrow> 'a list \<Rightarrow> ('a \<times> 'a list) option" where
  "take_first P [] = None"
| "take_first P (x # xs) =
     (if P x then Some (x, xs)
      else case take_first P xs of None \<Rightarrow> None | Some (y, ys) \<Rightarrow> Some (y, x # ys))"

definition receive_packet :: "channel_options option \<Rightarrow> bool \<Rightarrow> sdk_p2p \<Rightarrow> eos_result \<times> packet_out option \<times> sdk_p2p" where
  "receive_packet options outs_given st =
     (case options of
        None \<Rightarrow> (EOS_InvalidParameters, None, st)
      | Some opts \<Rightarrow>
          if \<not> outs_given \<or> \<not> version_is_supported (cho_api_version opts) 2 then (EOS_InvalidParameters, None, st)
          else if \<not> is_local_user (cho_local_user_id opts) st then (EOS_InvalidUser, None, st)
          else
            (case take_first (wants_channel (requested_channel_of (cho_api_version opts)
                receivepacket_with_requested_channel (cho_requested_channel opts))) (p2_receive_queue st) of
               None \<Rightarrow> (EOS_NotFound, None, st)
             | Some (p, queue) \<Rightarrow>
                 let copied = (if length (rp_data p) < unat (cho_max_data_size_bytes opts)
                               then length (rp_data p) else unat (cho_max_data_size_bytes opts))
                 in (EOS_Success,
                     Some \<lparr>po_data = take copied (rp_data p), po_bytes_written = word_of_nat copied,
                           po_peer = rp_peer p, po_socket = write_socket_id (rp_socket p),
                           po_channel = rp_channel p\<rparr>,
                     st\<lparr>p2_receive_queue := queue\<rparr>)))"

end
