(* ===== verification/P2P_Connections.thy ===== *)
theory P2P_Connections
  imports P2P
begin

text \<open>
  \<^verbatim>\<open>interfaces/p2p.cpp\<close>, second part: opening and closing connections, the settings and
  queue sizes a game reads and writes, and \<^verbatim>\<open>on_network_message\<close>, which every message of a peer
  goes through.
\<close>

section \<open>Opening and closing\<close>

definition send_control :: "datagram_env \<Rightarrow> message_type \<Rightarrow> connection_key \<Rightarrow> sdk_p2p \<Rightarrow> sdk_p2p" where
  "send_control dgram type key st = send_p2p dgram type (fst key) (snd key) 0 [] True st"

record connection_options =
  cno_api_version :: int
  cno_local_user_id :: id_handle
  cno_remote_user_id :: id_handle
  cno_socket_id :: "socket_id option"

definition accept_connection :: "datagram_env \<Rightarrow> connection_options option \<Rightarrow> sdk_p2p \<Rightarrow> eos_result \<times> sdk_p2p" where
  "accept_connection dgram options st =
     (case options of
        None \<Rightarrow> (EOS_InvalidParameters, st)
      | Some opts \<Rightarrow>
          if \<not> version_is_supported (cno_api_version opts) 1 \<or> \<not> socket_id_is_valid (cno_socket_id opts)
          then (EOS_InvalidParameters, st)
          else if \<not> is_local_user (cno_local_user_id opts) st \<or> cno_remote_user_id opts = None
          then (EOS_InvalidUser, st)
          else
            let key = (the (cno_remote_user_id opts), socket_name_of (the (cno_socket_id opts)))
            in (EOS_Success,
                case om_find key (p2_connections st) of
                  None \<Rightarrow> send_control dgram p2p_connect_request key
                            (set_connection key (new_connection connection_pending) st)
                | Some entry \<Rightarrow>
                    (case co_state entry of
                       connection_open \<Rightarrow> st
                     | connection_requested \<Rightarrow>
                         flush_delayed dgram key (entry\<lparr>co_state := connection_open\<rparr>)
                           (queue_event ev_established (fst key) (snd key) CCR_Unknown
                             (send_control dgram p2p_connect_response key
                               (set_connection key (entry\<lparr>co_state := connection_open\<rparr>) st)))
                     | connection_pending \<Rightarrow> send_control dgram p2p_connect_request key st)))"

text \<open>One turn of the two closing loops.\<close>

definition close_key :: "datagram_env \<Rightarrow> connection_key \<Rightarrow> sdk_p2p \<Rightarrow> sdk_p2p" where
  "close_key dgram key st =
     erase_connection key (queue_event ev_closed (fst key) (snd key) CCR_ClosedByLocalUser
       (send_control dgram p2p_connection_close key st))"

definition close_connection :: "datagram_env \<Rightarrow> connection_options option \<Rightarrow> sdk_p2p \<Rightarrow> eos_result \<times> sdk_p2p" where
  "close_connection dgram options st =
     (case options of
        None \<Rightarrow> (EOS_InvalidParameters, st)
      | Some opts \<Rightarrow>
          if \<not> version_is_supported (cno_api_version opts) 1 then (EOS_InvalidParameters, st)
          else if cno_socket_id opts \<noteq> None \<and> \<not> socket_id_is_valid (cno_socket_id opts)
          then (EOS_InvalidParameters, st)
          else if \<not> is_local_user (cno_local_user_id opts) st \<or> cno_remote_user_id opts = None
          then (EOS_InvalidUser, st)
          else
            let peer = the (cno_remote_user_id opts);
                socket = (case cno_socket_id opts of None \<Rightarrow> [] | Some s \<Rightarrow> socket_name_of s);
                keys = filter (\<lambda>key. fst key = peer \<and> (socket = [] \<or> snd key = socket)) (map fst (p2_connections st))
            in (EOS_Success, flush_packets peer socket (foldl (\<lambda>s key. close_key dgram key s) st keys)))"

definition close_connections :: "datagram_env \<Rightarrow> connection_options option \<Rightarrow> sdk_p2p \<Rightarrow> eos_result \<times> sdk_p2p" where
  "close_connections dgram options st =
     (case options of
        None \<Rightarrow> (EOS_InvalidParameters, st)
      | Some opts \<Rightarrow>
          if \<not> version_is_supported (cno_api_version opts) 1 \<or> \<not> socket_id_is_valid (cno_socket_id opts)
          then (EOS_InvalidParameters, st)
          else if \<not> is_local_user (cno_local_user_id opts) st then (EOS_InvalidUser, st)
          else
            let socket = socket_name_of (the (cno_socket_id opts));
                keys = filter (\<lambda>key. snd key = socket) (map fst (p2_connections st))
            in (EOS_Success,
                foldl (\<lambda>s key. flush_packets (fst key) socket (close_key dgram key s)) st keys))"

section \<open>Settings and queue sizes\<close>

definition get_nat_type :: "bool \<Rightarrow> sdk_p2p \<Rightarrow> eos_result" where
  "get_nat_type out_given st =
     (if \<not> out_given then EOS_InvalidParameters else if \<not> p2_nat_queried st then EOS_NotFound else EOS_Success)"

definition set_relay_control :: "(int \<times> relay_control) option \<Rightarrow> sdk_p2p \<Rightarrow> eos_result \<times> sdk_p2p" where
  "set_relay_control options st =
     (case options of
        None \<Rightarrow> (EOS_InvalidParameters, st)
      | Some (version, relay) \<Rightarrow>
          if \<not> version_is_supported version 1 then (EOS_InvalidParameters, st)
          else (EOS_Success, st\<lparr>p2_relay_control := relay\<rparr>))"

definition get_relay_control :: "bool \<Rightarrow> sdk_p2p \<Rightarrow> eos_result \<times> relay_control option" where
  "get_relay_control out_given st =
     (if \<not> out_given then (EOS_InvalidParameters, None) else (EOS_Success, Some (p2_relay_control st)))"

definition set_port_range :: "(int \<times> u16 \<times> u16) option \<Rightarrow> sdk_p2p \<Rightarrow> eos_result \<times> sdk_p2p" where
  "set_port_range options st =
     (case options of
        None \<Rightarrow> (EOS_InvalidParameters, st)
      | Some (version, port, additional) \<Rightarrow>
          if \<not> version_is_supported version 1 then (EOS_InvalidParameters, st)
          else (EOS_Success, st\<lparr>p2_port := port, p2_additional_ports := additional\<rparr>))"

definition get_port_range :: "bool \<Rightarrow> bool \<Rightarrow> sdk_p2p \<Rightarrow> eos_result \<times> (u16 \<times> u16) option" where
  "get_port_range out_port_given out_additional_given st =
     (if \<not> out_port_given \<or> \<not> out_additional_given then (EOS_InvalidParameters, None)
      else (EOS_Success, Some (p2_port st, p2_additional_ports st)))"

definition set_packet_queue_size :: "(int \<times> u64 \<times> u64) option \<Rightarrow> sdk_p2p \<Rightarrow> eos_result \<times> sdk_p2p" where
  "set_packet_queue_size options st =
     (case options of
        None \<Rightarrow> (EOS_InvalidParameters, st)
      | Some (version, incoming, outgoing) \<Rightarrow>
          if \<not> version_is_supported version 1 then (EOS_InvalidParameters, st)
          else (EOS_Success, st\<lparr>p2_incoming_queue_max_bytes := incoming, p2_outgoing_queue_max_bytes := outgoing\<rparr>))"

record packet_queue_info =
  pq_incoming_max :: u64
  pq_incoming_size :: u64
  pq_incoming_count :: u64
  pq_outgoing_max :: u64
  pq_outgoing_size :: u64
  pq_outgoing_count :: u64

definition get_packet_queue_info :: "bool \<Rightarrow> sdk_p2p \<Rightarrow> eos_result \<times> packet_queue_info option" where
  "get_packet_queue_info out_given st =
     (if \<not> out_given then (EOS_InvalidParameters, None)
      else (EOS_Success, Some
        \<lparr>pq_incoming_max = p2_incoming_queue_max_bytes st, pq_incoming_size = incoming_queued_bytes st,
         pq_incoming_count = word_of_nat (length (p2_receive_queue st)),
         pq_outgoing_max = p2_outgoing_queue_max_bytes st, pq_outgoing_size = outgoing_queued_bytes st,
         pq_outgoing_count = outgoing_queued_packets st\<rparr>))"

text \<open>The socket named here is not checked for validity.\<close>

definition clear_packet_queue :: "connection_options option \<Rightarrow> sdk_p2p \<Rightarrow> eos_result \<times> sdk_p2p" where
  "clear_packet_queue options st =
     (case options of
        None \<Rightarrow> (EOS_InvalidParameters, st)
      | Some opts \<Rightarrow>
          if \<not> version_is_supported (cno_api_version opts) 1 then (EOS_IncompatibleVersion, st)
          else if \<not> is_local_user (cno_local_user_id opts) st then (EOS_InvalidUser, st)
          else
            let peer = (case cno_remote_user_id opts of None \<Rightarrow> [] | Some user \<Rightarrow> user);
                socket = (case cno_socket_id opts of None \<Rightarrow> [] | Some s \<Rightarrow> socket_name_of s)
            in (EOS_Success, discard_delayed peer socket (flush_packets peer socket st)))"

definition clear_receive_queue :: "sdk_p2p \<Rightarrow> sdk_p2p" where
  "clear_receive_queue st = st\<lparr>p2_receive_queue := []\<rparr>"

section \<open>Messages from the mesh\<close>

text \<open>One turn of the loop over the connections a lost peer leaves.\<close>

definition interrupt_key :: "connection_key \<Rightarrow> sdk_p2p \<Rightarrow> sdk_p2p" where
  "interrupt_key key st =
     erase_connection key (queue_event ev_interrupted (fst key) (snd key) CCR_Unknown st)"

definition on_peer_disconnected :: "string \<Rightarrow> sdk_p2p \<Rightarrow> sdk_p2p" where
  "on_peer_disconnected source st =
     flush_packets source [] (foldl (\<lambda>s key. interrupt_key key s) st
       (filter (\<lambda>key. fst key = source) (map fst (p2_connections st))))"

definition surface_request :: "connection_key \<Rightarrow> sdk_p2p \<Rightarrow> sdk_p2p" where
  "surface_request key st =
     queue_event ev_request (fst key) (snd key) CCR_Unknown
       (set_connection key (new_connection connection_requested) st)"

definition on_p2p_data :: "connection_key \<Rightarrow> p2p_data \<Rightarrow> sdk_p2p \<Rightarrow> sdk_p2p" where
  "on_p2p_data key payload st =
     (if pd_channel payload <s 0 \<or> max_channel <s pd_channel payload then st
      else if max_packet_size < length (pd_data payload) then st
      else
        (case om_find key (p2_connections st) of
           None \<Rightarrow> surface_request key st
         | Some entry \<Rightarrow>
             if co_state entry \<noteq> connection_open then st
             else
               let held = incoming_queued_bytes st;
                   arriving = word_of_nat (length (pd_data payload)) :: u64
               in if p2_incoming_queue_max_bytes st \<noteq> max_queue_size_unlimited \<and>
                     p2_incoming_queue_max_bytes st < held + arriving
                  then st\<lparr>p2_overflows := p2_overflows st @
                         [\<lparr>op_channel = ucast (pd_channel payload), op_size_bytes = word_of_nat (length (pd_data payload)),
                           op_queue_size_bytes = held, op_queue_max_bytes = p2_incoming_queue_max_bytes st\<rparr>]\<rparr>
                  else st\<lparr>p2_receive_queue := p2_receive_queue st @
                         [\<lparr>rp_peer = fst key, rp_socket = snd key, rp_channel = ucast (pd_channel payload),
                           rp_data = pd_data payload\<rparr>]\<rparr>))"

definition on_connect_request :: "datagram_env \<Rightarrow> connection_key \<Rightarrow> sdk_p2p \<Rightarrow> sdk_p2p" where
  "on_connect_request dgram key st =
     (case om_find key (p2_connections st) of
        None \<Rightarrow> surface_request key st
      | Some entry \<Rightarrow>
          (case co_state entry of
             connection_pending \<Rightarrow>
               flush_delayed dgram key (entry\<lparr>co_state := connection_open\<rparr>)
                 (queue_event ev_established (fst key) (snd key) CCR_Unknown
                   (send_control dgram p2p_connect_response key
                     (set_connection key (entry\<lparr>co_state := connection_open\<rparr>) st)))
           | connection_open \<Rightarrow> send_control dgram p2p_connect_response key st
           | connection_requested \<Rightarrow> st))"

definition on_connect_response :: "datagram_env \<Rightarrow> connection_key \<Rightarrow> sdk_p2p \<Rightarrow> sdk_p2p" where
  "on_connect_response dgram key st =
     (case om_find key (p2_connections st) of
        None \<Rightarrow> st
      | Some entry \<Rightarrow>
          if co_state entry = connection_pending
          then flush_delayed dgram key (entry\<lparr>co_state := connection_open\<rparr>)
                 (queue_event ev_established (fst key) (snd key) CCR_Unknown
                   (set_connection key (entry\<lparr>co_state := connection_open\<rparr>) st))
          else st)"

definition on_connection_close :: "connection_key \<Rightarrow> sdk_p2p \<Rightarrow> sdk_p2p" where
  "on_connection_close key st =
     (if om_find key (p2_connections st) = None then st
      else queue_event ev_closed (fst key) (snd key) CCR_ClosedByPeer
             (flush_packets (fst key) (snd key) (erase_connection key st)))"

text \<open>The payload of an envelope, when it parses and names a socket that may exist.\<close>

definition payload_of :: "net_envelope \<Rightarrow> p2p_data option" where
  "payload_of message =
     (case fst (deserialize_p2p_data (reader_of (env_payload message))) of
        None \<Rightarrow> None
      | Some payload \<Rightarrow> if socket_name_is_valid (pd_socket_name payload) then Some payload else None)"

definition p2p_on_network_message :: "datagram_env \<Rightarrow> net_envelope \<Rightarrow> sdk_p2p \<Rightarrow> bool \<times> sdk_p2p" where
  "p2p_on_network_message dgram message st =
     (if env_type_tag message = tag_of peer_disconnected
      then (True, on_peer_disconnected (env_source_id message) st)
      else if env_type_tag message = tag_of peer_connected then (True, st)
      else if env_source_id message = [] \<or> env_source_id message = p2_product_user_id st then (True, st)
      else if env_dest_id message \<noteq> [] \<and> env_dest_id message \<noteq> p2_product_user_id st then (True, st)
      else
        (case payload_of message of
           None \<Rightarrow> (True, st)
         | Some payload \<Rightarrow>
             let key = (env_source_id message, pd_socket_name payload);
                 tag = env_type_tag message
             in if tag = tag_of mt_p2p_data then (True, on_p2p_data key payload st)
                else if tag = tag_of p2p_connect_request then (True, on_connect_request dgram key st)
                else if tag = tag_of p2p_connect_response then (True, on_connect_response dgram key st)
                else if tag = tag_of p2p_connection_close then (True, on_connection_close key st)
                else (False, st)))"

end
