(* ===== verification/P2P_Invariant.thy ===== *)
theory P2P_Invariant
  imports P2P_Connections
begin

text \<open>
  What each operation of the P2P interface reads and changes, the invariant they keep, and how a
  connection comes to be open.  The lemmas here carry the properties in \<^verbatim>\<open>P2P_Properties\<close>.
\<close>

section \<open>What the helpers change\<close>

abbreviation conn :: "sdk_p2p \<Rightarrow> connection_key \<Rightarrow> connection option" where
  "conn st key \<equiv> om_find key (p2_connections st)"

definition is_open :: "connection_key \<Rightarrow> sdk_p2p \<Rightarrow> bool" where
  "is_open key st \<longleftrightarrow> (case conn st key of None \<Rightarrow> False | Some e \<Rightarrow> co_state e = connection_open)"

text \<open>One output is the envelope or the datagram of one call.\<close>

definition p2p_output_for :: "datagram_env \<Rightarrow> message_type \<Rightarrow> connection_key \<Rightarrow> u8 \<Rightarrow> bytes \<Rightarrow> bool \<Rightarrow> sdk_p2p \<Rightarrow> p2p_output" where
  "p2p_output_for dgram type key channel data reliable st =
     (let body = serialize_p2p_data \<lparr>pd_socket_name = snd key, pd_channel = ucast channel, pd_data = data\<rparr>
      in if \<not> reliable \<and> type = mt_p2p_data \<and> dgram (p2_out st) (fst key) body then out_datagram (fst key) body
         else out_mesh \<lparr>env_type_tag = tag_of type, env_source_id = p2_product_user_id st, env_dest_id = fst key,
                env_game_id = p2_product_id st, env_timestamp = 0, env_payload = body\<rparr>)"

lemma send_p2p_eq:
  "send_p2p dgram type peer socket channel data reliable st =
     st\<lparr>p2_out := p2_out st @ [p2p_output_for dgram type (peer, socket) channel data reliable st]\<rparr>"
  by (simp add: send_p2p_def p2p_output_for_def Let_def)

lemma sends_eq:
  "\<exists>outs. foldl (\<lambda>s held. send_p2p dgram mt_p2p_data peer socket (dp_channel held) (dp_data held)
      (dp_reliable held) s) st held = st\<lparr>p2_out := p2_out st @ outs\<rparr>"
proof (induction held arbitrary: st)
  case Nil
  show ?case by (rule exI [of _ "[]"]) simp
next
  case (Cons h held)
  show ?case using Cons.IH [of "send_p2p dgram mt_p2p_data peer socket (dp_channel h) (dp_data h) (dp_reliable h) st"]
    by (auto simp: send_p2p_eq)
qed

text \<open>Two states that differ in what was handed to the mesh only.\<close>

definition same_but_out :: "sdk_p2p \<Rightarrow> sdk_p2p \<Rightarrow> bool" where
  "same_but_out st st' \<longleftrightarrow> (\<exists>outs. st' = st\<lparr>p2_out := p2_out st @ outs\<rparr>)"

lemma same_but_out_fields [simp]:
  assumes "same_but_out st st'"
  shows "p2_connections st' = p2_connections st" "p2_receive_queue st' = p2_receive_queue st"
    "p2_pending_events st' = p2_pending_events st" "p2_overflows st' = p2_overflows st"
    "p2_product_user_id st' = p2_product_user_id st" "p2_product_id st' = p2_product_id st"
    "p2_incoming_queue_max_bytes st' = p2_incoming_queue_max_bytes st"
    "p2_outgoing_queue_max_bytes st' = p2_outgoing_queue_max_bytes st"
    "p2_registered st' = p2_registered st" "p2_notify_filters st' = p2_notify_filters st"
  using assms by (auto simp: same_but_out_def)

lemma send_fields [simp]:
  "p2_connections (send_p2p dgram type peer socket channel data reliable st) = p2_connections st"
  "p2_receive_queue (send_p2p dgram type peer socket channel data reliable st) = p2_receive_queue st"
  "p2_pending_events (send_p2p dgram type peer socket channel data reliable st) = p2_pending_events st"
  "p2_overflows (send_p2p dgram type peer socket channel data reliable st) = p2_overflows st"
  "p2_product_user_id (send_p2p dgram type peer socket channel data reliable st) = p2_product_user_id st"
  "p2_product_id (send_p2p dgram type peer socket channel data reliable st) = p2_product_id st"
  "p2_incoming_queue_max_bytes (send_p2p dgram type peer socket channel data reliable st) = p2_incoming_queue_max_bytes st"
  "p2_outgoing_queue_max_bytes (send_p2p dgram type peer socket channel data reliable st) = p2_outgoing_queue_max_bytes st"
  by (simp_all add: send_p2p_eq)

lemma control_fields [simp]:
  "p2_connections (send_control dgram type key st) = p2_connections st"
  "p2_receive_queue (send_control dgram type key st) = p2_receive_queue st"
  "p2_pending_events (send_control dgram type key st) = p2_pending_events st"
  "p2_overflows (send_control dgram type key st) = p2_overflows st"
  "p2_product_user_id (send_control dgram type key st) = p2_product_user_id st"
  "p2_product_id (send_control dgram type key st) = p2_product_id st"
  "p2_incoming_queue_max_bytes (send_control dgram type key st) = p2_incoming_queue_max_bytes st"
  "p2_outgoing_queue_max_bytes (send_control dgram type key st) = p2_outgoing_queue_max_bytes st"
  by (simp_all add: send_control_def)

lemma flush_delayed_fields [simp]:
  "p2_connections (flush_delayed dgram key entry st) = om_put key (entry\<lparr>co_delayed := []\<rparr>) (p2_connections st)"
  "p2_receive_queue (flush_delayed dgram key entry st) = p2_receive_queue st"
  "p2_pending_events (flush_delayed dgram key entry st) = p2_pending_events st"
  "p2_overflows (flush_delayed dgram key entry st) = p2_overflows st"
  "p2_product_user_id (flush_delayed dgram key entry st) = p2_product_user_id st"
  "p2_product_id (flush_delayed dgram key entry st) = p2_product_id st"
  "p2_incoming_queue_max_bytes (flush_delayed dgram key entry st) = p2_incoming_queue_max_bytes st"
  "p2_outgoing_queue_max_bytes (flush_delayed dgram key entry st) = p2_outgoing_queue_max_bytes st"
  using sends_eq [of dgram "fst key" "snd key" st "co_delayed entry"]
  by (auto simp: flush_delayed_def set_connection_def)

lemma small_fields [simp]:
  "p2_connections (set_connection key entry st) = om_put key entry (p2_connections st)"
  "p2_receive_queue (set_connection key entry st) = p2_receive_queue st"
  "p2_pending_events (set_connection key entry st) = p2_pending_events st"
  "p2_overflows (set_connection key entry st) = p2_overflows st"
  "p2_out (set_connection key entry st) = p2_out st"
  "p2_product_user_id (set_connection key entry st) = p2_product_user_id st"
  "p2_product_id (set_connection key entry st) = p2_product_id st"
  "p2_incoming_queue_max_bytes (set_connection key entry st) = p2_incoming_queue_max_bytes st"
  "p2_outgoing_queue_max_bytes (set_connection key entry st) = p2_outgoing_queue_max_bytes st"
  "p2_connections (erase_connection key st) = om_erase key (p2_connections st)"
  "p2_receive_queue (erase_connection key st) = p2_receive_queue st"
  "p2_pending_events (erase_connection key st) = p2_pending_events st"
  "p2_overflows (erase_connection key st) = p2_overflows st"
  "p2_out (erase_connection key st) = p2_out st"
  "p2_product_user_id (erase_connection key st) = p2_product_user_id st"
  "p2_product_id (erase_connection key st) = p2_product_id st"
  "p2_incoming_queue_max_bytes (erase_connection key st) = p2_incoming_queue_max_bytes st"
  "p2_outgoing_queue_max_bytes (erase_connection key st) = p2_outgoing_queue_max_bytes st"
  by (simp_all add: set_connection_def erase_connection_def)

lemma event_fields_kept [simp]:
  "p2_connections (queue_event type peer socket reason st) = p2_connections st"
  "p2_receive_queue (queue_event type peer socket reason st) = p2_receive_queue st"
  "p2_pending_events (queue_event type peer socket reason st) =
     p2_pending_events st @ [\<lparr>pe_type = type, pe_peer = peer, pe_socket = socket, pe_reason = reason\<rparr>]"
  "p2_overflows (queue_event type peer socket reason st) = p2_overflows st"
  "p2_out (queue_event type peer socket reason st) = p2_out st"
  "p2_product_user_id (queue_event type peer socket reason st) = p2_product_user_id st"
  "p2_product_id (queue_event type peer socket reason st) = p2_product_id st"
  "p2_incoming_queue_max_bytes (queue_event type peer socket reason st) = p2_incoming_queue_max_bytes st"
  "p2_outgoing_queue_max_bytes (queue_event type peer socket reason st) = p2_outgoing_queue_max_bytes st"
  by (simp_all add: queue_event_def)

lemma flush_packets_fields [simp]:
  "p2_connections (flush_packets peer socket st) = p2_connections st"
  "p2_pending_events (flush_packets peer socket st) = p2_pending_events st"
  "p2_overflows (flush_packets peer socket st) = p2_overflows st"
  "p2_out (flush_packets peer socket st) = p2_out st"
  "p2_product_user_id (flush_packets peer socket st) = p2_product_user_id st"
  "p2_product_id (flush_packets peer socket st) = p2_product_id st"
  "p2_incoming_queue_max_bytes (flush_packets peer socket st) = p2_incoming_queue_max_bytes st"
  "p2_outgoing_queue_max_bytes (flush_packets peer socket st) = p2_outgoing_queue_max_bytes st"
  by (simp_all add: flush_packets_def)

lemma surface_fields [simp]:
  "p2_connections (surface_request key st) = om_put key (new_connection connection_requested) (p2_connections st)"
  "p2_receive_queue (surface_request key st) = p2_receive_queue st"
  "p2_out (surface_request key st) = p2_out st"
  "p2_overflows (surface_request key st) = p2_overflows st"
  by (simp_all add: surface_request_def)

lemma new_connection_fields [simp]:
  "co_state (new_connection s) = s" "co_delayed (new_connection s) = []"
  by (simp_all add: new_connection_def)

section \<open>The closing loops\<close>

lemma close_keys_fields:
  "p2_connections (foldl (\<lambda>s key. close_key dgram key s) st keys) =
     filter (\<lambda>e. fst e \<notin> set keys) (p2_connections st)"
  "p2_receive_queue (foldl (\<lambda>s key. close_key dgram key s) st keys) = p2_receive_queue st"
  by (induction keys arbitrary: st) (auto simp: close_key_def om_erase_def intro: filter_cong)

lemma close_all_keys_fields:
  "p2_connections (foldl (\<lambda>s key. flush_packets (fst key) socket (close_key dgram key s)) st keys) =
     filter (\<lambda>e. fst e \<notin> set keys) (p2_connections st)"
  "p2_receive_queue (foldl (\<lambda>s key. flush_packets (fst key) socket (close_key dgram key s)) st keys) =
     filter (\<lambda>p. \<not> (\<exists>key\<in>set keys. (fst key = [] \<or> rp_peer p = fst key) \<and> (socket = [] \<or> rp_socket p = socket)))
       (p2_receive_queue st)"
  by (induction keys arbitrary: st)
    (auto simp: close_key_def flush_packets_def om_erase_def intro: filter_cong)

lemma interrupt_keys_fields:
  "p2_connections (foldl (\<lambda>s key. interrupt_key key s) st keys) =
     filter (\<lambda>e. fst e \<notin> set keys) (p2_connections st)"
  "p2_receive_queue (foldl (\<lambda>s key. interrupt_key key s) st keys) = p2_receive_queue st"
  "p2_out (foldl (\<lambda>s key. interrupt_key key s) st keys) = p2_out st"
  by (induction keys arbitrary: st) (auto simp: interrupt_key_def om_erase_def intro: filter_cong)

section \<open>Runs of the interface\<close>

text \<open>
  The calls a game makes that touch connections or packets, the messages the mesh delivers, and the
  tick taking the events it is about to fire.
\<close>

datatype p2p_op =
    op_init | op_deinit
  | op_send "send_packet_options option"
  | op_receive "channel_options option" bool
  | op_accept "connection_options option"
  | op_close "connection_options option"
  | op_close_all "connection_options option"
  | op_clear "connection_options option"
  | op_clear_receive
  | op_queue_size "(int \<times> u64 \<times> u64) option"
  | op_message net_envelope
  | op_take_events

fun p2p_do :: "datagram_env \<Rightarrow> sdk_p2p \<Rightarrow> p2p_op \<Rightarrow> sdk_p2p" where
  "p2p_do dgram st op_init = p2p_emu_init st"
| "p2p_do dgram st op_deinit = p2p_emu_deinit st"
| "p2p_do dgram st (op_send options) = snd (send_packet dgram options st)"
| "p2p_do dgram st (op_receive options outs) = snd (snd (receive_packet options outs st))"
| "p2p_do dgram st (op_accept options) = snd (accept_connection dgram options st)"
| "p2p_do dgram st (op_close options) = snd (close_connection dgram options st)"
| "p2p_do dgram st (op_close_all options) = snd (close_connections dgram options st)"
| "p2p_do dgram st (op_clear options) = snd (clear_packet_queue options st)"
| "p2p_do dgram st op_clear_receive = clear_receive_queue st"
| "p2p_do dgram st (op_queue_size options) = snd (set_packet_queue_size options st)"
| "p2p_do dgram st (op_message message) = snd (p2p_on_network_message dgram message st)"
| "p2p_do dgram st op_take_events = st\<lparr>p2_pending_events := [], p2_overflows := []\<rparr>"

section \<open>The invariant\<close>

definition entry_ok :: "connection_key \<Rightarrow> connection \<Rightarrow> bool" where
  "entry_ok key e \<longleftrightarrow> socket_name_is_valid (snd key) \<and> (co_state e = connection_open \<longrightarrow> co_delayed e = []) \<and>
     (\<forall>d\<in>set (co_delayed e). length (dp_data d) \<le> max_packet_size)"

definition packet_ok :: "sdk_p2p \<Rightarrow> received_packet \<Rightarrow> bool" where
  "packet_ok st p \<longleftrightarrow> is_open (rp_peer p, rp_socket p) st \<and> length (rp_data p) \<le> max_packet_size"

definition p2p_ok :: "sdk_p2p \<Rightarrow> bool" where
  "p2p_ok st \<longleftrightarrow> om_ok (p2_connections st) \<and> (\<forall>key e. conn st key = Some e \<longrightarrow> entry_ok key e) \<and>
     (\<forall>p\<in>set (p2_receive_queue st). packet_ok st p)"

lemma entry_ok_new [simp]: "socket_name_is_valid (snd key) \<Longrightarrow> entry_ok key (new_connection s)"
  by (simp add: entry_ok_def)

lemma p2p_ok_new: "p2p_ok (new_sdk_p2p user product)"
  by (simp add: p2p_ok_def new_sdk_p2p_def)

text \<open>The queue and the connections are all the invariant reads.\<close>

lemma p2p_ok_cong:
  "p2p_ok st \<Longrightarrow> p2_connections st' = p2_connections st \<Longrightarrow> set (p2_receive_queue st') \<subseteq> set (p2_receive_queue st) \<Longrightarrow>
    p2p_ok st'"
  by (auto simp: p2p_ok_def packet_ok_def is_open_def)

text \<open>An entry is written; it was not open before, or is still open.\<close>

lemma p2p_ok_put:
  assumes "p2p_ok st" and "p2_connections st' = om_put key entry (p2_connections st)"
    and "p2_receive_queue st' = p2_receive_queue st" and "entry_ok key entry"
    and "is_open key st \<longrightarrow> co_state entry = connection_open"
  shows "p2p_ok st'"
proof -
  have "packet_ok st' p" if "p \<in> set (p2_receive_queue st)" for p
  proof -
    have ok: "packet_ok st p" using assms(1) that by (simp add: p2p_ok_def)
    show ?thesis
    proof (cases "(rp_peer p, rp_socket p) = key")
      case True
      with ok assms(5) have "co_state entry = connection_open" by (simp add: packet_ok_def)
      with ok True assms(2) show ?thesis by (auto simp: packet_ok_def is_open_def)
    next
      case False
      with ok assms(2) show ?thesis by (simp add: packet_ok_def is_open_def)
    qed
  qed
  with assms show ?thesis by (auto simp: p2p_ok_def)
qed

text \<open>Connections go, and the packets that came on them with them.\<close>

lemma p2p_ok_drop:
  assumes "p2p_ok st" and conns: "p2_connections st' = filter (\<lambda>e. P (fst e)) (p2_connections st)"
    and queue: "set (p2_receive_queue st') \<subseteq> {p \<in> set (p2_receive_queue st). P (rp_peer p, rp_socket p)}"
  shows "p2p_ok st'"
proof -
  have ok: "om_ok (p2_connections st)" using assms(1) by (simp add: p2p_ok_def)
  then have find: "conn st' key = (if P key then conn st key else None)" for key
    unfolding conns by (simp add: om_find_filter split: option.splits)
  have "packet_ok st' p" if "p \<in> set (p2_receive_queue st')" for p
  proof -
    have "packet_ok st p" "P (rp_peer p, rp_socket p)" using assms(1) queue that by (auto simp: p2p_ok_def)
    then show ?thesis by (simp add: packet_ok_def is_open_def find)
  qed
  moreover have "om_ok (p2_connections st')" using ok conns by simp
  ultimately show ?thesis using assms(1) by (simp add: p2p_ok_def find split: if_splits)
qed

lemma valid_socket:
  "socket_id_is_valid socket \<Longrightarrow> socket \<noteq> None \<and> socket_name_is_valid (socket_name_of (the socket))"
  by (auto simp: socket_id_is_valid_def split: option.splits)

lemma valid_name_nonempty: "socket_name_is_valid name \<Longrightarrow> name \<noteq> []"
  by (simp add: socket_name_is_valid_def)

section \<open>Every operation keeps the invariant\<close>

lemma set_flush: "set (p2_receive_queue (flush_packets peer socket st)) =
    {p \<in> set (p2_receive_queue st). \<not> ((peer = [] \<or> rp_peer p = peer) \<and> (socket = [] \<or> rp_socket p = socket))}"
  by (auto simp: flush_packets_def)

lemma entry_of: "p2p_ok st \<Longrightarrow> conn st key = Some e \<Longrightarrow> entry_ok key e"
  by (cases key) (simp add: p2p_ok_def)

lemma entry_ok_opened: "entry_ok key e \<Longrightarrow> entry_ok key (e\<lparr>co_state := s, co_delayed := []\<rparr>)"
  by (simp add: entry_ok_def)

text \<open>Both ways a connection becomes open end in this state of the connections.\<close>

lemma p2p_ok_opened:
  assumes "p2p_ok st" and "conn st key = Some e"
    and "p2_connections st' = om_put key (e\<lparr>co_state := connection_open, co_delayed := []\<rparr>)
      (om_put key e' (p2_connections st))"
    and "p2_receive_queue st' = p2_receive_queue st"
  shows "p2p_ok st'"
proof -
  have "om_put key v (om_put key v' m) = om_put key v m" for v v' and m :: "(connection_key, connection) omap"
    by (induction key v' m rule: om_put.induct) auto
  with assms entry_of [OF assms(1,2)] show ?thesis
    by - (rule p2p_ok_put [of st st' key "e\<lparr>co_state := connection_open, co_delayed := []\<rparr>"], simp_all add: entry_ok_opened)
qed

lemma p2p_ok_accept: "p2p_ok st \<Longrightarrow> p2p_ok (snd (accept_connection dgram options st))"
proof (cases options)
  case (Some opts)
  assume ok: "p2p_ok st"
  define key where "key = (the (cno_remote_user_id opts), socket_name_of (the (cno_socket_id opts)))"
  have new: "p2p_ok (send_control dgram p2p_connect_request key (set_connection key (new_connection connection_pending) st))"
    if "socket_id_is_valid (cno_socket_id opts)" "conn st key = None"
    using ok that valid_socket [OF that(1)]
    by - (rule p2p_ok_put [of st _ key "new_connection connection_pending"], simp_all add: key_def is_open_def)
  have again: "p2p_ok (send_control dgram p2p_connect_request key st)"
    using ok by (rule p2p_ok_cong) simp_all
  have opened: "p2p_ok (flush_delayed dgram key (e\<lparr>co_state := connection_open\<rparr>)
      (queue_event ev_established (fst key) (snd key) CCR_Unknown
        (send_control dgram p2p_connect_response key (set_connection key (e\<lparr>co_state := connection_open\<rparr>) st))))"
    if "conn st key = Some e" for e
    using ok that by (rule p2p_ok_opened) simp_all
  show ?thesis
  proof (cases "socket_id_is_valid (cno_socket_id opts)")
    case True
    then show ?thesis unfolding accept_connection_def Some option.case Let_def key_def [symmetric]
      using ok new again opened by (simp split: option.split connection_state.split)
  qed (simp add: accept_connection_def Some ok)
qed (simp add: accept_connection_def)

lemma p2p_ok_deliver:
  assumes "p2p_ok st" and "conn st key = Some e" and "unat (spo_data_length_bytes opts) \<le> max_packet_size"
  shows "p2p_ok (snd (deliver_packet dgram opts key e st))"
proof -
  have "length (packet_bytes opts) \<le> max_packet_size"
    using assms(3) by (auto simp: packet_bytes_def min_def split: option.splits)
  then have "p2p_ok (set_connection key (e\<lparr>co_delayed := co_delayed e @
      [\<lparr>dp_data = packet_bytes opts, dp_channel = c, dp_reliable = r\<rparr>]\<rparr>) st)"
    if "co_state e \<noteq> connection_open" for c r
    using that assms entry_of [OF assms(1,2)]
    by - (rule p2p_ok_put [of st _ key], auto simp: entry_ok_def is_open_def)
  moreover have "p2p_ok (send_p2p dgram mt_p2p_data (fst key) (snd key) c d r st)" for c d r
    using assms(1) by (rule p2p_ok_cong) simp_all
  ultimately show ?thesis using assms(1) by (simp add: deliver_packet_def Let_def)
qed

lemma p2p_ok_send: "p2p_ok st \<Longrightarrow> p2p_ok (snd (send_packet dgram options st))"
proof (cases options)
  case (Some opts)
  assume ok: "p2p_ok st"
  define key where "key = (the (spo_remote_user_id opts), socket_name_of (the (spo_socket_id opts)))"
  have new: "p2p_ok (send_p2p dgram p2p_connect_request (fst key) (snd key) 0 [] True
      (set_connection key (new_connection connection_pending) st))"
    if "socket_id_is_valid (spo_socket_id opts)" "conn st key = None"
    using ok that valid_socket [OF that(1)]
    by - (rule p2p_ok_put [of st _ key "new_connection connection_pending"], simp_all add: key_def is_open_def)
  show ?thesis unfolding send_packet_def Some option.case Let_def key_def [symmetric]
    using ok by (simp add: not_less p2p_ok_deliver new split: option.split)
qed (simp add: send_packet_def)

lemma close_filter: "filter (\<lambda>e. fst e \<notin> set (filter Q (map fst m))) m = filter (\<lambda>e. \<not> Q (fst e)) m"
  by (rule filter_cong) auto

lemma p2p_ok_close: "p2p_ok st \<Longrightarrow> p2p_ok (snd (close_connection dgram options st))"
proof (cases options)
  case (Some opts)
  assume ok: "p2p_ok st"
  have "p2p_ok (flush_packets peer socket (foldl (\<lambda>s key. close_key dgram key s) st
      (filter (\<lambda>key. fst key = peer \<and> (socket = [] \<or> snd key = socket)) (map fst (p2_connections st)))))" for peer socket
    using ok by (rule p2p_ok_drop [where P = "\<lambda>key. \<not> (fst key = peer \<and> (socket = [] \<or> snd key = socket))"])
      (simp_all only: close_keys_fields close_filter flush_packets_fields, auto simp: close_keys_fields set_flush)
  from Some ok this this [of _ "[]", simplified] show ?thesis by (simp add: close_connection_def Let_def)
qed (simp add: close_connection_def)

lemma p2p_ok_close_all: "p2p_ok st \<Longrightarrow> p2p_ok (snd (close_connections dgram options st))"
proof (cases options)
  case (Some opts)
  assume ok: "p2p_ok st"
  have "p2p_ok (foldl (\<lambda>s key. flush_packets (fst key) socket (close_key dgram key s)) st
      (filter (\<lambda>key. snd key = socket) (map fst (p2_connections st))))" for socket
  proof (rule p2p_ok_drop [OF ok, where P = "\<lambda>key. snd key \<noteq> socket"])
    have "(rp_peer p, socket) \<in> fst ` set (p2_connections st)"
      if "p \<in> set (p2_receive_queue st)" "rp_socket p = socket" for p
    proof -
      have "packet_ok st p" using ok that by (simp add: p2p_ok_def)
      with that have "conn st (rp_peer p, socket) \<noteq> None"
        by (auto simp: packet_ok_def is_open_def split: option.splits)
      then show ?thesis by (simp add: om_find_None)
    qed
    then show "set (p2_receive_queue (foldl (\<lambda>s key. flush_packets (fst key) socket (close_key dgram key s)) st
        (filter (\<lambda>key. snd key = socket) (map fst (p2_connections st)))))
      \<subseteq> {p \<in> set (p2_receive_queue st). snd (rp_peer p, rp_socket p) \<noteq> socket}"
      by (force simp: close_all_keys_fields)
  qed (simp only: close_all_keys_fields close_filter)
  with Some ok show ?thesis by (simp add: close_connections_def Let_def)
qed (simp add: close_connections_def)

lemma discard_find: "conn (discard_delayed peer socket st) key =
    map_option (\<lambda>e. if (peer = [] \<or> fst key = peer) \<and> (socket = [] \<or> snd key = socket) then e\<lparr>co_delayed := []\<rparr> else e)
      (conn st key)"
  using om_find_map_snd [of key "\<lambda>key e. if (peer = [] \<or> fst key = peer) \<and> (socket = [] \<or> snd key = socket)
      then e\<lparr>co_delayed := []\<rparr> else e" "p2_connections st"]
  by (simp add: discard_delayed_def case_prod_unfold)

lemma discard_ok: "om_ok (p2_connections st) \<Longrightarrow> om_ok (p2_connections (discard_delayed peer socket st))"
  by (simp add: discard_delayed_def om_ok_def case_prod_unfold comp_def)

lemma discard_queue [simp]: "p2_receive_queue (discard_delayed peer socket st) = p2_receive_queue st"
  by (simp add: discard_delayed_def)

lemma discard_open [simp]: "is_open key (discard_delayed peer socket st) = is_open key st"
  by (cases "conn st key") (simp_all add: is_open_def discard_find)

lemma p2p_ok_discard:
  assumes "p2p_ok st"
  shows "p2p_ok (discard_delayed peer socket st)"
proof -
  have "entry_ok key e" if "conn (discard_delayed peer socket st) key = Some e" for key e
    using that entry_of [OF assms, of key] by (auto simp: discard_find entry_ok_def split: if_splits)
  with assms show ?thesis by (simp add: p2p_ok_def discard_ok packet_ok_def)
qed

lemma p2p_ok_clear: "p2p_ok st \<Longrightarrow> p2p_ok (snd (clear_packet_queue options st))"
proof (cases options)
  case (Some opts)
  assume ok: "p2p_ok st"
  have "p2p_ok (flush_packets peer socket st)" for peer socket
    using ok by (rule p2p_ok_cong) (auto simp: set_flush)
  with Some ok show ?thesis by (simp add: clear_packet_queue_def Let_def p2p_ok_discard)
qed (simp add: clear_packet_queue_def)

lemma take_first_split:
  "take_first P xs = Some (x, ys) \<Longrightarrow> \<exists>us vs. xs = us @ x # vs \<and> ys = us @ vs \<and> P x \<and> filter P us = []"
proof (induction xs arbitrary: ys)
  case (Cons a xs)
  show ?case
  proof (cases "P a")
    case True
    with Cons.prems have "a # xs = [] @ x # xs \<and> ys = [] @ xs \<and> P x \<and> filter P [] = []" by simp
    then show ?thesis by blast
  next
    case False
    with Cons.prems obtain zs where z: "take_first P xs = Some (x, zs)" "ys = a # zs"
      by (auto split: option.splits)
    then obtain us vs where "xs = us @ x # vs \<and> zs = us @ vs \<and> P x \<and> filter P us = []" using Cons.IH by blast
    then have "a # xs = (a # us) @ x # vs \<and> ys = (a # us) @ vs \<and> P x \<and> filter P (a # us) = []"
      using False z by simp
    then show ?thesis by blast
  qed
qed simp

lemma take_first_None: "take_first P xs = None \<longleftrightarrow> filter P xs = []"
  by (induction xs) (auto split: option.splits)

lemma p2p_ok_receive: "p2p_ok st \<Longrightarrow> p2p_ok (snd (snd (receive_packet options outs st)))"
proof (cases options)
  case (Some opts)
  assume ok: "p2p_ok st"
  have "p2p_ok (st\<lparr>p2_receive_queue := queue\<rparr>)" if "take_first P (p2_receive_queue st) = Some (p, queue)" for P p queue
    using ok by (rule p2p_ok_cong) (use take_first_split [OF that] in auto)
  with Some ok show ?thesis by (auto simp: receive_packet_def Let_def split: option.split)
qed (simp add: receive_packet_def)

section \<open>Messages keep it too\<close>

lemma p2p_ok_disconnected: "p2p_ok st \<Longrightarrow> p2p_ok (on_peer_disconnected source st)"
  by (rule p2p_ok_drop [where P = "\<lambda>key. fst key \<noteq> source"])
    (simp_all only: on_peer_disconnected_def interrupt_keys_fields close_filter flush_packets_fields,
     auto simp: interrupt_keys_fields set_flush)

lemma p2p_ok_surface:
  assumes "p2p_ok st" and "conn st key = None" and "socket_name_is_valid (snd key)"
  shows "p2p_ok (surface_request key st)"
  using assms by - (rule p2p_ok_put [of st _ key "new_connection connection_requested"], simp_all add: is_open_def)

lemma p2p_ok_data:
  assumes ok: "p2p_ok st" and "socket_name_is_valid (snd key)"
  shows "p2p_ok (on_p2p_data key payload st)"
proof (cases "conn st key")
  case None
  then show ?thesis using assms p2p_ok_surface by (simp add: on_p2p_data_def)
next
  case (Some e)
  have "p2p_ok (st\<lparr>p2_overflows := x\<rparr>)" for x
    using ok by (rule p2p_ok_cong) simp_all
  moreover have "p2p_ok (st\<lparr>p2_receive_queue := p2_receive_queue st @
      [\<lparr>rp_peer = fst key, rp_socket = snd key, rp_channel = c, rp_data = pd_data payload\<rparr>]\<rparr>)"
    if "co_state e = connection_open" "length (pd_data payload) \<le> max_packet_size" for c
    using ok that Some by (auto simp: p2p_ok_def packet_ok_def is_open_def)
  ultimately show ?thesis using Some ok by (simp add: on_p2p_data_def Let_def)
qed

lemma p2p_ok_request:
  assumes ok: "p2p_ok st" and "socket_name_is_valid (snd key)"
  shows "p2p_ok (on_connect_request dgram key st)"
proof (cases "conn st key")
  case None
  then show ?thesis using assms p2p_ok_surface by (simp add: on_connect_request_def)
next
  case (Some e)
  have "p2p_ok (flush_delayed dgram key (e\<lparr>co_state := connection_open\<rparr>)
      (queue_event ev_established (fst key) (snd key) CCR_Unknown
        (send_control dgram p2p_connect_response key (set_connection key (e\<lparr>co_state := connection_open\<rparr>) st))))"
    using ok Some by (rule p2p_ok_opened) simp_all
  moreover have "p2p_ok (send_control dgram p2p_connect_response key st)"
    using ok by (rule p2p_ok_cong) simp_all
  ultimately show ?thesis using Some ok by (simp add: on_connect_request_def split: connection_state.split)
qed

lemma p2p_ok_response: "p2p_ok st \<Longrightarrow> p2p_ok (on_connect_response dgram key st)"
proof (cases "conn st key")
  case (Some e)
  assume ok: "p2p_ok st"
  have "p2p_ok (flush_delayed dgram key (e\<lparr>co_state := connection_open\<rparr>)
      (queue_event ev_established (fst key) (snd key) CCR_Unknown
        (set_connection key (e\<lparr>co_state := connection_open\<rparr>) st)))"
    using ok Some by (rule p2p_ok_opened) simp_all
  with Some ok show ?thesis by (simp add: on_connect_response_def)
qed (simp add: on_connect_response_def)

lemma p2p_ok_closed: "p2p_ok st \<Longrightarrow> p2p_ok (on_connection_close key st)"
  using p2p_ok_drop [where P = "\<lambda>k. k \<noteq> key" and st = st and
      st' = "queue_event ev_closed (fst key) (snd key) CCR_ClosedByPeer
        (flush_packets (fst key) (snd key) (erase_connection key st))"]
  by (cases key) (auto simp: on_connection_close_def om_erase_def set_flush)

lemma payload_socket: "payload_of message = Some payload \<Longrightarrow> socket_name_is_valid (pd_socket_name payload)"
  by (auto simp: payload_of_def split: option.splits if_splits)

text \<open>What a message comes to, once the checks on its envelope and its payload are over.\<close>

lemma message_cases:
  obtains (same) "snd (p2p_on_network_message dgram message st) = st"
  | (lost) "env_type_tag message = tag_of peer_disconnected"
      "snd (p2p_on_network_message dgram message st) = on_peer_disconnected (env_source_id message) st"
  | (data) payload where "payload_of message = Some payload" "env_type_tag message = tag_of mt_p2p_data"
      "env_source_id message \<noteq> []"
      "snd (p2p_on_network_message dgram message st) = on_p2p_data (env_source_id message, pd_socket_name payload) payload st"
  | (request) payload where "payload_of message = Some payload" "env_type_tag message = tag_of p2p_connect_request"
      "env_source_id message \<noteq> []"
      "snd (p2p_on_network_message dgram message st) = on_connect_request dgram (env_source_id message, pd_socket_name payload) st"
  | (response) payload where "payload_of message = Some payload" "env_type_tag message = tag_of p2p_connect_response"
      "env_source_id message \<noteq> []"
      "snd (p2p_on_network_message dgram message st) = on_connect_response dgram (env_source_id message, pd_socket_name payload) st"
  | (close) payload where "payload_of message = Some payload" "env_type_tag message = tag_of p2p_connection_close"
      "env_source_id message \<noteq> []"
      "snd (p2p_on_network_message dgram message st) = on_connection_close (env_source_id message, pd_socket_name payload) st"
proof (cases "env_type_tag message = tag_of peer_disconnected")
  case True
  then show thesis by (intro lost) (simp_all add: p2p_on_network_message_def)
next
  case kept: False
  show thesis
  proof (cases "env_type_tag message = tag_of peer_connected \<or> env_source_id message = [] \<or>
      env_source_id message = p2_product_user_id st \<or>
      (env_dest_id message \<noteq> [] \<and> env_dest_id message \<noteq> p2_product_user_id st) \<or> payload_of message = None")
    case True
    with kept have "snd (p2p_on_network_message dgram message st) = st"
      by (cases "payload_of message = None") (auto simp: p2p_on_network_message_def)
    then show thesis by (rule same)
  next
    case False
    then obtain payload where p: "payload_of message = Some payload" by auto
    define key where "key = (env_source_id message, pd_socket_name payload)"
    have "snd (p2p_on_network_message dgram message st) =
        (if env_type_tag message = tag_of mt_p2p_data then on_p2p_data key payload st
         else if env_type_tag message = tag_of p2p_connect_request then on_connect_request dgram key st
         else if env_type_tag message = tag_of p2p_connect_response then on_connect_response dgram key st
         else if env_type_tag message = tag_of p2p_connection_close then on_connection_close key st
         else st)"
      using False kept p unfolding p2p_on_network_message_def Let_def key_def by auto
    then show thesis using False p same data request response close unfolding key_def by metis
  qed
qed

lemma p2p_ok_message:
  assumes "p2p_ok st"
  shows "p2p_ok (snd (p2p_on_network_message dgram message st))"
  by (cases dgram message st rule: message_cases)
    (simp_all add: assms payload_socket p2p_ok_disconnected p2p_ok_data p2p_ok_request p2p_ok_response p2p_ok_closed)

lemma p2p_ok_do: "p2p_ok st \<Longrightarrow> p2p_ok (p2p_do dgram st op)"
proof (cases op)
  case op_deinit
  assume "p2p_ok st"
  then show ?thesis using op_deinit by (simp add: p2p_emu_deinit_def) (simp add: p2p_ok_def)
next
  case (op_queue_size options)
  assume "p2p_ok st"
  then have "p2p_ok (snd (set_packet_queue_size options st))"
    by (rule p2p_ok_cong) (simp_all add: set_packet_queue_size_def split: option.split prod.split)
  then show ?thesis using op_queue_size by simp
qed (auto simp: p2p_ok_accept p2p_ok_send p2p_ok_close p2p_ok_close_all p2p_ok_clear p2p_ok_receive p2p_ok_message
    p2p_emu_init_def clear_receive_queue_def elim!: p2p_ok_cong)

interpretation p2p_runs: transition_system "new_sdk_p2p user product" "p2p_do dgram" p2p_ok
  by unfold_locales (simp_all add: p2p_ok_new p2p_ok_do)

end
