(* ===== verification/P2P_States.thy ===== *)
theory P2P_States
  imports P2P_Invariant
begin

text \<open>
  How a connection comes to be open: each operation moves each connection along a small state
  machine, whose steps are labelled with who asked for them.
\<close>

section \<open>The state machine of a connection\<close>

definition state_of :: "sdk_p2p \<Rightarrow> connection_key \<Rightarrow> connection_state option" where
  "state_of st key = map_option co_state (conn st key)"

text \<open>Who did what: the game reached out, the game accepted, the peer knocked, the peer agreed.\<close>

datatype cause = game_reaches | game_accepts | peer_knocks | peer_agrees

inductive conn_moves :: "cause set \<Rightarrow> connection_state option \<Rightarrow> connection_state option \<Rightarrow> bool" for causes where
  stays: "conn_moves causes s s"
| goes: "conn_moves causes s None"
| reaches: "game_reaches \<in> causes \<Longrightarrow> conn_moves causes None (Some connection_pending)"
| knocked: "peer_knocks \<in> causes \<Longrightarrow> conn_moves causes None (Some connection_requested)"
| accepts: "game_accepts \<in> causes \<Longrightarrow> conn_moves causes (Some connection_requested) (Some connection_open)"
| agrees: "peer_agrees \<in> causes \<Longrightarrow> conn_moves causes (Some connection_pending) (Some connection_open)"

inductive_simps conn_moves_simps [simp]:
  "conn_moves causes s (Some connection_open)"
  "conn_moves causes s (Some connection_pending)"
  "conn_moves causes s (Some connection_requested)"
  "conn_moves causes s None"

text \<open>The messages that ask for a connection and the ones that agree to it.\<close>

definition knock_tags :: "u16 set" where
  "knock_tags = {tag_of mt_p2p_data, tag_of p2p_connect_request}"

definition agree_tags :: "u16 set" where
  "agree_tags = {tag_of p2p_connect_request, tag_of p2p_connect_response}"

definition message_on :: "net_envelope \<Rightarrow> connection_key \<Rightarrow> bool" where
  "message_on message key \<longleftrightarrow> env_source_id message = fst key \<and>
     (case payload_of message of None \<Rightarrow> False | Some payload \<Rightarrow> pd_socket_name payload = snd key)"

fun causes_of :: "p2p_op \<Rightarrow> connection_key \<Rightarrow> cause set" where
  "causes_of (op_send (Some opts)) key =
     (if spo_remote_user_id opts = Some (fst key) \<and> socket_name_of (the (spo_socket_id opts)) = snd key
      then {game_reaches} else {})"
| "causes_of (op_accept (Some opts)) key =
     (if cno_remote_user_id opts = Some (fst key) \<and> socket_name_of (the (cno_socket_id opts)) = snd key
      then {game_reaches, game_accepts} else {})"
| "causes_of (op_message message) key =
     (if message_on message key
      then (if env_type_tag message \<in> knock_tags then {peer_knocks} else {}) \<union>
           (if env_type_tag message \<in> agree_tags then {peer_agrees} else {})
      else {})"
| "causes_of _ key = {}"

lemma moves_same [simp]: "p2_connections st' = p2_connections st \<Longrightarrow> conn_moves c (state_of st key) (state_of st' key)"
  by (simp add: state_of_def conn_moves.stays)

lemma moves_filter:
  assumes "om_ok (p2_connections st)" and "p2_connections st' = filter P (p2_connections st)"
  shows "conn_moves c (state_of st key) (state_of st' key)"
  using assms by (auto simp: state_of_def om_find_filter intro: conn_moves.intros split: option.split)

lemma state_put: "p2_connections st' = om_put key e (p2_connections st) \<Longrightarrow>
    state_of st' k = (if k = key then Some (co_state e) else state_of st k)"
  by (simp add: state_of_def)

lemma om_put_put: "om_put k v (om_put k v' m) = om_put k v m"
  by (induction k v' m rule: om_put.induct) auto

lemma moves_put:
  assumes "p2_connections st' = om_put key e (p2_connections st)" and "k = key \<Longrightarrow> conn_moves c (state_of st k) (Some (co_state e))"
  shows "conn_moves c (state_of st k) (state_of st' k)"
  using assms by (simp add: state_put conn_moves.stays)

section \<open>Each operation is a step of it\<close>

lemma deliver_state: "conn st key = Some e \<Longrightarrow> state_of (snd (deliver_packet dgram opts key e st)) k = state_of st k"
  by (auto simp: deliver_packet_def Let_def state_of_def)

lemma moves_send:
  "conn_moves (causes_of (op_send options) k) (state_of st k) (state_of (snd (send_packet dgram options st)) k)"
proof (cases options)
  case (Some opts)
  define key where "key = (the (spo_remote_user_id opts), socket_name_of (the (spo_socket_id opts)))"
  define c where "c = causes_of (op_send options) k"
  define st1 where "st1 = send_p2p dgram p2p_connect_request (fst key) (snd key) 0 [] True
    (set_connection key (new_connection connection_pending) st)"
  have c1: "conn st1 key = Some (new_connection connection_pending)" by (simp add: st1_def)
  have new: "conn_moves c (state_of st k)
      (state_of (snd (deliver_packet dgram opts key (new_connection connection_pending) st1)) k)"
    if "conn st key = None" "spo_remote_user_id opts \<noteq> None"
    unfolding deliver_state [OF c1]
    by (rule moves_put [of _ key "new_connection connection_pending"])
      (use that in \<open>auto simp: st1_def Some key_def state_of_def c_def\<close>)
  have old: "conn_moves c (state_of st k) (state_of (snd (deliver_packet dgram opts key e st)) k)"
    if "conn st key = Some e" for e
    using deliver_state [OF that] by (simp add: conn_moves.stays)
  show ?thesis
    unfolding c_def [symmetric] unfolding send_packet_def Some option.case Let_def key_def [symmetric] st1_def [symmetric]
    using new old by (simp add: conn_moves.stays split: option.split)
qed (simp add: send_packet_def conn_moves.stays)

lemma moves_accept:
  "conn_moves (causes_of (op_accept options) k) (state_of st k) (state_of (snd (accept_connection dgram options st)) k)"
proof (cases options)
  case (Some opts)
  define key where "key = (the (cno_remote_user_id opts), socket_name_of (the (cno_socket_id opts)))"
  define c where "c = causes_of (op_accept options) k"
  have both: "k = key \<Longrightarrow> cno_remote_user_id opts \<noteq> None \<Longrightarrow> c = {game_reaches, game_accepts}"
    by (auto simp: c_def Some key_def)
  have new: "conn_moves c (state_of st k) (state_of (send_control dgram p2p_connect_request key
      (set_connection key (new_connection connection_pending) st)) k)"
    if "conn st key = None" "cno_remote_user_id opts \<noteq> None"
    by (rule moves_put [of _ key "new_connection connection_pending"])
      (use that both in \<open>simp_all add: state_of_def\<close>)
  have opened: "conn_moves c (state_of st k) (state_of (flush_delayed dgram key (e\<lparr>co_state := connection_open\<rparr>)
      (queue_event ev_established (fst key) (snd key) CCR_Unknown
        (send_control dgram p2p_connect_response key (set_connection key (e\<lparr>co_state := connection_open\<rparr>) st)))) k)"
    if "conn st key = Some e" "co_state e = connection_requested" "cno_remote_user_id opts \<noteq> None" for e
    by (rule moves_put [of _ key "e\<lparr>co_state := connection_open, co_delayed := []\<rparr>"])
      (use that both in \<open>simp_all add: state_of_def om_put_put\<close>)
  show ?thesis
    unfolding c_def [symmetric] unfolding accept_connection_def Some option.case Let_def key_def [symmetric]
    using new opened by (simp add: conn_moves.stays split: option.split connection_state.split)
qed (simp add: accept_connection_def conn_moves.stays)

lemma moves_message:
  assumes "om_ok (p2_connections st)"
  shows "conn_moves (causes_of (op_message message) k) (state_of st k)
    (state_of (snd (p2p_on_network_message dgram message st)) k)"
proof -
  have gone: "conn_moves c (state_of st k) (state_of (on_peer_disconnected source st) k)" for c source
    using assms by (rule moves_filter)
      (simp only: on_peer_disconnected_def interrupt_keys_fields close_filter flush_packets_fields)
  have closed: "conn_moves c (state_of st k) (state_of (on_connection_close key st) k)" for c key
    by (auto simp: on_connection_close_def state_of_def intro: conn_moves.stays)
  have by_data: "conn_moves c (state_of st k) (state_of (on_p2p_data key payload st) k)"
    if "k = key \<Longrightarrow> peer_knocks \<in> c" for c key payload
    using that by (auto simp: on_p2p_data_def Let_def state_of_def intro: conn_moves.stays split: option.split)
  have by_request: "conn_moves c (state_of st k) (state_of (on_connect_request dgram key st) k)"
    if "k = key \<Longrightarrow> {peer_knocks, peer_agrees} \<subseteq> c" for c key
    using that by (auto simp: on_connect_request_def state_of_def intro: conn_moves.stays
        split: option.split connection_state.split)
  have by_response: "conn_moves c (state_of st k) (state_of (on_connect_response dgram key st) k)"
    if "k = key \<Longrightarrow> peer_agrees \<in> c" for c key
    using that by (auto simp: on_connect_response_def state_of_def intro: conn_moves.stays split: option.split)
  define c where "c = causes_of (op_message message) k"
  have on: "k = (env_source_id message, pd_socket_name payload) \<Longrightarrow>
      (env_type_tag message \<in> knock_tags \<longrightarrow> peer_knocks \<in> c) \<and> (env_type_tag message \<in> agree_tags \<longrightarrow> peer_agrees \<in> c)"
    if "payload_of message = Some payload" for payload
    using that by (simp add: message_on_def c_def)
  have "conn_moves c (state_of st k) (state_of (snd (p2p_on_network_message dgram message st)) k)"
  proof (cases dgram message st rule: message_cases)
    case (data payload)
    with on [OF data(1)] show ?thesis by (simp add: knock_tags_def by_data)
  next
    case (request payload)
    with on [OF request(1)] show ?thesis by (simp add: knock_tags_def agree_tags_def by_request)
  next
    case (response payload)
    with on [OF response(1)] show ?thesis by (simp add: agree_tags_def by_response)
  qed (simp_all add: gone closed conn_moves.stays)
  then show ?thesis by (simp add: c_def)
qed

lemma moves_do:
  assumes "p2p_ok st"
  shows "conn_moves (causes_of op k) (state_of st k) (state_of (p2p_do dgram st op) k)"
proof -
  have ok: "om_ok (p2_connections st)" using assms by (simp add: p2p_ok_def)
  show ?thesis
  proof (cases op)
    case op_init
    then show ?thesis by (simp add: p2p_emu_init_def)
  next
    case op_deinit
    then show ?thesis by (auto simp: p2p_emu_deinit_def state_of_def conn_moves.stays)
  next
    case (op_send options)
    then show ?thesis by (simp only: p2p_do.simps moves_send)
  next
    case (op_accept options)
    then show ?thesis by (simp only: p2p_do.simps moves_accept)
  next
    case (op_message message)
    with ok show ?thesis by (simp only: p2p_do.simps moves_message)
  next
    case (op_receive options outs)
    then show ?thesis by (auto simp: receive_packet_def Let_def split: option.split)
  next
    case (op_close options)
    have "conn_moves {} (state_of st k) (state_of (flush_packets peer socket (foldl (\<lambda>s key. close_key dgram key s) st keys)) k)"
      for peer socket keys
      using ok by (rule moves_filter) (simp add: close_keys_fields)
    with op_close show ?thesis
      by (cases options) (simp_all add: close_connection_def Let_def conn_moves.stays)
  next
    case (op_close_all options)
    have "conn_moves {} (state_of st k)
        (state_of (foldl (\<lambda>s key. flush_packets (fst key) socket (close_key dgram key s)) st keys) k)" for socket keys
      using ok by (rule moves_filter) (simp add: close_all_keys_fields)
    with op_close_all show ?thesis
      by (cases options) (simp_all add: close_connections_def Let_def conn_moves.stays)
  next
    case (op_clear options)
    have "state_of (discard_delayed peer socket (flush_packets peer socket st)) k = state_of st k" for peer socket
      by (cases "conn st k") (simp_all add: state_of_def discard_find)
    with op_clear show ?thesis
      by (auto simp: clear_packet_queue_def Let_def conn_moves.stays split: option.split)
  next
    case op_clear_receive
    then show ?thesis by (simp add: clear_receive_queue_def)
  next
    case (op_queue_size options)
    then show ?thesis by (auto simp: set_packet_queue_size_def split: option.split)
  next
    case op_take_events
    then show ?thesis by simp
  qed
qed

end
