(* ===== verification/P2P_Notify.thy ===== *)
theory P2P_Notify
  imports P2P_Connections
begin

text \<open>
  \<^verbatim>\<open>interfaces/p2p.cpp\<close>, third part: the notifications a game registers, and the tick that fires
  them.  A fired delegate is the game's code and may call back into the interface and the callback
  manager, so it is a parameter: what it makes of both.
\<close>

section \<open>What a notification carries\<close>

datatype nat_type = NAT_Unknown | NAT_Open | NAT_Moderate | NAT_Strict

datatype p2p_fields =
    blank_fields
  | request_fields string string socket_id
  | established_fields string string socket_id
  | interrupted_fields string string socket_id
  | closed_fields string string socket_id closed_reason
  | queue_full_fields u64 u64 string u8 u32
  | nat_fields eos_result nat_type

record p2p_info =
  in_client_data :: nat
  in_fields :: p2p_fields

type_synonym p2p_callbacks = "p2p_info callback_manager"

text \<open>The interface, the callback manager and what the game keeps of its own.\<close>

record 'g p2p_world =
  pw_p2p :: sdk_p2p
  pw_callbacks :: p2p_callbacks
  pw_game :: 'g

type_synonym 'g game = "nat \<Rightarrow> p2p_info \<Rightarrow> 'g p2p_world \<Rightarrow> 'g p2p_world"

definition new_p2p_result :: "p2p_info frame_result" where
  "new_p2p_result = \<lparr>fr_type_id = 0, fr_payload = \<lparr>in_client_data = 0, in_fields = blank_fields\<rparr>, fr_func = None,
     fr_ok_timeout = 0, fr_created_time = 0, fr_done = False, fr_remove_on_timeout = False\<rparr>"

section \<open>Registration\<close>

definition register_connection_notify :: "nat \<Rightarrow> msec \<Rightarrow> int \<Rightarrow> nat \<Rightarrow> nat \<Rightarrow> p2p_callbacks \<Rightarrow> u64 \<times> p2p_callbacks" where
  "register_connection_notify owner now type client_data delegate cm =
     add_notification owner (create_callback now type \<lparr>in_client_data = client_data, in_fields = blank_fields\<rparr>
       (Some delegate) 0 new_p2p_result) cm"

definition add_notify_filtered :: "int \<Rightarrow> nat \<Rightarrow> msec \<Rightarrow> socket_id option \<Rightarrow> nat \<Rightarrow> nat option \<Rightarrow>
    'g p2p_world \<Rightarrow> u64 \<times> 'g p2p_world" where
  "add_notify_filtered type owner now socket_filter client_data delegate w =
     (case delegate of
        None \<Rightarrow> (0, w)
      | Some d \<Rightarrow>
          if socket_filter \<noteq> None \<and> \<not> socket_id_is_valid socket_filter then (0, w)
          else
            (case register_connection_notify owner now type client_data d (pw_callbacks w) of
               (i, cm) \<Rightarrow> (i, w\<lparr>pw_p2p := remember_filter i socket_filter (pw_p2p w), pw_callbacks := cm\<rparr>)))"

definition add_notify_connection_request :: "nat \<Rightarrow> msec \<Rightarrow> socket_id option \<Rightarrow> nat \<Rightarrow> nat option \<Rightarrow>
    'g p2p_world \<Rightarrow> u64 \<times> 'g p2p_world" where
  "add_notify_connection_request = add_notify_filtered cb_connection_request"

definition add_notify_connection_established :: "nat \<Rightarrow> msec \<Rightarrow> socket_id option \<Rightarrow> nat \<Rightarrow> nat option \<Rightarrow>
    'g p2p_world \<Rightarrow> u64 \<times> 'g p2p_world" where
  "add_notify_connection_established = add_notify_filtered cb_connection_established"

definition add_notify_connection_closed :: "nat \<Rightarrow> msec \<Rightarrow> socket_id option \<Rightarrow> nat \<Rightarrow> nat option \<Rightarrow>
    'g p2p_world \<Rightarrow> u64 \<times> 'g p2p_world" where
  "add_notify_connection_closed = add_notify_filtered cb_connection_closed"

definition add_notify_connection_interrupted :: "nat \<Rightarrow> msec \<Rightarrow> socket_id option \<Rightarrow> nat \<Rightarrow> nat option \<Rightarrow>
    'g p2p_world \<Rightarrow> u64 \<times> 'g p2p_world" where
  "add_notify_connection_interrupted = add_notify_filtered cb_connection_interrupted"

definition add_notify_incoming_packet_queue_full :: "nat \<Rightarrow> msec \<Rightarrow> nat \<Rightarrow> nat option \<Rightarrow> 'g p2p_world \<Rightarrow> u64 \<times> 'g p2p_world" where
  "add_notify_incoming_packet_queue_full owner now client_data delegate w =
     (case delegate of
        None \<Rightarrow> (0, w)
      | Some d \<Rightarrow>
          (case register_connection_notify owner now cb_packet_queue_full client_data d (pw_callbacks w) of
             (i, cm) \<Rightarrow> (i, w\<lparr>pw_callbacks := cm\<rparr>)))"

definition remove_notify :: "nat \<Rightarrow> u64 \<Rightarrow> 'g p2p_world \<Rightarrow> 'g p2p_world" where
  "remove_notify owner i w =
     w\<lparr>pw_p2p := (pw_p2p w)\<lparr>p2_notify_filters := om_erase i (p2_notify_filters (pw_p2p w))\<rparr>,
        pw_callbacks := remove_notification owner i (pw_callbacks w)\<rparr>"

definition query_nat_type :: "nat \<Rightarrow> msec \<Rightarrow> int option \<Rightarrow> nat \<Rightarrow> nat option \<Rightarrow> 'g p2p_world \<Rightarrow> 'g p2p_world" where
  "query_nat_type owner now version client_data delegate w =
     (case delegate of
        None \<Rightarrow> w
      | Some d \<Rightarrow>
          let valid = (case version of None \<Rightarrow> False | Some v \<Rightarrow> version_is_supported v 1);
              info = \<lparr>in_client_data = client_data,
                      in_fields = nat_fields (if valid then EOS_Success else EOS_InvalidParameters)
                        (if valid then NAT_Open else NAT_Unknown)\<rparr>;
              result = (create_callback now cb_query_nat info (Some d) 0 new_p2p_result)\<lparr>fr_done := True\<rparr>
          in w\<lparr>pw_p2p := (if valid then (pw_p2p w)\<lparr>p2_nat_queried := True\<rparr> else pw_p2p w),
               pw_callbacks := add_callback owner result (pw_callbacks w)\<rparr>)"

section \<open>Firing\<close>

text \<open>The fields are written into the registered result itself, and then handed to its delegate.\<close>

definition write_notification :: "nat \<Rightarrow> u64 \<Rightarrow> p2p_info frame_result \<Rightarrow> p2p_callbacks \<Rightarrow> p2p_callbacks" where
  "write_notification owner i note cm =
     cm\<lparr>cm_notifications := om_put owner (om_put i note (om_at owner [] (cm_notifications cm))) (cm_notifications cm)\<rparr>"

definition fire_note :: "'g game \<Rightarrow> nat \<Rightarrow> u64 \<Rightarrow> p2p_fields \<Rightarrow> p2p_info frame_result \<Rightarrow> 'g p2p_world \<Rightarrow> 'g p2p_world" where
  "fire_note game owner i filled note w =
     (let note' = note\<lparr>fr_payload := (fr_payload note)\<lparr>in_fields := filled\<rparr>\<rparr>;
          w' = w\<lparr>pw_callbacks := write_notification owner i note' (pw_callbacks w)\<rparr>
      in case fr_func note' of None \<Rightarrow> w' | Some delegate \<Rightarrow> game delegate (fr_payload note') w')"

definition event_callback_type :: "event_kind \<Rightarrow> int" where
  "event_callback_type kind =
     (case kind of
        ev_request \<Rightarrow> cb_connection_request
      | ev_established \<Rightarrow> cb_connection_established
      | ev_interrupted \<Rightarrow> cb_connection_interrupted
      | ev_closed \<Rightarrow> cb_connection_closed)"

definition event_fields :: "string \<Rightarrow> pending_event \<Rightarrow> p2p_fields" where
  "event_fields local event =
     (let socket = write_socket_id (pe_socket event)
      in case pe_type event of
           ev_request \<Rightarrow> request_fields local (pe_peer event) socket
         | ev_established \<Rightarrow> established_fields local (pe_peer event) socket
         | ev_interrupted \<Rightarrow> interrupted_fields local (pe_peer event) socket
         | ev_closed \<Rightarrow> closed_fields local (pe_peer event) socket (pe_reason event))"

text \<open>A listener registered for one socket does not hear of another.\<close>

definition wants_event :: "u64 \<Rightarrow> pending_event \<Rightarrow> sdk_p2p \<Rightarrow> bool" where
  "wants_event i event st \<longleftrightarrow>
     (case om_find i (p2_notify_filters st) of
        None \<Rightarrow> True
      | Some socket \<Rightarrow> socket = [] \<or> socket = pe_socket event)"

definition fire_event_to :: "'g game \<Rightarrow> nat \<Rightarrow> string \<Rightarrow> pending_event \<Rightarrow> u64 \<Rightarrow> 'g p2p_world \<Rightarrow> 'g p2p_world" where
  "fire_event_to game owner local event i w =
     (case find_notification owner i (pw_callbacks w) of
        None \<Rightarrow> w
      | Some note \<Rightarrow>
          if \<not> wants_event i event (pw_p2p w) then w
          else fire_note game owner i (event_fields local event) note w)"

definition fire_event :: "'g game \<Rightarrow> nat \<Rightarrow> pending_event \<Rightarrow> 'g p2p_world \<Rightarrow> 'g p2p_world" where
  "fire_event game owner event w =
     foldl (\<lambda>u i. fire_event_to game owner (p2_product_user_id (pw_p2p w)) event i u) w
       (notification_ids owner (event_callback_type (pe_type event)) (pw_callbacks w))"

definition fire_connection_notifications :: "'g game \<Rightarrow> nat \<Rightarrow> 'g p2p_world \<Rightarrow> 'g p2p_world" where
  "fire_connection_notifications game owner w =
     foldl (\<lambda>u event. fire_event game owner event u) (w\<lparr>pw_p2p := (pw_p2p w)\<lparr>p2_pending_events := []\<rparr>\<rparr>)
       (p2_pending_events (pw_p2p w))"

definition fire_overflow_to :: "'g game \<Rightarrow> nat \<Rightarrow> string \<Rightarrow> overflow_packet \<Rightarrow> u64 \<Rightarrow> 'g p2p_world \<Rightarrow> 'g p2p_world" where
  "fire_overflow_to game owner local dropped i w =
     (case find_notification owner i (pw_callbacks w) of
        None \<Rightarrow> w
      | Some note \<Rightarrow>
          fire_note game owner i (queue_full_fields (op_queue_max_bytes dropped) (op_queue_size_bytes dropped)
            local (op_channel dropped) (op_size_bytes dropped)) note w)"

definition fire_queue_full_notifications :: "'g game \<Rightarrow> nat \<Rightarrow> 'g p2p_world \<Rightarrow> 'g p2p_world" where
  "fire_queue_full_notifications game owner w =
     foldl (\<lambda>u dropped. foldl (\<lambda>v i. fire_overflow_to game owner (p2_product_user_id (pw_p2p w)) dropped i v) u
         (notification_ids owner cb_packet_queue_full (pw_callbacks u)))
       (w\<lparr>pw_p2p := (pw_p2p w)\<lparr>p2_overflows := []\<rparr>\<rparr>) (p2_overflows (pw_p2p w))"

definition p2p_cb_run_frame :: "'g game \<Rightarrow> nat \<Rightarrow> 'g p2p_world \<Rightarrow> 'g p2p_world" where
  "p2p_cb_run_frame game owner w =
     (let w1 = (if p2_pending_events (pw_p2p w) \<noteq> [] then fire_connection_notifications game owner w else w)
      in if p2_overflows (pw_p2p w1) \<noteq> [] then fire_queue_full_notifications game owner w1 else w1)"

end
