(* ===== verification/P2P_Delivery.thy ===== *)
theory P2P_Delivery
  imports P2P_Invariant P2P_Notify
begin

text \<open>
  Two interfaces talking: the packets a game sends before its peer has agreed arrive, complete and
  in order, once it has.
\<close>

section \<open>Socket names\<close>

lemma allowed_not_nul: "socket_char_allowed c \<Longrightarrow> c \<noteq> CHR 0x00"
  by (auto simp: socket_char_allowed_def less_eq_char_def)

lemma bounded_length_nul:
  "CHR 0x00 \<notin> set name \<Longrightarrow> length name \<le> n \<Longrightarrow> bounded_length (name @ replicate k (CHR 0x00)) n = length name"
proof (induction name arbitrary: n)
  case Nil
  then show ?case by (cases k; cases n) simp_all
next
  case (Cons c name)
  then show ?case by (cases n) auto
qed

lemma write_valid:
  assumes "socket_name_is_valid name"
  shows "socket_name_of (write_socket_id name) = name \<and> socket_id_is_valid (Some (write_socket_id name))"
proof -
  have "CHR 0x00 \<notin> set name"
    using assms allowed_not_nul by (auto simp: socket_name_is_valid_def list_all_iff)
  moreover have len: "length name \<le> 32" using assms by (simp add: socket_name_is_valid_def socket_name_size_def)
  ultimately have "socket_name_of (write_socket_id name) = name"
    using bounded_length_nul [of name 33]
    by (auto simp: socket_name_of_def write_socket_id_def Let_def socket_name_size_def)
  moreover have "so_api_version (write_socket_id name) = 1" by (simp add: write_socket_id_def Let_def)
  ultimately show ?thesis using assms by (simp add: socket_id_is_valid_def)
qed

text \<open>A valid socket name written into the fixed buffer of an event or a received packet is read
  back unchanged, and the buffer is a valid socket id.\<close>

theorem socket_name_roundtrip:
  assumes "socket_name_is_valid name"
  shows "socket_name_of (write_socket_id name) = name \<and> socket_id_is_valid (Some (write_socket_id name))"
  using assms by (rule write_valid)

theorem socket_name_roundtrip_witness:
  "socket_name_of (write_socket_id ''CHAT'') = ''CHAT''"
  using socket_name_roundtrip [of "''CHAT''"]
  by (simp add: socket_name_is_valid_def socket_name_size_def socket_char_allowed_def less_eq_char_def)

section \<open>Two interfaces\<close>

text \<open>The mesh between them carries each envelope to the id it names, in the order they were handed over.\<close>

fun mesh_to :: "string \<Rightarrow> p2p_output list \<Rightarrow> net_envelope list" where
  "mesh_to peer (out_mesh envelope # outs) =
     (if env_dest_id envelope = peer then envelope # mesh_to peer outs else mesh_to peer outs)"
| "mesh_to peer (_ # outs) = mesh_to peer outs"
| "mesh_to peer [] = []"

definition deliver_all :: "datagram_env \<Rightarrow> net_envelope list \<Rightarrow> sdk_p2p \<Rightarrow> sdk_p2p" where
  "deliver_all dgram envelopes st = foldl (\<lambda>s e. snd (p2p_on_network_message dgram e s)) st envelopes"

lemma mesh_to_append [simp]: "mesh_to peer (outs @ outs') = mesh_to peer outs @ mesh_to peer outs'"
  by (induction peer outs rule: mesh_to.induct) auto

definition p2p_envelope :: "message_type \<Rightarrow> string \<Rightarrow> string \<Rightarrow> connection_key \<Rightarrow> u8 \<Rightarrow> bytes \<Rightarrow> net_envelope" where
  "p2p_envelope type user product key channel data =
     \<lparr>env_type_tag = tag_of type, env_source_id = user, env_dest_id = fst key, env_game_id = product,
      env_timestamp = 0, env_payload = serialize_p2p_data \<lparr>pd_socket_name = snd key, pd_channel = ucast channel, pd_data = data\<rparr>\<rparr>"

lemma envelope_fields [simp]:
  "env_type_tag (p2p_envelope type user product key channel data) = tag_of type"
  "env_source_id (p2p_envelope type user product key channel data) = user"
  "env_dest_id (p2p_envelope type user product key channel data) = fst key"
  by (simp_all add: p2p_envelope_def)

lemma payload_of_envelope:
  assumes "socket_name_is_valid (snd key)" and "length data < 2 ^ 64"
  shows "payload_of (p2p_envelope type user product key channel data) =
    Some \<lparr>pd_socket_name = snd key, pd_channel = ucast channel, pd_data = data\<rparr>"
proof -
  have "p2p_data_ok \<lparr>pd_socket_name = snd key, pd_channel = ucast channel, pd_data = data\<rparr>"
    using assms by (simp add: p2p_data_ok_def string_ok_def fits64_def socket_name_is_valid_def socket_name_size_def)
  from p2p_data_codec.roundtrip [OF this] assms(1) show ?thesis
    by (simp add: payload_of_def p2p_envelope_def)
qed

lemma send_reliable:
  "send_p2p dgram type peer socket channel data True st =
     st\<lparr>p2_out := p2_out st @ [out_mesh (p2p_envelope type (p2_product_user_id st) (p2_product_id st) (peer, socket) channel data)]\<rparr>"
  by (simp add: send_p2p_def Let_def p2p_envelope_def)

text \<open>A reliable packet, to be held back until the peer agrees.\<close>

definition packet_options :: "string \<Rightarrow> connection_key \<Rightarrow> u8 \<Rightarrow> bytes \<Rightarrow> send_packet_options" where
  "packet_options user key channel data =
     \<lparr>spo_api_version = 3, spo_local_user_id = Some user, spo_remote_user_id = Some (fst key),
      spo_socket_id = Some (write_socket_id (snd key)), spo_channel = channel,
      spo_data_length_bytes = word_of_nat (length data), spo_data = Some data, spo_allow_delayed_delivery = True,
      spo_unreliable = False, spo_disable_auto_accept_connection = False\<rparr>"

definition accept_options :: "string \<Rightarrow> connection_key \<Rightarrow> connection_options" where
  "accept_options user key =
     \<lparr>cno_api_version = 1, cno_local_user_id = Some user, cno_remote_user_id = Some (fst key),
      cno_socket_id = Some (write_socket_id (snd key))\<rparr>"

definition send_all :: "datagram_env \<Rightarrow> connection_key \<Rightarrow> (u8 \<times> bytes) list \<Rightarrow> sdk_p2p \<Rightarrow> sdk_p2p" where
  "send_all dgram key packets st =
     foldl (\<lambda>s (channel, data). snd (send_packet dgram (Some (packet_options (p2_product_user_id s) key channel data)) s)) st packets"

definition held :: "u8 \<times> bytes \<Rightarrow> delayed_packet" where
  "held packet = \<lparr>dp_data = snd packet, dp_channel = fst packet, dp_reliable = True\<rparr>"

lemma packet_options_ok:
  assumes "length data \<le> 1170"
  shows "packet_bytes (packet_options user key channel data) = data"
    "unat (spo_data_length_bytes (packet_options user key channel data)) = length data"
    "packet_must_arrive (packet_options user key channel data)"
proof -
  have "unat (word_of_nat (length data) :: u32) = length data" using assms by (simp add: unat_of_nat)
  then show "packet_bytes (packet_options user key channel data) = data"
    "unat (spo_data_length_bytes (packet_options user key channel data)) = length data"
    "packet_must_arrive (packet_options user key channel data)"
    by (simp_all add: packet_bytes_def packet_options_def packet_must_arrive_def sendpacket_with_reliability_def)
qed

lemma send_checked:
  assumes "socket_name_is_valid (snd key)" and "length data \<le> 1170" and "p2_product_user_id st = user"
  shows "snd (send_packet dgram (Some (packet_options user key channel data)) st) =
    (case conn st key of
       None \<Rightarrow> snd (deliver_packet dgram (packet_options user key channel data) key (new_connection connection_pending)
         (send_p2p dgram p2p_connect_request (fst key) (snd key) 0 [] True
           (set_connection key (new_connection connection_pending) st)))
     | Some e \<Rightarrow> snd (deliver_packet dgram (packet_options user key channel data) key e st))"
proof -
  have "\<not> max_packet_size < unat (spo_data_length_bytes (packet_options user key channel data))"
    using packet_options_ok(2) [OF assms(2)] assms(2) by (simp add: max_packet_size_def)
  then show ?thesis using assms(3) write_valid [OF assms(1)]
    by (simp add: send_packet_def packet_options_def version_is_supported_def is_local_user_def Let_def split: option.split)
qed

lemma deliver_held:
  assumes "length data \<le> 1170" and "p2_outgoing_queue_max_bytes st = 0" and "co_state e \<noteq> connection_open"
  shows "snd (deliver_packet dgram (packet_options user key channel data) key e st) =
    set_connection key (e\<lparr>co_delayed := co_delayed e @ [held (channel, data)]\<rparr>) st"
  using assms packet_options_ok [OF assms(1)]
  by (simp add: deliver_packet_def Let_def max_queue_size_unlimited_def held_def) (simp add: packet_options_def)

lemma set_connection_twice: "set_connection key e' (set_connection key e st) = set_connection key e' st"
proof -
  have "om_put key e' (om_put key e m) = om_put key e' m" for m :: "(connection_key, connection) omap"
    by (induction key e m rule: om_put.induct) auto
  then show ?thesis by (simp add: set_connection_def)
qed

lemma user_kept [simp]: "p2_outgoing_queue_max_bytes (set_connection key e st) = p2_outgoing_queue_max_bytes st"
  by (simp add: set_connection_def)

text \<open>Sending on a pending connection holds everything back.\<close>

lemma send_all_held:
  assumes "socket_name_is_valid (snd key)" and "\<forall>(c, data)\<in>set packets. length data \<le> 1170"
    and "p2_outgoing_queue_max_bytes st = 0" and "conn st key = Some e" and "co_state e = connection_pending"
  shows "send_all dgram key packets st = (if packets = [] then st
    else set_connection key (e\<lparr>co_delayed := co_delayed e @ map held packets\<rparr>) st)"
  using assms(2-)
proof (induction packets arbitrary: st e)
  case (Cons packet packets)
  obtain c data where p: "packet = (c, data)" by (cases packet)
  define st1 where "st1 = set_connection key (e\<lparr>co_delayed := co_delayed e @ [held packet]\<rparr>) st"
  have step: "snd (send_packet dgram (Some (packet_options (p2_product_user_id st) key c data)) st) = st1"
    using Cons.prems p assms(1) by (simp add: send_checked deliver_held st1_def)
  have "send_all dgram key packets st1 = (if packets = [] then st1
      else set_connection key ((e\<lparr>co_delayed := co_delayed e @ [held packet]\<rparr>)
        \<lparr>co_delayed := co_delayed (e\<lparr>co_delayed := co_delayed e @ [held packet]\<rparr>) @ map held packets\<rparr>) st1)"
    by (rule Cons.IH) (use Cons.prems in \<open>simp_all add: st1_def\<close>)
  with step p show ?case by (auto simp: send_all_def st1_def set_connection_twice)
qed (simp add: send_all_def)

text \<open>Flushing a list of held packets hands them over one by one.\<close>

lemma flush_held:
  "flush_delayed dgram key (e\<lparr>co_delayed := map held packets\<rparr>) st =
     set_connection key (e\<lparr>co_delayed := []\<rparr>) (st\<lparr>p2_out := p2_out st @
       map (\<lambda>(c, data). out_mesh (p2p_envelope mt_p2p_data (p2_product_user_id st) (p2_product_id st) key c data)) packets\<rparr>)"
proof -
  have "foldl (\<lambda>s h. send_p2p dgram mt_p2p_data (fst key) (snd key) (dp_channel h) (dp_data h) (dp_reliable h) s) st (map held packets) =
     st\<lparr>p2_out := p2_out st @ map (\<lambda>(c, data). out_mesh (p2p_envelope mt_p2p_data (p2_product_user_id st)
       (p2_product_id st) key c data)) packets\<rparr>"
    by (induction packets arbitrary: st) (auto simp: held_def send_reliable)
  then show ?thesis by (simp add: flush_delayed_def)
qed

text \<open>A channel of the API survives the wider wire field.\<close>

lemma sint_channel: "sint (ucast (c :: u8) :: i32) = uint c"
  by transfer (simp add: signed_take_bit_eq_if_positive bit_take_bit_iff)

lemma channel_in_range:
  "\<not> (ucast (c :: u8) :: i32) <s 0" "\<not> max_channel <s ucast c" "ucast (ucast c :: i32) = c"
proof -
  have "uint c < 256" using uint_lt2p [of c] by simp
  then show "\<not> (ucast (c :: u8) :: i32) <s 0" "\<not> max_channel <s ucast c"
    by (simp_all add: word_sless_alt sint_channel max_channel_def)
  show "ucast (ucast c :: i32) = c" by (rule bit_word_eqI) (auto simp: bit_simps)
qed

text \<open>What data messages bring to an open connection, the queue unlimited.\<close>

lemma receive_all:
  assumes "socket_name_is_valid socket" and "\<forall>(c, data)\<in>set packets. length data \<le> 1170"
    and "p2_incoming_queue_max_bytes st = 0" and "is_open (user, socket) st" and "user \<noteq> []"
    and "user \<noteq> p2_product_user_id st" and "p2_product_user_id st = peer"
  shows "deliver_all dgram (map (\<lambda>(c, data). p2p_envelope mt_p2p_data user product (peer, socket) c data) packets) st =
    st\<lparr>p2_receive_queue := p2_receive_queue st @
      map (\<lambda>(c, data). \<lparr>rp_peer = user, rp_socket = socket, rp_channel = c, rp_data = data\<rparr>) packets\<rparr>"
  using assms(2-)
proof (induction packets arbitrary: st)
  case (Cons packet packets)
  obtain c data where p: "packet = (c, data)" by (cases packet)
  define st1 where "st1 = st\<lparr>p2_receive_queue := p2_receive_queue st @
    [\<lparr>rp_peer = user, rp_socket = socket, rp_channel = c, rp_data = data\<rparr>]\<rparr>"
  have "payload_of (p2p_envelope mt_p2p_data user product (peer, socket) c data) =
      Some \<lparr>pd_socket_name = socket, pd_channel = ucast c, pd_data = data\<rparr>"
    using Cons.prems(1) p assms(1) payload_of_envelope [of "(peer, socket)" data] by simp
  with Cons.prems p channel_in_range have "snd (p2p_on_network_message dgram (p2p_envelope mt_p2p_data user product (peer, socket) c data) st) = st1"
    by (auto simp: p2p_on_network_message_def on_p2p_data_def Let_def st1_def is_open_def max_packet_size_def
        max_queue_size_unlimited_def split: option.splits)
  moreover have "deliver_all dgram (map (\<lambda>(c, data). p2p_envelope mt_p2p_data user product (peer, socket) c data) packets) st1 =
      st1\<lparr>p2_receive_queue := p2_receive_queue st1 @
        map (\<lambda>(c, data). \<lparr>rp_peer = user, rp_socket = socket, rp_channel = c, rp_data = data\<rparr>) packets\<rparr>"
    by (rule Cons.IH) (use Cons.prems in \<open>simp_all add: st1_def is_open_def\<close>)
  ultimately show ?case using p by (simp add: deliver_all_def st1_def)
qed (simp add: deliver_all_def)

lemma mesh_to_envelopes:
  "mesh_to peer (map (\<lambda>(c, data). out_mesh (p2p_envelope type user product (peer, socket) c data)) packets) =
    map (\<lambda>(c, data). p2p_envelope type user product (peer, socket) c data) packets"
  by (induction packets) auto

text \<open>The first packet on an unknown connection asks for it.\<close>

lemma send_all_asks:
  assumes "socket_name_is_valid (snd key)" and "\<forall>(c, data)\<in>set packets. length data \<le> 1170"
    and "p2_outgoing_queue_max_bytes st = 0" and "conn st key = None" and "packets \<noteq> []"
  shows "send_all dgram key packets st =
    set_connection key \<lparr>co_state = connection_pending, co_delayed = map held packets\<rparr>
      (st\<lparr>p2_out := p2_out st @ [out_mesh (p2p_envelope p2p_connect_request (p2_product_user_id st) (p2_product_id st) key 0 [])]\<rparr>)"
proof -
  obtain c data rest where p: "packets = (c, data) # rest" using assms(5) by (cases packets) auto
  define st0 where "st0 = st\<lparr>p2_out := p2_out st @
    [out_mesh (p2p_envelope p2p_connect_request (p2_product_user_id st) (p2_product_id st) key 0 [])]\<rparr>"
  have held_one: "(new_connection connection_pending)\<lparr>co_delayed := ds\<rparr> = \<lparr>co_state = connection_pending, co_delayed = ds\<rparr>" for ds
    by (simp add: new_connection_def)
  have ask: "send_p2p dgram p2p_connect_request (fst key) (snd key) 0 [] True
      (set_connection key (new_connection connection_pending) st) = set_connection key (new_connection connection_pending) st0"
    by (simp add: send_reliable st0_def set_connection_def)
  have "snd (send_packet dgram (Some (packet_options (p2_product_user_id st) key c data)) st) =
      set_connection key \<lparr>co_state = connection_pending, co_delayed = [held (c, data)]\<rparr> st0"
    using assms p held_one by (simp add: send_checked ask deliver_held set_connection_twice) (simp add: st0_def deliver_held set_connection_twice held_one)
  moreover have "send_all dgram key rest (set_connection key \<lparr>co_state = connection_pending, co_delayed = [held (c, data)]\<rparr> st0) =
      set_connection key \<lparr>co_state = connection_pending, co_delayed = map held packets\<rparr> st0"
    using assms p send_all_held [of key rest "set_connection key \<lparr>co_state = connection_pending, co_delayed = [held (c, data)]\<rparr> st0"
        "\<lparr>co_state = connection_pending, co_delayed = [held (c, data)]\<rparr>" dgram]
    by (simp add: st0_def set_connection_twice)
  ultimately show ?thesis using p by (simp add: send_all_def st0_def)
qed

text \<open>
  One side sends packets nobody has agreed to take; the mesh carries its request over; the other
  game accepts; the mesh carries the answer back, and then what had been held.
\<close>

definition talk :: "datagram_env \<Rightarrow> string \<Rightarrow> string \<Rightarrow> string \<Rightarrow> string \<Rightarrow> (u8 \<times> bytes) list \<Rightarrow> sdk_p2p \<times> sdk_p2p \<times> sdk_p2p" where
  "talk dgram product a b socket packets =
     (let sender = send_all dgram (b, socket) packets (new_sdk_p2p a product);
          asked = deliver_all dgram (mesh_to b (p2_out sender)) (new_sdk_p2p b product);
          accepted = snd (accept_connection dgram (Some (accept_options b (a, socket))) asked);
          agreed = deliver_all dgram (mesh_to a (p2_out accepted)) sender;
          received = deliver_all dgram (mesh_to b (drop (length (p2_out sender)) (p2_out agreed))) accepted
      in (asked, agreed, received))"

text \<open>C20. Packets a game sends, asking to have them held, before its peer has agreed to the connection
  reach that peer's game complete and in order once its game accepts, and not before; both
  connections are then open.\<close>

theorem held_packets_arrive_in_order:
  assumes "a \<noteq> b" and "a \<noteq> []" and "b \<noteq> []" and valid: "socket_name_is_valid socket"
    and "packets \<noteq> []" and sizes: "\<forall>(c, data)\<in>set packets. length data \<le> 1170"
  shows "case talk dgram product a b socket packets of (asked, agreed, received) \<Rightarrow>
    p2_receive_queue asked = [] \<and> is_open (b, socket) agreed \<and> is_open (a, socket) received \<and>
    p2_receive_queue received = map (\<lambda>(c, data). \<lparr>rp_peer = a, rp_socket = socket, rp_channel = c, rp_data = data\<rparr>) packets"
proof -
  define A where "A = new_sdk_p2p a product"
  define B where "B = new_sdk_p2p b product"
  define ask where "ask = p2p_envelope p2p_connect_request a product (b, socket) 0 []"
  define yes where "yes = p2p_envelope p2p_connect_response b product (a, socket) 0 []"
  define waiting where "waiting = \<lparr>co_state = connection_pending, co_delayed = map held packets\<rparr>"
  have new: "p2_product_user_id A = a" "p2_product_user_id B = b" "p2_product_id A = product" "p2_product_id B = product"
    "p2_out A = []" "p2_out B = []" "p2_connections A = []" "p2_connections B = []" "p2_receive_queue B = []"
    "p2_outgoing_queue_max_bytes A = 0" "p2_incoming_queue_max_bytes B = 0"
    by (simp_all add: A_def B_def new_sdk_p2p_def max_queue_size_unlimited_def)
  have opens: "payload_of ask = Some \<lparr>pd_socket_name = socket, pd_channel = 0, pd_data = []\<rparr>"
    "payload_of yes = Some \<lparr>pd_socket_name = socket, pd_channel = 0, pd_data = []\<rparr>"
    using payload_of_envelope [of "(_, socket)" "[]"] valid by (simp_all add: ask_def yes_def)
  define sender where "sender = send_all dgram (b, socket) packets A"
  have sender: "sender = set_connection (b, socket) waiting (A\<lparr>p2_out := [out_mesh ask]\<rparr>)"
    using send_all_asks [of "(b, socket)" packets A dgram] assms new by (simp add: sender_def waiting_def ask_def)
  define asked where "asked = surface_request (a, socket) B"
  have asked: "deliver_all dgram (mesh_to b (p2_out sender)) B = asked"
    using assms new opens
    by (simp add: sender deliver_all_def asked_def) (simp add: ask_def p2p_on_network_message_def on_connect_request_def)
  define accepted where "accepted = snd (accept_connection dgram (Some (accept_options b (a, socket))) asked)"
  have accepted: "p2_out accepted = [out_mesh yes]" "is_open (a, socket) accepted" "p2_receive_queue accepted = []"
      "p2_product_user_id accepted = b" "p2_incoming_queue_max_bytes accepted = 0"
    using write_valid [OF valid] new
    by (simp_all add: accepted_def accept_connection_def accept_options_def version_is_supported_def is_local_user_def
        asked_def surface_request_def is_open_def flush_delayed_def send_control_def send_reliable yes_def
        Let_def om_find_Cons)
  define agreed where "agreed = on_connect_response dgram (b, socket) sender"
  have agreed: "deliver_all dgram (mesh_to a (p2_out accepted)) sender = agreed"
    using assms new opens
    by (simp add: accepted deliver_all_def agreed_def) (simp add: yes_def sender p2p_on_network_message_def)
  have out: "p2_out agreed = out_mesh ask # map (\<lambda>(c, data). out_mesh (p2p_envelope mt_p2p_data a product (b, socket) c data)) packets"
    and open_a: "is_open (b, socket) agreed"
    using new flush_held [where e = "\<lparr>co_state = connection_open, co_delayed = _\<rparr>"]
    by (simp_all add: agreed_def on_connect_response_def sender waiting_def is_open_def om_find_Cons)
  have "deliver_all dgram (mesh_to b (drop (length (p2_out sender)) (p2_out agreed))) accepted =
      accepted\<lparr>p2_receive_queue := map (\<lambda>(c, data). \<lparr>rp_peer = a, rp_socket = socket, rp_channel = c, rp_data = data\<rparr>) packets\<rparr>"
    using receive_all [of socket packets accepted a b dgram product] assms accepted
    by (simp add: out sender mesh_to_envelopes)
  then have "talk dgram product a b socket packets = (asked, agreed,
      accepted\<lparr>p2_receive_queue := map (\<lambda>(c, data). \<lparr>rp_peer = a, rp_socket = socket, rp_channel = c, rp_data = data\<rparr>) packets\<rparr>)"
    by (simp add: talk_def Let_def asked accepted_def [symmetric] agreed A_def [symmetric] B_def [symmetric] sender_def [symmetric])
  with open_a accepted new show ?thesis by (simp add: asked_def surface_request_def is_open_def)
qed

theorem held_packets_arrive_in_order_witness:
  "case talk (\<lambda>_ _ _. False) ''g'' ''alice'' ''bob'' ''CHAT'' [(1, [7, 8]), (2, [9])] of (asked, agreed, received) \<Rightarrow>
    p2_receive_queue received =
      [\<lparr>rp_peer = ''alice'', rp_socket = ''CHAT'', rp_channel = 1, rp_data = [7, 8]\<rparr>,
       \<lparr>rp_peer = ''alice'', rp_socket = ''CHAT'', rp_channel = 2, rp_data = [9]\<rparr>]"
  using held_packets_arrive_in_order [of "''alice''" "''bob''" "''CHAT''" "[(1, [7, 8]), (2, [9])]" "\<lambda>_ _ _. False" "''g''"]
  by (auto simp: socket_name_is_valid_def socket_name_size_def socket_char_allowed_def less_eq_char_def)

end
