(* ===== verification/P2P_Properties.thy ===== *)
theory P2P_Properties
  imports P2P_States P2P_Delivery
begin

text \<open>
  The properties of the P2P interface: how connections come to be open, what reaches the game and
  in which order, what a peer can and cannot do, and what the game is told.
\<close>

abbreviation p2p_run :: "datagram_env \<Rightarrow> string \<Rightarrow> string \<Rightarrow> p2p_op list \<Rightarrow> sdk_p2p" where
  "p2p_run dgram user product ops \<equiv> run (p2p_do dgram) (new_sdk_p2p user product) ops"

lemma run_snoc: "run step s (es @ [e]) = step (run step s es) e"
  by (simp add: run_append)

section \<open>Connections\<close>


text \<open>Bob asks, alice's game accepts, and then bob sends two packets.\<close>

definition bob :: connection_key where "bob = (''bob'', ''CHAT'')"

definition from_bob :: "message_type \<Rightarrow> u8 \<Rightarrow> bytes \<Rightarrow> p2p_op" where
  "from_bob type channel data = op_message (p2p_envelope type ''bob'' ''g'' (''alice'', ''CHAT'') channel data)"

definition bob_asks :: "p2p_op list" where
  "bob_asks = [from_bob p2p_connect_request 0 [], op_accept (Some (accept_options ''alice'' bob))]"

definition bob_sends :: "p2p_op list" where
  "bob_sends = bob_asks @ [from_bob mt_p2p_data 1 [7, 8], from_bob mt_p2p_data 2 [9]]"

abbreviation alice :: "p2p_op list \<Rightarrow> sdk_p2p" where
  "alice ops \<equiv> p2p_run (\<lambda>_ _ _. False) ''alice'' ''g'' ops"

lemma chat_valid: "socket_name_is_valid ''CHAT''"
  by (simp add: socket_name_is_valid_def socket_name_size_def socket_char_allowed_def less_eq_char_def)

lemma bob_payload: "length data < 2 ^ 64 \<Longrightarrow>
    payload_of (p2p_envelope type user ''g'' (peer, ''CHAT'') channel data) =
      Some \<lparr>pd_socket_name = ''CHAT'', pd_channel = ucast channel, pd_data = data\<rparr>"
  using payload_of_envelope [of "(peer, ''CHAT'')"] chat_valid by simp

definition alice_asked :: sdk_p2p where
  "alice_asked = (new_sdk_p2p ''alice'' ''g'')
     \<lparr>p2_connections := [(bob, \<lparr>co_state = connection_open, co_delayed = []\<rparr>)],
      p2_out := [out_mesh (p2p_envelope p2p_connect_response ''alice'' ''g'' bob 0 [])],
      p2_pending_events := [\<lparr>pe_type = ev_request, pe_peer = ''bob'', pe_socket = ''CHAT'', pe_reason = CCR_Unknown\<rparr>,
        \<lparr>pe_type = ev_established, pe_peer = ''bob'', pe_socket = ''CHAT'', pe_reason = CCR_Unknown\<rparr>]\<rparr>"

lemma alice_after_asking: "alice bob_asks = alice_asked"
  using write_valid [OF chat_valid]
  by (simp add: bob_asks_def from_bob_def bob_payload p2p_on_network_message_def on_connect_request_def surface_request_def
      new_sdk_p2p_def set_connection_def queue_event_def accept_connection_def accept_options_def version_is_supported_def
      is_local_user_def Let_def om_find_Cons new_connection_def flush_delayed_def send_control_def send_reliable alice_asked_def bob_def)

lemma alice_after_packets: "alice bob_sends = alice_asked\<lparr>p2_receive_queue :=
    [\<lparr>rp_peer = ''bob'', rp_socket = ''CHAT'', rp_channel = 1, rp_data = [7, 8]\<rparr>,
     \<lparr>rp_peer = ''bob'', rp_socket = ''CHAT'', rp_channel = 2, rp_data = [9]\<rparr>]\<rparr>"
  unfolding bob_sends_def run_append alice_after_asking
  by (simp add: from_bob_def bob_payload p2p_on_network_message_def
      on_p2p_data_def channel_in_range [of 1, simplified] channel_in_range [of 2, simplified]
      alice_asked_def new_sdk_p2p_def bob_def om_find_Cons max_packet_size_def max_queue_size_unlimited_def Let_def)

text \<open>What a state of a connection says about the past.\<close>

definition had_cause :: "cause set \<Rightarrow> p2p_op list \<Rightarrow> connection_key \<Rightarrow> bool" where
  "had_cause causes ops key \<longleftrightarrow> (\<exists>op\<in>set ops. causes_of op key \<inter> causes \<noteq> {})"

lemma accepts_reaches: "game_accepts \<in> causes_of op key \<Longrightarrow> game_reaches \<in> causes_of op key"
  by (cases "(op, key)" rule: causes_of.cases) (auto split: if_splits)

lemma states_had_causes:
  "(state_of (p2p_run dgram user product ops) key = Some connection_pending \<longrightarrow> had_cause {game_reaches} ops key) \<and>
   (state_of (p2p_run dgram user product ops) key = Some connection_requested \<longrightarrow> had_cause {peer_knocks} ops key) \<and>
   (state_of (p2p_run dgram user product ops) key = Some connection_open \<longrightarrow>
     had_cause {game_reaches} ops key \<and> had_cause {peer_knocks, peer_agrees} ops key)"
proof (induction ops rule: rev_induct)
  case Nil
  then show ?case by (simp add: state_of_def new_sdk_p2p_def)
next
  case (snoc op ops)
  define s where "s = state_of (p2p_run dgram user product ops) key"
  define s' where "s' = state_of (p2p_run dgram user product (ops @ [op])) key"
  have move: "conn_moves (causes_of op key) s s'"
    unfolding s_def s'_def by (simp add: run_snoc moves_do p2p_runs.inv_run)
  have had: "had_cause C (ops @ [op]) key \<longleftrightarrow> had_cause C ops key \<or> causes_of op key \<inter> C \<noteq> {}" for C
    by (auto simp: had_cause_def)
  have IH: "s = Some connection_pending \<Longrightarrow> had_cause {game_reaches} ops key"
    "s = Some connection_requested \<Longrightarrow> had_cause {peer_knocks} ops key"
    "s = Some connection_open \<Longrightarrow> had_cause {game_reaches} ops key \<and> had_cause {peer_knocks, peer_agrees} ops key"
    using snoc.IH by (simp_all add: s_def)
  have weaken: "had_cause {peer_knocks} ops key \<Longrightarrow> had_cause {peer_knocks, peer_agrees} ops key"
    by (auto simp: had_cause_def)
  show ?case unfolding s'_def [symmetric] had
    using move IH weaken accepts_reaches by cases auto
qed

text \<open>C16. A connection is open only when both sides have asked for it: the game sent on it or
  accepted it, and the peer sent a packet, a request or a response on it.  An unsolicited response
  opens nothing.\<close>

theorem open_needs_both_sides:
  assumes "is_open key (p2p_run dgram user product ops)"
  shows "had_cause {game_reaches} ops key \<and> had_cause {peer_knocks, peer_agrees} ops key"
proof -
  have "state_of (p2p_run dgram user product ops) key = Some connection_open"
    using assms by (auto simp: is_open_def state_of_def split: option.splits)
  with states_had_causes show ?thesis by blast
qed

theorem open_needs_both_sides_witness:
  "had_cause {game_reaches} bob_asks bob \<and> had_cause {peer_knocks, peer_agrees} bob_asks bob"
  using open_needs_both_sides [of bob "\<lambda>_ _ _. False" "''alice''" "''g''" bob_asks]
  by (simp add: alice_after_asking alice_asked_def is_open_def om_find_Cons)

text \<open>C17. In every reachable state each packet waiting for the game came on a connection that is
  open now, fits the largest packet the API can hand over, and an open connection holds nothing
  back: closing a connection takes its packets with it, and so does losing the peer, which the
  game hears as an interruption.  The documentation of the interruption callback promises the
  contrary for that last case (packets remain queued during an interruption).\<close>

theorem waiting_packets_are_from_open_connections:
  "(\<forall>p\<in>set (p2_receive_queue (p2p_run dgram user product ops)).
      is_open (rp_peer p, rp_socket p) (p2p_run dgram user product ops) \<and> length (rp_data p) \<le> 1170) \<and>
   (\<forall>(key, e)\<in>set (p2_connections (p2p_run dgram user product ops)).
      co_state e = connection_open \<longrightarrow> co_delayed e = [])"
proof -
  define st where "st = p2p_run dgram user product ops"
  have "p2p_ok st" unfolding st_def by (rule p2p_runs.inv_run)
  then show ?thesis unfolding st_def [symmetric]
    by (fastforce simp: p2p_ok_def packet_ok_def entry_ok_def max_packet_size_def om_find_iff)
qed

theorem waiting_packets_are_from_open_connections_witness:
  "is_open bob (alice bob_sends)"
  using waiting_packets_are_from_open_connections [of "\<lambda>_ _ _. False" "''alice''" "''g''" bob_sends]
  by (simp add: alice_after_packets bob_def)

section \<open>Receiving\<close>

definition on_channel :: "u8 \<Rightarrow> sdk_p2p \<Rightarrow> received_packet list" where
  "on_channel c st = filter (\<lambda>p. rp_channel p = c) (p2_receive_queue st)"

lemma take_first_filter:
  assumes "take_first P xs = Some (x, ys)"
  shows "filter P xs = x # filter P ys \<and>
    filter Q ys = (if Q x then remove1 x (filter Q xs) else filter Q xs)"
proof -
  obtain us vs where e: "xs = us @ x # vs" "ys = us @ vs" "P x" "filter P us = []"
    using take_first_split [OF assms] by blast
  then have "x \<notin> set us" by (auto simp: filter_empty_conv)
  with e show ?thesis by (simp add: remove1_append)
qed

text \<open>A receive hands over the oldest waiting packet of the channel asked for (the oldest of
  all without one), cut to the caller's buffer, and takes exactly that packet out of the queue;
  packets of other channels stay, in their order.  With none it reports not found.\<close>

theorem receive_takes_oldest:
  assumes "version_is_supported (cho_api_version opts) 2" and "is_local_user (cho_local_user_id opts) st"
    and "requested = requested_channel_of (cho_api_version opts) 2 (cho_requested_channel opts)"
  shows "case filter (wants_channel requested) (p2_receive_queue st) of
      [] \<Rightarrow> receive_packet (Some opts) True st = (EOS_NotFound, None, st)
    | p # waiting \<Rightarrow> (\<exists>out st'. receive_packet (Some opts) True st = (EOS_Success, Some out, st') \<and>
        po_peer out = rp_peer p \<and> po_channel out = rp_channel p \<and>
        po_data out = take (unat (cho_max_data_size_bytes opts)) (rp_data p) \<and>
        filter (wants_channel requested) (p2_receive_queue st') = waiting \<and>
        (\<forall>c. c \<noteq> rp_channel p \<longrightarrow> on_channel c st' = on_channel c st))"
proof (cases "take_first (wants_channel requested) (p2_receive_queue st)")
  case None
  then have "filter (wants_channel requested) (p2_receive_queue st) = []" by (simp add: take_first_None)
  with None show ?thesis using assms
    by (simp add: receive_packet_def receivepacket_with_requested_channel_def)
next
  case (Some found)
  obtain p queue where f: "found = (p, queue)" by (cases found)
  note taken = take_first_filter [OF Some [unfolded f]]
  have cut: "take (min (length d) n) d = take n d" for d :: bytes and n
    by (simp add: min_def)
  show ?thesis using assms Some f taken [of "\<lambda>_. True"] taken [of "\<lambda>q. rp_channel q = c" for c]
    by (simp add: receive_packet_def receivepacket_with_requested_channel_def Let_def on_channel_def)
qed

definition take_channel_2 :: channel_options where
  "take_channel_2 = \<lparr>cho_api_version = 2, cho_local_user_id = Some ''alice'', cho_max_data_size_bytes = 1170,
     cho_requested_channel = Some 2\<rparr>"

theorem receive_takes_oldest_witness:
  "\<exists>out st'. receive_packet (Some take_channel_2) True (alice bob_sends) = (EOS_Success, Some out, st') \<and>
     po_data out = [9] \<and> on_channel 1 st' = on_channel 1 (alice bob_sends)"
proof -
  have "is_local_user (cho_local_user_id take_channel_2) (alice bob_sends)"
    unfolding alice_after_packets
    by (simp add: alice_asked_def new_sdk_p2p_def is_local_user_def take_channel_2_def)
  from receive_takes_oldest [OF _ this refl] show ?thesis
    by (fastforce simp: take_channel_2_def version_is_supported_def requested_channel_of_def alice_after_packets wants_channel_def)
qed

section \<open>What a peer can do\<close>

fun sent_to :: "p2p_output \<Rightarrow> string option" where
  "sent_to (out_mesh envelope) = Some (env_dest_id envelope)"
| "sent_to (out_datagram peer _) = Some peer"
| "sent_to _ = None"

text \<open>Everything handed over since then went to one peer.\<close>

definition sends_only_to :: "string \<Rightarrow> sdk_p2p \<Rightarrow> sdk_p2p \<Rightarrow> bool" where
  "sends_only_to peer st st' \<longleftrightarrow> (\<exists>outs. p2_out st' = p2_out st @ outs \<and> (\<forall>out\<in>set outs. sent_to out = Some peer))"

lemma sends_only_same [simp]: "p2_out st' = p2_out st \<Longrightarrow> sends_only_to peer st st'"
  by (simp add: sends_only_to_def)

lemma sends_only_trans: "sends_only_to peer st st1 \<Longrightarrow> sends_only_to peer st1 st2 \<Longrightarrow> sends_only_to peer st st2"
  by (fastforce simp: sends_only_to_def)

lemma sends_only_send: "sends_only_to peer st (send_p2p dgram type peer socket channel data reliable st)"
  by (simp add: sends_only_to_def send_p2p_eq p2p_output_for_def Let_def)

lemma sends_only_control: "sends_only_to (fst key) st (send_control dgram type key st)"
  by (simp add: send_control_def sends_only_send)

lemma sends_only_flush: "sends_only_to (fst key) st (flush_delayed dgram key e st)"
proof -
  have "sends_only_to (fst key) st (foldl (\<lambda>s held. send_p2p dgram mt_p2p_data (fst key) (snd key) (dp_channel held)
      (dp_data held) (dp_reliable held) s) st held)" for held
    by (induction held arbitrary: st) (auto intro: sends_only_trans sends_only_send)
  then show ?thesis by (simp add: flush_delayed_def sends_only_to_def)
qed

text \<open>What a message of one peer leaves alone: the others' connections, packets and events.\<close>

definition leaves_others :: "string \<Rightarrow> sdk_p2p \<Rightarrow> sdk_p2p \<Rightarrow> bool" where
  "leaves_others peer st st' \<longleftrightarrow>
     (\<forall>key. fst key \<noteq> peer \<longrightarrow> conn st' key = conn st key) \<and>
     filter (\<lambda>p. rp_peer p \<noteq> peer) (p2_receive_queue st') = filter (\<lambda>p. rp_peer p \<noteq> peer) (p2_receive_queue st) \<and>
     (\<exists>events. p2_pending_events st' = p2_pending_events st @ events \<and> (\<forall>e\<in>set events. pe_peer e = peer)) \<and>
     sends_only_to peer st st'"

lemma leaves_same [simp]: "leaves_others peer st st"
  by (simp add: leaves_others_def)

lemma lost_events:
  assumes "\<forall>key\<in>set keys. fst key = source"
  shows "\<exists>events. p2_pending_events (foldl (\<lambda>s key. interrupt_key key s) st keys) = p2_pending_events st @ events \<and>
    (\<forall>e\<in>set events. pe_peer e = source)"
  using assms
proof (induction keys arbitrary: st)
  case (Cons key keys)
  then obtain events where "p2_pending_events (foldl (\<lambda>s key. interrupt_key key s) (interrupt_key key st) keys) =
      p2_pending_events (interrupt_key key st) @ events" "\<forall>e\<in>set events. pe_peer e = source"
    by fastforce
  with Cons.prems show ?case by (simp add: interrupt_key_def)
qed simp

lemma leaves_lost:
  assumes "om_ok (p2_connections st)" and "source \<noteq> []"
  shows "leaves_others source st (on_peer_disconnected source st)"
proof -
  have "conn (on_peer_disconnected source st) key = conn st key" if "fst key \<noteq> source" for key
    using that assms(1) unfolding on_peer_disconnected_def flush_packets_fields interrupt_keys_fields close_filter
    by (simp add: om_find_filter split: option.split)
  moreover have "filter (\<lambda>p. rp_peer p \<noteq> source) (p2_receive_queue (on_peer_disconnected source st)) =
      filter (\<lambda>p. rp_peer p \<noteq> source) (p2_receive_queue st)"
    using assms(2) by (auto simp: on_peer_disconnected_def flush_packets_def interrupt_keys_fields intro: filter_cong)
  ultimately show ?thesis
    using lost_events [of "filter (\<lambda>key. fst key = source) (map fst (p2_connections st))" source st]
    by (simp add: leaves_others_def on_peer_disconnected_def interrupt_keys_fields)
qed

lemma leaves_surface: "leaves_others (fst key) st (surface_request key st)"
  by (auto simp: leaves_others_def surface_request_def)

lemma leaves_data: "leaves_others (fst key) st (on_p2p_data key payload st)"
  using leaves_surface [of key st]
  by (auto simp: on_p2p_data_def Let_def split: option.split) (simp_all add: leaves_others_def)

lemma leaves_opened:
  assumes "sends_only_to (fst key) st st1" "p2_connections st1 = om_put key e (p2_connections st)"
    "p2_receive_queue st1 = p2_receive_queue st" "p2_pending_events st1 = p2_pending_events st"
  shows "leaves_others (fst key) st (flush_delayed dgram key e' (queue_event k (fst key) (snd key) r st1))"
proof -
  have "sends_only_to (fst key) st (queue_event k (fst key) (snd key) r st1)"
    using assms(1) by (simp add: sends_only_to_def)
  then have "sends_only_to (fst key) st (flush_delayed dgram key e' (queue_event k (fst key) (snd key) r st1))"
    by (rule sends_only_trans [OF _ sends_only_flush])
  with assms show ?thesis by (auto simp: leaves_others_def)
qed

lemma leaves_request: "leaves_others (fst key) st (on_connect_request dgram key st)"
proof -
  have "leaves_others (fst key) st (send_control dgram p2p_connect_response key st)"
    by (simp add: leaves_others_def sends_only_control)
  moreover have "leaves_others (fst key) st (flush_delayed dgram key e' (queue_event k (fst key) (snd key) r
      (send_control dgram p2p_connect_response key (set_connection key e st))))" for e e' k r
    by (rule leaves_opened [of _ _ _ e]) (auto intro: sends_only_trans [OF sends_only_same sends_only_control])
  ultimately show ?thesis using leaves_surface [of key st]
    by (simp add: on_connect_request_def split: option.split connection_state.split)
qed

lemma leaves_response: "leaves_others (fst key) st (on_connect_response dgram key st)"
  using leaves_opened [of key st "set_connection key e st" for e]
  by (simp add: on_connect_response_def split: option.split)

lemma leaves_closed: "fst key \<noteq> [] \<Longrightarrow> leaves_others (fst key) st (on_connection_close key st)"
  by (auto simp: on_connection_close_def leaves_others_def flush_packets_def intro: filter_cong)

text \<open>C18. Whatever one peer sends, and its own disconnection, leaves the connections with every other
  peer, the packets waiting from them and the events about them as they are, and makes the interface
  send to nobody but that peer.\<close>

theorem peer_cannot_touch_others:
  assumes "env_source_id message \<noteq> []"
  shows "leaves_others (env_source_id message) (p2p_run dgram user product ops)
    (snd (p2p_on_network_message dgram message (p2p_run dgram user product ops)))"
proof -
  define st where "st = p2p_run dgram user product ops"
  have ok: "om_ok (p2_connections st)" using p2p_runs.inv_run unfolding st_def p2p_ok_def by blast
  have "leaves_others (env_source_id message) st (snd (p2p_on_network_message dgram message st))"
    using assms ok leaves_data [of "(env_source_id message, s)" st for s] leaves_request [of "(env_source_id message, s)" st for s]
      leaves_response [of "(env_source_id message, s)" st for s] leaves_closed [of "(env_source_id message, s)" st for s]
    by (cases dgram message st rule: message_cases) (simp_all add: leaves_lost)
  then show ?thesis by (simp add: st_def)
qed

theorem peer_cannot_touch_others_witness:
  "leaves_others ''eve'' (alice bob_sends) (snd (p2p_on_network_message (\<lambda>_ _ _. False)
     (p2p_envelope p2p_connection_close ''eve'' ''g'' (''alice'', ''CHAT'') 0 []) (alice bob_sends)))"
  using peer_cannot_touch_others [of "p2p_envelope p2p_connection_close ''eve'' ''g'' (''alice'', ''CHAT'') 0 []"
      "\<lambda>_ _ _. False" "''alice''" "''g''" bob_sends]
  by simp

section \<open>How much can wait\<close>

definition incoming_bytes :: "sdk_p2p \<Rightarrow> nat" where
  "incoming_bytes st = sum_list (map (\<lambda>p. length (rp_data p)) (p2_receive_queue st))"

lemma incoming_queued_bytes_eq: "incoming_queued_bytes st = word_of_nat (incoming_bytes st)"
proof -
  have "sum_list (map (\<lambda>p. word_of_nat (length (rp_data p)) :: u64) ps) =
      word_of_nat (sum_list (map (\<lambda>p. length (rp_data p)) ps))" for ps
    by (induction ps) simp_all
  then show ?thesis by (simp add: incoming_queued_bytes_def incoming_bytes_def)
qed

lemma sum_filter_le: "sum_list (map f (filter P xs)) \<le> sum_list (map f xs)" for f :: "'a \<Rightarrow> nat"
  by (induction xs) auto

text \<open>What an operation keeps when it lets the queue grow and does not set the limit.\<close>

definition within_limit :: "sdk_p2p \<Rightarrow> sdk_p2p \<Rightarrow> bool" where
  "within_limit st st' \<longleftrightarrow> p2_incoming_queue_max_bytes st' = p2_incoming_queue_max_bytes st \<and>
     incoming_bytes st' \<le> incoming_bytes st"

lemma within_same:
  "p2_incoming_queue_max_bytes st' = p2_incoming_queue_max_bytes st \<Longrightarrow> p2_receive_queue st' = p2_receive_queue st \<Longrightarrow>
    within_limit st st'"
  by (simp add: within_limit_def incoming_bytes_def)

lemma deliver_fields [simp]:
  "p2_incoming_queue_max_bytes (snd (deliver_packet dgram opts key e st)) = p2_incoming_queue_max_bytes st"
  "p2_receive_queue (snd (deliver_packet dgram opts key e st)) = p2_receive_queue st"
  by (simp_all add: deliver_packet_def Let_def)

lemma within_send: "within_limit st (snd (send_packet dgram options st))"
  by (rule within_same) (simp_all add: send_packet_def Let_def split: option.split)

lemma within_accept: "within_limit st (snd (accept_connection dgram options st))"
  by (rule within_same) (simp_all add: accept_connection_def Let_def split: option.split connection_state.split)

lemma close_keys_limit:
  "p2_incoming_queue_max_bytes (foldl (\<lambda>s key. close_key dgram key s) st keys) = p2_incoming_queue_max_bytes st"
  "p2_incoming_queue_max_bytes (foldl (\<lambda>s key. flush_packets (fst key) socket (close_key dgram key s)) st keys) =
     p2_incoming_queue_max_bytes st"
  "p2_incoming_queue_max_bytes (foldl (\<lambda>s key. interrupt_key key s) st keys) = p2_incoming_queue_max_bytes st"
  by (induction keys arbitrary: st) (simp_all add: close_key_def interrupt_key_def)

lemma within_close:
  "within_limit st (flush_packets peer socket (foldl (\<lambda>s key. close_key dgram key s) st keys))"
  "within_limit st (on_peer_disconnected source st)"
  by (simp_all add: within_limit_def close_keys_limit incoming_bytes_def flush_packets_def close_keys_fields
      interrupt_keys_fields on_peer_disconnected_def sum_filter_le)

lemma within_close_all:
  "within_limit st (foldl (\<lambda>s key. flush_packets (fst key) socket (close_key dgram key s)) st keys)"
  by (simp add: within_limit_def close_keys_limit incoming_bytes_def close_all_keys_fields sum_filter_le)

lemma within_receive: "within_limit st (snd (snd (receive_packet options outs st)))"
proof -
  have "sum_list (map (\<lambda>p. length (rp_data p)) queue) \<le> incoming_bytes st"
    if "take_first P (p2_receive_queue st) = Some (p, queue)" for P p queue
    using take_first_split [OF that] by (auto simp: incoming_bytes_def)
  then show ?thesis
    by (auto simp: receive_packet_def Let_def within_limit_def incoming_bytes_def split: option.split)
qed

text \<open>A full queue turns a packet away; the sum it computes does not wrap while the limit is not
  within a packet of \<open>2 ^ 64\<close>.\<close>

lemma data_queue:
  "p2_receive_queue (on_p2p_data key payload st) = p2_receive_queue st \<or>
   (\<exists>p. p2_receive_queue (on_p2p_data key payload st) = p2_receive_queue st @ [p] \<and> rp_data p = pd_data payload \<and>
      (p2_incoming_queue_max_bytes st \<noteq> 0 \<longrightarrow>
        incoming_queued_bytes st + word_of_nat (length (pd_data payload)) \<le> p2_incoming_queue_max_bytes st))"
  by (simp add: on_p2p_data_def Let_def surface_request_def max_queue_size_unlimited_def not_less split: option.split)

lemma data_in_limit:
  assumes "p2_incoming_queue_max_bytes st \<noteq> 0" and "incoming_bytes st + 1170 < 2 ^ 64"
  shows "incoming_bytes (on_p2p_data key payload st) \<le> incoming_bytes st \<or>
    incoming_bytes (on_p2p_data key payload st) \<le> unat (p2_incoming_queue_max_bytes st)"
proof (cases "length (pd_data payload) \<le> 1170")
  case True
  then have small: "incoming_bytes st + length (pd_data payload) < 2 ^ 64" using assms by simp
  have joined: "incoming_queued_bytes st + word_of_nat (length (pd_data payload)) =
      word_of_nat (incoming_bytes st + length (pd_data payload))"
    by (simp only: incoming_queued_bytes_eq of_nat_add)
  have sum: "unat (incoming_queued_bytes st + word_of_nat (length (pd_data payload))) =
      incoming_bytes st + length (pd_data payload)"
    unfolding joined by (rule unat_of_nat_len [OF small])
  from data_queue [of key payload st] show ?thesis
  proof
    assume "p2_receive_queue (on_p2p_data key payload st) = p2_receive_queue st"
    then show ?thesis by (simp add: incoming_bytes_def)
  next
    assume "\<exists>p. p2_receive_queue (on_p2p_data key payload st) = p2_receive_queue st @ [p] \<and> rp_data p = pd_data payload \<and>
      (p2_incoming_queue_max_bytes st \<noteq> 0 \<longrightarrow>
        incoming_queued_bytes st + word_of_nat (length (pd_data payload)) \<le> p2_incoming_queue_max_bytes st)"
    then obtain p where "p2_receive_queue (on_p2p_data key payload st) = p2_receive_queue st @ [p]"
      "rp_data p = pd_data payload"
      and "incoming_queued_bytes st + word_of_nat (length (pd_data payload)) \<le> p2_incoming_queue_max_bytes st"
      using assms(1) by blast
    then show ?thesis using sum unfolding incoming_bytes_def word_le_nat_alt by simp
  qed
next
  case False
  then show ?thesis by (simp add: on_p2p_data_def max_packet_size_def)
qed

lemma data_limit [simp]:
  "p2_incoming_queue_max_bytes (on_p2p_data key payload st) = p2_incoming_queue_max_bytes st"
  by (simp add: on_p2p_data_def Let_def surface_request_def split: option.split)

text \<open>An operation that leaves fewer bytes waiting, or no more than the limit that holds after it.\<close>

definition grows_within :: "sdk_p2p \<Rightarrow> sdk_p2p \<Rightarrow> bool" where
  "grows_within st st' \<longleftrightarrow> incoming_bytes st' \<le> incoming_bytes st \<or>
     incoming_bytes st' \<le> unat (p2_incoming_queue_max_bytes st')"

definition keeps_limit :: "sdk_p2p \<Rightarrow> sdk_p2p \<Rightarrow> bool" where
  "keeps_limit st st' \<longleftrightarrow> p2_incoming_queue_max_bytes st' = p2_incoming_queue_max_bytes st \<and> grows_within st st'"

lemma within_keeps: "within_limit st st' \<Longrightarrow> keeps_limit st st'"
  by (simp add: within_limit_def keeps_limit_def grows_within_def)

lemma within_message:
  assumes "p2_incoming_queue_max_bytes st \<noteq> 0" and "incoming_bytes st + 1170 < 2 ^ 64"
  shows "keeps_limit st (snd (p2p_on_network_message dgram message st))"
proof -
  have request: "within_limit st (on_connect_request dgram key st)" for key
    by (rule within_same) (simp_all add: on_connect_request_def surface_request_def split: option.split connection_state.split)
  have response: "within_limit st (on_connect_response dgram key st)" for key
    by (rule within_same) (simp_all add: on_connect_response_def split: option.split)
  have closed: "within_limit st (on_connection_close key st)" for key
    by (simp add: on_connection_close_def within_limit_def incoming_bytes_def flush_packets_def sum_filter_le)
  have data: "keeps_limit st (on_p2p_data key payload st)" for key payload
    using data_in_limit [OF assms] by (simp add: keeps_limit_def grows_within_def)
  have none: "within_limit st st" by (simp add: within_limit_def)
  show ?thesis
    using data within_keeps [OF none] within_keeps [OF request] within_keeps [OF response] within_keeps [OF closed]
      within_keeps [OF within_close(2)]
    by (cases dgram message st rule: message_cases) simp_all
qed

text \<open>The limits a run of operations tries to set.\<close>

fun limits_set :: "p2p_op list \<Rightarrow> u64 list" where
  "limits_set [] = []"
| "limits_set (op_queue_size (Some (api, max_in, max_out)) # ops) = max_in # limits_set ops"
| "limits_set (_ # ops) = limits_set ops"

lemma limits_set_Cons: "limits_set (op # ops) = limits_set [op] @ limits_set ops"
  by (cases "[op]" rule: limits_set.cases) simp_all

lemma limit_step:
  assumes "p2_incoming_queue_max_bytes st \<noteq> 0" and "incoming_bytes st + 1170 < 2 ^ 64"
  shows "grows_within st (p2p_do dgram st op) \<and>
    p2_incoming_queue_max_bytes (p2p_do dgram st op) \<in> set (p2_incoming_queue_max_bytes st # limits_set [op])"
proof -
  have keeps: ?thesis if "keeps_limit st (p2p_do dgram st op)" using that by (simp add: keeps_limit_def)
  have within: ?thesis if "within_limit st (p2p_do dgram st op)" using keeps [OF within_keeps [OF that]] .
  show ?thesis
  proof (cases op)
    case (op_message message)
    with within_message [OF assms, of dgram message] show ?thesis by (intro keeps) simp
  next
    case (op_close options)
    then show ?thesis using within_close(1) 
      by (intro within, cases options) (simp_all add: close_connection_def Let_def within_same)
  next
    case (op_close_all options)
    then show ?thesis using within_close_all
      by (intro within, cases options) (simp_all add: close_connections_def Let_def within_same)
  next
    case (op_clear options)
    have "within_limit st (discard_delayed peer socket (flush_packets peer socket st))" for peer socket
      by (simp add: within_limit_def discard_delayed_def flush_packets_def incoming_bytes_def sum_filter_le)
    with op_clear show ?thesis
      by (intro within, cases options) (simp_all add: clear_packet_queue_def Let_def within_same)
  next
    case (op_send options)
    then show ?thesis by (intro within) (simp add: within_send)
  next
    case (op_accept options)
    then show ?thesis by (intro within) (simp add: within_accept)
  next
    case (op_receive options outs)
    then show ?thesis by (intro within) (simp add: within_receive)
  next
    case (op_queue_size options)
    then show ?thesis
      by (cases options) (auto simp: set_packet_queue_size_def grows_within_def incoming_bytes_def Let_def split: prod.splits)
  qed (simp_all add: grows_within_def p2p_emu_init_def p2p_emu_deinit_def clear_receive_queue_def incoming_bytes_def)
qed

lemma limits_run:
  assumes "bound + 1170 < (2::nat) ^ 64" and "incoming_bytes st \<le> bound"
    and "\<forall>limit\<in>set (p2_incoming_queue_max_bytes st # limits_set ops). limit \<noteq> 0 \<and> unat limit \<le> bound"
  shows "incoming_bytes (run (p2p_do dgram) st ops) \<le> bound \<and>
    p2_incoming_queue_max_bytes (run (p2p_do dgram) st ops) \<in> set (p2_incoming_queue_max_bytes st # limits_set ops)"
  using assms(2,3)
proof (induction ops arbitrary: st)
  case (Cons op ops)
  from Cons.prems assms(1) have now: "p2_incoming_queue_max_bytes st \<noteq> 0" "incoming_bytes st + 1170 < 2 ^ 64" by auto
  define after where "after = p2p_do dgram st op"
  from limit_step [OF now, of dgram op] have step: "grows_within st after"
    "p2_incoming_queue_max_bytes after \<in> set (p2_incoming_queue_max_bytes st # limits_set [op])"
    unfolding after_def by blast+
  have all: "set (p2_incoming_queue_max_bytes after # limits_set ops) \<subseteq> set (p2_incoming_queue_max_bytes st # limits_set (op # ops))"
    using step(2) by (subst limits_set_Cons) auto
  then have limits: "\<forall>limit\<in>set (p2_incoming_queue_max_bytes after # limits_set ops). limit \<noteq> 0 \<and> unat limit \<le> bound"
    using Cons.prems(2) by blast
  then have "unat (p2_incoming_queue_max_bytes after) \<le> bound" by simp
  with step(1) Cons.prems(1) have "incoming_bytes after \<le> bound" by (auto simp: grows_within_def)
  from Cons.IH [OF this limits] all show ?case by (auto simp: after_def)
qed simp

text \<open>C19. Let a game always keep a limit on its incoming queue: the one in force and every one it sets from
  then on is not 0 (which is no limit) and at most a bound that is a packet or more below 2^64,
  and let no more than the bound wait at first.  Then no more than the bound ever waits, and no
  operation, whatever peers send and the game calls, leaves more bytes waiting than before unless
  all of them fit the limit in force: a limit set below what waits already keeps those packets
  and adds none.\<close>

theorem incoming_queue_stays_bounded:
  assumes "bound + 1170 < (2::nat) ^ 64" and "incoming_bytes st \<le> bound"
    and "\<forall>limit\<in>set (p2_incoming_queue_max_bytes st # limits_set ops). limit \<noteq> 0 \<and> unat limit \<le> bound"
    and "later = run (p2p_do dgram) st ops"
  shows "incoming_bytes later \<le> bound \<and>
    (incoming_bytes (p2p_do dgram later op) \<le> incoming_bytes later \<or>
     incoming_bytes (p2p_do dgram later op) \<le> unat (p2_incoming_queue_max_bytes (p2p_do dgram later op)))"
proof -
  from limits_run [OF assms(1-3), of dgram] have later: "incoming_bytes later \<le> bound"
    "p2_incoming_queue_max_bytes later \<in> set (p2_incoming_queue_max_bytes st # limits_set ops)"
    unfolding assms(4) by blast+
  have "p2_incoming_queue_max_bytes later \<noteq> 0" using bspec [OF assms(3) later(2)] by blast
  moreover have "incoming_bytes later + 1170 < 2 ^ 64" using le_less_trans [OF add_right_mono [OF later(1)] assms(1)] .
  ultimately show ?thesis using limit_step [of later dgram op] later(1) unfolding grows_within_def by blast
qed

text \<open>A limit of four bytes; three wait when the game makes it one byte, and Bob sends one more.\<close>

definition crowded :: sdk_p2p where
  "crowded = run (p2p_do (\<lambda>_ _ _. False)) (alice_asked\<lparr>p2_incoming_queue_max_bytes := 4\<rparr>)
     [from_bob mt_p2p_data 1 [1, 2, 3], op_queue_size (Some (1, 1, 1))]"

theorem incoming_queue_stays_bounded_witness:
  "incoming_bytes crowded \<le> 4 \<and>
   (incoming_bytes (p2p_do (\<lambda>_ _ _. False) crowded (from_bob mt_p2p_data 1 [7])) \<le> incoming_bytes crowded \<or>
    incoming_bytes (p2p_do (\<lambda>_ _ _. False) crowded (from_bob mt_p2p_data 1 [7]))
      \<le> unat (p2_incoming_queue_max_bytes (p2p_do (\<lambda>_ _ _. False) crowded (from_bob mt_p2p_data 1 [7]))))"
proof (rule incoming_queue_stays_bounded [OF _ _ _ crowded_def])
  show "incoming_bytes (alice_asked\<lparr>p2_incoming_queue_max_bytes := 4\<rparr>) \<le> 4"
    by (simp add: alice_asked_def new_sdk_p2p_def incoming_bytes_def)
  show "\<forall>limit\<in>set (p2_incoming_queue_max_bytes (alice_asked\<lparr>p2_incoming_queue_max_bytes := 4\<rparr>) #
      limits_set [from_bob mt_p2p_data 1 [1, 2, 3], op_queue_size (Some (1, 1, 1))]). limit \<noteq> 0 \<and> unat limit \<le> 4"
    by (simp add: from_bob_def)
qed simp

end
