(* ===== verification/Identity.thy ===== *)
theory Identity
  imports Secure_Channel Handles
begin

text \<open>
  \<^verbatim>\<open>core/identity.cpp\<close>: the profile key, the ids a key certifies, the hex export and the
  profile file.  The file system, its locks and the secure random source are parameters; a file is
  its text.
\<close>

section \<open>Hex\<close>

definition hex_digits :: string where
  "hex_digits = ''0123456789abcdef''"

definition to_hex :: "bytes \<Rightarrow> string" where
  "to_hex data = concat (map (\<lambda>b. [hex_digits ! unat (drop_bit 4 b AND 0xf), hex_digits ! unat (b AND 0xf)]) data)"

definition hex_digit :: "char \<Rightarrow> nat option" where
  "hex_digit c =
     (if CHR ''0'' \<le> c \<and> c \<le> CHR ''9'' then Some (of_char c - of_char (CHR ''0''))
      else if CHR ''a'' \<le> c \<and> c \<le> CHR ''f'' then Some (10 + (of_char c - of_char (CHR ''a'')))
      else if CHR ''A'' \<le> c \<and> c \<le> CHR ''F'' then Some (10 + (of_char c - of_char (CHR ''A'')))
      else None)"

fun from_hex_loop :: "string \<Rightarrow> bytes option" where
  "from_hex_loop (a # b # text) =
     (case (hex_digit a, hex_digit b) of
        (Some high, Some low) \<Rightarrow> map_option (Cons (push_bit 4 (word_of_nat high) OR word_of_nat low)) (from_hex_loop text)
      | _ \<Rightarrow> None)"
| "from_hex_loop _ = Some []"

definition from_hex :: "string \<Rightarrow> nat \<Rightarrow> bytes option" where
  "from_hex text len = (if length text \<noteq> len * 2 then None else from_hex_loop text)"

section \<open>Ids\<close>

definition profile_key_len :: nat where "profile_key_len = 32"
definition max_local_profiles :: nat where "max_local_profiles = 10"
definition id_bytes :: nat where "id_bytes = 16"
definition profile_domain :: string where "profile_domain = ''eosr-profile-v1''"
definition eaid_domain :: string where "eaid_domain = ''eosr-eaid-v1''"
definition puid_domain :: string where "puid_domain = ''eosr-puid-v1''"

definition profile_hash :: "bytes \<Rightarrow> bytes" where
  "profile_hash public_key = sha256 (enc_text profile_domain @ enc_field public_key)"

definition id_from :: "bytes \<Rightarrow> string" where
  "id_from encoded = to_hex (take id_bytes (sha256 encoded))"

definition derive_epic_account_id :: "bytes \<Rightarrow> string" where
  "derive_epic_account_id public_key = id_from (enc_text eaid_domain @ enc_field (profile_hash public_key))"

definition derive_product_user_id :: "bytes \<Rightarrow> string \<Rightarrow> string \<Rightarrow> string \<Rightarrow> string" where
  "derive_product_user_id public_key product_id sandbox_id deployment_id =
     id_from (enc_text puid_domain @ enc_field (profile_hash public_key) @ enc_text product_id @
       enc_text sandbox_id @ enc_text deployment_id)"

section \<open>The profile file\<close>

definition comment_first :: string where
  "comment_first = ''# EOS Reimagined profile. This key is your identity: keep it secret, and back it up -- there''"

definition comment_second :: string where
  "comment_second = ''# is nobody who can reissue it. Copy this file to another machine to be the same player there.''"

definition profile_comment :: string where
  "profile_comment = comment_first @ [CHR 0x0A] @ comment_second"

definition profile_path :: "string \<Rightarrow> nat \<Rightarrow> string \<Rightarrow> string" where
  "profile_path directory slot extension =
     directory @ ''/profile'' @ (if slot \<noteq> 0 then [CHR ''-'', char_of (of_char (CHR ''0'') + slot)] else []) @ extension"

text \<open>\<^verbatim>\<open>std::getline\<close>: a newline at the end of the file opens no further line.\<close>

fun getlines :: "string \<Rightarrow> string \<Rightarrow> string list" where
  "getlines line [] = (if line = [] then [] else [line])"
| "getlines line (c # text) = (if c = CHR 0x0A then line # getlines [] text else getlines (line @ [c]) text)"

definition strip_line :: "string \<Rightarrow> string" where
  "strip_line line = rev (dropWhile (\<lambda>c. c = CHR 0x0D \<or> c = CHR '' '') (rev line))"

definition key_prefix :: string where
  "key_prefix = ''key ''"

fun read_profile_lines :: "string list \<Rightarrow> bytes option" where
  "read_profile_lines [] = None"
| "read_profile_lines (line # lines) =
     (let line = strip_line line
      in if line = [] \<or> hd line = CHR ''#'' \<or> take (length key_prefix) line \<noteq> key_prefix
         then read_profile_lines lines
         else from_hex (drop (length key_prefix) line) profile_key_len)"

definition read_profile :: "string option \<Rightarrow> bytes option" where
  "read_profile file = (case file of None \<Rightarrow> None | Some text \<Rightarrow> read_profile_lines (getlines [] text))"

definition profile_text :: "bytes \<Rightarrow> string" where
  "profile_text secret = profile_comment @ [CHR 0x0A] @ key_prefix @ to_hex secret @ [CHR 0x0A]"

section \<open>The identity\<close>

record identity =
  idn_secret :: bytes
  idn_public :: bytes
  idn_has_key :: bool
  idn_persistent :: bool
  idn_slot :: "string option"
  idn_product_id :: string
  idn_sandbox_id :: string
  idn_deployment_id :: string
  idn_epic_account_id :: string
  idn_product_user_id :: string

definition new_identity :: identity where
  "new_identity = \<lparr>idn_secret = replicate 32 0, idn_public = replicate 32 0, idn_has_key = False,
     idn_persistent = False, idn_slot = None, idn_product_id = [], idn_sandbox_id = [], idn_deployment_id = [],
     idn_epic_account_id = [], idn_product_user_id = []\<rparr>"

definition rederive :: "identity \<Rightarrow> identity" where
  "rederive i =
     (if \<not> idn_has_key i then i\<lparr>idn_epic_account_id := [], idn_product_user_id := []\<rparr>
      else i\<lparr>idn_epic_account_id := derive_epic_account_id (idn_public i),
             idn_product_user_id := derive_product_user_id (idn_public i) (idn_product_id i) (idn_sandbox_id i)
               (idn_deployment_id i)\<rparr>)"

definition adopt_key :: "x25519 \<Rightarrow> bytes \<Rightarrow> identity \<Rightarrow> bool \<times> identity" where
  "adopt_key X secret i =
     (if foldl (OR) 0 secret = 0 then (False, i)
      else (True, rederive (i\<lparr>idn_secret := secret, idn_public := x25519_public_key X secret, idn_has_key := True\<rparr>)))"

definition generate_ephemeral :: "x25519 \<Rightarrow> bytes option \<Rightarrow> identity \<Rightarrow> bool \<times> identity" where
  "generate_ephemeral X random i =
     (case random of
        None \<Rightarrow> (False, i\<lparr>idn_persistent := False\<rparr>)
      | Some secret \<Rightarrow> (case adopt_key X secret i of (ok, i') \<Rightarrow> (ok, i'\<lparr>idn_persistent := False\<rparr>)))"

record profile_files =
  pf_make_directories :: "string \<Rightarrow> bool"
  pf_acquire :: "string \<Rightarrow> bool"
  pf_read :: "string \<Rightarrow> string option"
  pf_random :: "bytes option"
  pf_write :: "string \<Rightarrow> string \<Rightarrow> bool"

text \<open>What a slot we hold comes to: its key, or a fresh one written to it.  Also the text written.\<close>

definition use_slot :: "x25519 \<Rightarrow> profile_files \<Rightarrow> string \<Rightarrow> nat \<Rightarrow> identity \<Rightarrow> bool \<times> identity \<times> (string \<times> string) option" where
  "use_slot X fs directory slot i =
     (let key_path = profile_path directory slot ''.key'';
          held = i\<lparr>idn_slot := Some (profile_path directory slot ''.lock'')\<rparr>;
          found = (case read_profile (pf_read fs key_path) of None \<Rightarrow> (False, held) | Some secret \<Rightarrow> adopt_key X secret held)
      in if fst found then (True, (snd found)\<lparr>idn_persistent := True\<rparr>, None)
         else
           case pf_random fs of
             None \<Rightarrow> (False, held\<lparr>idn_slot := None\<rparr>, None)
           | Some secret \<Rightarrow>
               (case adopt_key X secret held of
                  (False, i') \<Rightarrow> (False, i'\<lparr>idn_slot := None\<rparr>, None)
                | (True, i') \<Rightarrow>
                    (True, i'\<lparr>idn_persistent := pf_write fs key_path (profile_text secret)\<rparr>,
                     if pf_write fs key_path (profile_text secret) then Some (key_path, profile_text secret) else None)))"

fun try_slots :: "x25519 \<Rightarrow> profile_files \<Rightarrow> string \<Rightarrow> nat list \<Rightarrow> identity \<Rightarrow> bool \<times> identity \<times> (string \<times> string) option" where
  "try_slots X fs directory [] i = (False, i, None)"
| "try_slots X fs directory (slot # slots) i =
     (if \<not> pf_acquire fs (profile_path directory slot ''.lock'') then try_slots X fs directory slots i
      else use_slot X fs directory slot i)"

definition load_or_create :: "x25519 \<Rightarrow> profile_files \<Rightarrow> string \<Rightarrow> identity \<Rightarrow> bool \<times> identity \<times> (string \<times> string) option" where
  "load_or_create X fs directory i =
     (if directory = [] \<or> \<not> pf_make_directories fs directory then (False, i, None)
      else try_slots X fs directory [0..<max_local_profiles] i)"

definition bind_product :: "string \<Rightarrow> string \<Rightarrow> string \<Rightarrow> identity \<Rightarrow> identity" where
  "bind_product product_id sandbox_id deployment_id i =
     rederive (i\<lparr>idn_product_id := product_id, idn_sandbox_id := sandbox_id, idn_deployment_id := deployment_id\<rparr>)"

definition export_key :: "identity \<Rightarrow> string" where
  "export_key i = (if \<not> idn_has_key i then [] else to_hex (idn_secret i))"

definition import_key :: "x25519 \<Rightarrow> string \<Rightarrow> identity \<Rightarrow> bool \<times> identity" where
  "import_key X hex i =
     (case from_hex hex profile_key_len of
        None \<Rightarrow> (False, i)
      | Some secret \<Rightarrow>
          (case adopt_key X secret i of (True, i') \<Rightarrow> (True, i'\<lparr>idn_persistent := False\<rparr>) | (False, i') \<Rightarrow> (False, i')))"

section \<open>Keys survive their hex form\<close>

lemma hex_digit_all: "\<forall>n\<in>set [0..<16]. hex_digit (hex_digits ! n) = Some n"
  by code_simp

lemma hex_digit_nibble: "n < 16 \<Longrightarrow> hex_digit (hex_digits ! n) = Some n"
  using hex_digit_all by simp

lemma nibble_less: "unat (b AND 0xf :: u8) < 16"
proof -
  have "b AND 0xf = take_bit 4 b" by (simp add: take_bit_eq_mask mask_eq_exp_minus_1)
  then have "unat (b AND 0xf) = take_bit 4 (unat b)" by (simp add: unsigned_take_bit_eq)
  then show ?thesis by (simp add: take_bit_eq_mod)
qed

lemma nibbles: "push_bit 4 (drop_bit 4 b AND 0xf) OR (b AND 0xf) = (b :: u8)"
proof (rule bit_word_eqI)
  fix n
  assume "n < LENGTH(8)"
  then have "n \<in> {0, 1, 2, 3, 4, 5, 6, 7}" by auto
  then show "bit (push_bit 4 (drop_bit 4 b AND 0xf) OR (b AND 0xf)) n \<longleftrightarrow> bit b n"
    by (auto simp: bit_simps mask_eq_exp_minus_1 [of 4, symmetric, simplified])
qed

lemma length_to_hex [simp]: "length (to_hex data) = 2 * length data"
  by (induction data) (simp_all add: to_hex_def)

lemma from_to_hex: "from_hex_loop (to_hex data) = Some data"
proof (induction data)
  case (Cons b data)
  then show ?case using nibbles [of b]
    by (simp add: to_hex_def hex_digit_nibble nibble_less)
qed (simp add: to_hex_def)

lemma from_hex_to_hex [simp]: "length data = len \<Longrightarrow> from_hex (to_hex data) len = Some data"
  by (simp add: from_hex_def from_to_hex)

section \<open>The profile file survives\<close>

lemma getlines_line: "CHR 0x0A \<notin> set line \<Longrightarrow> getlines start (line @ CHR 0x0A # text) = (start @ line) # getlines [] text"
  by (induction line arbitrary: start) auto

lemma hex_digits_plain: "\<forall>n\<in>set [0..<16]. hex_digits ! n \<notin> {CHR 0x0A, CHR 0x0D, CHR '' ''}"
  by code_simp

lemma to_hex_plain: "c \<in> set (to_hex data) \<Longrightarrow> c \<notin> {CHR 0x0A, CHR 0x0D, CHR '' ''}"
proof -
  assume "c \<in> set (to_hex data)"
  then have "\<exists>n<16. c = hex_digits ! n" using nibble_less by (auto simp: to_hex_def)
  then show ?thesis using hex_digits_plain by force
qed

lemma strip_line_plain: "line \<noteq> [] \<Longrightarrow> last line \<noteq> CHR 0x0D \<Longrightarrow> last line \<noteq> CHR '' '' \<Longrightarrow> strip_line line = line"
  by (cases "rev line") (auto simp: strip_line_def last_rev [symmetric] rev_swap)

lemma comment_plain: "CHR 0x0A \<notin> set comment_first" "CHR 0x0A \<notin> set comment_second"
  by (simp_all add: comment_first_def comment_second_def)

lemma comment_skipped:
  "read_profile_lines (comment_first # lines) = read_profile_lines lines"
  "read_profile_lines (comment_second # lines) = read_profile_lines lines"
proof -
  have "strip_line comment_first = comment_first" "strip_line comment_second = comment_second"
    by (rule strip_line_plain; simp add: comment_first_def comment_second_def)+
  moreover have "hd comment_first = CHR ''#''" "hd comment_second = CHR ''#''"
    by (simp_all add: comment_first_def comment_second_def)
  ultimately show "read_profile_lines (comment_first # lines) = read_profile_lines lines"
    "read_profile_lines (comment_second # lines) = read_profile_lines lines"
    by (simp_all add: Let_def)
qed

lemma profile_file_reads:
  assumes "length secret = 32"
  shows "read_profile (Some (profile_text secret)) = Some secret"
proof -
  define line where "line = key_prefix @ to_hex secret"
  have hex: "to_hex secret \<noteq> []" using assms length_to_hex [of secret] by (metis list.size(3) mult_eq_0_iff zero_neq_numeral)
  have plain: "CHR 0x0A \<notin> set line" using to_hex_plain by (auto simp: line_def key_prefix_def)
  have "last line \<in> set (to_hex secret)" using hex by (simp add: line_def)
  then have strip: "strip_line line = line"
    using to_hex_plain [of "last line" secret] by (intro strip_line_plain) (auto simp: line_def key_prefix_def)
  have parts: "profile_text secret = comment_first @ CHR 0x0A # comment_second @ CHR 0x0A # line @ CHR 0x0A # []"
    by (simp add: profile_text_def line_def profile_comment_def)
  have "getlines [] (profile_text secret) = [comment_first, comment_second, line]"
    unfolding parts using comment_plain plain by (simp add: getlines_line)
  then show ?thesis
    using strip assms unfolding read_profile_def option.case
    by (simp only: comment_skipped) (simp add: Let_def, simp add: line_def key_prefix_def profile_key_len_def)
qed

text \<open>C22. The player is the same the next time: when a first run minted a key and could write its
  profile, a later run that gets the same slot and reads the file back has the same key, and so the
  same ids for every title.\<close>

theorem same_player_next_run:
  assumes "load_or_create X fs directory i = (True, j, Some (path, text))"
    and "pf_make_directories fs' directory" and "pf_acquire fs' = pf_acquire fs"
    and "pf_read fs' path = Some text" and "\<forall>secret. pf_random fs = Some secret \<longrightarrow> length secret = 32"
  shows "case load_or_create X fs' directory i' of (ok, j', written) \<Rightarrow>
    ok \<and> written = None \<and> idn_persistent j' \<and> idn_public j' = idn_public j \<and>
    idn_epic_account_id j' = idn_epic_account_id j \<and>
    idn_product_user_id (bind_product p s d j') = idn_product_user_id (bind_product p s d j)"
proof -
  have "try_slots X fs directory slots i = (True, j, Some (path, text)) \<Longrightarrow>
    case try_slots X fs' directory slots i' of (ok, j', written) \<Rightarrow>
      ok \<and> written = None \<and> idn_persistent j' \<and> idn_public j' = idn_public j \<and> idn_has_key j' \<and> idn_has_key j \<and>
      idn_epic_account_id j' = idn_epic_account_id j" for slots
  proof (induction slots)
    case (Cons slot slots)
    show ?case
    proof (cases "pf_acquire fs (profile_path directory slot ''.lock'')")
      case True
      then have used: "use_slot X fs directory slot i = (True, j, Some (path, text))" using Cons.prems by simp
      define held where "held = i\<lparr>idn_slot := Some (profile_path directory slot ''.lock'')\<rparr>"
      obtain secret where secret: "pf_random fs = Some secret" "path = profile_path directory slot ''.key''"
          "text = profile_text secret" "foldl (OR) 0 secret \<noteq> 0"
          "j = (snd (adopt_key X secret held))\<lparr>idn_persistent := True\<rparr>"
        using used unfolding use_slot_def Let_def held_def
        by (auto simp: adopt_key_def split: if_splits option.splits)
      then have "read_profile (pf_read fs' path) = Some secret"
        using assms(4,5) by (simp add: profile_file_reads)
      with secret True assms(3) show ?thesis
        by (simp add: use_slot_def adopt_key_def rederive_def)
    next
      case False
      with Cons assms(3) show ?thesis by simp
    qed
  qed simp
  from this [of "[0..<max_local_profiles]"] assms(1,2) show ?thesis
    by (auto simp: load_or_create_def bind_product_def rederive_def split: if_splits)
qed

definition example_x25519 :: x25519 where
  "example_x25519 = \<lparr>xk_public = rev, xk_shared = (\<lambda>_ _. replicate 32 1)\<rparr>"

definition fresh_files :: profile_files where
  "fresh_files = \<lparr>pf_make_directories = (\<lambda>_. True), pf_acquire = (\<lambda>_. True), pf_read = (\<lambda>_. None),
     pf_random = Some (replicate 31 0 @ [1]), pf_write = (\<lambda>_ _. True)\<rparr>"

definition kept_files :: profile_files where
  "kept_files = fresh_files\<lparr>pf_read := (\<lambda>_. Some (profile_text (replicate 31 0 @ [1])))\<rparr>"

lemma first_run: "load_or_create example_x25519 fresh_files ''d'' new_identity =
    (True, (snd (adopt_key example_x25519 (replicate 31 0 @ [1])
       (new_identity\<lparr>idn_slot := Some ''d/profile.lock''\<rparr>)))\<lparr>idn_persistent := True\<rparr>,
     Some (''d/profile.key'', profile_text (replicate 31 0 @ [1])))"
proof -
  have "foldl (OR) 0 (replicate 31 0 @ [1 :: u8]) \<noteq> 0" by (simp add: numeral_eq_Suc)
  then show ?thesis
    by (simp add: load_or_create_def max_local_profiles_def upt_rec [of 0] fresh_files_def use_slot_def read_profile_def
        profile_path_def adopt_key_def)
qed

theorem same_player_next_run_witness:
  "case load_or_create example_x25519 kept_files ''d'' new_identity of (ok, j', written) \<Rightarrow>
     ok \<and> written = None \<and> idn_public j' = 1 # replicate 31 0"
  using same_player_next_run [OF first_run, where fs' = kept_files and i' = new_identity]
  by (auto simp: kept_files_def fresh_files_def adopt_key_def rederive_def x25519_public_key_def example_x25519_def
      numeral_eq_Suc)

text \<open>Exporting a profile and importing the text on another instance carries the player over: the
  same key, and so the same ids there.\<close>

theorem exported_key_is_the_player:
  assumes "adopt_key X secret i = (True, j)" and "length secret = 32"
  shows "case import_key X (export_key j) i' of (ok, j') \<Rightarrow>
    ok \<and> idn_secret j' = idn_secret j \<and> idn_public j' = idn_public j \<and>
    idn_epic_account_id j' = idn_epic_account_id j \<and> export_key j' = export_key j"
proof -
  have "j = rederive (i\<lparr>idn_secret := secret, idn_public := x25519_public_key X secret, idn_has_key := True\<rparr>)"
    and "foldl (OR) 0 secret \<noteq> 0"
    using assms(1) by (auto simp: adopt_key_def split: if_splits)
  with assms(2) show ?thesis
    by (simp add: import_key_def export_key_def rederive_def adopt_key_def profile_key_len_def)
qed

theorem exported_key_is_the_player_witness:
  "case import_key example_x25519 (export_key (snd (adopt_key example_x25519 (replicate 31 0 @ [1]) new_identity)))
      new_identity of (ok, j') \<Rightarrow> ok \<and> idn_secret j' = replicate 31 0 @ [1]"
proof -
  have adopted: "adopt_key example_x25519 (replicate 31 0 @ [1]) new_identity =
      (True, snd (adopt_key example_x25519 (replicate 31 0 @ [1]) new_identity))"
    by (simp add: adopt_key_def numeral_eq_Suc)
  from exported_key_is_the_player [OF adopted, of new_identity] show ?thesis
    by (auto simp: adopt_key_def rederive_def numeral_eq_Suc)
qed

end
