(* ===== verification/Router.thy ===== *)
theory Router
  imports Identity Peer_Channel Wire Framing
begin

text \<open>
  \<^verbatim>\<open>net/message_router.cpp\<close>, the data and the sending half: peers, handshakes and dials, the
  outboxes, sealed frames and datagrams, and the dispatch of messages to listeners.

  Sockets, clock and random source are a \<open>net_env\<close>: every answer is a function of the log of
  what the router did so far, and every question is logged, so an environment may answer each
  one as it likes.  Deliveries to listeners are log entries too.
\<close>

section \<open>Sockets and their environment\<close>

record endpoint =
  ep_ip :: u32
  ep_port :: u16

definition ip_any :: u32 where "ip_any = 0"
definition ip_loopback :: u32 where "ip_loopback = 0x7f000001"

datatype sock_error = sock_none | sock_would_block | sock_in_progress | sock_is_connected | sock_other

datatype sock = s_udp | s_mesh | s_self_send | s_self_recv | s_pipe_listener | s_conn nat

datatype sock_call =
    sc_open_udp sock | sc_open_tcp sock | sc_set_broadcast sock | sc_set_reuseaddr sock
  | sc_set_nonblocking sock | sc_bind sock endpoint | sc_local_endpoint sock | sc_listen sock nat
  | sc_connect sock endpoint | sc_poll sock nat | sc_accept sock sock

datatype net_io =
    io_call sock_call
  | io_connect sock endpoint
  | io_send sock bytes
  | io_read sock
  | io_send_to endpoint bytes
  | io_accept
  | io_datagrams
  | io_clock
  | io_random
  | io_close sock
  | io_deliver nat net_envelope

text \<open>What successive \<^verbatim>\<open>recv\<close> calls of one reading loop bring: bytes, or a count of zero or less.\<close>

datatype recv_outcome = rc_bytes bytes | rc_hangup | rc_error sock_error

text \<open>What a listener may do to the router while it handles a message.\<close>

datatype router_call =
    rq_send net_envelope
  | rq_send_datagram string bytes
  | rq_register message_type nat
  | rq_unregister message_type nat

type_synonym history = "net_io list"

record net_env =
  ne_now :: "history \<Rightarrow> msec"
  ne_random :: "history \<Rightarrow> bytes option"
  ne_call :: "history \<Rightarrow> sock_call \<Rightarrow> bool"
  ne_local_port :: "history \<Rightarrow> sock \<Rightarrow> u16"
  ne_connect :: "history \<Rightarrow> sock \<Rightarrow> endpoint \<Rightarrow> bool \<times> sock_error"
  ne_send :: "history \<Rightarrow> sock \<Rightarrow> bytes \<Rightarrow> int \<times> sock_error"
  ne_send_to :: "history \<Rightarrow> endpoint \<Rightarrow> bytes \<Rightarrow> int"
  ne_reads :: "history \<Rightarrow> sock \<Rightarrow> recv_outcome list"
  ne_accepts :: "history \<Rightarrow> endpoint list"
  ne_datagrams :: "history \<Rightarrow> (bytes \<times> endpoint) list"
  ne_broadcast_addresses :: "u32 list"
  ne_react :: "history \<Rightarrow> nat \<Rightarrow> net_envelope \<Rightarrow> router_call list"
  ne_x25519 :: x25519

section \<open>State\<close>

definition datagram_discovery :: u8 where "datagram_discovery = 0x01"
definition datagram_p2p :: u8 where "datagram_p2p = 0x02"
definition datagram_header_len :: nat where "datagram_header_len = 1 + 4 + 8"
definition default_discovery_port_first :: u16 where "default_discovery_port_first = 55789"
definition default_discovery_port_last :: u16 where "default_discovery_port_last = 55798"
definition self_pipe_accept_timeout_ms :: nat where "self_pipe_accept_timeout_ms = 1000"
definition mesh_backlog :: nat where "mesh_backlog = 16"
definition advertise_interval :: msec where "advertise_interval = 2000"
definition peer_timeout :: msec where "peer_timeout = 10000"
definition dial_timeout :: msec where "dial_timeout = 5000"
definition handshake_timeout :: msec where "handshake_timeout = 5000"
definition max_outbox_bytes :: nat where "max_outbox_bytes = 4 * 1024 * 1024"

record net_config =
  nc_port_first :: u16
  nc_port_last :: u16
  nc_broadcast_addresses :: "u32 list"

definition new_net_config :: net_config where
  "new_net_config = \<lparr>nc_port_first = default_discovery_port_first,
     nc_port_last = default_discovery_port_last, nc_broadcast_addresses = []\<rparr>"

record mesh_peer =
  mp_connection :: sock
  mp_buffer :: bytes
  mp_outbox :: bytes
  mp_channel :: peer_channel
  mp_epic_id :: string
  mp_datagram_addr :: endpoint
  mp_last_seen :: msec

record handshaking_peer =
  hp_connection :: sock
  hp_buffer :: bytes
  hp_outbox :: bytes
  hp_channel :: peer_channel
  hp_expected_id :: string
  hp_remote :: endpoint
  hp_started_at :: msec

record dialing_peer =
  di_connection :: sock
  di_address :: endpoint
  di_started_at :: msec

text \<open>\<open>mr_next_conn\<close> names the next connection's socket object; listeners are numbers.\<close>

record message_router =
  mr_config :: net_config
  mr_product_user_id :: string
  mr_game_id :: string
  mr_sandbox_id :: string
  mr_deployment_id :: string
  mr_static_priv :: bytes
  mr_static_pub :: bytes
  mr_have_profile :: bool
  mr_prologue :: bytes
  mr_discovery_port :: u16
  mr_mesh_port :: u16
  mr_self_buffer :: bytes
  mr_peers :: "(string, mesh_peer) omap"
  mr_handshaking :: "handshaking_peer list"
  mr_dialing :: "(string, dialing_peer) omap"
  mr_last_advertise :: msec
  mr_listeners :: "(u16, nat list) omap"
  mr_datagrams_sent :: u64
  mr_datagrams_received :: u64
  mr_running :: bool
  mr_next_conn :: nat
  mr_io :: history

definition new_message_router :: message_router where
  "new_message_router = \<lparr>mr_config = new_net_config, mr_product_user_id = [], mr_game_id = [],
     mr_sandbox_id = [], mr_deployment_id = [], mr_static_priv = replicate 32 0,
     mr_static_pub = replicate 32 0, mr_have_profile = False, mr_prologue = [], mr_discovery_port = 0,
     mr_mesh_port = 0, mr_self_buffer = [], mr_peers = [], mr_handshaking = [], mr_dialing = [],
     mr_last_advertise = 0, mr_listeners = [], mr_datagrams_sent = 0, mr_datagrams_received = 0,
     mr_running = False, mr_next_conn = 0, mr_io = []\<rparr>"

definition log_io :: "net_io \<Rightarrow> message_router \<Rightarrow> message_router" where
  "log_io e mr = mr\<lparr>mr_io := mr_io mr @ [e]\<rparr>"

definition clock :: "net_env \<Rightarrow> message_router \<Rightarrow> msec \<times> message_router" where
  "clock E mr = (ne_now E (mr_io mr), log_io io_clock mr)"

definition random_key :: "net_env \<Rightarrow> message_router \<Rightarrow> bytes option \<times> message_router" where
  "random_key E mr = (ne_random E (mr_io mr), log_io io_random mr)"

definition put_peer :: "string \<Rightarrow> mesh_peer \<Rightarrow> message_router \<Rightarrow> message_router" where
  "put_peer peer_id p mr = mr\<lparr>mr_peers := om_put peer_id p (mr_peers mr)\<rparr>"

section \<open>Identity and listeners\<close>

definition id_of_key :: "bytes \<Rightarrow> message_router \<Rightarrow> string" where
  "id_of_key public_key mr =
     derive_product_user_id public_key (mr_game_id mr) (mr_sandbox_id mr) (mr_deployment_id mr)"

definition set_identity :: "identity \<Rightarrow> string \<Rightarrow> string \<Rightarrow> string \<Rightarrow> message_router \<Rightarrow> message_router" where
  "set_identity profile product_id sandbox_id deployment_id mr =
     (let mr = mr\<lparr>mr_game_id := product_id, mr_sandbox_id := sandbox_id, mr_deployment_id := deployment_id,
                  mr_have_profile := idn_has_key profile\<rparr>
      in if \<not> idn_has_key profile then mr\<lparr>mr_product_user_id := []\<rparr>
         else mr\<lparr>mr_static_priv := idn_secret profile, mr_static_pub := idn_public profile,
                 mr_product_user_id := id_of_key (idn_public profile) mr,
                 mr_prologue := mesh_prologue product_id sandbox_id deployment_id\<rparr>)"

definition set_config :: "net_config \<Rightarrow> message_router \<Rightarrow> message_router" where
  "set_config config mr = mr\<lparr>mr_config := config\<rparr>"

definition listeners_of :: "u16 \<Rightarrow> message_router \<Rightarrow> nat list" where
  "listeners_of tag mr = (case om_find tag (mr_listeners mr) of None \<Rightarrow> [] | Some bucket \<Rightarrow> bucket)"

definition register_listener :: "message_type \<Rightarrow> nat \<Rightarrow> message_router \<Rightarrow> message_router" where
  "register_listener type listener mr =
     (let bucket = listeners_of (tag_of type) mr
      in mr\<lparr>mr_listeners := om_put (tag_of type)
           (if listener \<in> set bucket then bucket else bucket @ [listener]) (mr_listeners mr)\<rparr>)"

definition unregister_listener :: "message_type \<Rightarrow> nat \<Rightarrow> message_router \<Rightarrow> message_router" where
  "unregister_listener type listener mr =
     (case om_find (tag_of type) (mr_listeners mr) of
        None \<Rightarrow> mr
      | Some bucket \<Rightarrow>
          if listener \<notin> set bucket then mr
          else if remove1 listener bucket = []
               then mr\<lparr>mr_listeners := om_erase (tag_of type) (mr_listeners mr)\<rparr>
               else mr\<lparr>mr_listeners := om_put (tag_of type) (remove1 listener bucket) (mr_listeners mr)\<rparr>)"

definition peer_ids :: "message_router \<Rightarrow> string list" where
  "peer_ids mr = map fst (mr_peers mr)"

definition peer_epic_id :: "string \<Rightarrow> message_router \<Rightarrow> string" where
  "peer_epic_id peer_id mr = (case om_find peer_id (mr_peers mr) of None \<Rightarrow> [] | Some p \<Rightarrow> mp_epic_id p)"

definition pending_output_bytes :: "message_router \<Rightarrow> nat" where
  "pending_output_bytes mr = sum_list (map (length \<circ> mp_outbox \<circ> snd) (mr_peers mr))"

section \<open>Outboxes and frames\<close>

text \<open>Whether the connection still works, what it would not take yet, and the router.\<close>

function flush_outbox :: "net_env \<Rightarrow> sock \<Rightarrow> bytes \<Rightarrow> message_router \<Rightarrow> bool \<times> bytes \<times> message_router" where
  "flush_outbox E s outbox mr =
     (if outbox = [] then (True, [], mr)
      else
        case ne_send E (mr_io mr) s outbox of
          (count, err) \<Rightarrow>
            let mr' = log_io (io_send s (take (nat count) outbox)) mr
            in if 0 < count then flush_outbox E s (drop (nat count) outbox) mr'
               else if count < 0 \<and> err = sock_would_block then (True, outbox, mr')
               else (False, outbox, mr'))"
  by pat_completeness auto
termination
  by (relation "measure (\<lambda>(E, s, outbox, mr). length outbox)") auto

declare flush_outbox.simps [simp del]

definition queue_and_flush :: "net_env \<Rightarrow> string \<Rightarrow> mesh_peer \<Rightarrow> bytes \<Rightarrow> message_router \<Rightarrow> bool \<times> message_router" where
  "queue_and_flush E peer_id p framed mr =
     (if max_outbox_bytes < length (mp_outbox p) + length framed then (False, put_peer peer_id p mr)
      else
        case flush_outbox E (mp_connection p) (mp_outbox p @ framed) mr of
          (ok, outbox, mr') \<Rightarrow> (ok, put_peer peer_id (p\<lparr>mp_outbox := outbox\<rparr>) mr'))"

definition seal_frame :: "bytes \<Rightarrow> peer_channel \<Rightarrow> bytes option \<times> peer_channel" where
  "seal_frame plain channel =
     (let sealed_len = length plain + aead_tag_len
      in if unat max_message_size < sealed_len then (None, channel)
         else
           let prefix = write_be32 (word_of_nat sealed_len)
           in case pc_seal plain prefix channel of
                (None, channel') \<Rightarrow> (None, channel')
              | (Some sealed, channel') \<Rightarrow> (Some (prefix @ sealed), channel'))"

text \<open>One peer's sealed copy of a message: \<^verbatim>\<open>seal_frame(..) && queue_and_flush(..)\<close>.\<close>

definition send_sealed :: "net_env \<Rightarrow> bytes \<Rightarrow> string \<Rightarrow> mesh_peer \<Rightarrow> message_router \<Rightarrow> bool \<times> message_router" where
  "send_sealed E plain peer_id p mr =
     (case seal_frame plain (mp_channel p) of
        (None, channel) \<Rightarrow> (False, put_peer peer_id (p\<lparr>mp_channel := channel\<rparr>) mr)
      | (Some framed, channel) \<Rightarrow> queue_and_flush E peer_id (p\<lparr>mp_channel := channel\<rparr>) framed mr)"

fun broadcast_to :: "net_env \<Rightarrow> bytes \<Rightarrow> string list \<Rightarrow> message_router \<Rightarrow> string list \<times> message_router" where
  "broadcast_to E plain [] mr = ([], mr)"
| "broadcast_to E plain (peer_id # ids) mr =
     (case om_find peer_id (mr_peers mr) of
        None \<Rightarrow> broadcast_to E plain ids mr
      | Some p \<Rightarrow>
          (case send_sealed E plain peer_id p mr of
             (ok, mr1) \<Rightarrow>
               (case broadcast_to E plain ids mr1 of
                  (dead, mr2) \<Rightarrow> (if ok then dead else peer_id # dead, mr2))))"

text \<open>A send up to the peers it has to drop: its result, those peers, and the router.\<close>

definition send_frames :: "net_env \<Rightarrow> net_envelope \<Rightarrow> message_router \<Rightarrow> bool \<times> string list \<times> message_router" where
  "send_frames E msg mr =
     (if \<not> mr_running mr then (False, [], mr)
      else
        let plain = serialize_net_envelope msg
        in if env_dest_id msg \<noteq> [] then
             (case om_find (env_dest_id msg) (mr_peers mr) of
                None \<Rightarrow> (False, [], mr)
              | Some p \<Rightarrow>
                  (case send_sealed E plain (env_dest_id msg) p mr of
                     (True, mr') \<Rightarrow> (True, [], mr')
                   | (False, mr') \<Rightarrow> (False, [env_dest_id msg], mr')))
           else
             (case broadcast_to E plain (peer_ids mr) mr of (dead, mr') \<Rightarrow> (True, dead, mr')))"

definition send_datagram :: "net_env \<Rightarrow> string \<Rightarrow> bytes \<Rightarrow> message_router \<Rightarrow> bool \<times> message_router" where
  "send_datagram E peer_id payload mr =
     (if \<not> mr_running mr then (False, mr)
      else
        case om_find peer_id (mr_peers mr) of
          None \<Rightarrow> (False, mr)
        | Some p \<Rightarrow>
            if ep_port (mp_datagram_addr p) = 0 then (False, mr)
            else
              (case seal_datagram (mr_product_user_id mr) peer_id payload (mp_channel p) of
                 (None, channel) \<Rightarrow> (False, put_peer peer_id (p\<lparr>mp_channel := channel\<rparr>) mr)
               | (Some (seq, sealed), channel) \<Rightarrow>
                   let datagram = [datagram_p2p] @ write_be32 (pc_udp_send_tag channel) @ write_be64 seq @ sealed;
                       count = ne_send_to E (mr_io mr) (mp_datagram_addr p) datagram;
                       mr' = log_io (io_send_to (mp_datagram_addr p) datagram)
                         (put_peer peer_id (p\<lparr>mp_channel := channel\<rparr>) mr)
                   in if count \<le> 0 then (False, mr')
                      else (True, mr'\<lparr>mr_datagrams_sent := mr_datagrams_sent mr' + 1\<rparr>)))"

section \<open>Dispatch\<close>

text \<open>
  A drop dispatches an event, a listener that handles it may send, and that send may drop another
  peer: dispatching is the call stack, kept as the list of the calls still to run.
\<close>

datatype work =
    w_peer_event message_type string
  | w_dispatch net_envelope
  | w_deliver nat net_envelope
  | w_call router_call
  | w_drop string

definition peer_event :: "message_type \<Rightarrow> string \<Rightarrow> message_router \<Rightarrow> net_envelope" where
  "peer_event type peer_id mr =
     \<lparr>env_type_tag = tag_of type, env_source_id = peer_id, env_dest_id = [], env_game_id = mr_game_id mr,
      env_timestamp = 0, env_payload = bytes_of_string (peer_epic_id peer_id mr)\<rparr>"

definition erase_peer :: "string \<Rightarrow> message_router \<Rightarrow> message_router" where
  "erase_peer peer_id mr =
     (case om_find peer_id (mr_peers mr) of
        None \<Rightarrow> mr
      | Some p \<Rightarrow> log_io (io_close (mp_connection p)) (mr\<lparr>mr_peers := om_erase peer_id (mr_peers mr)\<rparr>))"

definition run_call :: "net_env \<Rightarrow> router_call \<Rightarrow> message_router \<Rightarrow> string list \<times> message_router" where
  "run_call E c mr =
     (case c of
        rq_send msg \<Rightarrow> snd (send_frames E msg mr)
      | rq_send_datagram peer_id payload \<Rightarrow> ([], snd (send_datagram E peer_id payload mr))
      | rq_register type listener \<Rightarrow> ([], register_listener type listener mr)
      | rq_unregister type listener \<Rightarrow> ([], unregister_listener type listener mr))"

text \<open>One call of the stack: the calls it makes first, and the router.\<close>

definition work_step :: "net_env \<Rightarrow> work \<Rightarrow> message_router \<Rightarrow> work list \<times> message_router" where
  "work_step E w mr =
     (case w of
        w_peer_event type peer_id \<Rightarrow> ([w_dispatch (peer_event type peer_id mr)], mr)
      | w_dispatch msg \<Rightarrow> (map (\<lambda>l. w_deliver l msg) (listeners_of (env_type_tag msg) mr), mr)
      | w_deliver listener msg \<Rightarrow>
          (map w_call (ne_react E (mr_io mr) listener msg), log_io (io_deliver listener msg) mr)
      | w_call c \<Rightarrow> (case run_call E c mr of (dead, mr') \<Rightarrow> (map w_drop dead, mr'))
      | w_drop peer_id \<Rightarrow>
          (if om_find peer_id (mr_peers mr) = None then ([], mr)
           else ([w_peer_event peer_disconnected peer_id], erase_peer peer_id mr)))"


text \<open>Sending changes what peers hold, never who they are.\<close>

definition mesh_ids :: "message_router \<Rightarrow> string set" where
  "mesh_ids mr = fst ` set (mr_peers mr)"

lemma mesh_ids_log [simp]: "mesh_ids (log_io e mr) = mesh_ids mr"
  by (simp add: mesh_ids_def log_io_def)

lemma mesh_ids_put: "om_find peer_id (mr_peers mr) = Some p \<Longrightarrow> mesh_ids (put_peer peer_id p' mr) = mesh_ids mr"
  by (auto simp: mesh_ids_def put_peer_def set_fst_om_put dest!: om_find_in intro: rev_image_eqI)

lemma mesh_ids_iff: "om_find peer_id (mr_peers mr) \<noteq> None \<longleftrightarrow> peer_id \<in> mesh_ids mr"
  by (auto simp: mesh_ids_def om_find_None)

text \<open>Everything of the router but its log.\<close>

lemma flush_outbox_only_logs:
  assumes "flush_outbox E s outbox mr = (ok, left, mr')"
  shows "\<exists>es. mr' = mr\<lparr>mr_io := mr_io mr @ es\<rparr> \<and> length left \<le> length outbox"
  using assms
proof (induction E s outbox mr arbitrary: ok left mr' rule: flush_outbox.induct)
  case (1 E s outbox mr)
  show ?case
  proof (cases "outbox = []")
    case True
    with "1.prems" have "left = []" "mr' = mr" by (auto simp: flush_outbox.simps [of E s "[]"])
    then show ?thesis using True by (simp add: exI [of _ "[]"])
  next
    case False
    obtain count err where send: "ne_send E (mr_io mr) s outbox = (count, err)" by fastforce
    define mr1 where "mr1 = log_io (io_send s (take (nat count) outbox)) mr"
    show ?thesis
    proof (cases "0 < count")
      case True
      with "1.prems" False send have "flush_outbox E s (drop (nat count) outbox) mr1 = (ok, left, mr')"
        by (simp add: flush_outbox.simps [of E s outbox] mr1_def)
      from "1.IH" [OF False send [symmetric] mr1_def True this]
      obtain es where "mr' = mr1\<lparr>mr_io := mr_io mr1 @ es\<rparr>" "length left \<le> length (drop (nat count) outbox)"
        by blast
      then have "mr' = mr\<lparr>mr_io := mr_io mr @ (io_send s (take (nat count) outbox) # es)\<rparr>"
          "length left \<le> length outbox"
        by (simp_all add: mr1_def log_io_def)
      then show ?thesis by blast
    next
      case no: False
      with "1.prems" False send have "mr' = mr1" "left = outbox"
        by (auto simp: flush_outbox.simps [of E s outbox] mr1_def Let_def split: if_splits)
      then show ?thesis by (auto simp: mr1_def log_io_def)
    qed
  qed
qed

text \<open>\<open>mr'\<close> is \<open>mr\<close> with other states of the same peers and a longer log.\<close>

definition rest_of :: "message_router \<Rightarrow> message_router" where
  "rest_of mr = mr\<lparr>mr_peers := [], mr_datagrams_sent := 0, mr_io := []\<rparr>"

definition only_sends :: "message_router \<Rightarrow> message_router \<Rightarrow> bool" where
  "only_sends mr mr' \<longleftrightarrow> rest_of mr' = rest_of mr \<and> mesh_ids mr' = mesh_ids mr \<and> (\<exists>es. mr_io mr' = mr_io mr @ es)"

lemma only_sends_refl: "only_sends mr mr"
  by (simp add: only_sends_def)

lemma only_sends_trans: "only_sends a b \<Longrightarrow> only_sends b c \<Longrightarrow> only_sends a c"
  by (auto simp: only_sends_def)

lemma only_sends_put:
  "om_find peer_id (mr_peers mr) = Some p \<Longrightarrow>
   only_sends mr (put_peer peer_id q (mr\<lparr>mr_io := mr_io mr @ es\<rparr>))"
  using mesh_ids_put [of peer_id "mr\<lparr>mr_io := mr_io mr @ es\<rparr>" p q]
  by (simp add: only_sends_def rest_of_def put_peer_def mesh_ids_def)

lemma only_sends_put_only:
  "om_find peer_id (mr_peers mr) = Some p \<Longrightarrow> only_sends mr (put_peer peer_id q mr)"
  using only_sends_put [of peer_id mr p q "[]"] by simp

lemma only_sends_queue:
  assumes "om_find peer_id (mr_peers mr) = Some p" and "queue_and_flush E peer_id p' framed mr = (ok, mr')"
  shows "only_sends mr mr'"
  using assms
  by (auto simp: queue_and_flush_def only_sends_put only_sends_put_only split: prod.splits if_splits
      dest!: flush_outbox_only_logs)

lemma only_sends_sealed:
  assumes "om_find peer_id (mr_peers mr) = Some p" and "send_sealed E plain peer_id p mr = (ok, mr')"
  shows "only_sends mr mr'"
  using assms by (auto simp: send_sealed_def split: prod.splits option.splits
      intro: only_sends_put_only only_sends_queue)

lemma only_sends_broadcast:
  "broadcast_to E plain ids mr = (dead, mr') \<Longrightarrow> only_sends mr mr'"
proof (induction ids arbitrary: mr dead)
  case Nil
  then show ?case by (simp add: only_sends_refl)
next
  case (Cons peer_id ids)
  then show ?case
    by (auto split: option.splits prod.splits intro: only_sends_trans only_sends_sealed)
qed

lemma only_sends_frames: "send_frames E msg mr = (ok, dead, mr') \<Longrightarrow> only_sends mr mr'"
  by (auto simp: send_frames_def Let_def only_sends_refl split: if_splits option.splits prod.splits bool.splits
      intro: only_sends_sealed only_sends_broadcast)

lemma only_sends_datagram_out:
  "om_find peer_id (mr_peers mr) = Some p \<Longrightarrow>
   only_sends mr (log_io e (put_peer peer_id q mr)) \<and>
   only_sends mr ((log_io e (put_peer peer_id q mr))\<lparr>mr_datagrams_sent := n\<rparr>)"
  using mesh_ids_put [of peer_id mr p q]
  by (simp add: only_sends_def rest_of_def put_peer_def log_io_def mesh_ids_def)

lemma only_sends_datagram: "send_datagram E peer_id payload mr = (ok, mr') \<Longrightarrow> only_sends mr mr'"
  by (auto simp: send_datagram_def Let_def only_sends_refl only_sends_put_only only_sends_datagram_out
      split: if_splits option.splits prod.splits)


section \<open>Running the calls\<close>

text \<open>Calls make only lesser calls, except a drop, and a drop that does something loses a peer.\<close>

fun call_rank :: "work \<Rightarrow> nat" where
  "call_rank (w_peer_event type peer_id) = 4"
| "call_rank (w_dispatch msg) = 3"
| "call_rank (w_deliver listener msg) = 2"
| "call_rank (w_call c) = 1"
| "call_rank (w_drop peer_id) = 0"

definition calls_of_rank :: "nat \<Rightarrow> work list \<Rightarrow> nat" where
  "calls_of_rank k ws = length (filter (\<lambda>w. call_rank w = k) ws)"

lemma calls_of_rank_simps [simp]:
  "calls_of_rank k [] = 0"
  "calls_of_rank k (w # ws) = (if call_rank w = k then Suc (calls_of_rank k ws) else calls_of_rank k ws)"
  "calls_of_rank k (ws @ vs) = calls_of_rank k ws + calls_of_rank k vs"
  by (simp_all add: calls_of_rank_def)

lemma calls_of_rank_map [simp]:
  "calls_of_rank k (map w_call cs) = (if k = 1 then length cs else 0)"
  "calls_of_rank k (map w_drop ids) = (if k = 0 then length ids else 0)"
  "calls_of_rank k (map (\<lambda>l. w_deliver l msg) ls) = (if k = 2 then length ls else 0)"
  by (simp_all add: calls_of_rank_def filter_map comp_def)

lemma run_call_ids: "run_call E c mr = (dead, mr') \<Longrightarrow> mesh_ids mr' = mesh_ids mr"
proof -
  assume r: "run_call E c mr = (dead, mr')"
  show ?thesis
  proof (cases c)
    case (rq_send msg)
    with r obtain ok where "send_frames E msg mr = (ok, dead, mr')"
      by (cases "send_frames E msg mr") (simp add: run_call_def)
    then show ?thesis using only_sends_frames by (simp add: only_sends_def)
  next
    case (rq_send_datagram peer_id payload)
    with r obtain ok where "send_datagram E peer_id payload mr = (ok, mr')"
      by (cases "send_datagram E peer_id payload mr") (simp add: run_call_def)
    then show ?thesis using only_sends_datagram by (simp add: only_sends_def)
  qed (use r in \<open>auto simp: run_call_def register_listener_def unregister_listener_def mesh_ids_def Let_def
      split: option.splits if_splits\<close>)
qed

lemma mesh_ids_erase: "mesh_ids (erase_peer peer_id mr) = mesh_ids mr - {peer_id}"
proof (cases "om_find peer_id (mr_peers mr)")
  case None
  then have "peer_id \<notin> mesh_ids mr" by (simp add: mesh_ids_def om_find_None)
  with None show ?thesis by (auto simp: erase_peer_def)
next
  case (Some p)
  then show ?thesis by (auto simp: erase_peer_def mesh_ids_def om_erase_def log_io_def)
qed

lemma finite_mesh_ids [simp]: "finite (mesh_ids mr)"
  by (simp add: mesh_ids_def)

function run_work :: "net_env \<Rightarrow> work list \<Rightarrow> message_router \<Rightarrow> message_router" where
  "run_work E [] mr = mr"
| "run_work E (w # ws) mr = (case work_step E w mr of (calls, mr') \<Rightarrow> run_work E (calls @ ws) mr')"
  by pat_completeness auto
termination
proof (relation "measures [\<lambda>(E, ws, mr). card (mesh_ids mr), \<lambda>(E, ws, mr). calls_of_rank 4 ws,
    \<lambda>(E, ws, mr). calls_of_rank 3 ws, \<lambda>(E, ws, mr). calls_of_rank 2 ws, \<lambda>(E, ws, mr). calls_of_rank 1 ws,
    \<lambda>(E, ws, mr). calls_of_rank 0 ws]", goal_cases)
  case 1
  show ?case by simp
next
  case (2 E w ws mr calls mr')
  show ?case
  proof (cases w)
    case (w_drop peer_id)
    show ?thesis
    proof (cases "om_find peer_id (mr_peers mr) = None")
      case False
      then have "card (mesh_ids mr - {peer_id}) < card (mesh_ids mr)"
        by (intro card_Diff1_less) (simp_all flip: mesh_ids_iff)
      with False 2 w_drop show ?thesis by (auto simp: work_step_def mesh_ids_erase)
    qed (use 2 w_drop in \<open>auto simp: work_step_def\<close>)
  next
    case (w_call c)
    then show ?thesis using 2 by (auto simp: work_step_def run_call_ids split: prod.splits)
  qed (use 2 in \<open>auto simp: work_step_def\<close>)
qed

text \<open>What the interfaces and the game call.\<close>

definition drop_peer :: "net_env \<Rightarrow> string \<Rightarrow> bool \<Rightarrow> message_router \<Rightarrow> message_router" where
  "drop_peer E peer_id notify mr =
     (if om_find peer_id (mr_peers mr) = None then mr
      else
        let mr' = erase_peer peer_id mr
        in if notify then run_work E [w_peer_event peer_disconnected peer_id] mr' else mr')"

definition dispatch :: "net_env \<Rightarrow> net_envelope \<Rightarrow> message_router \<Rightarrow> message_router" where
  "dispatch E msg mr = run_work E [w_dispatch msg] mr"

definition dispatch_peer_event :: "net_env \<Rightarrow> message_type \<Rightarrow> string \<Rightarrow> message_router \<Rightarrow> message_router" where
  "dispatch_peer_event E type peer_id mr = dispatch E (peer_event type peer_id mr) mr"

definition send :: "net_env \<Rightarrow> net_envelope \<Rightarrow> message_router \<Rightarrow> bool \<times> message_router" where
  "send E msg mr =
     (case send_frames E msg mr of (ok, dead, mr') \<Rightarrow> (ok, foldl (\<lambda>m peer_id. drop_peer E peer_id True m) mr' dead))"

lemma run_work_append: "run_work E (ws @ vs) mr = run_work E vs (run_work E ws mr)"
proof (induction E ws mr rule: run_work.induct)
  case (2 E w ws mr)
  obtain calls mr' where step: "work_step E w mr = (calls, mr')" by fastforce
  from "2.IH" [OF step [symmetric]] show ?case by (simp add: step)
qed simp

text \<open>The calls of the stack are the operations: a drop in it is \<^verbatim>\<open>drop_peer\<close>, a send in it is \<^verbatim>\<open>send\<close>.\<close>

lemma run_drop: "run_work E [w_drop peer_id] mr = drop_peer E peer_id True mr"
  by (simp add: work_step_def drop_peer_def Let_def del: run_work.simps(2)) (simp add: work_step_def)

lemma run_drops: "run_work E (map w_drop ids) mr = foldl (\<lambda>m peer_id. drop_peer E peer_id True m) mr ids"
proof (induction ids arbitrary: mr)
  case (Cons peer_id ids)
  have "run_work E (map w_drop (peer_id # ids)) mr = run_work E ([w_drop peer_id] @ map w_drop ids) mr" by simp
  also have "\<dots> = run_work E (map w_drop ids) (drop_peer E peer_id True mr)"
    by (simp only: run_work_append run_drop)
  finally show ?case using Cons by simp
qed simp

lemma run_send: "run_work E [w_call (rq_send msg)] mr = snd (send E msg mr)"
  by (simp add: work_step_def run_call_def send_def run_drops split: prod.splits)

lemma run_event: "run_work E [w_peer_event type peer_id] mr = dispatch_peer_event E type peer_id mr"
  by (simp add: work_step_def dispatch_peer_event_def dispatch_def)

end
