(* ===== verification/Router_Mesh.thy ===== *)
theory Router_Mesh
  imports Router
begin

text \<open>
  \<^verbatim>\<open>net/message_router.cpp\<close>, the mesh: discovery, dialing, the handshakes, adoption of a proved
  peer, and its datagrams.
\<close>

section \<open>Sockets\<close>

definition sock_do :: "net_env \<Rightarrow> sock_call \<Rightarrow> message_router \<Rightarrow> bool \<times> message_router" where
  "sock_do E c mr = (ne_call E (mr_io mr) c, log_io (io_call c) mr)"

definition close_sock :: "sock \<Rightarrow> message_router \<Rightarrow> message_router" where
  "close_sock s mr = log_io (io_close s) mr"

definition try_connect :: "net_env \<Rightarrow> sock \<Rightarrow> endpoint \<Rightarrow> message_router \<Rightarrow> (bool \<times> sock_error) \<times> message_router" where
  "try_connect E s address mr = (ne_connect E (mr_io mr) s address, log_io (io_connect s address) mr)"

datatype stream_health = stream_alive | stream_closed

fun read_chunks :: "recv_outcome list \<Rightarrow> bytes \<Rightarrow> stream_health \<times> bytes" where
  "read_chunks [] buffer = (stream_alive, buffer)"
| "read_chunks (rc_bytes chunk # rest) buffer =
     (if chunk = [] then (stream_closed, buffer) else read_chunks rest (buffer @ chunk))"
| "read_chunks (rc_hangup # rest) buffer = (stream_closed, buffer)"
| "read_chunks (rc_error e # rest) buffer =
     (if e = sock_would_block then stream_alive else stream_closed, buffer)"

definition read_stream :: "net_env \<Rightarrow> sock \<Rightarrow> bytes \<Rightarrow> message_router \<Rightarrow> stream_health \<times> bytes \<times> message_router" where
  "read_stream E s buffer mr =
     (case read_chunks (ne_reads E (mr_io mr) s) buffer of
        (health, buffer') \<Rightarrow> (health, buffer', log_io (io_read s) mr))"

section \<open>Advertising\<close>

definition self_advertisement :: "message_router \<Rightarrow> net_envelope" where
  "self_advertisement mr =
     \<lparr>env_type_tag = tag_of mt_net_advertise, env_source_id = mr_product_user_id mr, env_dest_id = [],
      env_game_id = mr_game_id mr, env_timestamp = 0,
      env_payload = serialize_net_advertise
        \<lparr>adv_product_user_id = mr_product_user_id mr, adv_game_id = mr_game_id mr,
         adv_tcp_port = mr_mesh_port mr, adv_udp_port = mr_discovery_port mr\<rparr>\<rparr>"

definition announce_to :: "net_env \<Rightarrow> string \<Rightarrow> message_router \<Rightarrow> message_router" where
  "announce_to E peer_id mr = snd (send E ((self_advertisement mr)\<lparr>env_dest_id := peer_id\<rparr>) mr)"

definition socket_send_to :: "net_env \<Rightarrow> bytes \<Rightarrow> endpoint \<Rightarrow> message_router \<Rightarrow> int \<times> message_router" where
  "socket_send_to E datagram address mr =
     (ne_send_to E (mr_io mr) address datagram, log_io (io_send_to address datagram) mr)"

definition discovery_slots :: "message_router \<Rightarrow> u16 list" where
  "discovery_slots mr =
     map word_of_nat [unat (nc_port_first (mr_config mr))..<Suc (unat (nc_port_last (mr_config mr)))]"

definition advertise :: "net_env \<Rightarrow> message_router \<Rightarrow> message_router" where
  "advertise E mr =
     (case clock E mr of
        (now, mr) \<Rightarrow>
          if now - mr_last_advertise mr < advertise_interval then mr
          else
            let mr = mr\<lparr>mr_last_advertise := now\<rparr>;
                envelope = self_advertisement mr;
                datagram = datagram_discovery # serialize_net_envelope envelope;
                targets = (if nc_broadcast_addresses (mr_config mr) = [] then ne_broadcast_addresses E
                           else nc_broadcast_addresses (mr_config mr));
                slots = [\<lparr>ep_ip = ip, ep_port = port\<rparr>. ip \<leftarrow> targets, port \<leftarrow> discovery_slots mr]
            in snd (send E envelope (foldl (\<lambda>m slot. snd (socket_send_to E datagram slot m)) mr slots)))"

section \<open>Datagrams\<close>

definition learn_datagram_port :: "net_envelope \<Rightarrow> mesh_peer \<Rightarrow> mesh_peer" where
  "learn_datagram_port msg p =
     (case deserialize_net_advertise (reader_of (env_payload msg)) of
        (None, _) \<Rightarrow> p
      | (Some infos, _) \<Rightarrow>
          if adv_udp_port infos = 0 then p
          else p\<lparr>mp_datagram_addr := (mp_datagram_addr p)\<lparr>ep_port := adv_udp_port infos\<rparr>\<rparr>)"

definition peer_of_tag :: "u32 \<Rightarrow> message_router \<Rightarrow> (string \<times> mesh_peer) option" where
  "peer_of_tag tag mr = find (\<lambda>(peer_id, p). pc_udp_recv_tag (mp_channel p) = tag) (mr_peers mr)"

definition handle_datagram :: "net_env \<Rightarrow> bytes \<Rightarrow> message_router \<Rightarrow> message_router" where
  "handle_datagram E data mr =
     (if length data < datagram_header_len + aead_tag_len then mr
      else
        let tag = read_be32 (drop 1 data); seq = read_be64 (drop 5 data)
        in case peer_of_tag tag mr of
             None \<Rightarrow> mr
           | Some (peer_id, p) \<Rightarrow>
               (case open_datagram peer_id (mr_product_user_id mr) seq (drop datagram_header_len data)
                    (mp_channel p) of
                  (None, channel) \<Rightarrow> put_peer peer_id (p\<lparr>mp_channel := channel\<rparr>) mr
                | (Some plain, channel) \<Rightarrow>
                    (case clock E mr of
                       (now, mr') \<Rightarrow>
                         let msg = \<lparr>env_type_tag = tag_of mt_p2p_data, env_source_id = peer_id,
                               env_dest_id = mr_product_user_id mr, env_game_id = mr_game_id mr,
                               env_timestamp = 0, env_payload = plain\<rparr>;
                             p' = p\<lparr>mp_channel := channel, mp_last_seen := now\<rparr>
                         in dispatch E msg ((put_peer peer_id p' mr')
                              \<lparr>mr_datagrams_received := mr_datagrams_received mr' + 1\<rparr>))))"

section \<open>Dialing and accepting\<close>

definition new_handshaking :: "net_env \<Rightarrow> sock \<Rightarrow> bool \<Rightarrow> string \<Rightarrow> endpoint \<Rightarrow> msec \<Rightarrow> message_router \<Rightarrow> handshaking_peer" where
  "new_handshaking E s initiator expected_id remote now mr =
     \<lparr>hp_connection = s, hp_buffer = [], hp_outbox = [],
      hp_channel = new_peer_channel initiator (mr_static_priv mr) (mr_static_pub mr) (mr_prologue mr),
      hp_expected_id = expected_id, hp_remote = remote, hp_started_at = now\<rparr>"

definition accept_one :: "net_env \<Rightarrow> endpoint \<Rightarrow> message_router \<Rightarrow> message_router" where
  "accept_one E from_addr mr =
     (let s = s_conn (mr_next_conn mr); mr = mr\<lparr>mr_next_conn := Suc (mr_next_conn mr)\<rparr>
      in case sock_do E (sc_set_nonblocking s) mr of
           (False, mr) \<Rightarrow> close_sock s mr
         | (True, mr) \<Rightarrow>
             (case clock E mr of
                (now, mr) \<Rightarrow>
                  mr\<lparr>mr_handshaking := mr_handshaking mr @ [new_handshaking E s False [] from_addr now mr]\<rparr>))"

definition accept_peers :: "net_env \<Rightarrow> message_router \<Rightarrow> message_router" where
  "accept_peers E mr = foldl (\<lambda>m from_addr. accept_one E from_addr m) (log_io io_accept mr) (ne_accepts E (mr_io mr))"

definition is_connecting_to :: "string \<Rightarrow> message_router \<Rightarrow> bool" where
  "is_connecting_to peer_id mr \<longleftrightarrow>
     om_find peer_id (mr_dialing mr) \<noteq> None \<or> (\<exists>h\<in>set (mr_handshaking mr). hp_expected_id h = peer_id)"

text \<open>The dial an advertisement starts.\<close>

definition dial :: "net_env \<Rightarrow> string \<Rightarrow> endpoint \<Rightarrow> message_router \<Rightarrow> message_router" where
  "dial E peer_id address mr =
     (let s = s_conn (mr_next_conn mr); mr = mr\<lparr>mr_next_conn := Suc (mr_next_conn mr)\<rparr>
      in case sock_do E (sc_open_tcp s) mr of
           (False, mr) \<Rightarrow> mr
         | (True, mr) \<Rightarrow>
             (case sock_do E (sc_set_nonblocking s) mr of
                (False, mr) \<Rightarrow> close_sock s mr
              | (True, mr) \<Rightarrow>
                  (case clock E mr of
                     (now, mr) \<Rightarrow>
                       (case try_connect E s address mr of
                          ((False, err), mr) \<Rightarrow> close_sock s mr
                        | ((True, err), mr) \<Rightarrow>
                            mr\<lparr>mr_dialing := om_put peer_id
                              \<lparr>di_connection = s, di_address = address, di_started_at = now\<rparr> (mr_dialing mr)\<rparr>))))"

definition handle_advertise :: "net_env \<Rightarrow> net_envelope \<Rightarrow> endpoint \<Rightarrow> message_router \<Rightarrow> message_router" where
  "handle_advertise E msg from_addr mr =
     (case deserialize_net_advertise (reader_of (env_payload msg)) of
        (None, _) \<Rightarrow> mr
      | (Some infos, _) \<Rightarrow>
          if adv_product_user_id infos = [] \<or> adv_product_user_id infos = mr_product_user_id mr then mr
          else if adv_game_id infos \<noteq> mr_game_id mr \<or> adv_tcp_port infos = 0 then mr
          else if om_find (adv_product_user_id infos) (mr_peers mr) \<noteq> None then mr
          else if mr_product_user_id mr > adv_product_user_id infos then mr
          else if is_connecting_to (adv_product_user_id infos) mr then mr
          else dial E (adv_product_user_id infos)
                 \<lparr>ep_ip = ep_ip from_addr, ep_port = adv_tcp_port infos\<rparr> mr)"

fun drain_datagram_list :: "net_env \<Rightarrow> (bytes \<times> endpoint) list \<Rightarrow> message_router \<Rightarrow> message_router" where
  "drain_datagram_list E [] mr = mr"
| "drain_datagram_list E (([], from_addr) # rest) mr = mr"
| "drain_datagram_list E ((kind # body, from_addr) # rest) mr =
     drain_datagram_list E rest
       (if kind = datagram_p2p then handle_datagram E (kind # body) mr
        else if kind \<noteq> datagram_discovery then mr
        else
          case deserialize_net_envelope (reader_of body) of
            (None, _) \<Rightarrow> mr
          | (Some msg, _) \<Rightarrow>
              if env_type_tag msg = tag_of mt_net_advertise then handle_advertise E msg from_addr mr else mr)"

definition drain_datagrams :: "net_env \<Rightarrow> message_router \<Rightarrow> message_router" where
  "drain_datagrams E mr = drain_datagram_list E (ne_datagrams E (mr_io mr)) (log_io io_datagrams mr)"

text \<open>The dials that came through, and those to give up.\<close>

fun dial_outcomes :: "net_env \<Rightarrow> msec \<Rightarrow> (string \<times> dialing_peer) list \<Rightarrow> message_router \<Rightarrow>
    string list \<times> string list \<times> message_router" where
  "dial_outcomes E now [] mr = ([], [], mr)"
| "dial_outcomes E now ((peer_id, d) # rest) mr =
     (case try_connect E (di_connection d) (di_address d) mr of
        ((ok, err), mr1) \<Rightarrow>
          (case dial_outcomes E now rest mr1 of
             (ready, failed, mr2) \<Rightarrow>
               if ok \<and> (err = sock_none \<or> err = sock_is_connected) then (peer_id # ready, failed, mr2)
               else if \<not> ok \<and> err \<noteq> sock_would_block \<and> err \<noteq> sock_in_progress
                 then (ready, peer_id # failed, mr2)
               else if dial_timeout < now - di_started_at d then (ready, peer_id # failed, mr2)
               else (ready, failed, mr2)))"

definition give_up_dial :: "string \<Rightarrow> message_router \<Rightarrow> message_router" where
  "give_up_dial peer_id mr =
     (case om_find peer_id (mr_dialing mr) of
        None \<Rightarrow> mr
      | Some d \<Rightarrow> close_sock (di_connection d) (mr\<lparr>mr_dialing := om_erase peer_id (mr_dialing mr)\<rparr>))"

definition start_handshake :: "net_env \<Rightarrow> msec \<Rightarrow> string \<Rightarrow> message_router \<Rightarrow> message_router" where
  "start_handshake E now peer_id mr =
     (case om_find peer_id (mr_dialing mr) of
        None \<Rightarrow> mr
      | Some d \<Rightarrow>
          let mr = mr\<lparr>mr_dialing := om_erase peer_id (mr_dialing mr)\<rparr>;
              shaking = new_handshaking E (di_connection d) True peer_id (di_address d) now mr
          in case random_key E mr of
               (rng, mr) \<Rightarrow>
                 (case pc_open (ne_x25519 E) rng (hp_channel shaking) of
                    (None, channel) \<Rightarrow> close_sock (di_connection d) mr
                  | (Some opening, channel) \<Rightarrow>
                      (case flush_outbox E (di_connection d) (frame_message opening) mr of
                         (False, outbox, mr) \<Rightarrow> close_sock (di_connection d) mr
                       | (True, outbox, mr) \<Rightarrow>
                           mr\<lparr>mr_handshaking := mr_handshaking mr @
                             [shaking\<lparr>hp_channel := channel, hp_outbox := outbox\<rparr>]\<rparr>)))"

definition finish_dialing :: "net_env \<Rightarrow> message_router \<Rightarrow> message_router" where
  "finish_dialing E mr =
     (case clock E mr of
        (now, mr) \<Rightarrow>
          (case dial_outcomes E now (mr_dialing mr) mr of
             (ready, failed, mr) \<Rightarrow>
               foldl (\<lambda>m peer_id. start_handshake E now peer_id m)
                 (foldl (\<lambda>m peer_id. give_up_dial peer_id m) mr failed) ready))"

end
