(* ===== verification/Router_Tick.thy ===== *)
theory Router_Tick
  imports Router_Mesh
begin

text \<open>
  \<^verbatim>\<open>net/message_router.cpp\<close>, the tick: handshakes that finish and become peers, the frames
  peers sealed, expiry, the loopback self-pipe, and starting and stopping.
\<close>

section \<open>Adopting a proved peer\<close>

definition adopt_peer :: "net_env \<Rightarrow> string \<Rightarrow> sock \<Rightarrow> peer_channel \<Rightarrow> endpoint \<Rightarrow> bytes \<Rightarrow> bytes \<Rightarrow>
    message_router \<Rightarrow> bool \<times> message_router" where
  "adopt_peer E peer_id connection channel remote leftover unsent mr =
     (if peer_id = [] \<or> peer_id = mr_product_user_id mr then (False, close_sock connection mr)
      else if om_find peer_id (mr_peers mr) \<noteq> None then (False, close_sock connection mr)
      else
        case clock E mr of
          (now, mr) \<Rightarrow>
            let entry = \<lparr>mp_connection = connection, mp_buffer = leftover, mp_outbox = unsent, mp_channel = channel,
                  mp_epic_id = derive_epic_account_id (pc_remote_static channel),
                  mp_datagram_addr = \<lparr>ep_ip = ep_ip remote, ep_port = 0\<rparr>, mp_last_seen = now\<rparr>
            in (True, dispatch_peer_event E peer_connected peer_id (announce_to E peer_id (put_peer peer_id entry mr))))"

section \<open>Handshakes\<close>

text \<open>One handshake message: the step it comes to (\<open>step_failed\<close> also when the reply cannot go out).\<close>

definition answer_handshake :: "net_env \<Rightarrow> bytes \<Rightarrow> handshaking_peer \<Rightarrow> message_router \<Rightarrow>
    channel_step \<times> handshaking_peer \<times> message_router" where
  "answer_handshake E message entry mr =
     (case random_key E mr of
        (rng, mr1) \<Rightarrow>
          (case read_handshake (ne_x25519 E) rng message (hp_channel entry) of
             (result, reply, channel) \<Rightarrow>
               let entry1 = entry\<lparr>hp_channel := channel\<rparr>
               in if result = step_failed \<or> reply = [] then (result, entry1, mr1)
                  else
                    case flush_outbox E (hp_connection entry1) (hp_outbox entry1 @ frame_message reply) mr1 of
                      (ok, outbox, mr2) \<Rightarrow>
                        (if ok then result else step_failed, entry1\<lparr>hp_outbox := outbox\<rparr>, mr2)))"

lemma answer_handshake_keeps:
  "answer_handshake E message entry mr = (result, entry', mr') \<Longrightarrow>
   hp_buffer entry' = hp_buffer entry \<and> hp_expected_id entry' = hp_expected_id entry \<and>
   hp_connection entry' = hp_connection entry \<and> hp_started_at entry' = hp_started_at entry"
  by (auto simp: answer_handshake_def Let_def split: prod.splits if_splits)

text \<open>Whether it failed, the entry, the id proved (empty while none is), and the router.\<close>

function read_handshakes :: "net_env \<Rightarrow> handshaking_peer \<Rightarrow> string \<Rightarrow> message_router \<Rightarrow>
    bool \<times> handshaking_peer \<times> string \<times> message_router" where
  "read_handshakes E entry proved mr =
     (if pc_established (hp_channel entry) then (False, entry, proved, mr)
      else
        case take_frame (hp_buffer entry) of
          (frame_refused, buffer, message) \<Rightarrow> (True, entry\<lparr>hp_buffer := buffer\<rparr>, proved, mr)
        | (frame_none, buffer, message) \<Rightarrow> (False, entry, proved, mr)
        | (frame_ready, buffer, message) \<Rightarrow>
            (case answer_handshake E message (entry\<lparr>hp_buffer := buffer\<rparr>) mr of
               (result, entry1, mr1) \<Rightarrow>
                 if result = step_failed then (True, entry1, proved, mr1)
                 else read_handshakes E entry1
                   (if result = step_done then id_of_key (pc_remote_static (hp_channel entry1)) mr1 else proved) mr1))"
  by pat_completeness auto
termination
  by (relation "measure (\<lambda>(E, entry, proved, mr). length (hp_buffer entry))")
    (auto dest!: take_frame_ready(1) [OF sym] dest: answer_handshake_keeps [OF sym] simp: frame_prefix_len_def)

declare read_handshakes.simps [simp del]

text \<open>One entry of the table: the entry if it still shakes hands, or the id it proved, or neither.\<close>

datatype handshake_outcome = hs_pending handshaking_peer | hs_failed | hs_proved handshaking_peer string

definition drain_handshake :: "net_env \<Rightarrow> handshaking_peer \<Rightarrow> message_router \<Rightarrow> handshake_outcome \<times> message_router" where
  "drain_handshake E entry mr =
     (case flush_outbox E (hp_connection entry) (hp_outbox entry) mr of
        (False, outbox, mr1) \<Rightarrow> (hs_failed, mr1)
      | (True, outbox, mr1) \<Rightarrow>
          (case read_stream E (hp_connection entry) (hp_buffer entry) mr1 of
             (health, buffer, mr2) \<Rightarrow>
               (case read_handshakes E (entry\<lparr>hp_outbox := outbox, hp_buffer := buffer\<rparr>) [] mr2 of
                  (failed, entry', proved, mr3) \<Rightarrow>
                    if failed \<or> (proved \<noteq> [] \<and> hp_expected_id entry' \<noteq> [] \<and> hp_expected_id entry' \<noteq> proved) \<or>
                       health = stream_closed
                    then (hs_failed, mr3)
                    else if proved = [] then (hs_pending entry', mr3)
                    else (hs_proved entry' proved, mr3))))"

text \<open>The entries before the index, and those from it on.\<close>

fun drain_entries :: "net_env \<Rightarrow> handshaking_peer list \<Rightarrow> handshaking_peer list \<Rightarrow> message_router \<Rightarrow> message_router" where
  "drain_entries E kept [] mr = mr"
| "drain_entries E kept (entry # rest) mr =
     (case drain_handshake E entry mr of
        (hs_pending entry', mr) \<Rightarrow>
          drain_entries E (kept @ [entry']) rest (mr\<lparr>mr_handshaking := kept @ entry' # rest\<rparr>)
      | (hs_failed, mr) \<Rightarrow>
          drain_entries E kept rest (close_sock (hp_connection entry) (mr\<lparr>mr_handshaking := kept @ rest\<rparr>))
      | (hs_proved entry' proved, mr) \<Rightarrow>
          drain_entries E kept rest (snd (adopt_peer E proved (hp_connection entry') (hp_channel entry')
            (hp_remote entry') (hp_buffer entry') (hp_outbox entry') (mr\<lparr>mr_handshaking := kept @ rest\<rparr>))))"

definition drain_handshaking :: "net_env \<Rightarrow> message_router \<Rightarrow> message_router" where
  "drain_handshaking E mr = drain_entries E [] (mr_handshaking mr) mr"

section \<open>Sealed frames\<close>

definition accept_inbound :: "net_envelope \<Rightarrow> message_router \<Rightarrow> bool" where
  "accept_inbound msg mr \<longleftrightarrow>
     \<not> (env_game_id msg \<noteq> [] \<and> env_game_id msg \<noteq> mr_game_id mr) \<and>
     \<not> (env_dest_id msg \<noteq> [] \<and> env_dest_id msg \<noteq> mr_product_user_id mr)"

text \<open>Whether the connection broke, the peer, its messages so far, and the router.\<close>

function read_frames :: "net_env \<Rightarrow> string \<Rightarrow> mesh_peer \<Rightarrow> net_envelope list \<Rightarrow> message_router \<Rightarrow>
    bool \<times> mesh_peer \<times> net_envelope list \<times> message_router" where
  "read_frames E peer_id p msgs mr =
     (case take_frame (mp_buffer p) of
        (frame_refused, buffer, sealed) \<Rightarrow> (True, p\<lparr>mp_buffer := buffer\<rparr>, msgs, mr)
      | (frame_none, buffer, sealed) \<Rightarrow> (False, p, msgs, mr)
      | (frame_ready, buffer, sealed) \<Rightarrow>
          (case pc_unseal sealed (write_be32 (word_of_nat (length sealed))) (mp_channel p) of
             (None, channel) \<Rightarrow> (True, p\<lparr>mp_buffer := buffer, mp_channel := channel\<rparr>, msgs, mr)
           | (Some plain, channel) \<Rightarrow>
               let p1 = p\<lparr>mp_buffer := buffer, mp_channel := channel\<rparr>
               in case deserialize_net_envelope (reader_of plain) of
                    (None, _) \<Rightarrow> read_frames E peer_id p1 msgs mr
                  | (Some envelope, _) \<Rightarrow>
                      let msg = envelope\<lparr>env_source_id := peer_id\<rparr>
                      in case clock E mr of
                           (now, mr1) \<Rightarrow>
                             let p2 = p1\<lparr>mp_last_seen := now\<rparr>
                             in if env_type_tag msg = tag_of mt_net_advertise
                                then read_frames E peer_id (learn_datagram_port msg p2) msgs mr1
                                else read_frames E peer_id p2
                                  (if accept_inbound msg mr1 then msgs @ [msg] else msgs) mr1))"
  by pat_completeness auto

lemma learn_keeps [simp]:
  "mp_buffer (learn_datagram_port msg p) = mp_buffer p"
  "mp_channel (learn_datagram_port msg p) = mp_channel p"
  "mp_epic_id (learn_datagram_port msg p) = mp_epic_id p"
  "mp_outbox (learn_datagram_port msg p) = mp_outbox p"
  "mp_connection (learn_datagram_port msg p) = mp_connection p"
  "mp_last_seen (learn_datagram_port msg p) = mp_last_seen p"
  by (simp_all add: learn_datagram_port_def split: prod.splits option.splits)

termination read_frames
  by (relation "measure (\<lambda>(E, peer_id, p, msgs, mr). length (mp_buffer p))")
    (auto dest!: take_frame_ready(1) [OF sym] simp: frame_prefix_len_def)

declare read_frames.simps [simp del]

text \<open>One peer's turn: whether to drop it, and the messages it brought.\<close>

definition drain_peer :: "net_env \<Rightarrow> string \<Rightarrow> mesh_peer \<Rightarrow> message_router \<Rightarrow> bool \<times> net_envelope list \<times> message_router" where
  "drain_peer E peer_id p mr =
     (case read_stream E (mp_connection p) (mp_buffer p) mr of
        (health, buffer, mr1) \<Rightarrow>
          (case read_frames E peer_id (p\<lparr>mp_buffer := buffer\<rparr>) [] mr1 of
             (broken, p', msgs, mr2) \<Rightarrow>
               if broken \<or> health = stream_closed then (True, msgs, put_peer peer_id p' mr2)
               else
                 case flush_outbox E (mp_connection p') (mp_outbox p') mr2 of
                   (ok, outbox, mr3) \<Rightarrow> (\<not> ok, msgs, put_peer peer_id (p'\<lparr>mp_outbox := outbox\<rparr>) mr3)))"

fun drain_each :: "net_env \<Rightarrow> string list \<Rightarrow> message_router \<Rightarrow> string list \<times> net_envelope list \<times> message_router" where
  "drain_each E [] mr = ([], [], mr)"
| "drain_each E (peer_id # ids) mr =
     (case om_find peer_id (mr_peers mr) of
        None \<Rightarrow> drain_each E ids mr
      | Some p \<Rightarrow>
          (case drain_peer E peer_id p mr of
             (dropped, msgs, mr1) \<Rightarrow>
               (case drain_each E ids mr1 of
                  (dead, others, mr2) \<Rightarrow> (if dropped then peer_id # dead else dead, msgs @ others, mr2))))"

fun envelopes_in :: "bytes list \<Rightarrow> net_envelope list" where
  "envelopes_in [] = []"
| "envelopes_in (body # bodies) =
     (case deserialize_net_envelope (reader_of body) of
        (None, _) \<Rightarrow> envelopes_in bodies
      | (Some msg, _) \<Rightarrow> msg # envelopes_in bodies)"

definition drain_self_pipe :: "net_env \<Rightarrow> message_router \<Rightarrow> net_envelope list \<times> message_router" where
  "drain_self_pipe E mr =
     (case read_stream E s_self_recv (mr_self_buffer mr) mr of
        (health, buffer, mr1) \<Rightarrow>
          (case drain_frames buffer of
             (st, bodies, left) \<Rightarrow> (envelopes_in bodies, mr1\<lparr>mr_self_buffer := left\<rparr>)))"

definition drop_peers :: "net_env \<Rightarrow> string list \<Rightarrow> message_router \<Rightarrow> message_router" where
  "drop_peers E dead mr = foldl (\<lambda>m peer_id. drop_peer E peer_id True m) mr dead"

definition drain_peers :: "net_env \<Rightarrow> message_router \<Rightarrow> message_router" where
  "drain_peers E mr =
     (case drain_each E (peer_ids mr) mr of
        (dead, msgs, mr1) \<Rightarrow>
          (case drain_self_pipe E (drop_peers E dead mr1) of
             (own, mr2) \<Rightarrow> foldl (\<lambda>m msg. dispatch E msg m) mr2 (msgs @ own)))"

section \<open>Expiry\<close>

definition expire_peers :: "net_env \<Rightarrow> message_router \<Rightarrow> message_router" where
  "expire_peers E mr =
     (case clock E mr of
        (now, mr) \<Rightarrow>
          drop_peers E (map fst (filter (\<lambda>(peer_id, p). peer_timeout < now - mp_last_seen p) (mr_peers mr))) mr)"

definition expire_handshaking :: "net_env \<Rightarrow> message_router \<Rightarrow> message_router" where
  "expire_handshaking E mr =
     (case clock E mr of
        (now, mr) \<Rightarrow>
          let late = (\<lambda>h. handshake_timeout < now - hp_started_at h)
          in foldl (\<lambda>m h. close_sock (hp_connection h) m)
               (mr\<lparr>mr_handshaking := filter (\<lambda>h. \<not> late h) (mr_handshaking mr)\<rparr>)
               (filter late (mr_handshaking mr)))"

definition cb_run_frame :: "net_env \<Rightarrow> message_router \<Rightarrow> message_router" where
  "cb_run_frame E mr =
     (if \<not> mr_running mr then mr
      else
        let mr = advertise E mr;
            mr = accept_peers E mr;
            mr = finish_dialing E mr;
            mr = drain_datagrams E mr;
            mr = drain_handshaking E mr;
            mr = drain_peers E mr;
            mr = expire_handshaking E mr
        in expire_peers E mr)"

section \<open>The self-pipe\<close>

text \<open>Offering the rest again for as long as the loopback is full may take forever.\<close>

partial_function (option) offer_to_self :: "net_env \<Rightarrow> bytes \<Rightarrow> message_router \<Rightarrow> (bool \<times> message_router) option" where
  "offer_to_self E unsent mr =
     (if unsent = [] then Some (True, mr)
      else
        let answer = ne_send E (mr_io mr) s_self_send unsent;
            mr' = log_io (io_send s_self_send (take (nat (fst answer)) unsent)) mr
        in if 0 < fst answer then offer_to_self E (drop (nat (fst answer)) unsent) mr'
           else if fst answer < 0 \<and> snd answer = sock_would_block then offer_to_self E unsent mr'
           else Some (False, mr'))"

definition send_to_self :: "net_env \<Rightarrow> net_envelope \<Rightarrow> message_router \<Rightarrow> (bool \<times> message_router) option" where
  "send_to_self E msg mr = offer_to_self E (frame_message (serialize_net_envelope msg)) mr"

section \<open>Starting and stopping\<close>

text \<open>Socket steps in order, up to the first that fails.\<close>

fun sock_steps :: "net_env \<Rightarrow> sock_call list \<Rightarrow> message_router \<Rightarrow> bool \<times> message_router" where
  "sock_steps E [] mr = (True, mr)"
| "sock_steps E (c # calls) mr =
     (case sock_do E c mr of (ok, mr') \<Rightarrow> if ok then sock_steps E calls mr' else (False, mr'))"

fun take_slot :: "net_env \<Rightarrow> u16 list \<Rightarrow> message_router \<Rightarrow> bool \<times> message_router" where
  "take_slot E [] mr = (False, mr)"
| "take_slot E (port # ports) mr =
     (case sock_do E (sc_bind s_udp \<lparr>ep_ip = ip_any, ep_port = port\<rparr>) mr of
        (True, mr') \<Rightarrow> sock_do E (sc_set_nonblocking s_udp) (mr'\<lparr>mr_discovery_port := port\<rparr>)
      | (False, mr') \<Rightarrow> take_slot E ports mr')"

definition open_discovery :: "net_env \<Rightarrow> message_router \<Rightarrow> bool \<times> message_router" where
  "open_discovery E mr =
     (case sock_steps E [sc_open_udp s_udp, sc_set_broadcast s_udp] mr of
        (False, mr) \<Rightarrow> (False, mr)
      | (True, mr) \<Rightarrow> take_slot E (discovery_slots mr) mr)"

definition open_mesh :: "net_env \<Rightarrow> message_router \<Rightarrow> bool \<times> message_router" where
  "open_mesh E mr =
     (case sock_steps E [sc_open_tcp s_mesh, sc_set_reuseaddr s_mesh,
             sc_bind s_mesh \<lparr>ep_ip = ip_any, ep_port = 0\<rparr>, sc_local_endpoint s_mesh] mr of
        (False, mr) \<Rightarrow> (False, mr)
      | (True, mr) \<Rightarrow>
          sock_steps E [sc_listen s_mesh mesh_backlog, sc_set_nonblocking s_mesh]
            (mr\<lparr>mr_mesh_port := ne_local_port E (mr_io mr) s_mesh\<rparr>))"

text \<open>The pipe's listener is a local socket: it closes on every return.\<close>

definition open_self_pipe :: "net_env \<Rightarrow> message_router \<Rightarrow> bool \<times> message_router" where
  "open_self_pipe E mr =
     (let bound = sock_steps E [sc_open_tcp s_pipe_listener, sc_set_reuseaddr s_pipe_listener,
             sc_bind s_pipe_listener \<lparr>ep_ip = ip_loopback, ep_port = 0\<rparr>, sc_local_endpoint s_pipe_listener] mr;
          piped = (case bound of
             (False, mr) \<Rightarrow> (False, mr)
           | (True, mr) \<Rightarrow>
               let port = ne_local_port E (mr_io mr) s_pipe_listener
               in sock_steps E [sc_listen s_pipe_listener 1, sc_open_tcp s_self_send,
                    sc_connect s_self_send \<lparr>ep_ip = ip_loopback, ep_port = port\<rparr>,
                    sc_poll s_pipe_listener self_pipe_accept_timeout_ms,
                    sc_accept s_pipe_listener s_self_recv, sc_set_nonblocking s_self_recv] mr)
      in (fst piped, close_sock s_pipe_listener (snd piped)))"

definition stop :: "net_env \<Rightarrow> message_router \<Rightarrow> message_router" where
  "stop E mr =
     (let mr = foldl (\<lambda>m peer_id. drop_peer E peer_id False m) mr (peer_ids mr);
          mr = foldl (\<lambda>m h. close_sock (hp_connection h) m) mr (mr_handshaking mr);
          mr = foldl (\<lambda>m d. close_sock (di_connection (snd d)) m) mr (mr_dialing mr);
          mr = foldl (\<lambda>m s. close_sock s m) mr [s_self_send, s_self_recv, s_mesh, s_udp]
      in mr\<lparr>mr_handshaking := [], mr_dialing := [], mr_self_buffer := [], mr_mesh_port := 0,
            mr_discovery_port := 0, mr_running := False\<rparr>)"

definition start :: "net_env \<Rightarrow> message_router \<Rightarrow> bool \<times> message_router" where
  "start E mr =
     (if mr_running mr then (True, mr)
      else
        let mr = stop E mr
        in if \<not> mr_have_profile mr then (False, mr)
           else
             case open_discovery E mr of
               (False, mr) \<Rightarrow> (False, stop E mr)
             | (True, mr) \<Rightarrow>
                 (case open_mesh E mr of
                    (False, mr) \<Rightarrow> (False, stop E mr)
                  | (True, mr) \<Rightarrow>
                      (case open_self_pipe E mr of
                         (False, mr) \<Rightarrow> (False, stop E mr)
                       | (True, mr) \<Rightarrow> (True, mr\<lparr>mr_last_advertise := 0, mr_running := True\<rparr>))))"

end
