(* ===== verification/Router_Delivery.thy ===== *)
theory Router_Delivery
  imports Router_Tick Channel_Sessions Wire_Properties
begin

text \<open>
  What one router sends, the other delivers: through the serializer, the seal, the frame, an
  outbox the socket empties in parts, a stream cut anywhere, and back.
\<close>

section \<open>The bytes on a connection\<close>

definition sent_on :: "sock \<Rightarrow> history \<Rightarrow> bytes" where
  "sent_on s h = concat (map (\<lambda>e. case e of io_send s' bs \<Rightarrow> if s' = s then bs else [] | _ \<Rightarrow> []) h)"

lemma sent_on_append [simp]: "sent_on s (h @ h') = sent_on s h @ sent_on s h'"
  by (simp add: sent_on_def)

lemma sent_on_send [simp]: "sent_on s (io_send s bs # h) = bs @ sent_on s h" "sent_on s [] = []"
  by (simp_all add: sent_on_def)

text \<open>Nothing queued is lost or reordered by partial writes.\<close>

lemma flush_outbox_conserves:
  "flush_outbox E s outbox mr = (ok, left, mr') \<Longrightarrow>
   \<exists>es. mr' = mr\<lparr>mr_io := mr_io mr @ es\<rparr> \<and> sent_on s es @ left = outbox"
proof (induction E s outbox mr arbitrary: ok left mr' rule: flush_outbox.induct)
  case (1 E s outbox mr)
  obtain count err where send: "ne_send E (mr_io mr) s outbox = (count, err)" by fastforce
  define e where "e = io_send s (take (nat count) outbox)"
  consider "outbox = []" | "outbox \<noteq> []" "0 < count" | "outbox \<noteq> []" "\<not> 0 < count" by blast
  then show ?case
  proof cases
    case 1
    with "1.prems" have "left = []" "mr' = mr" by (auto simp: flush_outbox.simps [of E s "[]"])
    with 1 show ?thesis by (simp add: exI [of _ "[]"] sent_on_def)
  next
    case 2
    with "1.prems" send have "flush_outbox E s (drop (nat count) outbox) (log_io e mr) = (ok, left, mr')"
      by (simp add: flush_outbox.simps [of E s outbox] e_def)
    from "1.IH" [OF 2(1) send [symmetric] _ 2(2) this] obtain es where
      "mr' = (log_io e mr)\<lparr>mr_io := mr_io (log_io e mr) @ es\<rparr>" "sent_on s es @ left = drop (nat count) outbox"
      by (auto simp: e_def)
    then have "mr' = mr\<lparr>mr_io := mr_io mr @ ([e] @ es)\<rparr>" "sent_on s ([e] @ es) @ left = outbox"
      by (simp_all add: log_io_def, simp add: e_def)
    then show ?thesis by blast
  next
    case 3
    with "1.prems" send have "mr' = log_io (io_send s []) mr" "left = outbox"
      by (auto simp: flush_outbox.simps [of E s outbox] Let_def split: if_splits)
    then have "mr' = mr\<lparr>mr_io := mr_io mr @ [io_send s []]\<rparr>" by (simp add: log_io_def)
    with \<open>left = outbox\<close> show ?thesis by (auto intro: exI [of _ "[io_send s []]"])
  qed
qed

section \<open>Sealed frames\<close>

text \<open>A sealed frame is a frame whose length is its associated data.\<close>

lemma seal_frame_shape:
  assumes "seal_frame plain a = (Some framed, a')" and "pc_established a" and "cs_has_key (tk_send (pc_keys a))"
  shows "\<exists>sealed. framed = frame_message sealed \<and> length sealed \<le> unat max_message_size \<and>
    pc_seal plain (write_be32 (word_of_nat (length sealed))) a = (Some sealed, a')"
proof -
  let ?prefix = "write_be32 (word_of_nat (length plain + aead_tag_len))"
  have size: "length plain + aead_tag_len \<le> unat max_message_size"
    using assms(1) by (auto simp: seal_frame_def Let_def split: if_splits)
  obtain sealed where s: "pc_seal plain ?prefix a = (Some sealed, a')" "framed = ?prefix @ sealed"
    using assms(1) by (auto simp: seal_frame_def Let_def split: if_splits prod.splits option.splits)
  then obtain cs where e: "cs_encrypt ?prefix plain (tk_send (pc_keys a)) = (Some sealed, cs)"
    using assms(2) by (auto simp: pc_seal_def split: prod.splits)
  have "length sealed = length plain + aead_tag_len"
    using cs_encrypt_length [OF e] assms(3) by (simp add: tag_len_def aead_tag_len_def)
  with s size show ?thesis by (simp add: frame_message_prefix)
qed

lemma sealed_frame_opens:
  assumes "seal_frame plain a = (Some framed, a')" and "linked a b"
  shows "\<exists>sealed b'. take_frame (framed @ rest) = (frame_ready, rest, sealed) \<and>
    pc_unseal sealed (write_be32 (word_of_nat (length sealed))) b = (Some plain, b') \<and> linked a' b'"
proof -
  have "pc_established a" "cs_has_key (tk_send (pc_keys a))" using assms(2) by (auto simp: linked_def)
  from seal_frame_shape [OF assms(1) this] obtain sealed where s: "framed = frame_message sealed"
      "length sealed \<le> unat max_message_size"
      "pc_seal plain (write_be32 (word_of_nat (length sealed))) a = (Some sealed, a')" by blast
  from seal_opens [OF assms(2) s(3)] obtain b' where
    "pc_unseal sealed (write_be32 (word_of_nat (length sealed))) b = (Some plain, b')" "linked a' b'" by blast
  moreover have "take_frame (framed @ rest) = (frame_ready, rest, sealed)"
    using s(2) by (simp add: s(1) take_frame_message)
  ultimately show ?thesis by blast
qed

text \<open>The stream a sequence of texts makes, and the channel after it.\<close>

fun seal_frames :: "bytes list \<Rightarrow> peer_channel \<Rightarrow> (bytes \<times> peer_channel) option" where
  "seal_frames [] c = Some ([], c)"
| "seal_frames (plain # plains) c =
     (case seal_frame plain c of
        (None, c') \<Rightarrow> None
      | (Some framed, c') \<Rightarrow> map_option (\<lambda>(stream, c''). (framed @ stream, c'')) (seal_frames plains c'))"

section \<open>Reading the stream back\<close>

definition is_deliverable :: "message_router \<Rightarrow> net_envelope \<Rightarrow> bool" where
  "is_deliverable mr msg \<longleftrightarrow> envelope_ok msg \<and> env_type_tag msg \<noteq> tag_of mt_net_advertise \<and> accept_inbound msg mr"

lemma accept_inbound_clock: "clock E mr = (now, mr') \<Longrightarrow> accept_inbound msg mr' = accept_inbound msg mr"
  by (auto simp: clock_def log_io_def accept_inbound_def)

lemma accept_inbound_source [simp]: "accept_inbound (msg\<lparr>env_source_id := s\<rparr>) mr = accept_inbound msg mr"
  by (simp add: accept_inbound_def)

lemma deserialize_serialized:
  "envelope_ok msg \<Longrightarrow> fst (deserialize_net_envelope (reader_of (serialize_net_envelope msg))) = Some msg"
  using envelope_codec.roundtrip [of msg] by simp

lemma read_frames_none: "take_frame (mp_buffer p) = (frame_none, buffer, body) \<Longrightarrow>
  read_frames E peer_id p msgs mr = (False, p, msgs, mr)"
  by (simp add: read_frames.simps [of E peer_id p])

lemma read_stream_of_frames:
  assumes "seal_frames (map serialize_net_envelope sent) a = Some (stream, a')" and "linked a (mp_channel p)"
    and "mp_buffer p = stream" and "\<forall>msg\<in>set sent. is_deliverable mr msg"
  shows "\<exists>p' mr'. read_frames E peer_id p msgs mr =
    (False, p', msgs @ map (\<lambda>m. m\<lparr>env_source_id := peer_id\<rparr>) sent, mr') \<and>
    mp_buffer p' = [] \<and> linked a' (mp_channel p') \<and> mp_connection p' = mp_connection p \<and> mp_outbox p' = mp_outbox p"
  using assms
proof (induction sent arbitrary: a stream p msgs mr)
  case Nil
  then have "take_frame (mp_buffer p) = (frame_none, [], [])"
    by (simp add: take_frame_def try_deframe_def frame_prefix_len_def)
  with Nil show ?case by (simp add: read_frames_none)
next
  case (Cons msg sent)
  obtain framed a1 where f: "seal_frame (serialize_net_envelope msg) a = (Some framed, a1)"
    using Cons.prems(1) by (auto split: prod.splits option.splits)
  then obtain stream1 where rest: "seal_frames (map serialize_net_envelope sent) a1 = Some (stream1, a')"
      and stream: "stream = framed @ stream1"
    using Cons.prems(1) by (auto split: prod.splits option.splits)
  from sealed_frame_opens [OF f Cons.prems(2), of stream1] obtain sealed b1 where
    t: "take_frame (mp_buffer p) = (frame_ready, stream1, sealed)" and
    u: "pc_unseal sealed (write_be32 (word_of_nat (length sealed))) (mp_channel p) = (Some (serialize_net_envelope msg), b1)" and
    l: "linked a1 b1"
    using Cons.prems(3) stream by auto
  have ok: "is_deliverable mr msg" using Cons.prems(4) by simp
  then obtain r where d: "deserialize_net_envelope (reader_of (serialize_net_envelope msg)) = (Some msg, r)"
    using deserialize_serialized by (metis is_deliverable_def prod.collapse)
  obtain now mr1 where c: "clock E mr = (now, mr1)" by fastforce
  define p1 where "p1 = p\<lparr>mp_buffer := stream1, mp_channel := b1, mp_last_seen := now\<rparr>"
  have "read_frames E peer_id p msgs mr = read_frames E peer_id p1 (msgs @ [msg\<lparr>env_source_id := peer_id\<rparr>]) mr1"
    using t u d c ok accept_inbound_clock [OF c, of msg]
    by (simp add: read_frames.simps [of E peer_id p] p1_def Let_def is_deliverable_def)
  moreover have "\<forall>m\<in>set sent. is_deliverable mr1 m"
    using Cons.prems(4) accept_inbound_clock [OF c] by (simp add: is_deliverable_def)
  moreover have "linked a1 (mp_channel p1)" "mp_buffer p1 = stream1" using l by (simp_all add: p1_def)
  ultimately show ?case
    using Cons.IH [OF rest, of p1 mr1 "msgs @ [msg\<lparr>env_source_id := peer_id\<rparr>]"] by (auto simp: p1_def)
qed

lemma read_chunks_all:
  "\<forall>c\<in>set chunks. c \<noteq> [] \<Longrightarrow> read_chunks (map rc_bytes chunks) buffer = (stream_alive, buffer @ concat chunks)"
  by (induction chunks arbitrary: buffer) simp_all

section \<open>Sending the stream\<close>

fun send_messages :: "net_env \<Rightarrow> net_envelope list \<Rightarrow> message_router \<Rightarrow> bool \<times> message_router" where
  "send_messages E [] mr = (True, mr)"
| "send_messages E (msg # msgs) mr =
     (case send E msg mr of
        (False, mr1) \<Rightarrow> (False, mr1)
      | (True, mr1) \<Rightarrow> send_messages E msgs mr1)"

lemma send_queues:
  assumes "send E msg mr = (True, mr')" and "env_dest_id msg = peer_id" and "peer_id \<noteq> []"
    and "om_find peer_id (mr_peers mr) = Some p"
  shows "\<exists>framed channel left es. seal_frame (serialize_net_envelope msg) (mp_channel p) = (Some framed, channel) \<and>
    om_find peer_id (mr_peers mr') = Some (p\<lparr>mp_channel := channel, mp_outbox := left\<rparr>) \<and>
    mr_io mr' = mr_io mr @ es \<and> sent_on (mp_connection p) es @ left = mp_outbox p @ framed"
proof -
  have "send_sealed E (serialize_net_envelope msg) peer_id p mr = (True, mr')"
    using assms by (auto simp: send_def send_frames_def Let_def split: if_splits prod.splits bool.splits)
  then obtain framed channel where f: "seal_frame (serialize_net_envelope msg) (mp_channel p) = (Some framed, channel)"
      "queue_and_flush E peer_id (p\<lparr>mp_channel := channel\<rparr>) framed mr = (True, mr')"
    by (auto simp: send_sealed_def split: prod.splits option.splits)
  then obtain left mr1 where fl: "flush_outbox E (mp_connection p) (mp_outbox p @ framed) mr = (True, left, mr1)"
      "mr' = put_peer peer_id (p\<lparr>mp_channel := channel, mp_outbox := left\<rparr>) mr1"
    by (auto simp: queue_and_flush_def split: if_splits prod.splits)
  from flush_outbox_conserves [OF fl(1)] f(1) fl(2) show ?thesis by (auto simp: put_peer_def)
qed

lemma send_each_stream:
  assumes "send_messages E sent mr = (True, mr')" and "om_find peer_id (mr_peers mr) = Some p" and "peer_id \<noteq> []"
    and "\<forall>msg\<in>set sent. env_dest_id msg = peer_id"
  shows "\<exists>stream channel left es. seal_frames (map serialize_net_envelope sent) (mp_channel p) = Some (stream, channel) \<and>
    om_find peer_id (mr_peers mr') = Some (p\<lparr>mp_channel := channel, mp_outbox := left\<rparr>) \<and>
    mr_io mr' = mr_io mr @ es \<and> sent_on (mp_connection p) es @ left = mp_outbox p @ stream"
  using assms
proof (induction sent arbitrary: mr p)
  case Nil
  then show ?case by (simp add: sent_on_def)
next
  case (Cons msg sent)
  obtain mr1 where s: "send E msg mr = (True, mr1)" and rest: "send_messages E sent mr1 = (True, mr')"
    using Cons.prems(1) by (auto split: prod.splits bool.splits)
  from send_queues [OF s _ Cons.prems(3,2)] Cons.prems(4) obtain framed channel left es where
    f: "seal_frame (serialize_net_envelope msg) (mp_channel p) = (Some framed, channel)" and
    p1: "om_find peer_id (mr_peers mr1) = Some (p\<lparr>mp_channel := channel, mp_outbox := left\<rparr>)" and
    e: "mr_io mr1 = mr_io mr @ es" "sent_on (mp_connection p) es @ left = mp_outbox p @ framed" by auto
  from Cons.IH [OF rest p1 Cons.prems(3)] Cons.prems(4) obtain stream1 channel1 left1 es1 where
    "seal_frames (map serialize_net_envelope sent) channel = Some (stream1, channel1)"
    "om_find peer_id (mr_peers mr') = Some (p\<lparr>mp_channel := channel1, mp_outbox := left1\<rparr>)"
    "mr_io mr' = mr_io mr1 @ es1" "sent_on (mp_connection p) es1 @ left1 = left @ stream1" by auto
  with f e have "seal_frames (map serialize_net_envelope (msg # sent)) (mp_channel p) = Some (framed @ stream1, channel1)"
    "mr_io mr' = mr_io mr @ (es @ es1)" "sent_on (mp_connection p) (es @ es1) @ left1 = mp_outbox p @ framed @ stream1"
    by simp_all
  with \<open>om_find peer_id (mr_peers mr') = _\<close> show ?case by blast
qed

text \<open>C23. What one router sends to a peer is what the peer's router delivers.  When every send succeeds
  and the outbox has emptied, then however the sockets split the bytes, the peer reads exactly the
  messages sent, complete and in order, each with the sender's proved id as its source, and the
  two channels stay in step for the next message.\<close>

theorem sent_messages_arrive_in_order:
  assumes "send_messages E sent here = (True, here')"
    and "om_find there_id (mr_peers here) = Some p" and "there_id \<noteq> []" and "mp_outbox p = []"
    and "om_find there_id (mr_peers here') = Some p'" and "mp_outbox p' = []"
    and "linked (mp_channel p) (mp_channel q)" and "mp_buffer q = []"
    and "\<forall>msg\<in>set sent. env_dest_id msg = there_id \<and> is_deliverable there msg"
    and "ne_reads F (mr_io there) (mp_connection q) = map rc_bytes chunks" and "\<forall>c\<in>set chunks. c \<noteq> []"
    and "mr_io here' = mr_io here @ es" and "concat chunks = sent_on (mp_connection p) es"
    and "drain_peer F here_id q there = (dropped, delivered, there')"
  shows "delivered = map (\<lambda>msg. msg\<lparr>env_source_id := here_id\<rparr>) sent \<and>
    (\<exists>q'. om_find here_id (mr_peers there') = Some q' \<and> mp_buffer q' = [] \<and> linked (mp_channel p') (mp_channel q'))"
proof -
  from send_each_stream [OF assms(1-3)] assms(4,5,6,9,12,13) obtain stream where
    stream: "seal_frames (map serialize_net_envelope sent) (mp_channel p) = Some (stream, mp_channel p')"
      "concat chunks = stream" by auto
  define there1 where "there1 = log_io (io_read (mp_connection q)) there"
  have read: "read_stream F (mp_connection q) (mp_buffer q) there = (stream_alive, stream, there1)"
    using assms(8,10) stream(2) by (simp add: read_stream_def read_chunks_all [OF assms(11)] there1_def)
  have "\<forall>msg\<in>set sent. is_deliverable there1 msg"
    using assms(9) by (auto simp: there1_def is_deliverable_def accept_inbound_def log_io_def)
  from read_stream_of_frames [OF stream(1), of "q\<lparr>mp_buffer := stream\<rparr>" there1 F here_id "[]"] this assms(7)
  obtain q' there2 where frames: "read_frames F here_id (q\<lparr>mp_buffer := stream\<rparr>) [] there1 =
      (False, q', map (\<lambda>m. m\<lparr>env_source_id := here_id\<rparr>) sent, there2)"
    "mp_buffer q' = []" "linked (mp_channel p') (mp_channel q')" by auto
  with read assms(14) show ?thesis
    by (auto simp: drain_peer_def put_peer_def split: prod.splits)
qed

text \<open>A network where every socket takes and gives all it has, and nothing is heard but \<open>reads\<close>.\<close>

definition quiet_net :: "recv_outcome list \<Rightarrow> net_env" where
  "quiet_net reads = \<lparr>ne_now = (\<lambda>h. 0), ne_random = (\<lambda>h. Some (replicate 32 1)), ne_call = (\<lambda>h c. True),
     ne_local_port = (\<lambda>h s. 7), ne_connect = (\<lambda>h s a. (True, sock_none)),
     ne_send = (\<lambda>h s bs. (int (length bs), sock_none)), ne_send_to = (\<lambda>h a bs. int (length bs)),
     ne_reads = (\<lambda>h s. reads), ne_accepts = (\<lambda>h. []), ne_datagrams = (\<lambda>h. []), ne_broadcast_addresses = [],
     ne_react = (\<lambda>h l m. []), ne_x25519 = example_x25519\<rparr>"

definition example_peer :: "bool \<Rightarrow> mesh_peer" where
  "example_peer initiator = \<lparr>mp_connection = s_conn 0, mp_buffer = [], mp_outbox = [],
     mp_channel = established_channel [] initiator [], mp_epic_id = ''e'',
     mp_datagram_addr = \<lparr>ep_ip = 1, ep_port = 0\<rparr>, mp_last_seen = 0\<rparr>"

definition example_here :: message_router where
  "example_here = new_message_router\<lparr>mr_running := True, mr_product_user_id := ''a'', mr_game_id := ''g'',
     mr_peers := [(''b'', example_peer True)]\<rparr>"

definition example_there :: message_router where
  "example_there = new_message_router\<lparr>mr_running := True, mr_product_user_id := ''b'', mr_game_id := ''g'',
     mr_peers := [(''a'', example_peer False)]\<rparr>"

lemma example_envelope_deliverable:
  "length (serialize_net_envelope example_envelope) \<le> 1000" "is_deliverable example_there example_envelope"
  by (simp_all add: is_deliverable_def accept_inbound_def example_there_def envelope_ok_def example_envelope_def string_ok_def
      fits64_def serialize_net_envelope_def put_u8_def put_u16_def put_string_def put_bytes_def put_svar_zigzag
      zigzag_def put_var_small)

lemma flush_all: "bs \<noteq> [] \<Longrightarrow> flush_outbox (quiet_net reads) s bs mr = (True, [], log_io (io_send s bs) mr)"
  by (simp add: flush_outbox.simps [of _ s bs] flush_outbox.simps [of _ s "[]"] quiet_net_def)

lemma established_seals:
  assumes "length plain \<le> 1000"
  shows "\<exists>framed channel. seal_frame plain (established_channel ck i r) = (Some framed, channel) \<and>
    framed \<noteq> [] \<and> length framed \<le> 2000"
proof -
  let ?prefix = "write_be32 (word_of_nat (length plain + aead_tag_len))"
  have keyed: "pc_established (established_channel ck i r)" "cs_has_key (tk_send (pc_keys (established_channel ck i r)))"
    by (simp_all add: established_channel_def transport_of_def Let_def)
  obtain sealed c where s: "pc_seal plain ?prefix (established_channel ck i r) = (Some sealed, c)"
    by (cases i) (auto simp: pc_seal_def established_channel_def transport_of_def Let_def cs_encrypt_box nonce_limit_def)
  then obtain cs where "cs_encrypt ?prefix plain (tk_send (pc_keys (established_channel ck i r))) = (Some sealed, cs)"
    using keyed(1) by (auto simp: pc_seal_def split: prod.splits)
  from cs_encrypt_length [OF this] have len: "length sealed = length plain + 16"
    using keyed(2) by (simp add: tag_len_def)
  have "seal_frame plain (established_channel ck i r) = (Some (?prefix @ sealed), c)"
    using assms s by (simp add: seal_frame_def Let_def max_message_size_def aead_tag_len_def)
  moreover have "?prefix @ sealed \<noteq> []" "length (?prefix @ sealed) \<le> 2000"
    using len assms by (simp_all add: length_greater_0_conv [symmetric] del: length_greater_0_conv)
  ultimately show ?thesis by blast
qed

lemma example_send:
  "\<exists>framed channel. framed \<noteq> [] \<and> send_messages (quiet_net []) [example_envelope] example_here =
     (True, example_here\<lparr>mr_peers := [(''b'', (example_peer True)\<lparr>mp_channel := channel\<rparr>)],
        mr_io := [io_send (s_conn 0) framed]\<rparr>)"
proof -
  obtain framed channel where f: "framed \<noteq> []" "length framed \<le> 2000" and
    "seal_frame (serialize_net_envelope example_envelope) (mp_channel (example_peer True)) = (Some framed, channel)"
    using established_seals [OF example_envelope_deliverable(1), of "[]" True "[]"] by (auto simp: example_peer_def)
  then have "send_sealed (quiet_net []) (serialize_net_envelope example_envelope) ''b'' (example_peer True) example_here =
      (True, example_here\<lparr>mr_peers := [(''b'', (example_peer True)\<lparr>mp_channel := channel\<rparr>)],
        mr_io := [io_send (s_conn 0) framed]\<rparr>)"
    by (simp add: send_sealed_def queue_and_flush_def max_outbox_bytes_def flush_all put_peer_def log_io_def)
      (simp add: example_peer_def example_here_def new_message_router_def)
  then have "send_messages (quiet_net []) [example_envelope] example_here =
     (True, example_here\<lparr>mr_peers := [(''b'', (example_peer True)\<lparr>mp_channel := channel\<rparr>)],
        mr_io := [io_send (s_conn 0) framed]\<rparr>)"
    by (simp add: send_def send_frames_def Let_def)
      (simp add: example_envelope_def example_here_def om_find_def)
  with f(1) show ?thesis by blast
qed

theorem sent_messages_arrive_in_order_witness:
  "\<exists>framed. fst (snd (drain_peer (quiet_net [rc_bytes framed]) ''a'' (example_peer False) example_there)) =
     [example_envelope\<lparr>env_source_id := ''a''\<rparr>]"
proof -
  obtain framed channel where sent: "send_messages (quiet_net []) [example_envelope] example_here =
     (True, example_here\<lparr>mr_peers := [(''b'', (example_peer True)\<lparr>mp_channel := channel\<rparr>)],
        mr_io := [io_send (s_conn 0) framed]\<rparr>)" and framed: "framed \<noteq> []"
    using example_send by blast
  have "linked (established_channel [] True []) (established_channel [] False [])"
    using established_linked [of "[]" True "[]" "[]"] by simp
  then have "fst (snd (drain_peer (quiet_net (map rc_bytes [framed])) ''a'' (example_peer False) example_there)) =
      map (\<lambda>msg. msg\<lparr>env_source_id := ''a''\<rparr>) [example_envelope]"
    using sent_messages_arrive_in_order [OF sent, of "''b''" "example_peer True" "(example_peer True)\<lparr>mp_channel := channel\<rparr>"
        "example_peer False" example_there "quiet_net [rc_bytes framed]" "[framed]" "[io_send (s_conn 0) framed]" "''a''"]
      example_envelope_deliverable(2) framed
    by (auto simp: example_here_def om_find_def example_peer_def quiet_net_def new_message_router_def example_envelope_def prod_eq_iff)
  then show ?thesis by auto
qed

end
