(* ===== verification/Router_Invariant.thy ===== *)
theory Router_Invariant
  imports Router_Tick Channel_Sessions
begin

text \<open>
  The mesh invariant: a peer is in the table under the id its proved key derives, and under no
  other.  Most operations only lose peers or change what they hold; adopting one is the exception.
\<close>

section \<open>Operations that bring nobody in\<close>

definition who_we_are :: "message_router \<Rightarrow> string \<times> string \<times> string \<times> string" where
  "who_we_are mr = (mr_product_user_id mr, mr_game_id mr, mr_sandbox_id mr, mr_deployment_id mr)"

definition same_who :: "mesh_peer \<Rightarrow> mesh_peer \<Rightarrow> bool" where
  "same_who p p' \<longleftrightarrow> (pc_established (mp_channel p) \<longrightarrow> pc_established (mp_channel p')) \<and>
     pc_remote_static (mp_channel p') = pc_remote_static (mp_channel p) \<and> mp_epic_id p' = mp_epic_id p"

definition same_peer :: "mesh_peer \<Rightarrow> mesh_peer \<Rightarrow> bool" where
  "same_peer p p' \<longleftrightarrow> same_who p p' \<and> mp_last_seen p' = mp_last_seen p \<and>
     mp_datagram_addr p' = mp_datagram_addr p \<and> mp_connection p' = mp_connection p"

definition shrinks :: "(mesh_peer \<Rightarrow> mesh_peer \<Rightarrow> bool) \<Rightarrow> message_router \<Rightarrow> message_router \<Rightarrow> bool" where
  "shrinks R mr mr' \<longleftrightarrow> who_we_are mr' = who_we_are mr \<and> (om_ok (mr_peers mr) \<longrightarrow> om_ok (mr_peers mr')) \<and>
     (\<forall>peer_id p'. om_find peer_id (mr_peers mr') = Some p' \<longrightarrow>
        (\<exists>p. om_find peer_id (mr_peers mr) = Some p \<and> R p p'))"

text \<open>What no call of the stack touches.\<close>

definition steady :: "message_router \<Rightarrow> message_router" where
  "steady mr = mr\<lparr>mr_peers := [], mr_datagrams_sent := 0, mr_io := [], mr_listeners := []\<rparr>"

definition only_loses :: "message_router \<Rightarrow> message_router \<Rightarrow> bool" where
  "only_loses mr mr' \<longleftrightarrow> steady mr' = steady mr \<and> shrinks same_peer mr mr'"

lemma same_who_refl [simp]: "same_who p p"
  by (simp add: same_who_def)

lemma same_peer_refl [simp]: "same_peer p p"
  by (simp add: same_peer_def)

lemma same_who_trans: "same_who a b \<Longrightarrow> same_who b c \<Longrightarrow> same_who a c"
  by (simp add: same_who_def)

lemma same_peer_trans: "same_peer a b \<Longrightarrow> same_peer b c \<Longrightarrow> same_peer a c"
  using same_who_trans by (auto simp: same_peer_def)

lemma shrinks_same: "mr_peers mr' = mr_peers mr \<Longrightarrow> who_we_are mr' = who_we_are mr \<Longrightarrow> (\<And>p. R p p) \<Longrightarrow> shrinks R mr mr'"
  by (simp add: shrinks_def)

lemma shrinks_trans:
  assumes "\<And>a b c. R a b \<Longrightarrow> R b c \<Longrightarrow> R a c" and "shrinks R a b" and "shrinks R b c"
  shows "shrinks R a c"
proof -
  have "\<exists>p. om_find peer_id (mr_peers a) = Some p \<and> R p p''" if "om_find peer_id (mr_peers c) = Some p''" for peer_id p''
  proof -
    from that assms(3) obtain p' where p': "om_find peer_id (mr_peers b) = Some p'" "R p' p''" by (auto simp: shrinks_def)
    with assms(2) obtain p where "om_find peer_id (mr_peers a) = Some p" "R p p'" by (auto simp: shrinks_def)
    with p'(2) assms(1) show ?thesis by blast
  qed
  with assms(2,3) show ?thesis by (simp add: shrinks_def)
qed

lemma shrinksD:
  "shrinks R a b \<Longrightarrow> om_find peer_id (mr_peers b) = Some p' \<Longrightarrow> \<exists>p. om_find peer_id (mr_peers a) = Some p \<and> R p p'"
  by (simp add: shrinks_def)

lemma shrinks_None: "shrinks R a b \<Longrightarrow> om_find peer_id (mr_peers a) = None \<Longrightarrow> om_find peer_id (mr_peers b) = None"
  by (cases "om_find peer_id (mr_peers b)") (auto dest: shrinksD)

lemma shrinks_mono:
  assumes "\<And>p p'. R p p' \<Longrightarrow> S p p'" and "shrinks R a b"
  shows "shrinks S a b"
proof -
  have "\<exists>p. om_find peer_id (mr_peers a) = Some p \<and> S p p'" if "om_find peer_id (mr_peers b) = Some p'" for peer_id p'
    using shrinksD [OF assms(2) that] assms(1) by blast
  with assms(2) show ?thesis by (simp add: shrinks_def)
qed

lemma shrinks_put:
  "om_find peer_id (mr_peers mr) = Some p \<Longrightarrow> R p p' \<Longrightarrow> (\<And>p. R p p) \<Longrightarrow> who_we_are mr' = who_we_are mr \<Longrightarrow>
   mr_peers mr' = om_put peer_id p' (mr_peers mr) \<Longrightarrow> shrinks R mr mr'"
  by (simp add: shrinks_def)

lemma only_loses_refl: "only_loses mr mr"
  by (simp add: only_loses_def shrinks_same)

lemma only_loses_trans: "only_loses a b \<Longrightarrow> only_loses b c \<Longrightarrow> only_loses a c"
  using shrinks_trans [of same_peer a b c] same_peer_trans by (auto simp: only_loses_def)

lemma only_loses_who: "only_loses a b \<Longrightarrow> shrinks same_who a b"
  by (rule shrinks_mono [of same_peer]) (auto simp: only_loses_def same_peer_def)

lemma steady_fields:
  assumes "steady mr' = steady mr"
  shows "mr_config mr' = mr_config mr" "mr_handshaking mr' = mr_handshaking mr" "mr_dialing mr' = mr_dialing mr"
    "mr_running mr' = mr_running mr" "mr_product_user_id mr' = mr_product_user_id mr" "mr_game_id mr' = mr_game_id mr"
    "mr_sandbox_id mr' = mr_sandbox_id mr" "mr_deployment_id mr' = mr_deployment_id mr"
    "mr_self_buffer mr' = mr_self_buffer mr"
  using arg_cong [OF assms, of mr_config] arg_cong [OF assms, of mr_handshaking] arg_cong [OF assms, of mr_dialing]
    arg_cong [OF assms, of mr_running] arg_cong [OF assms, of mr_product_user_id] arg_cong [OF assms, of mr_game_id]
    arg_cong [OF assms, of mr_sandbox_id] arg_cong [OF assms, of mr_deployment_id] arg_cong [OF assms, of mr_self_buffer]
  by (simp_all add: steady_def)

section \<open>Sending\<close>

lemma pc_seal_keeps:
  "pc_seal plain ad c = (r, c') \<Longrightarrow> pc_established c' = pc_established c \<and> pc_remote_static c' = pc_remote_static c"
  by (auto simp: pc_seal_def split: if_splits prod.splits)

lemma seal_frame_keeps:
  "seal_frame plain c = (r, c') \<Longrightarrow> pc_established c' = pc_established c \<and> pc_remote_static c' = pc_remote_static c"
  by (auto simp: seal_frame_def Let_def dest: pc_seal_keeps split: if_splits prod.splits option.splits)

lemma pc_unseal_keeps:
  "pc_unseal cipher ad c = (r, c') \<Longrightarrow> pc_established c' = pc_established c \<and> pc_remote_static c' = pc_remote_static c"
  by (auto simp: pc_unseal_def split: if_splits prod.splits)

lemma seal_datagram_keeps:
  "seal_datagram a b plain c = (r, c') \<Longrightarrow> pc_established c' = pc_established c \<and> pc_remote_static c' = pc_remote_static c"
  by (auto simp: seal_datagram_def Let_def split: if_splits prod.splits)

lemma open_datagram_keeps:
  "open_datagram a b seq cipher c = (r, c') \<Longrightarrow>
   pc_established c' = pc_established c \<and> pc_remote_static c' = pc_remote_static c"
  by (auto simp: open_datagram_def Let_def split: if_splits prod.splits option.splits bool.splits)

lemma only_loses_log: "only_loses mr (mr\<lparr>mr_io := h\<rparr>)"
  by (simp add: only_loses_def steady_def shrinks_same who_we_are_def)

lemma only_loses_log_io [simp]: "only_loses mr (log_io e mr)"
  by (simp add: log_io_def only_loses_log)

lemma only_loses_put:
  "om_find peer_id (mr_peers mr) = Some p \<Longrightarrow> same_peer p p' \<Longrightarrow> only_loses mr (put_peer peer_id p' (mr\<lparr>mr_io := h\<rparr>))"
  by (auto simp: only_loses_def steady_def put_peer_def who_we_are_def intro: shrinks_put)

lemma only_loses_put_only:
  "om_find peer_id (mr_peers mr) = Some p \<Longrightarrow> same_peer p p' \<Longrightarrow> only_loses mr (put_peer peer_id p' mr)"
  using only_loses_put [of peer_id mr p p' "mr_io mr"] by simp

lemma only_loses_queue:
  assumes "queue_and_flush E peer_id q framed mr = (ok, mr')" and "om_find peer_id (mr_peers mr) = Some p" and "same_peer p q"
  shows "only_loses mr mr'"
proof (cases "max_outbox_bytes < length (mp_outbox q) + length framed")
  case True
  with assms show ?thesis by (auto simp: queue_and_flush_def intro: only_loses_put_only)
next
  case False
  then obtain outbox mr1 where f: "flush_outbox E (mp_connection q) (mp_outbox q @ framed) mr = (ok, outbox, mr1)"
      "mr' = put_peer peer_id (q\<lparr>mp_outbox := outbox\<rparr>) mr1"
    using assms(1) by (auto simp: queue_and_flush_def split: prod.splits)
  have "same_peer p (q\<lparr>mp_outbox := outbox\<rparr>)" using assms(3) by (simp add: same_peer_def same_who_def)
  with f flush_outbox_only_logs [OF f(1)] assms(2) only_loses_put show ?thesis by auto
qed

lemma only_loses_sealed:
  assumes "send_sealed E plain peer_id p mr = (ok, mr')" and "om_find peer_id (mr_peers mr) = Some p"
  shows "only_loses mr mr'"
proof -
  obtain r c where s: "seal_frame plain (mp_channel p) = (r, c)" by fastforce
  have same: "same_peer p (p\<lparr>mp_channel := c\<rparr>)" using seal_frame_keeps [OF s] by (simp add: same_peer_def same_who_def)
  show ?thesis
  proof (cases r)
    case None
    with assms s same show ?thesis by (auto simp: send_sealed_def intro: only_loses_put_only)
  next
    case (Some framed)
    with assms s have "queue_and_flush E peer_id (p\<lparr>mp_channel := c\<rparr>) framed mr = (ok, mr')"
      by (simp add: send_sealed_def)
    from only_loses_queue [OF this assms(2) same] show ?thesis .
  qed
qed

lemma only_loses_broadcast: "broadcast_to E plain ids mr = (dead, mr') \<Longrightarrow> only_loses mr mr'"
proof (induction ids arbitrary: mr dead)
  case Nil
  then show ?case by (simp add: only_loses_refl)
next
  case (Cons peer_id ids)
  then show ?case
    by (auto split: option.splits prod.splits intro: only_loses_trans only_loses_sealed)
qed

lemma only_loses_frames: "send_frames E msg mr = (ok, dead, mr') \<Longrightarrow> only_loses mr mr'"
  by (auto simp: send_frames_def Let_def only_loses_refl split: if_splits option.splits prod.splits bool.splits
      intro: only_loses_sealed only_loses_broadcast)

lemma only_loses_datagram:
  assumes "send_datagram E peer_id payload mr = (ok, mr')"
  shows "only_loses mr mr'"
proof (cases "\<exists>p. mr_running mr \<and> om_find peer_id (mr_peers mr) = Some p \<and> ep_port (mp_datagram_addr p) \<noteq> 0")
  case False
  with assms show ?thesis by (auto simp: send_datagram_def only_loses_refl split: if_splits option.splits)
next
  case True
  then obtain p where p: "mr_running mr" "om_find peer_id (mr_peers mr) = Some p" "ep_port (mp_datagram_addr p) \<noteq> 0" by blast
  obtain r c where s: "seal_datagram (mr_product_user_id mr) peer_id payload (mp_channel p) = (r, c)" by fastforce
  have "same_peer p (p\<lparr>mp_channel := c\<rparr>)" using seal_datagram_keeps [OF s] by (simp add: same_peer_def same_who_def)
  then have put: "only_loses mr (put_peer peer_id (p\<lparr>mp_channel := c\<rparr>) mr)" using p(2) by (rule only_loses_put_only [rotated])
  have count: "only_loses m (m\<lparr>mr_datagrams_sent := n\<rparr>)" for m n
    by (simp add: only_loses_def steady_def shrinks_same who_we_are_def)
  show ?thesis
  proof (cases r)
    case None
    with assms p s put show ?thesis by (simp add: send_datagram_def)
  next
    case (Some out)
    then show ?thesis
      using assms p s put only_loses_trans [OF put only_loses_log_io] only_loses_trans [OF only_loses_trans [OF put only_loses_log_io] count]
      by (cases out) (auto simp: send_datagram_def Let_def split: if_splits)
  qed
qed

section \<open>Dispatching\<close>

lemma only_loses_erase: "only_loses mr (erase_peer peer_id mr)"
  by (auto simp: erase_peer_def only_loses_def steady_def shrinks_def who_we_are_def log_io_def split: option.splits)

lemma only_loses_call: "run_call E c mr = (dead, mr') \<Longrightarrow> only_loses mr mr'"
proof (cases c)
  case (rq_send msg)
  then show "run_call E c mr = (dead, mr') \<Longrightarrow> ?thesis"
    using only_loses_frames by (cases "send_frames E msg mr") (auto simp: run_call_def)
next
  case (rq_send_datagram peer_id payload)
  then show "run_call E c mr = (dead, mr') \<Longrightarrow> ?thesis"
    using only_loses_datagram by (cases "send_datagram E peer_id payload mr") (auto simp: run_call_def)
qed (auto simp: run_call_def register_listener_def unregister_listener_def Let_def only_loses_def steady_def who_we_are_def
    shrinks_def split: option.splits if_splits)

lemma only_loses_step: "work_step E w mr = (calls, mr') \<Longrightarrow> only_loses mr mr'"
proof (cases w)
  case (w_call c)
  then show "work_step E w mr = (calls, mr') \<Longrightarrow> ?thesis"
    using only_loses_call by (cases "run_call E c mr") (auto simp: work_step_def)
qed (auto simp: work_step_def only_loses_refl only_loses_erase split: if_splits)

lemma only_loses_work: "only_loses mr (run_work E ws mr)"
proof (induction E ws mr rule: run_work.induct)
  case (2 E w ws mr)
  obtain calls mr' where step: "work_step E w mr = (calls, mr')" by fastforce
  from only_loses_trans [OF only_loses_step [OF step] "2.IH" [OF step [symmetric]]] step show ?case by simp
qed (simp add: only_loses_refl)

lemma only_loses_drop: "only_loses mr (drop_peer E peer_id notify mr)"
  using only_loses_trans [OF only_loses_erase only_loses_work] only_loses_erase only_loses_refl
  by (simp add: drop_peer_def Let_def del: run_work.simps)

lemma only_loses_foldl: "(\<And>m x. only_loses m (f m x)) \<Longrightarrow> only_loses mr (foldl f mr xs)"
  by (induction xs arbitrary: mr) (auto intro: only_loses_refl only_loses_trans)

lemma only_loses_drops: "only_loses mr (drop_peers E ids mr)"
  unfolding drop_peers_def by (rule only_loses_foldl) (rule only_loses_drop)

lemma only_loses_dispatch: "only_loses mr (dispatch E msg mr)"
  by (simp add: dispatch_def only_loses_work del: run_work.simps)

lemma only_loses_event: "only_loses mr (dispatch_peer_event E type peer_id mr)"
  by (simp add: dispatch_peer_event_def only_loses_dispatch)

lemma only_loses_send: "only_loses mr (snd (send E msg mr))"
proof -
  have "run_work E [w_call (rq_send msg)] mr = snd (send E msg mr)" by (rule run_send)
  then show ?thesis using only_loses_work by metis
qed

lemma dropped_are_gone: "peer_id \<in> set ids \<Longrightarrow> om_find peer_id (mr_peers (drop_peers E ids mr)) = None"
proof (induction ids arbitrary: mr)
  case (Cons i ids)
  have gone: "om_find i (mr_peers (drop_peer E i True mr)) = None"
  proof -
    have "om_find i (mr_peers (erase_peer i mr)) = None"
      by (auto simp: erase_peer_def log_io_def split: option.splits)
    moreover have "shrinks same_peer (erase_peer i mr) (run_work E ws (erase_peer i mr))" for ws
      using only_loses_work by (simp add: only_loses_def)
    ultimately show ?thesis
      unfolding drop_peer_def Let_def by (auto simp del: run_work.simps dest: shrinks_None)
  qed
  have keep: "om_find j (mr_peers (drop_peers E ids m)) = None" if "om_find j (mr_peers m) = None" for j m
    using only_loses_drops [of m E ids] that by (auto simp: only_loses_def dest: shrinks_None)
  show ?case
  proof (cases "peer_id \<in> set ids")
    case True
    with Cons.IH [of "drop_peer E i True mr"] show ?thesis by (simp add: drop_peers_def)
  next
    case False
    with Cons.prems have "peer_id = i" by simp
    with keep [OF gone] show ?thesis by (simp add: drop_peers_def)
  qed
qed simp


section \<open>The invariant\<close>

definition peer_proved :: "message_router \<Rightarrow> string \<Rightarrow> mesh_peer \<Rightarrow> bool" where
  "peer_proved mr peer_id p \<longleftrightarrow> pc_established (mp_channel p) \<and>
     peer_id = id_of_key (pc_remote_static (mp_channel p)) mr \<and>
     mp_epic_id p = derive_epic_account_id (pc_remote_static (mp_channel p)) \<and>
     peer_id \<noteq> [] \<and> peer_id \<noteq> mr_product_user_id mr"

definition mesh_ok :: "message_router \<Rightarrow> bool" where
  "mesh_ok mr \<longleftrightarrow> om_ok (mr_peers mr) \<and>
     (\<forall>peer_id p. om_find peer_id (mr_peers mr) = Some p \<longrightarrow> peer_proved mr peer_id p)"

lemma who_fields:
  assumes "who_we_are mr' = who_we_are mr"
  shows "mr_product_user_id mr' = mr_product_user_id mr" "id_of_key key mr' = id_of_key key mr"
  using assms by (simp_all add: who_we_are_def id_of_key_def)

lemma peer_proved_same:
  "peer_proved mr peer_id p \<Longrightarrow> same_who p p' \<Longrightarrow> who_we_are mr' = who_we_are mr \<Longrightarrow> peer_proved mr' peer_id p'"
  using who_fields [of mr' mr] by (auto simp: peer_proved_def same_who_def)

lemma mesh_ok_shrinks:
  assumes "mesh_ok mr" and "shrinks same_who mr mr'"
  shows "mesh_ok mr'"
proof -
  have who: "who_we_are mr' = who_we_are mr" and ok: "om_ok (mr_peers mr')"
    using assms by (auto simp: shrinks_def mesh_ok_def)
  have "peer_proved mr' peer_id p'" if found: "om_find peer_id (mr_peers mr') = Some p'" for peer_id p'
  proof -
    obtain p where p: "om_find peer_id (mr_peers mr) = Some p" "same_who p p'" using shrinksD [OF assms(2) found] by blast
    with assms(1) have "peer_proved mr peer_id p" by (simp add: mesh_ok_def)
    from peer_proved_same [OF this p(2) who] show ?thesis .
  qed
  with ok show ?thesis by (simp add: mesh_ok_def)
qed

text \<open>The relation every tick step but adoption satisfies.\<close>

abbreviation keeps_who :: "message_router \<Rightarrow> message_router \<Rightarrow> bool" where
  "keeps_who \<equiv> shrinks same_who"

lemma keeps_who_trans: "keeps_who a b \<Longrightarrow> keeps_who b c \<Longrightarrow> keeps_who a c"
  using shrinks_trans [of same_who a b c] same_who_trans by blast

lemma keeps_who_same: "mr_peers mr' = mr_peers mr \<Longrightarrow> who_we_are mr' = who_we_are mr \<Longrightarrow> keeps_who mr mr'"
  by (rule shrinks_same) simp_all

lemma keeps_who_refl [simp]: "keeps_who mr mr"
  by (rule keeps_who_same) simp_all

lemma keeps_who_foldl: "(\<And>m x. keeps_who m (f m x)) \<Longrightarrow> keeps_who mr (foldl f mr xs)"
  by (induction xs arbitrary: mr) (auto intro: keeps_who_trans)

lemma keeps_who_log [simp]: "keeps_who mr (log_io e mr)" "keeps_who mr (close_sock s mr)"
  by (rule keeps_who_same; simp add: log_io_def close_sock_def who_we_are_def)+

lemma keeps_who_clock: "clock E mr = (now, mr') \<Longrightarrow> keeps_who mr mr'"
  by (auto simp: clock_def)

lemma keeps_who_flush: "flush_outbox E s outbox mr = (ok, left, mr') \<Longrightarrow> keeps_who mr mr'"
  by (rule keeps_who_same) (auto dest!: flush_outbox_only_logs simp: who_we_are_def)

lemma keeps_who_advertise: "keeps_who mr (advertise E mr)"
proof -
  obtain now mr1 where c: "clock E mr = (now, mr1)" by fastforce
  have sends: "keeps_who m (foldl (\<lambda>m slot. snd (socket_send_to E datagram slot m)) m slots)" for m datagram slots
    by (rule keeps_who_foldl) (simp add: socket_send_to_def)
  have mark: "keeps_who mr1 (mr1\<lparr>mr_last_advertise := now\<rparr>)" by (rule keeps_who_same) (simp_all add: who_we_are_def)
  have "keeps_who mr1 (snd (send E msg (foldl (\<lambda>m slot. snd (socket_send_to E datagram slot m)) (mr1\<lparr>mr_last_advertise := now\<rparr>) slots)))"
    for msg datagram slots
    using keeps_who_trans [OF mark keeps_who_trans [OF sends only_loses_who [OF only_loses_send]]] .
  with keeps_who_clock [OF c] show ?thesis
    by (simp add: advertise_def c Let_def keeps_who_trans)
qed

lemma keeps_who_accept_one: "keeps_who mr (accept_one E from_addr mr)"
  by (rule keeps_who_same)
    (auto simp: accept_one_def Let_def sock_do_def clock_def log_io_def close_sock_def who_we_are_def split: bool.splits)

lemma keeps_who_accept: "keeps_who mr (accept_peers E mr)"
  unfolding accept_peers_def
  by (rule keeps_who_trans [of _ "log_io io_accept mr"]) (auto intro: keeps_who_foldl keeps_who_accept_one)

lemma keeps_who_dial: "keeps_who mr (dial E peer_id address mr)"
  by (rule keeps_who_same)
    (auto simp: dial_def Let_def sock_do_def clock_def log_io_def close_sock_def who_we_are_def try_connect_def
      split: bool.splits prod.splits)

lemma keeps_who_handle_advertise: "keeps_who mr (handle_advertise E msg from_addr mr)"
  by (auto simp: handle_advertise_def keeps_who_dial split: prod.splits option.splits)

lemma keeps_who_outcomes: "dial_outcomes E now ds mr = (ready, failed, mr') \<Longrightarrow> keeps_who mr mr'"
proof (induction ds arbitrary: mr ready failed)
  case (Cons d ds)
  obtain peer_id e where d: "d = (peer_id, e)" by fastforce
  obtain ok err where c: "ne_connect E (mr_io mr) (di_connection e) (di_address e) = (ok, err)" by fastforce
  obtain ready1 failed1 where "dial_outcomes E now ds (log_io (io_connect (di_connection e) (di_address e)) mr)
      = (ready1, failed1, mr')"
    using Cons.prems d c by (auto simp: try_connect_def split: prod.splits if_splits)
  from Cons.IH [OF this] show ?case by (rule keeps_who_trans [rotated]) simp
qed simp

lemma keeps_who_give_up: "keeps_who mr (give_up_dial peer_id mr)"
  by (rule keeps_who_same) (auto simp: give_up_dial_def close_sock_def log_io_def who_we_are_def split: option.splits)

lemma keeps_who_start_handshake: "keeps_who mr (start_handshake E now peer_id mr)"
proof (cases "om_find peer_id (mr_dialing mr)")
  case None
  then show ?thesis by (simp add: start_handshake_def)
next
  case (Some d)
  define mr1 where "mr1 = log_io io_random (mr\<lparr>mr_dialing := om_erase peer_id (mr_dialing mr)\<rparr>)"
  have one: "keeps_who mr mr1" by (rule keeps_who_same) (simp_all add: mr1_def log_io_def who_we_are_def)
  have add: "keeps_who m (m\<lparr>mr_handshaking := hs\<rparr>)" for m hs by (rule keeps_who_same) (simp_all add: who_we_are_def)
  show ?thesis
    using Some one keeps_who_trans [OF keeps_who_trans [OF one keeps_who_flush] add]
      keeps_who_trans [OF keeps_who_trans [OF one keeps_who_flush] keeps_who_log(2)] keeps_who_trans [OF one keeps_who_log(2)]
    by (auto simp: start_handshake_def Let_def random_key_def mr1_def [symmetric] split: prod.splits option.splits bool.splits)
qed

lemma keeps_who_finish_dialing: "keeps_who mr (finish_dialing E mr)"
  by (auto simp: finish_dialing_def split: prod.splits
      intro!: keeps_who_foldl keeps_who_start_handshake keeps_who_trans [OF keeps_who_trans [OF keeps_who_trans
        [OF keeps_who_clock keeps_who_outcomes] keeps_who_foldl] keeps_who_foldl] keeps_who_give_up)


section \<open>Handshakes\<close>

lemma read_handshake_done: "read_handshake X rng message c = (step_done, reply, c') \<Longrightarrow> pc_established c'"
  by (auto simp: read_handshake_def pc_finish_def Let_def split: if_splits option.splits prod.splits bool.splits)

text \<open>An id is proved only by an established channel, and it is the one its key derives.\<close>

definition proves :: "handshaking_peer \<Rightarrow> string \<Rightarrow> message_router \<Rightarrow> bool" where
  "proves entry proved mr \<longleftrightarrow> (proved \<noteq> [] \<longrightarrow>
     pc_established (hp_channel entry) \<and> proved = id_of_key (pc_remote_static (hp_channel entry)) mr)"

lemma proves_log: "proves entry proved (mr\<lparr>mr_io := h\<rparr>) = proves entry proved mr"
  by (simp add: proves_def id_of_key_def)

definition only_logs :: "message_router \<Rightarrow> message_router \<Rightarrow> bool" where
  "only_logs mr mr' \<longleftrightarrow> (\<exists>es. mr' = mr\<lparr>mr_io := mr_io mr @ es\<rparr>)"

lemma only_logs_refl [simp]: "only_logs mr mr"
  unfolding only_logs_def by (rule exI [of _ "[]"]) simp

lemma only_logs_io [simp]: "only_logs mr (log_io e mr)"
  by (auto simp: only_logs_def log_io_def)

lemma only_logs_trans: "only_logs a b \<Longrightarrow> only_logs b c \<Longrightarrow> only_logs a c"
  by (auto simp: only_logs_def)

lemma only_logs_flush: "flush_outbox E s outbox mr = (ok, left, mr') \<Longrightarrow> only_logs mr mr'"
  by (auto simp: only_logs_def dest: flush_outbox_only_logs)

lemma only_logs_fields:
  assumes "only_logs mr mr'"
  shows "mr_peers mr' = mr_peers mr" "who_we_are mr' = who_we_are mr" "mr_handshaking mr' = mr_handshaking mr"
    "mr_dialing mr' = mr_dialing mr" "mr_running mr' = mr_running mr"
  using assms by (auto simp: only_logs_def who_we_are_def)

lemma only_logs_keeps: "only_logs mr mr' \<Longrightarrow> keeps_who mr mr'"
  using only_logs_fields by (intro keeps_who_same) blast+

lemma answer_handshake_proves:
  assumes "answer_handshake E message entry mr = (result, entry', mr')"
  shows "(result = step_done \<longrightarrow> pc_established (hp_channel entry')) \<and> only_logs mr mr'"
proof -
  obtain r reply c where h: "read_handshake (ne_x25519 E) (ne_random E (mr_io mr)) message (hp_channel entry) = (r, reply, c)"
    by (cases "read_handshake (ne_x25519 E) (ne_random E (mr_io mr)) message (hp_channel entry)")
  have "r = step_done \<Longrightarrow> pc_established c" using read_handshake_done h by blast
  with assms h show ?thesis
    by (auto simp: answer_handshake_def random_key_def Let_def split: if_splits prod.splits
        dest!: only_logs_flush intro: only_logs_trans [OF only_logs_io])
qed

lemma read_handshakes_proves:
  "read_handshakes E entry proved mr = (failed, entry', proved', mr') \<Longrightarrow> proves entry proved mr \<Longrightarrow>
   proves entry' proved' mr' \<and> only_logs mr mr' \<and>
   hp_expected_id entry' = hp_expected_id entry \<and> hp_connection entry' = hp_connection entry \<and>
   hp_started_at entry' = hp_started_at entry"
proof (induction E entry proved mr arbitrary: failed entry' proved' mr' rule: read_handshakes.induct)
  case (1 E entry proved mr)
  note unfold = read_handshakes.simps [of E entry proved mr]
  show ?case
  proof (cases "pc_established (hp_channel entry)")
    case True
    with "1.prems" show ?thesis by (simp add: unfold)
  next
    case False
    with "1.prems"(2) have empty: "proved = []" by (auto simp: proves_def)
    obtain st buffer message where t: "take_frame (hp_buffer entry) = (st, buffer, message)" by (cases "take_frame (hp_buffer entry)")
    obtain result entry1 mr1 where h: "answer_handshake E message (entry\<lparr>hp_buffer := buffer\<rparr>) mr = (result, entry1, mr1)"
      by (cases "answer_handshake E message (entry\<lparr>hp_buffer := buffer\<rparr>) mr")
    note keeps = answer_handshake_keeps [OF h] and proof_of = answer_handshake_proves [OF h]
    show ?thesis
    proof (cases "st = frame_ready \<and> result \<noteq> step_failed")
      case True
      let ?proved = "if result = step_done then id_of_key (pc_remote_static (hp_channel entry1)) mr1 else proved"
      have step: "read_handshakes E entry1 ?proved mr1 = (failed, entry', proved', mr')"
        using "1.prems"(1) True False t h by (simp add: unfold)
      have "proves entry1 ?proved mr1" using proof_of empty by (auto simp: proves_def)
      from "1.IH" [OF False t [symmetric] _ refl h [symmetric] refl _ step this] True
      show ?thesis using keeps proof_of only_logs_trans [of mr mr1 mr'] by simp
    next
      case no: False
      then have "(entry' = entry \<or> entry' = entry\<lparr>hp_buffer := buffer\<rparr>) \<and> mr' = mr \<or> entry' = entry1 \<and> mr' = mr1"
        using "1.prems"(1) False t h by (cases st) (simp_all add: unfold)
      moreover have "proved' = proved" using no "1.prems"(1) False t h by (cases st) (simp_all add: unfold)
      ultimately show ?thesis using keeps proof_of empty by (auto simp: proves_def)
    qed
  qed
qed

lemma drain_handshake_proves:
  assumes "drain_handshake E entry mr = (out, mr')"
  shows "keeps_who mr mr' \<and> (\<forall>entry' proved. out = hs_proved entry' proved \<longrightarrow>
    proved \<noteq> [] \<and> proves entry' proved mr' \<and> (hp_expected_id entry \<noteq> [] \<longrightarrow> hp_expected_id entry = proved))"
proof -
  obtain ok outbox mr1 where f: "flush_outbox E (hp_connection entry) (hp_outbox entry) mr = (ok, outbox, mr1)"
    by (cases "flush_outbox E (hp_connection entry) (hp_outbox entry) mr")
  obtain health buffer mr2 where r: "read_stream E (hp_connection entry) (hp_buffer entry) mr1 = (health, buffer, mr2)"
    by (cases "read_stream E (hp_connection entry) (hp_buffer entry) mr1")
  obtain failed entry' proved mr3 where h: "read_handshakes E (entry\<lparr>hp_outbox := outbox, hp_buffer := buffer\<rparr>) [] mr2
      = (failed, entry', proved, mr3)"
    by (cases "read_handshakes E (entry\<lparr>hp_outbox := outbox, hp_buffer := buffer\<rparr>) [] mr2")
  have k1: "keeps_who mr mr1" by (rule keeps_who_flush [OF f])
  have k2: "keeps_who mr mr2" using r k1 by (auto simp: read_stream_def split: prod.splits intro: keeps_who_trans)
  have p: "proves entry' proved mr3" "hp_expected_id entry' = hp_expected_id entry" "only_logs mr2 mr3"
    using read_handshakes_proves [OF h] by (simp_all add: proves_def)
  have "keeps_who mr2 mr3" by (rule only_logs_keeps [OF p(3)])
  with k2 have k3: "keeps_who mr mr3" by (rule keeps_who_trans)
  show ?thesis
  proof (cases ok)
    case True
    with assms f r h k3 p(1,2) show ?thesis by (auto simp: drain_handshake_def split: if_splits)
  next
    case False
    with assms f k1 show ?thesis by (auto simp: drain_handshake_def)
  qed
qed

lemma adopt_ok:
  assumes "mesh_ok mr" and "pc_established channel" and "peer_id = id_of_key (pc_remote_static channel) mr"
  shows "mesh_ok (snd (adopt_peer E peer_id connection channel remote leftover unsent mr))"
proof (cases "peer_id = [] \<or> peer_id = mr_product_user_id mr \<or> om_find peer_id (mr_peers mr) \<noteq> None")
  case True
  then show ?thesis using mesh_ok_shrinks [OF assms(1) keeps_who_log(2)] by (auto simp: adopt_peer_def)
next
  case False
  obtain now mr1 where c: "clock E mr = (now, mr1)" by fastforce
  have ok1: "mesh_ok mr1" by (rule mesh_ok_shrinks [OF assms(1) keeps_who_clock [OF c]])
  define entry where "entry = \<lparr>mp_connection = connection, mp_buffer = leftover, mp_outbox = unsent, mp_channel = channel,
      mp_epic_id = derive_epic_account_id (pc_remote_static channel),
      mp_datagram_addr = \<lparr>ep_ip = ep_ip remote, ep_port = 0\<rparr>, mp_last_seen = now\<rparr>"
  have same: "mr1 = log_io io_clock mr" using c by (simp add: clock_def)
  have "peer_proved mr1 peer_id entry"
    using False assms(2,3) by (auto simp: peer_proved_def entry_def same log_io_def id_of_key_def)
  moreover have "peer_proved (put_peer peer_id entry mr1) i p \<longleftrightarrow> peer_proved mr1 i p" for i p
    by (simp add: peer_proved_def put_peer_def id_of_key_def)
  ultimately have "mesh_ok (put_peer peer_id entry mr1)"
    using ok1 by (auto simp: mesh_ok_def put_peer_def)
  from mesh_ok_shrinks [OF mesh_ok_shrinks [OF this only_loses_who [OF only_loses_send]] only_loses_who [OF only_loses_event]]
  show ?thesis using False c by (simp add: adopt_peer_def announce_to_def Let_def entry_def)
qed

lemma adopt_who: "who_we_are (snd (adopt_peer E peer_id connection channel remote leftover unsent mr)) = who_we_are mr"
proof -
  have put: "who_we_are (put_peer i q m) = who_we_are m" "who_we_are (log_io e m) = who_we_are m" for i q m e
    by (simp_all add: put_peer_def log_io_def who_we_are_def)
  have "who_we_are (snd (send E msg m)) = who_we_are m" "who_we_are (dispatch_peer_event E type i m) = who_we_are m" for msg m type i
    using only_loses_send [of m E msg] only_loses_event [of m E type i] by (auto simp: only_loses_def shrinks_def)
  with put show ?thesis by (simp add: adopt_peer_def announce_to_def close_sock_def clock_def Let_def)
qed

lemma drain_entries_who: "who_we_are (drain_entries E kept rest mr) = who_we_are mr"
proof (induction rest arbitrary: kept mr)
  case (Cons entry rest)
  obtain out mr1 where d: "drain_handshake E entry mr = (out, mr1)" by fastforce
  then have "who_we_are mr1 = who_we_are mr" using drain_handshake_proves by (auto simp: shrinks_def)
  moreover have "who_we_are (m\<lparr>mr_handshaking := hs\<rparr>) = who_we_are m" "who_we_are (close_sock c m) = who_we_are m" for m hs c
    by (simp_all add: who_we_are_def close_sock_def log_io_def)
  ultimately show ?case using Cons d by (cases out) (simp_all add: adopt_who)
qed simp

lemma drain_entries_ok: "mesh_ok mr \<Longrightarrow> mesh_ok (drain_entries E kept rest mr)"
proof (induction rest arbitrary: kept mr)
  case (Cons entry rest)
  obtain out mr1 where d: "drain_handshake E entry mr = (out, mr1)" by fastforce
  note proves = drain_handshake_proves [OF d]
  have ok1: "mesh_ok mr1" using proves mesh_ok_shrinks Cons.prems by blast
  have set_hs: "mesh_ok m \<Longrightarrow> mesh_ok (m\<lparr>mr_handshaking := hs\<rparr>)" for m hs
    by (erule mesh_ok_shrinks) (rule keeps_who_same; simp add: who_we_are_def)
  show ?case
  proof (cases out)
    case (hs_pending entry')
    with d Cons.IH set_hs [OF ok1] show ?thesis by simp
  next
    case hs_failed
    with d Cons.IH mesh_ok_shrinks [OF set_hs [OF ok1] keeps_who_log(2)] show ?thesis by simp
  next
    case (hs_proved entry' proved)
    with proves have "pc_established (hp_channel entry')"
        "proved = id_of_key (pc_remote_static (hp_channel entry')) (mr1\<lparr>mr_handshaking := kept @ rest\<rparr>)"
      by (auto simp: proves_def id_of_key_def)
    from adopt_ok [OF set_hs [OF ok1] this] Cons.IH d hs_proved show ?thesis by simp
  qed
qed simp

section \<open>Frames and datagrams\<close>

lemma read_frames_keeps:
  "read_frames E peer_id p msgs mr = (broken, p', msgs', mr') \<Longrightarrow>
   same_who p p' \<and> mp_connection p' = mp_connection p \<and> only_logs mr mr'"
proof (induction E peer_id p msgs mr arbitrary: broken p' msgs' mr' rule: read_frames.induct)
  case (1 E peer_id p msgs mr)
  note unfold = read_frames.simps [of E peer_id p msgs mr]
  obtain st buffer sealed where t: "take_frame (mp_buffer p) = (st, buffer, sealed)" by (cases "take_frame (mp_buffer p)")
  show ?case
  proof (cases st)
    case frame_ready
    obtain plain c where u: "pc_unseal sealed (write_be32 (word_of_nat (length sealed))) (mp_channel p) = (plain, c)" by fastforce
    note keeps = pc_unseal_keeps [OF u]
    have step: "same_who p q \<and> mp_connection q = mp_connection p"
      if "mp_channel q = c" "mp_epic_id q = mp_epic_id p" "mp_connection q = mp_connection p" for q
      using that keeps by (simp add: same_who_def)
    show ?thesis
    proof (cases plain)
      case None
      with "1.prems" frame_ready t u step show ?thesis by (auto simp: unfold)
    next
      case (Some opened)
      define p1 where "p1 = p\<lparr>mp_buffer := buffer, mp_channel := c\<rparr>"
      obtain envelope r where d: "deserialize_net_envelope (reader_of opened) = (envelope, r)" by fastforce
      show ?thesis
      proof (cases envelope)
        case None
        then have "read_frames E peer_id p1 msgs mr = (broken, p', msgs', mr')"
          using "1.prems" frame_ready t u Some d by (simp add: unfold p1_def)
        from "1.IH"(1) [OF t [symmetric] frame_ready refl u [symmetric] Some p1_def d [symmetric] None this]
        show ?thesis using step [of p1] same_who_trans by (auto simp: p1_def)
      next
        case env: (Some e)
        define msg where "msg = e\<lparr>env_source_id := peer_id\<rparr>"
        obtain now mr1 where c: "clock E mr = (now, mr1)" by fastforce
        define p2 where "p2 = p1\<lparr>mp_last_seen := now\<rparr>"
        have log1: "only_logs mr mr1" using c by (auto simp: clock_def)
        have finish: ?thesis if "read_frames E peer_id q msgs1 mr1 = (broken, p', msgs', mr')"
            "same_who q p' \<and> mp_connection p' = mp_connection q \<and> only_logs mr1 mr'"
            "mp_channel q = mp_channel p1" "mp_epic_id q = mp_epic_id p" "mp_connection q = mp_connection p" for q msgs1
          using that step [of q] only_logs_trans [OF log1] same_who_trans [of p q p'] by (auto simp: p1_def)
        show ?thesis
        proof (cases "env_type_tag msg = tag_of mt_net_advertise")
          case True
          then have r: "read_frames E peer_id (learn_datagram_port msg p2) msgs mr1 = (broken, p', msgs', mr')"
            using "1.prems" frame_ready t u Some d env c by (simp add: unfold p1_def p2_def msg_def)
          from "1.IH"(2) [OF t [symmetric] frame_ready refl u [symmetric] Some p1_def d [symmetric] env msg_def c [symmetric] p2_def True r]
          show ?thesis by (intro finish [OF r]) (simp_all add: p1_def p2_def)
        next
          case False
          then have r: "read_frames E peer_id p2 (if accept_inbound msg mr1 then msgs @ [msg] else msgs) mr1 = (broken, p', msgs', mr')"
            using "1.prems" frame_ready t u Some d env c by (auto simp: unfold p1_def p2_def msg_def Let_def split: if_splits)
          from "1.IH"(3) [OF t [symmetric] frame_ready refl u [symmetric] Some p1_def d [symmetric] env msg_def c [symmetric] p2_def False r]
          show ?thesis by (intro finish [OF r]) (simp_all add: p1_def p2_def)
        qed
      qed
    qed
  qed (use "1.prems" t in \<open>auto simp: unfold same_who_def\<close>)
qed

end
