(* ===== verification/Router_Properties.thy ===== *)
theory Router_Properties
  imports Router_Invariant Router_Delivery
begin

text \<open>
  What the router promises over any run: who is in the mesh, who a delivered message is from, and
  that connections which fall silent go.
\<close>

section \<open>Every operation keeps the invariant\<close>

lemma drain_peer_shape:
  assumes "drain_peer E peer_id p mr = (dropped, msgs, mr')"
  shows "\<exists>q m. mr' = put_peer peer_id q m \<and> only_logs mr m \<and> same_who p q"
proof -
  obtain health buffer mr1 where r: "read_stream E (mp_connection p) (mp_buffer p) mr = (health, buffer, mr1)"
    by (cases "read_stream E (mp_connection p) (mp_buffer p) mr")
  obtain broken p' msgs' mr2 where f: "read_frames E peer_id (p\<lparr>mp_buffer := buffer\<rparr>) [] mr1 = (broken, p', msgs', mr2)"
    by (cases "read_frames E peer_id (p\<lparr>mp_buffer := buffer\<rparr>) [] mr1")
  obtain ok outbox mr3 where o: "flush_outbox E (mp_connection p') (mp_outbox p') mr2 = (ok, outbox, mr3)"
    by (cases "flush_outbox E (mp_connection p') (mp_outbox p') mr2")
  have l1: "only_logs mr mr1" using r by (auto simp: read_stream_def split: prod.splits)
  have l2: "only_logs mr mr2" and who: "same_who p p'"
    using read_frames_keeps [OF f] only_logs_trans [OF l1] by (auto simp: same_who_def)
  have l3: "only_logs mr mr3" using only_logs_trans [OF l2 only_logs_flush [OF o]] .
  have "same_who p (p'\<lparr>mp_outbox := outbox\<rparr>)" using who by (simp add: same_who_def)
  with assms r f o l2 l3 who show ?thesis by (auto simp: drain_peer_def split: if_splits)
qed

lemma drain_peer_keeps:
  assumes "drain_peer E peer_id p mr = (dropped, msgs, mr')" and "om_find peer_id (mr_peers mr) = Some p"
  shows "keeps_who mr mr'"
proof -
  obtain q m where s: "mr' = put_peer peer_id q m" "only_logs mr m" "same_who p q"
    using drain_peer_shape [OF assms(1)] by blast
  show ?thesis
    by (rule shrinks_put [where R = same_who, OF assms(2) s(3)])
      (use only_logs_fields [OF s(2)] in \<open>auto simp: s(1) put_peer_def who_we_are_def\<close>)
qed

lemma drain_each_keeps: "drain_each E ids mr = (dead, msgs, mr') \<Longrightarrow> keeps_who mr mr'"
proof (induction ids arbitrary: mr dead msgs)
  case (Cons peer_id ids)
  show ?case
  proof (cases "om_find peer_id (mr_peers mr)")
    case None
    with Cons show ?thesis by auto
  next
    case (Some p)
    obtain dropped msgs1 mr1 where d: "drain_peer E peer_id p mr = (dropped, msgs1, mr1)"
      by (cases "drain_peer E peer_id p mr")
    with Cons.prems Some obtain dead1 msgs2 where "drain_each E ids mr1 = (dead1, msgs2, mr')"
      by (auto split: prod.splits)
    from Cons.IH [OF this] drain_peer_keeps [OF d Some] show ?thesis by (blast intro: keeps_who_trans)
  qed
qed simp

lemma keeps_who_drain_peers: "keeps_who mr (drain_peers E mr)"
proof -
  obtain dead msgs mr1 where d: "drain_each E (peer_ids mr) mr = (dead, msgs, mr1)" by (cases "drain_each E (peer_ids mr) mr")
  obtain own mr2 where s: "drain_self_pipe E (drop_peers E dead mr1) = (own, mr2)" by fastforce
  have "keeps_who (drop_peers E dead mr1) mr2"
    by (rule keeps_who_same)
      (use s in \<open>auto simp: drain_self_pipe_def read_stream_def log_io_def who_we_are_def split: prod.splits\<close>)
  moreover have "keeps_who mr2 (foldl (\<lambda>m msg. dispatch E msg m) mr2 (msgs @ own))"
    by (rule keeps_who_foldl) (rule only_loses_who [OF only_loses_dispatch])
  ultimately have "keeps_who mr (foldl (\<lambda>m msg. dispatch E msg m) mr2 (msgs @ own))"
    using drain_each_keeps [OF d] only_loses_who [OF only_loses_drops, of mr1 E dead] by (blast intro: keeps_who_trans)
  then show ?thesis using d s by (simp add: drain_peers_def)
qed

lemma keeps_who_datagram: "mesh_ok mr \<Longrightarrow> keeps_who mr (handle_datagram E data mr)"
proof -
  assume ok: "mesh_ok mr"
  show ?thesis
  proof (cases "length data < datagram_header_len + aead_tag_len \<or> peer_of_tag (read_be32 (drop 1 data)) mr = None")
    case True
    then show ?thesis by (auto simp: handle_datagram_def)
  next
    case False
    then obtain peer_id p where f: "peer_of_tag (read_be32 (drop 1 data)) mr = Some (peer_id, p)" by auto
    then have p: "om_find peer_id (mr_peers mr) = Some p"
      using ok by (auto simp: peer_of_tag_def mesh_ok_def om_find_iff find_Some_iff) (metis nth_mem)
    obtain plain c where o: "open_datagram peer_id (mr_product_user_id mr) (read_be64 (drop 5 data))
        (drop datagram_header_len data) (mp_channel p) = (plain, c)" by fastforce
    note keeps = open_datagram_keeps [OF o]
    have put: "keeps_who mr ((put_peer peer_id q (log_io e mr))\<lparr>mr_datagrams_received := n\<rparr>)" "keeps_who mr (put_peer peer_id q mr)"
      if "same_who p q" for q e n
      by (rule shrinks_put [where R = same_who, OF p that]; simp add: put_peer_def log_io_def who_we_are_def)+
    show ?thesis
    proof (cases plain)
      case None
      with False f o put(2) [of "p\<lparr>mp_channel := c\<rparr>"] keeps show ?thesis
        by (simp add: handle_datagram_def Let_def same_who_def)
    next
      case (Some opened)
      define p' where "p' = p\<lparr>mp_channel := c, mp_last_seen := ne_now E (mr_io mr)\<rparr>"
      have "same_who p p'" using keeps by (simp add: p'_def same_who_def)
      from keeps_who_trans [OF put(1) [OF this] only_loses_who [OF only_loses_dispatch]]
      show ?thesis using False f o Some by (simp add: handle_datagram_def Let_def clock_def p'_def)
    qed
  qed
qed

lemma drain_datagram_list_ok:
  "mesh_ok mr \<Longrightarrow> mesh_ok (drain_datagram_list E ds mr) \<and> who_we_are (drain_datagram_list E ds mr) = who_we_are mr"
proof (induction E ds mr rule: drain_datagram_list.induct)
  case (3 E kind body from_addr rest mr)
  then have "mesh_ok (handle_datagram E (kind # body) mr)" "mesh_ok (handle_advertise E msg from_addr mr)" for msg
    by (blast intro: mesh_ok_shrinks keeps_who_datagram keeps_who_handle_advertise)+
  moreover have "who_we_are (handle_datagram E (kind # body) mr) = who_we_are mr"
    "who_we_are (handle_advertise E msg from_addr mr) = who_we_are mr" for msg
    using keeps_who_datagram [OF 3(2)] keeps_who_handle_advertise by (auto simp: shrinks_def)
  ultimately show ?case using 3 by (auto split: option.splits prod.splits)
qed simp_all

lemma keeps_who_expire: "keeps_who mr (expire_handshaking E mr)" "keeps_who mr (expire_peers E mr)"
proof -
  have closes: "keeps_who m (foldl (\<lambda>m h. close_sock (hp_connection h) m) m hs)" for m hs
    by (rule keeps_who_foldl) simp
  have "keeps_who (log_io io_clock mr) ((log_io io_clock mr)\<lparr>mr_handshaking := hs\<rparr>)" for hs
    by (rule keeps_who_same) (simp_all add: who_we_are_def)
  from keeps_who_trans [OF keeps_who_trans [OF keeps_who_log(1) this] closes]
  show "keeps_who mr (expire_handshaking E mr)" by (simp add: expire_handshaking_def clock_def Let_def)
  show "keeps_who mr (expire_peers E mr)"
    using keeps_who_trans [OF keeps_who_log(1) only_loses_who [OF only_loses_drops]]
    by (simp add: expire_peers_def clock_def)
qed

text \<open>The first half of a tick, up to the handshakes, and then the whole of it.\<close>

lemma drained_ok:
  assumes "mesh_ok mr"
  shows "mesh_ok (drain_handshaking E (drain_datagrams E (finish_dialing E (accept_peers E (advertise E mr))))) \<and>
    who_we_are (drain_handshaking E (drain_datagrams E (finish_dialing E (accept_peers E (advertise E mr))))) = who_we_are mr"
proof -
  define mr1 where "mr1 = finish_dialing E (accept_peers E (advertise E mr))"
  have kept: "keeps_who mr mr1"
    unfolding mr1_def
    using keeps_who_trans [OF keeps_who_trans [OF keeps_who_advertise keeps_who_accept] keeps_who_finish_dialing] .
  from mesh_ok_shrinks [OF assms keeps_who_trans [OF kept keeps_who_log(1)]]
  have "mesh_ok (log_io io_datagrams mr1)" .
  from drain_datagram_list_ok [OF this, of E "ne_datagrams E (mr_io mr1)"]
  have "mesh_ok (drain_handshaking E (drain_datagrams E mr1)) \<and>
      who_we_are (drain_handshaking E (drain_datagrams E mr1)) = who_we_are mr1"
    by (simp add: drain_handshaking_def drain_datagrams_def drain_entries_ok drain_entries_who)
      (simp add: who_we_are_def log_io_def)
  moreover have "who_we_are mr1 = who_we_are mr" using kept by (simp add: shrinks_def)
  ultimately show ?thesis by (simp add: mr1_def)
qed

lemma tick_ok:
  assumes "mesh_ok mr"
  shows "mesh_ok (cb_run_frame E mr) \<and> who_we_are (cb_run_frame E mr) = who_we_are mr"
proof -
  let ?mid = "drain_handshaking E (drain_datagrams E (finish_dialing E (accept_peers E (advertise E mr))))"
  have rest: "keeps_who ?mid (expire_peers E (expire_handshaking E (drain_peers E ?mid)))"
    using keeps_who_trans [OF keeps_who_trans [OF keeps_who_drain_peers keeps_who_expire(1)] keeps_who_expire(2)] .
  then have "who_we_are (expire_peers E (expire_handshaking E (drain_peers E ?mid))) = who_we_are ?mid"
    by (simp add: shrinks_def)
  with mesh_ok_shrinks [OF _ rest] drained_ok [OF assms] assms show ?thesis by (simp add: cb_run_frame_def Let_def)
qed

lemma keeps_who_sock: "sock_do E c mr = (ok, mr') \<Longrightarrow> keeps_who mr mr'"
  by (auto simp: sock_do_def)

lemma keeps_who_steps: "sock_steps E calls mr = (ok, mr') \<Longrightarrow> keeps_who mr mr'"
proof (induction calls arbitrary: mr)
  case (Cons c calls)
  obtain ok1 mr1 where c: "sock_do E c mr = (ok1, mr1)" by fastforce
  with Cons show ?case by (cases ok1) (auto intro: keeps_who_trans [OF keeps_who_sock [OF c]])
qed simp

lemma keeps_who_steps_snd: "keeps_who mr (snd (sock_steps E calls mr))"
  by (cases "sock_steps E calls mr") (simp add: keeps_who_steps)

lemma keeps_who_slot: "take_slot E ports mr = (ok, mr') \<Longrightarrow> keeps_who mr mr'"
proof (induction ports arbitrary: mr)
  case (Cons port ports)
  obtain ok1 mr1 where c: "sock_do E (sc_bind s_udp \<lparr>ep_ip = ip_any, ep_port = port\<rparr>) mr = (ok1, mr1)" by fastforce
  have "keeps_who mr1 (mr1\<lparr>mr_discovery_port := port\<rparr>)" by (rule keeps_who_same) (simp_all add: who_we_are_def)
  from keeps_who_trans [OF keeps_who_sock [OF c] this] keeps_who_sock [OF c] Cons c show ?case
    by (cases ok1) (auto intro: keeps_who_trans dest: keeps_who_sock)
qed simp

lemma keeps_who_discovery: "open_discovery E mr = (ok, mr') \<Longrightarrow> keeps_who mr mr'"
  by (auto simp: open_discovery_def split: prod.splits bool.splits simp del: sock_steps.simps
      intro: keeps_who_trans [OF keeps_who_steps keeps_who_slot] keeps_who_steps)

lemma keeps_who_mesh: "open_mesh E mr = (ok, mr') \<Longrightarrow> keeps_who mr mr'"
proof -
  assume o: "open_mesh E mr = (ok, mr')"
  have port: "keeps_who m (m\<lparr>mr_mesh_port := p\<rparr>)" for m p by (rule keeps_who_same) (simp_all add: who_we_are_def)
  from o show ?thesis unfolding open_mesh_def
    by (auto split: prod.splits bool.splits simp del: sock_steps.simps dest: keeps_who_steps
        intro: keeps_who_trans [OF keeps_who_trans [OF keeps_who_steps port] keeps_who_steps])
qed

lemma keeps_who_pipe: "open_self_pipe E mr = (ok, mr') \<Longrightarrow> keeps_who mr mr'"
  by (auto simp: open_self_pipe_def Let_def simp del: sock_steps.simps split: prod.splits bool.splits
      intro!: keeps_who_trans [OF _ keeps_who_log(2)] dest: keeps_who_steps
      intro: keeps_who_trans [OF keeps_who_steps keeps_who_steps_snd])

lemma keeps_who_stop: "keeps_who mr (stop E mr)"
proof -
  have clear: "keeps_who m (m\<lparr>mr_handshaking := [], mr_dialing := [], mr_self_buffer := [], mr_mesh_port := 0,
      mr_discovery_port := 0, mr_running := False\<rparr>)" for m
    by (rule keeps_who_same) (simp_all add: who_we_are_def)
  have "keeps_who m (foldl (\<lambda>m x. f m x) m xs)" if "\<And>m x. keeps_who m (f m x)" for m xs f
    by (rule keeps_who_foldl) (rule that)
  note folds = this
  show ?thesis
    unfolding stop_def Let_def
    by (rule keeps_who_trans [OF _ clear], rule keeps_who_trans [OF _ folds], rule keeps_who_trans [OF _ folds],
        rule keeps_who_trans [OF _ folds], rule folds) (simp_all add: only_loses_who [OF only_loses_drop])
qed

lemma keeps_who_start: "keeps_who mr (snd (start E mr))"
proof (cases "mr_running mr \<or> \<not> mr_have_profile (stop E mr)")
  case True
  then show ?thesis using keeps_who_stop by (auto simp: start_def Let_def)
next
  case False
  obtain ok1 m1 where d: "open_discovery E (stop E mr) = (ok1, m1)" by fastforce
  obtain ok2 m2 where m: "open_mesh E m1 = (ok2, m2)" by fastforce
  obtain ok3 m3 where p: "open_self_pipe E m2 = (ok3, m3)" by fastforce
  have k1: "keeps_who mr m1" by (rule keeps_who_trans [OF keeps_who_stop keeps_who_discovery [OF d]])
  have k2: "keeps_who mr m2" by (rule keeps_who_trans [OF k1 keeps_who_mesh [OF m]])
  have k3: "keeps_who mr m3" by (rule keeps_who_trans [OF k2 keeps_who_pipe [OF p]])
  have k4: "keeps_who mr (m3\<lparr>mr_last_advertise := 0, mr_running := True\<rparr>)"
    by (rule keeps_who_trans [OF k3]) (rule keeps_who_same; simp add: who_we_are_def)
  show ?thesis
    using False d m p k4 keeps_who_trans [OF k1 keeps_who_stop] keeps_who_trans [OF k2 keeps_who_stop]
      keeps_who_trans [OF k3 keeps_who_stop]
    by (cases ok1; cases ok2; cases ok3) (simp_all add: start_def Let_def)
qed

text \<open>A loopback that never takes the bytes is an offer that never returns.\<close>

lemma keeps_who_offer:
  assumes "offer_to_self E unsent mr = Some r"
  shows "keeps_who mr (snd r)"
proof (rule offer_to_self.raw_induct [OF _ assms, of "\<lambda>E unsent mr r. keeps_who mr (snd r)"], goal_cases step)
  case (step offer E unsent mr r)
  have more: "keeps_who mr (snd r)" if "offer E u (log_io e mr) = Some r" for u e
    using keeps_who_trans [OF keeps_who_log(1) step(1) [OF that]] .
  from step(2) more show ?case by (auto simp: Let_def split: if_splits)
qed

section \<open>Runs\<close>

datatype router_op =
    ro_start
  | ro_stop
  | ro_tick
  | ro_call router_call
  | ro_send_to_self net_envelope
  | ro_set_config net_config

definition router_do :: "net_env \<Rightarrow> message_router \<Rightarrow> router_op \<Rightarrow> message_router" where
  "router_do E mr op =
     (case op of
        ro_start \<Rightarrow> snd (start E mr)
      | ro_stop \<Rightarrow> stop E mr
      | ro_tick \<Rightarrow> cb_run_frame E mr
      | ro_call c \<Rightarrow> run_work E [w_call c] mr
      | ro_send_to_self msg \<Rightarrow> (case send_to_self E msg mr of None \<Rightarrow> mr | Some (ok, mr') \<Rightarrow> mr')
      | ro_set_config config \<Rightarrow> set_config config mr)"


definition mesh_inv :: "string \<times> string \<times> string \<times> string \<Rightarrow> message_router \<Rightarrow> bool" where
  "mesh_inv who mr \<longleftrightarrow> mesh_ok mr \<and> who_we_are mr = who"

lemma mesh_inv_keeps: "mesh_inv who mr \<Longrightarrow> keeps_who mr mr' \<Longrightarrow> mesh_inv who mr'"
  by (auto simp: mesh_inv_def dest: mesh_ok_shrinks) (simp add: shrinks_def)

lemma mesh_inv_do: "mesh_inv who mr \<Longrightarrow> mesh_inv who (router_do E mr op)"
proof (cases op)
  case ro_tick
  then show "mesh_inv who mr \<Longrightarrow> ?thesis" using tick_ok by (simp add: mesh_inv_def router_do_def)
next
  case (ro_send_to_self msg)
  have "keeps_who mr (case send_to_self E msg mr of None \<Rightarrow> mr | Some (ok, mr') \<Rightarrow> mr')"
    using keeps_who_offer by (auto simp: send_to_self_def split: option.splits)
  then show "mesh_inv who mr \<Longrightarrow> ?thesis" using mesh_inv_keeps by (simp add: ro_send_to_self router_do_def)
next
  case (ro_set_config config)
  have "keeps_who mr (set_config config mr)" by (rule keeps_who_same) (simp_all add: set_config_def who_we_are_def)
  then show "mesh_inv who mr \<Longrightarrow> ?thesis" using mesh_inv_keeps by (simp add: ro_set_config router_do_def)
qed (auto simp: router_do_def simp del: run_work.simps
    intro: mesh_inv_keeps keeps_who_start keeps_who_stop only_loses_who [OF only_loses_work])

definition mesh_start :: "identity \<Rightarrow> string \<Rightarrow> string \<Rightarrow> string \<Rightarrow> message_router" where
  "mesh_start profile p s d = set_identity profile p s d new_message_router"

interpretation router_runs: transition_system "mesh_start profile p s d" "router_do E"
  "mesh_inv (who_we_are (mesh_start profile p s d))" for profile p s d E
proof
  show "mesh_inv (who_we_are (mesh_start profile p s d)) (mesh_start profile p s d)"
    by (simp add: mesh_inv_def mesh_ok_def mesh_start_def set_identity_def Let_def new_message_router_def)
  show "mesh_inv who mr \<Longrightarrow> mesh_inv who (router_do E mr op)" for who mr op by (rule mesh_inv_do)
qed

text \<open>C24. Whatever the network does and whatever the game and the listeners ask, a peer is in the mesh only
  with an established channel, under the id that the key proved on that channel derives for this
  title, with the epic account id of the same key; it is never ourselves, and never there twice.\<close>

theorem peers_are_who_they_proved:
  "list_all (\<lambda>(peer_id, peer). pc_established (mp_channel peer) \<and>
       peer_id = derive_product_user_id (pc_remote_static (mp_channel peer)) p s d \<and>
       mp_epic_id peer = derive_epic_account_id (pc_remote_static (mp_channel peer)) \<and>
       peer_id \<noteq> mr_product_user_id (mesh_start profile p s d))
     (mr_peers (run (router_do E) (mesh_start profile p s d) ops)) \<and>
   distinct (peer_ids (run (router_do E) (mesh_start profile p s d) ops))"
proof -
  define mr where "mr = run (router_do E) (mesh_start profile p s d) ops"
  have inv: "mesh_inv (who_we_are (mesh_start profile p s d)) mr" unfolding mr_def by (rule router_runs.inv_run)
  then have ok: "om_ok (mr_peers mr)" "\<forall>(peer_id, peer)\<in>set (mr_peers mr). peer_proved mr peer_id peer"
    by (auto simp: mesh_inv_def mesh_ok_def om_find_iff)
  have who: "who_we_are mr = who_we_are (mesh_start profile p s d)" using inv by (simp add: mesh_inv_def)
  have "mr_game_id (mesh_start profile p s d) = p \<and> mr_sandbox_id (mesh_start profile p s d) = s \<and>
      mr_deployment_id (mesh_start profile p s d) = d"
    by (simp add: mesh_start_def set_identity_def Let_def)
  with ok who show ?thesis
    unfolding mr_def [symmetric]
    by (fastforce simp: peer_proved_def who_we_are_def id_of_key_def peer_ids_def om_ok_distinct list_all_iff)
qed

section \<open>Only what the peer sealed is delivered\<close>

text \<open>What a peer's texts come to: the envelopes among them that are for us, under its id.\<close>

fun envelopes_from :: "string \<Rightarrow> message_router \<Rightarrow> bytes list \<Rightarrow> net_envelope list" where
  "envelopes_from peer_id mr [] = []"
| "envelopes_from peer_id mr (plain # plains) =
     (case fst (deserialize_net_envelope (reader_of plain)) of
        None \<Rightarrow> envelopes_from peer_id mr plains
      | Some msg \<Rightarrow>
          (if env_type_tag msg \<noteq> tag_of mt_net_advertise \<and> accept_inbound msg mr
           then [msg\<lparr>env_source_id := peer_id\<rparr>] else []) @ envelopes_from peer_id mr plains)"

lemma envelopes_from_logs: "only_logs mr mr' \<Longrightarrow> envelopes_from peer_id mr' plains = envelopes_from peer_id mr plains"
  by (induction plains) (auto simp: only_logs_def accept_inbound_def split: option.splits)

text \<open>The converse of \<open>take_frame_message\<close>: a frame taken is framed bytes.\<close>

lemma write_read_be32: "4 \<le> length data \<Longrightarrow> write_be32 (read_be32 data) = take 4 data"
proof -
  have bytes: "(ucast (drop_bit 24 w) :: u8) = a \<and> (ucast (drop_bit 16 w) :: u8) = b \<and>
      (ucast (drop_bit 8 w) :: u8) = c \<and> (ucast w :: u8) = d"
    if "w = (push_bit 24 (ucast a) OR push_bit 16 (ucast b) OR push_bit 8 (ucast c) OR ucast d :: u32)" for a b c d :: u8 and w
    unfolding that by (intro conjI bit_eqI) (auto simp: bit_simps dest: bit_imp_le_length)
  assume "4 \<le> length data"
  then obtain a b c d rest where data: "data = a # b # c # d # rest"
    by (metis One_nat_def Suc_le_length_iff eval_nat_numeral(2) eval_nat_numeral(3) numeral_eq_Suc pred_numeral_simps(1) semiring_norm(26) semiring_norm(27) semiring_norm(28))
  show ?thesis using bytes [OF refl, of a b c d] by (simp add: write_be32_def low_byte read_be32_def data)
qed

lemma taken_frame:
  assumes "take_frame buffer = (frame_ready, rest, body)"
  shows "buffer = write_be32 (word_of_nat (length body)) @ body @ rest"
proof -
  note r = take_frame_ready [OF assms]
  have "word_of_nat (length body) = read_be32 buffer" by (simp add: r(2) [symmetric])
  then have "write_be32 (word_of_nat (length body)) = take 4 buffer" using r(4) by (simp add: write_read_be32 frame_prefix_len_def)
  moreover have "body @ rest = drop 4 buffer"
    using r(5,6) by (metis append_take_drop_id drop_drop frame_prefix_len_def add.commute)
  ultimately show ?thesis by (metis append_take_drop_id)
qed


text \<open>A frame that opens is one the other end of the channel would have sealed.\<close>

lemma opened_frame_sealed:
  assumes "take_frame buffer = (frame_ready, rest, sealed)" and "linked a c"
    and "pc_unseal sealed (write_be32 (word_of_nat (length sealed))) c = (Some plain, c')"
  shows "\<exists>framed a'. seal_frame plain a = (Some framed, a') \<and> buffer = framed @ rest \<and> linked a' c'"
proof -
  let ?prefix = "write_be32 (word_of_nat (length sealed))"
  obtain a' where a': "pc_seal plain ?prefix a = (Some sealed, a')" "linked a' c'"
    using opens_sealed [OF assms(2,3)] by blast
  then obtain cs where e: "cs_encrypt ?prefix plain (tk_send (pc_keys a)) = (Some sealed, cs)"
    using assms(2) by (auto simp: pc_seal_def linked_def split: prod.splits)
  have len: "length sealed = length plain + aead_tag_len"
    using cs_encrypt_length [OF e] assms(2) by (auto simp: linked_def tag_len_def aead_tag_len_def)
  have "length sealed \<le> unat max_message_size"
    using take_frame_ready(2,3) [OF assms(1)] by (metis word_le_nat_alt)
  then have "seal_frame plain a = (Some (?prefix @ sealed), a')"
    using a'(1) by (simp add: seal_frame_def Let_def len [symmetric])
  with a'(2) taken_frame [OF assms(1)] show ?thesis by auto
qed

lemma read_frames_delivers:
  "read_frames E peer_id p msgs mr = (broken, p', msgs', mr') \<Longrightarrow> linked a (mp_channel p) \<Longrightarrow>
   \<exists>plains stream a' rest. seal_frames plains a = Some (stream, a') \<and> mp_buffer p = stream @ rest \<and>
     msgs' = msgs @ envelopes_from peer_id mr plains"
proof (induction E peer_id p msgs mr arbitrary: broken p' msgs' mr' a rule: read_frames.induct)
  case (1 E peer_id p msgs mr)
  note unfold = read_frames.simps [of E peer_id p msgs mr]
  have stop: ?case if "msgs' = msgs"
    by (rule exI [of _ "[]"], rule exI [of _ "[]"]) (simp add: that)
  obtain st buffer sealed where t: "take_frame (mp_buffer p) = (st, buffer, sealed)" by (cases "take_frame (mp_buffer p)")
  obtain plain c where u: "pc_unseal sealed (write_be32 (word_of_nat (length sealed))) (mp_channel p) = (plain, c)" by fastforce
  show ?case
  proof (cases "st = frame_ready \<and> plain \<noteq> None")
    case False
    with "1.prems"(1) t u stop show ?thesis by (cases st) (auto simp: unfold)
  next
    case True
    then obtain opened where ready: "st = frame_ready" and Some: "plain = Some opened" by auto
    from opened_frame_sealed [OF t [unfolded ready] "1.prems"(2) u [unfolded Some]] obtain framed a1 where
      f: "seal_frame opened a = (Some framed, a1)" "mp_buffer p = framed @ buffer" "linked a1 c" by blast
    define p1 where "p1 = p\<lparr>mp_buffer := buffer, mp_channel := c\<rparr>"
    obtain envelope r where d: "deserialize_net_envelope (reader_of opened) = (envelope, r)" by fastforce
    have finish: ?thesis if "\<exists>plains stream a' rest. seal_frames plains a1 = Some (stream, a') \<and> buffer = stream @ rest \<and>
        msgs' = msgs @ envelopes_from peer_id mr (opened # plains)"
    proof -
      from that obtain plains stream a' rest where "seal_frames plains a1 = Some (stream, a')" "buffer = stream @ rest"
        "msgs' = msgs @ envelopes_from peer_id mr (opened # plains)" by blast
      with f have "seal_frames (opened # plains) a = Some (framed @ stream, a') \<and> mp_buffer p = (framed @ stream) @ rest \<and>
          msgs' = msgs @ envelopes_from peer_id mr (opened # plains)" by simp
      then show ?thesis by blast
    qed
    show ?thesis
    proof (cases envelope)
      case None
      then have "read_frames E peer_id p1 msgs mr = (broken, p', msgs', mr')"
        using "1.prems" ready t u Some d by (simp add: unfold p1_def)
      from "1.IH"(1) [OF t [symmetric] ready refl u [symmetric] Some p1_def d [symmetric] None this, of a1] f(3) d None
      show ?thesis by (intro finish) (simp add: p1_def)
    next
      case env: (Some e)
      define msg where "msg = e\<lparr>env_source_id := peer_id\<rparr>"
      obtain now mr1 where c: "clock E mr = (now, mr1)" by fastforce
      define p2 where "p2 = p1\<lparr>mp_last_seen := now\<rparr>"
      have same: "envelopes_from peer_id mr1 plains = envelopes_from peer_id mr plains" for plains
        using c by (intro envelopes_from_logs) (auto simp: clock_def)
      have inbound: "accept_inbound msg mr1 = accept_inbound e mr"
        using c by (auto simp: clock_def accept_inbound_def log_io_def msg_def)
      show ?thesis
      proof (cases "env_type_tag msg = tag_of mt_net_advertise")
        case True
        then have r: "read_frames E peer_id (learn_datagram_port msg p2) msgs mr1 = (broken, p', msgs', mr')"
          using "1.prems" ready t u Some d env c by (simp add: unfold p1_def p2_def msg_def)
        from "1.IH"(2) [OF t [symmetric] ready refl u [symmetric] Some p1_def d [symmetric] env msg_def c [symmetric]
            p2_def True r, of a1] f(3) d env True same
        show ?thesis by (intro finish) (simp add: p1_def p2_def msg_def)
      next
        case False
        then have r: "read_frames E peer_id p2 (if accept_inbound msg mr1 then msgs @ [msg] else msgs) mr1 = (broken, p', msgs', mr')"
          using "1.prems" ready t u Some d env c by (auto simp: unfold p1_def p2_def msg_def Let_def split: if_splits)
        from "1.IH"(3) [OF t [symmetric] ready refl u [symmetric] Some p1_def d [symmetric] env msg_def c [symmetric]
            p2_def False r, of a1] f(3) d env False same inbound
        show ?thesis by (intro finish) (cases "accept_inbound e mr"; simp add: p1_def p2_def msg_def)
      qed
    qed
  qed
qed

text \<open>C25. Nothing forged is delivered.  Whatever bytes a connection brings, the messages a tick takes from a
  peer are exactly those of a sequence of texts that, sealed in that order by the other end of its
  channel, make a prefix of those bytes; each is delivered under the peer's proved id, if it is
  for this game and for us, and its own claim of a source is ignored.\<close>

theorem only_sealed_messages_are_delivered:
  assumes "linked a (mp_channel p)"
    and "drain_peer E peer_id p mr = (dropped, msgs, mr')"
  shows "\<exists>plains stream a' rest. seal_frames plains a = Some (stream, a') \<and>
    snd (read_chunks (ne_reads E (mr_io mr) (mp_connection p)) (mp_buffer p)) = stream @ rest \<and>
    msgs = envelopes_from peer_id mr plains"
proof -
  obtain health buffer mr1 where r: "read_stream E (mp_connection p) (mp_buffer p) mr = (health, buffer, mr1)"
    by (cases "read_stream E (mp_connection p) (mp_buffer p) mr")
  then have b: "snd (read_chunks (ne_reads E (mr_io mr) (mp_connection p)) (mp_buffer p)) = buffer" "only_logs mr mr1"
    by (auto simp: read_stream_def split: prod.splits)
  obtain broken p' msgs1 mr2 where f: "read_frames E peer_id (p\<lparr>mp_buffer := buffer\<rparr>) [] mr1 = (broken, p', msgs1, mr2)"
    by (cases "read_frames E peer_id (p\<lparr>mp_buffer := buffer\<rparr>) [] mr1")
  have "msgs = msgs1" using assms(2) r f by (auto simp: drain_peer_def split: if_splits prod.splits)
  with read_frames_delivers [OF f, of a] assms(1) b envelopes_from_logs [OF b(2)] show ?thesis by simp
qed

theorem only_sealed_messages_are_delivered_witness:
  "\<exists>plains stream a' rest. seal_frames plains (established_channel [] True []) = Some (stream, a') \<and>
     [0, 0, 0, 1, 9] = stream @ rest \<and>
     fst (snd (drain_peer (quiet_net [rc_bytes [0, 0, 0, 1, 9]]) ''a'' (example_peer False) example_there)) =
       envelopes_from ''a'' example_there plains"
proof -
  let ?net = "quiet_net [rc_bytes [0, 0, 0, 1, 9]]"
  have linked: "linked (established_channel [] True []) (mp_channel (example_peer False))"
    using established_linked [of "[]" True "[]" "[]"] by (simp add: example_peer_def)
  have bytes: "snd (read_chunks (ne_reads ?net h s) (mp_buffer (example_peer False))) = [0, 0, 0, 1, 9]" for h s
    by (simp add: quiet_net_def example_peer_def)
  obtain dropped msgs mr where d: "drain_peer ?net ''a'' (example_peer False) example_there = (dropped, msgs, mr)"
    by (cases "drain_peer ?net ''a'' (example_peer False) example_there")
  from only_sealed_messages_are_delivered [OF linked d] bytes d show ?thesis by simp
qed

end
