(* ===== verification/Router_Liveness.thy ===== *)
theory Router_Liveness
  imports Router_Properties
begin

text \<open>
  What ends: an offer to the self-pipe returns once the loopback drains, and connections that fall
  silent, handshakes that stall and dials that hang are gone at the end of the tick that finds
  them late.
\<close>

section \<open>The self-pipe\<close>

text \<open>A refusal leaves this in the log; the loopback drains if it does not refuse forever.\<close>

definition refusals :: "nat \<Rightarrow> history" where
  "refusals k = replicate k (io_send s_self_send [])"

definition refused :: "int \<times> sock_error \<Rightarrow> bool" where
  "refused answer \<longleftrightarrow> \<not> 0 < fst answer \<and> fst answer < 0 \<and> snd answer = sock_would_block"

definition loopback_drains :: "net_env \<Rightarrow> bool" where
  "loopback_drains E \<longleftrightarrow>
     (\<forall>h bs. bs \<noteq> [] \<longrightarrow> (\<exists>k. \<not> refused (ne_send E (h @ refusals k) s_self_send bs)))"

lemma offer_step:
  "unsent \<noteq> [] \<Longrightarrow> ne_send E (mr_io mr) s_self_send unsent = (count, err) \<Longrightarrow>
   offer_to_self E unsent mr =
     (if 0 < count then offer_to_self E (drop (nat count) unsent) (log_io (io_send s_self_send (take (nat count) unsent)) mr)
      else if count < 0 \<and> err = sock_would_block then offer_to_self E unsent (log_io (io_send s_self_send []) mr)
      else Some (False, log_io (io_send s_self_send []) mr))"
  by (subst offer_to_self.simps) (simp add: Let_def)

text \<open>The offer returned, having sent everything, or a part of it before the connection broke.\<close>

definition offered :: "net_env \<Rightarrow> bytes \<Rightarrow> message_router \<Rightarrow> bool" where
  "offered E unsent mr \<longleftrightarrow> (\<exists>ok mr' es rest. offer_to_self E unsent mr = Some (ok, mr') \<and> mr_io mr' = mr_io mr @ es \<and>
     sent_on s_self_send es @ rest = unsent \<and> (ok \<longleftrightarrow> rest = []))"

lemma offered_later:
  assumes "offer_to_self E unsent mr = offer_to_self E left (log_io (io_send s_self_send bs) mr)"
    and "unsent = bs @ left" and "offered E left (log_io (io_send s_self_send bs) mr)"
  shows "offered E unsent mr"
proof -
  obtain ok mr' es rest where r: "offer_to_self E left (log_io (io_send s_self_send bs) mr) = Some (ok, mr')"
    "mr_io mr' = mr_io (log_io (io_send s_self_send bs) mr) @ es" "sent_on s_self_send es @ rest = left" "ok \<longleftrightarrow> rest = []"
    using assms(3) by (auto simp: offered_def)
  then have "mr_io mr' = mr_io mr @ (io_send s_self_send bs # es)" by (simp add: log_io_def)
  moreover have "sent_on s_self_send (io_send s_self_send bs # es) @ rest = unsent" using r(3) assms(2) by simp
  ultimately show ?thesis using r(1,4) assms(1) by (auto simp: offered_def)
qed

lemma offer_returns:
  assumes "loopback_drains E"
  shows "offered E unsent mr"
proof (induction "length unsent" arbitrary: unsent mr rule: less_induct)
  case (less unsent mr)
  show ?case
  proof (cases "unsent = []")
    case True
    then show ?thesis unfolding offered_def by (subst offer_to_self.simps) auto
  next
    case False
    have taken: "offered E unsent m" if "\<not> refused (ne_send E (mr_io m) s_self_send unsent)" for m
    proof -
      obtain count err where n: "ne_send E (mr_io m) s_self_send unsent = (count, err)" by fastforce
      show ?thesis
      proof (cases "0 < count")
        case True
        then have "length (drop (nat count) unsent) < length unsent" using False by simp
        note rest = less [OF this]
        show ?thesis
          by (rule offered_later [of E unsent m "drop (nat count) unsent" "take (nat count) unsent"])
            (use offer_step [OF False n] True in simp, rule append_take_drop_id [symmetric], rule rest)
      next
        case no: False
        with that n have "\<not> (count < 0 \<and> err = sock_would_block)" by (simp add: refused_def)
        with offer_step [OF False n] no False show ?thesis by (auto simp: offered_def log_io_def)
      qed
    qed
    obtain k where "\<not> refused (ne_send E (mr_io mr @ refusals k) s_self_send unsent)"
      using assms False by (auto simp: loopback_drains_def)
    then show ?thesis
    proof (induction k arbitrary: mr)
      case (0 mr)
      then show ?case by (intro taken) (simp add: refusals_def)
    next
      case (Suc k mr)
      obtain count err where n: "ne_send E (mr_io mr) s_self_send unsent = (count, err)" by fastforce
      show ?case
      proof (cases "refused (count, err)")
        case True
        then have "offer_to_self E unsent mr = offer_to_self E unsent (log_io (io_send s_self_send []) mr)"
          using offer_step [OF False n] by (simp add: refused_def)
        moreover have "offered E unsent (log_io (io_send s_self_send []) mr)"
          using Suc by (simp add: log_io_def refusals_def)
        ultimately show ?thesis using offered_later [of E unsent mr unsent "[]"] by simp
      next
        case False
        with n show ?thesis by (intro taken) simp
      qed
    qed
  qed
qed

text \<open>C27. Sending to ourselves returns whenever the loopback does not stay full forever, however often and
  however briefly it is: with true when the whole frame went out, in order, and with false only
  when a part was left.\<close>

theorem send_to_self_returns:
  assumes "loopback_drains E"
  shows "\<exists>ok mr' es rest. send_to_self E msg mr = Some (ok, mr') \<and> mr_io mr' = mr_io mr @ es \<and>
    sent_on s_self_send es @ rest = frame_message (serialize_net_envelope msg) \<and> (ok \<longleftrightarrow> rest = [])"
  using offer_returns [OF assms, of "frame_message (serialize_net_envelope msg)" mr]
  by (simp add: offered_def send_to_self_def)

text \<open>A loopback that is full every other time and then takes one byte.\<close>

definition slow_net :: net_env where
  "slow_net = (quiet_net [])\<lparr>ne_send := (\<lambda>h s bs. if even (length h) then (- 1, sock_would_block) else (1, sock_none))\<rparr>"

theorem send_to_self_returns_witness:
  "\<exists>ok mr' es rest. send_to_self slow_net example_envelope example_here = Some (ok, mr') \<and> mr_io mr' = es \<and>
    sent_on s_self_send es @ rest = frame_message (serialize_net_envelope example_envelope) \<and> (ok \<longleftrightarrow> rest = [])"
proof -
  have "loopback_drains slow_net"
    unfolding loopback_drains_def
  proof (intro allI impI)
    fix h bs
    have "\<not> refused (ne_send slow_net (h @ refusals (if even (length h) then 1 else 0)) s_self_send bs)"
      by (simp add: slow_net_def refusals_def refused_def)
    then show "\<exists>k. \<not> refused (ne_send slow_net (h @ refusals k) s_self_send bs)" by blast
  qed
  from send_to_self_returns [OF this, of example_envelope example_here] show ?thesis
    by (simp add: example_here_def new_message_router_def)
qed


section \<open>Silence\<close>




lemma only_loses_dials: "only_loses mr mr' \<Longrightarrow> mr_dialing mr' = mr_dialing mr \<and> mr_handshaking mr' = mr_handshaking mr"
  by (auto simp: only_loses_def dest: steady_fields)








lemma dispatch_dials [simp]: "mr_dialing (dispatch E msg mr) = mr_dialing mr" "mr_dialing (drop_peers E ids mr) = mr_dialing mr"
  "mr_dialing (snd (send E msg mr)) = mr_dialing mr" "mr_dialing (dispatch_peer_event E type peer_id mr) = mr_dialing mr"
  "mr_handshaking (drop_peers E ids mr) = mr_handshaking mr"
  using only_loses_dials [OF only_loses_dispatch] only_loses_dials [OF only_loses_drops]
    only_loses_dials [OF only_loses_send] only_loses_dials [OF only_loses_event] by simp_all









lemma closes_fields [simp]:
  fixes hs :: "handshaking_peer list"
  shows "mr_dialing (foldl (\<lambda>m h. close_sock (hp_connection h) m) mr hs) = mr_dialing mr"
    "mr_handshaking (foldl (\<lambda>m h. close_sock (hp_connection h) m) mr hs) = mr_handshaking mr"
  by (induction hs arbitrary: mr) (simp_all add: close_sock_def log_io_def)


section \<open>At the end of a tick\<close>



















section \<open>A peer that is lost while it is adopted\<close>

text \<open>
  \<^verbatim>\<open>adopt_peer\<close> announces us to the new peer before it tells the interfaces of it.  When that
  announcement cannot be sent, the peer is dropped at once: the interfaces hear that it left and
  then that it arrived, and nothing will tell them again that it is gone.
\<close>

definition is_delivery :: "net_io \<Rightarrow> bool" where
  "is_delivery e = (case e of io_deliver l m \<Rightarrow> True | _ \<Rightarrow> False)"

definition broken_net :: net_env where
  "broken_net = (quiet_net [])\<lparr>ne_send := (\<lambda>h s bs. (0, sock_other))\<rparr>"

definition adopting :: message_router where
  "adopting = example_here\<lparr>mr_peers := [], mr_listeners := [(tag_of peer_connected, [9]), (tag_of peer_disconnected, [9])]\<rparr>"

definition event_of :: "message_type \<Rightarrow> net_envelope" where
  "event_of type = \<lparr>env_type_tag = tag_of type, env_source_id = ''b'', env_dest_id = [], env_game_id = ''g'',
     env_timestamp = 0, env_payload = []\<rparr>"

lemma hello_short: "length (serialize_net_envelope ((self_advertisement mr)\<lparr>env_dest_id := ''b''\<rparr>)) \<le> 1000"
  if "mr_product_user_id mr = ''a''" "mr_game_id mr = ''g''" "mr_mesh_port mr = 0" "mr_discovery_port mr = 0"
  by (simp add: that self_advertisement_def serialize_net_envelope_def serialize_net_advertise_def put_u8_def put_u16_def
      put_string_def put_bytes_def put_svar_zigzag zigzag_def put_var_small)

lemma broken_env: "ne_react broken_net h l m = []" "ne_now broken_net h = 0" "ne_send broken_net h s bs = (0, sock_other)"
  by (simp_all add: broken_net_def quiet_net_def)

lemma failed_announcement_leaves_a_ghost:
  "\<exists>mr. adopt_peer broken_net ''b'' (s_conn 0) (established_channel [] True []) \<lparr>ep_ip = 1, ep_port = 2\<rparr> [] [] adopting = (True, mr) \<and>
     mr_peers mr = [] \<and>
     filter is_delivery (mr_io mr) = [io_deliver 9 (event_of peer_disconnected), io_deliver 9 (event_of peer_connected)]"
proof -
  define entry where "entry = \<lparr>mp_connection = s_conn 0, mp_buffer = [], mp_outbox = [],
      mp_channel = established_channel [] True [], mp_epic_id = derive_epic_account_id [],
      mp_datagram_addr = \<lparr>ep_ip = 1, ep_port = 0\<rparr>, mp_last_seen = 0\<rparr>"
  define mr1 where "mr1 = put_peer ''b'' entry (log_io io_clock adopting)"
  have mr1: "mr_product_user_id mr1 = ''a''" "mr_game_id mr1 = ''g''" "mr_running mr1" "om_find ''b'' (mr_peers mr1) = Some entry"
    "mr_mesh_port mr1 = 0" "mr_discovery_port mr1 = 0" "mr_io mr1 = [io_clock]" "mr_peers mr1 = [(''b'', entry)]"
    "mr_listeners mr1 = [(41, [9]), (42, [9])]"
    by (simp_all add: mr1_def put_peer_def log_io_def adopting_def example_here_def new_message_router_def om_find_def)
  let ?hello = "(self_advertisement mr1)\<lparr>env_dest_id := ''b''\<rparr>"
  obtain framed channel where f: "seal_frame (serialize_net_envelope ?hello) (mp_channel entry) = (Some framed, channel)"
      "framed \<noteq> []" "length framed \<le> 2000"
    using established_seals [OF hello_short [OF mr1(1,2,5,6)], of "[]" True "[]"] by (auto simp: entry_def)
  have "flush_outbox broken_net s framed m = (False, framed, log_io (io_send s []) m)" for s m
    using f(2) by (simp add: flush_outbox.simps [of _ s framed] broken_env)
  then have sent: "send_frames broken_net ?hello mr1 = (False, [''b''],
      put_peer ''b'' (entry\<lparr>mp_channel := channel, mp_outbox := framed\<rparr>) (log_io (io_send (s_conn 0) []) mr1))"
    using f mr1 by (simp add: send_frames_def Let_def send_sealed_def queue_and_flush_def max_outbox_bytes_def entry_def)
  define mr2 where "mr2 = announce_to broken_net ''b'' mr1"
  have "mr_peers mr2 = [] \<and> mr_listeners mr2 = [(41, [9]), (42, [9])] \<and> mr_game_id mr2 = ''g'' \<and>
      filter is_delivery (mr_io mr2) = [io_deliver 9 (event_of peer_disconnected)]"
    using mr1
    by (simp add: mr2_def announce_to_def send_def sent drop_peer_def put_peer_def om_find_def erase_peer_def om_erase_def log_io_def
        Let_def work_step_def peer_event_def peer_epic_id_def listeners_of_def broken_env is_delivery_def
        event_of_def bytes_of_string_def)
  moreover have "adopt_peer broken_net ''b'' (s_conn 0) (established_channel [] True []) \<lparr>ep_ip = 1, ep_port = 2\<rparr> [] [] adopting =
      (True, dispatch_peer_event broken_net peer_connected ''b'' mr2)"
    by (simp add: adopt_peer_def adopting_def example_here_def new_message_router_def clock_def Let_def mr2_def mr1_def entry_def
        broken_env established_channel_def)
  ultimately show ?thesis
    by (simp add: dispatch_peer_event_def dispatch_def work_step_def listeners_of_def peer_event_def peer_epic_id_def om_find_def
        log_io_def broken_env is_delivery_def event_of_def bytes_of_string_def)
qed

end
