(* ===== verification/Connect.thy ===== *)
theory Connect
  imports Eos_Types Wire Callbacks
begin

text \<open>
  \<^verbatim>\<open>interfaces/connect.cpp\<close>: who is logged in here, and the roster of the players met on the mesh.
  The interface keeps its members in \<open>sdk_connect\<close>, with the settings it reads and the list
  \<open>ct_calls\<close> of what it asked of the router.  Its results and notifications live in the callback
  manager.  A fired delegate is the game's and may call back into both, so it is a parameter.
\<close>

section \<open>State\<close>

definition cb_login :: int where "cb_login = 1"
definition cb_logout :: int where "cb_logout = 2"
definition cb_query_mappings :: int where "cb_query_mappings = 3"
definition cb_login_status_changed :: int where "cb_login_status_changed = 4"
definition cb_auth_expiration :: int where "cb_auth_expiration = 5"
definition cb_connect_stub :: int where "cb_connect_stub = 6"

datatype login_status = LS_NotLoggedIn | LS_UsingLocalProfile | LS_LoggedIn

record status_transition =
  tr_user :: id_handle
  tr_previous :: login_status
  tr_current :: login_status

text \<open>The fields of a callback info: the completions use the first three, a notification the others.\<close>

record connect_info =
  cni_code :: eos_result
  cni_client_data :: nat
  cni_user :: id_handle
  cni_previous :: login_status
  cni_current :: login_status

type_synonym connect_callbacks = "connect_info callback_manager"

record sdk_connect =
  ct_product_user_id :: string
  ct_product_id :: string
  ct_username :: string
  ct_calls :: "mesh_call list"
  ct_local_users :: "string list"
  ct_peers :: "(string, string) omap"
  ct_pending_status_changes :: "status_transition list"
  ct_registered :: bool

record 'g connect_world =
  cw_connect :: sdk_connect
  cw_callbacks :: connect_callbacks
  cw_game :: 'g

definition new_sdk_connect :: "string \<Rightarrow> string \<Rightarrow> string \<Rightarrow> sdk_connect" where
  "new_sdk_connect product_user_id product_id username =
     \<lparr>ct_product_user_id = product_user_id, ct_product_id = product_id, ct_username = username,
      ct_calls = [], ct_local_users = [], ct_peers = [], ct_pending_status_changes = [],
      ct_registered = False\<rparr>"

definition connect_message_types :: "message_type list" where
  "connect_message_types = [connect_request, connect_response, peer_connected, peer_disconnected]"

definition connect_emu_init :: "nat \<Rightarrow> 'g connect_world \<Rightarrow> 'g connect_world" where
  "connect_emu_init owner w =
     (if ct_registered (cw_connect w) then w
      else w\<lparr>cw_callbacks := register_callbacks owner (register_frame owner (cw_callbacks w)),
             cw_connect := (cw_connect w)\<lparr>ct_calls := ct_calls (cw_connect w) @ map mesh_listen connect_message_types,
               ct_registered := True\<rparr>\<rparr>)"

definition connect_emu_deinit :: "nat \<Rightarrow> 'g connect_world \<Rightarrow> 'g connect_world" where
  "connect_emu_deinit owner w =
     (if \<not> ct_registered (cw_connect w) then w
      else w\<lparr>cw_callbacks := unregister_frame owner (fst (unregister_callbacks owner (cw_callbacks w))),
             cw_connect := (cw_connect w)\<lparr>ct_calls := ct_calls (cw_connect w) @ map mesh_unlisten connect_message_types,
               ct_local_users := [], ct_peers := [], ct_pending_status_changes := [],
               ct_registered := False\<rparr>\<rparr>)"

section \<open>Login\<close>

definition ct_is_logged_in :: "sdk_connect \<Rightarrow> bool" where
  "ct_is_logged_in st \<longleftrightarrow> ct_local_users st \<noteq> []"

definition ct_local_user :: "sdk_connect \<Rightarrow> id_handle" where
  "ct_local_user st = (case ct_local_users st of [] \<Rightarrow> None | user # _ \<Rightarrow> Some user)"

record connect_credentials =
  cc_api_version :: int
  cc_token :: "string option"
  cc_type :: int

record login_options =
  lo_api_version :: int
  lo_credentials :: "connect_credentials option"

definition connect_login_latest :: int where "connect_login_latest = 2"
definition connect_credentials_latest :: int where "connect_credentials_latest = 1"
definition lowest_credential_type :: int where "lowest_credential_type = 0"
definition highest_credential_type :: int where "highest_credential_type = 19"

definition login_options_are_valid :: "login_options option \<Rightarrow> bool" where
  "login_options_are_valid options =
     (case options of
        None \<Rightarrow> False
      | Some o' \<Rightarrow>
          (case lo_credentials o' of
             None \<Rightarrow> False
           | Some credentials \<Rightarrow>
               if lo_api_version o' \<le> 0 \<or> connect_login_latest < lo_api_version o' then False
               else if cc_api_version credentials \<le> 0 \<or> connect_credentials_latest < cc_api_version credentials
               then False
               else
                 (case cc_token credentials of
                    None \<Rightarrow> False
                  | Some token \<Rightarrow>
                      if token = [] then False
                      else lowest_credential_type \<le> cc_type credentials \<and>
                           cc_type credentials \<le> highest_credential_type)))"

definition empty_connect_info :: connect_info where
  "empty_connect_info = \<lparr>cni_code = EOS_Success, cni_client_data = 0, cni_user = None,
     cni_previous = LS_NotLoggedIn, cni_current = LS_NotLoggedIn\<rparr>"

definition new_connect_result :: "connect_info frame_result" where
  "new_connect_result = \<lparr>fr_type_id = 0, fr_payload = empty_connect_info, fr_func = None,
     fr_ok_timeout = 0, fr_created_time = 0, fr_done = False, fr_remove_on_timeout = False\<rparr>"

text \<open>A completion that is done when it is queued.\<close>

definition queue_connect_result :: "nat \<Rightarrow> msec \<Rightarrow> int \<Rightarrow> connect_info \<Rightarrow> nat \<Rightarrow> 'g connect_world \<Rightarrow> 'g connect_world" where
  "queue_connect_result owner now type info delegate w =
     w\<lparr>cw_callbacks := add_callback owner
         ((create_callback now type info (Some delegate) 0 new_connect_result)\<lparr>fr_done := True\<rparr>) (cw_callbacks w)\<rparr>"

definition deliver_login_result :: "nat \<Rightarrow> msec \<Rightarrow> eos_result \<Rightarrow> id_handle \<Rightarrow> nat \<Rightarrow> nat \<Rightarrow>
    'g connect_world \<Rightarrow> 'g connect_world" where
  "deliver_login_result owner now result_code user client_data delegate w =
     queue_connect_result owner now cb_login
       (empty_connect_info\<lparr>cni_code := result_code, cni_client_data := client_data, cni_user := user\<rparr>) delegate w"

definition note_transition :: "id_handle \<Rightarrow> login_status \<Rightarrow> login_status \<Rightarrow> sdk_connect \<Rightarrow> sdk_connect" where
  "note_transition user previous current st =
     st\<lparr>ct_pending_status_changes := ct_pending_status_changes st @
        [\<lparr>tr_user = user, tr_previous = previous, tr_current = current\<rparr>]\<rparr>"

definition connect_login :: "nat \<Rightarrow> msec \<Rightarrow> login_options option \<Rightarrow> nat \<Rightarrow> nat option \<Rightarrow>
    'g connect_world \<Rightarrow> 'g connect_world" where
  "connect_login owner now options client_data delegate w =
     (case delegate of
        None \<Rightarrow> w
      | Some d \<Rightarrow>
          if \<not> login_options_are_valid options
          then deliver_login_result owner now EOS_InvalidParameters None client_data d w
          else
            let self = ct_product_user_id (cw_connect w);
                was_logged_in = ct_is_logged_in (cw_connect w);
                w1 = (if was_logged_in then w
                      else w\<lparr>cw_connect := (cw_connect w)\<lparr>ct_local_users := ct_local_users (cw_connect w) @ [self]\<rparr>\<rparr>);
                w2 = deliver_login_result owner now EOS_Success (Some self) client_data d w1
            in if was_logged_in then w2
               else w2\<lparr>cw_connect := note_transition (Some self) LS_NotLoggedIn LS_LoggedIn (cw_connect w2)\<rparr>)"

text \<open>The options are the local user they name, when there are any.\<close>

definition connect_logout :: "nat \<Rightarrow> msec \<Rightarrow> id_handle option \<Rightarrow> nat \<Rightarrow> nat option \<Rightarrow>
    'g connect_world \<Rightarrow> 'g connect_world" where
  "connect_logout owner now options client_data delegate w =
     (case delegate of
        None \<Rightarrow> w
      | Some d \<Rightarrow>
          let user = (case options of None \<Rightarrow> None | Some local \<Rightarrow> local);
              matches_self = (ct_is_logged_in (cw_connect w) \<and> user = ct_local_user (cw_connect w));
              w1 = queue_connect_result owner now cb_logout
                     (empty_connect_info\<lparr>cni_code := (if matches_self then EOS_Success else EOS_InvalidUser),
                        cni_client_data := client_data, cni_user := user\<rparr>) d w
          in if matches_self
             then w1\<lparr>cw_connect := note_transition user LS_LoggedIn LS_NotLoggedIn
                       ((cw_connect w1)\<lparr>ct_local_users := []\<rparr>)\<rparr>
             else w1)"

definition logged_in_users_count :: "sdk_connect \<Rightarrow> i32" where
  "logged_in_users_count st = word_of_nat (length (ct_local_users st))"

definition logged_in_user_by_index :: "i32 \<Rightarrow> sdk_connect \<Rightarrow> id_handle" where
  "logged_in_user_by_index index st =
     (if sint index < 0 \<or> sint (word_of_nat (length (ct_local_users st)) :: i32) \<le> sint index then None
      else Some (ct_local_users st ! nat (sint index)))"

definition login_status :: "id_handle \<Rightarrow> sdk_connect \<Rightarrow> login_status" where
  "login_status local_user_id st =
     (if ct_is_logged_in st \<and> local_user_id = ct_local_user st then LS_LoggedIn else LS_NotLoggedIn)"

text \<open>The lookups: \<open>options\<close> is the local user they name.\<close>

definition query_product_user_id_mappings :: "nat \<Rightarrow> msec \<Rightarrow> id_handle option \<Rightarrow> nat \<Rightarrow> nat option \<Rightarrow>
    'g connect_world \<Rightarrow> 'g connect_world" where
  "query_product_user_id_mappings owner now options client_data delegate w =
     (case delegate of
        None \<Rightarrow> w
      | Some d \<Rightarrow>
          queue_connect_result owner now cb_query_mappings
            (empty_connect_info\<lparr>cni_code := (if options = None then EOS_InvalidParameters else EOS_Success),
               cni_client_data := client_data,
               cni_user := (case options of None \<Rightarrow> None | Some local \<Rightarrow> local)\<rparr>) d w)"

definition get_product_user_id_mapping :: "id_handle option \<Rightarrow> bool \<Rightarrow> bool \<Rightarrow> eos_result" where
  "get_product_user_id_mapping target has_buffer has_length =
     (case target of
        Some (Some _) \<Rightarrow> if has_buffer \<and> has_length then EOS_NotFound else EOS_InvalidParameters
      | _ \<Rightarrow> EOS_InvalidParameters)"

definition known_peer_count :: "sdk_connect \<Rightarrow> nat" where
  "known_peer_count st = length (ct_peers st)"

definition is_known_peer :: "string \<Rightarrow> sdk_connect \<Rightarrow> bool" where
  "is_known_peer product_user_id st \<longleftrightarrow> om_find product_user_id (ct_peers st) \<noteq> None"

definition peer_display_name :: "string \<Rightarrow> sdk_connect \<Rightarrow> string" where
  "peer_display_name product_user_id st =
     (case om_find product_user_id (ct_peers st) of None \<Rightarrow> [] | Some name \<Rightarrow> name)"

section \<open>Notifications\<close>

definition add_connect_notification :: "nat \<Rightarrow> msec \<Rightarrow> int \<Rightarrow> nat \<Rightarrow> nat option \<Rightarrow>
    'g connect_world \<Rightarrow> u64 \<times> 'g connect_world" where
  "add_connect_notification owner now type client_data delegate w =
     (case delegate of
        None \<Rightarrow> (0, w)
      | Some d \<Rightarrow>
          (case add_notification owner (create_callback now type
                  (empty_connect_info\<lparr>cni_client_data := client_data\<rparr>) (Some d) 0 new_connect_result) (cw_callbacks w) of
             (i, cm) \<Rightarrow> (i, w\<lparr>cw_callbacks := cm\<rparr>)))"

definition add_notify_login_status_changed :: "nat \<Rightarrow> msec \<Rightarrow> nat \<Rightarrow> nat option \<Rightarrow>
    'g connect_world \<Rightarrow> u64 \<times> 'g connect_world" where
  "add_notify_login_status_changed owner now = add_connect_notification owner now cb_login_status_changed"

definition add_notify_auth_expiration :: "nat \<Rightarrow> msec \<Rightarrow> nat \<Rightarrow> nat option \<Rightarrow>
    'g connect_world \<Rightarrow> u64 \<times> 'g connect_world" where
  "add_notify_auth_expiration owner now = add_connect_notification owner now cb_auth_expiration"

definition remove_connect_notification :: "nat \<Rightarrow> u64 \<Rightarrow> 'g connect_world \<Rightarrow> 'g connect_world" where
  "remove_connect_notification owner i w = w\<lparr>cw_callbacks := remove_notification owner i (cw_callbacks w)\<rparr>"

definition connect_stub_result :: "nat \<Rightarrow> msec \<Rightarrow> nat \<Rightarrow> nat option \<Rightarrow> 'g connect_world \<Rightarrow> 'g connect_world" where
  "connect_stub_result owner now client_data delegate w =
     (case delegate of
        None \<Rightarrow> w
      | Some d \<Rightarrow>
          queue_connect_result owner now cb_connect_stub
            (empty_connect_info\<lparr>cni_code := EOS_NotImplemented, cni_client_data := client_data\<rparr>) d w)"

text \<open>
  A transition is written into the registered notification and handed to its delegate.  Each
  notification is looked up again right before, since an earlier delegate may have removed it.
\<close>

type_synonym 'g connect_game = "nat \<Rightarrow> connect_info \<Rightarrow> 'g connect_world \<Rightarrow> 'g connect_world"

definition fire_transition_to :: "'g connect_game \<Rightarrow> nat \<Rightarrow> status_transition \<Rightarrow> u64 \<Rightarrow>
    'g connect_world \<Rightarrow> 'g connect_world" where
  "fire_transition_to game owner change i w =
     (case find_notification owner i (cw_callbacks w) of
        None \<Rightarrow> w
      | Some note \<Rightarrow>
          let info = (fr_payload note)\<lparr>cni_user := tr_user change, cni_previous := tr_previous change,
                       cni_current := tr_current change\<rparr>;
              cm = cw_callbacks w;
              w' = w\<lparr>cw_callbacks := cm\<lparr>cm_notifications := om_put owner
                      (om_put i (note\<lparr>fr_payload := info\<rparr>) (om_at owner [] (cm_notifications cm)))
                      (cm_notifications cm)\<rparr>\<rparr>
          in (case fr_func note of None \<Rightarrow> w' | Some delegate \<Rightarrow> game delegate info w'))"

definition fire_transition :: "'g connect_game \<Rightarrow> nat \<Rightarrow> status_transition \<Rightarrow> 'g connect_world \<Rightarrow> 'g connect_world" where
  "fire_transition game owner change w =
     foldl (\<lambda>u i. fire_transition_to game owner change i u) w
       (notification_ids owner cb_login_status_changed (cw_callbacks w))"

definition connect_cb_run_frame :: "'g connect_game \<Rightarrow> nat \<Rightarrow> 'g connect_world \<Rightarrow> bool \<times> 'g connect_world" where
  "connect_cb_run_frame game owner w =
     (if ct_pending_status_changes (cw_connect w) = [] then (False, w)
      else
        let changes = ct_pending_status_changes (cw_connect w);
            w' = w\<lparr>cw_connect := (cw_connect w)\<lparr>ct_pending_status_changes := []\<rparr>\<rparr>
        in (False, foldl (\<lambda>u change. fire_transition game owner change u) w' changes))"

section \<open>The roster\<close>

definition forget_peer :: "string \<Rightarrow> sdk_connect \<Rightarrow> sdk_connect" where
  "forget_peer peer st = st\<lparr>ct_peers := om_erase peer (ct_peers st)\<rparr>"

text \<open>
  The send may report peers lost before it returns, and the interface's own handler forgets them,
  our own id apart.
\<close>

definition connect_send :: "lost_in_send \<Rightarrow> net_envelope \<Rightarrow> sdk_connect \<Rightarrow> sdk_connect" where
  "connect_send lost envelope st =
     (let st' = st\<lparr>ct_calls := ct_calls st @ [mesh_send envelope]\<rparr>
      in foldl (\<lambda>s peer. if peer = ct_product_user_id s then s else forget_peer peer s) st' (lost (ct_calls st')))"

definition connect_announce_to :: "lost_in_send \<Rightarrow> string \<Rightarrow> sdk_connect \<Rightarrow> sdk_connect" where
  "connect_announce_to lost peer_id st =
     connect_send lost
       \<lparr>env_type_tag = tag_of connect_response, env_source_id = ct_product_user_id st, env_dest_id = peer_id,
        env_game_id = ct_product_id st, env_timestamp = 0,
        env_payload = serialize_connect_infos
          \<lparr>ci_product_user_id = ct_product_user_id st, ci_display_name = ct_username st\<rparr>\<rparr> st"

definition connect_on_network_message :: "lost_in_send \<Rightarrow> net_envelope \<Rightarrow> sdk_connect \<Rightarrow> bool \<times> sdk_connect" where
  "connect_on_network_message lost message st =
     (if env_source_id message = ct_product_user_id st then (True, st)
      else if env_type_tag message = tag_of peer_connected
      then (True, if ct_is_logged_in st then connect_announce_to lost (env_source_id message) st else st)
      else if env_type_tag message = tag_of peer_disconnected
      then (True, forget_peer (env_source_id message) st)
      else if \<not> (env_type_tag message = tag_of connect_request \<or> env_type_tag message = tag_of connect_response)
      then (False, st)
      else
        let st' = (case fst (deserialize_connect_infos (reader_of (env_payload message))) of
                     None \<Rightarrow> st
                   | Some infos \<Rightarrow>
                       if (ci_product_user_id infos = [] \<or> ci_product_user_id infos = env_source_id message) \<and>
                          env_source_id message \<noteq> ct_product_user_id st
                       then st\<lparr>ct_peers := om_put (env_source_id message) (ci_display_name infos) (ct_peers st)\<rparr>
                       else st)
        in (True,
            if env_type_tag message = tag_of connect_request \<and> ct_is_logged_in st'
            then connect_announce_to lost (env_source_id message) st' else st'))"

section \<open>Runs\<close>

text \<open>
  The operations as a game and the router call them.  A delegate that calls back while a frame
  fires it is a later operation of the run.
\<close>

datatype connect_op =
    cop_message net_envelope
  | cop_login msec "login_options option" nat "nat option"
  | cop_logout msec "id_handle option" nat "nat option"
  | cop_query msec "id_handle option" nat "nat option"
  | cop_stub msec nat "nat option"
  | cop_notify_status msec nat "nat option"
  | cop_notify_expiration msec nat "nat option"
  | cop_remove u64
  | cop_frame
  | cop_init
  | cop_deinit

fun connect_do :: "lost_in_send \<Rightarrow> nat \<Rightarrow> 'g connect_world \<Rightarrow> connect_op \<Rightarrow> 'g connect_world" where
  "connect_do lost owner w (cop_message m) =
     w\<lparr>cw_connect := snd (connect_on_network_message lost m (cw_connect w))\<rparr>"
| "connect_do lost owner w (cop_login now options client_data delegate) =
     connect_login owner now options client_data delegate w"
| "connect_do lost owner w (cop_logout now options client_data delegate) =
     connect_logout owner now options client_data delegate w"
| "connect_do lost owner w (cop_query now options client_data delegate) =
     query_product_user_id_mappings owner now options client_data delegate w"
| "connect_do lost owner w (cop_stub now client_data delegate) = connect_stub_result owner now client_data delegate w"
| "connect_do lost owner w (cop_notify_status now client_data delegate) =
     snd (add_notify_login_status_changed owner now client_data delegate w)"
| "connect_do lost owner w (cop_notify_expiration now client_data delegate) =
     snd (add_notify_auth_expiration owner now client_data delegate w)"
| "connect_do lost owner w (cop_remove i) = remove_connect_notification owner i w"
| "connect_do lost owner w cop_frame = snd (connect_cb_run_frame (\<lambda>_ _ w. w) owner w)"
| "connect_do lost owner w cop_init = connect_emu_init owner w"
| "connect_do lost owner w cop_deinit = connect_emu_deinit owner w"

definition new_connect_world :: "sdk_connect \<Rightarrow> connect_callbacks \<Rightarrow> 'g \<Rightarrow> 'g connect_world" where
  "new_connect_world st cm g = \<lparr>cw_connect = st, cw_callbacks = cm, cw_game = g\<rparr>"

text \<open>What a message says of its sender: a name it may be listed under.\<close>

definition announces :: "net_envelope \<Rightarrow> string \<Rightarrow> bool" where
  "announces m name \<longleftrightarrow>
     env_type_tag m \<in> {tag_of connect_request, tag_of connect_response} \<and>
     (\<exists>infos. fst (deserialize_connect_infos (reader_of (env_payload m))) = Some infos \<and>
        ci_product_user_id infos \<in> {[], env_source_id m} \<and> ci_display_name infos = name)"

subsection \<open>What each operation leaves alone\<close>

lemma forget_peers_other:
  "ct_product_user_id (foldl (\<lambda>s p. if p = ct_product_user_id s then s else forget_peer p s) st ps) = ct_product_user_id st \<and>
   ct_local_users (foldl (\<lambda>s p. if p = ct_product_user_id s then s else forget_peer p s) st ps) = ct_local_users st \<and>
   ct_calls (foldl (\<lambda>s p. if p = ct_product_user_id s then s else forget_peer p s) st ps) = ct_calls st"
  by (induction ps arbitrary: st) (simp_all add: forget_peer_def)

lemma forget_peers_find:
  "om_find q (ct_peers (foldl (\<lambda>s p. if p = ct_product_user_id s then s else forget_peer p s) st ps)) =
   (if q \<in> set ps \<and> q \<noteq> ct_product_user_id st then None else om_find q (ct_peers st))"
  by (induction ps arbitrary: st) (auto simp: forget_peer_def)

lemma forget_peers_roster:
  "om_find q (ct_peers (foldl (\<lambda>s p. if p = ct_product_user_id s then s else forget_peer p s) st ps)) = Some name \<Longrightarrow>
   om_find q (ct_peers st) = Some name"
  by (simp add: forget_peers_find split: if_split_asm)

lemma connect_send_keeps [simp]:
  "ct_product_user_id (connect_send lost e st) = ct_product_user_id st"
  "ct_local_users (connect_send lost e st) = ct_local_users st"
  "ct_calls (connect_send lost e st) = ct_calls st @ [mesh_send e]"
  by (simp_all add: connect_send_def Let_def forget_peers_other)

lemma connect_send_roster:
  "om_find q (ct_peers (connect_send lost e st)) = Some name \<Longrightarrow> om_find q (ct_peers st) = Some name"
  by (auto simp: connect_send_def Let_def dest: forget_peers_roster)

lemma connect_announce_to_keeps [simp]:
  "ct_product_user_id (connect_announce_to lost p st) = ct_product_user_id st"
  "ct_local_users (connect_announce_to lost p st) = ct_local_users st"
  by (simp_all add: connect_announce_to_def)

lemma connect_announce_to_roster:
  "om_find q (ct_peers (connect_announce_to lost p st)) = Some name \<Longrightarrow> om_find q (ct_peers st) = Some name"
  unfolding connect_announce_to_def by (rule connect_send_roster)

lemma connect_message_keeps [simp]:
  "ct_product_user_id (snd (connect_on_network_message lost m st)) = ct_product_user_id st"
  "ct_local_users (snd (connect_on_network_message lost m st)) = ct_local_users st"
  by (simp_all add: connect_on_network_message_def Let_def forget_peer_def split: option.splits)

lemma connect_message_roster:
  assumes "om_find q (ct_peers (snd (connect_on_network_message lost m st))) = Some name"
  shows "om_find q (ct_peers st) = Some name \<or>
    (q = env_source_id m \<and> q \<noteq> ct_product_user_id st \<and> announces m name)"
  using assms
  by (auto simp: connect_on_network_message_def Let_def forget_peer_def announces_def
      dest!: connect_announce_to_roster split: option.splits if_splits)

text \<open>The other operations touch neither the roster nor the router.\<close>

definition local_op :: "connect_op \<Rightarrow> bool" where
  "local_op op \<longleftrightarrow> (case op of cop_message _ \<Rightarrow> False | cop_init \<Rightarrow> False | cop_deinit \<Rightarrow> False | _ \<Rightarrow> True)"

lemma fire_transition_connect:
  "cw_connect (fire_transition (\<lambda>_ _ w. w) owner change w) = cw_connect w"
proof -
  have "cw_connect (fire_transition_to (\<lambda>_ _ w. w) owner change i u) = cw_connect u" for i and u :: "'a connect_world"
    by (simp add: fire_transition_to_def Let_def split: option.splits)
  then have "cw_connect (foldl (\<lambda>u i. fire_transition_to (\<lambda>_ _ w. w) owner change i u) u is) = cw_connect u"
    for "is" and u :: "'a connect_world"
    by (induction "is" arbitrary: u) simp_all
  then show ?thesis by (simp add: fire_transition_def)
qed

lemma frame_connect:
  "cw_connect (snd (connect_cb_run_frame (\<lambda>_ _ w. w) owner w)) =
   (cw_connect w)\<lparr>ct_pending_status_changes := []\<rparr>"
proof -
  have "cw_connect (foldl (\<lambda>u change. fire_transition (\<lambda>_ _ w. w) owner change u) u cs) = cw_connect u"
    for cs and u :: "'a connect_world"
    by (induction cs arbitrary: u) (simp_all add: fire_transition_connect)
  then show ?thesis by (simp add: connect_cb_run_frame_def Let_def)
qed

lemmas connect_local_defs = connect_login_def connect_logout_def query_product_user_id_mappings_def
  connect_stub_result_def add_notify_login_status_changed_def add_notify_auth_expiration_def
  add_connect_notification_def remove_connect_notification_def deliver_login_result_def
  queue_connect_result_def note_transition_def

lemma local_op_keeps:
  assumes "local_op op"
  shows "ct_peers (cw_connect (connect_do lost owner w op)) = ct_peers (cw_connect w) \<and>
    ct_calls (cw_connect (connect_do lost owner w op)) = ct_calls (cw_connect w)"
  using assms
  by (cases op) (simp_all add: local_op_def connect_local_defs Let_def frame_connect
      split: option.splits prod.splits)

lemma connect_do_id [simp]:
  "ct_product_user_id (cw_connect (connect_do lost owner w op)) = ct_product_user_id (cw_connect w)"
  by (cases op) (simp_all add: connect_local_defs Let_def frame_connect connect_emu_init_def
      connect_emu_deinit_def split: option.splits prod.splits)

end
