(* ===== verification/Connect_Properties.thy ===== *)
theory Connect_Properties
  imports Connect
begin

text \<open>
  What the roster of \<^verbatim>\<open>interfaces/connect.cpp\<close> promises, and what it does not: an entry is only ever
  written by the player it names, but a player who logs in after the mesh connected is never listed.
\<close>

lemma deinit_init_roster:
  "op \<in> {cop_init, cop_deinit} \<Longrightarrow>
   om_find p (ct_peers (cw_connect (connect_do lost owner w op))) = Some name \<Longrightarrow>
   om_find p (ct_peers (cw_connect w)) = Some name"
  by (auto simp: connect_emu_init_def connect_emu_deinit_def split: if_splits)

lemma known_names_step:
  assumes "om_find p (ct_peers (cw_connect (connect_do lost owner w op))) = Some name"
  shows "om_find p (ct_peers (cw_connect w)) = Some name \<or>
    (\<exists>m. op = cop_message m \<and> env_source_id m = p \<and> p \<noteq> ct_product_user_id (cw_connect w) \<and> announces m name)"
proof -
  consider m where "op = cop_message m" | "local_op op" | "op \<in> {cop_init, cop_deinit}"
    by (cases op) (auto simp: local_op_def)
  then show ?thesis
  proof cases
    case 1
    then show ?thesis using assms by (auto dest: connect_message_roster)
  next
    case 2
    from local_op_keeps [OF this] show ?thesis using assms by metis
  next
    case 3
    from deinit_init_roster [OF this assms] show ?thesis by simp
  qed
qed

definition roster_ok :: "string \<Rightarrow> net_envelope set \<Rightarrow> 'g connect_world \<Rightarrow> bool" where
  "roster_ok me heard w \<longleftrightarrow>
     ct_product_user_id (cw_connect w) = me \<and>
     (\<forall>p name. om_find p (ct_peers (cw_connect w)) = Some name \<longrightarrow>
        p \<noteq> me \<and> (\<exists>m\<in>heard. env_source_id m = p \<and> announces m name))"

lemma roster_run:
  assumes "roster_ok me heard w" and "\<And>m. cop_message m \<in> set ops \<Longrightarrow> m \<in> heard"
  shows "roster_ok me heard (run (connect_do lost owner) w ops)"
  using assms
proof (induction ops arbitrary: w)
  case Nil
  then show ?case by simp
next
  case (Cons op ops)
  have "roster_ok me heard (connect_do lost owner w op)"
    unfolding roster_ok_def
  proof (intro conjI allI impI)
    show "ct_product_user_id (cw_connect (connect_do lost owner w op)) = me"
      using Cons.prems(1) by (simp add: roster_ok_def)
  next
    fix p name
    assume "om_find p (ct_peers (cw_connect (connect_do lost owner w op))) = Some name"
    from known_names_step [OF this] Cons.prems
    show "p \<noteq> me" and "\<exists>m\<in>heard. env_source_id m = p \<and> announces m name"
      unfolding roster_ok_def by auto
  qed
  then show ?case using Cons by simp
qed

lemma roster_ok_new: "roster_ok me heard (new_connect_world (new_sdk_connect me game username) cm g)"
  by (simp add: roster_ok_def new_connect_world_def new_sdk_connect_def)

lemma roster_self_announced:
  assumes "om_find p (ct_peers (cw_connect (run (connect_do lost owner)
      (new_connect_world (new_sdk_connect me game username) cm g) ops))) = Some name"
  shows "p \<noteq> me \<and> (\<exists>m. cop_message m \<in> set ops \<and> env_source_id m = p \<and> announces m name)"
  using roster_run [OF roster_ok_new, of ops "{m. cop_message m \<in> set ops}"] assms
  unfolding roster_ok_def by fastforce

lemma run_keeps_id:
  "ct_product_user_id (cw_connect (run (connect_do lost owner) w ops)) = ct_product_user_id (cw_connect w)"
  by (induction ops arbitrary: w) simp_all

subsection \<open>Whose entry an operation changes\<close>

text \<open>The router reported the player lost while it sent what the operation asked it to send.\<close>

definition lost_meanwhile :: "lost_in_send \<Rightarrow> string \<Rightarrow> sdk_connect \<Rightarrow> sdk_connect \<Rightarrow> bool" where
  "lost_meanwhile lost p st st' \<longleftrightarrow> ct_calls st' \<noteq> ct_calls st \<and> p \<in> set (lost (ct_calls st'))"

lemma announced_find:
  "om_find q (ct_peers (connect_announce_to lost p st)) =
   (if q \<noteq> ct_product_user_id st \<and> q \<in> set (lost (ct_calls (connect_announce_to lost p st))) then None
    else om_find q (ct_peers st))"
  by (simp add: connect_announce_to_def) (simp add: connect_send_def forget_peers_find Let_def)

lemma announced_calls: "ct_calls (connect_announce_to lost p st) \<noteq> ct_calls st"
  by (simp add: connect_announce_to_def)

lemma announces_unique: "announces m name \<Longrightarrow> announces m other \<Longrightarrow> name = other"
  by (auto simp: announces_def)

lemma no_announcement:
  "env_type_tag m \<in> {tag_of peer_connected, tag_of peer_disconnected} \<Longrightarrow> \<not> announces m name"
  by (auto simp: announces_def dest: tag_of_inj)

text \<open>An announcement writes its name; a send that follows may take it away again.\<close>

lemma announcement_entry:
  assumes "announces m name" and "env_source_id m \<noteq> ct_product_user_id st"
    and "st' = st\<lparr>ct_peers := om_put (env_source_id m) name (ct_peers st)\<rparr>"
  shows "snd (connect_on_network_message lost m st) =
    (if env_type_tag m = tag_of connect_request \<and> ct_is_logged_in st' then connect_announce_to lost (env_source_id m) st' else st')"
proof -
  have tag: "env_type_tag m \<in> {tag_of connect_request, tag_of connect_response}"
    "env_type_tag m \<noteq> tag_of peer_connected" "env_type_tag m \<noteq> tag_of peer_disconnected"
    using assms(1) no_announcement [of m name] by (auto simp: announces_def)
  from assms(1) obtain infos where "fst (deserialize_connect_infos (reader_of (env_payload m))) = Some infos"
    "ci_product_user_id infos = [] \<or> ci_product_user_id infos = env_source_id m" "ci_display_name infos = name"
    by (auto simp: announces_def)
  with tag assms(2,3) show ?thesis by (auto simp: connect_on_network_message_def Let_def)
qed

text \<open>A message that announces nothing leaves the entries alone, unless a send loses somebody.\<close>

lemma other_message_entry:
  assumes "\<And>name. \<not> announces m name" and "env_type_tag m \<noteq> tag_of peer_disconnected \<or> env_source_id m = ct_product_user_id st"
  shows "snd (connect_on_network_message lost m st) \<in> {st, connect_announce_to lost (env_source_id m) st}"
proof (cases "fst (deserialize_connect_infos (reader_of (env_payload m)))")
  case None
  with assms(2) show ?thesis by (auto simp: connect_on_network_message_def Let_def)
next
  case (Some infos)
  with assms(1) [of "ci_display_name infos"] have
    "env_type_tag m \<in> {tag_of connect_request, tag_of connect_response} \<Longrightarrow>
     \<not> (ci_product_user_id infos = [] \<or> ci_product_user_id infos = env_source_id m)"
    by (auto simp: announces_def)
  with Some assms(2) show ?thesis by (auto simp: connect_on_network_message_def Let_def)
qed

lemma message_changes:
  assumes "after = snd (connect_on_network_message lost m st)" and "om_find p (ct_peers after) \<noteq> om_find p (ct_peers st)"
  shows "(env_source_id m = p \<and> p \<noteq> ct_product_user_id st \<and>
      (case om_find p (ct_peers after) of None \<Rightarrow> env_type_tag m = tag_of peer_disconnected | Some new \<Rightarrow> announces m new)) \<or>
    (om_find p (ct_peers after) = None \<and> lost_meanwhile lost p st after)"
proof -
  consider name where "announces m name" "env_source_id m \<noteq> ct_product_user_id st"
    | "env_type_tag m = tag_of peer_disconnected" "env_source_id m \<noteq> ct_product_user_id st"
    | "env_source_id m = ct_product_user_id st"
    | "\<And>name. \<not> announces m name" "env_type_tag m \<noteq> tag_of peer_disconnected" by blast
  then show ?thesis
  proof cases
    case 1
    note e = announcement_entry [OF 1 refl, of lost]
    show ?thesis
    proof (cases "om_find p (ct_peers after) = None \<and> lost_meanwhile lost p st after")
      case False
      then have "om_find p (ct_peers after) = om_find p (om_put (env_source_id m) name (ct_peers st))"
        using announced_calls [of lost "env_source_id m" "st\<lparr>ct_peers := om_put (env_source_id m) name (ct_peers st)\<rparr>"]
        by (auto simp: assms(1) e announced_find lost_meanwhile_def split: if_splits)
      with assms(2) 1 show ?thesis by (auto split: if_splits)
    qed blast
  next
    case 2
    then have "after = forget_peer (env_source_id m) st"
      unfolding assms(1) by (simp add: connect_on_network_message_def)
    with assms(2) 2 show ?thesis by (auto simp: forget_peer_def split: if_splits)
  next
    case 3
    with assms show ?thesis by (simp add: connect_on_network_message_def)
  next
    case 4
    from other_message_entry [of m st lost] 4 consider "after = st" | "after = connect_announce_to lost (env_source_id m) st"
      unfolding assms(1) by blast
    then show ?thesis
      using assms(2) announced_calls by cases (auto simp: announced_find lost_meanwhile_def split: if_splits)
  qed
qed

lemma message_obeyed:
  assumes "after = snd (connect_on_network_message lost m st)" and "env_source_id m \<noteq> ct_product_user_id st"
  shows "(env_type_tag m = tag_of peer_disconnected \<longrightarrow> om_find (env_source_id m) (ct_peers after) = None) \<and>
    (announces m name \<longrightarrow> om_find (env_source_id m) (ct_peers after) = Some name \<or> lost_meanwhile lost (env_source_id m) st after)"
proof (intro conjI impI)
  assume "env_type_tag m = tag_of peer_disconnected"
  then have "after = forget_peer (env_source_id m) st"
    unfolding assms(1) using assms(2) by (simp add: connect_on_network_message_def)
  then show "om_find (env_source_id m) (ct_peers after) = None" by (simp add: forget_peer_def)
next
  assume "announces m name"
  from announcement_entry [OF this assms(2) refl, of lost] assms(1)
    announced_calls [of lost "env_source_id m" "st\<lparr>ct_peers := om_put (env_source_id m) name (ct_peers st)\<rparr>"]
  show "om_find (env_source_id m) (ct_peers after) = Some name \<or> lost_meanwhile lost (env_source_id m) st after"
    by (auto simp: announced_find lost_meanwhile_def split: if_splits)
qed

text \<open>C28. The roster is what each player says of itself.  In every reachable state a name it lists for a
  player was announced by that very player, and we are never in our own roster.  The entry of a
  player changes in one way only, apart from our own shutdown, which clears all: by a message whose
  proved sender is that player, to the name it announces or to nothing when it leaves, or to
  nothing when the router reports that player lost while our reply goes out.  And it does change
  so: who leaves is off the roster, and who announces a name is listed under it, or was just lost.\<close>

theorem roster_names_are_self_announced:
  assumes "W = run (connect_do lost owner) (new_connect_world (new_sdk_connect me game username) cm g) ops"
    and "entry = om_find p (ct_peers (cw_connect W))"
    and "later = connect_do lost owner W op" and "changed = om_find p (ct_peers (cw_connect later))"
  shows "(\<forall>name. entry = Some name \<longrightarrow>
      p \<noteq> me \<and> (\<exists>m. cop_message m \<in> set ops \<and> env_source_id m = p \<and> announces m name)) \<and>
    (changed = entry \<or>
     (\<exists>m. op = cop_message m \<and> env_source_id m = p \<and> p \<noteq> me \<and>
        (case changed of None \<Rightarrow> env_type_tag m = tag_of peer_disconnected | Some name \<Rightarrow> announces m name)) \<or>
     (changed = None \<and> (op = cop_deinit \<or> lost_meanwhile lost p (cw_connect W) (cw_connect later)))) \<and>
    (\<forall>m. op = cop_message m \<and> env_source_id m = p \<and> p \<noteq> me \<longrightarrow>
       (env_type_tag m = tag_of peer_disconnected \<longrightarrow> changed = None) \<and>
       (\<forall>name. announces m name \<longrightarrow> changed = Some name \<or> lost_meanwhile lost p (cw_connect W) (cw_connect later)))"
proof (intro conjI)
  show "\<forall>name. entry = Some name \<longrightarrow>
      p \<noteq> me \<and> (\<exists>m. cop_message m \<in> set ops \<and> env_source_id m = p \<and> announces m name)"
    using roster_self_announced [of p lost owner me game username cm g ops] unfolding assms(1,2) by blast
  have me: "ct_product_user_id (cw_connect W) = me"
    unfolding assms(1) run_keeps_id by (simp add: new_connect_world_def new_sdk_connect_def)
  show "changed = entry \<or>
     (\<exists>m. op = cop_message m \<and> env_source_id m = p \<and> p \<noteq> me \<and>
        (case changed of None \<Rightarrow> env_type_tag m = tag_of peer_disconnected | Some name \<Rightarrow> announces m name)) \<or>
     (changed = None \<and> (op = cop_deinit \<or> lost_meanwhile lost p (cw_connect W) (cw_connect later)))"
  proof -
    consider m where "op = cop_message m" | "local_op op" | "op = cop_init" | "op = cop_deinit"
      by (cases op) (auto simp: local_op_def)
    then show ?thesis
    proof cases
      case 1
      then have l: "cw_connect later = snd (connect_on_network_message lost m (cw_connect W))" by (simp add: assms(3))
      from message_changes [OF l, of p] 1 me show ?thesis unfolding assms(2,4) by blast
    next
      case 2
      then show ?thesis using local_op_keeps [OF 2, of lost owner W] by (simp add: assms)
    next
      case 3
      then show ?thesis by (simp add: assms connect_emu_init_def)
    next
      case 4
      then show ?thesis by (simp add: assms connect_emu_deinit_def)
    qed
  qed
  show "\<forall>m. op = cop_message m \<and> env_source_id m = p \<and> p \<noteq> me \<longrightarrow>
       (env_type_tag m = tag_of peer_disconnected \<longrightarrow> changed = None) \<and>
       (\<forall>name. announces m name \<longrightarrow> changed = Some name \<or> lost_meanwhile lost p (cw_connect W) (cw_connect later))"
    using message_obeyed [OF refl] me unfolding assms(3,4) by force
qed

section \<open>Who hears of a login\<close>

text \<open>An announcement answers a new peer or a request, and is addressed to it.\<close>

lemma connect_message_calls:
  assumes "mesh_send e \<in> set (ct_calls (snd (connect_on_network_message lost m st)))"
  shows "mesh_send e \<in> set (ct_calls st) \<or>
    (env_type_tag e = tag_of connect_response \<and> env_dest_id e = env_source_id m \<and> ct_local_users st \<noteq> [] \<and>
     env_type_tag m \<in> {tag_of peer_connected, tag_of connect_request})"
  using assms
  by (auto simp: connect_on_network_message_def Let_def connect_announce_to_def ct_is_logged_in_def forget_peer_def
      split: option.splits if_splits)

lemma connect_do_calls:
  assumes "mesh_send e \<in> set (ct_calls (cw_connect (connect_do lost owner w op)))"
  shows "mesh_send e \<in> set (ct_calls (cw_connect w)) \<or>
    (\<exists>m. op = cop_message m \<and> env_type_tag e = tag_of connect_response \<and> env_dest_id e = env_source_id m \<and>
       ct_local_users (cw_connect w) \<noteq> [] \<and> env_type_tag m \<in> {tag_of peer_connected, tag_of connect_request})"
proof -
  consider m where "op = cop_message m" | "local_op op" | "op \<in> {cop_init, cop_deinit}"
    by (cases op) (auto simp: local_op_def)
  then show ?thesis
  proof cases
    case 1
    then show ?thesis using assms by (auto dest!: connect_message_calls)
  next
    case 2
    from local_op_keeps [OF this] show ?thesis using assms by metis
  next
    case 3
    then show ?thesis
      using assms by (auto simp: connect_emu_init_def connect_emu_deinit_def split: if_splits)
  qed
qed

lemma connect_run_calls:
  assumes "mesh_send e \<in> set (ct_calls (cw_connect (run (connect_do lost owner) w ops)))"
    and "ct_calls (cw_connect w) = []"
  shows "env_type_tag e = tag_of connect_response \<and>
    (\<exists>xs m ys. ops = xs @ cop_message m # ys \<and> env_dest_id e = env_source_id m \<and>
       ct_local_users (cw_connect (run (connect_do lost owner) w xs)) \<noteq> [] \<and>
       env_type_tag m \<in> {tag_of peer_connected, tag_of connect_request})"
  using assms
proof (induction ops rule: rev_induct)
  case Nil
  then show ?case by simp
next
  case (snoc op ops)
  from snoc.prems(1) have "mesh_send e \<in> set (ct_calls (cw_connect (connect_do lost owner
      (run (connect_do lost owner) w ops) op)))" by (simp add: run_append)
  from connect_do_calls [OF this] show ?case
  proof (elim disjE exE conjE)
    assume "mesh_send e \<in> set (ct_calls (cw_connect (run (connect_do lost owner) w ops)))"
    from snoc.IH [OF this snoc.prems(2)] show ?thesis by (metis append_Cons append_assoc)
  next
    fix m assume "op = cop_message m" "env_type_tag e = tag_of connect_response" "env_dest_id e = env_source_id m"
      "ct_local_users (cw_connect (run (connect_do lost owner) w ops)) \<noteq> []"
      "env_type_tag m \<in> {tag_of peer_connected, tag_of connect_request}"
    then show ?thesis by blast
  qed
qed

text \<open>What \<open>b\<close> handed to its router for \<open>a\<close> is all that \<open>a\<close> hears from \<open>b\<close> about logins.\<close>

definition hears_from :: "connect_op list \<Rightarrow> string \<Rightarrow> string \<Rightarrow> sdk_connect \<Rightarrow> bool" where
  "hears_from ops a b from \<longleftrightarrow>
     (\<forall>m. cop_message m \<in> set ops \<longrightarrow> env_source_id m = b \<longrightarrow>
        env_type_tag m \<in> {tag_of connect_request, tag_of connect_response} \<longrightarrow>
        env_dest_id m = a \<and> mesh_send m \<in> set (ct_calls from))"

text \<open>C29. No interface ever asks a peer who it is, so a login that comes after the mesh connected is
  announced to nobody: if every time player b joins the mesh of player a nobody is logged in there,
  then a is not in the roster of b, whatever else both do, and b turns a away wherever it asks for a
  known peer.\<close>

theorem late_login_is_never_announced:
  assumes "A = run (connect_do lost_a owner_a) (new_connect_world (new_sdk_connect a game_a name_a) cm_a g_a) ops_a"
    and "B = run (connect_do lost_b owner_b) (new_connect_world (new_sdk_connect b game_b name_b) cm_b g_b) ops_b"
    and "hears_from ops_a a b (cw_connect B)" and "hears_from ops_b b a (cw_connect A)"
    and late: "\<And>xs m ys. ops_a = xs @ cop_message m # ys \<Longrightarrow> env_type_tag m = tag_of peer_connected \<Longrightarrow>
      env_source_id m = b \<Longrightarrow>
      \<not> ct_is_logged_in (cw_connect (run (connect_do lost_a owner_a)
          (new_connect_world (new_sdk_connect a game_a name_a) cm_a g_a) xs))"
  shows "\<not> is_known_peer a (cw_connect B)"
proof
  let ?a0 = "new_connect_world (new_sdk_connect a game_a name_a) cm_a g_a"
  let ?b0 = "new_connect_world (new_sdk_connect b game_b name_b) cm_b g_b"
  have empty: "ct_calls (cw_connect ?a0) = []" "ct_calls (cw_connect ?b0) = []"
    by (simp_all add: new_connect_world_def new_sdk_connect_def)
  assume "is_known_peer a (cw_connect B)"
  then obtain name where "om_find a (ct_peers (cw_connect B)) = Some name"
    by (auto simp: is_known_peer_def)
  from roster_self_announced [OF this [unfolded assms(2)]]
  obtain m where m: "cop_message m \<in> set ops_b" "env_source_id m = a" "announces m name" by blast
  then have sent: "env_dest_id m = b" "mesh_send m \<in> set (ct_calls (cw_connect A))"
    using assms(4) unfolding hears_from_def announces_def by blast+
  obtain xs q ys where q: "ops_a = xs @ cop_message q # ys" "env_source_id q = b"
    "ct_local_users (cw_connect (run (connect_do lost_a owner_a) ?a0 xs)) \<noteq> []"
    "env_type_tag q \<in> {tag_of peer_connected, tag_of connect_request}"
    using connect_run_calls [OF sent(2) [unfolded assms(1)] empty(1)] sent(1) by metis
  show False
  proof (cases "env_type_tag q = tag_of peer_connected")
    case True
    from late [OF q(1) True q(2)] q(3) show False unfolding ct_is_logged_in_def by (rule notE)
  next
    case False
    with q(4) have request: "env_type_tag q = tag_of connect_request" by blast
    have "cop_message q \<in> set ops_a" unfolding q(1) by simp
    then have "mesh_send q \<in> set (ct_calls (cw_connect B))"
      using assms(3) q(2) request unfolding hears_from_def by blast
    from connect_run_calls [OF this [unfolded assms(2)] empty(2)]
    have "env_type_tag q = tag_of connect_response" by (rule conjunct1)
    with request show False by (metis message_type.distinct tag_of_inj)
  qed
qed

section \<open>Witnesses\<close>

text \<open>Two players: \<open>b\<close> logs in and then meets \<open>a\<close>, who hears its greeting and logs in only then.\<close>

definition greeting :: "string \<Rightarrow> string \<Rightarrow> string \<Rightarrow> net_envelope" where
  "greeting me to name =
     \<lparr>env_type_tag = tag_of connect_response, env_source_id = me, env_dest_id = to, env_game_id = ''g'',
      env_timestamp = 0, env_payload = serialize_connect_infos \<lparr>ci_product_user_id = me, ci_display_name = name\<rparr>\<rparr>"

definition joins_mesh :: "string \<Rightarrow> net_envelope" where
  "joins_mesh peer =
     \<lparr>env_type_tag = tag_of peer_connected, env_source_id = peer, env_dest_id = [], env_game_id = [],
      env_timestamp = 0, env_payload = []\<rparr>"

definition valid_login :: login_options where
  "valid_login = \<lparr>lo_api_version = 2, lo_credentials =
     Some \<lparr>cc_api_version = 1, cc_token = Some ''t'', cc_type = 10\<rparr>\<rparr>"

definition ops_of_a :: "connect_op list" where
  "ops_of_a = [cop_init, cop_message (joins_mesh ''b''), cop_message (greeting ''b'' ''a'' ''Bo''),
     cop_login 5 (Some valid_login) 0 (Some 1)]"

definition ops_of_b :: "connect_op list" where
  "ops_of_b = [cop_init, cop_login 1 (Some valid_login) 0 (Some 1), cop_message (joins_mesh ''a'')]"

abbreviation start_of :: "string \<Rightarrow> string \<Rightarrow> unit connect_world" where
  "start_of me name \<equiv> new_connect_world (new_sdk_connect me ''g'' name) new_callback_manager ()"

abbreviation nobody_lost :: lost_in_send where
  "nobody_lost \<equiv> \<lambda>_. []"

lemma greeting_reads:
  "length me < 2 ^ 64 \<Longrightarrow> length name < 2 ^ 64 \<Longrightarrow>
   fst (deserialize_connect_infos (reader_of (env_payload (greeting me to name)))) =
     Some \<lparr>ci_product_user_id = me, ci_display_name = name\<rparr>"
  using connect_infos_codec.roundtrip [of "\<lparr>ci_product_user_id = me, ci_display_name = name\<rparr>"]
  by (simp add: greeting_def connect_infos_ok_def string_ok_def fits64_def)

lemma valid_login_ok: "login_options_are_valid (Some valid_login)"
  by (simp add: login_options_are_valid_def valid_login_def connect_login_latest_def
      connect_credentials_latest_def lowest_credential_type_def highest_credential_type_def)

lemma greeting_fields [simp]:
  "env_type_tag (greeting me to name) = tag_of connect_response" "env_source_id (greeting me to name) = me"
  "env_dest_id (greeting me to name) = to"
  "env_type_tag (joins_mesh p) = tag_of peer_connected" "env_source_id (joins_mesh p) = p"
  by (simp_all add: greeting_def joins_mesh_def)

lemma run_of_b:
  "ct_calls (cw_connect (run (connect_do nobody_lost 7) (start_of ''b'' ''Bo'') ops_of_b)) =
     map mesh_listen connect_message_types @ [mesh_send (greeting ''b'' ''a'' ''Bo'')]"
  by (simp add: ops_of_b_def new_connect_world_def new_sdk_connect_def connect_emu_init_def
      connect_login_def valid_login_ok Let_def ct_is_logged_in_def deliver_login_result_def
      queue_connect_result_def note_transition_def connect_on_network_message_def connect_announce_to_def greeting_def)

lemma run_of_a:
  "ct_calls (cw_connect (run (connect_do nobody_lost 7) (start_of ''a'' ''Al'') ops_of_a)) =
     map mesh_listen connect_message_types"
  "om_find ''b'' (ct_peers (cw_connect (run (connect_do nobody_lost 7) (start_of ''a'' ''Al'') ops_of_a))) = Some ''Bo''"
  by (simp_all add: ops_of_a_def new_connect_world_def new_sdk_connect_def connect_emu_init_def
      connect_login_def valid_login_ok Let_def ct_is_logged_in_def deliver_login_result_def
      queue_connect_result_def note_transition_def connect_on_network_message_def greeting_reads om_find_Cons)

text \<open>Player \<open>a\<close> has met \<open>b\<close> under the name Bo; then \<open>b\<close> leaves.\<close>

theorem roster_names_are_self_announced_witness:
  "(\<exists>m. cop_message m \<in> set ops_of_a \<and> env_source_id m = ''b'' \<and> announces m ''Bo'') \<and>
   om_find ''b'' (ct_peers (cw_connect (connect_do nobody_lost 7
     (run (connect_do nobody_lost 7) (start_of ''a'' ''Al'') ops_of_a)
     (cop_message ((joins_mesh ''b'')\<lparr>env_type_tag := tag_of peer_disconnected\<rparr>))))) = None"
  using roster_names_are_self_announced [OF refl refl refl refl, where p = "''b''" and ops = ops_of_a and lost = nobody_lost
      and owner = 7 and me = "''a''" and game = "''g''" and username = "''Al''" and cm = new_callback_manager and g = "()"
      and op = "cop_message ((joins_mesh ''b'')\<lparr>env_type_tag := tag_of peer_disconnected\<rparr>)"] run_of_a(2)
  by (auto simp: joins_mesh_def)

theorem late_login_is_never_announced_witness:
  "\<not> is_known_peer ''a'' (cw_connect (run (connect_do nobody_lost 7) (start_of ''b'' ''Bo'') ops_of_b))"
proof (rule late_login_is_never_announced [OF refl refl, where ops_a = ops_of_a and lost_a = nobody_lost and owner_a = 7
      and a = "''a''" and game_a = "''g''" and name_a = "''Al''" and cm_a = new_callback_manager and g_a = "()"])
  show "hears_from ops_of_a ''a'' ''b'' (cw_connect (run (connect_do nobody_lost 7) (start_of ''b'' ''Bo'') ops_of_b))"
    by (auto simp: hears_from_def run_of_b ops_of_a_def)
  show "hears_from ops_of_b ''b'' ''a'' (cw_connect (run (connect_do nobody_lost 7) (start_of ''a'' ''Al'') ops_of_a))"
    by (auto simp: hears_from_def ops_of_b_def)
  fix xs m ys
  assume split: "ops_of_a = xs @ cop_message m # ys" and joined: "env_type_tag m = tag_of peer_connected"
  have "xs = [cop_init]"
    using split joined by (cases xs; cases "tl xs"; cases "tl (tl xs)"; cases "tl (tl (tl xs))") (auto simp: ops_of_a_def append_eq_Cons_conv)
  then show "\<not> ct_is_logged_in (cw_connect (run (connect_do nobody_lost 7) (start_of ''a'' ''Al'') xs))"
    by (simp add: connect_emu_init_def new_connect_world_def new_sdk_connect_def ct_is_logged_in_def)
qed

end
