(* ===== verification/Sessions.thy ===== *)
theory Sessions
  imports Wire Handles Connect
begin

text \<open>
  \<^verbatim>\<open>interfaces/sessions.cpp\<close>, first part: the state of the interface, attributes and their comparison,
  the question a search asks of a session, and the staging of modifications.  An option struct a game
  passes is its \<^verbatim>\<open>ApiVersion\<close> and its fields, and a pointer it may leave null is an \<open>option\<close>.
  A result the callback manager owns is named by the order of its creation, where the code has its
  address, and a struct the game frees likewise.  Trace records are left out.
\<close>

section \<open>Versions and limits\<close>

definition cb_update :: int where "cb_update = 1"
definition cb_destroy :: int where "cb_destroy = 2"
definition cb_join :: int where "cb_join = 3"
definition cb_start :: int where "cb_start = 4"
definition cb_end :: int where "cb_end = 5"
definition cb_register_players :: int where "cb_register_players = 6"
definition cb_unregister_players :: int where "cb_unregister_players = 7"
definition cb_find :: int where "cb_find = 8"
definition cb_session_stub :: int where "cb_session_stub = 9"
definition cb_session_notification :: int where "cb_session_notification = 10"

definition search_timeout :: msec where "search_timeout = 5000"
definition join_timeout :: msec where "join_timeout = 5000"

definition key_bucket :: string where "key_bucket = ''bucket''"
definition key_empty_only :: string where "key_empty_only = ''emptyonly''"
definition key_nonempty_only :: string where "key_nonempty_only = ''nonemptyonly''"
definition key_min_slots :: string where "key_min_slots = ''minslotsavailable''"

definition max_session_attributes :: nat where "max_session_attributes = 64"
definition max_session_attribute_length :: nat where "max_session_attribute_length = 64"
definition min_session_id_override :: nat where "min_session_id_override = 16"
definition max_session_id_override :: nat where "max_session_id_override = 64"
definition max_results_limit :: u32 where "max_results_limit = 200"

definition sessionsearch_find_with_local_user :: int where "sessionsearch_find_with_local_user = 2"
definition createsessionmod_with_session_id :: int where "createsessionmod_with_session_id = 3"
definition createsessionmod_with_sanctions :: int where "createsessionmod_with_sanctions = 4"

definition oss_pending :: i32 where "oss_pending = 2"
definition oss_in_progress :: i32 where "oss_in_progress = 4"
definition oss_ended :: i32 where "oss_ended = 6"
definition ospf_invite_only :: i32 where "ospf_invite_only = 2"

lemmas session_states = oss_pending_def oss_in_progress_def oss_ended_def

section \<open>State\<close>

datatype local_state_kind = hosting | joining | joined

record session =
  se_infos :: session_infos
  se_local_user :: string
  se_local_state :: local_state_kind

record modification_object =
  mo_session_name :: string
  mo_local_user :: string
  mo_creating :: bool
  mo_infos :: session_infos

text \<open>\<open>so_awaiting\<close> is the set of the peers asked that have not answered, in order.\<close>

record search_object =
  so_query :: session_search
  so_results :: "session_infos list"
  so_max_results :: u32
  so_searching :: bool
  so_awaiting :: "string list"
  so_deadline :: msec

record details_object =
  do_infos :: session_infos

record active_object =
  ao_session_name :: string

record pending_join =
  pj_session_id :: string
  pj_deadline :: msec

text \<open>The fields the callback infos carry, over all the completions.\<close>

record session_callback =
  sc_result_code :: i32
  sc_client_data :: nat
  sc_session_name :: "string option"
  sc_session_id :: "string option"
  sc_players :: "string list"

text \<open>What the copy functions hand to a game.\<close>

record details_info =
  di_session_id :: string
  di_host_address :: string
  di_bucket_id :: string
  di_num_public_connections :: u32
  di_num_open_public_connections :: u32
  di_allow_join_in_progress :: bool
  di_permission_level :: i32
  di_invites_allowed :: bool
  di_sanctions_enabled :: bool
  di_owner_user_id :: id_handle

record active_info =
  ai_session_name :: string
  ai_local_user_id :: id_handle
  ai_state :: i32
  ai_details :: details_info

text \<open>A value is read by the member of the union its type names; other types have no member.\<close>

datatype attribute_value =
    av_bool bool | av_int64 i64 | av_double f64 | av_string "string option" | av_unknown

record attribute_data =
  ad_key :: "string option"
  ad_value_type :: i32
  ad_value :: attribute_value

record details_attribute =
  da_data :: attribute_data
  da_advertisement :: i32

record sdk_sessions =
  sn_product_user_id :: string
  sn_product_id :: string
  sn_calls :: "mesh_call list"
  sn_sessions :: "(string, session) omap"
  sn_handle_counter :: u64
  sn_modifications :: "modification_object handle_store"
  sn_searches :: "search_object handle_store"
  sn_details :: "details_object handle_store"
  sn_actives :: "active_object handle_store"
  sn_pending_finds :: "(nat, u64) omap"
  sn_pending_joins :: "(nat, pending_join) omap"
  sn_next_search_id :: u64
  sn_registered :: bool
  sn_results :: "(nat \<times> session_callback frame_result) list"
  sn_ready :: "(nat \<times> session_callback frame_result) list"
  sn_next_result :: nat
  sn_details_infos :: "(nat, details_info) omap"
  sn_active_infos :: "(nat, active_info) omap"
  sn_attributes :: "(nat, details_attribute) omap"
  sn_next_pointer :: nat

text \<open>
  \<open>sn_results\<close> is the interface's queue in the callback manager, and \<open>sn_ready\<close> what a tick took off
  it to fire.  The last four fields are the structs handed out, which outlive a platform.
\<close>

definition new_sdk_sessions :: "string \<Rightarrow> string \<Rightarrow> sdk_sessions" where
  "new_sdk_sessions product_user_id product_id =
     \<lparr>sn_product_user_id = product_user_id, sn_product_id = product_id, sn_calls = [], sn_sessions = [],
      sn_handle_counter = 1, sn_modifications = [], sn_searches = [], sn_details = [], sn_actives = [],
      sn_pending_finds = [], sn_pending_joins = [], sn_next_search_id = 1, sn_registered = False,
      sn_results = [], sn_ready = [], sn_next_result = 1, sn_details_infos = [], sn_active_infos = [],
      sn_attributes = [], sn_next_pointer = 1\<rparr>"

definition new_session_infos :: session_infos where
  "new_session_infos =
     \<lparr>si_session_id = [], si_owner_id = [], si_bucket_id = [], si_host_address = [], si_max_players = 0,
      si_open_slots = 0, si_permission_level = 0, si_state = 0, si_allow_join_in_progress = False,
      si_invites_allowed = False, si_sanctions_enabled = False, si_registered_players = [], si_attributes = []\<rparr>"

definition session_message_types :: "message_type list" where
  "session_message_types = [mt_session_search, mt_session_search_response, mt_session_join_request,
     mt_session_join_response, mt_session_infos, mt_session_destroy, session_register, session_unregister,
     peer_disconnected]"

definition sessions_emu_init :: "sdk_sessions \<Rightarrow> sdk_sessions" where
  "sessions_emu_init st =
     (if sn_registered st then st
      else st\<lparr>sn_calls := sn_calls st @ map mesh_listen session_message_types, sn_registered := True\<rparr>)"

definition sessions_emu_deinit :: "sdk_sessions \<Rightarrow> sdk_sessions" where
  "sessions_emu_deinit st =
     (if \<not> sn_registered st then st
      else st\<lparr>sn_calls := sn_calls st @ map mesh_unlisten session_message_types,
              sn_results := [], sn_sessions := [], sn_modifications := hs_clear (sn_modifications st),
              sn_searches := hs_clear (sn_searches st), sn_details := hs_clear (sn_details st),
              sn_actives := hs_clear (sn_actives st), sn_pending_finds := [], sn_pending_joins := [],
              sn_registered := False\<rparr>)"

section \<open>Attributes\<close>

definition read_attribute :: "attribute_data option \<Rightarrow> session_attribute option" where
  "read_attribute data =
     (case data of
        None \<Rightarrow> None
      | Some d \<Rightarrow>
          (case ad_key d of
             None \<Rightarrow> None
           | Some key \<Rightarrow>
               if key = [] \<or> max_session_attribute_length < length key then None
               else
                 let out = new_attribute\<lparr>sa_key := key, sa_value_type := ad_value_type d\<rparr>
                 in (case ad_value d of
                       av_bool b \<Rightarrow> Some (out\<lparr>sa_as_bool := b\<rparr>)
                     | av_int64 i \<Rightarrow> Some (out\<lparr>sa_as_int64 := i\<rparr>)
                     | av_double f \<Rightarrow> Some (out\<lparr>sa_as_double := f\<rparr>)
                     | av_string text \<Rightarrow>
                         (case text of None \<Rightarrow> None | Some s \<Rightarrow> Some (out\<lparr>sa_as_string := s\<rparr>))
                     | av_unknown \<Rightarrow> None)))"

text \<open>The union is tagged: the member is the one the type names.\<close>

definition attribute_data_ok :: "attribute_data \<Rightarrow> bool" where
  "attribute_data_ok d \<longleftrightarrow>
     (case ad_value d of
        av_bool _ \<Rightarrow> ad_value_type d = 0
      | av_int64 _ \<Rightarrow> ad_value_type d = 1
      | av_double _ \<Rightarrow> ad_value_type d = 2
      | av_string _ \<Rightarrow> ad_value_type d = 3
      | av_unknown \<Rightarrow> ad_value_type d \<notin> {0, 1, 2, 3})"

definition write_attribute :: "session_attribute \<Rightarrow> attribute_data" where
  "write_attribute from =
     \<lparr>ad_key = Some (sa_key from), ad_value_type = sa_value_type from,
      ad_value =
        (if sa_value_type from = 0 then av_bool (sa_as_bool from)
         else if sa_value_type from = 1 then av_int64 (sa_as_int64 from)
         else if sa_value_type from = 2 then av_double (sa_as_double from)
         else av_string (Some (sa_as_string from)))\<rparr>"

text \<open>
  Comparing doubles reads their bit patterns: a pattern beyond the infinities is no number and
  compares with nothing, and the rest are ordered by sign and magnitude, with one zero.
\<close>

definition f64_magnitude :: "f64 \<Rightarrow> nat" where
  "f64_magnitude x = unat (x AND 0x7FFFFFFFFFFFFFFF)"

definition f64_is_nan :: "f64 \<Rightarrow> bool" where
  "f64_is_nan x \<longleftrightarrow> 0x7FF0000000000000 < f64_magnitude x"

definition f64_rank :: "f64 \<Rightarrow> int" where
  "f64_rank x = (if bit x 63 then - int (f64_magnitude x) else int (f64_magnitude x))"

definition f64_equal :: "f64 \<Rightarrow> f64 \<Rightarrow> bool" where
  "f64_equal x y \<longleftrightarrow> \<not> f64_is_nan x \<and> \<not> f64_is_nan y \<and> f64_rank x = f64_rank y"

definition f64_less :: "f64 \<Rightarrow> f64 \<Rightarrow> bool" where
  "f64_less x y \<longleftrightarrow> \<not> f64_is_nan x \<and> \<not> f64_is_nan y \<and> f64_rank x < f64_rank y"

text \<open>The operators are the type's own \<^verbatim>\<open>==\<close> and \<^verbatim>\<open><\<close>; the others derive from them in every instance.\<close>

definition compare_ordered :: "('a \<Rightarrow> 'a \<Rightarrow> bool) \<Rightarrow> ('a \<Rightarrow> 'a \<Rightarrow> bool) \<Rightarrow> 'a \<Rightarrow> 'a \<Rightarrow> i32 \<Rightarrow> bool" where
  "compare_ordered eq lt mine theirs op =
     (if op = 0 then eq mine theirs
      else if op = 1 then \<not> eq mine theirs
      else if op = 2 then lt theirs mine
      else if op = 3 then lt theirs mine \<or> eq mine theirs
      else if op = 4 then lt mine theirs
      else if op = 5 then lt mine theirs \<or> eq mine theirs
      else True)"

definition compare_int :: "int \<Rightarrow> int \<Rightarrow> i32 \<Rightarrow> bool" where
  "compare_int = compare_ordered (=) (<)"

definition compare_text :: "string \<Rightarrow> string \<Rightarrow> i32 \<Rightarrow> bool" where
  "compare_text = compare_ordered (=) (<)"

definition compare_f64 :: "f64 \<Rightarrow> f64 \<Rightarrow> i32 \<Rightarrow> bool" where
  "compare_f64 = compare_ordered f64_equal f64_less"

definition compare_attribute :: "session_attribute \<Rightarrow> session_attribute \<Rightarrow> i32 \<Rightarrow> bool" where
  "compare_attribute mine theirs op =
     (if sa_value_type mine \<noteq> sa_value_type theirs then False
      else if sa_value_type mine = 0 then compare_int (of_bool (sa_as_bool mine)) (of_bool (sa_as_bool theirs)) op
      else if sa_value_type mine = 1 then compare_int (sint (sa_as_int64 mine)) (sint (sa_as_int64 theirs)) op
      else if sa_value_type mine = 2 then compare_f64 (sa_as_double mine) (sa_as_double theirs) op
      else compare_text (sa_as_string mine) (sa_as_string theirs) op)"

section \<open>What a session is\<close>

text \<open>\<^verbatim>\<open>contains\<close> is membership, and \<^verbatim>\<open>remove_from\<close> takes the first occurrence out, which is \<^const>\<open>remove1\<close>.\<close>

definition contains :: "string list \<Rightarrow> string \<Rightarrow> bool" where
  "contains xs x \<longleftrightarrow> x \<in> set xs"

definition remove_from :: "string list \<Rightarrow> string \<Rightarrow> string list" where
  "remove_from xs x = remove1 x xs"

definition open_slots_of :: "session_infos \<Rightarrow> u32" where
  "open_slots_of infos =
     (let taken = length (si_registered_players infos)
      in if unat (si_max_players infos) \<le> taken then 0 else si_max_players infos - word_of_nat taken)"

definition recount :: "session_infos \<Rightarrow> session_infos" where
  "recount infos = infos\<lparr>si_open_slots := open_slots_of infos\<rparr>"

definition fill_details_info :: "session_infos \<Rightarrow> details_info" where
  "fill_details_info infos =
     \<lparr>di_session_id = si_session_id infos, di_host_address = si_host_address infos,
      di_bucket_id = si_bucket_id infos, di_num_public_connections = si_max_players infos,
      di_num_open_public_connections = open_slots_of infos,
      di_allow_join_in_progress = si_allow_join_in_progress infos,
      di_permission_level = si_permission_level infos, di_invites_allowed = si_invites_allowed infos,
      di_sanctions_enabled = si_sanctions_enabled infos, di_owner_user_id = handle_of_id (si_owner_id infos)\<rparr>"

definition parameter_matches :: "session_infos \<Rightarrow> search_parameter \<Rightarrow> bool" where
  "parameter_matches infos parameter =
     (let key = sa_key (sp_attribute parameter); op = sp_comparison_op parameter;
          theirs = sp_attribute parameter; taken = length (si_registered_players infos)
      in if key = key_bucket
         then sa_value_type theirs = 3 \<and> compare_text (si_bucket_id infos) (sa_as_string theirs) op
         else if key = key_empty_only then taken \<le> 1
         else if key = key_nonempty_only then 1 < taken
         else if key = key_min_slots
         then compare_int (int (unat (open_slots_of infos))) (sint (sa_as_int64 theirs)) (if op = 0 then 3 else op)
         else
           (case List.find (\<lambda>a. sa_key a = key) (si_attributes infos) of
              None \<Rightarrow> False
            | Some mine \<Rightarrow> compare_attribute mine theirs op))"

definition session_matches :: "session_infos \<Rightarrow> session_search \<Rightarrow> bool" where
  "session_matches infos query =
     (if si_permission_level infos = ospf_invite_only then False
      else if si_state infos = oss_in_progress \<and> \<not> si_allow_join_in_progress infos then False
      else if ss_session_id query \<noteq> [] \<and> si_session_id infos \<noteq> ss_session_id query then False
      else if ss_target_user_id query \<noteq> [] \<and> \<not> contains (si_registered_players infos) (ss_target_user_id query)
      then False
      else list_all (parameter_matches infos) (ss_parameters query))"

section \<open>Lookups\<close>

definition find_by_name :: "string \<Rightarrow> sdk_sessions \<Rightarrow> session option" where
  "find_by_name name st = om_find name (sn_sessions st)"

text \<open>The first in name order; what comes back is its name and the entry.\<close>

definition find_by_id :: "string \<Rightarrow> sdk_sessions \<Rightarrow> (string \<times> session) option" where
  "find_by_id session_id st = List.find (\<lambda>e. si_session_id (se_infos (snd e)) = session_id) (sn_sessions st)"

definition put_session :: "string \<Rightarrow> session \<Rightarrow> sdk_sessions \<Rightarrow> sdk_sessions" where
  "put_session name entry st = st\<lparr>sn_sessions := om_put name entry (sn_sessions st)\<rparr>"

definition put_infos :: "string \<Rightarrow> session \<Rightarrow> session_infos \<Rightarrow> sdk_sessions \<Rightarrow> sdk_sessions" where
  "put_infos name entry infos st = put_session name (entry\<lparr>se_infos := infos\<rparr>) st"

definition erase_session :: "string \<Rightarrow> sdk_sessions \<Rightarrow> sdk_sessions" where
  "erase_session name st = st\<lparr>sn_sessions := om_erase name (sn_sessions st)\<rparr>"

section \<open>Sending\<close>

text \<open>
  A player that leaves gives its seat back in every session.  It may be reported from inside a send,
  while the roster the code walks is the one that shrinks.
\<close>

definition lose_seat :: "string \<Rightarrow> session \<Rightarrow> session" where
  "lose_seat peer entry =
     entry\<lparr>se_infos := recount ((se_infos entry)\<lparr>si_registered_players :=
       remove_from (si_registered_players (se_infos entry)) peer\<rparr>)\<rparr>"

definition sessions_peer_lost :: "string \<Rightarrow> sdk_sessions \<Rightarrow> sdk_sessions" where
  "sessions_peer_lost peer st =
     (if peer = [] \<or> peer = sn_product_user_id st then st
      else st\<lparr>sn_sessions := map (\<lambda>(name, entry). (name, lose_seat peer entry)) (sn_sessions st)\<rparr>)"

definition send_to :: "lost_in_send \<Rightarrow> string \<Rightarrow> message_type \<Rightarrow> bytes \<Rightarrow> sdk_sessions \<Rightarrow> sdk_sessions" where
  "send_to lost peer type payload st =
     (let envelope = \<lparr>env_type_tag = tag_of type, env_source_id = sn_product_user_id st, env_dest_id = peer,
                      env_game_id = sn_product_id st, env_timestamp = 0, env_payload = payload\<rparr>;
          st' = st\<lparr>sn_calls := sn_calls st @ [mesh_send envelope]\<rparr>
      in foldl (\<lambda>s p. sessions_peer_lost p s) st' (lost (sn_calls st')))"

definition roster_of :: "string \<Rightarrow> sdk_sessions \<Rightarrow> string list" where
  "roster_of name st =
     (case find_by_name name st of None \<Rightarrow> [] | Some entry \<Rightarrow> si_registered_players (se_infos entry))"

lemma om_find_map_entries:
  "om_find k (map (\<lambda>(name, entry). (name, f entry)) m) = map_option f (om_find k m)"
  by (induction m) (auto simp: om_find_Cons)

lemma sessions_peer_lost_find:
  "find_by_name name (sessions_peer_lost peer st) =
     (if peer = [] \<or> peer = sn_product_user_id st then find_by_name name st
      else map_option (lose_seat peer) (find_by_name name st))"
  by (simp add: sessions_peer_lost_def find_by_name_def om_find_map_entries)

lemma sessions_peer_lost_roster: "length (roster_of name (sessions_peer_lost peer st)) \<le> length (roster_of name st)"
  by (auto simp: roster_of_def sessions_peer_lost_find lose_seat_def recount_def remove_from_def
      length_remove1 split: option.splits)

lemma sessions_peers_lost_roster:
  "length (roster_of name (foldl (\<lambda>s p. sessions_peer_lost p s) st ps)) \<le> length (roster_of name st)"
proof (induction ps arbitrary: st)
  case (Cons p ps)
  show ?case using Cons.IH [of "sessions_peer_lost p st"] sessions_peer_lost_roster [of name p st] by simp
qed simp

lemma roster_of_calls [simp]: "roster_of name (st\<lparr>sn_calls := calls\<rparr>) = roster_of name st"
  by (simp add: roster_of_def find_by_name_def)

lemma send_to_roster: "length (roster_of name (send_to lost peer type payload st)) \<le> length (roster_of name st)"
  unfolding send_to_def Let_def by (rule order_trans [OF sessions_peers_lost_roster]) simp

text \<open>The walk over a roster by index; the entry is read again at each step, as through its reference.\<close>

function send_to_members_from :: "lost_in_send \<Rightarrow> string \<Rightarrow> message_type \<Rightarrow> bytes \<Rightarrow> string \<Rightarrow> nat \<Rightarrow>
    sdk_sessions \<Rightarrow> sdk_sessions" where
  "send_to_members_from lost name type payload except i st =
     (if i < length (roster_of name st)
      then
        let player = roster_of name st ! i;
            st' = (if player = sn_product_user_id st \<or> player = except then st
                   else send_to lost player type payload st)
        in send_to_members_from lost name type payload except (Suc i) st'
      else st)"
  by pat_completeness auto

termination
proof (relation "measure (\<lambda>(lost, name, type, payload, except, i, st). length (roster_of name st) - i)")
  fix lost name type payload except i st player st'
  assume "i < length (roster_of name st)"
    and "st' = (if player = sn_product_user_id st \<or> player = except then st else send_to lost player type payload st)"
  moreover have "length (roster_of name (send_to lost player type payload st)) \<le> length (roster_of name st)"
    by (rule send_to_roster)
  ultimately show "((lost, name, type, payload, except, Suc i, st'), lost, name, type, payload, except, i, st)
      \<in> measure (\<lambda>(lost, name, type, payload, except, i, st). length (roster_of name st) - i)"
    by auto
qed simp

declare send_to_members_from.simps [simp del]

definition send_to_members :: "lost_in_send \<Rightarrow> string \<Rightarrow> message_type \<Rightarrow> bytes \<Rightarrow> string \<Rightarrow> sdk_sessions \<Rightarrow> sdk_sessions" where
  "send_to_members lost name type payload except st = send_to_members_from lost name type payload except 0 st"

definition broadcast_session :: "lost_in_send \<Rightarrow> string \<Rightarrow> sdk_sessions \<Rightarrow> sdk_sessions" where
  "broadcast_session lost name st =
     (case find_by_name name st of
        None \<Rightarrow> st
      | Some entry \<Rightarrow> send_to_members lost name mt_session_infos (serialize_session_infos (se_infos entry)) [] st)"

section \<open>Results\<close>

definition empty_session_callback :: session_callback where
  "empty_session_callback = \<lparr>sc_result_code = 0, sc_client_data = 0, sc_session_name = None,
     sc_session_id = None, sc_players = []\<rparr>"

definition new_session_result :: "session_callback frame_result" where
  "new_session_result = \<lparr>fr_type_id = 0, fr_payload = empty_session_callback, fr_func = None,
     fr_ok_timeout = 0, fr_created_time = 0, fr_done = False, fr_remove_on_timeout = False\<rparr>"

text \<open>The result, named and queued; the delegate is never null here.\<close>

definition queue_result :: "msec \<Rightarrow> int \<Rightarrow> session_callback \<Rightarrow> nat \<Rightarrow> bool \<Rightarrow> sdk_sessions \<Rightarrow> sdk_sessions" where
  "queue_result now type info delegate finished st =
     st\<lparr>sn_results := sn_results st @ [(sn_next_result st,
          (create_callback now type info (Some delegate) 0 new_session_result)\<lparr>fr_done := finished\<rparr>)],
        sn_next_result := Suc (sn_next_result st)\<rparr>"

definition deliver :: "msec \<Rightarrow> int \<Rightarrow> nat \<Rightarrow> nat \<Rightarrow> eos_result \<Rightarrow> sdk_sessions \<Rightarrow> sdk_sessions" where
  "deliver now type delegate client_data code st =
     queue_result now type (empty_session_callback\<lparr>sc_result_code := result_number code,
       sc_client_data := client_data\<rparr>) delegate True st"

definition queue_session_stub :: "msec \<Rightarrow> nat \<Rightarrow> nat option \<Rightarrow> sdk_sessions \<Rightarrow> sdk_sessions" where
  "queue_session_stub now client_data delegate st =
     (case delegate of
        None \<Rightarrow> st
      | Some d \<Rightarrow> deliver now cb_session_stub d client_data EOS_NotImplemented st)"

definition add_stub_notification :: "nat \<Rightarrow> msec \<Rightarrow> nat \<Rightarrow> nat option \<Rightarrow>
    session_callback callback_manager \<Rightarrow> u64 \<times> session_callback callback_manager" where
  "add_stub_notification owner now client_data delegate cm =
     (case delegate of
        None \<Rightarrow> (0, cm)
      | Some d \<Rightarrow>
          add_notification owner (create_callback now cb_session_notification
            (empty_session_callback\<lparr>sc_client_data := client_data\<rparr>) (Some d) 0 new_session_result) cm)"

end
