(* ===== verification/Sessions_Modify.thy ===== *)
theory Sessions_Modify
  imports Sessions
begin

text \<open>
  \<^verbatim>\<open>interfaces/sessions.cpp\<close>, second part: the objects a game stages a session or a search with, and
  the setters on them.  A setter finds its object, checks the struct it was given and writes one field.
\<close>

section \<open>Session modifications\<close>

record create_modification_options =
  cm_session_name :: "string option"
  cm_bucket_id :: "string option"
  cm_max_players :: u32
  cm_local_user_id :: id_handle
  cm_session_id :: "string option"
  cm_sanctions_enabled :: bool

text \<open>A handle is 0 where the code leaves the caller's pointer null.\<close>

definition add_modification :: "modification_object \<Rightarrow> sdk_sessions \<Rightarrow> u64 \<times> sdk_sessions" where
  "add_modification object st =
     (case hs_add object (sn_handle_counter st) (sn_modifications st) of
        (h, counter, store) \<Rightarrow> (h, st\<lparr>sn_handle_counter := counter, sn_modifications := store\<rparr>))"

definition loopback_address :: string where "loopback_address = ''127.0.0.1''"

definition create_session_modification :: "create_modification_options versioned option \<Rightarrow> bool \<Rightarrow>
    sdk_sessions \<Rightarrow> eos_result \<times> u64 \<times> sdk_sessions" where
  "create_session_modification options has_out st =
     (if \<not> has_out then (EOS_InvalidParameters, 0, st)
      else
        (case options of
           Some (versioned version o') \<Rightarrow>
             (case (cm_session_name o', cm_bucket_id o', cm_local_user_id o') of
                (Some name, Some bucket, Some user) \<Rightarrow>
                  if \<not> version_ok version 5 \<or> name = [] then (EOS_InvalidParameters, 0, st)
                  else
                    let override_id = (if createsessionmod_with_session_id \<le> version
                                       then text_or_empty (cm_session_id o') else [])
                    in if override_id \<noteq> [] \<and>
                          (length override_id < min_session_id_override \<or> max_session_id_override < length override_id)
                       then (EOS_InvalidParameters, 0, st)
                       else
                         (case add_modification
                            \<lparr>mo_session_name = name, mo_local_user = user, mo_creating = True,
                             mo_infos = new_session_infos\<lparr>si_session_id := override_id, si_bucket_id := bucket,
                               si_max_players := cm_max_players o', si_host_address := loopback_address,
                               si_sanctions_enabled := (createsessionmod_with_sanctions \<le> version \<and>
                                 cm_sanctions_enabled o')\<rparr>\<rparr> st of
                            (h, st') \<Rightarrow> (EOS_Success, h, st'))
              | _ \<Rightarrow> (EOS_InvalidParameters, 0, st))
         | None \<Rightarrow> (EOS_InvalidParameters, 0, st)))"

definition update_session_modification :: "string option versioned option \<Rightarrow> bool \<Rightarrow>
    sdk_sessions \<Rightarrow> eos_result \<times> u64 \<times> sdk_sessions" where
  "update_session_modification options has_out st =
     (if \<not> has_out then (EOS_InvalidParameters, 0, st)
      else
        (case options of
           Some (versioned version (Some name)) \<Rightarrow>
             if \<not> version_ok version 1 \<or> name = [] then (EOS_InvalidParameters, 0, st)
             else
               (case find_by_name name st of
                  None \<Rightarrow> (EOS_NotFound, 0, st)
                | Some entry \<Rightarrow>
                    (case add_modification \<lparr>mo_session_name = name, mo_local_user = se_local_user entry,
                            mo_creating = False, mo_infos = se_infos entry\<rparr> st of
                       (h, st') \<Rightarrow> (EOS_Success, h, st')))
         | _ \<Rightarrow> (EOS_InvalidParameters, 0, st)))"

text \<open>
  What the setters share: the object and the struct must be there and the version one we know; then
  \<open>write\<close> gives the fields written, or the result to report instead.
\<close>

definition set_modification :: "int \<Rightarrow> ('x \<Rightarrow> session_infos \<Rightarrow> eos_result + session_infos) \<Rightarrow> u64 \<Rightarrow>
    'x versioned option \<Rightarrow> sdk_sessions \<Rightarrow> eos_result \<times> sdk_sessions" where
  "set_modification latest write handle options st =
     (case (hs_find handle (sn_modifications st), options) of
        (Some object, Some (versioned version x)) \<Rightarrow>
          if \<not> version_ok version latest then (EOS_InvalidParameters, st)
          else
            (case write x (mo_infos object) of
               Inl code \<Rightarrow> (code, st)
             | Inr infos \<Rightarrow>
                 (EOS_Success,
                  st\<lparr>sn_modifications := om_put handle (object\<lparr>mo_infos := infos\<rparr>) (sn_modifications st)\<rparr>))
      | _ \<Rightarrow> (EOS_InvalidParameters, st))"

definition needs_text :: "(string \<Rightarrow> 'i \<Rightarrow> 'i) \<Rightarrow> string option \<Rightarrow> 'i \<Rightarrow> eos_result + 'i" where
  "needs_text write text infos =
     (case text of None \<Rightarrow> Inl EOS_InvalidParameters | Some t \<Rightarrow> Inr (write t infos))"

definition modification_set_bucket_id :: "u64 \<Rightarrow> string option versioned option \<Rightarrow> sdk_sessions \<Rightarrow> eos_result \<times> sdk_sessions" where
  "modification_set_bucket_id =
     set_modification 1 (needs_text (\<lambda>bucket infos. infos\<lparr>si_bucket_id := bucket\<rparr>))"

definition modification_set_host_address :: "u64 \<Rightarrow> string option versioned option \<Rightarrow> sdk_sessions \<Rightarrow> eos_result \<times> sdk_sessions" where
  "modification_set_host_address =
     set_modification 1 (needs_text (\<lambda>address infos. infos\<lparr>si_host_address := address\<rparr>))"

definition modification_set_permission_level :: "u64 \<Rightarrow> i32 versioned option \<Rightarrow> sdk_sessions \<Rightarrow> eos_result \<times> sdk_sessions" where
  "modification_set_permission_level =
     set_modification 1 (\<lambda>level infos. Inr (infos\<lparr>si_permission_level := level\<rparr>))"

definition modification_set_join_in_progress :: "u64 \<Rightarrow> bool versioned option \<Rightarrow> sdk_sessions \<Rightarrow> eos_result \<times> sdk_sessions" where
  "modification_set_join_in_progress =
     set_modification 1 (\<lambda>allowed infos. Inr (infos\<lparr>si_allow_join_in_progress := allowed\<rparr>))"

definition modification_set_max_players :: "u64 \<Rightarrow> u32 versioned option \<Rightarrow> sdk_sessions \<Rightarrow> eos_result \<times> sdk_sessions" where
  "modification_set_max_players =
     set_modification 1 (\<lambda>players infos. Inr (infos\<lparr>si_max_players := players\<rparr>))"

definition modification_set_invites_allowed :: "u64 \<Rightarrow> bool versioned option \<Rightarrow> sdk_sessions \<Rightarrow> eos_result \<times> sdk_sessions" where
  "modification_set_invites_allowed =
     set_modification 1 (\<lambda>allowed infos. Inr (infos\<lparr>si_invites_allowed := allowed\<rparr>))"

text \<open>The platforms are checked for and not kept.\<close>

definition modification_set_allowed_platform_ids :: "u64 \<Rightarrow> unit versioned option \<Rightarrow> sdk_sessions \<Rightarrow> eos_result" where
  "modification_set_allowed_platform_ids handle options st =
     (case (hs_find handle (sn_modifications st), options) of
        (Some _, Some (versioned version _)) \<Rightarrow>
          if version_ok version 1 then EOS_Success else EOS_InvalidParameters
      | _ \<Rightarrow> EOS_InvalidParameters)"

fun replace_first :: "('a \<Rightarrow> bool) \<Rightarrow> 'a \<Rightarrow> 'a list \<Rightarrow> 'a list option" where
  "replace_first P y [] = None"
| "replace_first P y (x # xs) =
     (if P x then Some (y # xs) else map_option (Cons x) (replace_first P y xs))"

fun remove_first :: "('a \<Rightarrow> bool) \<Rightarrow> 'a list \<Rightarrow> 'a list option" where
  "remove_first P [] = None"
| "remove_first P (x # xs) = (if P x then Some xs else map_option (Cons x) (remove_first P xs))"

text \<open>The struct is the attribute and how it is advertised.\<close>

definition put_attribute :: "attribute_data option \<times> i32 \<Rightarrow> session_infos \<Rightarrow> eos_result + session_infos" where
  "put_attribute from infos =
     (case read_attribute (fst from) of
        None \<Rightarrow> Inl EOS_InvalidParameters
      | Some a \<Rightarrow>
          let attribute = a\<lparr>sa_advertisement := snd from\<rparr>
          in (case replace_first (\<lambda>b. sa_key b = sa_key attribute) attribute (si_attributes infos) of
                Some replaced \<Rightarrow> Inr (infos\<lparr>si_attributes := replaced\<rparr>)
              | None \<Rightarrow>
                  if max_session_attributes \<le> length (si_attributes infos) then Inl EOS_LimitExceeded
                  else Inr (infos\<lparr>si_attributes := si_attributes infos @ [attribute]\<rparr>)))"

definition modification_add_attribute :: "u64 \<Rightarrow> (attribute_data option \<times> i32) versioned option \<Rightarrow>
    sdk_sessions \<Rightarrow> eos_result \<times> sdk_sessions" where
  "modification_add_attribute = set_modification 2 put_attribute"

definition drop_attribute :: "string option \<Rightarrow> session_infos \<Rightarrow> eos_result + session_infos" where
  "drop_attribute key infos =
     (case key of
        None \<Rightarrow> Inl EOS_InvalidParameters
      | Some k \<Rightarrow>
          (case remove_first (\<lambda>b. sa_key b = k) (si_attributes infos) of
             Some rest \<Rightarrow> Inr (infos\<lparr>si_attributes := rest\<rparr>)
           | None \<Rightarrow> Inl EOS_NotFound))"

definition modification_remove_attribute :: "u64 \<Rightarrow> string option versioned option \<Rightarrow> sdk_sessions \<Rightarrow> eos_result \<times> sdk_sessions" where
  "modification_remove_attribute = set_modification 1 drop_attribute"

definition modification_release :: "u64 \<Rightarrow> sdk_sessions \<Rightarrow> sdk_sessions" where
  "modification_release handle st = st\<lparr>sn_modifications := hs_release handle (sn_modifications st)\<rparr>"

section \<open>Searches\<close>

definition new_session_search :: session_search where
  "new_session_search = \<lparr>ss_search_id = [], ss_session_id = [], ss_target_user_id = [], ss_max_results = 0,
     ss_parameters = []\<rparr>"

definition create_session_search :: "u32 versioned option \<Rightarrow> bool \<Rightarrow> sdk_sessions \<Rightarrow> eos_result \<times> u64 \<times> sdk_sessions" where
  "create_session_search options has_out st =
     (if \<not> has_out then (EOS_InvalidParameters, 0, st)
      else
        (case options of
           None \<Rightarrow> (EOS_InvalidParameters, 0, st)
         | Some (versioned version wanted) \<Rightarrow>
             if \<not> version_ok version 1 \<or> wanted = 0 \<or> max_results_limit < wanted
             then (EOS_InvalidParameters, 0, st)
             else
               (case hs_add \<lparr>so_query = new_session_search, so_results = [], so_max_results = wanted,
                      so_searching = False, so_awaiting = [], so_deadline = 0\<rparr> (sn_handle_counter st) (sn_searches st) of
                  (h, counter, store) \<Rightarrow>
                    (EOS_Success, h, st\<lparr>sn_handle_counter := counter, sn_searches := store\<rparr>))))"

definition set_search :: "int \<Rightarrow> ('x \<Rightarrow> search_object \<Rightarrow> eos_result + search_object) \<Rightarrow> u64 \<Rightarrow>
    'x versioned option \<Rightarrow> sdk_sessions \<Rightarrow> eos_result \<times> sdk_sessions" where
  "set_search latest write handle options st =
     (case (hs_find handle (sn_searches st), options) of
        (Some object, Some (versioned version x)) \<Rightarrow>
          if \<not> version_ok version latest then (EOS_InvalidParameters, st)
          else
            (case write x object of
               Inl code \<Rightarrow> (code, st)
             | Inr object' \<Rightarrow> (EOS_Success, st\<lparr>sn_searches := om_put handle object' (sn_searches st)\<rparr>))
      | _ \<Rightarrow> (EOS_InvalidParameters, st))"

definition search_set_session_id :: "u64 \<Rightarrow> string option versioned option \<Rightarrow> sdk_sessions \<Rightarrow> eos_result \<times> sdk_sessions" where
  "search_set_session_id =
     set_search 1 (needs_text (\<lambda>session_id object. object\<lparr>so_query := (so_query object)\<lparr>ss_session_id := session_id\<rparr>\<rparr>))"

definition search_set_target_user :: "u64 \<Rightarrow> id_handle versioned option \<Rightarrow> sdk_sessions \<Rightarrow> eos_result \<times> sdk_sessions" where
  "search_set_target_user =
     set_search 1 (needs_text (\<lambda>user object. object\<lparr>so_query := (so_query object)\<lparr>ss_target_user_id := user\<rparr>\<rparr>))"

definition put_parameter :: "attribute_data option \<times> i32 \<Rightarrow> search_object \<Rightarrow> eos_result + search_object" where
  "put_parameter from object =
     (case read_attribute (fst from) of
        None \<Rightarrow> Inl EOS_InvalidParameters
      | Some a \<Rightarrow>
          let parameter = \<lparr>sp_attribute = a, sp_comparison_op = snd from\<rparr>;
              ps = ss_parameters (so_query object);
              ps' = (case replace_first (\<lambda>p. sa_key (sp_attribute p) = sa_key a \<and> sp_comparison_op p = snd from)
                         parameter ps of
                       Some replaced \<Rightarrow> replaced
                     | None \<Rightarrow> ps @ [parameter])
          in Inr (object\<lparr>so_query := (so_query object)\<lparr>ss_parameters := ps'\<rparr>\<rparr>))"

definition search_set_parameter :: "u64 \<Rightarrow> (attribute_data option \<times> i32) versioned option \<Rightarrow>
    sdk_sessions \<Rightarrow> eos_result \<times> sdk_sessions" where
  "search_set_parameter = set_search 1 put_parameter"

definition drop_parameter :: "string option \<times> i32 \<Rightarrow> search_object \<Rightarrow> eos_result + search_object" where
  "drop_parameter from object =
     (case fst from of
        None \<Rightarrow> Inl EOS_InvalidParameters
      | Some key \<Rightarrow>
          (case remove_first (\<lambda>p. sa_key (sp_attribute p) = key \<and> sp_comparison_op p = snd from)
                  (ss_parameters (so_query object)) of
             Some rest \<Rightarrow> Inr (object\<lparr>so_query := (so_query object)\<lparr>ss_parameters := rest\<rparr>\<rparr>)
           | None \<Rightarrow> Inl EOS_NotFound))"

definition search_remove_parameter :: "u64 \<Rightarrow> (string option \<times> i32) versioned option \<Rightarrow>
    sdk_sessions \<Rightarrow> eos_result \<times> sdk_sessions" where
  "search_remove_parameter = set_search 1 drop_parameter"

definition search_set_max_results :: "u64 \<Rightarrow> u32 versioned option \<Rightarrow> sdk_sessions \<Rightarrow> eos_result \<times> sdk_sessions" where
  "search_set_max_results =
     set_search 1 (\<lambda>wanted object.
       if wanted = 0 \<or> max_results_limit < wanted then Inl EOS_InvalidParameters
       else Inr (object\<lparr>so_max_results := wanted\<rparr>))"

end
