(* ===== verification/Sessions_Lifecycle.thy ===== *)
theory Sessions_Lifecycle
  imports Sessions_Modify
begin

text \<open>
  \<^verbatim>\<open>interfaces/sessions.cpp\<close>, third part: a session from its creation to its end, the players on its
  roster, and the request to join one.  \<open>now\<close> is the clock when the call is made, \<open>random\<close> what the
  platform's random source answers, and \<open>lost\<close> the peers each send turns out to have lost.
\<close>

section \<open>Creating and changing\<close>

definition session_id_digits :: string where "session_id_digits = ''0123456789abcdef''"

definition generate_session_id :: "bytes option \<Rightarrow> string" where
  "generate_session_id random =
     (case random of
        None \<Rightarrow> []
      | Some bs \<Rightarrow> concat (map (\<lambda>b. [session_id_digits ! unat (drop_bit 4 b AND 0xf), session_id_digits ! unat (b AND 0xf)]) bs))"

definition create_session :: "bytes option \<Rightarrow> modification_object \<Rightarrow> sdk_sessions \<Rightarrow> eos_result \<times> sdk_sessions" where
  "create_session random object st =
     (let infos = mo_infos object;
          new_id = (if si_session_id infos = [] then generate_session_id random else si_session_id infos)
      in if find_by_name (mo_session_name object) st \<noteq> None then (EOS_Sessions_SessionAlreadyExists, st)
         else if new_id = [] then (EOS_UnexpectedError, st)
         else
           let created = infos\<lparr>si_session_id := new_id, si_owner_id := mo_local_user object, si_state := oss_pending,
                           si_registered_players := si_registered_players infos @ [mo_local_user object]\<rparr>
           in (EOS_Success,
               put_session (mo_session_name object)
                 \<lparr>se_infos = recount created, se_local_user = mo_local_user object, se_local_state = hosting\<rparr> st))"

text \<open>The id, the state and the roster stay the session's.\<close>

definition merge_infos :: "session \<Rightarrow> session_infos \<Rightarrow> session_infos" where
  "merge_infos entry staged =
     (let infos = staged\<lparr>si_session_id := si_session_id (se_infos entry), si_state := si_state (se_infos entry)\<rparr>
      in recount (infos\<lparr>si_owner_id := (if si_owner_id infos = [] then se_local_user entry else si_owner_id infos),
           si_registered_players := si_registered_players (se_infos entry)\<rparr>))"

definition modify_session :: "lost_in_send \<Rightarrow> modification_object \<Rightarrow> sdk_sessions \<Rightarrow> eos_result \<times> sdk_sessions" where
  "modify_session lost object st =
     (case find_by_name (mo_session_name object) st of
        None \<Rightarrow> (EOS_NotFound, st)
      | Some entry \<Rightarrow>
          (EOS_Success, broadcast_session lost (mo_session_name object)
             (put_infos (mo_session_name object) entry (merge_infos entry (mo_infos object)) st)))"

definition update_session :: "lost_in_send \<Rightarrow> bytes option \<Rightarrow> msec \<Rightarrow> u64 versioned option \<Rightarrow> nat \<Rightarrow> nat option \<Rightarrow>
    sdk_sessions \<Rightarrow> sdk_sessions" where
  "update_session lost random now options client_data delegate st =
     (case delegate of
        None \<Rightarrow> st
      | Some d \<Rightarrow>
          (case options of
             None \<Rightarrow> deliver now cb_update d client_data EOS_InvalidParameters st
           | Some (versioned version handle) \<Rightarrow>
               if \<not> version_ok version 1 then deliver now cb_update d client_data EOS_InvalidParameters st
               else
                 (case hs_find handle (sn_modifications st) of
                    None \<Rightarrow> deliver now cb_update d client_data EOS_InvalidParameters st
                  | Some object \<Rightarrow>
                      (case (if mo_creating object then create_session random object st
                             else modify_session lost object st) of
                         (code, st') \<Rightarrow>
                           let settled = find_by_name (mo_session_name object) st'
                           in queue_result now cb_update
                                \<lparr>sc_result_code = result_number code, sc_client_data = client_data,
                                 sc_session_name = Some (mo_session_name object),
                                 sc_session_id = Some (case settled of None \<Rightarrow> []
                                   | Some entry \<Rightarrow> si_session_id (se_infos entry)),
                                 sc_players = []\<rparr> d True st'))))"

section \<open>Ending and starting\<close>

text \<open>
  What destroy, start and end share: a delegate to answer, a struct of a version we know with a name
  in it, and a session of that name; then \<open>act\<close> does the rest and gives the result.
\<close>

definition on_named_session :: "int \<Rightarrow> int \<Rightarrow> (string \<Rightarrow> session \<Rightarrow> sdk_sessions \<Rightarrow> eos_result \<times> sdk_sessions) \<Rightarrow>
    msec \<Rightarrow> string option versioned option \<Rightarrow> nat \<Rightarrow> nat option \<Rightarrow> sdk_sessions \<Rightarrow> sdk_sessions" where
  "on_named_session type latest act now options client_data delegate st =
     (case delegate of
        None \<Rightarrow> st
      | Some d \<Rightarrow>
          (case options of
             Some (versioned version (Some name)) \<Rightarrow>
               if \<not> version_ok version latest then deliver now type d client_data EOS_InvalidParameters st
               else
                 (case find_by_name name st of
                    None \<Rightarrow> deliver now type d client_data EOS_NotFound st
                  | Some entry \<Rightarrow>
                      (case act name entry st of (code, st') \<Rightarrow> deliver now type d client_data code st'))
           | _ \<Rightarrow> deliver now type d client_data EOS_InvalidParameters st))"

definition leave_or_destroy :: "lost_in_send \<Rightarrow> string \<Rightarrow> session \<Rightarrow> sdk_sessions \<Rightarrow> eos_result \<times> sdk_sessions" where
  "leave_or_destroy lost name entry st =
     (let session_id = si_session_id (se_infos entry);
          st' = (if se_local_state entry = hosting
                 then send_to_members lost name mt_session_destroy
                        (serialize_session_destroy \<lparr>sd_session_id = session_id\<rparr>) [] st
                 else send_to_members lost name session_unregister
                        (serialize_session_members \<lparr>sm_session_id = session_id,
                           sm_player_ids = [sn_product_user_id st]\<rparr>) [] st)
      in (EOS_Success, erase_session name st'))"

definition destroy_session :: "lost_in_send \<Rightarrow> msec \<Rightarrow> string option versioned option \<Rightarrow> nat \<Rightarrow> nat option \<Rightarrow>
    sdk_sessions \<Rightarrow> sdk_sessions" where
  "destroy_session lost = on_named_session cb_destroy 1 (leave_or_destroy lost)"

definition change_state :: "lost_in_send \<Rightarrow> i32 set \<Rightarrow> i32 \<Rightarrow> string \<Rightarrow> session \<Rightarrow> sdk_sessions \<Rightarrow> eos_result \<times> sdk_sessions" where
  "change_state lost from to name entry st =
     (if si_state (se_infos entry) \<notin> from then (EOS_InvalidParameters, st)
      else (EOS_Success, broadcast_session lost name (put_infos name entry ((se_infos entry)\<lparr>si_state := to\<rparr>) st)))"

definition start_session :: "lost_in_send \<Rightarrow> msec \<Rightarrow> string option versioned option \<Rightarrow> nat \<Rightarrow> nat option \<Rightarrow>
    sdk_sessions \<Rightarrow> sdk_sessions" where
  "start_session lost = on_named_session cb_start 1 (change_state lost {oss_pending, oss_ended} oss_in_progress)"

definition end_session :: "lost_in_send \<Rightarrow> msec \<Rightarrow> string option versioned option \<Rightarrow> nat \<Rightarrow> nat option \<Rightarrow>
    sdk_sessions \<Rightarrow> sdk_sessions" where
  "end_session lost = on_named_session cb_end 1 (change_state lost {oss_in_progress} oss_ended)"

section \<open>The roster\<close>

text \<open>Each player in turn; a null handle and one already in, or already out, is skipped.\<close>

fun register_each :: "id_handle list \<Rightarrow> string list \<Rightarrow> string list \<times> string list" where
  "register_each [] roster = (roster, [])"
| "register_each (None # players) roster = register_each players roster"
| "register_each (Some player # players) roster =
     (if contains roster player then register_each players roster
      else case register_each players (roster @ [player]) of (roster', changed) \<Rightarrow> (roster', player # changed))"

fun unregister_each :: "id_handle list \<Rightarrow> string list \<Rightarrow> string list \<times> string list" where
  "unregister_each [] roster = (roster, [])"
| "unregister_each (None # players) roster = unregister_each players roster"
| "unregister_each (Some player # players) roster =
     (if \<not> contains roster player then unregister_each players roster
      else case unregister_each players (remove_from roster player) of (roster', changed) \<Rightarrow> (roster', player # changed))"

record roster_options =
  ro_session_name :: "string option"
  ro_players :: "id_handle list option"
  ro_players_count :: u32

text \<open>
  Registering and unregistering, which differ in the walk, the message and the callback.  The array
  has at least as many entries as its count says.
\<close>

definition change_roster :: "(id_handle list \<Rightarrow> string list \<Rightarrow> string list \<times> string list) \<Rightarrow> message_type \<Rightarrow> int \<Rightarrow> int \<Rightarrow>
    lost_in_send \<Rightarrow> msec \<Rightarrow> roster_options versioned option \<Rightarrow> nat \<Rightarrow> nat option \<Rightarrow> sdk_sessions \<Rightarrow> sdk_sessions" where
  "change_roster walk notice type latest lost now options client_data delegate st =
     (case delegate of
        None \<Rightarrow> st
      | Some d \<Rightarrow>
          (case options of
             None \<Rightarrow> deliver now type d client_data EOS_InvalidParameters st
           | Some (versioned version o') \<Rightarrow>
               (case ro_session_name o' of
                  None \<Rightarrow> deliver now type d client_data EOS_InvalidParameters st
                | Some name \<Rightarrow>
                    if \<not> version_ok version latest \<or> (0 < ro_players_count o' \<and> ro_players o' = None)
                    then deliver now type d client_data EOS_InvalidParameters st
                    else
                      (case find_by_name name st of
                         None \<Rightarrow> deliver now type d client_data EOS_NotFound st
                       | Some entry \<Rightarrow>
                           if \<not> contains (si_registered_players (se_infos entry)) (sn_product_user_id st)
                           then deliver now type d client_data EOS_Sessions_NotAllowed st
                           else
                             (case walk (take (unat (ro_players_count o'))
                                      (case ro_players o' of None \<Rightarrow> [] | Some ps \<Rightarrow> ps))
                                    (si_registered_players (se_infos entry)) of
                                (roster, changed) \<Rightarrow>
                                  let infos = recount ((se_infos entry)\<lparr>si_registered_players := roster\<rparr>);
                                      st1 = put_infos name entry infos st;
                                      st2 = (if changed = [] then st1
                                             else send_to_members lost name notice (serialize_session_members
                                               \<lparr>sm_session_id = si_session_id infos, sm_player_ids = changed\<rparr>) [] st1)
                                  in queue_result now type
                                       \<lparr>sc_result_code = result_number (if changed = [] then EOS_NoChange else EOS_Success),
                                        sc_client_data = client_data, sc_session_name = None, sc_session_id = None,
                                        sc_players = changed\<rparr> d True st2)))))"

definition register_players :: "lost_in_send \<Rightarrow> msec \<Rightarrow> roster_options versioned option \<Rightarrow> nat \<Rightarrow> nat option \<Rightarrow>
    sdk_sessions \<Rightarrow> sdk_sessions" where
  "register_players = change_roster register_each session_register cb_register_players 3"

definition unregister_players :: "lost_in_send \<Rightarrow> msec \<Rightarrow> roster_options versioned option \<Rightarrow> nat \<Rightarrow> nat option \<Rightarrow>
    sdk_sessions \<Rightarrow> sdk_sessions" where
  "unregister_players = change_roster unregister_each session_unregister cb_unregister_players 2"

section \<open>Joining\<close>

record join_options =
  jo_session_name :: "string option"
  jo_session_handle :: u64
  jo_local_user_id :: id_handle

text \<open>We record the session as one we are joining, ask its owner and leave the result open.\<close>

definition ask_to_join :: "lost_in_send \<Rightarrow> msec \<Rightarrow> string \<Rightarrow> string \<Rightarrow> session_infos \<Rightarrow> nat \<Rightarrow> nat \<Rightarrow> sdk_sessions \<Rightarrow> sdk_sessions" where
  "ask_to_join lost now name user infos client_data d st =
     (let st1 = put_session name \<lparr>se_infos = infos, se_local_user = user, se_local_state = joining\<rparr> st;
          st2 = send_to lost (si_owner_id infos) mt_session_join_request
                  (serialize_session_join_request \<lparr>sjq_session_id = si_session_id infos\<rparr>) st1;
          raw = sn_next_result st2;
          st3 = queue_result now cb_join (empty_session_callback\<lparr>sc_result_code := result_number EOS_TimedOut,
                  sc_client_data := client_data\<rparr>) d False st2
      in st3\<lparr>sn_pending_joins := om_put raw
           \<lparr>pj_session_id = si_session_id infos, pj_deadline = now + join_timeout\<rparr> (sn_pending_joins st3)\<rparr>)"

definition joinable :: "session_infos \<Rightarrow> bool" where
  "joinable infos \<longleftrightarrow>
     si_state infos = oss_pending \<or> (si_state infos = oss_in_progress \<and> si_allow_join_in_progress infos)"

definition join_session :: "lost_in_send \<Rightarrow> msec \<Rightarrow> join_options versioned option \<Rightarrow> nat \<Rightarrow> nat option \<Rightarrow>
    sdk_sessions \<Rightarrow> sdk_sessions" where
  "join_session lost now options client_data delegate st =
     (case delegate of
        None \<Rightarrow> st
      | Some d \<Rightarrow>
          (case options of
             None \<Rightarrow> deliver now cb_join d client_data EOS_InvalidParameters st
           | Some (versioned version o') \<Rightarrow>
               (case (jo_session_name o', hs_find (jo_session_handle o') (sn_details st), jo_local_user_id o') of
                  (Some name, Some found, Some user) \<Rightarrow>
                    if \<not> version_ok version 2 \<or> name = []
                    then deliver now cb_join d client_data EOS_InvalidParameters st
                    else if find_by_name name st \<noteq> None
                    then deliver now cb_join d client_data EOS_Sessions_SessionAlreadyExists st
                    else if \<not> joinable (do_infos found)
                    then deliver now cb_join d client_data EOS_Sessions_NotAllowed st
                    else ask_to_join lost now name user (do_infos found) client_data d st
                | _ \<Rightarrow> deliver now cb_join d client_data EOS_InvalidParameters st)))"

end
