(* ===== verification/Sessions_Search.thy ===== *)
theory Sessions_Search
  imports Sessions_Lifecycle
begin

text \<open>
  \<^verbatim>\<open>interfaces/sessions.cpp\<close>, fourth part: asking the mesh for sessions, the copies of what was found,
  and the live view of a session one is in.
\<close>

section \<open>Searching\<close>

fun decimal :: "nat \<Rightarrow> string" where
  "decimal n = (if n < 10 then [char_of (48 + n)] else decimal (n div 10) @ [char_of (48 + n mod 10)])"

declare decimal.simps [simp del]

text \<open>The peers in increasing order without duplicates: the set the code inserts each asked peer into.\<close>

definition set_insert :: "string \<Rightarrow> string list \<Rightarrow> string list" where
  "set_insert = List.insort_insert"

definition local_results :: "nat \<Rightarrow> session_search \<Rightarrow> sdk_sessions \<Rightarrow> session_infos list" where
  "local_results limit query st =
     take limit (map (\<lambda>e. se_infos (snd e))
       (filter (\<lambda>e. se_local_state (snd e) = hosting \<and> session_matches (se_infos (snd e)) query) (sn_sessions st)))"

text \<open>Who is asked: every peer, or only the player a search is aimed at.\<close>

definition asked_peers :: "session_search \<Rightarrow> string list \<Rightarrow> string list" where
  "asked_peers query peers =
     filter (\<lambda>p. \<not> (ss_target_user_id query \<noteq> [] \<and> p \<noteq> ss_target_user_id query)) peers"

fun ask_peers :: "lost_in_send \<Rightarrow> bytes \<Rightarrow> string list \<Rightarrow> string list \<Rightarrow> sdk_sessions \<Rightarrow> string list \<times> sdk_sessions" where
  "ask_peers lost payload [] awaiting st = (awaiting, st)"
| "ask_peers lost payload (p # peers) awaiting st =
     ask_peers lost payload peers (set_insert p awaiting) (send_to lost p mt_session_search payload st)"

definition begin_find :: "lost_in_send \<Rightarrow> string list \<Rightarrow> msec \<Rightarrow> u64 \<Rightarrow> search_object \<Rightarrow> nat \<Rightarrow> nat \<Rightarrow>
    sdk_sessions \<Rightarrow> sdk_sessions" where
  "begin_find lost peers now handle object client_data d st =
     (let query = (so_query object)\<lparr>ss_search_id := decimal (unat (sn_next_search_id st)),
                    ss_max_results := so_max_results object\<rparr>;
          st1 = st\<lparr>sn_next_search_id := sn_next_search_id st + 1\<rparr>;
          results = local_results (unat (so_max_results object)) query st1
      in (case ask_peers lost (serialize_session_search query) (asked_peers query peers) [] st1 of
            (awaiting, st2) \<Rightarrow>
              let object' = object\<lparr>so_query := query, so_results := results, so_searching := True,
                              so_awaiting := awaiting, so_deadline := now + search_timeout\<rparr>;
                  st3 = st2\<lparr>sn_searches := om_put handle object' (sn_searches st2)\<rparr>;
                  raw = sn_next_result st3;
                  st4 = queue_result now cb_find (empty_session_callback\<lparr>sc_result_code := result_number EOS_Success,
                          sc_client_data := client_data\<rparr>) d False st3
              in st4\<lparr>sn_pending_finds := om_put raw handle (sn_pending_finds st4)\<rparr>))"

text \<open>A search has to ask for something, and not for a session and a player at once.\<close>

definition asks_something :: "session_search \<Rightarrow> bool" where
  "asks_something query \<longleftrightarrow>
     \<not> ((ss_session_id query = [] \<and> ss_target_user_id query = [] \<and> ss_parameters query = []) \<or>
        (ss_session_id query \<noteq> [] \<and> ss_target_user_id query \<noteq> []))"

definition search_find :: "lost_in_send \<Rightarrow> string list \<Rightarrow> msec \<Rightarrow> u64 \<Rightarrow> id_handle versioned option \<Rightarrow> nat \<Rightarrow> nat option \<Rightarrow>
    sdk_sessions \<Rightarrow> sdk_sessions" where
  "search_find lost peers now handle options client_data delegate st =
     (case delegate of
        None \<Rightarrow> st
      | Some d \<Rightarrow>
          (case (hs_find handle (sn_searches st), options) of
             (Some object, Some (versioned version local_user)) \<Rightarrow>
               if \<not> version_ok version 2 \<or> (sessionsearch_find_with_local_user \<le> version \<and> local_user = None)
               then deliver now cb_find d client_data EOS_InvalidParameters st
               else if \<not> asks_something (so_query object)
               then deliver now cb_find d client_data EOS_InvalidParameters st
               else if so_searching object
               then deliver now cb_find d client_data EOS_AlreadyPending st
               else begin_find lost peers now handle object client_data d st
           | _ \<Rightarrow> deliver now cb_find d client_data EOS_InvalidParameters st))"

definition search_result_count :: "u64 \<Rightarrow> sdk_sessions \<Rightarrow> u32" where
  "search_result_count handle st =
     (case hs_find handle (sn_searches st) of
        None \<Rightarrow> 0
      | Some object \<Rightarrow> if so_searching object then 0 else word_of_nat (length (so_results object)))"

definition search_copy_result :: "u64 \<Rightarrow> u32 versioned option \<Rightarrow> bool \<Rightarrow> sdk_sessions \<Rightarrow> eos_result \<times> u64 \<times> sdk_sessions" where
  "search_copy_result handle options has_out st =
     (if \<not> has_out then (EOS_InvalidParameters, 0, st)
      else
        (case (hs_find handle (sn_searches st), options) of
           (Some object, Some (versioned version index)) \<Rightarrow>
             if \<not> version_ok version 1 then (EOS_InvalidParameters, 0, st)
             else if so_searching object \<or> length (so_results object) \<le> unat index then (EOS_InvalidParameters, 0, st)
             else
               (case hs_add \<lparr>do_infos = so_results object ! unat index\<rparr> (sn_handle_counter st) (sn_details st) of
                  (h, counter, store) \<Rightarrow> (EOS_Success, h, st\<lparr>sn_handle_counter := counter, sn_details := store\<rparr>))
         | _ \<Rightarrow> (EOS_InvalidParameters, 0, st)))"

definition search_release :: "u64 \<Rightarrow> sdk_sessions \<Rightarrow> sdk_sessions" where
  "search_release handle st =
     st\<lparr>sn_pending_finds := filter (\<lambda>e. snd e \<noteq> handle) (sn_pending_finds st),
        sn_searches := hs_release handle (sn_searches st)\<rparr>"

section \<open>Details\<close>

text \<open>A pointer handed out is a number; 0 is null.\<close>

definition details_copy_info :: "u64 \<Rightarrow> bool \<Rightarrow> sdk_sessions \<Rightarrow> eos_result \<times> nat \<times> sdk_sessions" where
  "details_copy_info handle has_out st =
     (if \<not> has_out then (EOS_InvalidParameters, 0, st)
      else
        (case hs_find handle (sn_details st) of
           None \<Rightarrow> (EOS_InvalidParameters, 0, st)
         | Some object \<Rightarrow>
             let pointer = sn_next_pointer st
             in (EOS_Success, pointer,
                 st\<lparr>sn_details_infos := om_put pointer (fill_details_info (do_infos object)) (sn_details_infos st),
                    sn_next_pointer := Suc pointer\<rparr>)))"

definition details_attribute_count :: "u64 \<Rightarrow> sdk_sessions \<Rightarrow> u32" where
  "details_attribute_count handle st =
     (case hs_find handle (sn_details st) of
        None \<Rightarrow> 0
      | Some object \<Rightarrow> word_of_nat (length (si_attributes (do_infos object))))"

definition emit_attribute :: "session_attribute \<Rightarrow> sdk_sessions \<Rightarrow> eos_result \<times> nat \<times> sdk_sessions" where
  "emit_attribute from st =
     (let pointer = sn_next_pointer st
      in (EOS_Success, pointer,
          st\<lparr>sn_attributes := om_put pointer \<lparr>da_data = write_attribute from, da_advertisement = sa_advertisement from\<rparr>
               (sn_attributes st), sn_next_pointer := Suc pointer\<rparr>))"

definition details_copy_attribute_by_index :: "u64 \<Rightarrow> u32 versioned option \<Rightarrow> bool \<Rightarrow> sdk_sessions \<Rightarrow>
    eos_result \<times> nat \<times> sdk_sessions" where
  "details_copy_attribute_by_index handle options has_out st =
     (if \<not> has_out then (EOS_InvalidParameters, 0, st)
      else
        (case (hs_find handle (sn_details st), options) of
           (Some object, Some (versioned version index)) \<Rightarrow>
             if \<not> version_ok version 1 then (EOS_InvalidParameters, 0, st)
             else if length (si_attributes (do_infos object)) \<le> unat index then (EOS_NotFound, 0, st)
             else emit_attribute (si_attributes (do_infos object) ! unat index) st
         | _ \<Rightarrow> (EOS_InvalidParameters, 0, st)))"

definition details_copy_attribute_by_key :: "u64 \<Rightarrow> string option versioned option \<Rightarrow> bool \<Rightarrow> sdk_sessions \<Rightarrow>
    eos_result \<times> nat \<times> sdk_sessions" where
  "details_copy_attribute_by_key handle options has_out st =
     (if \<not> has_out then (EOS_InvalidParameters, 0, st)
      else
        (case (hs_find handle (sn_details st), options) of
           (Some object, Some (versioned version (Some key))) \<Rightarrow>
             if \<not> version_ok version 1 then (EOS_InvalidParameters, 0, st)
             else
               (case List.find (\<lambda>a. sa_key a = key) (si_attributes (do_infos object)) of
                  None \<Rightarrow> (EOS_NotFound, 0, st)
                | Some a \<Rightarrow> emit_attribute a st)
         | _ \<Rightarrow> (EOS_InvalidParameters, 0, st)))"

definition details_release :: "u64 \<Rightarrow> sdk_sessions \<Rightarrow> sdk_sessions" where
  "details_release handle st = st\<lparr>sn_details := hs_release handle (sn_details st)\<rparr>"

section \<open>The live view\<close>

definition copy_active_session_handle :: "string option versioned option \<Rightarrow> bool \<Rightarrow> sdk_sessions \<Rightarrow>
    eos_result \<times> u64 \<times> sdk_sessions" where
  "copy_active_session_handle options has_out st =
     (if \<not> has_out then (EOS_InvalidParameters, 0, st)
      else
        (case options of
           Some (versioned version (Some name)) \<Rightarrow>
             if \<not> version_ok version 1 then (EOS_InvalidParameters, 0, st)
             else if find_by_name name st = None then (EOS_NotFound, 0, st)
             else
               (case hs_add \<lparr>ao_session_name = name\<rparr> (sn_handle_counter st) (sn_actives st) of
                  (h, counter, store) \<Rightarrow> (EOS_Success, h, st\<lparr>sn_handle_counter := counter, sn_actives := store\<rparr>))
         | _ \<Rightarrow> (EOS_InvalidParameters, 0, st)))"

definition active_entry :: "u64 \<Rightarrow> sdk_sessions \<Rightarrow> (string \<times> session) option" where
  "active_entry handle st =
     (case hs_find handle (sn_actives st) of
        None \<Rightarrow> None
      | Some object \<Rightarrow> map_option (Pair (ao_session_name object)) (find_by_name (ao_session_name object) st))"

definition active_copy_info :: "u64 \<Rightarrow> bool \<Rightarrow> sdk_sessions \<Rightarrow> eos_result \<times> nat \<times> sdk_sessions" where
  "active_copy_info handle has_out st =
     (if \<not> has_out then (EOS_InvalidParameters, 0, st)
      else
        (case active_entry handle st of
           None \<Rightarrow> (EOS_InvalidParameters, 0, st)
         | Some (name, entry) \<Rightarrow>
             let pointer = sn_next_pointer st
             in (EOS_Success, pointer,
                 st\<lparr>sn_active_infos := om_put pointer
                      \<lparr>ai_session_name = name, ai_local_user_id = handle_of_id (se_local_user entry),
                       ai_state = si_state (se_infos entry), ai_details = fill_details_info (se_infos entry)\<rparr>
                      (sn_active_infos st), sn_next_pointer := Suc pointer\<rparr>)))"

definition active_registered_count :: "u64 \<Rightarrow> sdk_sessions \<Rightarrow> u32" where
  "active_registered_count handle st =
     (case active_entry handle st of
        None \<Rightarrow> 0
      | Some (_, entry) \<Rightarrow> word_of_nat (length (si_registered_players (se_infos entry))))"

text \<open>The index comes in a struct whose version is not checked.\<close>

definition active_registered_by_index :: "u64 \<Rightarrow> u32 option \<Rightarrow> sdk_sessions \<Rightarrow> id_handle" where
  "active_registered_by_index handle options st =
     (case (active_entry handle st, options) of
        (Some (_, entry), Some index) \<Rightarrow>
          if length (si_registered_players (se_infos entry)) \<le> unat index then None
          else Some (si_registered_players (se_infos entry) ! unat index)
      | _ \<Rightarrow> None)"

definition active_release :: "u64 \<Rightarrow> sdk_sessions \<Rightarrow> sdk_sessions" where
  "active_release handle st = st\<lparr>sn_actives := hs_release handle (sn_actives st)\<rparr>"

definition is_user_in_session :: "(string option \<times> id_handle) versioned option \<Rightarrow> sdk_sessions \<Rightarrow> eos_result" where
  "is_user_in_session options st =
     (case options of
        Some (versioned version (Some name, Some user)) \<Rightarrow>
          if \<not> version_ok version 1 then EOS_InvalidParameters
          else
            (case find_by_name name st of
               None \<Rightarrow> EOS_NotFound
             | Some entry \<Rightarrow>
                 if contains (si_registered_players (se_infos entry)) user then EOS_Success else EOS_NotFound)
      | _ \<Rightarrow> EOS_InvalidParameters)"

definition dump_session_state :: "string option versioned option \<Rightarrow> sdk_sessions \<Rightarrow> eos_result" where
  "dump_session_state options st =
     (case options of
        Some (versioned version (Some name)) \<Rightarrow>
          if \<not> version_ok version 1 then EOS_InvalidParameters
          else if find_by_name name st = None then EOS_NotFound else EOS_Success
      | _ \<Rightarrow> EOS_InvalidParameters)"

text \<open>The structs a game gives back; a pointer never issued is ignored.\<close>

definition release_session_details_info :: "nat \<Rightarrow> sdk_sessions \<Rightarrow> sdk_sessions" where
  "release_session_details_info info st = st\<lparr>sn_details_infos := om_erase info (sn_details_infos st)\<rparr>"

definition release_active_session_info :: "nat \<Rightarrow> sdk_sessions \<Rightarrow> sdk_sessions" where
  "release_active_session_info info st = st\<lparr>sn_active_infos := om_erase info (sn_active_infos st)\<rparr>"

definition release_session_details_attribute :: "nat \<Rightarrow> sdk_sessions \<Rightarrow> sdk_sessions" where
  "release_session_details_attribute attribute st = st\<lparr>sn_attributes := om_erase attribute (sn_attributes st)\<rparr>"

end
