(* ===== verification/Sessions_Network.thy ===== *)
theory Sessions_Network
  imports Sessions_Search
begin

text \<open>
  \<^verbatim>\<open>interfaces/sessions.cpp\<close>, last part: what a tick makes of the results that wait, and what the
  interface makes of each message from the mesh.  Who is a known peer is asked of \<^theory_text>\<open>Connect\<close>.
\<close>

section \<open>Results that wait\<close>

definition finish_search :: "u64 \<Rightarrow> search_object \<Rightarrow> sdk_sessions \<Rightarrow> sdk_sessions" where
  "finish_search handle object st =
     st\<lparr>sn_searches := om_put handle (object\<lparr>so_searching := False\<rparr>) (sn_searches st)\<rparr>"

definition abandon_join :: "string \<Rightarrow> sdk_sessions \<Rightarrow> sdk_sessions" where
  "abandon_join session_id st =
     (case find_by_id session_id st of
        None \<Rightarrow> st
      | Some (name, entry) \<Rightarrow> if se_local_state entry = joining then erase_session name st else st)"

definition sessions_run_callbacks :: "msec \<Rightarrow> nat \<Rightarrow> sdk_sessions \<Rightarrow> bool \<times> sdk_sessions" where
  "sessions_run_callbacks now res st =
     (case om_find res (sn_pending_finds st) of
        Some handle \<Rightarrow>
          (case hs_find handle (sn_searches st) of
             None \<Rightarrow> (True, st)
           | Some object \<Rightarrow>
               if so_awaiting object = [] \<or> so_deadline object < now
               then (True, finish_search handle object st) else (False, st))
      | None \<Rightarrow>
          (case om_find res (sn_pending_joins st) of
             Some waiting \<Rightarrow>
               if pj_deadline waiting < now then (True, abandon_join (pj_session_id waiting) st) else (False, st)
           | None \<Rightarrow> (False, st)))"

text \<open>The strings and the array a fired result carries go with it.\<close>

definition sessions_free_callback :: "nat \<Rightarrow> sdk_sessions \<Rightarrow> sdk_sessions" where
  "sessions_free_callback res st =
     st\<lparr>sn_pending_finds := om_erase res (sn_pending_finds st),
        sn_pending_joins := om_erase res (sn_pending_joins st)\<rparr>"

text \<open>
  The interface's share of a tick.  Its queue is walked once, front to back; what is ready moves to
  \<open>sn_ready\<close>, and is fired and freed one by one.  A delegate that calls back does so between two firings.
\<close>

fun drain_results :: "msec \<Rightarrow> (nat \<times> session_callback frame_result) list \<Rightarrow> sdk_sessions \<Rightarrow>
    (nat \<times> session_callback frame_result) list \<times> (nat \<times> session_callback frame_result) list \<times> sdk_sessions" where
  "drain_results now [] st = ([], [], st)"
| "drain_results now ((res, r) # queue) st =
     (let (goes, st') =
        (if callback_ok_timeout now r
         then (if fr_done r then (True, st) else sessions_run_callbacks now res st)
         else (False, st))
      in case drain_results now queue st' of
           (ready, keep, st'') \<Rightarrow>
             if goes then ((res, r) # ready, keep, st'') else (ready, (res, r) # keep, st''))"

definition sessions_collect :: "msec \<Rightarrow> sdk_sessions \<Rightarrow> sdk_sessions" where
  "sessions_collect now st =
     (case drain_results now (sn_results st) st of
        (ready, keep, st') \<Rightarrow> st'\<lparr>sn_results := keep, sn_ready := sn_ready st' @ ready\<rparr>)"

definition sessions_fire :: "sdk_sessions \<Rightarrow> session_callback frame_result option \<times> sdk_sessions" where
  "sessions_fire st =
     (case sn_ready st of
        [] \<Rightarrow> (None, st)
      | (res, r) # ready \<Rightarrow> (Some r, sessions_free_callback res (st\<lparr>sn_ready := ready\<rparr>)))"

definition sessions_cb_run_frame :: "sdk_sessions \<Rightarrow> bool \<times> sdk_sessions" where
  "sessions_cb_run_frame st = (False, st)"

section \<open>Searches and answers\<close>

definition on_session_search :: "lost_in_send \<Rightarrow> net_envelope \<Rightarrow> session_search \<Rightarrow> sdk_sessions \<Rightarrow> sdk_sessions" where
  "on_session_search lost message query st =
     (let found = (if env_game_id message = sn_product_id st
                   then map (\<lambda>e. se_infos (snd e)) (filter (\<lambda>e. se_local_state (snd e) = hosting \<and>
                          session_matches (se_infos (snd e)) query) (sn_sessions st))
                   else [])
      in send_to lost (env_source_id message) mt_session_search_response
           (serialize_session_search_response \<lparr>ssr_search_id = ss_search_id query, ssr_sessions = found\<rparr>) st)"

text \<open>What an answer adds to the results: the sessions that do match, as far as there is room.\<close>

fun take_results :: "nat \<Rightarrow> session_search \<Rightarrow> session_infos list \<Rightarrow> session_infos list \<Rightarrow> session_infos list" where
  "take_results limit query [] results = results"
| "take_results limit query (infos # answer) results =
     (if limit \<le> length results then results
      else take_results limit query answer
        (if session_matches infos query then results @ [infos] else results))"

definition answer_search :: "string \<Rightarrow> session_search_response \<Rightarrow> u64 \<Rightarrow> sdk_sessions \<Rightarrow> sdk_sessions" where
  "answer_search source answer handle st =
     (case hs_find handle (sn_searches st) of
        None \<Rightarrow> st
      | Some object \<Rightarrow>
          if \<not> so_searching object \<or> ss_search_id (so_query object) \<noteq> ssr_search_id answer then st
          else if source \<notin> set (so_awaiting object) then st
          else st\<lparr>sn_searches := om_put handle
                 (object\<lparr>so_awaiting := removeAll source (so_awaiting object),
                    so_results := take_results (unat (so_max_results object)) (so_query object)
                      (ssr_sessions answer) (so_results object)\<rparr>) (sn_searches st)\<rparr>)"

definition on_session_search_response :: "net_envelope \<Rightarrow> session_search_response \<Rightarrow> sdk_sessions \<Rightarrow> sdk_sessions" where
  "on_session_search_response message answer st =
     foldl (\<lambda>s handle. answer_search (env_source_id message) answer handle s) st (map snd (sn_pending_finds st))"

section \<open>Joins\<close>

text \<open>The verdict, and the session with the player seated when it is in.\<close>

definition judge_join :: "sdk_connect \<Rightarrow> string \<Rightarrow> (string \<times> session) option \<Rightarrow> sdk_sessions \<Rightarrow> eos_result \<times> sdk_sessions" where
  "judge_join connect source found st =
     (case found of
        None \<Rightarrow> (EOS_NotFound, st)
      | Some (name, entry) \<Rightarrow>
          let infos = se_infos entry
          in if se_local_state entry \<noteq> hosting then (EOS_NotFound, st)
             else if \<not> is_known_peer source connect then (EOS_Sessions_NotAllowed, st)
             else if contains (si_registered_players infos) source then (EOS_Success, st)
             else if unat (si_max_players infos) \<le> length (si_registered_players infos)
             then (EOS_Sessions_TooManyPlayers, st)
             else (EOS_Success, put_infos name entry
               (recount (infos\<lparr>si_registered_players := si_registered_players infos @ [source]\<rparr>)) st))"

definition on_session_join_request :: "lost_in_send \<Rightarrow> sdk_connect \<Rightarrow> string \<Rightarrow> session_join_request \<Rightarrow>
    sdk_sessions \<Rightarrow> sdk_sessions" where
  "on_session_join_request lost connect source request st =
     (let found = find_by_id (sjq_session_id request) st
      in case judge_join connect source found st of
           (verdict, st1) \<Rightarrow>
             let payload = serialize_session_join_response
                   \<lparr>sjr_session_id = sjq_session_id request, sjr_player_id = source, sjr_reason = result_number verdict\<rparr>;
                 st2 = send_to lost source mt_session_join_response payload st1
             in (case found of
                   None \<Rightarrow> st2
                 | Some (name, _) \<Rightarrow>
                     if verdict = EOS_Success
                     then broadcast_session lost name (send_to_members lost name mt_session_join_response payload source st2)
                     else st2))"

text \<open>The first join that waits for this session, in the order of their results.\<close>

definition waiting_join :: "string \<Rightarrow> sdk_sessions \<Rightarrow> nat option" where
  "waiting_join session_id st =
     map_option fst (List.find (\<lambda>e. pj_session_id (snd e) = session_id) (sn_pending_joins st))"

definition settle_result :: "nat \<Rightarrow> i32 \<Rightarrow> sdk_sessions \<Rightarrow> sdk_sessions" where
  "settle_result res code st =
     (let settle = map (\<lambda>(i, r). (i, if i = res
            then r\<lparr>fr_payload := (fr_payload r)\<lparr>sc_result_code := code\<rparr>, fr_done := True\<rparr> else r))
      in st\<lparr>sn_results := settle (sn_results st), sn_ready := settle (sn_ready st)\<rparr>)"

definition seat_player :: "string \<Rightarrow> session_infos \<Rightarrow> session_infos" where
  "seat_player player infos =
     recount (if contains (si_registered_players infos) player then infos
              else infos\<lparr>si_registered_players := si_registered_players infos @ [player]\<rparr>)"

definition on_session_join_response :: "string \<Rightarrow> session_join_response \<Rightarrow> sdk_sessions \<Rightarrow> sdk_sessions" where
  "on_session_join_response source answer st =
     (case find_by_id (sjr_session_id answer) st of
        None \<Rightarrow> st
      | Some (name, entry) \<Rightarrow>
          let infos = se_infos entry; code = sjr_reason answer; me = sn_product_user_id st
          in if source \<noteq> si_owner_id infos then st
             else if sjr_player_id answer \<noteq> me
             then (if code = result_number EOS_Success \<and> \<not> contains (si_registered_players infos) (sjr_player_id answer)
                   then put_infos name entry (seat_player (sjr_player_id answer) infos) st else st)
             else
               (case waiting_join (sjr_session_id answer) st of
                  None \<Rightarrow> st
                | Some res \<Rightarrow>
                    let st1 = settle_result res code st
                    in if code = result_number EOS_Success
                       then put_session name (entry\<lparr>se_infos := seat_player me infos, se_local_state := joined\<rparr>) st1
                       else if se_local_state entry = joining then erase_session name st1
                       else st1))"

section \<open>News of a session\<close>

definition on_session_infos :: "string \<Rightarrow> session_infos \<Rightarrow> sdk_sessions \<Rightarrow> sdk_sessions" where
  "on_session_infos source infos st =
     (case find_by_id (si_session_id infos) st of
        None \<Rightarrow> st
      | Some (name, entry) \<Rightarrow>
          if se_local_state entry \<noteq> hosting \<and> si_owner_id (se_infos entry) = source
          then put_infos name entry infos st else st)"

definition on_session_destroy :: "string \<Rightarrow> session_destroy \<Rightarrow> sdk_sessions \<Rightarrow> sdk_sessions" where
  "on_session_destroy source notice st =
     (case List.find (\<lambda>e. si_session_id (se_infos (snd e)) = sd_session_id notice \<and>
              se_local_state (snd e) \<noteq> hosting \<and> si_owner_id (se_infos (snd e)) = source) (sn_sessions st) of
        None \<Rightarrow> st
      | Some (name, _) \<Rightarrow> erase_session name st)"

fun apply_notice :: "bool \<Rightarrow> string list \<Rightarrow> session_infos \<Rightarrow> session_infos" where
  "apply_notice adding [] infos = infos"
| "apply_notice adding (player # players) infos =
     apply_notice adding players
       (if adding
        then (if \<not> contains (si_registered_players infos) player \<and>
                 length (si_registered_players infos) < unat (si_max_players infos)
              then infos\<lparr>si_registered_players := si_registered_players infos @ [player]\<rparr> else infos)
        else if player \<noteq> si_owner_id infos
        then infos\<lparr>si_registered_players := remove_from (si_registered_players infos) player\<rparr>
        else infos)"

definition on_session_members :: "bool \<Rightarrow> string \<Rightarrow> session_members \<Rightarrow> sdk_sessions \<Rightarrow> sdk_sessions" where
  "on_session_members adding source notice st =
     (case find_by_id (sm_session_id notice) st of
        None \<Rightarrow> st
      | Some (name, entry) \<Rightarrow>
          if source \<noteq> si_owner_id (se_infos entry) \<and>
             (adding \<or> \<not> list_all (\<lambda>p. p = source) (sm_player_ids notice))
          then st
          else put_infos name entry (recount (apply_notice adding (sm_player_ids notice) (se_infos entry))) st)"

section \<open>Dispatch\<close>

text \<open>A message that cannot be read is dropped.\<close>

definition when_read :: "'m getter \<Rightarrow> net_envelope \<Rightarrow> ('m \<Rightarrow> sdk_sessions \<Rightarrow> sdk_sessions) \<Rightarrow> sdk_sessions \<Rightarrow> bool \<times> sdk_sessions" where
  "when_read get message act st =
     (case fst (get (reader_of (env_payload message))) of None \<Rightarrow> (True, st) | Some m \<Rightarrow> (True, act m st))"

definition sessions_on_network_message :: "lost_in_send \<Rightarrow> sdk_connect \<Rightarrow> net_envelope \<Rightarrow> sdk_sessions \<Rightarrow> bool \<times> sdk_sessions" where
  "sessions_on_network_message lost connect message st =
     (let source = env_source_id message; tag = env_type_tag message
      in if source = [] \<or> source = sn_product_user_id st then (True, st)
         else if tag = tag_of peer_disconnected then (True, sessions_peer_lost source st)
         else if tag = tag_of mt_session_search
         then when_read deserialize_session_search message (on_session_search lost message) st
         else if tag = tag_of mt_session_search_response
         then (if env_game_id message \<noteq> sn_product_id st then (True, st)
               else when_read deserialize_session_search_response message (on_session_search_response message) st)
         else if tag = tag_of mt_session_join_request
         then when_read deserialize_session_join_request message (on_session_join_request lost connect source) st
         else if tag = tag_of mt_session_join_response
         then when_read deserialize_session_join_response message (on_session_join_response source) st
         else if tag = tag_of mt_session_infos
         then when_read deserialize_session_infos message (on_session_infos source) st
         else if tag = tag_of mt_session_destroy
         then when_read deserialize_session_destroy message (on_session_destroy source) st
         else if tag = tag_of session_register \<or> tag = tag_of session_unregister
         then when_read deserialize_session_members message
                (on_session_members (tag = tag_of session_register) source) st
         else (False, st))"

end
