(* ===== verification/Sessions_Runs.thy ===== *)
theory Sessions_Runs
  imports Sessions_Network
begin

text \<open>
  The operations of \<^verbatim>\<open>sdk_sessions\<close> as a game, a tick and the mesh call them, what a send can do to the
  state, and what holds of every session we host in every run.
\<close>

section \<open>What a send may change\<close>

text \<open>
  A send adds to the calls, and the players it turns out to have lost give their seats back; nothing
  else changes.  \<open>L\<close> says who may be lost.
\<close>

definition mesh_effect :: "(string \<Rightarrow> bool) \<Rightarrow> sdk_sessions \<Rightarrow> sdk_sessions \<Rightarrow> bool" where
  "mesh_effect L st st' \<longleftrightarrow>
     (\<exists>ps calls. (\<forall>p\<in>set ps. L p) \<and> st' = foldl (\<lambda>s p. sessions_peer_lost p s) (st\<lparr>sn_calls := calls\<rparr>) ps)"

lemma mesh_effectI:
  "\<forall>p\<in>set ps. L p \<Longrightarrow> st' = foldl (\<lambda>s p. sessions_peer_lost p s) (st\<lparr>sn_calls := calls\<rparr>) ps \<Longrightarrow> mesh_effect L st st'"
  unfolding mesh_effect_def by blast

lemma mesh_effect_refl [simp]: "mesh_effect L st st"
  by (rule mesh_effectI [where ps = "[]" and calls = "sn_calls st"]) simp_all

lemma peer_lost_calls:
  "(sessions_peer_lost p st)\<lparr>sn_calls := calls\<rparr> = sessions_peer_lost p (st\<lparr>sn_calls := calls\<rparr>)"
  by (simp add: sessions_peer_lost_def)

lemma peers_lost_calls:
  "(foldl (\<lambda>s p. sessions_peer_lost p s) st ps)\<lparr>sn_calls := calls\<rparr> =
   foldl (\<lambda>s p. sessions_peer_lost p s) (st\<lparr>sn_calls := calls\<rparr>) ps"
  by (induction ps arbitrary: st) (simp_all add: peer_lost_calls)

lemma mesh_effect_trans:
  assumes "mesh_effect L a b" and "mesh_effect L b c"
  shows "mesh_effect L a c"
proof -
  obtain ps calls where 1: "\<forall>p\<in>set ps. L p" "b = foldl (\<lambda>s p. sessions_peer_lost p s) (a\<lparr>sn_calls := calls\<rparr>) ps"
    using assms(1) unfolding mesh_effect_def by blast
  obtain qs calls' where 2: "\<forall>p\<in>set qs. L p" "c = foldl (\<lambda>s p. sessions_peer_lost p s) (b\<lparr>sn_calls := calls'\<rparr>) qs"
    using assms(2) unfolding mesh_effect_def by blast
  have "c = foldl (\<lambda>s p. sessions_peer_lost p s) (a\<lparr>sn_calls := calls'\<rparr>) (ps @ qs)"
    by (simp add: 1(2) 2(2) peers_lost_calls)
  with 1(1) 2(1) show ?thesis by (intro mesh_effectI [of "ps @ qs"]) auto
qed

abbreviation may_be_lost :: "lost_in_send \<Rightarrow> string \<Rightarrow> bool" where
  "may_be_lost lost p \<equiv> \<exists>calls. p \<in> set (lost calls)"

lemma send_to_effect: "mesh_effect (may_be_lost lost) st (send_to lost peer type payload st)"
  unfolding send_to_def Let_def by (rule mesh_effectI [OF _ refl]) auto

lemma send_to_members_from_effect:
  "mesh_effect (may_be_lost lost) st (send_to_members_from lost name type payload except i st)"
proof (induction lost name type payload except i st rule: send_to_members_from.induct)
  case (1 lost name type payload except i st)
  show ?case
  proof (cases "i < length (roster_of name st)")
    case True
    let ?player = "roster_of name st ! i"
    let ?st' = "if ?player = sn_product_user_id st \<or> ?player = except then st else send_to lost ?player type payload st"
    have walk: "send_to_members_from lost name type payload except i st =
        send_to_members_from lost name type payload except (Suc i) ?st'"
      by (subst send_to_members_from.simps) (simp add: True Let_def)
    have "mesh_effect (may_be_lost lost) st ?st'" by (simp add: send_to_effect)
    moreover have "mesh_effect (may_be_lost lost) ?st' (send_to_members_from lost name type payload except (Suc i) ?st')"
      by (rule 1 [OF True refl refl])
    ultimately show ?thesis unfolding walk by (rule mesh_effect_trans)
  next
    case False
    then show ?thesis by (simp add: send_to_members_from.simps)
  qed
qed

lemma send_to_members_effect: "mesh_effect (may_be_lost lost) st (send_to_members lost name type payload except st)"
  unfolding send_to_members_def by (rule send_to_members_from_effect)

lemma broadcast_session_effect: "mesh_effect (may_be_lost lost) st (broadcast_session lost name st)"
  by (simp add: broadcast_session_def send_to_members_effect split: option.splits)

lemma ask_peers_effect: "mesh_effect (may_be_lost lost) st (snd (ask_peers lost payload peers awaiting st))"
  by (induction lost payload peers awaiting st rule: ask_peers.induct)
    (simp_all, rule mesh_effect_trans [OF send_to_effect])

text \<open>What an effect keeps.\<close>

lemma peer_lost_keeps: "sessions_peer_lost p st = st\<lparr>sn_sessions := sn_sessions (sessions_peer_lost p st)\<rparr>"
  by (simp add: sessions_peer_lost_def)

lemma peers_lost_keep:
  "foldl (\<lambda>s p. sessions_peer_lost p s) st ps =
   st\<lparr>sn_sessions := sn_sessions (foldl (\<lambda>s p. sessions_peer_lost p s) st ps)\<rparr>"
proof (induction ps rule: rev_induct)
  case (snoc p ps)
  let ?s = "foldl (\<lambda>s p. sessions_peer_lost p s) st ps"
  have "sessions_peer_lost p ?s = ?s\<lparr>sn_sessions := sn_sessions (sessions_peer_lost p ?s)\<rparr>"
    by (rule peer_lost_keeps)
  also have "\<dots> = st\<lparr>sn_sessions := sn_sessions (sessions_peer_lost p ?s)\<rparr>"
    by (subst (1) snoc) simp
  finally show ?case by simp
qed simp

lemma mesh_effect_fields:
  assumes "mesh_effect L st st'"
  shows "st' = st\<lparr>sn_calls := sn_calls st', sn_sessions := sn_sessions st'\<rparr>"
proof -
  obtain ps calls where e: "st' = foldl (\<lambda>s p. sessions_peer_lost p s) (st\<lparr>sn_calls := calls\<rparr>) ps"
    using assms unfolding mesh_effect_def by blast
  have k: "st' = st\<lparr>sn_calls := calls\<rparr>\<lparr>sn_sessions := sn_sessions st'\<rparr>"
    unfolding e by (rule peers_lost_keep)
  have "sn_calls st' = calls" by (subst k) simp
  with k show ?thesis by simp
qed

lemma mesh_effect_keeps:
  assumes "mesh_effect L st st'"
  shows "sn_product_user_id st' = sn_product_user_id st" "sn_product_id st' = sn_product_id st"
    "sn_handle_counter st' = sn_handle_counter st" "sn_modifications st' = sn_modifications st"
    "sn_searches st' = sn_searches st" "sn_details st' = sn_details st" "sn_actives st' = sn_actives st"
    "sn_pending_finds st' = sn_pending_finds st" "sn_pending_joins st' = sn_pending_joins st"
    "sn_next_search_id st' = sn_next_search_id st" "sn_registered st' = sn_registered st"
    "sn_results st' = sn_results st" "sn_ready st' = sn_ready st" "sn_next_result st' = sn_next_result st"
  by (subst mesh_effect_fields [OF assms], simp)+

subsection \<open>Entry by entry\<close>

text \<open>An entry's roster may lose players that may be lost; its open slots are counted again.\<close>

definition seats_given_up :: "(string \<Rightarrow> bool) \<Rightarrow> session \<Rightarrow> session \<Rightarrow> bool" where
  "seats_given_up L e e' \<longleftrightarrow> (\<exists>ps. (\<forall>p\<in>set ps. L p) \<and> e' = foldl (\<lambda>x p. lose_seat p x) e ps)"

lemma seats_given_up_refl [simp]: "seats_given_up L e e"
  unfolding seats_given_up_def by (rule exI [of _ "[]"]) simp

lemma seats_given_up_step: "seats_given_up L e e' \<Longrightarrow> L p \<Longrightarrow> seats_given_up L e (lose_seat p e')"
proof -
  assume "seats_given_up L e e'" "L p"
  then obtain ps where "\<forall>q\<in>set ps. L q" "e' = foldl (\<lambda>x p. lose_seat p x) e ps"
    unfolding seats_given_up_def by blast
  then show ?thesis
    unfolding seats_given_up_def using \<open>L p\<close> by (intro exI [of _ "ps @ [p]"]) simp
qed

lemma seats_given_up_induct [consumes 1, case_names same lose]:
  assumes "seats_given_up L e e'" and "P e" and "\<And>x p. P x \<Longrightarrow> L p \<Longrightarrow> P (lose_seat p x)"
  shows "P e'"
proof -
  obtain ps where "\<forall>q\<in>set ps. L q" "e' = foldl (\<lambda>x p. lose_seat p x) e ps"
    using assms(1) unfolding seats_given_up_def by blast
  moreover have "P (foldl (\<lambda>x p. lose_seat p x) e ps)" if "\<forall>q\<in>set ps. L q" for ps
    using that by (induction ps rule: rev_induct) (simp_all add: assms(2,3))
  ultimately show ?thesis by blast
qed

lemma peer_lost_entries:
  "map fst (sn_sessions (sessions_peer_lost p st)) = map fst (sn_sessions st)"
  by (simp add: sessions_peer_lost_def case_prod_beta comp_def)

lemma mesh_effect_entries:
  assumes "mesh_effect L st st'"
  shows "list_all2 (\<lambda>a b. fst b = fst a \<and> seats_given_up L (snd a) (snd b)) (sn_sessions st) (sn_sessions st')"
proof -
  obtain ps calls where L: "\<forall>p\<in>set ps. L p"
    and e: "st' = foldl (\<lambda>s p. sessions_peer_lost p s) (st\<lparr>sn_calls := calls\<rparr>) ps"
    using assms unfolding mesh_effect_def by blast
  have "list_all2 (\<lambda>a b. fst b = fst a \<and> seats_given_up L (snd a) (snd b)) (sn_sessions st)
      (sn_sessions (foldl (\<lambda>s p. sessions_peer_lost p s) (st\<lparr>sn_calls := calls\<rparr>) ps))"
    using L
  proof (induction ps rule: rev_induct)
    case Nil
    show ?case by (simp add: list.rel_refl)
  next
    case (snoc p ps)
    let ?m = "sn_sessions (foldl (\<lambda>s p. sessions_peer_lost p s) (st\<lparr>sn_calls := calls\<rparr>) ps)"
    have "list_all2 (\<lambda>a b. fst b = fst a \<and> seats_given_up L (snd a) (snd b)) (sn_sessions st)
        (map (\<lambda>(name, entry). (name, lose_seat p entry)) ?m)"
      using snoc by (simp add: list.rel_map case_prod_beta)
        (rule list.rel_mono_strong, assumption, simp add: seats_given_up_step)
    then show ?case using snoc by (simp add: sessions_peer_lost_def)
  qed
  then show ?thesis unfolding e .
qed

text \<open>So a property of entries that giving a seat up keeps is kept by every send.\<close>

definition all_entries :: "(session \<Rightarrow> bool) \<Rightarrow> sdk_sessions \<Rightarrow> bool" where
  "all_entries P st \<longleftrightarrow> (\<forall>e\<in>set (sn_sessions st). P (snd e))"

lemma mesh_effect_all_entries:
  assumes "mesh_effect L st st'" and "all_entries P st" and "\<And>x p. P x \<Longrightarrow> P (lose_seat p x)"
  shows "all_entries P st'"
  unfolding all_entries_def
proof
  fix b assume "b \<in> set (sn_sessions st')"
  then obtain a where "a \<in> set (sn_sessions st)" and "seats_given_up L (snd a) (snd b)"
    using mesh_effect_entries [OF assms(1)] by (metis (no_types, lifting) in_set_conv_nth list_all2_conv_all_nth)
  from this(2) have "P (snd b)"
    by (rule seats_given_up_induct) (use assms(2,3) \<open>a \<in> set (sn_sessions st)\<close> in \<open>auto simp: all_entries_def\<close>)
  then show "P (snd b)" .
qed

lemma mesh_effect_names: "mesh_effect L st st' \<Longrightarrow> map fst (sn_sessions st') = map fst (sn_sessions st)"
  using mesh_effect_entries [of L st st'] by (auto simp: list_all2_conv_all_nth intro!: nth_equalityI)

lemma mesh_effect_ok: "mesh_effect L st st' \<Longrightarrow> om_ok (sn_sessions st) \<Longrightarrow> om_ok (sn_sessions st')"
  by (simp add: om_ok_def mesh_effect_names)

lemma mesh_effect_find:
  assumes "mesh_effect L st st'" and "find_by_name name st = Some e"
  shows "\<exists>e'. find_by_name name st' = Some e' \<and> seats_given_up L e e'"
proof -
  obtain ps calls where L: "\<forall>p\<in>set ps. L p"
    and e: "st' = foldl (\<lambda>s p. sessions_peer_lost p s) (st\<lparr>sn_calls := calls\<rparr>) ps"
    using assms unfolding mesh_effect_def by blast
  have "\<exists>e'. find_by_name name (foldl (\<lambda>s p. sessions_peer_lost p s) (st\<lparr>sn_calls := calls\<rparr>) ps) = Some e' \<and>
      seats_given_up L e e'"
    using L
  proof (induction ps rule: rev_induct)
    case Nil
    show ?case using assms(2) by (simp add: find_by_name_def)
  next
    case (snoc p ps)
    then show ?case by (auto simp: sessions_peer_lost_find intro: seats_given_up_step)
  qed
  then show ?thesis unfolding e .
qed

lemma mesh_effect_find_None: "mesh_effect L st st' \<Longrightarrow> find_by_name name st' = None \<longleftrightarrow> find_by_name name st = None"
proof -
  assume "mesh_effect L st st'"
  then have "fst ` set (sn_sessions st') = fst ` set (sn_sessions st)"
    using mesh_effect_names by (metis list.set_map)
  then show ?thesis by (simp add: find_by_name_def om_find_None)
qed

section \<open>Operations\<close>

text \<open>One constructor per operation, those that stage an object, that put a question together and that only
  look apart.  \<open>lost\<close> is the environment of a run, and the clock, the random
  source, the peers and the roster are arguments of the operations that ask for them.\<close>

datatype staging_op =
    st_create_modification "create_modification_options versioned option" bool
  | st_update_modification "string option versioned option" bool
  | st_set_bucket_id u64 "string option versioned option"
  | st_set_host_address u64 "string option versioned option"
  | st_set_permission_level u64 "i32 versioned option"
  | st_set_join_in_progress u64 "bool versioned option"
  | st_set_max_players u64 "u32 versioned option"
  | st_set_invites_allowed u64 "bool versioned option"
  | st_add_attribute u64 "(attribute_data option \<times> i32) versioned option"
  | st_remove_attribute u64 "string option versioned option"
  | st_release_modification u64

fun stage_do :: "sdk_sessions \<Rightarrow> staging_op \<Rightarrow> sdk_sessions" where
  "stage_do st (st_create_modification options has_out) =
     snd (snd (create_session_modification options has_out st))"
| "stage_do st (st_update_modification options has_out) =
     snd (snd (update_session_modification options has_out st))"
| "stage_do st (st_set_bucket_id h options) = snd (modification_set_bucket_id h options st)"
| "stage_do st (st_set_host_address h options) = snd (modification_set_host_address h options st)"
| "stage_do st (st_set_permission_level h options) = snd (modification_set_permission_level h options st)"
| "stage_do st (st_set_join_in_progress h options) = snd (modification_set_join_in_progress h options st)"
| "stage_do st (st_set_max_players h options) = snd (modification_set_max_players h options st)"
| "stage_do st (st_set_invites_allowed h options) = snd (modification_set_invites_allowed h options st)"
| "stage_do st (st_add_attribute h options) = snd (modification_add_attribute h options st)"
| "stage_do st (st_remove_attribute h options) = snd (modification_remove_attribute h options st)"
| "stage_do st (st_release_modification h) = modification_release h st"

datatype query_op =
    qu_create_search "u32 versioned option" bool
  | qu_set_session_id u64 "string option versioned option"
  | qu_set_target_user u64 "id_handle versioned option"
  | qu_set_parameter u64 "(attribute_data option \<times> i32) versioned option"
  | qu_remove_parameter u64 "(string option \<times> i32) versioned option"
  | qu_set_max_results u64 "u32 versioned option"
  | qu_release_search u64

fun query_do :: "sdk_sessions \<Rightarrow> query_op \<Rightarrow> sdk_sessions" where
  "query_do st (qu_create_search options has_out) = snd (snd (create_session_search options has_out st))"
| "query_do st (qu_set_session_id h options) = snd (search_set_session_id h options st)"
| "query_do st (qu_set_target_user h options) = snd (search_set_target_user h options st)"
| "query_do st (qu_set_parameter h options) = snd (search_set_parameter h options st)"
| "query_do st (qu_remove_parameter h options) = snd (search_remove_parameter h options st)"
| "query_do st (qu_set_max_results h options) = snd (search_set_max_results h options st)"
| "query_do st (qu_release_search h) = search_release h st"

datatype view_op =
    vw_copy_result u64 "u32 versioned option" bool
  | vw_copy_info u64 bool
  | vw_copy_attribute_by_index u64 "u32 versioned option" bool
  | vw_copy_attribute_by_key u64 "string option versioned option" bool
  | vw_release_details u64
  | vw_copy_active "string option versioned option" bool
  | vw_active_info u64 bool
  | vw_release_active u64
  | vw_release_info nat
  | vw_release_active_info nat
  | vw_release_attribute nat

fun view_do :: "sdk_sessions \<Rightarrow> view_op \<Rightarrow> sdk_sessions" where
  "view_do st (vw_copy_result h options has_out) = snd (snd (search_copy_result h options has_out st))"
| "view_do st (vw_copy_info h has_out) = snd (snd (details_copy_info h has_out st))"
| "view_do st (vw_copy_attribute_by_index h options has_out) =
     snd (snd (details_copy_attribute_by_index h options has_out st))"
| "view_do st (vw_copy_attribute_by_key h options has_out) =
     snd (snd (details_copy_attribute_by_key h options has_out st))"
| "view_do st (vw_release_details h) = details_release h st"
| "view_do st (vw_copy_active options has_out) = snd (snd (copy_active_session_handle options has_out st))"
| "view_do st (vw_active_info h has_out) = snd (snd (active_copy_info h has_out st))"
| "view_do st (vw_release_active h) = active_release h st"
| "view_do st (vw_release_info p) = release_session_details_info p st"
| "view_do st (vw_release_active_info p) = release_active_session_info p st"
| "view_do st (vw_release_attribute p) = release_session_details_attribute p st"

datatype session_op =
    sop_stage staging_op
  | sop_query query_op
  | sop_view view_op
  | sop_init
  | sop_deinit
  | sop_update "bytes option" msec "u64 versioned option" nat "nat option"
  | sop_destroy msec "string option versioned option" nat "nat option"
  | sop_start msec "string option versioned option" nat "nat option"
  | sop_end msec "string option versioned option" nat "nat option"
  | sop_register msec "roster_options versioned option" nat "nat option"
  | sop_unregister msec "roster_options versioned option" nat "nat option"
  | sop_join msec "join_options versioned option" nat "nat option"
  | sop_find "string list" msec u64 "id_handle versioned option" nat "nat option"
  | sop_stub msec nat "nat option"
  | sop_collect msec
  | sop_fire
  | sop_message sdk_connect net_envelope

fun sessions_do :: "lost_in_send \<Rightarrow> sdk_sessions \<Rightarrow> session_op \<Rightarrow> sdk_sessions" where
  "sessions_do lost st (sop_stage op) = stage_do st op"
| "sessions_do lost st (sop_query op) = query_do st op"
| "sessions_do lost st (sop_view op) = view_do st op"
| "sessions_do lost st sop_init = sessions_emu_init st"
| "sessions_do lost st sop_deinit = sessions_emu_deinit st"
| "sessions_do lost st (sop_update random now options client_data delegate) =
     update_session lost random now options client_data delegate st"
| "sessions_do lost st (sop_destroy now options client_data delegate) =
     destroy_session lost now options client_data delegate st"
| "sessions_do lost st (sop_start now options client_data delegate) =
     start_session lost now options client_data delegate st"
| "sessions_do lost st (sop_end now options client_data delegate) =
     end_session lost now options client_data delegate st"
| "sessions_do lost st (sop_register now options client_data delegate) =
     register_players lost now options client_data delegate st"
| "sessions_do lost st (sop_unregister now options client_data delegate) =
     unregister_players lost now options client_data delegate st"
| "sessions_do lost st (sop_join now options client_data delegate) =
     join_session lost now options client_data delegate st"
| "sessions_do lost st (sop_find peers now h options client_data delegate) =
     search_find lost peers now h options client_data delegate st"
| "sessions_do lost st (sop_stub now client_data delegate) = queue_session_stub now client_data delegate st"
| "sessions_do lost st (sop_collect now) = sessions_collect now st"
| "sessions_do lost st sop_fire = snd (sessions_fire st)"
| "sessions_do lost st (sop_message connect message) = snd (sessions_on_network_message lost connect message st)"

end
