(* ===== verification/Sessions_Invariant.thy ===== *)
theory Sessions_Invariant
  imports Sessions_Runs
begin

text \<open>
  What holds of the sessions of one player in every run.  The locale \<open>entry_property\<close> names the ways
  the code changes an entry; a property each of them keeps is a property of all entries, always.
\<close>

section \<open>The table of sessions\<close>

definition entries_inv :: "(session \<Rightarrow> bool) \<Rightarrow> sdk_sessions \<Rightarrow> bool" where
  "entries_inv P st \<longleftrightarrow> om_ok (sn_sessions st) \<and> all_entries P st"

lemma entries_inv_put [intro]: "entries_inv P st \<Longrightarrow> P e \<Longrightarrow> entries_inv P (put_session name e st)"
  using set_om_put_subset [of name e "sn_sessions st"]
  by (auto simp: entries_inv_def all_entries_def put_session_def)

lemma entries_inv_put_infos [intro]:
  "entries_inv P st \<Longrightarrow> P (e\<lparr>se_infos := infos\<rparr>) \<Longrightarrow> entries_inv P (put_infos name e infos st)"
  unfolding put_infos_def by (rule entries_inv_put)

lemma entries_inv_erase [intro]: "entries_inv P st \<Longrightarrow> entries_inv P (erase_session name st)"
  by (auto simp: entries_inv_def all_entries_def erase_session_def om_erase_def)

lemma entries_inv_same: "sn_sessions st' = sn_sessions st \<Longrightarrow> entries_inv P st' \<longleftrightarrow> entries_inv P st"
  by (simp add: entries_inv_def all_entries_def)

lemma entries_inv_find: "entries_inv P st \<Longrightarrow> find_by_name name st = Some e \<Longrightarrow> P e"
  by (auto simp: entries_inv_def all_entries_def find_by_name_def dest!: om_find_in)

lemma find_by_id_in: "find_by_id i st = Some (name, e) \<Longrightarrow> (name, e) \<in> set (sn_sessions st)"
  by (auto simp: find_by_id_def find_Some_iff in_set_conv_nth)

lemma find_by_id_matches: "find_by_id i st = Some (name, e) \<Longrightarrow> si_session_id (se_infos e) = i"
  by (auto simp: find_by_id_def find_Some_iff) (metis snd_conv)

lemma entries_inv_find_id: "entries_inv P st \<Longrightarrow> find_by_id i st = Some (name, e) \<Longrightarrow> P e"
  by (auto simp: entries_inv_def all_entries_def dest!: find_by_id_in)

lemma find_by_id_name: "entries_inv P st \<Longrightarrow> find_by_id i st = Some (name, e) \<Longrightarrow> find_by_name name st = Some e"
  by (simp add: entries_inv_def find_by_name_def om_find_iff find_by_id_in)

lemma queue_result_sessions [simp]:
  "sn_sessions (queue_result now type info d finished st) = sn_sessions st"
  "sn_modifications (queue_result now type info d finished st) = sn_modifications st"
  "sn_searches (queue_result now type info d finished st) = sn_searches st"
  "sn_pending_finds (queue_result now type info d finished st) = sn_pending_finds st"
  "sn_pending_joins (queue_result now type info d finished st) = sn_pending_joins st"
  by (simp_all add: queue_result_def)

lemma deliver_sessions [simp]:
  "sn_sessions (deliver now type d client_data code st) = sn_sessions st"
  "sn_modifications (deliver now type d client_data code st) = sn_modifications st"
  "sn_searches (deliver now type d client_data code st) = sn_searches st"
  "sn_pending_finds (deliver now type d client_data code st) = sn_pending_finds st"
  "sn_pending_joins (deliver now type d client_data code st) = sn_pending_joins st"
  by (simp_all add: deliver_def)

lemma entries_inv_deliver [simp]:
  "entries_inv P (deliver now type d client_data code st) = entries_inv P st"
  "entries_inv P (queue_result now type info d finished st) = entries_inv P st"
  by (rule entries_inv_same, simp)+

section \<open>Operations that leave the sessions alone\<close>

lemma set_modification_keeps [simp]:
  "sn_sessions (snd (set_modification latest write h options st)) = sn_sessions st"
  "sn_searches (snd (set_modification latest write h options st)) = sn_searches st"
  "sn_pending_finds (snd (set_modification latest write h options st)) = sn_pending_finds st"
  by (auto simp: set_modification_def split: option.splits versioned.splits sum.splits)

lemma add_modification_keeps [simp]:
  "sn_sessions (snd (add_modification object st)) = sn_sessions st"
  "sn_searches (snd (add_modification object st)) = sn_searches st"
  "sn_pending_finds (snd (add_modification object st)) = sn_pending_finds st"
  by (simp_all add: add_modification_def hs_add_def next_handle_id_def)

lemmas modification_setter_defs = modification_set_bucket_id_def modification_set_host_address_def
  modification_set_permission_level_def modification_set_join_in_progress_def
  modification_set_max_players_def modification_set_invites_allowed_def modification_add_attribute_def
  modification_remove_attribute_def

lemma stage_do_sessions [simp]: "sn_sessions (stage_do st op) = sn_sessions st"
  "sn_searches (stage_do st op) = sn_searches st" "sn_pending_finds (stage_do st op) = sn_pending_finds st"
  by (cases op; simp add: modification_setter_defs modification_release_def create_session_modification_def
      update_session_modification_def Let_def case_prod_beta split: option.split versioned.split prod.split)+

lemma set_search_keeps [simp]:
  "sn_sessions (snd (set_search latest write h options st)) = sn_sessions st"
  "sn_modifications (snd (set_search latest write h options st)) = sn_modifications st"
  by (auto simp: set_search_def split: option.splits versioned.splits sum.splits)

lemmas search_setter_defs = search_set_session_id_def search_set_target_user_def search_set_parameter_def
  search_remove_parameter_def search_set_max_results_def

lemma query_do_sessions [simp]: "sn_sessions (query_do st op) = sn_sessions st"
  "sn_modifications (query_do st op) = sn_modifications st"
  by (cases op; simp add: search_setter_defs search_release_def create_session_search_def hs_add_def
      next_handle_id_def split: option.split versioned.split)+

lemmas view_defs = search_copy_result_def details_copy_info_def details_copy_attribute_by_index_def
  details_copy_attribute_by_key_def emit_attribute_def details_release_def copy_active_session_handle_def
  active_copy_info_def active_release_def release_session_details_info_def release_active_session_info_def
  release_session_details_attribute_def

lemma view_do_sessions [simp]: "sn_sessions (view_do st op) = sn_sessions st"
  "sn_modifications (view_do st op) = sn_modifications st" "sn_searches (view_do st op) = sn_searches st"
  "sn_pending_finds (view_do st op) = sn_pending_finds st"
  by (cases op; simp add: view_defs hs_add_def next_handle_id_def Let_def
      split: option.split versioned.split prod.split)+

section \<open>A property every change of an entry keeps\<close>

text \<open>A modification that creates has an empty roster.\<close>

definition staged_ok :: "sdk_sessions \<Rightarrow> bool" where
  "staged_ok st \<longleftrightarrow>
     (\<forall>h object. hs_find h (sn_modifications st) = Some object \<longrightarrow> mo_creating object \<longrightarrow>
        si_registered_players (mo_infos object) = [])"

lemma staged_ok_same: "sn_modifications st' = sn_modifications st \<Longrightarrow> staged_ok st' = staged_ok st"
  by (simp add: staged_ok_def)

lemma staged_ok_put:
  assumes "staged_ok st" and "mo_creating object \<Longrightarrow> si_registered_players (mo_infos object) = []"
  shows "staged_ok (st\<lparr>sn_modifications := om_put h object (sn_modifications st)\<rparr>)"
  using assms by (auto simp: staged_ok_def hs_find_def split: if_splits)

lemma staged_ok_add:
  assumes "staged_ok st" and "mo_creating object \<Longrightarrow> si_registered_players (mo_infos object) = []"
  shows "staged_ok (snd (add_modification object st))"
  using assms by (auto simp: staged_ok_def add_modification_def hs_add_def next_handle_id_def hs_find_def
      split: if_splits)

lemma staged_ok_set:
  assumes "staged_ok st"
    and "\<And>x infos infos'. write x infos = Inr infos' \<Longrightarrow> si_registered_players infos' = si_registered_players infos"
  shows "staged_ok (snd (set_modification latest write h options st))"
proof (cases "\<exists>object version x infos. hs_find h (sn_modifications st) = Some object \<and>
    options = Some (versioned version x) \<and> version_ok version latest \<and> write x (mo_infos object) = Inr infos")
  case True
  then obtain object version x infos where e: "hs_find h (sn_modifications st) = Some object"
    "options = Some (versioned version x)" "version_ok version latest" "write x (mo_infos object) = Inr infos" by blast
  have "mo_creating object \<Longrightarrow> si_registered_players infos = []"
    using assms(1) e(1) assms(2) [OF e(4)] by (simp add: staged_ok_def)
  then have "staged_ok (st\<lparr>sn_modifications := om_put h (object\<lparr>mo_infos := infos\<rparr>) (sn_modifications st)\<rparr>)"
    by (intro staged_ok_put [OF assms(1)]) simp
  with e show ?thesis by (simp add: set_modification_def)
next
  case False
  then have "snd (set_modification latest write h options st) = st"
    by (auto simp: set_modification_def split: option.splits versioned.splits sum.splits)
  then show ?thesis using assms(1) by simp
qed

lemma staged_ok_stage: "staged_ok st \<Longrightarrow> staged_ok (stage_do st op)"
proof (cases op)
  case (st_create_modification options has_out)
  assume "staged_ok st"
  then show ?thesis
    by (auto simp: st_create_modification create_session_modification_def Let_def case_prod_beta new_session_infos_def
        intro!: staged_ok_add split: option.splits versioned.splits)
next
  case (st_update_modification options has_out)
  assume "staged_ok st"
  then show ?thesis
    by (auto simp: st_update_modification update_session_modification_def Let_def case_prod_beta
        intro!: staged_ok_add split: option.splits versioned.splits)
next
  case (st_release_modification h)
  assume "staged_ok st"
  then show ?thesis
    by (auto simp: st_release_modification modification_release_def staged_ok_def hs_release_def hs_find_def
        split: if_splits)
qed (auto simp: modification_setter_defs needs_text_def put_attribute_def drop_attribute_def Let_def
    intro!: staged_ok_set split: option.splits if_splits)

locale entry_property =
  fixes P :: "session \<Rightarrow> bool"
  assumes lost: "P e \<Longrightarrow> P (lose_seat p e)"
    and created: "i \<noteq> [] \<Longrightarrow> P \<lparr>se_infos = recount (infos\<lparr>si_session_id := i, si_owner_id := user,
        si_state := oss_pending, si_registered_players := [user]\<rparr>), se_local_user = user, se_local_state = hosting\<rparr>"
    and merged: "P e \<Longrightarrow> P (e\<lparr>se_infos := merge_infos e staged\<rparr>)"
    and moved: "P e \<Longrightarrow> s \<in> {oss_in_progress, oss_ended} \<Longrightarrow> P (e\<lparr>se_infos := (se_infos e)\<lparr>si_state := s\<rparr>\<rparr>)"
    and registered: "P e \<Longrightarrow> P (e\<lparr>se_infos := recount ((se_infos e)\<lparr>si_registered_players :=
        fst (register_each players (si_registered_players (se_infos e)))\<rparr>)\<rparr>)"
    and unregistered: "P e \<Longrightarrow> P (e\<lparr>se_infos := recount ((se_infos e)\<lparr>si_registered_players :=
        fst (unregister_each players (si_registered_players (se_infos e)))\<rparr>)\<rparr>)"
    and asked: "P \<lparr>se_infos = infos, se_local_user = user, se_local_state = joining\<rparr>"
    and seated: "P e \<Longrightarrow> P (e\<lparr>se_infos := seat_player p (se_infos e)\<rparr>)"
    and entered: "P e \<Longrightarrow> P (e\<lparr>se_infos := seat_player p (se_infos e), se_local_state := joined\<rparr>)"
    and replaced: "P e \<Longrightarrow> se_local_state e \<noteq> hosting \<Longrightarrow> P (e\<lparr>se_infos := infos\<rparr>)"
    and noticed: "P e \<Longrightarrow> P (e\<lparr>se_infos := recount (apply_notice adding ps (se_infos e))\<rparr>)"
begin

lemma effect: "mesh_effect L st st' \<Longrightarrow> entries_inv P st \<Longrightarrow> entries_inv P st'"
  unfolding entries_inv_def by (blast intro: mesh_effect_ok mesh_effect_all_entries lost)

lemma create_step:
  assumes "entries_inv P st" and "si_registered_players (mo_infos object) = []"
  shows "entries_inv P (snd (create_session random object st))"
  using assms created [where i = "si_session_id (mo_infos object)" and infos = "mo_infos object" and user = "mo_local_user object"]
  by (auto simp: create_session_def Let_def intro!: entries_inv_put created)

lemma modify_step: "entries_inv P st \<Longrightarrow> entries_inv P (snd (modify_session lost object st))"
  by (auto simp: modify_session_def split: option.split
      intro!: effect [OF broadcast_session_effect] merged dest: entries_inv_find)

lemma update_step:
  assumes "entries_inv P st" and "staged_ok st"
  shows "entries_inv P (update_session lost random now options client_data delegate st)"
  using assms
  by (auto simp: update_session_def Let_def case_prod_beta staged_ok_def split: option.split versioned.split
      intro!: create_step modify_step)

lemma named_step:
  assumes "entries_inv P st"
    and "\<And>name e. find_by_name name st = Some e \<Longrightarrow> entries_inv P (snd (act name e st))"
  shows "entries_inv P (on_named_session type latest act now options client_data delegate st)"
  using assms by (auto simp: on_named_session_def case_prod_beta split: option.split versioned.split)

lemma destroy_step: "entries_inv P st \<Longrightarrow> entries_inv P (snd (leave_or_destroy lost name e st))"
  by (auto simp: leave_or_destroy_def Let_def intro!: entries_inv_erase effect [OF send_to_members_effect])

lemma state_step:
  assumes "entries_inv P st" and "find_by_name name st = Some e" and "to \<in> {oss_in_progress, oss_ended}"
  shows "entries_inv P (snd (change_state lost from to name e st))"
  using assms by (auto simp: change_state_def intro!: effect [OF broadcast_session_effect] moved dest: entries_inv_find)

lemma roster_step:
  assumes "entries_inv P st"
    and "\<And>e players. P e \<Longrightarrow> P (e\<lparr>se_infos := recount ((se_infos e)\<lparr>si_registered_players :=
        fst (walk players (si_registered_players (se_infos e)))\<rparr>)\<rparr>)"
  shows "entries_inv P (change_roster walk notice type latest lost now options client_data delegate st)"
  using assms
  by (auto simp: change_roster_def Let_def case_prod_beta split: option.split versioned.split
      intro!: effect [OF send_to_members_effect] dest: entries_inv_find)

lemma join_step: "entries_inv P st \<Longrightarrow> entries_inv P (join_session lost now options client_data delegate st)"
proof -
  assume inv: "entries_inv P st"
  have "entries_inv P (ask_to_join lost now name user infos client_data d st)" for name user infos d
  proof -
    have "entries_inv P (send_to lost (si_owner_id infos) mt_session_join_request
        (serialize_session_join_request \<lparr>sjq_session_id = si_session_id infos\<rparr>)
        (put_session name \<lparr>se_infos = infos, se_local_user = user, se_local_state = joining\<rparr> st))"
      by (rule effect [OF send_to_effect]) (rule entries_inv_put [OF inv asked])
    then show ?thesis by (simp add: ask_to_join_def Let_def entries_inv_def all_entries_def)
  qed
  with inv show ?thesis by (auto simp: join_session_def split: option.split versioned.split)
qed

lemma find_step: "entries_inv P st \<Longrightarrow> entries_inv P (search_find lost peers now h options client_data delegate st)"
proof -
  assume inv: "entries_inv P st"
  have "entries_inv P (begin_find lost peers now h object client_data d st)" for object d
  proof -
    let ?st1 = "st\<lparr>sn_next_search_id := sn_next_search_id st + 1\<rparr>"
    have "entries_inv P (snd (ask_peers lost payload ps [] ?st1))" for payload ps
      by (rule effect [OF ask_peers_effect]) (use inv in \<open>simp add: entries_inv_def all_entries_def\<close>)
    then show ?thesis
      by (simp add: begin_find_def Let_def case_prod_beta) (simp add: entries_inv_def all_entries_def queue_result_def)
  qed
  with inv show ?thesis by (auto simp: search_find_def split: option.split versioned.split)
qed

lemma answer_step: "sn_sessions (answer_search source answer h st) = sn_sessions st"
  by (simp add: answer_search_def split: option.split)

lemma response_step: "sn_sessions (on_session_search_response message answer st) = sn_sessions st"
proof -
  have "sn_sessions (foldl (\<lambda>s h. answer_search source answer h s) s hs) = sn_sessions s" for s hs source
    by (induction hs arbitrary: s) (simp_all add: answer_step)
  then show ?thesis by (simp add: on_session_search_response_def)
qed

lemma seat_new:
  "\<not> contains (si_registered_players infos) p \<Longrightarrow>
   recount (infos\<lparr>si_registered_players := si_registered_players infos @ [p]\<rparr>) = seat_player p infos"
  by (simp add: seat_player_def)

lemma judge_step:
  assumes "entries_inv P st" and "found = find_by_id i st"
  shows "entries_inv P (snd (judge_join connect source found st))"
proof -
  have "P e" if "found = Some (name, e)" for name e
    using that assms entries_inv_find_id by metis
  then show ?thesis
    using assms(1) by (auto simp: judge_join_def Let_def seat_new split: option.split intro!: seated)
qed

lemma request_step:
  assumes "entries_inv P st"
  shows "entries_inv P (on_session_join_request lost connect source request st)"
proof -
  have "entries_inv P (snd (judge_join connect source (find_by_id (sjq_session_id request) st) st))"
    by (rule judge_step [OF assms refl])
  then show ?thesis
    by (auto simp: on_session_join_request_def Let_def case_prod_beta split: option.split
        intro!: effect [OF broadcast_session_effect] effect [OF send_to_members_effect] effect [OF send_to_effect])
qed

lemma settle_sessions [simp]: "sn_sessions (settle_result res code st) = sn_sessions st"
  by (simp add: settle_result_def Let_def)

lemma verdict_step: "entries_inv P st \<Longrightarrow> entries_inv P (on_session_join_response source answer st)"
proof -
  assume inv: "entries_inv P st"
  then have "entries_inv P (settle_result res code st)" for res code
    by (simp add: entries_inv_def all_entries_def)
  then show ?thesis
    using inv by (auto simp: on_session_join_response_def Let_def split: option.split
        intro!: entries_inv_put entries_inv_put_infos entries_inv_erase seated entered dest: entries_inv_find_id)
qed

lemma infos_step: "entries_inv P st \<Longrightarrow> entries_inv P (on_session_infos source infos st)"
  by (auto simp: on_session_infos_def split: option.split intro!: replaced dest: entries_inv_find_id)

lemma destroyed_step: "entries_inv P st \<Longrightarrow> entries_inv P (on_session_destroy source notice st)"
  by (auto simp: on_session_destroy_def split: option.split)

lemma members_step: "entries_inv P st \<Longrightarrow> entries_inv P (on_session_members adding source notice st)"
  by (auto simp: on_session_members_def split: option.split intro!: noticed dest: entries_inv_find_id)

lemma lost_step: "entries_inv P st \<Longrightarrow> entries_inv P (sessions_peer_lost p st)"
  using effect [of "\<lambda>_. True" st "sessions_peer_lost p st"]
    mesh_effectI [of "[p]" "\<lambda>_. True" "sessions_peer_lost p st" "sn_calls st" st] by simp

lemma message_step:
  "entries_inv P st \<Longrightarrow> entries_inv P (snd (sessions_on_network_message lost connect message st))"
  by (auto simp: sessions_on_network_message_def when_read_def Let_def on_session_search_def
      entries_inv_same [OF response_step] lost_step request_step verdict_step infos_step destroyed_step members_step
      split: option.split intro!: effect [OF send_to_effect])

lemma callback_step: "entries_inv P st \<Longrightarrow> entries_inv P (snd (sessions_run_callbacks now res st))"
proof -
  assume inv: "entries_inv P st"
  then have "entries_inv P (finish_search h object st)" for h object
    by (simp add: finish_search_def entries_inv_def all_entries_def)
  moreover have "entries_inv P (abandon_join i st)" for i
    using inv by (auto simp: abandon_join_def split: option.split)
  ultimately show ?thesis
    using inv by (auto simp: sessions_run_callbacks_def split: option.split)
qed

lemma drain_step: "entries_inv P st \<Longrightarrow> entries_inv P (snd (snd (drain_results now queue st)))"
proof (induction now queue st rule: drain_results.induct)
  case (2 now res r queue st)
  define go where "go = (if callback_ok_timeout now r
    then (if fr_done r then (True, st) else sessions_run_callbacks now res st) else (False, st))"
  have "entries_inv P (snd go)" using 2(2) callback_step by (simp add: go_def)
  from 2(1) [OF _ _ this] have "entries_inv P (snd (snd (drain_results now queue (snd go))))"
    by (metis go_def surjective_pairing)
  then show ?case by (simp add: go_def [symmetric] Let_def case_prod_beta)
qed simp

lemma collect_step: "entries_inv P st \<Longrightarrow> entries_inv P (sessions_collect now st)"
  using drain_step [of st now "sn_results st"]
  by (simp add: sessions_collect_def case_prod_beta) (simp add: entries_inv_def all_entries_def)

lemma entries_step:
  assumes "entries_inv P st" and "staged_ok st"
  shows "entries_inv P (sessions_do lost st op)"
proof -
  have idle: "entries_inv P st'" if "sn_sessions st' = sn_sessions st" for st'
    using assms(1) entries_inv_same [OF that] by simp
  show ?thesis
  proof (cases op)
    case sop_deinit
    then show ?thesis
      using assms(1) by (simp add: sessions_emu_deinit_def entries_inv_def all_entries_def)
  next
    case (sop_update random now options client_data delegate)
    then show ?thesis using assms by (simp add: update_step)
  next
    case (sop_destroy now options client_data delegate)
    then show ?thesis using assms(1) by (simp add: destroy_session_def named_step destroy_step)
  next
    case (sop_start now options client_data delegate)
    then show ?thesis using assms(1) by (auto simp: start_session_def intro!: named_step state_step)
  next
    case (sop_end now options client_data delegate)
    then show ?thesis using assms(1) by (auto simp: end_session_def intro!: named_step state_step)
  next
    case (sop_register now options client_data delegate)
    then show ?thesis using assms(1) by (auto simp: register_players_def intro!: roster_step registered)
  next
    case (sop_unregister now options client_data delegate)
    then show ?thesis using assms(1) by (auto simp: unregister_players_def intro!: roster_step unregistered)
  next
    case (sop_join now options client_data delegate)
    then show ?thesis using assms(1) by (simp add: join_step)
  next
    case (sop_find peers now h options client_data delegate)
    then show ?thesis using assms(1) by (simp add: find_step)
  next
    case (sop_collect now)
    then show ?thesis using assms(1) by (simp add: collect_step)
  next
    case (sop_message connect message)
    then show ?thesis using assms(1) by (simp add: message_step)
  qed (rule idle; simp add: sessions_emu_init_def queue_session_stub_def sessions_fire_def sessions_free_callback_def
      split: option.split list.split prod.split)+
qed

end

end
