(* ===== verification/Sessions_Frames.thy ===== *)
theory Sessions_Frames
  imports Sessions_Invariant
begin

text \<open>
  What each operation of \<^verbatim>\<open>sdk_sessions\<close> leaves alone: most touch the table of sessions, the calls to
  the router and the queue of results, and nothing else.
\<close>

definition table_only :: "sdk_sessions \<Rightarrow> sdk_sessions \<Rightarrow> bool" where
  "table_only st st' \<longleftrightarrow> st' = st\<lparr>sn_calls := sn_calls st', sn_sessions := sn_sessions st'\<rparr>"

lemma table_onlyI: "st' = st\<lparr>sn_calls := calls, sn_sessions := m\<rparr> \<Longrightarrow> table_only st st'"
  by (simp add: table_only_def)

lemma table_only_refl [simp]: "table_only st st"
  by (simp add: table_only_def)

lemma table_only_trans:
  assumes "table_only a b" and "table_only b c"
  shows "table_only a c"
proof (rule table_onlyI)
  show "c = a\<lparr>sn_calls := sn_calls c, sn_sessions := sn_sessions c\<rparr>"
    by (subst assms(2) [unfolded table_only_def], subst assms(1) [unfolded table_only_def]) simp
qed

lemma table_only_effect: "mesh_effect L st st' \<Longrightarrow> table_only st st'"
  unfolding table_only_def by (rule mesh_effect_fields)

lemma table_only_put [simp]: "table_only st (put_session name e st)" "table_only st (put_infos name e infos st)"
  "table_only st (erase_session name st)" "table_only st (sessions_peer_lost p st)"
  by (simp_all add: table_only_def put_session_def put_infos_def erase_session_def sessions_peer_lost_def)

lemma table_only_keeps:
  assumes "table_only st st'"
  shows "sn_product_user_id st' = sn_product_user_id st" "sn_product_id st' = sn_product_id st"
    "sn_handle_counter st' = sn_handle_counter st" "sn_modifications st' = sn_modifications st"
    "sn_searches st' = sn_searches st" "sn_details st' = sn_details st" "sn_actives st' = sn_actives st"
    "sn_pending_finds st' = sn_pending_finds st" "sn_pending_joins st' = sn_pending_joins st"
    "sn_next_search_id st' = sn_next_search_id st" "sn_registered st' = sn_registered st"
    "sn_results st' = sn_results st" "sn_ready st' = sn_ready st" "sn_next_result st' = sn_next_result st"
  by (subst assms [unfolded table_only_def], simp)+

text \<open>An operation with a delegate changes the table and queues one finished result, or does nothing.\<close>

definition answers :: "sdk_sessions \<Rightarrow> sdk_sessions \<Rightarrow> bool" where
  "answers st st' \<longleftrightarrow>
     st' = st \<or> (\<exists>st1 now type info d. table_only st st1 \<and> st' = queue_result now type info d True st1)"

lemma answers_refl [simp]: "answers st st"
  by (simp add: answers_def)

lemma answers_queue: "table_only st st1 \<Longrightarrow> answers st (queue_result now type info d True st1)"
  unfolding answers_def by blast

lemma answers_deliver: "table_only st st1 \<Longrightarrow> answers st (deliver now type d client_data code st1)"
  unfolding deliver_def by (rule answers_queue)

lemma answers_keeps:
  assumes "answers st st'"
  shows "sn_product_user_id st' = sn_product_user_id st" "sn_product_id st' = sn_product_id st"
    "sn_modifications st' = sn_modifications st" "sn_searches st' = sn_searches st"
    "sn_details st' = sn_details st" "sn_pending_finds st' = sn_pending_finds st"
    "sn_pending_joins st' = sn_pending_joins st" "sn_ready st' = sn_ready st"
    "sn_next_search_id st' = sn_next_search_id st"
  using assms by (auto simp: answers_def queue_result_def table_only_keeps)

lemma create_session_table: "table_only st (snd (create_session random object st))"
  by (simp add: create_session_def Let_def)

lemma modify_session_table: "table_only st (snd (modify_session lost object st))"
  by (auto simp: modify_session_def split: option.split
      intro: table_only_trans [OF _ table_only_effect [OF broadcast_session_effect]])

lemma update_session_answers: "answers st (update_session lost random now options client_data delegate st)"
  by (auto simp: update_session_def Let_def case_prod_beta split: option.split versioned.split
      intro!: answers_queue answers_deliver create_session_table modify_session_table)

lemma named_answers:
  assumes "\<And>name e. table_only st (snd (act name e st))"
  shows "answers st (on_named_session type latest act now options client_data delegate st)"
  by (auto simp: on_named_session_def case_prod_beta split: option.split versioned.split
      intro!: answers_deliver assms)

lemma leave_table: "table_only st (snd (leave_or_destroy lost name e st))"
  by (auto simp: leave_or_destroy_def Let_def
      intro: table_only_trans [OF table_only_effect [OF send_to_members_effect] table_only_put(3)])

lemma change_state_table: "table_only st (snd (change_state lost from to name e st))"
  by (auto simp: change_state_def intro: table_only_trans [OF _ table_only_effect [OF broadcast_session_effect]])

lemma change_roster_answers:
  "answers st (change_roster walk notice type latest lost now options client_data delegate st)"
  by (auto simp: change_roster_def Let_def case_prod_beta split: option.split versioned.split
      intro!: answers_queue answers_deliver table_only_trans [OF _ table_only_effect [OF send_to_members_effect]])

lemma named_ops_answer:
  "answers st (destroy_session lost now options client_data delegate st)"
  "answers st (start_session lost now options client_data delegate st)"
  "answers st (end_session lost now options client_data delegate st)"
  "answers st (register_players lost now r_options client_data delegate st)"
  "answers st (unregister_players lost now r_options client_data delegate st)"
  by (simp_all add: destroy_session_def start_session_def end_session_def register_players_def unregister_players_def
      named_answers leave_table change_state_table change_roster_answers)

section \<open>Joins and searches\<close>

text \<open>Either the request is refused at once, or it is on its way and a result waits.\<close>

definition join_queued :: "sdk_sessions \<Rightarrow> sdk_sessions \<Rightarrow> bool" where
  "join_queued st st' \<longleftrightarrow>
     (\<exists>st1 now info d pj. table_only st st1 \<and>
        st' = (queue_result now cb_join info d False st1)\<lparr>sn_pending_joins :=
          om_put (sn_next_result st) pj (sn_pending_joins st)\<rparr>)"

lemma ask_to_join_queued: "join_queued st (ask_to_join lost now name user infos client_data d st)"
proof -
  let ?st1 = "send_to lost (si_owner_id infos) mt_session_join_request
    (serialize_session_join_request \<lparr>sjq_session_id = si_session_id infos\<rparr>)
    (put_session name \<lparr>se_infos = infos, se_local_user = user, se_local_state = joining\<rparr> st)"
  have t: "table_only st ?st1"
    by (rule table_only_trans [OF table_only_put(1) table_only_effect [OF send_to_effect]])
  then show ?thesis
    unfolding join_queued_def ask_to_join_def Let_def queue_result_sessions table_only_keeps(9,14) [OF t] by blast
qed

lemma join_session_steps:
  "answers st (join_session lost now options client_data delegate st) \<or>
   join_queued st (join_session lost now options client_data delegate st)"
  by (auto simp: join_session_def split: option.split versioned.split
      intro!: answers_deliver ask_to_join_queued)

lemma join_queued_keeps:
  assumes "join_queued st st'"
  shows "sn_modifications st' = sn_modifications st" "sn_searches st' = sn_searches st"
    "sn_pending_finds st' = sn_pending_finds st" "sn_ready st' = sn_ready st"
    "sn_product_user_id st' = sn_product_user_id st"
  using assms by (auto simp: join_queued_def queue_result_def table_only_keeps)

lemma ask_peers_table: "table_only st (snd (ask_peers lost payload peers awaiting st))"
  by (rule table_only_effect [OF ask_peers_effect])

section \<open>Messages\<close>

lemma judge_join_table: "table_only st (snd (judge_join connect source found st))"
  by (simp add: judge_join_def Let_def split: option.split)

lemma join_request_table: "table_only st (on_session_join_request lost connect source request st)"
proof -
  let ?j = "judge_join connect source (find_by_id (sjq_session_id request) st) st"
  have "table_only st (send_to lost source mt_session_join_response payload (snd ?j))" for payload
    by (rule table_only_trans [OF judge_join_table table_only_effect [OF send_to_effect]])
  then show ?thesis
    by (auto simp: on_session_join_request_def Let_def case_prod_beta split: option.split
        intro: table_only_trans [OF table_only_trans [OF _ table_only_effect [OF send_to_members_effect]]
          table_only_effect [OF broadcast_session_effect]])
qed

lemma infos_table: "table_only st (on_session_infos source infos st)"
  by (simp add: on_session_infos_def split: option.split)

lemma destroyed_table: "table_only st (on_session_destroy source notice st)"
  by (simp add: on_session_destroy_def split: option.split)

lemma members_table: "table_only st (on_session_members adding source notice st)"
  by (simp add: on_session_members_def split: option.split)

lemma search_table: "table_only st (on_session_search lost message query st)"
  by (simp add: on_session_search_def Let_def table_only_effect [OF send_to_effect])

text \<open>A verdict on a join writes into the result that waits for it.\<close>

lemma verdict_cases:
  "\<exists>st1. table_only st1 (on_session_join_response source answer st) \<and>
     (st1 = st \<or> (\<exists>res. waiting_join (sjr_session_id answer) st = Some res \<and>
        st1 = settle_result res (sjr_reason answer) st))"
proof -
  consider (none) "find_by_id (sjr_session_id answer) st = None"
    | (some) name e where "find_by_id (sjr_session_id answer) st = Some (name, e)" by (metis option.exhaust surj_pair)
  then show ?thesis
  proof cases
    case none
    then show ?thesis by (intro exI [of _ st]) (simp add: on_session_join_response_def)
  next
    case some
    show ?thesis
    proof (cases "source = si_owner_id (se_infos e) \<and> sjr_player_id answer = sn_product_user_id st \<and>
        waiting_join (sjr_session_id answer) st \<noteq> None")
      case True
      then obtain res where "waiting_join (sjr_session_id answer) st = Some res" by blast
      with True some show ?thesis
        by (intro exI [of _ "settle_result res (sjr_reason answer) st"]) (auto simp: on_session_join_response_def Let_def)
    next
      case False
      with some show ?thesis
        by (intro exI [of _ st]) (auto simp: on_session_join_response_def Let_def split: option.split)
    qed
  qed
qed

lemma settle_keeps [simp]:
  "sn_modifications (settle_result res code st) = sn_modifications st"
  "sn_searches (settle_result res code st) = sn_searches st"
  "sn_pending_finds (settle_result res code st) = sn_pending_finds st"
  "sn_pending_joins (settle_result res code st) = sn_pending_joins st"
  "sn_product_user_id (settle_result res code st) = sn_product_user_id st"
  "sn_next_result (settle_result res code st) = sn_next_result st"
  by (simp_all add: settle_result_def Let_def)

lemma verdict_keeps:
  "sn_modifications (on_session_join_response source answer st) = sn_modifications st"
  "sn_searches (on_session_join_response source answer st) = sn_searches st"
  "sn_pending_finds (on_session_join_response source answer st) = sn_pending_finds st"
  "sn_pending_joins (on_session_join_response source answer st) = sn_pending_joins st"
  "sn_product_user_id (on_session_join_response source answer st) = sn_product_user_id st"
  "sn_next_result (on_session_join_response source answer st) = sn_next_result st"
  using verdict_cases [of source answer st] by (auto simp: table_only_keeps)

lemma answer_search_keeps:
  "sn_modifications (answer_search source answer h st) = sn_modifications st"
  "sn_pending_finds (answer_search source answer h st) = sn_pending_finds st"
  "sn_pending_joins (answer_search source answer h st) = sn_pending_joins st"
  "sn_results (answer_search source answer h st) = sn_results st"
  "sn_next_result (answer_search source answer h st) = sn_next_result st"
  "sn_ready (answer_search source answer h st) = sn_ready st"
  "sn_product_user_id (answer_search source answer h st) = sn_product_user_id st"
  by (simp_all add: answer_search_def split: option.split)

lemma response_keeps:
  "sn_modifications (on_session_search_response message answer st) = sn_modifications st"
  "sn_pending_finds (on_session_search_response message answer st) = sn_pending_finds st"
  "sn_pending_joins (on_session_search_response message answer st) = sn_pending_joins st"
  "sn_results (on_session_search_response message answer st) = sn_results st"
  "sn_next_result (on_session_search_response message answer st) = sn_next_result st"
  "sn_ready (on_session_search_response message answer st) = sn_ready st"
  "sn_product_user_id (on_session_search_response message answer st) = sn_product_user_id st"
proof -
  let ?f = "\<lambda>s h. answer_search (env_source_id message) answer h s"
  have "sn_modifications (foldl ?f s hs) = sn_modifications s \<and> sn_pending_finds (foldl ?f s hs) = sn_pending_finds s \<and>
      sn_pending_joins (foldl ?f s hs) = sn_pending_joins s \<and> sn_results (foldl ?f s hs) = sn_results s \<and>
      sn_next_result (foldl ?f s hs) = sn_next_result s \<and> sn_ready (foldl ?f s hs) = sn_ready s \<and>
      sn_product_user_id (foldl ?f s hs) = sn_product_user_id s" for s hs
    by (induction hs arbitrary: s) (simp_all add: answer_search_keeps)
  then show
    "sn_modifications (on_session_search_response message answer st) = sn_modifications st"
    "sn_pending_finds (on_session_search_response message answer st) = sn_pending_finds st"
    "sn_pending_joins (on_session_search_response message answer st) = sn_pending_joins st"
    "sn_results (on_session_search_response message answer st) = sn_results st"
    "sn_next_result (on_session_search_response message answer st) = sn_next_result st"
    "sn_ready (on_session_search_response message answer st) = sn_ready st"
    "sn_product_user_id (on_session_search_response message answer st) = sn_product_user_id st"
    by (simp_all add: on_session_search_response_def)
qed

lemma message_keeps:
  "sn_modifications (snd (sessions_on_network_message lost connect message st)) = sn_modifications st"
  "sn_pending_finds (snd (sessions_on_network_message lost connect message st)) = sn_pending_finds st"
  "sn_pending_joins (snd (sessions_on_network_message lost connect message st)) = sn_pending_joins st"
  "sn_next_result (snd (sessions_on_network_message lost connect message st)) = sn_next_result st"
  "sn_product_user_id (snd (sessions_on_network_message lost connect message st)) = sn_product_user_id st"
  by (simp_all add: sessions_on_network_message_def when_read_def Let_def response_keeps verdict_keeps
      table_only_keeps [OF search_table] table_only_keeps [OF join_request_table] table_only_keeps [OF infos_table]
      table_only_keeps [OF destroyed_table] table_only_keeps [OF members_table] table_only_keeps [OF table_only_put(4)]
      split: option.split)

lemma message_searches:
  "sn_searches (snd (sessions_on_network_message lost connect message st)) =
     (if env_source_id message = [] \<or> env_source_id message = sn_product_user_id st \<or>
         env_type_tag message \<noteq> tag_of mt_session_search_response \<or> env_game_id message \<noteq> sn_product_id st
      then sn_searches st
      else (case fst (deserialize_session_search_response (reader_of (env_payload message))) of
              None \<Rightarrow> sn_searches st
            | Some answer \<Rightarrow> sn_searches (on_session_search_response message answer st)))"
  by (simp add: sessions_on_network_message_def when_read_def Let_def verdict_keeps
      table_only_keeps [OF search_table] table_only_keeps [OF join_request_table] table_only_keeps [OF infos_table]
      table_only_keeps [OF destroyed_table] table_only_keeps [OF members_table] table_only_keeps [OF table_only_put(4)]
      split: option.split)

section \<open>Ticks\<close>

lemma run_callbacks_keeps:
  "sn_modifications (snd (sessions_run_callbacks now res st)) = sn_modifications st"
  "sn_pending_finds (snd (sessions_run_callbacks now res st)) = sn_pending_finds st"
  "sn_pending_joins (snd (sessions_run_callbacks now res st)) = sn_pending_joins st"
  "sn_results (snd (sessions_run_callbacks now res st)) = sn_results st"
  "sn_ready (snd (sessions_run_callbacks now res st)) = sn_ready st"
  "sn_next_result (snd (sessions_run_callbacks now res st)) = sn_next_result st"
  "sn_product_user_id (snd (sessions_run_callbacks now res st)) = sn_product_user_id st"
  by (simp_all add: sessions_run_callbacks_def finish_search_def abandon_join_def erase_session_def
      split: option.split)

text \<open>The state a result of the queue leaves behind, and whether it goes.\<close>

definition drain_one :: "msec \<Rightarrow> nat \<Rightarrow> session_callback frame_result \<Rightarrow> sdk_sessions \<Rightarrow> bool \<times> sdk_sessions" where
  "drain_one now res r st =
     (if callback_ok_timeout now r
      then (if fr_done r then (True, st) else sessions_run_callbacks now res st)
      else (False, st))"

lemma drain_results_Cons:
  "drain_results now ((res, r) # queue) st =
     (case drain_results now queue (snd (drain_one now res r st)) of
        (ready, keep, st') \<Rightarrow>
          if fst (drain_one now res r st) then ((res, r) # ready, keep, st') else (ready, (res, r) # keep, st'))"
  by (simp add: drain_one_def Let_def case_prod_beta)

declare drain_results.simps(2) [simp del]

lemma drain_one_keeps:
  "sn_modifications (snd (drain_one now res r st)) = sn_modifications st"
  "sn_pending_finds (snd (drain_one now res r st)) = sn_pending_finds st"
  "sn_pending_joins (snd (drain_one now res r st)) = sn_pending_joins st"
  "sn_results (snd (drain_one now res r st)) = sn_results st"
  "sn_ready (snd (drain_one now res r st)) = sn_ready st"
  "sn_next_result (snd (drain_one now res r st)) = sn_next_result st"
  "sn_product_user_id (snd (drain_one now res r st)) = sn_product_user_id st"
  by (simp_all add: drain_one_def run_callbacks_keeps)

lemma drain_results_keeps:
  "sn_modifications (snd (snd (drain_results now queue st))) = sn_modifications st"
  "sn_pending_finds (snd (snd (drain_results now queue st))) = sn_pending_finds st"
  "sn_pending_joins (snd (snd (drain_results now queue st))) = sn_pending_joins st"
  "sn_results (snd (snd (drain_results now queue st))) = sn_results st"
  "sn_ready (snd (snd (drain_results now queue st))) = sn_ready st"
  "sn_next_result (snd (snd (drain_results now queue st))) = sn_next_result st"
  "sn_product_user_id (snd (snd (drain_results now queue st))) = sn_product_user_id st"
  by (induction queue arbitrary: st) (auto simp: drain_results_Cons case_prod_beta drain_one_keeps)

section \<open>Modifications in every run\<close>

lemma begin_find_keeps:
  "sn_modifications (begin_find lost peers now h object client_data d st) = sn_modifications st"
  "sn_pending_joins (begin_find lost peers now h object client_data d st) = sn_pending_joins st"
  "sn_product_user_id (begin_find lost peers now h object client_data d st) = sn_product_user_id st"
  by (simp_all add: begin_find_def Let_def case_prod_beta queue_result_def
      table_only_keeps [OF ask_peers_table])

lemma staged_ok_step:
  assumes "staged_ok st"
  shows "staged_ok (sessions_do lost st op)"
proof -
  have same: "staged_ok st'" if "sn_modifications st' = sn_modifications st" for st'
    using assms staged_ok_same [OF that] by simp
  show ?thesis
  proof (cases op)
    case (sop_stage op)
    then show ?thesis using staged_ok_stage [OF assms] by simp
  next
    case sop_deinit
    then show ?thesis using assms by (simp add: sessions_emu_deinit_def hs_clear_def staged_ok_def hs_find_def)
  next
    case (sop_join now options client_data delegate)
    then show ?thesis
      using join_session_steps [of st lost now options client_data delegate]
      by (auto intro!: same simp: answers_keeps join_queued_keeps)
  next
    case (sop_collect now)
    then show ?thesis
      by (auto intro!: same simp: sessions_collect_def case_prod_beta drain_results_keeps)
  qed (rule same; simp add: answers_keeps [OF update_session_answers] answers_keeps [OF named_ops_answer(1)]
      answers_keeps [OF named_ops_answer(2)] answers_keeps [OF named_ops_answer(3)] answers_keeps [OF named_ops_answer(4)]
      answers_keeps [OF named_ops_answer(5)] message_keeps begin_find_keeps search_find_def sessions_emu_init_def
      queue_session_stub_def sessions_fire_def sessions_free_callback_def
      split: option.split list.split prod.split versioned.split)+
qed

end
