(* ===== verification/Sessions_Properties.thy ===== *)
theory Sessions_Properties
  imports Sessions_Frames Connect_Properties
begin

text \<open>
  What \<^verbatim>\<open>interfaces/sessions.cpp\<close> promises about a session: the shape of the sessions we host in every
  run, and how little a peer that does not own a session can do to it.
\<close>

section \<open>Sessions we host\<close>

definition hosted_ok :: "session \<Rightarrow> bool" where
  "hosted_ok e \<longleftrightarrow>
     (se_local_state e = hosting \<longrightarrow>
        distinct (si_registered_players (se_infos e)) \<and>
        si_open_slots (se_infos e) = open_slots_of (se_infos e) \<and>
        si_session_id (se_infos e) \<noteq> [] \<and>
        si_state (se_infos e) \<in> {oss_pending, oss_in_progress, oss_ended})"

lemma recount_simps [simp]:
  "si_session_id (recount infos) = si_session_id infos" "si_owner_id (recount infos) = si_owner_id infos"
  "si_state (recount infos) = si_state infos" "si_max_players (recount infos) = si_max_players infos"
  "si_registered_players (recount infos) = si_registered_players infos"
  "si_open_slots (recount infos) = open_slots_of infos"
  "open_slots_of (recount infos) = open_slots_of infos"
  by (simp_all add: recount_def open_slots_of_def Let_def)

lemma register_each_distinct: "distinct roster \<Longrightarrow> distinct (fst (register_each players roster))"
  by (induction players roster rule: register_each.induct) (auto simp: contains_def case_prod_beta)

lemma unregister_each_distinct: "distinct roster \<Longrightarrow> distinct (fst (unregister_each players roster))"
  by (induction players roster rule: unregister_each.induct) (auto simp: remove_from_def case_prod_beta)

lemma apply_notice_keeps:
  "si_session_id (apply_notice adding ps infos) = si_session_id infos"
  "si_state (apply_notice adding ps infos) = si_state infos"
  "si_owner_id (apply_notice adding ps infos) = si_owner_id infos"
  "distinct (si_registered_players infos) \<Longrightarrow> distinct (si_registered_players (apply_notice adding ps infos))"
  by (induction adding ps infos rule: apply_notice.induct) (auto simp: contains_def remove_from_def)

interpretation hosted: entry_property hosted_ok
  by unfold_locales
    (auto simp: hosted_ok_def lose_seat_def remove_from_def merge_infos_def Let_def seat_player_def contains_def
      open_slots_of_def session_states apply_notice_keeps register_each_distinct unregister_each_distinct)

lemma hosted_runs:
  "transition_system (new_sdk_sessions me game) (sessions_do lost) (\<lambda>st. entries_inv hosted_ok st \<and> staged_ok st)"
  by unfold_locales
    (simp add: entries_inv_def all_entries_def new_sdk_sessions_def staged_ok_def hs_find_def,
      blast intro: staged_ok_step hosted.entries_step)

text \<open>C30. In every run, whatever the game, the mesh and the clock do, a session we host has a roster
  without duplicates, counts its open slots right, keeps a session id, and is pending, in progress or
  ended; and its table has one entry per name.\<close>

theorem hosted_sessions_are_well_formed:
  assumes "st = run (sessions_do lost) (new_sdk_sessions me game) ops"
    and "(name, e) \<in> set (sn_sessions st)" and "se_local_state e = hosting"
  shows "distinct (si_registered_players (se_infos e)) \<and>
    unat (si_open_slots (se_infos e)) =
      unat (si_max_players (se_infos e)) - length (si_registered_players (se_infos e)) \<and>
    si_session_id (se_infos e) \<noteq> [] \<and>
    si_state (se_infos e) \<in> {oss_pending, oss_in_progress, oss_ended} \<and>
    find_by_name name st = Some e"
proof -
  have inv: "entries_inv hosted_ok st"
    using transition_system.inv_run [OF hosted_runs] assms(1) by blast
  then have ok: "hosted_ok e" using assms(2) by (auto simp: entries_inv_def all_entries_def)
  have "unat (open_slots_of infos) = unat (si_max_players infos) - length (si_registered_players infos)" for infos
  proof (cases "unat (si_max_players infos) \<le> length (si_registered_players infos)")
    case False
    have "unat (si_max_players infos) < 2 ^ LENGTH(32)" by (rule unsigned_less)
    with False have small: "length (si_registered_players infos) < 2 ^ 32" by simp
    then have n: "unat (word_of_nat (length (si_registered_players infos)) :: u32) = length (si_registered_players infos)"
      by (simp add: unat_of_nat)
    with False have "(word_of_nat (length (si_registered_players infos)) :: u32) \<le> si_max_players infos"
      by (simp add: word_le_nat_alt)
    with False n show ?thesis by (simp add: open_slots_of_def unat_sub)
  qed (simp add: open_slots_of_def)
  moreover have "find_by_name name st = Some e"
    using inv assms(2) by (simp add: entries_inv_def find_by_name_def om_find_iff)
  ultimately show ?thesis using ok assms(3) by (simp add: hosted_ok_def)
qed

section \<open>What an outsider can do\<close>

text \<open>
  What a message from \<open>p\<close> may make of an entry that \<open>p\<close> does not own: \<open>p\<close> takes a seat, where we host, know
  \<open>p\<close> and have one free; \<open>p\<close> gives its own up; and players lost while we answer give theirs up.
\<close>

definition outsider_change :: "lost_in_send \<Rightarrow> sdk_connect \<Rightarrow> string \<Rightarrow> session \<Rightarrow> session \<Rightarrow> bool" where
  "outsider_change lost connect p e e' \<longleftrightarrow>
     se_local_user e' = se_local_user e \<and> se_local_state e' = se_local_state e \<and>
     (\<exists>roster slots. se_infos e' = (se_infos e)\<lparr>si_registered_players := roster, si_open_slots := slots\<rparr> \<and>
        (\<forall>q\<in>set roster. q \<in> set (si_registered_players (se_infos e)) \<or>
           (q = p \<and> se_local_state e = hosting \<and> is_known_peer p connect \<and>
            length (si_registered_players (se_infos e)) < unat (si_max_players (se_infos e)))) \<and>
        (\<forall>q\<in>set (si_registered_players (se_infos e)). q \<in> set roster \<or> q = p \<or> may_be_lost lost q) \<and>
        length roster \<le> max (length (si_registered_players (se_infos e))) (unat (si_max_players (se_infos e))))"

lemma outsider_change_refl [simp]: "outsider_change lost connect p e e"
  unfolding outsider_change_def
  by (auto intro!: exI [of _ "si_registered_players (se_infos e)"] exI [of _ "si_open_slots (se_infos e)"])

lemma outsider_change_lose:
  assumes "outsider_change lost connect p e e'" and "may_be_lost lost q \<or> q = p"
  shows "outsider_change lost connect p e (lose_seat q e')"
proof -
  obtain roster slots where r: "se_infos e' = (se_infos e)\<lparr>si_registered_players := roster, si_open_slots := slots\<rparr>"
    and a: "\<forall>x\<in>set roster. x \<in> set (si_registered_players (se_infos e)) \<or>
           (x = p \<and> se_local_state e = hosting \<and> is_known_peer p connect \<and>
            length (si_registered_players (se_infos e)) < unat (si_max_players (se_infos e)))"
    and b: "\<forall>x\<in>set (si_registered_players (se_infos e)). x \<in> set roster \<or> x = p \<or> may_be_lost lost x"
    and c: "length roster \<le> max (length (si_registered_players (se_infos e))) (unat (si_max_players (se_infos e)))"
    using assms(1) unfolding outsider_change_def by blast
  let ?roster = "remove1 q roster"
  let ?slots = "open_slots_of ((se_infos e)\<lparr>si_registered_players := ?roster, si_open_slots := slots\<rparr>)"
  have sub: "set ?roster \<subseteq> set roster" by (rule set_remove1_subset)
  show ?thesis
    unfolding outsider_change_def
  proof (intro conjI exI [of _ ?roster] exI [of _ ?slots] ballI)
    show "se_local_user (lose_seat q e') = se_local_user e" "se_local_state (lose_seat q e') = se_local_state e"
      using assms(1) by (simp_all add: lose_seat_def outsider_change_def)
    show "se_infos (lose_seat q e') = (se_infos e)\<lparr>si_registered_players := ?roster, si_open_slots := ?slots\<rparr>"
      by (cases "se_infos e") (simp add: lose_seat_def recount_def r remove_from_def)
    show "x \<in> set (si_registered_players (se_infos e)) \<or>
        x = p \<and> se_local_state e = hosting \<and> is_known_peer p connect \<and>
        length (si_registered_players (se_infos e)) < unat (si_max_players (se_infos e))" if "x \<in> set ?roster" for x
      using a that sub by blast
    show "x \<in> set ?roster \<or> x = p \<or> may_be_lost lost x" if "x \<in> set (si_registered_players (se_infos e))" for x
      using b that assms(2) by (cases "x = q") auto
    show "length ?roster \<le> max (length (si_registered_players (se_infos e))) (unat (si_max_players (se_infos e)))"
      by (rule order_trans [OF _ c]) (simp add: length_remove1)
  qed
qed

lemma outsider_change_effect:
  assumes "outsider_change lost connect p e e'" and "seats_given_up (may_be_lost lost) e' e''"
  shows "outsider_change lost connect p e e''"
  using assms(2) by (rule seats_given_up_induct) (use assms(1) in \<open>auto intro: outsider_change_lose\<close>)

lemma find_put [simp]:
  "find_by_name name (put_session n x st) = (if name = n then Some x else find_by_name name st)"
  "find_by_name name (put_infos n x infos st) = (if name = n then Some (x\<lparr>se_infos := infos\<rparr>) else find_by_name name st)"
  "find_by_name name (erase_session n st) = (if name = n then None else find_by_name name st)"
  by (simp_all add: find_by_name_def put_session_def put_infos_def erase_session_def)

lemma find_same: "sn_sessions st' = sn_sessions st \<Longrightarrow> find_by_name name st' = find_by_name name st"
  by (simp add: find_by_name_def)

text \<open>An entry, changed as an outsider may, and then as our own sends may.\<close>

lemma effect_outsider:
  assumes "mesh_effect (may_be_lost lost) st st'"
    and "\<exists>e1. find_by_name name st = Some e1 \<and> outsider_change lost connect p e e1"
  shows "\<exists>e1. find_by_name name st' = Some e1 \<and> outsider_change lost connect p e e1"
proof -
  obtain e1 where e1: "find_by_name name st = Some e1" "outsider_change lost connect p e e1" using assms(2) by blast
  obtain e2 where "find_by_name name st' = Some e2" "seats_given_up (may_be_lost lost) e1 e2"
    using mesh_effect_find [OF assms(1) e1(1)] by blast
  with outsider_change_effect [OF e1(2)] show ?thesis by blast
qed

lemma own_leave:
  assumes "list_all (\<lambda>q. q = p) ps" and "p \<noteq> si_owner_id infos"
  shows "\<exists>roster. apply_notice False ps infos = infos\<lparr>si_registered_players := roster\<rparr> \<and>
    set roster \<subseteq> set (si_registered_players infos) \<and>
    set (si_registered_players infos) \<subseteq> insert p (set roster) \<and> length roster \<le> length (si_registered_players infos)"
  using assms
proof (induction ps arbitrary: infos)
  case Nil
  show ?case by (rule exI [of _ "si_registered_players infos"]) auto
next
  case (Cons q ps)
  let ?next = "infos\<lparr>si_registered_players := remove_from (si_registered_players infos) p\<rparr>"
  obtain roster where r: "apply_notice False ps ?next = ?next\<lparr>si_registered_players := roster\<rparr>"
    "set roster \<subseteq> set (si_registered_players ?next)" "set (si_registered_players ?next) \<subseteq> insert p (set roster)"
    "length roster \<le> length (si_registered_players ?next)"
    using Cons.IH [of ?next] Cons.prems by auto
  have shrunk: "set (remove1 p (si_registered_players infos)) \<subseteq> set (si_registered_players infos)"
    by (rule set_remove1_subset)
  have kept: "set (si_registered_players infos) \<subseteq> insert p (set (remove1 p (si_registered_players infos)))"
  proof
    fix x assume "x \<in> set (si_registered_players infos)"
    then show "x \<in> insert p (set (remove1 p (si_registered_players infos)))" by (cases "x = p") auto
  qed
  have "length (remove1 p (si_registered_players infos)) \<le> length (si_registered_players infos)"
    by (simp add: length_remove1)
  with r shrunk kept Cons.prems show ?case by (intro exI [of _ roster]) (auto simp: remove_from_def)
qed

lemma outsider_leaves:
  assumes "list_all (\<lambda>q. q = p) ps" and "p \<noteq> si_owner_id (se_infos e)"
  shows "outsider_change lost connect p e (e\<lparr>se_infos := recount (apply_notice False ps (se_infos e))\<rparr>)"
proof -
  obtain roster where r: "apply_notice False ps (se_infos e) = (se_infos e)\<lparr>si_registered_players := roster\<rparr>"
    "set roster \<subseteq> set (si_registered_players (se_infos e))"
    "set (si_registered_players (se_infos e)) \<subseteq> insert p (set roster)"
    "length roster \<le> length (si_registered_players (se_infos e))"
    using own_leave [OF assms] by blast
  show ?thesis
    unfolding outsider_change_def
    by (rule conjI, simp, rule conjI, simp, rule exI [of _ roster],
        rule exI [of _ "open_slots_of ((se_infos e)\<lparr>si_registered_players := roster\<rparr>)"])
      (use r in \<open>auto simp: recount_def\<close>)
qed

lemma outsider_seated:
  assumes "se_local_state e = hosting" and "is_known_peer p connect"
    and "length (si_registered_players (se_infos e)) < unat (si_max_players (se_infos e))"
  shows "outsider_change lost connect p e
    (e\<lparr>se_infos := recount ((se_infos e)\<lparr>si_registered_players := si_registered_players (se_infos e) @ [p]\<rparr>)\<rparr>)"
  unfolding outsider_change_def
  by (rule conjI, simp, rule conjI, simp, rule exI [of _ "si_registered_players (se_infos e) @ [p]"],
      rule exI [of _ "open_slots_of ((se_infos e)\<lparr>si_registered_players := si_registered_players (se_infos e) @ [p]\<rparr>)"])
    (use assms in \<open>auto simp: recount_def\<close>)

lemma outsider_request:
  assumes inv: "entries_inv P st" and e: "find_by_name name st = Some e"
  shows "\<exists>e'. find_by_name name (on_session_join_request lost connect p request st) = Some e' \<and>
    outsider_change lost connect p e e'"
proof -
  let ?found = "find_by_id (sjq_session_id request) st"
  let ?j = "judge_join connect p ?found st"
  have judged: "\<exists>e'. find_by_name name (snd ?j) = Some e' \<and> outsider_change lost connect p e e'"
  proof (cases ?found)
    case None
    then show ?thesis using e by (simp add: judge_join_def)
  next
    case (Some found)
    obtain n x where f: "found = (n, x)" by (cases found)
    then have "find_by_name n st = Some x" using find_by_id_name [OF inv] Some by simp
    then show ?thesis
      using e Some f outsider_seated [of e p connect lost]
      by (auto simp: judge_join_def Let_def not_le)
  qed
  show ?thesis
  proof (cases ?found)
    case None
    then show ?thesis
      using judged by (simp add: on_session_join_request_def Let_def case_prod_beta effect_outsider [OF send_to_effect])
  next
    case (Some found)
    then show ?thesis
      using judged by (auto simp: on_session_join_request_def Let_def case_prod_beta
          intro!: effect_outsider [OF broadcast_session_effect] effect_outsider [OF send_to_members_effect]
            effect_outsider [OF send_to_effect])
  qed
qed

lemma outsider_message:
  assumes inv: "entries_inv P st" and e: "find_by_name name st = Some e" and p: "env_source_id m \<noteq> si_owner_id (se_infos e)"
  shows "\<exists>e'. find_by_name name (snd (sessions_on_network_message lost connect m st)) = Some e' \<and>
    outsider_change lost connect (env_source_id m) e e'"
proof -
  let ?p = "env_source_id m"
  have found: "x = e" if "find_by_id i st = Some (name, x)" for i x
    using find_by_id_name [OF inv that] e by simp
  have verdict: "find_by_name name (on_session_join_response ?p answer st) = Some e" for answer
  proof -
    have "find_by_name name (settle_result res code st) = Some e" for res code
      using e by (simp add: find_by_name_def)
    then show ?thesis
      using e p by (auto simp: on_session_join_response_def Let_def dest: found split: option.split)
  qed
  have infos: "find_by_name name (on_session_infos ?p infos st) = Some e" for infos
    using e p by (auto simp: on_session_infos_def dest: found split: option.split)
  have gone: "find_by_name name (on_session_destroy ?p notice st) = Some e" for notice
  proof (cases "List.find (\<lambda>x. si_session_id (se_infos (snd x)) = sd_session_id notice \<and>
              se_local_state (snd x) \<noteq> hosting \<and> si_owner_id (se_infos (snd x)) = ?p) (sn_sessions st)")
    case None
    then show ?thesis using e by (simp add: on_session_destroy_def)
  next
    case (Some found)
    obtain n x where f: "found = (n, x)" by (cases found)
    have "(n, x) \<in> set (sn_sessions st)" and owner: "si_owner_id (se_infos x) = ?p"
      using Some f by (auto simp: find_Some_iff in_set_conv_nth) (metis snd_conv)+
    then have "find_by_name n st = Some x"
      using inv by (simp add: entries_inv_def find_by_name_def om_find_iff)
    with e p owner have "n \<noteq> name" by auto
    then show ?thesis using e by (simp add: on_session_destroy_def Some f)
  qed
  have members: "\<exists>e'. find_by_name name (on_session_members adding ?p notice st) = Some e' \<and>
      outsider_change lost connect ?p e e'" for adding notice
    using e p outsider_leaves [of ?p "sm_player_ids notice" e lost connect]
    by (auto simp: on_session_members_def dest: found split: option.split)
  have asked: "\<exists>e'. find_by_name name (on_session_search lost m query st) = Some e' \<and>
      outsider_change lost connect ?p e e'" for query
    unfolding on_session_search_def Let_def by (rule effect_outsider [OF send_to_effect]) (use e in simp)
  have left: "\<exists>e'. find_by_name name (sessions_peer_lost ?p st) = Some e' \<and> outsider_change lost connect ?p e e'"
    using e by (auto simp: sessions_peer_lost_find intro: outsider_change_lose)
  have answered: "find_by_name name (on_session_search_response m answer st) = Some e" for answer
    using e find_same [OF hosted.response_step] by simp
  show ?thesis
    using e by (auto simp: sessions_on_network_message_def when_read_def Let_def left verdict infos gone members asked
        answered outsider_request [OF inv e] split: option.split)
qed

text \<open>C31. A peer that does not own a session, be it one we host or one we joined, can only give its own
  seat up or take one: no message of it ends the session, changes anything but the roster, seats anyone
  else or takes anyone else's seat, and it is seated only where we host the session, have met it and
  have a seat free.  Whoever else loses a seat was lost by the mesh while we answered.\<close>

theorem outsiders_only_move_themselves:
  assumes "st = run (sessions_do lost) (new_sdk_sessions me game) ops"
    and "find_by_name name st = Some e" and "env_source_id m \<noteq> si_owner_id (se_infos e)"
  shows "\<exists>e'. find_by_name name (snd (sessions_on_network_message lost connect m st)) = Some e' \<and>
    outsider_change lost connect (env_source_id m) e e'"
proof -
  have "entries_inv hosted_ok st" using transition_system.inv_run [OF hosted_runs] assms(1) by blast
  from outsider_message [OF this assms(2,3)] show ?thesis .
qed

section \<open>Witnesses\<close>

text \<open>A player \<open>host\<close> with a session of four seats, which \<open>guest\<close> leaves.\<close>

definition match_options :: create_modification_options where
  "match_options = \<lparr>cm_session_name = Some ''match'', cm_bucket_id = Some ''b'', cm_max_players = 4,
     cm_local_user_id = Some ''host'', cm_session_id = Some ''0123456789abcdef'', cm_sanctions_enabled = False\<rparr>"

definition host_ops :: "session_op list" where
  "host_ops = [sop_init, sop_stage (st_create_modification (Some (versioned 5 match_options)) True),
     sop_update None 0 (Some (versioned 1 1)) 0 (Some 7)]"

definition match_infos :: session_infos where
  "match_infos = new_session_infos\<lparr>si_session_id := ''0123456789abcdef'', si_owner_id := ''host'', si_bucket_id := ''b'',
     si_host_address := loopback_address, si_max_players := 4, si_open_slots := 3, si_state := oss_pending,
     si_registered_players := [''host'']\<rparr>"

definition match_entry :: session where
  "match_entry = \<lparr>se_infos = match_infos, se_local_user = ''host'', se_local_state = hosting\<rparr>"

abbreviation host_state :: sdk_sessions where
  "host_state \<equiv> run (sessions_do nobody_lost) (new_sdk_sessions ''host'' ''g'') host_ops"

lemma host_state_sessions: "sn_sessions host_state = [(''match'', match_entry)]"
  by (simp add: host_ops_def new_sdk_sessions_def sessions_emu_init_def create_session_modification_def match_options_def
      version_ok_def text_or_empty_def createsessionmod_with_session_id_def createsessionmod_with_sanctions_def
      min_session_id_override_def max_session_id_override_def add_modification_def hs_add_def next_handle_id_def
      update_session_def hs_find_def om_find_Cons create_session_def Let_def find_by_name_def put_session_def
      recount_def open_slots_of_def queue_result_def match_entry_def match_infos_def new_session_infos_def)

theorem hosted_sessions_are_well_formed_witness:
  "distinct (si_registered_players (se_infos match_entry)) \<and>
   unat (si_open_slots (se_infos match_entry)) =
     unat (si_max_players (se_infos match_entry)) - length (si_registered_players (se_infos match_entry)) \<and>
   si_session_id (se_infos match_entry) \<noteq> [] \<and>
   si_state (se_infos match_entry) \<in> {oss_pending, oss_in_progress, oss_ended} \<and>
   find_by_name ''match'' host_state = Some match_entry"
  by (rule hosted_sessions_are_well_formed [OF refl]) (simp_all add: host_state_sessions match_entry_def)

definition leave_message :: net_envelope where
  "leave_message = \<lparr>env_type_tag = tag_of session_unregister, env_source_id = ''guest'', env_dest_id = ''host'',
     env_game_id = ''g'', env_timestamp = 0,
     env_payload = serialize_session_members \<lparr>sm_session_id = ''0123456789abcdef'', sm_player_ids = [''host'']\<rparr>\<rparr>"

theorem outsiders_only_move_themselves_witness:
  "\<exists>e'. find_by_name ''match'' (snd (sessions_on_network_message nobody_lost (new_sdk_connect ''host'' ''g'' ''H'')
       leave_message host_state)) = Some e' \<and>
     outsider_change nobody_lost (new_sdk_connect ''host'' ''g'' ''H'') ''guest'' match_entry e'"
  using outsiders_only_move_themselves [OF refl, of "''match''" nobody_lost "''host''" "''g''" host_ops match_entry leave_message
      "new_sdk_connect ''host'' ''g'' ''H''"]
  by (simp add: find_by_name_def host_state_sessions om_find_Cons match_entry_def match_infos_def leave_message_def)

end
