(* ===== verification/Sessions_Found.thy ===== *)
theory Sessions_Found
  imports Sessions_Properties
begin

text \<open>
  What a search of \<^verbatim>\<open>interfaces/sessions.cpp\<close> finds: only sessions that answer its question, no more
  than it asked for, and only from the peers it asked, each of which answers once.
\<close>

section \<open>Results match the question\<close>

definition search_sound :: "search_object \<Rightarrow> bool" where
  "search_sound object \<longleftrightarrow>
     (\<forall>infos\<in>set (so_results object). session_matches infos (so_query object)) \<and>
     length (so_results object) \<le> unat (so_max_results object)"

definition sound_at :: "u64 \<Rightarrow> sdk_sessions \<Rightarrow> bool" where
  "sound_at h st \<longleftrightarrow> (\<forall>object. hs_find h (sn_searches st) = Some object \<longrightarrow> search_sound object)"

text \<open>The operations that change the question of a search, or how much it may find.\<close>

definition changes_question :: "u64 \<Rightarrow> session_op \<Rightarrow> bool" where
  "changes_question h op \<longleftrightarrow>
     (case op of
        sop_query q \<Rightarrow>
          (case q of
             qu_set_session_id h' _ \<Rightarrow> h' = h
           | qu_set_target_user h' _ \<Rightarrow> h' = h
           | qu_set_parameter h' _ \<Rightarrow> h' = h
           | qu_remove_parameter h' _ \<Rightarrow> h' = h
           | qu_set_max_results h' _ \<Rightarrow> h' = h
           | _ \<Rightarrow> False)
      | _ \<Rightarrow> False)"

lemma sound_at_same: "sn_searches st' = sn_searches st \<Longrightarrow> sound_at h st' = sound_at h st"
  by (simp add: sound_at_def)

lemma sound_at_put:
  "sound_at h st \<Longrightarrow> search_sound object \<Longrightarrow> sound_at h (st\<lparr>sn_searches := om_put h' object (sn_searches st)\<rparr>)"
  by (auto simp: sound_at_def hs_find_def split: if_splits)

lemma take_results_sound:
  assumes "\<forall>infos\<in>set results. session_matches infos query" and "length results \<le> limit"
  shows "(\<forall>infos\<in>set (take_results limit query answer results). session_matches infos query) \<and>
    length (take_results limit query answer results) \<le> limit"
  using assms
proof (induction answer arbitrary: results)
  case (Cons infos answer)
  show ?case
  proof (cases "limit \<le> length results")
    case True
    then have "take_results limit query (infos # answer) results = results" by simp
    with Cons.prems show ?thesis by metis
  next
    case False
    define more where "more = (if session_matches infos query then results @ [infos] else results)"
    have step: "take_results limit query (infos # answer) results = take_results limit query answer more"
      using False by (simp add: more_def)
    have "\<forall>x\<in>set more. session_matches x query" and "length more \<le> limit"
      using Cons.prems False by (simp_all add: more_def)
    from Cons.IH [OF this] show ?thesis unfolding step .
  qed
qed simp

text \<open>The answer adds at the end, and only what the peer sent.\<close>

lemma take_results_adds:
  "\<exists>new. take_results limit query answer results = results @ new \<and> set new \<subseteq> set answer \<and>
     (\<forall>infos\<in>set new. session_matches infos query)"
proof (induction limit query answer results rule: take_results.induct)
  case (2 limit query infos answer results)
  show ?case
  proof (cases "limit \<le> length results")
    case True
    then show ?thesis by simp
  next
    case False
    let ?next = "if session_matches infos query then results @ [infos] else results"
    obtain new where n: "take_results limit query answer ?next = ?next @ new" "set new \<subseteq> set answer"
      "\<forall>x\<in>set new. session_matches x query" using 2 [OF False] by blast
    then show ?thesis
      using False by (intro exI [of _ "(if session_matches infos query then [infos] else []) @ new"]) auto
  qed
qed simp

lemma answer_search_sound: "sound_at h st \<Longrightarrow> sound_at h (answer_search source answer h' st)"
proof -
  assume sound: "sound_at h st"
  show ?thesis
  proof (cases "h' = h")
    case True
    then show ?thesis
      using sound take_results_sound
      by (auto simp: answer_search_def sound_at_def hs_find_def search_sound_def split: option.splits if_splits)
  next
    case False
    then show ?thesis
      using sound by (auto simp: answer_search_def sound_at_def hs_find_def split: option.splits if_splits)
  qed
qed

lemma response_sound: "sound_at h st \<Longrightarrow> sound_at h (on_session_search_response message answer st)"
proof -
  have "sound_at h s \<Longrightarrow> sound_at h (foldl (\<lambda>s x. answer_search source answer x s) s hs)" for s hs source
    by (induction hs arbitrary: s) (simp_all add: answer_search_sound)
  then show "sound_at h st \<Longrightarrow> ?thesis" by (simp add: on_session_search_response_def)
qed

lemma message_sound: "sound_at h st \<Longrightarrow> sound_at h (snd (sessions_on_network_message lost connect message st))"
proof -
  have "sn_searches (snd (sessions_on_network_message lost connect message st)) = sn_searches st \<or>
      (\<exists>answer. sn_searches (snd (sessions_on_network_message lost connect message st)) =
         sn_searches (on_session_search_response message answer st))"
    unfolding message_searches by (simp split: option.split) blast
  then show "sound_at h st \<Longrightarrow> ?thesis" using sound_at_same response_sound by blast
qed

lemma run_callbacks_sound: "sound_at h st \<Longrightarrow> sound_at h (snd (sessions_run_callbacks now res st))"
  by (auto simp: sessions_run_callbacks_def finish_search_def abandon_join_def erase_session_def sound_at_def
      hs_find_def search_sound_def split: option.splits if_splits)

lemma drain_sound: "sound_at h st \<Longrightarrow> sound_at h (snd (snd (drain_results now queue st)))"
proof (induction queue arbitrary: st)
  case (Cons x queue)
  obtain res r where x: "x = (res, r)" by (cases x)
  have "sound_at h (snd (drain_one now res r st))"
    using Cons.prems by (simp add: drain_one_def run_callbacks_sound)
  from Cons.IH [OF this] show ?case by (auto simp: x drain_results_Cons case_prod_beta)
qed simp

text \<open>A search that starts holds at most what it asked for, all of it matching.\<close>

lemma local_results_sound:
  "length (local_results limit query st) \<le> limit \<and>
   (\<forall>infos\<in>set (local_results limit query st). session_matches infos query)"
  by (auto simp: local_results_def dest!: in_set_takeD)

lemma begin_find_sound:
  assumes "h' = h \<or> sound_at h st"
  shows "sound_at h (begin_find lost peers now h' object client_data d st)"
  using assms local_results_sound
  by (auto simp: begin_find_def Let_def case_prod_beta sound_at_def hs_find_def search_sound_def queue_result_def
      table_only_keeps [OF ask_peers_table] split: if_splits)

lemma set_search_sound:
  "h' \<noteq> h \<Longrightarrow> sound_at h st \<Longrightarrow> sound_at h (snd (set_search latest write h' options st))"
  by (auto simp: set_search_def sound_at_def hs_find_def split: option.splits versioned.splits sum.splits)

lemma query_sound: "\<not> changes_question h (sop_query q) \<Longrightarrow> sound_at h st \<Longrightarrow> sound_at h (query_do st q)"
proof (cases q)
  case (qu_create_search options has_out)
  assume "sound_at h st"
  then show ?thesis
    by (auto simp: qu_create_search create_session_search_def hs_add_def next_handle_id_def sound_at_def hs_find_def
        search_sound_def split: option.splits versioned.splits if_splits)
next
  case (qu_release_search h')
  assume "sound_at h st"
  then show ?thesis
    by (auto simp: qu_release_search search_release_def sound_at_def hs_find_def hs_release_def split: if_splits)
qed (auto simp: changes_question_def search_setter_defs intro!: set_search_sound)

lemma sound_step:
  assumes "sound_at h st" and "\<not> changes_question h op"
  shows "sound_at h (sessions_do lost st op)"
proof -
  have same: "sound_at h st'" if "sn_searches st' = sn_searches st" for st'
    using assms(1) sound_at_same [OF that] by simp
  show ?thesis
  proof (cases op)
    case (sop_query q)
    then show ?thesis using query_sound assms by simp
  next
    case sop_deinit
    then show ?thesis using assms(1) by (simp add: sessions_emu_deinit_def hs_clear_def sound_at_def hs_find_def)
  next
    case (sop_join now options client_data delegate)
    then show ?thesis
      using join_session_steps [of st lost now options client_data delegate]
      by (auto intro!: same simp: answers_keeps join_queued_keeps)
  next
    case (sop_find peers now h' options client_data delegate)
    then show ?thesis
      using assms(1) by (auto simp: search_find_def same begin_find_sound split: option.split versioned.split)
  next
    case (sop_collect now)
    then show ?thesis
      using drain_sound [OF assms(1), of now "sn_results st"] by (simp add: sessions_collect_def case_prod_beta sound_at_def)
  next
    case (sop_message connect message)
    then show ?thesis using message_sound assms(1) by simp
  qed (rule same; simp add: answers_keeps [OF update_session_answers] answers_keeps [OF named_ops_answer(1)]
      answers_keeps [OF named_ops_answer(2)] answers_keeps [OF named_ops_answer(3)] answers_keeps [OF named_ops_answer(4)]
      answers_keeps [OF named_ops_answer(5)] sessions_emu_init_def queue_session_stub_def sessions_fire_def
      sessions_free_callback_def split: option.split list.split prod.split)+
qed

lemma sound_run:
  "sound_at h st \<Longrightarrow> \<forall>op\<in>set ops. \<not> changes_question h op \<Longrightarrow> sound_at h (run (sessions_do lost) st ops)"
  by (induction ops arbitrary: st) (simp_all add: sound_step)

text \<open>C32. Once a search has started, and as long as the game leaves its question alone, everything it
  holds answers that question and there is no more of it than was asked for, whatever peers answer,
  however often, in whatever order.\<close>

theorem found_sessions_answer_the_question:
  assumes "hs_find h (sn_searches st) = Some before" and "\<not> so_searching before"
    and "st1 = search_find lost peers now h options client_data delegate st"
    and "hs_find h (sn_searches st1) = Some started" and "so_searching started"
    and "\<forall>op\<in>set ops. \<not> changes_question h op"
    and "hs_find h (sn_searches (run (sessions_do lost) st1 ops)) = Some object"
  shows "(\<forall>infos\<in>set (so_results object). session_matches infos (so_query object)) \<and>
    length (so_results object) \<le> unat (so_max_results object)"
proof -
  have "sn_searches st1 \<noteq> sn_searches st" using assms(1,2,4,5) by auto
  then obtain d where "st1 = begin_find lost peers now h before client_data d st"
    using assms(1,3) by (auto simp: search_find_def split: option.splits versioned.splits if_splits)
  then have "sound_at h st1" by (simp add: begin_find_sound)
  from sound_run [OF this assms(6)] assms(7) show ?thesis
    by (simp add: sound_at_def search_sound_def)
qed

section \<open>Who answers\<close>

text \<open>What one answer may do to a search.\<close>

definition answered :: "string \<Rightarrow> session_search_response \<Rightarrow> search_object \<Rightarrow> search_object \<Rightarrow> bool" where
  "answered source answer object object' \<longleftrightarrow>
     object' = object \<or>
     (so_searching object \<and> ss_search_id (so_query object) = ssr_search_id answer \<and>
      source \<in> set (so_awaiting object) \<and> source \<notin> set (so_awaiting object') \<and>
      so_query object' = so_query object \<and>
      (\<exists>new. so_results object' = so_results object @ new \<and> set new \<subseteq> set (ssr_sessions answer) \<and>
         (\<forall>infos\<in>set new. session_matches infos (so_query object))))"

lemma answered_once:
  assumes "hs_find h (sn_searches st) = Some object1" and "answered source answer object object1"
  shows "\<exists>object2. hs_find h (sn_searches (answer_search source answer h' st)) = Some object2 \<and>
    answered source answer object object2"
proof (cases "h' = h \<and> so_searching object1 \<and> ss_search_id (so_query object1) = ssr_search_id answer \<and>
    source \<in> set (so_awaiting object1)")
  case True
  then have "object1 = object" using assms(2) by (auto simp: answered_def)
  moreover obtain new where "take_results (unat (so_max_results object)) (so_query object) (ssr_sessions answer)
      (so_results object) = so_results object @ new" "set new \<subseteq> set (ssr_sessions answer)"
    "\<forall>infos\<in>set new. session_matches infos (so_query object)"
    using take_results_adds by blast
  ultimately show ?thesis
    using True assms(1) by (auto simp: answer_search_def hs_find_def answered_def)
next
  case False
  then have "hs_find h (sn_searches (answer_search source answer h' st)) = Some object1"
    using assms(1) by (auto simp: answer_search_def hs_find_def split: option.split)
  with assms(2) show ?thesis by blast
qed

lemma answered_response:
  assumes "hs_find h (sn_searches st) = Some object"
  shows "\<exists>object'. hs_find h (sn_searches (on_session_search_response message answer st)) = Some object' \<and>
    answered (env_source_id message) answer object object'"
proof -
  have "\<exists>object2. hs_find h (sn_searches (foldl (\<lambda>s x. answer_search source answer x s) s hs)) = Some object2 \<and>
      answered source answer object object2"
    if "hs_find h (sn_searches s) = Some object1" "answered source answer object object1" for s hs source object1
    using that
  proof (induction hs arbitrary: s object1)
    case (Cons x hs)
    then show ?case using answered_once [OF Cons.prems, of x] by auto
  qed simp
  from this [of st object "env_source_id message" "map snd (sn_pending_finds st)"] assms
  show ?thesis by (simp add: on_session_search_response_def answered_def)
qed

text \<open>C33. A message changes a search only when it is the answer of a peer that was asked and had not
  answered, to the very question this search is waiting on, in the same game; what it then adds are
  sessions of that answer which do match, behind those found before, and the peer is crossed off, so
  nobody answers twice and an unasked answer plants nothing.\<close>

theorem answers_come_from_asked_peers:
  assumes "hs_find h (sn_searches st) = Some object"
  shows "\<exists>object'. hs_find h (sn_searches (snd (sessions_on_network_message lost connect message st))) = Some object' \<and>
    (object' = object \<or>
     (env_type_tag message = tag_of mt_session_search_response \<and> env_game_id message = sn_product_id st \<and>
      (\<exists>answer. fst (deserialize_session_search_response (reader_of (env_payload message))) = Some answer \<and>
         answered (env_source_id message) answer object object')))"
proof (cases "fst (deserialize_session_search_response (reader_of (env_payload message)))")
  case None
  then show ?thesis using assms by (simp add: message_searches)
next
  case (Some answer)
  then show ?thesis
    using assms answered_response [OF assms, of message answer] by (auto simp: message_searches)
qed

section \<open>Witnesses\<close>

text \<open>A player asks \<open>host\<close> for a session of bucket \<open>b\<close>, and \<open>host\<close> answers.\<close>

definition bucket_parameter :: attribute_data where
  "bucket_parameter = \<lparr>ad_key = Some ''bucket'', ad_value_type = 3, ad_value = av_string (Some ''b'')\<rparr>"

definition seek_ops :: "session_op list" where
  "seek_ops = [sop_init, sop_query (qu_create_search (Some (versioned 1 5)) True),
     sop_query (qu_set_parameter 1 (Some (versioned 1 (Some bucket_parameter, 0))))]"

abbreviation seeker :: sdk_sessions where
  "seeker \<equiv> run (sessions_do nobody_lost) (new_sdk_sessions ''guest'' ''g'') seek_ops"

definition bucket_query :: session_search where
  "bucket_query = new_session_search\<lparr>ss_parameters := [\<lparr>sp_attribute = new_attribute\<lparr>sa_key := ''bucket'',
     sa_value_type := 3, sa_as_string := ''b''\<rparr>, sp_comparison_op = 0\<rparr>]\<rparr>"

definition idle_search :: search_object where
  "idle_search = \<lparr>so_query = bucket_query, so_results = [], so_max_results = 5, so_searching = False,
     so_awaiting = [], so_deadline = 0\<rparr>"

lemma seeker_searches: "hs_find 1 (sn_searches seeker) = Some idle_search" "sn_sessions seeker = []"
  "sn_product_id seeker = ''g''" "sn_product_user_id seeker = ''guest''" "sn_next_search_id seeker = 1"
  "sn_pending_finds seeker = []" "sn_next_result seeker = 1"
  by (simp_all add: seek_ops_def new_sdk_sessions_def sessions_emu_init_def create_session_search_def version_ok_def
      max_results_limit_def hs_add_def next_handle_id_def search_set_parameter_def set_search_def hs_find_def
      om_find_Cons put_parameter_def bucket_parameter_def read_attribute_def max_session_attribute_length_def Let_def
      idle_search_def bucket_query_def new_session_search_def)

abbreviation seeking :: sdk_sessions where
  "seeking \<equiv> search_find nobody_lost [''host''] 10 1 (Some (versioned 2 (Some ''guest''))) 0 (Some 9) seeker"

definition started_search :: search_object where
  "started_search = idle_search\<lparr>so_query := bucket_query\<lparr>ss_search_id := ''1'', ss_max_results := 5\<rparr>,
     so_searching := True, so_awaiting := [''host''], so_deadline := 5010\<rparr>"

lemma decimal_one: "decimal 1 = ''1''"
  by (simp add: decimal.simps char_of_def bit_0)

lemma seeking_searches: "hs_find 1 (sn_searches seeking) = Some started_search" "sn_product_id seeking = ''g''"
  "sn_product_user_id seeking = ''guest''" "map snd (sn_pending_finds seeking) = [1]"
proof -
  have d: "decimal (Suc 0) = ''1''"
    using decimal_one by simp
  have asks: "asks_something (so_query idle_search)"
    by (simp add: asks_something_def idle_search_def bucket_query_def new_session_search_def)
  have asked: "asked_peers ((so_query idle_search)\<lparr>ss_search_id := i, ss_max_results := n\<rparr>) [''host''] = [''host'']" for i n
    by (simp add: asked_peers_def idle_search_def bucket_query_def new_session_search_def)
  have found: "seeking = begin_find nobody_lost [''host''] 10 1 idle_search 0 9 seeker"
    using asks by (simp add: search_find_def seeker_searches version_ok_def) (simp add: idle_search_def)
  show "hs_find 1 (sn_searches seeking) = Some started_search" "sn_product_id seeking = ''g''"
    "sn_product_user_id seeking = ''guest''" "map snd (sn_pending_finds seeking) = [1]"
    unfolding found begin_find_def Let_def case_prod_beta
    by (simp_all add: asked seeker_searches local_results_def queue_result_def set_insert_def hs_find_def
        send_to_def Let_def d started_search_def insort_insert_key_def) (simp_all add: idle_search_def search_timeout_def)
qed

lemma found_sessions_answer_the_question_witness:
  "list_all (\<lambda>infos. session_matches infos (so_query started_search)) (so_results started_search) \<and>
   length (so_results started_search) \<le> unat (so_max_results started_search)"
  using found_sessions_answer_the_question [OF seeker_searches(1) _ refl seeking_searches(1), of "[]"] seeking_searches(1)
  by (simp add: idle_search_def started_search_def list_all_iff)

text \<open>The host's answer, which reaches the search of the guest and crosses the host off.\<close>

definition host_answer :: net_envelope where
  "host_answer = \<lparr>env_type_tag = tag_of mt_session_search_response, env_source_id = ''host'',
     env_dest_id = ''guest'', env_game_id = ''g'', env_timestamp = 0,
     env_payload = serialize_session_search_response \<lparr>ssr_search_id = ''1'', ssr_sessions = []\<rparr>\<rparr>"

lemma answers_come_from_asked_peers_witness:
  "\<exists>object'. hs_find 1 (sn_searches (snd (sessions_on_network_message nobody_lost (new_sdk_connect ''guest'' ''g'' ''Guest'') host_answer seeking))) = Some object' \<and>
    (object' = started_search \<or>
     (\<exists>answer. answered ''host'' answer started_search object'))"
  using answers_come_from_asked_peers [OF seeking_searches(1), of nobody_lost "new_sdk_connect ''guest'' ''g'' ''Guest''" host_answer]
  by (auto simp: host_answer_def)

end
