(* ===== verification/Lobby.thy ===== *)
theory Lobby
  imports Sessions Wire_Lobby
begin

text \<open>
  \<^verbatim>\<open>interfaces/lobby.cpp\<close>, first part: the state of the interface, attributes, the question a search
  asks of a lobby, the election of an heir, notifications, and sending.  Option structs, results and the
  structs a game frees are as in \<^verbatim>\<open>Sessions\<close>.  The delegates of notifications are recorded with what
  they are handed, in the order they are fired; one that calls back into the interface is not modelled.
\<close>

section \<open>Constants\<close>

definition cb_lobby_create :: int where "cb_lobby_create = 1"
definition cb_lobby_destroy :: int where "cb_lobby_destroy = 2"
definition cb_lobby_join :: int where "cb_lobby_join = 3"
definition cb_lobby_leave :: int where "cb_lobby_leave = 4"
definition cb_lobby_update :: int where "cb_lobby_update = 5"
definition cb_lobby_promote :: int where "cb_lobby_promote = 6"
definition cb_lobby_kick :: int where "cb_lobby_kick = 7"
definition cb_lobby_find :: int where "cb_lobby_find = 8"
definition cb_lobby_stub :: int where "cb_lobby_stub = 9"
definition cb_lobby_notification :: int where "cb_lobby_notification = 10"
definition cb_notify_update :: int where "cb_notify_update = 11"
definition cb_notify_member_update :: int where "cb_notify_member_update = 12"
definition cb_notify_member_status :: int where "cb_notify_member_status = 13"

definition lobby_search_timeout :: msec where "lobby_search_timeout = 5000"
definition lobby_join_timeout :: msec where "lobby_join_timeout = 5000"

definition key_lobby_bucket :: string where "key_lobby_bucket = ''bucket''"
definition key_min_members :: string where "key_min_members = ''mincurrentmembers''"
definition key_lobby_min_slots :: string where "key_lobby_min_slots = ''minslotsavailable''"

definition createlobby_with_allow_invites :: int where "createlobby_with_allow_invites = 3"
definition createlobby_with_bucket_id :: int where "createlobby_with_bucket_id = 4"
definition createlobby_with_disable_host_migration :: int where "createlobby_with_disable_host_migration = 5"
definition createlobby_with_rtc_room :: int where "createlobby_with_rtc_room = 6"
definition createlobby_with_lobby_id :: int where "createlobby_with_lobby_id = 7"
definition createlobby_with_join_by_id :: int where "createlobby_with_join_by_id = 8"

definition max_lobby_attributes :: nat where "max_lobby_attributes = 64"
definition max_lobby_attribute_length :: nat where "max_lobby_attribute_length = 64"
definition max_lobby_search_results :: u32 where "max_lobby_search_results = 200"

definition lpl_public_advertised :: i32 where "lpl_public_advertised = 0"

definition lms_joined :: i32 where "lms_joined = 0"
definition lms_left :: i32 where "lms_left = 1"
definition lms_disconnected :: i32 where "lms_disconnected = 2"
definition lms_kicked :: i32 where "lms_kicked = 3"
definition lms_promoted :: i32 where "lms_promoted = 4"
definition lms_closed :: i32 where "lms_closed = 5"

section \<open>State\<close>

datatype lobby_state_kind = lobby_hosting | lobby_joining | lobby_joined

record lobby_entry =
  le_infos :: lobby_infos
  le_local_user :: string
  le_local_state :: lobby_state_kind

record lobby_modification_object =
  lmo_lobby_id :: string
  lmo_local_user :: string
  lmo_creating :: bool
  lmo_infos :: lobby_infos
  lmo_member_set :: "session_attribute list"
  lmo_member_deleted :: "string list"

record lobby_search_object =
  lso_query :: lobby_search
  lso_results :: "lobby_infos list"
  lso_max_results :: u32
  lso_searching :: bool
  lso_awaiting :: "string list"
  lso_deadline :: msec

record lobby_details_object =
  ldo_infos :: lobby_infos

record lobby_pending_join =
  lpj_lobby_id :: string
  lpj_deadline :: msec

text \<open>The fields of the callback infos, over all of them.\<close>

record lobby_callback =
  lc_result_code :: i32
  lc_client_data :: nat
  lc_lobby_id :: "string option"
  lc_target :: id_handle
  lc_status :: i32

record lobby_details_info =
  ldi_lobby_id :: string
  ldi_lobby_owner_user_id :: id_handle
  ldi_permission_level :: i32
  ldi_available_slots :: u32
  ldi_max_members :: u32
  ldi_allow_invites :: bool
  ldi_bucket_id :: string
  ldi_allow_host_migration :: bool
  ldi_rtc_room_enabled :: bool
  ldi_allow_join_by_id :: bool
  ldi_rejoin_after_kick_requires_invite :: bool
  ldi_presence_enabled :: bool

record lobby_member_info =
  lmi_user_id :: id_handle
  lmi_platform :: i32
  lmi_allows_crossplay :: bool

record lobby_attribute =
  lat_data :: attribute_data
  lat_visibility :: i32

text \<open>
  \<open>lo_mesh\<close> is who is connected, as \<^verbatim>\<open>network_.peer_ids()\<close> lists them; \<open>lo_owner\<close> is the address the
  callback manager knows this interface by; \<open>lo_heard\<close> are the notifications fired.
\<close>

record sdk_lobby =
  lo_product_user_id :: string
  lo_product_id :: string
  lo_mesh :: "string list"
  lo_calls :: "mesh_call list"
  lo_lobbies :: "(string, lobby_entry) omap"
  lo_handle_counter :: u64
  lo_modifications :: "lobby_modification_object handle_store"
  lo_searches :: "lobby_search_object handle_store"
  lo_details :: "lobby_details_object handle_store"
  lo_pending_finds :: "(nat, u64) omap"
  lo_pending_joins :: "(nat, lobby_pending_join) omap"
  lo_next_search_id :: u64
  lo_registered :: bool
  lo_results :: "(nat \<times> lobby_callback frame_result) list"
  lo_ready :: "(nat \<times> lobby_callback frame_result) list"
  lo_next_result :: nat
  lo_owner :: nat
  lo_callbacks :: "lobby_callback callback_manager"
  lo_heard :: "(nat \<times> lobby_callback) list"
  lo_details_infos :: "(nat, lobby_details_info) omap"
  lo_member_infos :: "(nat, lobby_member_info) omap"
  lo_attributes :: "(nat, lobby_attribute) omap"
  lo_next_pointer :: nat

definition new_sdk_lobby :: "string \<Rightarrow> string \<Rightarrow> nat \<Rightarrow> sdk_lobby" where
  "new_sdk_lobby product_user_id product_id owner =
     \<lparr>lo_product_user_id = product_user_id, lo_product_id = product_id, lo_mesh = [], lo_calls = [],
      lo_lobbies = [], lo_handle_counter = 1, lo_modifications = [], lo_searches = [], lo_details = [],
      lo_pending_finds = [], lo_pending_joins = [], lo_next_search_id = 1, lo_registered = False,
      lo_results = [], lo_ready = [], lo_next_result = 1, lo_owner = owner,
      lo_callbacks = new_callback_manager, lo_heard = [], lo_details_infos = [], lo_member_infos = [],
      lo_attributes = [], lo_next_pointer = 1\<rparr>"

definition new_lobby_member :: "string \<Rightarrow> lobby_member" where
  "new_lobby_member user_id = \<lparr>lm_user_id = user_id, lm_platform = 0, lm_attributes = []\<rparr>"

definition new_lobby_infos :: lobby_infos where
  "new_lobby_infos =
     \<lparr>li_lobby_id = [], li_owner_id = [], li_bucket_id = [], li_permission_level = 0, li_max_members = 0,
      li_available_slots = 0, li_allow_invites = True, li_allow_host_migration = False,
      li_allow_join_by_id = False, li_rtc_enabled = False, li_attributes = [], li_members = []\<rparr>"

definition lobby_message_types :: "message_type list" where
  "lobby_message_types = [mt_lobby_search, mt_lobby_search_response, mt_lobby_join_request,
     mt_lobby_join_response, mt_lobby_infos, lobby_leave, mt_lobby_member_update, mt_lobby_destroy,
     peer_disconnected]"

definition lobby_emu_init :: "sdk_lobby \<Rightarrow> sdk_lobby" where
  "lobby_emu_init st =
     (if lo_registered st then st
      else st\<lparr>lo_callbacks := register_callbacks (lo_owner st) (register_frame (lo_owner st) (lo_callbacks st)),
              lo_calls := lo_calls st @ map mesh_listen lobby_message_types, lo_registered := True\<rparr>)"

definition lobby_emu_deinit :: "sdk_lobby \<Rightarrow> sdk_lobby" where
  "lobby_emu_deinit st =
     (if \<not> lo_registered st then st
      else st\<lparr>lo_calls := lo_calls st @ map mesh_unlisten lobby_message_types,
              lo_callbacks := unregister_frame (lo_owner st) (fst (unregister_callbacks (lo_owner st) (lo_callbacks st))),
              lo_results := [], lo_lobbies := [], lo_modifications := hs_clear (lo_modifications st),
              lo_searches := hs_clear (lo_searches st), lo_details := hs_clear (lo_details st),
              lo_pending_finds := [], lo_pending_joins := [], lo_registered := False\<rparr>)"

section \<open>Attributes\<close>

definition lobby_compare_ordered :: "('a \<Rightarrow> 'a \<Rightarrow> bool) \<Rightarrow> ('a \<Rightarrow> 'a \<Rightarrow> bool) \<Rightarrow> 'a \<Rightarrow> 'a \<Rightarrow> i32 \<Rightarrow> bool" where
  "lobby_compare_ordered eq lt mine theirs op =
     (if op = 0 then eq mine theirs
      else if op = 1 then \<not> eq mine theirs
      else if op = 2 then lt theirs mine
      else if op = 3 then lt theirs mine \<or> eq mine theirs
      else if op = 4 then lt mine theirs
      else if op = 5 then lt mine theirs \<or> eq mine theirs
      else False)"

definition lobby_read_attribute :: "attribute_data option \<Rightarrow> session_attribute option" where
  "lobby_read_attribute data =
     (case data of
        None \<Rightarrow> None
      | Some d \<Rightarrow>
          (case ad_key d of
             None \<Rightarrow> None
           | Some key \<Rightarrow>
               if key = [] then None
               else if max_lobby_attribute_length < length key then None
               else
                 let out = new_attribute\<lparr>sa_key := key, sa_value_type := ad_value_type d\<rparr>
                 in (case ad_value d of
                       av_bool b \<Rightarrow> Some (out\<lparr>sa_as_bool := b\<rparr>)
                     | av_int64 i \<Rightarrow> Some (out\<lparr>sa_as_int64 := i\<rparr>)
                     | av_double f \<Rightarrow> Some (out\<lparr>sa_as_double := f\<rparr>)
                     | av_string text \<Rightarrow>
                         (case text of None \<Rightarrow> None | Some s \<Rightarrow> Some (out\<lparr>sa_as_string := s\<rparr>))
                     | av_unknown \<Rightarrow> None)))"

definition lobby_write_attribute :: "session_attribute \<Rightarrow> attribute_data" where
  "lobby_write_attribute from =
     \<lparr>ad_key = Some (sa_key from), ad_value_type = sa_value_type from,
      ad_value =
        (if sa_value_type from = 0 then av_bool (sa_as_bool from)
         else if sa_value_type from = 1 then av_int64 (sa_as_int64 from)
         else if sa_value_type from = 2 then av_double (sa_as_double from)
         else av_string (Some (sa_as_string from)))\<rparr>"

definition lobby_compare_attribute :: "session_attribute \<Rightarrow> session_attribute \<Rightarrow> i32 \<Rightarrow> bool" where
  "lobby_compare_attribute mine theirs op =
     (if sa_value_type mine \<noteq> sa_value_type theirs then False
      else if sa_value_type mine = 0
      then lobby_compare_ordered (=) (<) (of_bool (sa_as_bool mine) :: int) (of_bool (sa_as_bool theirs)) op
      else if sa_value_type mine = 1
      then lobby_compare_ordered (=) (<) (sint (sa_as_int64 mine)) (sint (sa_as_int64 theirs)) op
      else if sa_value_type mine = 2
      then lobby_compare_ordered f64_equal f64_less (sa_as_double mine) (sa_as_double theirs) op
      else lobby_compare_ordered (=) (<) (sa_as_string mine) (sa_as_string theirs) op)"

definition find_attribute :: "session_attribute list \<Rightarrow> string \<Rightarrow> session_attribute option" where
  "find_attribute attrs key = List.find (\<lambda>a. sa_key a = key) attrs"

fun upsert_attribute :: "session_attribute list \<Rightarrow> session_attribute \<Rightarrow> session_attribute list" where
  "upsert_attribute [] v = [v]"
| "upsert_attribute (a # attrs) v =
     (if sa_key a = sa_key v then v # attrs else a # upsert_attribute attrs v)"

definition remove_attribute :: "session_attribute list \<Rightarrow> string \<Rightarrow> session_attribute list" where
  "remove_attribute attrs key = filter (\<lambda>a. sa_key a \<noteq> key) attrs"

text \<open>Two members carry the same attributes, in the same order.\<close>

definition same_value :: "session_attribute \<Rightarrow> session_attribute \<Rightarrow> bool" where
  "same_value x y \<longleftrightarrow>
     sa_key x = sa_key y \<and> sa_value_type x = sa_value_type y \<and>
     (if sa_value_type x = 0 then sa_as_bool x = sa_as_bool y
      else if sa_value_type x = 1 then sa_as_int64 x = sa_as_int64 y
      else if sa_value_type x = 2 then f64_equal (sa_as_double x) (sa_as_double y)
      else sa_as_string x = sa_as_string y)"

definition same_member_attributes :: "lobby_member \<Rightarrow> lobby_member \<Rightarrow> bool" where
  "same_member_attributes a b \<longleftrightarrow> list_all2 same_value (lm_attributes a) (lm_attributes b)"

section \<open>Members and owners\<close>

definition find_member :: "lobby_infos \<Rightarrow> string \<Rightarrow> lobby_member option" where
  "find_member infos user_id = List.find (\<lambda>m. lm_user_id m = user_id) (li_members infos)"

fun remove_member_from :: "string \<Rightarrow> lobby_member list \<Rightarrow> lobby_member list" where
  "remove_member_from user_id [] = []"
| "remove_member_from user_id (m # ms) =
     (if lm_user_id m = user_id then ms else m # remove_member_from user_id ms)"

definition remove_member :: "string \<Rightarrow> lobby_infos \<Rightarrow> lobby_infos" where
  "remove_member user_id infos = infos\<lparr>li_members := remove_member_from user_id (li_members infos)\<rparr>"

definition lobby_open_slots_of :: "lobby_infos \<Rightarrow> u32" where
  "lobby_open_slots_of infos =
     (let taken = length (li_members infos)
      in if taken < unat (li_max_members infos) then li_max_members infos - word_of_nat taken else 0)"

definition lobby_recount :: "lobby_infos \<Rightarrow> lobby_infos" where
  "lobby_recount infos = infos\<lparr>li_available_slots := lobby_open_slots_of infos\<rparr>"

definition elect_owner :: "lobby_member list \<Rightarrow> string \<Rightarrow> string" where
  "elect_owner members leaving =
     foldl (\<lambda>chosen m. if lm_user_id m = leaving then chosen
                       else if chosen = [] \<or> lm_user_id m < chosen then lm_user_id m else chosen) [] members"

text \<open>Nobody inherits a lobby that does not allow it.\<close>

definition heir_of :: "lobby_infos \<Rightarrow> string \<Rightarrow> string" where
  "heir_of infos leaving =
     (if li_allow_host_migration infos then elect_owner (li_members infos) leaving else [])"

definition fill_lobby_details_info :: "lobby_infos \<Rightarrow> lobby_details_info" where
  "fill_lobby_details_info infos =
     \<lparr>ldi_lobby_id = li_lobby_id infos, ldi_lobby_owner_user_id = handle_of_id (li_owner_id infos),
      ldi_permission_level = li_permission_level infos, ldi_available_slots = lobby_open_slots_of infos,
      ldi_max_members = li_max_members infos, ldi_allow_invites = li_allow_invites infos,
      ldi_bucket_id = li_bucket_id infos, ldi_allow_host_migration = li_allow_host_migration infos,
      ldi_rtc_room_enabled = li_rtc_enabled infos, ldi_allow_join_by_id = li_allow_join_by_id infos,
      ldi_rejoin_after_kick_requires_invite = False, ldi_presence_enabled = False\<rparr>"

section \<open>What a search asks\<close>

definition lobby_parameter_matches :: "lobby_infos \<Rightarrow> search_parameter \<Rightarrow> bool" where
  "lobby_parameter_matches infos parameter =
     (let key = sa_key (sp_attribute parameter); op = sp_comparison_op parameter; theirs = sp_attribute parameter
      in if key = key_lobby_bucket
         then sa_value_type theirs = 3 \<and>
           lobby_compare_ordered (=) (<) (li_bucket_id infos) (sa_as_string theirs) op
         else if key = key_min_members
         then sa_value_type theirs = 1 \<and>
           lobby_compare_ordered (=) (<) (int (length (li_members infos))) (sint (sa_as_int64 theirs))
             (if op = 0 then 3 else op)
         else if key = key_lobby_min_slots
         then sa_value_type theirs = 1 \<and>
           lobby_compare_ordered (=) (<) (int (unat (lobby_open_slots_of infos))) (sint (sa_as_int64 theirs))
             (if op = 0 then 3 else op)
         else
           (case find_attribute (li_attributes infos) key of
              None \<Rightarrow> False
            | Some mine \<Rightarrow> lobby_compare_attribute mine theirs op))"

definition lobby_matches :: "lobby_infos \<Rightarrow> lobby_search \<Rightarrow> bool" where
  "lobby_matches infos query =
     (let by_id = (ls_lobby_id query \<noteq> []); by_user = (ls_target_user_id query \<noteq> [])
      in if by_id \<and> li_lobby_id infos \<noteq> ls_lobby_id query then False
         else if by_user \<and> find_member infos (ls_target_user_id query) = None then False
         else if \<not> by_id \<and> \<not> by_user \<and> li_permission_level infos \<noteq> lpl_public_advertised then False
         else list_all (lobby_parameter_matches infos) (ls_parameters query))"

section \<open>Lookups\<close>

definition find_lobby :: "string \<Rightarrow> sdk_lobby \<Rightarrow> lobby_entry option" where
  "find_lobby lobby_id st = om_find lobby_id (lo_lobbies st)"

definition put_lobby :: "string \<Rightarrow> lobby_entry \<Rightarrow> sdk_lobby \<Rightarrow> sdk_lobby" where
  "put_lobby lobby_id entry st = st\<lparr>lo_lobbies := om_put lobby_id entry (lo_lobbies st)\<rparr>"

definition put_lobby_infos :: "string \<Rightarrow> lobby_entry \<Rightarrow> lobby_infos \<Rightarrow> sdk_lobby \<Rightarrow> sdk_lobby" where
  "put_lobby_infos lobby_id entry infos st = put_lobby lobby_id (entry\<lparr>le_infos := infos\<rparr>) st"

definition erase_lobby :: "string \<Rightarrow> sdk_lobby \<Rightarrow> sdk_lobby" where
  "erase_lobby lobby_id st = st\<lparr>lo_lobbies := om_erase lobby_id (lo_lobbies st)\<rparr>"

definition members_of :: "string \<Rightarrow> sdk_lobby \<Rightarrow> string list" where
  "members_of lobby_id st =
     (case find_lobby lobby_id st of None \<Rightarrow> [] | Some entry \<Rightarrow> map lm_user_id (li_members (le_infos entry)))"

end
