(* ===== verification/Lobby_Mesh.thy ===== *)
theory Lobby_Mesh
  imports Lobby
begin

text \<open>
  \<^verbatim>\<open>interfaces/lobby.cpp\<close>, second part: results, notifications, and what goes to the mesh.  A send whose
  connection turns out broken drops the peer, and the interface's own handler runs before the send
  returns: it changes rosters and sends in turn.  \<open>run_lobby_work\<close> is that call stack as a list of
  calls, and it comes to an end because a peer is lost only once.
\<close>

section \<open>Results\<close>

definition empty_lobby_callback :: lobby_callback where
  "empty_lobby_callback =
     \<lparr>lc_result_code = 0, lc_client_data = 0, lc_lobby_id = None, lc_target = None, lc_status = 0\<rparr>"

definition new_lobby_result :: "lobby_callback frame_result" where
  "new_lobby_result = \<lparr>fr_type_id = 0, fr_payload = empty_lobby_callback, fr_func = None,
     fr_ok_timeout = 0, fr_created_time = 0, fr_done = False, fr_remove_on_timeout = False\<rparr>"

definition queue_lobby_result :: "msec \<Rightarrow> int \<Rightarrow> lobby_callback \<Rightarrow> nat \<Rightarrow> bool \<Rightarrow> sdk_lobby \<Rightarrow> sdk_lobby" where
  "queue_lobby_result now type info delegate finished st =
     st\<lparr>lo_results := lo_results st @ [(lo_next_result st,
          (create_callback now type info (Some delegate) 0 new_lobby_result)\<lparr>fr_done := finished\<rparr>)],
        lo_next_result := Suc (lo_next_result st)\<rparr>"

text \<open>The delegate is not null where these are called.\<close>

definition deliver_id :: "msec \<Rightarrow> int \<Rightarrow> nat \<Rightarrow> nat \<Rightarrow> eos_result \<Rightarrow> string \<Rightarrow> sdk_lobby \<Rightarrow> sdk_lobby" where
  "deliver_id now type d client_data code lobby_id st =
     queue_lobby_result now type (empty_lobby_callback\<lparr>lc_result_code := result_number code,
       lc_client_data := client_data, lc_lobby_id := Some lobby_id\<rparr>) d True st"

definition deliver_result :: "msec \<Rightarrow> int \<Rightarrow> nat \<Rightarrow> nat \<Rightarrow> eos_result \<Rightarrow> sdk_lobby \<Rightarrow> sdk_lobby" where
  "deliver_result now type d client_data code st =
     queue_lobby_result now type (empty_lobby_callback\<lparr>lc_result_code := result_number code,
       lc_client_data := client_data\<rparr>) d True st"

definition queue_lobby_stub_result :: "msec \<Rightarrow> nat \<Rightarrow> nat option \<Rightarrow> sdk_lobby \<Rightarrow> sdk_lobby" where
  "queue_lobby_stub_result now client_data delegate st =
     (case delegate of
        None \<Rightarrow> st
      | Some d \<Rightarrow> deliver_result now cb_lobby_stub d client_data EOS_NotImplemented st)"

section \<open>Notifications\<close>

definition add_lobby_notification :: "int \<Rightarrow> msec \<Rightarrow> nat \<Rightarrow> nat option \<Rightarrow> sdk_lobby \<Rightarrow> u64 \<times> sdk_lobby" where
  "add_lobby_notification type now client_data delegate st =
     (case delegate of
        None \<Rightarrow> (0, st)
      | Some d \<Rightarrow>
          (case add_notification (lo_owner st) (create_callback now type
                  (empty_lobby_callback\<lparr>lc_client_data := client_data\<rparr>) (Some d) 0 new_lobby_result) (lo_callbacks st) of
             (i, cm) \<Rightarrow> (i, st\<lparr>lo_callbacks := cm\<rparr>)))"

definition add_notify_lobby_update_received :: "msec \<Rightarrow> nat \<Rightarrow> nat option \<Rightarrow> sdk_lobby \<Rightarrow> u64 \<times> sdk_lobby" where
  "add_notify_lobby_update_received = add_lobby_notification cb_notify_update"

definition add_notify_lobby_member_update_received :: "msec \<Rightarrow> nat \<Rightarrow> nat option \<Rightarrow> sdk_lobby \<Rightarrow> u64 \<times> sdk_lobby" where
  "add_notify_lobby_member_update_received = add_lobby_notification cb_notify_member_update"

definition add_notify_lobby_member_status_received :: "msec \<Rightarrow> nat \<Rightarrow> nat option \<Rightarrow> sdk_lobby \<Rightarrow> u64 \<times> sdk_lobby" where
  "add_notify_lobby_member_status_received = add_lobby_notification cb_notify_member_status"

definition remove_lobby_notify :: "u64 \<Rightarrow> sdk_lobby \<Rightarrow> sdk_lobby" where
  "remove_lobby_notify i st = st\<lparr>lo_callbacks := remove_notification (lo_owner st) i (lo_callbacks st)\<rparr>"

definition add_lobby_stub_notification :: "msec \<Rightarrow> nat \<Rightarrow> nat option \<Rightarrow> sdk_lobby \<Rightarrow> u64 \<times> sdk_lobby" where
  "add_lobby_stub_notification = add_lobby_notification cb_lobby_notification"

text \<open>One notification, looked up again right before: its fields are written and its delegate hears them.\<close>

definition fire_lobby_note :: "(lobby_callback \<Rightarrow> lobby_callback) \<Rightarrow> u64 \<Rightarrow> sdk_lobby \<Rightarrow> sdk_lobby" where
  "fire_lobby_note fill i st =
     (let owner = lo_owner st; cm = lo_callbacks st
      in case find_notification owner i cm of
           None \<Rightarrow> st
         | Some note \<Rightarrow>
             let info = fill (fr_payload note);
                 cm' = cm\<lparr>cm_notifications := om_put owner
                         (om_put i (note\<lparr>fr_payload := info\<rparr>) (om_at owner [] (cm_notifications cm)))
                         (cm_notifications cm)\<rparr>
             in st\<lparr>lo_callbacks := cm', lo_heard := lo_heard st @
                    (case fr_func note of None \<Rightarrow> [] | Some delegate \<Rightarrow> [(delegate, info)])\<rparr>)"

definition fire_lobby_notes :: "int \<Rightarrow> (lobby_callback \<Rightarrow> lobby_callback) \<Rightarrow> sdk_lobby \<Rightarrow> sdk_lobby" where
  "fire_lobby_notes type fill st =
     foldl (\<lambda>s i. fire_lobby_note fill i s) st (notification_ids (lo_owner st) type (lo_callbacks st))"

definition fire_lobby_update :: "string \<Rightarrow> sdk_lobby \<Rightarrow> sdk_lobby" where
  "fire_lobby_update lobby_id = fire_lobby_notes cb_notify_update (\<lambda>info. info\<lparr>lc_lobby_id := Some lobby_id\<rparr>)"

definition fire_member_update :: "string \<Rightarrow> string \<Rightarrow> sdk_lobby \<Rightarrow> sdk_lobby" where
  "fire_member_update lobby_id target =
     fire_lobby_notes cb_notify_member_update (\<lambda>info. info\<lparr>lc_lobby_id := Some lobby_id, lc_target := Some target\<rparr>)"

definition fire_member_status :: "string \<Rightarrow> string \<Rightarrow> i32 \<Rightarrow> sdk_lobby \<Rightarrow> sdk_lobby" where
  "fire_member_status lobby_id target status =
     fire_lobby_notes cb_notify_member_status
       (\<lambda>info. info\<lparr>lc_lobby_id := Some lobby_id, lc_target := handle_of_id target, lc_status := status\<rparr>)"

section \<open>Sending\<close>

text \<open>The router takes the message; who it finds lost leaves the mesh, and we are told of each.\<close>

definition hand_over :: "lost_in_send \<Rightarrow> string \<Rightarrow> message_type \<Rightarrow> bytes \<Rightarrow> sdk_lobby \<Rightarrow> string list \<times> sdk_lobby" where
  "hand_over lost peer type payload st =
     (let envelope = \<lparr>env_type_tag = tag_of type, env_source_id = lo_product_user_id st, env_dest_id = peer,
                      env_game_id = lo_product_id st, env_timestamp = 0, env_payload = payload\<rparr>;
          calls = lo_calls st @ [mesh_send envelope];
          gone = remdups (filter (\<lambda>p. p \<in> set (lo_mesh st)) (lost calls))
      in (gone, st\<lparr>lo_calls := calls, lo_mesh := filter (\<lambda>p. p \<notin> set gone) (lo_mesh st)\<rparr>))"

text \<open>
  The calls: a walk over the members of a lobby by index, whose entry is read again at each step as
  through its reference; the handler of a lost peer, from its start and at a lobby of its snapshot; and
  the notifications it fires.
\<close>

datatype lobby_work =
    w_walk string message_type bytes string nat
  | w_lost string
  | w_scan string "string list"
  | w_status string string i32
  | w_update string

definition walk_infos :: "string \<Rightarrow> sdk_lobby \<Rightarrow> lobby_work list" where
  "walk_infos lobby_id st =
     (case find_lobby lobby_id st of
        None \<Rightarrow> []
      | Some entry \<Rightarrow> [w_walk lobby_id mt_lobby_infos (serialize_lobby_infos (le_infos entry)) [] 0])"

text \<open>What the handler does with one lobby when \<open>peer\<close> is lost: our copy of its own, or one we host.\<close>

definition lose_owner :: "string \<Rightarrow> string \<Rightarrow> lobby_entry \<Rightarrow> sdk_lobby \<Rightarrow> lobby_work list \<times> sdk_lobby" where
  "lose_owner peer lobby_id entry st =
     (let infos = remove_member peer (le_infos entry); heir = heir_of infos peer
      in if heir = [] then ([w_status lobby_id peer lms_closed], erase_lobby lobby_id st)
         else
           let infos' = lobby_recount (infos\<lparr>li_owner_id := heir\<rparr>); ours = (heir = lo_product_user_id st);
               st' = put_lobby lobby_id (entry\<lparr>le_infos := infos',
                       le_local_state := (if ours then lobby_hosting else lobby_joined)\<rparr>) st
           in ((if ours then walk_infos lobby_id st' else []) @
               [w_status lobby_id heir lms_promoted, w_update lobby_id], st'))"

definition lose_member :: "string \<Rightarrow> string \<Rightarrow> lobby_entry \<Rightarrow> sdk_lobby \<Rightarrow> lobby_work list \<times> sdk_lobby" where
  "lose_member peer lobby_id entry st =
     (let st' = put_lobby_infos lobby_id entry (lobby_recount (remove_member peer (le_infos entry))) st
      in (walk_infos lobby_id st' @ [w_status lobby_id peer lms_disconnected], st'))"

definition lose_in :: "string \<Rightarrow> string \<Rightarrow> sdk_lobby \<Rightarrow> lobby_work list \<times> sdk_lobby" where
  "lose_in peer lobby_id st =
     (case find_lobby lobby_id st of
        None \<Rightarrow> ([], st)
      | Some entry \<Rightarrow>
          if le_local_state entry \<noteq> lobby_hosting \<and> li_owner_id (le_infos entry) = peer
          then lose_owner peer lobby_id entry st
          else if le_local_state entry = lobby_hosting \<and> find_member (le_infos entry) peer \<noteq> None
          then lose_member peer lobby_id entry st
          else ([], st))"

fun lobby_work_step :: "lost_in_send \<Rightarrow> lobby_work \<Rightarrow> sdk_lobby \<Rightarrow> lobby_work list \<times> sdk_lobby" where
  "lobby_work_step lost (w_walk lobby_id type payload except i) st =
     (if i < length (members_of lobby_id st)
      then
        let member = members_of lobby_id st ! i; rest = w_walk lobby_id type payload except (Suc i)
        in if member = lo_product_user_id st \<or> member = except then ([rest], st)
           else (case hand_over lost member type payload st of (gone, st') \<Rightarrow> (map w_lost gone @ [rest], st'))
      else ([], st))"
| "lobby_work_step lost (w_lost peer) st =
     (if peer = [] \<or> peer = lo_product_user_id st then ([], st)
      else ([w_scan peer (map fst (lo_lobbies st))], st))"
| "lobby_work_step lost (w_scan peer []) st = ([], st)"
| "lobby_work_step lost (w_scan peer (lobby_id # ids)) st =
     (case lose_in peer lobby_id st of (calls, st') \<Rightarrow> (calls @ [w_scan peer ids], st'))"
| "lobby_work_step lost (w_status lobby_id target status) st = ([], fire_member_status lobby_id target status st)"
| "lobby_work_step lost (w_update lobby_id) st = ([], fire_lobby_update lobby_id st)"

section \<open>The call stack ends\<close>

fun lost_calls :: "lobby_work \<Rightarrow> nat" where
  "lost_calls (w_lost _) = 1"
| "lost_calls _ = 0"

fun scan_length :: "lobby_work \<Rightarrow> nat" where
  "scan_length (w_scan _ ids) = Suc (length ids)"
| "scan_length _ = 0"

fun walk_length :: "sdk_lobby \<Rightarrow> lobby_work \<Rightarrow> nat" where
  "walk_length st (w_walk lobby_id _ _ _ i) = Suc (length (members_of lobby_id st) - i)"
| "walk_length st _ = 0"

lemma fire_note_keeps [simp]:
  "lo_lobbies (fire_lobby_note fill i st) = lo_lobbies st" "lo_mesh (fire_lobby_note fill i st) = lo_mesh st"
  by (simp_all add: fire_lobby_note_def Let_def split: option.split)

lemma fire_notes_keep [simp]:
  "lo_lobbies (fire_lobby_notes type fill st) = lo_lobbies st" "lo_mesh (fire_lobby_notes type fill st) = lo_mesh st"
proof -
  have "lo_lobbies (foldl (\<lambda>s i. fire_lobby_note fill i s) s is) = lo_lobbies s \<and>
      lo_mesh (foldl (\<lambda>s i. fire_lobby_note fill i s) s is) = lo_mesh s" for s "is"
    by (induction "is" arbitrary: s) simp_all
  then show "lo_lobbies (fire_lobby_notes type fill st) = lo_lobbies st"
    "lo_mesh (fire_lobby_notes type fill st) = lo_mesh st"
    by (simp_all add: fire_lobby_notes_def)
qed

lemma lose_in_mesh: "lo_mesh (snd (lose_in peer lobby_id st)) = lo_mesh st"
  by (simp add: lose_in_def lose_owner_def lose_member_def put_lobby_def put_lobby_infos_def erase_lobby_def Let_def
      split: option.split)

lemma lose_in_calls:
  "lost_calls w = 0 \<and> scan_length w = 0" if "w \<in> set (fst (lose_in peer lobby_id st))"
  using that
  by (auto simp: lose_in_def lose_owner_def lose_member_def walk_infos_def Let_def split: option.splits if_splits)

lemma hand_over_mesh:
  assumes "hand_over lost peer type payload st = (gone, st')"
  shows "length (lo_mesh st') \<le> length (lo_mesh st)" "gone \<noteq> [] \<Longrightarrow> length (lo_mesh st') < length (lo_mesh st)"
proof -
  have m: "lo_mesh st' = filter (\<lambda>p. p \<notin> set gone) (lo_mesh st)" and g: "set gone \<subseteq> set (lo_mesh st)"
    using assms by (auto simp: hand_over_def Let_def)
  then show "length (lo_mesh st') \<le> length (lo_mesh st)" by simp
  assume "gone \<noteq> []"
  then obtain p where "p \<in> set gone" by (cases gone) auto
  with g m show "length (lo_mesh st') < length (lo_mesh st)" by (auto intro: length_filter_less)
qed

lemma hand_over_lobbies: "hand_over lost peer type payload st = (gone, st') \<Longrightarrow> lo_lobbies st' = lo_lobbies st"
  by (auto simp: hand_over_def Let_def)

lemma walk_length_same:
  assumes "lo_lobbies st' = lo_lobbies st"
  shows "walk_length st' = walk_length st" "members_of lobby_id st' = members_of lobby_id st"
proof -
  show m: "members_of lobby_id st' = members_of lobby_id st" for lobby_id
    using assms by (simp add: members_of_def find_lobby_def)
  show "walk_length st' = walk_length st"
  proof
    show "walk_length st' w = walk_length st w" for w by (cases w) (simp_all add: m)
  qed
qed

lemma walk_length_fire [simp]: "walk_length (fire_lobby_notes type fill st) = walk_length st"
  by (rule walk_length_same) simp

definition work_order :: "((lost_in_send \<times> lobby_work list \<times> sdk_lobby) \<times> (lost_in_send \<times> lobby_work list \<times> sdk_lobby)) set" where
  "work_order = measures [\<lambda>(lost, ws, st). length (lo_mesh st), \<lambda>(lost, ws, st). sum_list (map lost_calls ws),
     \<lambda>(lost, ws, st). sum_list (map scan_length ws), \<lambda>(lost, ws, st). sum_list (map (walk_length st) ws),
     \<lambda>(lost, ws, st). length ws]"

lemma wf_work_order [intro, simp]: "wf work_order"
  by (simp add: work_order_def)

lemma work_decreases:
  assumes "lobby_work_step lost w st = (calls, st')"
  shows "((lost, calls @ ws, st'), lost, w # ws, st) \<in> work_order"
proof (cases w)
  case (w_walk lobby_id type payload except i)
  show ?thesis
  proof (cases "i < length (members_of lobby_id st) \<and> \<not> (members_of lobby_id st ! i = lo_product_user_id st \<or>
      members_of lobby_id st ! i = except)")
    case True
    obtain gone s where h: "hand_over lost (members_of lobby_id st ! i) type payload st = (gone, s)" by fastforce
    with True assms w_walk have r: "calls = map w_lost gone @ [w_walk lobby_id type payload except (Suc i)]" "st' = s"
      by (auto simp: Let_def)
    note same = walk_length_same [OF hand_over_lobbies [OF h]]
    show ?thesis
    proof (cases "gone = []")
      case True
      then show ?thesis
        using \<open>i < _ \<and> _\<close> w_walk r hand_over_mesh(1) [OF h] by (auto simp: work_order_def same)
    next
      case False
      then show ?thesis using hand_over_mesh(2) [OF h] r by (simp add: work_order_def)
    qed
  next
    case False
    then show ?thesis using assms w_walk by (auto simp: work_order_def Let_def split: if_splits)
  qed
next
  case (w_lost peer)
  then show ?thesis using assms by (auto simp: work_order_def split: if_splits)
next
  case (w_scan peer ids)
  show ?thesis
  proof (cases ids)
    case Nil
    then show ?thesis using w_scan assms by (auto simp: work_order_def)
  next
    case (Cons lobby_id rest)
    obtain c s where l: "lose_in peer lobby_id st = (c, s)" by fastforce
    have none: "sum_list (map lost_calls c) = 0" "sum_list (map scan_length c) = 0"
      using lose_in_calls [of _ peer lobby_id st] by (auto simp: l)
    show ?thesis
      using lose_in_mesh [of peer lobby_id st] none w_scan Cons assms by (auto simp: l work_order_def)
  qed
next
  case (w_status lobby_id target status)
  then show ?thesis using assms by (auto simp: work_order_def fire_member_status_def)
next
  case (w_update lobby_id)
  then show ?thesis using assms by (auto simp: work_order_def fire_lobby_update_def)
qed

function run_lobby_work :: "lost_in_send \<Rightarrow> lobby_work list \<Rightarrow> sdk_lobby \<Rightarrow> sdk_lobby" where
  "run_lobby_work lost [] st = st"
| "run_lobby_work lost (w # ws) st =
     (case lobby_work_step lost w st of (calls, st') \<Rightarrow> run_lobby_work lost (calls @ ws) st')"
  by pat_completeness auto

termination
  by (relation work_order) (auto intro: work_decreases)

declare run_lobby_work.simps(2) [simp del]

end
