(* ===== verification/Lobby_Modify.thy ===== *)
theory Lobby_Modify
  imports Lobby_Mesh Sessions_Modify
begin

text \<open>
  \<^verbatim>\<open>interfaces/lobby.cpp\<close>, third part: what hangs off a handle, that is staged modifications, the
  question of a search, and the details of a lobby found or copied.  The setters of a modification do
  not look at a version; those of a search do.
\<close>

section \<open>Modifications\<close>

text \<open>The struct is the lobby and the local user; a handle is 0 where the caller's pointer stays null.\<close>

definition update_lobby_modification :: "(string option \<times> id_handle) option \<Rightarrow> bool \<Rightarrow> sdk_lobby \<Rightarrow>
    eos_result \<times> u64 \<times> sdk_lobby" where
  "update_lobby_modification options has_out st =
     (if \<not> has_out then (EOS_InvalidParameters, 0, st)
      else
        (case options of
           Some (Some lobby_id, Some user) \<Rightarrow>
             (case find_lobby lobby_id st of
                None \<Rightarrow> (EOS_NotFound, 0, st)
              | Some entry \<Rightarrow>
                  (case hs_add \<lparr>lmo_lobby_id = lobby_id, lmo_local_user = user, lmo_creating = False,
                          lmo_infos = le_infos entry, lmo_member_set = [], lmo_member_deleted = []\<rparr>
                          (lo_handle_counter st) (lo_modifications st) of
                     (h, counter, store) \<Rightarrow>
                       (EOS_Success, h, st\<lparr>lo_handle_counter := counter, lo_modifications := store\<rparr>)))
         | _ \<Rightarrow> (EOS_InvalidParameters, 0, st)))"

definition set_lobby_modification :: "('x \<Rightarrow> lobby_modification_object \<Rightarrow> eos_result + lobby_modification_object) \<Rightarrow>
    u64 \<Rightarrow> 'x option \<Rightarrow> sdk_lobby \<Rightarrow> eos_result \<times> sdk_lobby" where
  "set_lobby_modification write handle options st =
     (case (hs_find handle (lo_modifications st), options) of
        (Some object, Some x) \<Rightarrow>
          (case write x object of
             Inl code \<Rightarrow> (code, st)
           | Inr object' \<Rightarrow> (EOS_Success, st\<lparr>lo_modifications := om_put handle object' (lo_modifications st)\<rparr>))
      | _ \<Rightarrow> (EOS_InvalidParameters, st))"

definition stage_infos :: "('x \<Rightarrow> lobby_infos \<Rightarrow> lobby_infos) \<Rightarrow> 'x \<Rightarrow> lobby_modification_object \<Rightarrow>
    eos_result + lobby_modification_object" where
  "stage_infos write x object = Inr (object\<lparr>lmo_infos := write x (lmo_infos object)\<rparr>)"

definition lobby_mod_set_bucket_id :: "u64 \<Rightarrow> string option option \<Rightarrow> sdk_lobby \<Rightarrow> eos_result \<times> sdk_lobby" where
  "lobby_mod_set_bucket_id = set_lobby_modification (\<lambda>bucket object.
     case bucket of
       None \<Rightarrow> Inl EOS_InvalidParameters
     | Some b \<Rightarrow> stage_infos (\<lambda>b infos. infos\<lparr>li_bucket_id := b\<rparr>) b object)"

definition lobby_mod_set_permission_level :: "u64 \<Rightarrow> i32 option \<Rightarrow> sdk_lobby \<Rightarrow> eos_result \<times> sdk_lobby" where
  "lobby_mod_set_permission_level =
     set_lobby_modification (stage_infos (\<lambda>level infos. infos\<lparr>li_permission_level := level\<rparr>))"

definition lobby_mod_set_max_members :: "u64 \<Rightarrow> u32 option \<Rightarrow> sdk_lobby \<Rightarrow> eos_result \<times> sdk_lobby" where
  "lobby_mod_set_max_members = set_lobby_modification (\<lambda>members object.
     if members = 0 then Inl EOS_InvalidParameters
     else stage_infos (\<lambda>n infos. infos\<lparr>li_max_members := n\<rparr>) members object)"

definition lobby_mod_set_invites_allowed :: "u64 \<Rightarrow> bool option \<Rightarrow> sdk_lobby \<Rightarrow> eos_result \<times> sdk_lobby" where
  "lobby_mod_set_invites_allowed =
     set_lobby_modification (stage_infos (\<lambda>allowed infos. infos\<lparr>li_allow_invites := allowed\<rparr>))"

definition lobby_mod_set_allowed_platform_ids :: "u64 \<Rightarrow> unit option \<Rightarrow> sdk_lobby \<Rightarrow> eos_result" where
  "lobby_mod_set_allowed_platform_ids handle options st =
     (if hs_find handle (lo_modifications st) = None \<or> options = None then EOS_InvalidParameters else EOS_Success)"

text \<open>The struct is the attribute and its visibility.\<close>

definition lobby_mod_add_attribute :: "u64 \<Rightarrow> (attribute_data option \<times> i32) option \<Rightarrow> sdk_lobby \<Rightarrow>
    eos_result \<times> sdk_lobby" where
  "lobby_mod_add_attribute = set_lobby_modification (\<lambda>from object.
     case lobby_read_attribute (fst from) of
       None \<Rightarrow> Inl EOS_InvalidParameters
     | Some attribute \<Rightarrow>
         if max_lobby_attributes \<le> length (li_attributes (lmo_infos object)) \<and>
            find_attribute (li_attributes (lmo_infos object)) (sa_key attribute) = None
         then Inl EOS_LimitExceeded
         else stage_infos (\<lambda>a infos. infos\<lparr>li_attributes := upsert_attribute (li_attributes infos) a\<rparr>)
                (attribute\<lparr>sa_advertisement := snd from\<rparr>) object)"

definition lobby_mod_remove_attribute :: "u64 \<Rightarrow> string option option \<Rightarrow> sdk_lobby \<Rightarrow> eos_result \<times> sdk_lobby" where
  "lobby_mod_remove_attribute = set_lobby_modification (\<lambda>key object.
     case key of
       None \<Rightarrow> Inl EOS_InvalidParameters
     | Some k \<Rightarrow> stage_infos (\<lambda>k infos. infos\<lparr>li_attributes := remove_attribute (li_attributes infos) k\<rparr>) k object)"

definition lobby_mod_add_member_attribute :: "u64 \<Rightarrow> (attribute_data option \<times> i32) option \<Rightarrow> sdk_lobby \<Rightarrow>
    eos_result \<times> sdk_lobby" where
  "lobby_mod_add_member_attribute = set_lobby_modification (\<lambda>from object.
     case lobby_read_attribute (fst from) of
       None \<Rightarrow> Inl EOS_InvalidParameters
     | Some attribute \<Rightarrow>
         Inr (object\<lparr>lmo_member_set := upsert_attribute (lmo_member_set object)
                (attribute\<lparr>sa_advertisement := snd from\<rparr>)\<rparr>))"

definition lobby_mod_remove_member_attribute :: "u64 \<Rightarrow> string option option \<Rightarrow> sdk_lobby \<Rightarrow> eos_result \<times> sdk_lobby" where
  "lobby_mod_remove_member_attribute = set_lobby_modification (\<lambda>key object.
     case key of
       None \<Rightarrow> Inl EOS_InvalidParameters
     | Some k \<Rightarrow> Inr (object\<lparr>lmo_member_deleted := lmo_member_deleted object @ [k]\<rparr>))"

definition lobby_mod_release :: "u64 \<Rightarrow> sdk_lobby \<Rightarrow> sdk_lobby" where
  "lobby_mod_release handle st = st\<lparr>lo_modifications := hs_release handle (lo_modifications st)\<rparr>"

section \<open>Searches\<close>

definition new_lobby_search :: lobby_search where
  "new_lobby_search =
     \<lparr>ls_search_id = [], ls_lobby_id = [], ls_target_user_id = [], ls_max_results = 0, ls_parameters = []\<rparr>"

definition create_lobby_search :: "u32 versioned option \<Rightarrow> bool \<Rightarrow> sdk_lobby \<Rightarrow> eos_result \<times> u64 \<times> sdk_lobby" where
  "create_lobby_search options has_out st =
     (if \<not> has_out then (EOS_InvalidParameters, 0, st)
      else
        (case options of
           None \<Rightarrow> (EOS_InvalidParameters, 0, st)
         | Some (versioned version wanted) \<Rightarrow>
             if \<not> version_ok version 1 then (EOS_InvalidParameters, 0, st)
             else
               (case hs_add \<lparr>lso_query = new_lobby_search, lso_results = [],
                      lso_max_results = (if 0 < wanted then wanted else 1), lso_searching = False,
                      lso_awaiting = [], lso_deadline = 0\<rparr> (lo_handle_counter st) (lo_searches st) of
                  (h, counter, store) \<Rightarrow>
                    (EOS_Success, h, st\<lparr>lo_handle_counter := counter, lo_searches := store\<rparr>))))"

text \<open>A null field is reported before a version we do not know.\<close>

definition set_lobby_search :: "('x \<Rightarrow> bool) \<Rightarrow> ('x \<Rightarrow> lobby_search_object \<Rightarrow> eos_result + lobby_search_object) \<Rightarrow>
    u64 \<Rightarrow> 'x versioned option \<Rightarrow> sdk_lobby \<Rightarrow> eos_result \<times> sdk_lobby" where
  "set_lobby_search present write handle options st =
     (case (hs_find handle (lo_searches st), options) of
        (Some object, Some (versioned version x)) \<Rightarrow>
          if \<not> present x then (EOS_InvalidParameters, st)
          else if \<not> version_ok version 1 then (EOS_IncompatibleVersion, st)
          else
            (case write x object of
               Inl code \<Rightarrow> (code, st)
             | Inr object' \<Rightarrow> (EOS_Success, st\<lparr>lo_searches := om_put handle object' (lo_searches st)\<rparr>))
      | _ \<Rightarrow> (EOS_InvalidParameters, st))"

definition search_set_lobby_id :: "u64 \<Rightarrow> string option versioned option \<Rightarrow> sdk_lobby \<Rightarrow> eos_result \<times> sdk_lobby" where
  "search_set_lobby_id = set_lobby_search (\<lambda>x. x \<noteq> None)
     (\<lambda>lobby_id object. Inr (object\<lparr>lso_query := (lso_query object)\<lparr>ls_lobby_id := text_or_empty lobby_id\<rparr>\<rparr>))"

definition lobby_search_set_target_user :: "u64 \<Rightarrow> id_handle versioned option \<Rightarrow> sdk_lobby \<Rightarrow> eos_result \<times> sdk_lobby" where
  "lobby_search_set_target_user = set_lobby_search (\<lambda>x. x \<noteq> None)
     (\<lambda>user object. Inr (object\<lparr>lso_query := (lso_query object)\<lparr>ls_target_user_id := text_or_empty user\<rparr>\<rparr>))"

definition put_lobby_parameter :: "attribute_data option \<times> i32 \<Rightarrow> lobby_search_object \<Rightarrow> eos_result + lobby_search_object" where
  "put_lobby_parameter from object =
     (case lobby_read_attribute (fst from) of
        None \<Rightarrow> Inl EOS_InvalidParameters
      | Some a \<Rightarrow>
          let parameter = \<lparr>sp_attribute = a, sp_comparison_op = snd from\<rparr>;
              ps = ls_parameters (lso_query object);
              ps' = (case replace_first (\<lambda>p. sa_key (sp_attribute p) = sa_key a \<and> sp_comparison_op p = snd from)
                         parameter ps of
                       Some replaced \<Rightarrow> replaced
                     | None \<Rightarrow> ps @ [parameter])
          in Inr (object\<lparr>lso_query := (lso_query object)\<lparr>ls_parameters := ps'\<rparr>\<rparr>))"

definition lobby_search_set_parameter :: "u64 \<Rightarrow> (attribute_data option \<times> i32) versioned option \<Rightarrow>
    sdk_lobby \<Rightarrow> eos_result \<times> sdk_lobby" where
  "lobby_search_set_parameter = set_lobby_search (\<lambda>x. fst x \<noteq> None) put_lobby_parameter"

definition drop_lobby_parameter :: "string option \<times> i32 \<Rightarrow> lobby_search_object \<Rightarrow> eos_result + lobby_search_object" where
  "drop_lobby_parameter from object =
     (case remove_first (\<lambda>p. Some (sa_key (sp_attribute p)) = fst from \<and> sp_comparison_op p = snd from)
             (ls_parameters (lso_query object)) of
        Some rest \<Rightarrow> Inr (object\<lparr>lso_query := (lso_query object)\<lparr>ls_parameters := rest\<rparr>\<rparr>)
      | None \<Rightarrow> Inl EOS_NotFound)"

definition lobby_search_remove_parameter :: "u64 \<Rightarrow> (string option \<times> i32) versioned option \<Rightarrow>
    sdk_lobby \<Rightarrow> eos_result \<times> sdk_lobby" where
  "lobby_search_remove_parameter = set_lobby_search (\<lambda>x. fst x \<noteq> None) drop_lobby_parameter"

definition lobby_search_set_max_results :: "u64 \<Rightarrow> u32 versioned option \<Rightarrow> sdk_lobby \<Rightarrow> eos_result \<times> sdk_lobby" where
  "lobby_search_set_max_results = set_lobby_search (\<lambda>_. True)
     (\<lambda>wanted object.
        if wanted = 0 \<or> max_lobby_search_results < wanted then Inl EOS_InvalidParameters
        else Inr (object\<lparr>lso_max_results := wanted\<rparr>))"

definition lobby_search_result_count :: "u64 \<Rightarrow> sdk_lobby \<Rightarrow> u32" where
  "lobby_search_result_count handle st =
     (case hs_find handle (lo_searches st) of
        None \<Rightarrow> 0
      | Some object \<Rightarrow> if lso_searching object then 0 else word_of_nat (length (lso_results object)))"

definition add_lobby_details :: "lobby_infos \<Rightarrow> sdk_lobby \<Rightarrow> eos_result \<times> u64 \<times> sdk_lobby" where
  "add_lobby_details infos st =
     (case hs_add \<lparr>ldo_infos = infos\<rparr> (lo_handle_counter st) (lo_details st) of
        (h, counter, store) \<Rightarrow> (EOS_Success, h, st\<lparr>lo_handle_counter := counter, lo_details := store\<rparr>))"

definition lobby_search_copy_result :: "u64 \<Rightarrow> u32 option \<Rightarrow> bool \<Rightarrow> sdk_lobby \<Rightarrow> eos_result \<times> u64 \<times> sdk_lobby" where
  "lobby_search_copy_result handle options has_out st =
     (if \<not> has_out then (EOS_InvalidParameters, 0, st)
      else
        (case (hs_find handle (lo_searches st), options) of
           (Some object, Some index) \<Rightarrow>
             if lso_searching object \<or> length (lso_results object) \<le> unat index then (EOS_InvalidParameters, 0, st)
             else add_lobby_details (lso_results object ! unat index) st
         | _ \<Rightarrow> (EOS_InvalidParameters, 0, st)))"

definition lobby_search_release :: "u64 \<Rightarrow> sdk_lobby \<Rightarrow> sdk_lobby" where
  "lobby_search_release handle st = st\<lparr>lo_searches := hs_release handle (lo_searches st)\<rparr>"

definition copy_lobby_details_handle :: "string option option \<Rightarrow> bool \<Rightarrow> sdk_lobby \<Rightarrow> eos_result \<times> u64 \<times> sdk_lobby" where
  "copy_lobby_details_handle options has_out st =
     (if \<not> has_out then (EOS_InvalidParameters, 0, st)
      else
        (case options of
           Some (Some lobby_id) \<Rightarrow>
             (case find_lobby lobby_id st of
                None \<Rightarrow> (EOS_NotFound, 0, st)
              | Some entry \<Rightarrow> add_lobby_details (le_infos entry) st)
         | _ \<Rightarrow> (EOS_InvalidParameters, 0, st)))"

section \<open>Voice rooms\<close>

text \<open>The result, what is written to the buffer, and the length reported back.\<close>

definition rtc_prefix :: string where "rtc_prefix = ''rtc:''"

definition get_rtc_room_name :: "string option option \<Rightarrow> bool \<Rightarrow> u32 option \<Rightarrow> sdk_lobby \<Rightarrow>
    eos_result \<times> string option \<times> u32 option" where
  "get_rtc_room_name options has_buffer room st =
     (case room of
        None \<Rightarrow> (EOS_InvalidParameters, None, None)
      | Some room_for \<Rightarrow>
          (case options of
             Some (Some lobby_id) \<Rightarrow>
               (case find_lobby lobby_id st of
                  None \<Rightarrow> (EOS_NotFound, None, room)
                | Some entry \<Rightarrow>
                    let name = rtc_prefix @ li_lobby_id (le_infos entry);
                        needed = word_of_nat (length name) + 1
                    in if \<not> has_buffer \<or> room_for < needed then (EOS_LimitExceeded, None, Some needed)
                       else (EOS_Success, Some name, Some needed))
           | _ \<Rightarrow> (EOS_InvalidParameters, None, room)))"

definition is_rtc_room_connected :: "sdk_lobby \<Rightarrow> bool" where
  "is_rtc_room_connected st = False"

section \<open>Details\<close>

definition lobby_details_copy_info :: "u64 \<Rightarrow> bool \<Rightarrow> sdk_lobby \<Rightarrow> eos_result \<times> nat \<times> sdk_lobby" where
  "lobby_details_copy_info handle has_out st =
     (if \<not> has_out then (EOS_InvalidParameters, 0, st)
      else
        (case hs_find handle (lo_details st) of
           None \<Rightarrow> (EOS_InvalidParameters, 0, st)
         | Some object \<Rightarrow>
             let pointer = lo_next_pointer st
             in (EOS_Success, pointer,
                 st\<lparr>lo_details_infos := om_put pointer (fill_lobby_details_info (ldo_infos object)) (lo_details_infos st),
                    lo_next_pointer := Suc pointer\<rparr>)))"

definition details_get_lobby_owner :: "u64 \<Rightarrow> sdk_lobby \<Rightarrow> id_handle" where
  "details_get_lobby_owner handle st =
     (case hs_find handle (lo_details st) of
        None \<Rightarrow> None
      | Some object \<Rightarrow> handle_of_id (li_owner_id (ldo_infos object)))"

definition lobby_emit_attribute :: "session_attribute \<Rightarrow> sdk_lobby \<Rightarrow> eos_result \<times> nat \<times> sdk_lobby" where
  "lobby_emit_attribute from st =
     (let pointer = lo_next_pointer st
      in (EOS_Success, pointer,
          st\<lparr>lo_attributes := om_put pointer \<lparr>lat_data = lobby_write_attribute from, lat_visibility = sa_advertisement from\<rparr>
               (lo_attributes st), lo_next_pointer := Suc pointer\<rparr>))"

definition lobby_details_attribute_count :: "u64 \<Rightarrow> sdk_lobby \<Rightarrow> u32" where
  "lobby_details_attribute_count handle st =
     (case hs_find handle (lo_details st) of
        None \<Rightarrow> 0
      | Some object \<Rightarrow> word_of_nat (length (li_attributes (ldo_infos object))))"

definition lobby_details_copy_attribute_by_index :: "u64 \<Rightarrow> u32 option \<Rightarrow> bool \<Rightarrow> sdk_lobby \<Rightarrow>
    eos_result \<times> nat \<times> sdk_lobby" where
  "lobby_details_copy_attribute_by_index handle options has_out st =
     (if \<not> has_out then (EOS_InvalidParameters, 0, st)
      else
        (case (hs_find handle (lo_details st), options) of
           (Some object, Some index) \<Rightarrow>
             if length (li_attributes (ldo_infos object)) \<le> unat index then (EOS_NotFound, 0, st)
             else lobby_emit_attribute (li_attributes (ldo_infos object) ! unat index) st
         | _ \<Rightarrow> (EOS_InvalidParameters, 0, st)))"

definition lobby_details_copy_attribute_by_key :: "u64 \<Rightarrow> string option option \<Rightarrow> bool \<Rightarrow> sdk_lobby \<Rightarrow>
    eos_result \<times> nat \<times> sdk_lobby" where
  "lobby_details_copy_attribute_by_key handle options has_out st =
     (if \<not> has_out then (EOS_InvalidParameters, 0, st)
      else
        (case (hs_find handle (lo_details st), options) of
           (Some object, Some (Some key)) \<Rightarrow>
             (case find_attribute (li_attributes (ldo_infos object)) key of
                None \<Rightarrow> (EOS_NotFound, 0, st)
              | Some a \<Rightarrow> lobby_emit_attribute a st)
         | _ \<Rightarrow> (EOS_InvalidParameters, 0, st)))"

definition details_member_count :: "u64 \<Rightarrow> sdk_lobby \<Rightarrow> u32" where
  "details_member_count handle st =
     (case hs_find handle (lo_details st) of
        None \<Rightarrow> 0
      | Some object \<Rightarrow> word_of_nat (length (li_members (ldo_infos object))))"

definition details_member_by_index :: "u64 \<Rightarrow> u32 option \<Rightarrow> sdk_lobby \<Rightarrow> id_handle" where
  "details_member_by_index handle options st =
     (case (hs_find handle (lo_details st), options) of
        (Some object, Some index) \<Rightarrow>
          if length (li_members (ldo_infos object)) \<le> unat index then None
          else Some (lm_user_id (li_members (ldo_infos object) ! unat index))
      | _ \<Rightarrow> None)"

text \<open>The member a struct names, in the lobby of the handle.\<close>

definition detailed_member :: "u64 \<Rightarrow> string \<Rightarrow> sdk_lobby \<Rightarrow> lobby_member option option" where
  "detailed_member handle target st =
     map_option (\<lambda>object. find_member (ldo_infos object) target) (hs_find handle (lo_details st))"

definition details_copy_member_info :: "u64 \<Rightarrow> id_handle option \<Rightarrow> bool \<Rightarrow> sdk_lobby \<Rightarrow> eos_result \<times> nat \<times> sdk_lobby" where
  "details_copy_member_info handle options has_out st =
     (if \<not> has_out then (EOS_InvalidParameters, 0, st)
      else
        (case options of
           Some (Some target) \<Rightarrow>
             (case detailed_member handle target st of
                None \<Rightarrow> (EOS_InvalidParameters, 0, st)
              | Some None \<Rightarrow> (EOS_NotFound, 0, st)
              | Some (Some m) \<Rightarrow>
                  let pointer = lo_next_pointer st
                  in (EOS_Success, pointer,
                      st\<lparr>lo_member_infos := om_put pointer \<lparr>lmi_user_id = Some target, lmi_platform = lm_platform m,
                           lmi_allows_crossplay = True\<rparr> (lo_member_infos st), lo_next_pointer := Suc pointer\<rparr>))
         | _ \<Rightarrow> (EOS_InvalidParameters, 0, st)))"

definition details_member_attribute_count :: "u64 \<Rightarrow> id_handle option \<Rightarrow> sdk_lobby \<Rightarrow> u32" where
  "details_member_attribute_count handle options st =
     (case options of
        Some (Some target) \<Rightarrow>
          (case detailed_member handle target st of
             Some (Some m) \<Rightarrow> word_of_nat (length (lm_attributes m))
           | _ \<Rightarrow> 0)
      | _ \<Rightarrow> 0)"

definition details_copy_member_attribute_by_index :: "u64 \<Rightarrow> (id_handle \<times> u32) option \<Rightarrow> bool \<Rightarrow> sdk_lobby \<Rightarrow>
    eos_result \<times> nat \<times> sdk_lobby" where
  "details_copy_member_attribute_by_index handle options has_out st =
     (if \<not> has_out then (EOS_InvalidParameters, 0, st)
      else
        (case options of
           Some (Some target, index) \<Rightarrow>
             (case detailed_member handle target st of
                None \<Rightarrow> (EOS_InvalidParameters, 0, st)
              | Some None \<Rightarrow> (EOS_NotFound, 0, st)
              | Some (Some m) \<Rightarrow>
                  if length (lm_attributes m) \<le> unat index then (EOS_NotFound, 0, st)
                  else lobby_emit_attribute (lm_attributes m ! unat index) st)
         | _ \<Rightarrow> (EOS_InvalidParameters, 0, st)))"

definition details_copy_member_attribute_by_key :: "u64 \<Rightarrow> (id_handle \<times> string option) option \<Rightarrow> bool \<Rightarrow> sdk_lobby \<Rightarrow>
    eos_result \<times> nat \<times> sdk_lobby" where
  "details_copy_member_attribute_by_key handle options has_out st =
     (if \<not> has_out then (EOS_InvalidParameters, 0, st)
      else
        (case options of
           Some (Some target, Some key) \<Rightarrow>
             (case detailed_member handle target st of
                None \<Rightarrow> (EOS_InvalidParameters, 0, st)
              | Some None \<Rightarrow> (EOS_NotFound, 0, st)
              | Some (Some m) \<Rightarrow>
                  (case find_attribute (lm_attributes m) key of
                     None \<Rightarrow> (EOS_NotFound, 0, st)
                   | Some a \<Rightarrow> lobby_emit_attribute a st))
         | _ \<Rightarrow> (EOS_InvalidParameters, 0, st)))"

definition lobby_details_release :: "u64 \<Rightarrow> sdk_lobby \<Rightarrow> sdk_lobby" where
  "lobby_details_release handle st = st\<lparr>lo_details := hs_release handle (lo_details st)\<rparr>"

text \<open>The structs a game gives back; a pointer never issued is ignored.\<close>

definition release_lobby_details_info :: "nat \<Rightarrow> sdk_lobby \<Rightarrow> sdk_lobby" where
  "release_lobby_details_info info st = st\<lparr>lo_details_infos := om_erase info (lo_details_infos st)\<rparr>"

definition release_lobby_details_member_info :: "nat \<Rightarrow> sdk_lobby \<Rightarrow> sdk_lobby" where
  "release_lobby_details_member_info info st = st\<lparr>lo_member_infos := om_erase info (lo_member_infos st)\<rparr>"

definition release_lobby_attribute :: "nat \<Rightarrow> sdk_lobby \<Rightarrow> sdk_lobby" where
  "release_lobby_attribute attribute st = st\<lparr>lo_attributes := om_erase attribute (lo_attributes st)\<rparr>"

end
