(* ===== verification/Lobby_Lifecycle.thy ===== *)
theory Lobby_Lifecycle
  imports Lobby_Modify Sessions_Search
begin

text \<open>
  \<^verbatim>\<open>interfaces/lobby.cpp\<close>, fourth part: creating, leaving and changing a lobby, its owner's authority over
  the members, joining, and asking the mesh.  \<open>now\<close> is the clock when the call is made, \<open>random\<close> what the
  platform's random source answers, and \<open>lost\<close> the peers each send turns out to have lost.
\<close>

section \<open>Sending\<close>

definition lobby_send_to :: "lost_in_send \<Rightarrow> string \<Rightarrow> message_type \<Rightarrow> bytes \<Rightarrow> sdk_lobby \<Rightarrow> sdk_lobby" where
  "lobby_send_to lost peer type payload st =
     (case hand_over lost peer type payload st of (gone, st') \<Rightarrow> run_lobby_work lost (map w_lost gone) st')"

definition broadcast_to_members :: "lost_in_send \<Rightarrow> string \<Rightarrow> message_type \<Rightarrow> bytes \<Rightarrow> string \<Rightarrow> sdk_lobby \<Rightarrow> sdk_lobby" where
  "broadcast_to_members lost lobby_id type payload except st =
     run_lobby_work lost [w_walk lobby_id type payload except 0] st"

definition broadcast_lobby :: "lost_in_send \<Rightarrow> string \<Rightarrow> sdk_lobby \<Rightarrow> sdk_lobby" where
  "broadcast_lobby lost lobby_id st = run_lobby_work lost (walk_infos lobby_id st) st"

definition close_hosted_lobby :: "lost_in_send \<Rightarrow> string \<Rightarrow> lobby_entry \<Rightarrow> sdk_lobby \<Rightarrow> sdk_lobby" where
  "close_hosted_lobby lost lobby_id entry st =
     (let infos = le_infos entry; me = lo_product_user_id st; heir = heir_of infos me
      in if heir = []
         then broadcast_to_members lost lobby_id mt_lobby_destroy
                (serialize_lobby_destroy \<lparr>ld_lobby_id = li_lobby_id infos, ld_reason = lms_closed\<rparr>) [] st
         else broadcast_lobby lost lobby_id
                (put_lobby_infos lobby_id entry (lobby_recount (remove_member me (infos\<lparr>li_owner_id := heir\<rparr>))) st))"

section \<open>Creating\<close>

definition lobby_id_digits :: string where "lobby_id_digits = ''0123456789abcdef''"

definition generate_lobby_id :: "bytes option \<Rightarrow> string" where
  "generate_lobby_id random =
     (case random of
        None \<Rightarrow> []
      | Some bs \<Rightarrow> concat (map (\<lambda>b. [lobby_id_digits ! unat (drop_bit 4 b AND 0xf), lobby_id_digits ! unat (b AND 0xf)]) bs))"

record create_lobby_options =
  clo_local_user_id :: id_handle
  clo_max_lobby_members :: u32
  clo_permission_level :: i32
  clo_allow_invites :: bool
  clo_bucket_id :: "string option"
  clo_disable_host_migration :: bool
  clo_enable_rtc_room :: bool
  clo_lobby_id :: "string option"
  clo_enable_join_by_id :: bool

text \<open>A field the caller's version does not have is not read; what stands in for it is what the SDK did then.\<close>

definition created_lobby :: "int \<Rightarrow> create_lobby_options \<Rightarrow> string \<Rightarrow> string \<Rightarrow> lobby_entry" where
  "created_lobby version options user lobby_id =
     \<lparr>le_infos = lobby_recount (new_lobby_infos\<lparr>
          li_lobby_id := lobby_id, li_owner_id := user,
          li_bucket_id := (if createlobby_with_bucket_id \<le> version then text_or_empty (clo_bucket_id options) else []),
          li_permission_level := clo_permission_level options, li_max_members := clo_max_lobby_members options,
          li_allow_invites := (version < createlobby_with_allow_invites \<or> clo_allow_invites options),
          li_allow_host_migration := (version < createlobby_with_disable_host_migration \<or>
            \<not> clo_disable_host_migration options),
          li_allow_join_by_id := (createlobby_with_join_by_id \<le> version \<and> clo_enable_join_by_id options),
          li_rtc_enabled := (createlobby_with_rtc_room \<le> version \<and> clo_enable_rtc_room options),
          li_members := [new_lobby_member user]\<rparr>),
      le_local_user = user, le_local_state = lobby_hosting\<rparr>"

definition create_lobby :: "bytes option \<Rightarrow> msec \<Rightarrow> create_lobby_options versioned option \<Rightarrow> nat \<Rightarrow> nat option \<Rightarrow>
    sdk_lobby \<Rightarrow> sdk_lobby" where
  "create_lobby random now options client_data delegate st =
     (case delegate of
        None \<Rightarrow> st
      | Some d \<Rightarrow>
          (case options of
             Some (versioned version o') \<Rightarrow>
               (case clo_local_user_id o' of
                  Some user \<Rightarrow>
                    if \<not> version_ok version 10 \<or> clo_max_lobby_members o' = 0
                    then deliver_id now cb_lobby_create d client_data EOS_InvalidParameters [] st
                    else
                      let requested = (if createlobby_with_lobby_id \<le> version then clo_lobby_id o' else None);
                          lobby_id = (case requested of Some i \<Rightarrow> i | None \<Rightarrow> generate_lobby_id random)
                      in if lobby_id = [] then deliver_id now cb_lobby_create d client_data EOS_UnexpectedError [] st
                         else if find_lobby lobby_id st \<noteq> None
                         then deliver_id now cb_lobby_create d client_data EOS_Lobby_PresenceLobbyExists lobby_id st
                         else deliver_id now cb_lobby_create d client_data EOS_Success lobby_id
                                (put_lobby lobby_id (created_lobby version o' user lobby_id) st)
                | None \<Rightarrow> deliver_id now cb_lobby_create d client_data EOS_InvalidParameters [] st)
           | None \<Rightarrow> deliver_id now cb_lobby_create d client_data EOS_InvalidParameters [] st))"

section \<open>Leaving\<close>

text \<open>Closing the lobby we host, or giving our seat back in one we joined; our copy goes either way.\<close>

definition give_up_lobby :: "lost_in_send \<Rightarrow> string \<Rightarrow> lobby_entry \<Rightarrow> sdk_lobby \<Rightarrow> sdk_lobby" where
  "give_up_lobby lost lobby_id entry st =
     erase_lobby lobby_id
       (if le_local_state entry = lobby_hosting then close_hosted_lobby lost lobby_id entry st
        else lobby_send_to lost (li_owner_id (le_infos entry)) lobby_leave
               (serialize_lobby_member_update
                  \<lparr>lmu_lobby_id = lobby_id, lmu_member = new_lobby_member (lo_product_user_id st)\<rparr>) st)"

definition destroy_or_leave :: "int \<Rightarrow> lost_in_send \<Rightarrow> msec \<Rightarrow> (string option \<times> id_handle) option \<Rightarrow> nat \<Rightarrow> nat option \<Rightarrow>
    sdk_lobby \<Rightarrow> sdk_lobby" where
  "destroy_or_leave type lost now options client_data delegate st =
     (case delegate of
        None \<Rightarrow> st
      | Some d \<Rightarrow>
          (case options of
             Some (Some lobby_id, Some user) \<Rightarrow>
               (case find_lobby lobby_id st of
                  None \<Rightarrow> deliver_id now type d client_data EOS_NotFound lobby_id st
                | Some entry \<Rightarrow>
                    deliver_id now type d client_data EOS_Success lobby_id (give_up_lobby lost lobby_id entry st))
           | _ \<Rightarrow> deliver_id now type d client_data EOS_InvalidParameters [] st))"

definition destroy_lobby :: "lost_in_send \<Rightarrow> msec \<Rightarrow> (string option \<times> id_handle) option \<Rightarrow> nat \<Rightarrow> nat option \<Rightarrow>
    sdk_lobby \<Rightarrow> sdk_lobby" where
  "destroy_lobby = destroy_or_leave cb_lobby_destroy"

definition leave_lobby :: "lost_in_send \<Rightarrow> msec \<Rightarrow> (string option \<times> id_handle) option \<Rightarrow> nat \<Rightarrow> nat option \<Rightarrow>
    sdk_lobby \<Rightarrow> sdk_lobby" where
  "leave_lobby = destroy_or_leave cb_lobby_leave"

section \<open>Changing\<close>

text \<open>Lobby-wide settings are the owner's; a member's own attributes are its own.\<close>

definition update_settings :: "lobby_infos \<Rightarrow> lobby_infos \<Rightarrow> lobby_infos" where
  "update_settings staged infos =
     infos\<lparr>li_bucket_id := li_bucket_id staged, li_permission_level := li_permission_level staged,
       li_max_members := li_max_members staged, li_allow_invites := li_allow_invites staged,
       li_attributes := li_attributes staged\<rparr>"

definition change_member :: "string \<Rightarrow> (lobby_member \<Rightarrow> lobby_member) \<Rightarrow> lobby_infos \<Rightarrow> lobby_infos" where
  "change_member user_id change infos =
     infos\<lparr>li_members := (case replace_first (\<lambda>m. lm_user_id m = user_id)
         (change (case find_member infos user_id of None \<Rightarrow> new_lobby_member user_id | Some m \<Rightarrow> m)) (li_members infos) of
       None \<Rightarrow> li_members infos | Some ms \<Rightarrow> ms)\<rparr>"

definition update_attributes :: "lobby_modification_object \<Rightarrow> lobby_member \<Rightarrow> lobby_member" where
  "update_attributes object m =
     m\<lparr>lm_attributes := foldl upsert_attribute (foldl remove_attribute (lm_attributes m) (lmo_member_deleted object))
         (lmo_member_set object)\<rparr>"

definition updated_infos :: "string \<Rightarrow> lobby_modification_object \<Rightarrow> lobby_infos \<Rightarrow> lobby_infos" where
  "updated_infos me object infos =
     lobby_recount (change_member me (update_attributes object)
       (if li_owner_id infos = me then update_settings (lmo_infos object) infos else infos))"

definition update_lobby :: "lost_in_send \<Rightarrow> msec \<Rightarrow> u64 versioned option \<Rightarrow> nat \<Rightarrow> nat option \<Rightarrow> sdk_lobby \<Rightarrow> sdk_lobby" where
  "update_lobby lost now options client_data delegate st =
     (case delegate of
        None \<Rightarrow> st
      | Some d \<Rightarrow>
          (case options of
             None \<Rightarrow> deliver_id now cb_lobby_update d client_data EOS_InvalidParameters [] st
           | Some (versioned version handle) \<Rightarrow>
               (case hs_find handle (lo_modifications st) of
                  None \<Rightarrow> deliver_id now cb_lobby_update d client_data EOS_InvalidParameters [] st
                | Some object \<Rightarrow>
                    if \<not> version_ok version 1
                    then deliver_id now cb_lobby_update d client_data EOS_InvalidParameters [] st
                    else
                      (case find_lobby (lmo_lobby_id object) st of
                         None \<Rightarrow> deliver_id now cb_lobby_update d client_data EOS_NotFound (lmo_lobby_id object) st
                       | Some entry \<Rightarrow>
                           let me = lo_product_user_id st;
                               infos = updated_infos me object (le_infos entry);
                               st1 = put_lobby_infos (lmo_lobby_id object) entry infos st;
                               st2 = (if li_owner_id (le_infos entry) = me
                                      then broadcast_lobby lost (lmo_lobby_id object) st1
                                      else lobby_send_to lost (li_owner_id infos) mt_lobby_member_update
                                             (serialize_lobby_member_update \<lparr>lmu_lobby_id = li_lobby_id infos,
                                                lmu_member = (case find_member infos me of None \<Rightarrow> new_lobby_member me
                                                              | Some m \<Rightarrow> m)\<rparr>) st1)
                           in deliver_id now cb_lobby_update d client_data EOS_Success (li_lobby_id infos) st2))))"

section \<open>The owner's authority\<close>

text \<open>The lobby, the local user and the member an option struct names.\<close>

type_synonym member_options = "(string option \<times> id_handle \<times> id_handle) option"

definition promote_member :: "lost_in_send \<Rightarrow> msec \<Rightarrow> member_options \<Rightarrow> nat \<Rightarrow> nat option \<Rightarrow> sdk_lobby \<Rightarrow> sdk_lobby" where
  "promote_member lost now options client_data delegate st =
     (case delegate of
        None \<Rightarrow> st
      | Some d \<Rightarrow>
          (case options of
             Some (Some lobby_id, Some user, Some target) \<Rightarrow>
               (case find_lobby lobby_id st of
                  None \<Rightarrow> deliver_id now cb_lobby_promote d client_data EOS_NotFound lobby_id st
                | Some entry \<Rightarrow>
                    if le_local_state entry \<noteq> lobby_hosting
                    then deliver_id now cb_lobby_promote d client_data EOS_Lobby_NotOwner lobby_id st
                    else if find_member (le_infos entry) target = None
                    then deliver_id now cb_lobby_promote d client_data EOS_NotFound lobby_id st
                    else
                      let st1 = put_lobby lobby_id (entry\<lparr>le_infos := (le_infos entry)\<lparr>li_owner_id := target\<rparr>,
                                  le_local_state := lobby_joined\<rparr>) st
                      in deliver_id now cb_lobby_promote d client_data EOS_Success lobby_id
                           (fire_member_status lobby_id target lms_promoted (broadcast_lobby lost lobby_id st1)))
           | _ \<Rightarrow> deliver_id now cb_lobby_promote d client_data EOS_InvalidParameters [] st))"

definition kick_member :: "lost_in_send \<Rightarrow> msec \<Rightarrow> member_options \<Rightarrow> nat \<Rightarrow> nat option \<Rightarrow> sdk_lobby \<Rightarrow> sdk_lobby" where
  "kick_member lost now options client_data delegate st =
     (case delegate of
        None \<Rightarrow> st
      | Some d \<Rightarrow>
          (case options of
             Some (Some lobby_id, Some user, Some target) \<Rightarrow>
               (case find_lobby lobby_id st of
                  None \<Rightarrow> deliver_id now cb_lobby_kick d client_data EOS_NotFound lobby_id st
                | Some entry \<Rightarrow>
                    if le_local_state entry \<noteq> lobby_hosting
                    then deliver_id now cb_lobby_kick d client_data EOS_Lobby_NotOwner lobby_id st
                    else if target = li_owner_id (le_infos entry) \<or> find_member (le_infos entry) target = None
                    then deliver_id now cb_lobby_kick d client_data EOS_InvalidParameters lobby_id st
                    else
                      let st1 = put_lobby_infos lobby_id entry (lobby_recount (remove_member target (le_infos entry))) st;
                          st2 = lobby_send_to lost target mt_lobby_destroy
                                  (serialize_lobby_destroy \<lparr>ld_lobby_id = lobby_id, ld_reason = lms_kicked\<rparr>) st1
                      in deliver_id now cb_lobby_kick d client_data EOS_Success lobby_id
                           (fire_member_status lobby_id target lms_kicked (broadcast_lobby lost lobby_id st2)))
           | _ \<Rightarrow> deliver_id now cb_lobby_kick d client_data EOS_InvalidParameters [] st))"

section \<open>Joining\<close>

text \<open>The optimistic copy and the result that waits for the host.\<close>

definition begin_join :: "msec \<Rightarrow> string \<Rightarrow> lobby_infos \<Rightarrow> nat \<Rightarrow> nat \<Rightarrow> sdk_lobby \<Rightarrow> sdk_lobby" where
  "begin_join now user infos client_data d st =
     (let lobby_id = li_lobby_id infos;
          st1 = put_lobby lobby_id \<lparr>le_infos = infos, le_local_user = user, le_local_state = lobby_joining\<rparr> st;
          raw = lo_next_result st1;
          st2 = queue_lobby_result now cb_lobby_join (empty_lobby_callback\<lparr>lc_client_data := client_data,
                  lc_lobby_id := Some lobby_id\<rparr>) d False st1
      in st2\<lparr>lo_pending_joins := om_put raw \<lparr>lpj_lobby_id = lobby_id, lpj_deadline = now + lobby_join_timeout\<rparr>
               (lo_pending_joins st2)\<rparr>)"

definition join_request_payload :: "bool \<Rightarrow> string \<Rightarrow> string \<Rightarrow> bytes" where
  "join_request_payload by_id lobby_id user =
     serialize_lobby_join_request \<lparr>ljq_lobby_id = lobby_id, ljq_by_id = by_id, ljq_member = new_lobby_member user\<rparr>"

text \<open>The struct is the handle of the details and the local user.\<close>

definition join_lobby :: "lost_in_send \<Rightarrow> sdk_connect \<Rightarrow> msec \<Rightarrow> (u64 \<times> id_handle) option \<Rightarrow> nat \<Rightarrow> nat option \<Rightarrow>
    sdk_lobby \<Rightarrow> sdk_lobby" where
  "join_lobby lost connect now options client_data delegate st =
     (case delegate of
        None \<Rightarrow> st
      | Some d \<Rightarrow>
          (case options of
             Some (handle, Some user) \<Rightarrow>
               (case hs_find handle (lo_details st) of
                  None \<Rightarrow> deliver_id now cb_lobby_join d client_data EOS_InvalidParameters [] st
                | Some details \<Rightarrow>
                    let target = ldo_infos details
                    in if find_lobby (li_lobby_id target) st \<noteq> None
                       then deliver_id now cb_lobby_join d client_data EOS_Lobby_PresenceLobbyExists (li_lobby_id target) st
                       else if \<not> is_known_peer (li_owner_id target) connect
                       then deliver_id now cb_lobby_join d client_data EOS_Lobby_NotOwner (li_lobby_id target) st
                       else lobby_send_to lost (li_owner_id target) mt_lobby_join_request
                              (join_request_payload False (li_lobby_id target) user)
                              (begin_join now user target client_data d st))
           | _ \<Rightarrow> deliver_id now cb_lobby_join d client_data EOS_InvalidParameters [] st))"

fun send_each :: "lost_in_send \<Rightarrow> message_type \<Rightarrow> bytes \<Rightarrow> string list \<Rightarrow> sdk_lobby \<Rightarrow> sdk_lobby" where
  "send_each lost type payload [] st = st"
| "send_each lost type payload (p # peers) st =
     send_each lost type payload peers (lobby_send_to lost p type payload st)"

definition join_lobby_by_id :: "lost_in_send \<Rightarrow> msec \<Rightarrow> (string option \<times> id_handle) option \<Rightarrow> nat \<Rightarrow> nat option \<Rightarrow>
    sdk_lobby \<Rightarrow> sdk_lobby" where
  "join_lobby_by_id lost now options client_data delegate st =
     (case delegate of
        None \<Rightarrow> st
      | Some d \<Rightarrow>
          (case options of
             Some (Some lobby_id, Some user) \<Rightarrow>
               if find_lobby lobby_id st \<noteq> None
               then deliver_id now cb_lobby_join d client_data EOS_Lobby_PresenceLobbyExists lobby_id st
               else
                 let st1 = begin_join now user (new_lobby_infos\<lparr>li_lobby_id := lobby_id\<rparr>) client_data d st
                 in send_each lost mt_lobby_join_request (join_request_payload True lobby_id user) (lo_mesh st1) st1
           | _ \<Rightarrow> deliver_id now cb_lobby_join d client_data EOS_InvalidParameters [] st))"

section \<open>Searching\<close>

definition local_lobbies :: "nat \<Rightarrow> lobby_search \<Rightarrow> sdk_lobby \<Rightarrow> lobby_infos list" where
  "local_lobbies limit query st =
     take limit (map (\<lambda>e. le_infos (snd e))
       (filter (\<lambda>e. le_local_state (snd e) = lobby_hosting \<and> lobby_matches (le_infos (snd e)) query) (lo_lobbies st)))"

definition asked_lobby_peers :: "lobby_search \<Rightarrow> string list \<Rightarrow> string list" where
  "asked_lobby_peers query peers =
     filter (\<lambda>p. \<not> (ls_target_user_id query \<noteq> [] \<and> p \<noteq> ls_target_user_id query)) peers"

text \<open>Exactly one way to ask: an id, a player, or parameters.\<close>

definition search_modes :: "lobby_search \<Rightarrow> nat" where
  "search_modes query =
     of_bool (ls_lobby_id query \<noteq> []) + of_bool (ls_target_user_id query \<noteq> []) + of_bool (ls_parameters query \<noteq> [])"

definition begin_lobby_find :: "lost_in_send \<Rightarrow> msec \<Rightarrow> u64 \<Rightarrow> lobby_search_object \<Rightarrow> nat \<Rightarrow> nat \<Rightarrow> sdk_lobby \<Rightarrow> sdk_lobby" where
  "begin_lobby_find lost now handle object client_data d st =
     (let query = (lso_query object)\<lparr>ls_search_id := decimal (unat (lo_next_search_id st)),
                    ls_max_results := lso_max_results object\<rparr>;
          st1 = st\<lparr>lo_next_search_id := lo_next_search_id st + 1\<rparr>;
          results = local_lobbies (unat (lso_max_results object)) query st1;
          asked = asked_lobby_peers query (lo_mesh st1);
          st2 = send_each lost mt_lobby_search (serialize_lobby_search query) asked st1;
          object' = object\<lparr>lso_query := query, lso_results := results, lso_searching := True,
                      lso_awaiting := foldl (\<lambda>awaiting p. set_insert p awaiting) [] asked,
                      lso_deadline := now + lobby_search_timeout\<rparr>;
          st3 = st2\<lparr>lo_searches := om_put handle object' (lo_searches st2)\<rparr>;
          raw = lo_next_result st3;
          st4 = queue_lobby_result now cb_lobby_find (empty_lobby_callback\<lparr>lc_result_code := result_number EOS_Success,
                  lc_client_data := client_data\<rparr>) d False st3
      in st4\<lparr>lo_pending_finds := om_put raw handle (lo_pending_finds st4)\<rparr>)"

definition lobby_search_find :: "lost_in_send \<Rightarrow> msec \<Rightarrow> u64 \<Rightarrow> id_handle option \<Rightarrow> nat \<Rightarrow> nat option \<Rightarrow> sdk_lobby \<Rightarrow> sdk_lobby" where
  "lobby_search_find lost now handle options client_data delegate st =
     (case delegate of
        None \<Rightarrow> st
      | Some d \<Rightarrow>
          (case (hs_find handle (lo_searches st), options) of
             (Some object, Some (Some user)) \<Rightarrow>
               if search_modes (lso_query object) \<noteq> 1
               then deliver_result now cb_lobby_find d client_data EOS_InvalidParameters st
               else if lso_searching object
               then deliver_result now cb_lobby_find d client_data EOS_AlreadyPending st
               else begin_lobby_find lost now handle object client_data d st
           | _ \<Rightarrow> deliver_result now cb_lobby_find d client_data EOS_InvalidParameters st))"

end
