(* ===== verification/Lobby_Network.thy ===== *)
theory Lobby_Network
  imports Lobby_Lifecycle
begin

text \<open>
  \<^verbatim>\<open>interfaces/lobby.cpp\<close>, last part: what the interface makes of each message from the mesh, and what a
  tick makes of the results that wait.  Who is a known peer is asked of \<^theory_text>\<open>Connect\<close>.
\<close>

section \<open>Searches and answers\<close>

definition on_lobby_search :: "lost_in_send \<Rightarrow> string \<Rightarrow> lobby_search \<Rightarrow> sdk_lobby \<Rightarrow> sdk_lobby" where
  "on_lobby_search lost source query st =
     lobby_send_to lost source mt_lobby_search_response
       (serialize_lobby_search_response \<lparr>lsr_search_id = ls_search_id query,
          lsr_lobbies = map (\<lambda>e. le_infos (snd e)) (filter (\<lambda>e. le_local_state (snd e) = lobby_hosting \<and>
            lobby_matches (le_infos (snd e)) query) (lo_lobbies st))\<rparr>) st"

text \<open>What an answer adds: the lobbies its sender owns that do match, as far as there is room.\<close>

fun take_lobbies :: "nat \<Rightarrow> string \<Rightarrow> lobby_search \<Rightarrow> lobby_infos list \<Rightarrow> lobby_infos list \<Rightarrow> lobby_infos list" where
  "take_lobbies limit source query [] results = results"
| "take_lobbies limit source query (infos # answer) results =
     (if limit \<le> length results then results
      else take_lobbies limit source query answer
        (if li_owner_id infos \<noteq> source then results
         else if lobby_matches infos query then results @ [infos] else results))"

definition answer_lobby_search :: "string \<Rightarrow> lobby_search_response \<Rightarrow> u64 \<Rightarrow> sdk_lobby \<Rightarrow> sdk_lobby" where
  "answer_lobby_search source answer handle st =
     (case hs_find handle (lo_searches st) of
        None \<Rightarrow> st
      | Some object \<Rightarrow>
          if \<not> lso_searching object \<or> ls_search_id (lso_query object) \<noteq> lsr_search_id answer then st
          else if source \<notin> set (lso_awaiting object) then st
          else st\<lparr>lo_searches := om_put handle
                 (object\<lparr>lso_awaiting := removeAll source (lso_awaiting object),
                    lso_results := take_lobbies (unat (lso_max_results object)) source (lso_query object)
                      (lsr_lobbies answer) (lso_results object)\<rparr>) (lo_searches st)\<rparr>)"

definition on_lobby_search_response :: "string \<Rightarrow> lobby_search_response \<Rightarrow> sdk_lobby \<Rightarrow> sdk_lobby" where
  "on_lobby_search_response source answer st =
     foldl (\<lambda>s handle. answer_lobby_search source answer handle s) st (map snd (lo_pending_finds st))"

section \<open>Joins\<close>

definition judge_lobby_join :: "sdk_connect \<Rightarrow> string \<Rightarrow> lobby_join_request \<Rightarrow> lobby_infos \<Rightarrow> eos_result \<times> lobby_infos" where
  "judge_lobby_join connect source request infos =
     (if \<not> is_known_peer source connect then (EOS_Lobby_NotOwner, infos)
      else if ljq_by_id request \<and> \<not> li_allow_join_by_id infos then (EOS_Lobby_NotAllowed, infos)
      else if find_member infos source \<noteq> None then (EOS_Success, infos)
      else if unat (li_max_members infos) \<le> length (li_members infos) then (EOS_Lobby_TooManyPlayers, infos)
      else (EOS_Success,
        lobby_recount (infos\<lparr>li_members := li_members infos @ [(ljq_member request)\<lparr>lm_user_id := source\<rparr>]\<rparr>)))"

definition on_lobby_join_request :: "lost_in_send \<Rightarrow> sdk_connect \<Rightarrow> string \<Rightarrow> lobby_join_request \<Rightarrow> sdk_lobby \<Rightarrow> sdk_lobby" where
  "on_lobby_join_request lost connect source request st =
     (let lobby_id = ljq_lobby_id request
      in case find_lobby lobby_id st of
           None \<Rightarrow> st
         | Some entry \<Rightarrow>
             if le_local_state entry \<noteq> lobby_hosting then st
             else
               (case judge_lobby_join connect source request (le_infos entry) of
                  (verdict, infos) \<Rightarrow>
                    let st1 = put_lobby_infos lobby_id entry infos st;
                        st2 = lobby_send_to lost source mt_lobby_join_response
                                (serialize_lobby_join_response \<lparr>ljr_lobby_id = lobby_id, ljr_player_id = source,
                                   ljr_reason = result_number verdict\<rparr>) st1
                    in if verdict = EOS_Success
                       then fire_member_status (li_lobby_id infos) source lms_joined (broadcast_lobby lost lobby_id st2)
                       else st2))"

text \<open>The first join that waits for this lobby, in the order of their results.\<close>

definition waiting_lobby_join :: "string \<Rightarrow> sdk_lobby \<Rightarrow> nat option" where
  "waiting_lobby_join lobby_id st =
     map_option fst (List.find (\<lambda>e. lpj_lobby_id (snd e) = lobby_id) (lo_pending_joins st))"

definition settle_lobby_result :: "nat \<Rightarrow> i32 \<Rightarrow> sdk_lobby \<Rightarrow> sdk_lobby" where
  "settle_lobby_result res code st =
     (let settle = map (\<lambda>(i, r). (i, if i = res
            then r\<lparr>fr_payload := (fr_payload r)\<lparr>lc_result_code := code\<rparr>, fr_done := True\<rparr> else r))
      in st\<lparr>lo_results := settle (lo_results st), lo_ready := settle (lo_ready st)\<rparr>)"

text \<open>The owner pronounces, or whoever answers first where a join by id does not know the owner yet.\<close>

definition on_lobby_join_response :: "string \<Rightarrow> lobby_join_response \<Rightarrow> sdk_lobby \<Rightarrow> sdk_lobby" where
  "on_lobby_join_response source answer st =
     (let lobby_id = ljr_lobby_id answer
      in case find_lobby lobby_id st of
           None \<Rightarrow> st
         | Some entry \<Rightarrow>
             if li_owner_id (le_infos entry) \<noteq> [] \<and> li_owner_id (le_infos entry) \<noteq> source then st
             else if ljr_player_id answer \<noteq> lo_product_user_id st then st
             else
               (case waiting_lobby_join lobby_id st of
                  None \<Rightarrow> st
                | Some res \<Rightarrow>
                    let st1 = settle_lobby_result res (ljr_reason answer) st
                    in if ljr_reason answer = result_number EOS_Success
                       then put_lobby lobby_id (entry\<lparr>le_infos := (le_infos entry)\<lparr>li_owner_id := source\<rparr>,
                              le_local_state := lobby_joined\<rparr>) st1
                       else if le_local_state entry = lobby_joining then erase_lobby lobby_id st1 else st1))"

section \<open>News of a lobby\<close>

text \<open>What changed in the roster is told, in its order: who joined or changed, who left, who owns it.\<close>

definition tell_of_members :: "string \<Rightarrow> lobby_infos \<Rightarrow> lobby_member \<Rightarrow> sdk_lobby \<Rightarrow> sdk_lobby" where
  "tell_of_members lobby_id previous m st =
     (case find_member previous (lm_user_id m) of
        None \<Rightarrow> fire_member_status lobby_id (lm_user_id m) lms_joined st
      | Some was \<Rightarrow> if same_member_attributes was m then st else fire_member_update lobby_id (lm_user_id m) st)"

definition tell_of_leavers :: "string \<Rightarrow> lobby_infos \<Rightarrow> lobby_member \<Rightarrow> sdk_lobby \<Rightarrow> sdk_lobby" where
  "tell_of_leavers lobby_id infos m st =
     (if find_member infos (lm_user_id m) = None then fire_member_status lobby_id (lm_user_id m) lms_left st else st)"

definition tell_changes :: "lobby_infos \<Rightarrow> lobby_infos \<Rightarrow> sdk_lobby \<Rightarrow> sdk_lobby" where
  "tell_changes previous infos st =
     (let lobby_id = li_lobby_id infos;
          st1 = foldl (\<lambda>s m. tell_of_members lobby_id previous m s) st (li_members infos);
          st2 = foldl (\<lambda>s m. tell_of_leavers lobby_id infos m s) st1 (li_members previous);
          st3 = (if li_owner_id infos \<noteq> [] \<and> li_owner_id infos \<noteq> li_owner_id previous
                 then fire_member_status lobby_id (li_owner_id infos) lms_promoted st2 else st2)
      in fire_lobby_update lobby_id st3)"

definition on_lobby_infos :: "string \<Rightarrow> lobby_infos \<Rightarrow> sdk_lobby \<Rightarrow> sdk_lobby" where
  "on_lobby_infos source infos st =
     (case find_lobby (li_lobby_id infos) st of
        None \<Rightarrow> st
      | Some entry \<Rightarrow>
          if le_local_state entry = lobby_hosting then st
          else if source \<noteq> li_owner_id (le_infos entry) then st
          else tell_changes (le_infos entry) infos
                 (put_lobby (li_lobby_id infos) (entry\<lparr>le_infos := infos,
                    le_local_state := (if li_owner_id infos = lo_product_user_id st then lobby_hosting else lobby_joined)\<rparr>) st))"

definition on_lobby_leave :: "lost_in_send \<Rightarrow> string \<Rightarrow> lobby_member_update \<Rightarrow> sdk_lobby \<Rightarrow> sdk_lobby" where
  "on_lobby_leave lost source notice st =
     (let lobby_id = lmu_lobby_id notice
      in case find_lobby lobby_id st of
           None \<Rightarrow> st
         | Some entry \<Rightarrow>
             if le_local_state entry \<noteq> lobby_hosting then st
             else if find_member (le_infos entry) source = None then st
             else fire_member_status (li_lobby_id (le_infos entry)) source lms_left
                    (broadcast_lobby lost lobby_id
                      (put_lobby_infos lobby_id entry (lobby_recount (remove_member source (le_infos entry))) st)))"

definition on_lobby_member_update :: "lost_in_send \<Rightarrow> string \<Rightarrow> lobby_member_update \<Rightarrow> sdk_lobby \<Rightarrow> sdk_lobby" where
  "on_lobby_member_update lost source notice st =
     (let lobby_id = lmu_lobby_id notice
      in case find_lobby lobby_id st of
           None \<Rightarrow> st
         | Some entry \<Rightarrow>
             if le_local_state entry \<noteq> lobby_hosting then st
             else if find_member (le_infos entry) source = None then st
             else broadcast_lobby lost lobby_id
                    (put_lobby_infos lobby_id entry (change_member source
                       (\<lambda>m. m\<lparr>lm_attributes := lm_attributes (lmu_member notice)\<rparr>) (le_infos entry)) st))"

definition on_lobby_destroy :: "string \<Rightarrow> lobby_destroy \<Rightarrow> sdk_lobby \<Rightarrow> sdk_lobby" where
  "on_lobby_destroy source notice st =
     (let lobby_id = ld_lobby_id notice
      in case find_lobby lobby_id st of
           None \<Rightarrow> st
         | Some entry \<Rightarrow>
             if le_local_state entry = lobby_hosting \<or> li_owner_id (le_infos entry) \<noteq> source then st
             else fire_member_status lobby_id (lo_product_user_id st) (ld_reason notice) (erase_lobby lobby_id st))"

section \<open>Dispatch\<close>

text \<open>A message that cannot be read is dropped.\<close>

definition lobby_when_read :: "'m getter \<Rightarrow> net_envelope \<Rightarrow> ('m \<Rightarrow> sdk_lobby \<Rightarrow> sdk_lobby) \<Rightarrow> sdk_lobby \<Rightarrow> bool \<times> sdk_lobby" where
  "lobby_when_read get message act st =
     (case fst (get (reader_of (env_payload message))) of None \<Rightarrow> (True, st) | Some m \<Rightarrow> (True, act m st))"

definition lobby_on_network_message :: "lost_in_send \<Rightarrow> sdk_connect \<Rightarrow> net_envelope \<Rightarrow> sdk_lobby \<Rightarrow> bool \<times> sdk_lobby" where
  "lobby_on_network_message lost connect message st =
     (let source = env_source_id message; tag = env_type_tag message
      in if source = [] \<or> source = lo_product_user_id st then (True, st)
         else if tag = tag_of peer_disconnected then (True, run_lobby_work lost [w_lost source] st)
         else if env_game_id message \<noteq> lo_product_id st then (True, st)
         else if tag = tag_of mt_lobby_search
         then lobby_when_read deserialize_lobby_search message (on_lobby_search lost source) st
         else if tag = tag_of mt_lobby_search_response
         then lobby_when_read deserialize_lobby_search_response message (on_lobby_search_response source) st
         else if tag = tag_of mt_lobby_join_request
         then lobby_when_read deserialize_lobby_join_request message (on_lobby_join_request lost connect source) st
         else if tag = tag_of mt_lobby_join_response
         then lobby_when_read deserialize_lobby_join_response message (on_lobby_join_response source) st
         else if tag = tag_of mt_lobby_infos
         then lobby_when_read deserialize_lobby_infos message (on_lobby_infos source) st
         else if tag = tag_of lobby_leave
         then lobby_when_read deserialize_lobby_member_update message (on_lobby_leave lost source) st
         else if tag = tag_of mt_lobby_member_update
         then lobby_when_read deserialize_lobby_member_update message (on_lobby_member_update lost source) st
         else if tag = tag_of mt_lobby_destroy
         then lobby_when_read deserialize_lobby_destroy message (on_lobby_destroy source) st
         else (False, st))"

section \<open>Results that wait\<close>

definition finish_lobby_search :: "u64 \<Rightarrow> lobby_search_object \<Rightarrow> sdk_lobby \<Rightarrow> sdk_lobby" where
  "finish_lobby_search handle object st =
     st\<lparr>lo_searches := om_put handle (object\<lparr>lso_searching := False\<rparr>) (lo_searches st)\<rparr>"

definition abandon_lobby_join :: "string \<Rightarrow> sdk_lobby \<Rightarrow> sdk_lobby" where
  "abandon_lobby_join lobby_id st =
     (case find_lobby lobby_id st of
        None \<Rightarrow> st
      | Some entry \<Rightarrow> if le_local_state entry = lobby_joining then erase_lobby lobby_id st else st)"

text \<open>Whether the result goes, and the result as it is then: a join nobody answered has timed out.\<close>

definition lobby_run_callbacks :: "msec \<Rightarrow> nat \<Rightarrow> lobby_callback frame_result \<Rightarrow> sdk_lobby \<Rightarrow>
    bool \<times> lobby_callback frame_result \<times> sdk_lobby" where
  "lobby_run_callbacks now res r st =
     (case om_find res (lo_pending_finds st) of
        Some handle \<Rightarrow>
          (case hs_find handle (lo_searches st) of
             None \<Rightarrow> (True, r, st)
           | Some object \<Rightarrow>
               if lso_awaiting object = [] \<or> lso_deadline object < now
               then (True, r, finish_lobby_search handle object st) else (False, r, st))
      | None \<Rightarrow>
          (case om_find res (lo_pending_joins st) of
             Some waiting \<Rightarrow>
               if fr_done r then (True, r, st)
               else if lpj_deadline waiting < now
               then (True, r\<lparr>fr_payload := (fr_payload r)\<lparr>lc_result_code := result_number EOS_TimedOut\<rparr>\<rparr>,
                     abandon_lobby_join (lpj_lobby_id waiting) st)
               else (False, r, st)
           | None \<Rightarrow> (False, r, st)))"

text \<open>The copied lobby id goes with the result.\<close>

definition lobby_free_callback :: "nat \<Rightarrow> sdk_lobby \<Rightarrow> sdk_lobby" where
  "lobby_free_callback res st =
     st\<lparr>lo_pending_finds := om_erase res (lo_pending_finds st),
        lo_pending_joins := om_erase res (lo_pending_joins st)\<rparr>"

text \<open>
  The interface's share of a tick, as the callback manager walks its queue: front to back, and what is
  ready moves to \<open>lo_ready\<close>, to be fired and freed one by one.
\<close>

fun drain_lobby_results :: "msec \<Rightarrow> (nat \<times> lobby_callback frame_result) list \<Rightarrow> sdk_lobby \<Rightarrow>
    (nat \<times> lobby_callback frame_result) list \<times> (nat \<times> lobby_callback frame_result) list \<times> sdk_lobby" where
  "drain_lobby_results now [] st = ([], [], st)"
| "drain_lobby_results now ((res, r) # queue) st =
     (let (goes, r', st') =
        (if callback_ok_timeout now r
         then (if fr_done r then (True, r, st) else lobby_run_callbacks now res r st)
         else (False, r, st))
      in case drain_lobby_results now queue st' of
           (ready, keep, st'') \<Rightarrow>
             if goes then ((res, r') # ready, keep, st'') else (ready, (res, r') # keep, st''))"

definition lobby_collect :: "msec \<Rightarrow> sdk_lobby \<Rightarrow> sdk_lobby" where
  "lobby_collect now st =
     (case drain_lobby_results now (lo_results st) st of
        (ready, keep, st') \<Rightarrow> st'\<lparr>lo_results := keep, lo_ready := lo_ready st' @ ready\<rparr>)"

definition lobby_fire :: "sdk_lobby \<Rightarrow> lobby_callback frame_result option \<times> sdk_lobby" where
  "lobby_fire st =
     (case lo_ready st of
        [] \<Rightarrow> (None, st)
      | (res, r) # ready \<Rightarrow> (Some r, lobby_free_callback res (st\<lparr>lo_ready := ready\<rparr>)))"

definition lobby_cb_run_frame :: "sdk_lobby \<Rightarrow> bool \<times> sdk_lobby" where
  "lobby_cb_run_frame st = (True, st)"

end
