(* ===== verification/Lobby_Runs.thy ===== *)
theory Lobby_Runs
  imports Lobby_Network
begin

text \<open>
  The operations of \<^verbatim>\<open>sdk_lobby\<close> as a type, so that a run is a list of them, and what each leaves alone.
  Between two operations the mesh may change as it likes.
\<close>

section \<open>Operations\<close>

datatype lobby_stage_op =
    ls_update_modification "(string option \<times> id_handle) option" bool
  | ls_bucket_id u64 "string option option"
  | ls_permission_level u64 "i32 option"
  | ls_max_members u64 "u32 option"
  | ls_invites_allowed u64 "bool option"
  | ls_add_attribute u64 "(attribute_data option \<times> i32) option"
  | ls_remove_attribute u64 "string option option"
  | ls_add_member_attribute u64 "(attribute_data option \<times> i32) option"
  | ls_remove_member_attribute u64 "string option option"
  | ls_release_modification u64

fun lobby_stage_do :: "sdk_lobby \<Rightarrow> lobby_stage_op \<Rightarrow> sdk_lobby" where
  "lobby_stage_do st (ls_update_modification options has_out) = snd (snd (update_lobby_modification options has_out st))"
| "lobby_stage_do st (ls_bucket_id h options) = snd (lobby_mod_set_bucket_id h options st)"
| "lobby_stage_do st (ls_permission_level h options) = snd (lobby_mod_set_permission_level h options st)"
| "lobby_stage_do st (ls_max_members h options) = snd (lobby_mod_set_max_members h options st)"
| "lobby_stage_do st (ls_invites_allowed h options) = snd (lobby_mod_set_invites_allowed h options st)"
| "lobby_stage_do st (ls_add_attribute h options) = snd (lobby_mod_add_attribute h options st)"
| "lobby_stage_do st (ls_remove_attribute h options) = snd (lobby_mod_remove_attribute h options st)"
| "lobby_stage_do st (ls_add_member_attribute h options) = snd (lobby_mod_add_member_attribute h options st)"
| "lobby_stage_do st (ls_remove_member_attribute h options) = snd (lobby_mod_remove_member_attribute h options st)"
| "lobby_stage_do st (ls_release_modification h) = lobby_mod_release h st"

datatype lobby_query_op =
    lq_create_search "u32 versioned option" bool
  | lq_lobby_id u64 "string option versioned option"
  | lq_target_user u64 "id_handle versioned option"
  | lq_parameter u64 "(attribute_data option \<times> i32) versioned option"
  | lq_remove_parameter u64 "(string option \<times> i32) versioned option"
  | lq_max_results u64 "u32 versioned option"
  | lq_release_search u64

fun lobby_query_do :: "sdk_lobby \<Rightarrow> lobby_query_op \<Rightarrow> sdk_lobby" where
  "lobby_query_do st (lq_create_search options has_out) = snd (snd (create_lobby_search options has_out st))"
| "lobby_query_do st (lq_lobby_id h options) = snd (search_set_lobby_id h options st)"
| "lobby_query_do st (lq_target_user h options) = snd (lobby_search_set_target_user h options st)"
| "lobby_query_do st (lq_parameter h options) = snd (lobby_search_set_parameter h options st)"
| "lobby_query_do st (lq_remove_parameter h options) = snd (lobby_search_remove_parameter h options st)"
| "lobby_query_do st (lq_max_results h options) = snd (lobby_search_set_max_results h options st)"
| "lobby_query_do st (lq_release_search h) = lobby_search_release h st"

datatype lobby_view_op =
    lv_copy_result u64 "u32 option" bool
  | lv_copy_details "string option option" bool
  | lv_copy_info u64 bool
  | lv_copy_attribute_by_index u64 "u32 option" bool
  | lv_copy_attribute_by_key u64 "string option option" bool
  | lv_copy_member_info u64 "id_handle option" bool
  | lv_copy_member_attribute_by_index u64 "(id_handle \<times> u32) option" bool
  | lv_copy_member_attribute_by_key u64 "(id_handle \<times> string option) option" bool
  | lv_release_details u64
  | lv_release_info nat
  | lv_release_member_info nat
  | lv_release_attribute nat

fun lobby_view_do :: "sdk_lobby \<Rightarrow> lobby_view_op \<Rightarrow> sdk_lobby" where
  "lobby_view_do st (lv_copy_result h options has_out) = snd (snd (lobby_search_copy_result h options has_out st))"
| "lobby_view_do st (lv_copy_details options has_out) = snd (snd (copy_lobby_details_handle options has_out st))"
| "lobby_view_do st (lv_copy_info h has_out) = snd (snd (lobby_details_copy_info h has_out st))"
| "lobby_view_do st (lv_copy_attribute_by_index h options has_out) =
     snd (snd (lobby_details_copy_attribute_by_index h options has_out st))"
| "lobby_view_do st (lv_copy_attribute_by_key h options has_out) =
     snd (snd (lobby_details_copy_attribute_by_key h options has_out st))"
| "lobby_view_do st (lv_copy_member_info h options has_out) = snd (snd (details_copy_member_info h options has_out st))"
| "lobby_view_do st (lv_copy_member_attribute_by_index h options has_out) =
     snd (snd (details_copy_member_attribute_by_index h options has_out st))"
| "lobby_view_do st (lv_copy_member_attribute_by_key h options has_out) =
     snd (snd (details_copy_member_attribute_by_key h options has_out st))"
| "lobby_view_do st (lv_release_details h) = lobby_details_release h st"
| "lobby_view_do st (lv_release_info i) = release_lobby_details_info i st"
| "lobby_view_do st (lv_release_member_info i) = release_lobby_details_member_info i st"
| "lobby_view_do st (lv_release_attribute i) = release_lobby_attribute i st"

datatype lobby_op =
    lop_stage lobby_stage_op
  | lop_query lobby_query_op
  | lop_view lobby_view_op
  | lop_init
  | lop_deinit
  | lop_mesh "string list"
  | lop_notify int msec nat "nat option"
  | lop_remove_notify u64
  | lop_create "bytes option" msec "create_lobby_options versioned option" nat "nat option"
  | lop_destroy msec "(string option \<times> id_handle) option" nat "nat option"
  | lop_leave msec "(string option \<times> id_handle) option" nat "nat option"
  | lop_update msec "u64 versioned option" nat "nat option"
  | lop_promote msec member_options nat "nat option"
  | lop_kick msec member_options nat "nat option"
  | lop_join sdk_connect msec "(u64 \<times> id_handle) option" nat "nat option"
  | lop_join_by_id msec "(string option \<times> id_handle) option" nat "nat option"
  | lop_find msec u64 "id_handle option" nat "nat option"
  | lop_stub msec nat "nat option"
  | lop_collect msec
  | lop_fire
  | lop_message sdk_connect net_envelope

fun lobby_do :: "lost_in_send \<Rightarrow> sdk_lobby \<Rightarrow> lobby_op \<Rightarrow> sdk_lobby" where
  "lobby_do lost st (lop_stage op) = lobby_stage_do st op"
| "lobby_do lost st (lop_query op) = lobby_query_do st op"
| "lobby_do lost st (lop_view op) = lobby_view_do st op"
| "lobby_do lost st lop_init = lobby_emu_init st"
| "lobby_do lost st lop_deinit = lobby_emu_deinit st"
| "lobby_do lost st (lop_mesh peers) = st\<lparr>lo_mesh := peers\<rparr>"
| "lobby_do lost st (lop_notify type now client_data delegate) = snd (add_lobby_notification type now client_data delegate st)"
| "lobby_do lost st (lop_remove_notify i) = remove_lobby_notify i st"
| "lobby_do lost st (lop_create random now options client_data delegate) = create_lobby random now options client_data delegate st"
| "lobby_do lost st (lop_destroy now options client_data delegate) = destroy_lobby lost now options client_data delegate st"
| "lobby_do lost st (lop_leave now options client_data delegate) = leave_lobby lost now options client_data delegate st"
| "lobby_do lost st (lop_update now options client_data delegate) = update_lobby lost now options client_data delegate st"
| "lobby_do lost st (lop_promote now options client_data delegate) = promote_member lost now options client_data delegate st"
| "lobby_do lost st (lop_kick now options client_data delegate) = kick_member lost now options client_data delegate st"
| "lobby_do lost st (lop_join connect now options client_data delegate) =
     join_lobby lost connect now options client_data delegate st"
| "lobby_do lost st (lop_join_by_id now options client_data delegate) =
     join_lobby_by_id lost now options client_data delegate st"
| "lobby_do lost st (lop_find now h options client_data delegate) = lobby_search_find lost now h options client_data delegate st"
| "lobby_do lost st (lop_stub now client_data delegate) = queue_lobby_stub_result now client_data delegate st"
| "lobby_do lost st (lop_collect now) = lobby_collect now st"
| "lobby_do lost st lop_fire = snd (lobby_fire st)"
| "lobby_do lost st (lop_message connect message) = snd (lobby_on_network_message lost connect message st)"

section \<open>What the mesh can change\<close>

text \<open>A property every call keeps is kept by the whole call stack.\<close>

lemma run_work_keeps:
  assumes step: "\<And>w s. P s \<Longrightarrow> P (snd (lobby_work_step lost w s))"
  shows "P st \<Longrightarrow> P (run_lobby_work lost ws st)"
proof -
  have "P st \<Longrightarrow> lost' = lost \<Longrightarrow> P (run_lobby_work lost' ws st)" for lost'
  proof (induction lost' ws st rule: run_lobby_work.induct)
    case (2 lost' w ws st)
    obtain calls st' where s: "lobby_work_step lost' w st = (calls, st')" by fastforce
    have "P st'" using step [OF "2.prems"(1), of w] "2.prems"(2) s by simp
    from "2.IH" [OF s [symmetric] this "2.prems"(2)] show ?case by (simp add: run_lobby_work.simps(2) s)
  qed simp
  then show "P st \<Longrightarrow> P (run_lobby_work lost ws st)" by simp
qed


definition mesh_only :: "sdk_lobby \<Rightarrow> sdk_lobby \<Rightarrow> bool" where
  "mesh_only st st' \<longleftrightarrow>
     st' = st\<lparr>lo_mesh := lo_mesh st', lo_calls := lo_calls st', lo_lobbies := lo_lobbies st',
              lo_callbacks := lo_callbacks st', lo_heard := lo_heard st'\<rparr>"

lemma mesh_onlyI:
  "st' = st\<lparr>lo_mesh := m, lo_calls := c, lo_lobbies := l, lo_callbacks := cm, lo_heard := h\<rparr> \<Longrightarrow> mesh_only st st'"
  by (simp add: mesh_only_def)

lemma mesh_only_refl [simp]: "mesh_only st st"
  by (simp add: mesh_only_def)

lemma mesh_only_trans:
  assumes "mesh_only a b" and "mesh_only b c"
  shows "mesh_only a c"
proof (rule mesh_onlyI)
  show "c = a\<lparr>lo_mesh := lo_mesh c, lo_calls := lo_calls c, lo_lobbies := lo_lobbies c,
      lo_callbacks := lo_callbacks c, lo_heard := lo_heard c\<rparr>"
    by (subst assms(2) [unfolded mesh_only_def], subst assms(1) [unfolded mesh_only_def]) simp
qed

lemma mesh_only_keeps:
  assumes "mesh_only st st'"
  shows "lo_product_user_id st' = lo_product_user_id st" "lo_product_id st' = lo_product_id st"
    "lo_handle_counter st' = lo_handle_counter st" "lo_modifications st' = lo_modifications st"
    "lo_searches st' = lo_searches st" "lo_details st' = lo_details st"
    "lo_pending_finds st' = lo_pending_finds st" "lo_pending_joins st' = lo_pending_joins st"
    "lo_next_search_id st' = lo_next_search_id st" "lo_registered st' = lo_registered st"
    "lo_results st' = lo_results st" "lo_ready st' = lo_ready st" "lo_next_result st' = lo_next_result st"
    "lo_owner st' = lo_owner st"
  by (subst assms [unfolded mesh_only_def], simp)+

lemma mesh_only_simps [simp]:
  "mesh_only st (put_lobby i e st)" "mesh_only st (put_lobby_infos i e infos st)" "mesh_only st (erase_lobby i st)"
  by (simp_all add: mesh_only_def put_lobby_def put_lobby_infos_def erase_lobby_def)

lemma mesh_only_note: "mesh_only st (fire_lobby_note fill i st)"
  by (simp add: mesh_only_def fire_lobby_note_def Let_def split: option.split)

lemma mesh_only_notes [simp]: "mesh_only st (fire_lobby_notes type fill st)"
proof -
  have "mesh_only s (foldl (\<lambda>s i. fire_lobby_note fill i s) s is)" for s "is"
    by (induction "is" arbitrary: s) (auto intro: mesh_only_trans [OF mesh_only_note])
  then show ?thesis by (simp add: fire_lobby_notes_def)
qed

lemma mesh_only_fires [simp]:
  "mesh_only st (fire_lobby_update i st)" "mesh_only st (fire_member_update i target st)"
  "mesh_only st (fire_member_status i target status st)"
  by (simp_all add: fire_lobby_update_def fire_member_update_def fire_member_status_def)

lemma mesh_only_hand_over: "mesh_only st (snd (hand_over lost peer type payload st))"
  by (simp add: mesh_only_def hand_over_def Let_def)

lemma mesh_only_lose: "mesh_only st (snd (lose_in peer i st))"
  by (simp add: lose_in_def lose_owner_def lose_member_def Let_def split: option.split)

lemma mesh_only_step: "mesh_only st (snd (lobby_work_step lost w st))"
  by (cases "(lost, w, st)" rule: lobby_work_step.cases)
    (auto simp: Let_def case_prod_beta mesh_only_hand_over mesh_only_lose)

lemma mesh_only_run [simp]: "mesh_only st (run_lobby_work lost ws st)"
  by (rule run_work_keeps [where P = "mesh_only st"]) (auto intro: mesh_only_trans mesh_only_step)

lemma mesh_only_sends [simp]:
  "mesh_only st (lobby_send_to lost peer type payload st)" "mesh_only st (broadcast_lobby lost i st)"
  "mesh_only st (broadcast_to_members lost i type payload except st)"
  by (simp_all add: lobby_send_to_def broadcast_lobby_def broadcast_to_members_def case_prod_beta
      mesh_only_trans [OF mesh_only_hand_over mesh_only_run])

lemma mesh_only_send_each [simp]: "mesh_only st (send_each lost type payload peers st)"
proof (induction peers arbitrary: st)
  case (Cons p peers)
  show ?case using mesh_only_trans [OF mesh_only_sends(1) Cons.IH] by simp
qed simp

end
