(* ===== verification/Lobby_Invariant.thy ===== *)
theory Lobby_Invariant
  imports Lobby_Runs
begin

text \<open>
  Invariants of the lobbies of \<^verbatim>\<open>interfaces/lobby.cpp\<close>.  What the loss of a peer does to an entry is the
  contract \<open>lobby_law\<close>; a property that obeys it holds through every call stack of the mesh.
\<close>

definition lobbies_ok :: "(string \<Rightarrow> lobby_entry \<Rightarrow> bool) \<Rightarrow> sdk_lobby \<Rightarrow> bool" where
  "lobbies_ok P st \<longleftrightarrow> om_ok (lo_lobbies st) \<and> (\<forall>(i, e)\<in>set (lo_lobbies st). P i e)"

lemma lobbies_ok_same: "lo_lobbies st' = lo_lobbies st \<Longrightarrow> lobbies_ok P st' = lobbies_ok P st"
  by (simp add: lobbies_ok_def)

lemma lobbies_ok_put: "lobbies_ok P st \<Longrightarrow> P i e \<Longrightarrow> lobbies_ok P (put_lobby i e st)"
  using set_om_put_subset [of i e "lo_lobbies st"] by (auto simp: lobbies_ok_def put_lobby_def)

lemma lobbies_ok_put_infos: "lobbies_ok P st \<Longrightarrow> P i (e\<lparr>le_infos := infos\<rparr>) \<Longrightarrow> lobbies_ok P (put_lobby_infos i e infos st)"
  unfolding put_lobby_infos_def by (rule lobbies_ok_put)

lemma lobbies_ok_erase: "lobbies_ok P st \<Longrightarrow> lobbies_ok P (erase_lobby i st)"
  by (auto simp: lobbies_ok_def erase_lobby_def om_erase_def om_ok_filter)

lemma lobbies_ok_find: "lobbies_ok P st \<Longrightarrow> find_lobby i st = Some e \<Longrightarrow> P i e"
  by (auto simp: lobbies_ok_def find_lobby_def dest: om_find_in)

lemma lobbies_ok_mono: "lobbies_ok P st \<Longrightarrow> (\<And>i e. P i e \<Longrightarrow> Q i e) \<Longrightarrow> lobbies_ok Q st"
  by (auto simp: lobbies_ok_def)

lemma lobbies_ok_fire [simp]:
  "lobbies_ok P (fire_lobby_update i st) = lobbies_ok P st"
  "lobbies_ok P (fire_member_update i target st) = lobbies_ok P st"
  "lobbies_ok P (fire_member_status i target status st) = lobbies_ok P st"
  by (simp_all add: lobbies_ok_def fire_lobby_update_def fire_member_update_def fire_member_status_def)

lemma lobbies_ok_hand_over [simp]:
  "lobbies_ok P (snd (hand_over lost peer type payload st)) = lobbies_ok P st"
  by (simp add: lobbies_ok_def hand_over_def Let_def)

section \<open>What the loss of a peer may do\<close>

locale lobby_law =
  fixes P :: "string \<Rightarrow> lobby_entry \<Rightarrow> bool" and me :: string
  assumes loses: "\<And>i e peer. P i e \<Longrightarrow> le_local_state e = lobby_hosting \<Longrightarrow>
      P i (e\<lparr>le_infos := lobby_recount (remove_member peer (le_infos e))\<rparr>)"
    and inherits: "\<And>i e peer heir. P i e \<Longrightarrow> le_local_state e \<noteq> lobby_hosting \<Longrightarrow> heir \<noteq> [] \<Longrightarrow>
      P i (e\<lparr>le_infos := lobby_recount ((remove_member peer (le_infos e))\<lparr>li_owner_id := heir\<rparr>),
             le_local_state := (if heir = me then lobby_hosting else lobby_joined)\<rparr>)"
begin

lemma lose_in_law:
  assumes "lobbies_ok P st" and "lo_product_user_id st = me"
  shows "lobbies_ok P (snd (lose_in peer i st))"
proof (cases "find_lobby i st")
  case (Some e)
  note e = lobbies_ok_find [OF assms(1) Some]
  have "lobbies_ok P (snd (lose_owner peer i e st))" if "le_local_state e \<noteq> lobby_hosting"
    using lobbies_ok_put [OF assms(1) inherits [OF e that]] assms
    by (auto simp: lose_owner_def Let_def lobbies_ok_erase)
  moreover have "lobbies_ok P (snd (lose_member peer i e st))" if "le_local_state e = lobby_hosting"
    using lobbies_ok_put_infos [OF assms(1) loses [OF e that]] by (simp add: lose_member_def Let_def)
  ultimately show ?thesis using assms(1) Some by (simp add: lose_in_def)
qed (use assms in \<open>simp add: lose_in_def\<close>)

lemma step_law:
  assumes "lobbies_ok P st" and "lo_product_user_id st = me"
  shows "lobbies_ok P (snd (lobby_work_step lost w st))"
  using lose_in_law [OF assms] assms(1)
  by (cases "(lost, w, st)" rule: lobby_work_step.cases) (auto simp: Let_def case_prod_beta)

lemma run_law:
  assumes "lobbies_ok P st" and "lo_product_user_id st = me"
  shows "lobbies_ok P (run_lobby_work lost ws st)"
proof -
  have "lobbies_ok P (run_lobby_work lost ws st) \<and> lo_product_user_id (run_lobby_work lost ws st) = me"
    by (rule run_work_keeps [where P = "\<lambda>s. lobbies_ok P s \<and> lo_product_user_id s = me"])
      (use assms in \<open>auto simp: step_law mesh_only_keeps [OF mesh_only_step]\<close>)
  then show ?thesis by simp
qed

lemma sends_law:
  assumes "lobbies_ok P st" and "lo_product_user_id st = me"
  shows "lobbies_ok P (lobby_send_to lost peer type payload st)" "lobbies_ok P (broadcast_lobby lost i st)"
    "lobbies_ok P (broadcast_to_members lost i type payload except st)"
  using assms
  by (auto simp: lobby_send_to_def broadcast_lobby_def broadcast_to_members_def case_prod_beta run_law
      mesh_only_keeps [OF mesh_only_hand_over])

lemma send_each_law:
  "lobbies_ok P st \<Longrightarrow> lo_product_user_id st = me \<Longrightarrow> lobbies_ok P (send_each lost type payload peers st)"
  by (induction peers arbitrary: st) (simp_all add: sends_law mesh_only_keeps [OF mesh_only_sends(1)])

end

section \<open>Who hosts\<close>

text \<open>\<open>X\<close> are the lobbies we are closing: the roster already names an heir while we still send it out.\<close>

definition owned_entry :: "string \<Rightarrow> string set \<Rightarrow> string \<Rightarrow> lobby_entry \<Rightarrow> bool" where
  "owned_entry me X i e \<longleftrightarrow> li_lobby_id (le_infos e) = i \<and>
     (i \<notin> X \<longrightarrow> (le_local_state e = lobby_hosting \<longleftrightarrow> li_owner_id (le_infos e) = me))"

lemma infos_parts [simp]:
  "li_lobby_id (lobby_recount infos) = li_lobby_id infos" "li_owner_id (lobby_recount infos) = li_owner_id infos"
  "li_members (lobby_recount infos) = li_members infos"
  "li_allow_host_migration (lobby_recount infos) = li_allow_host_migration infos"
  "li_lobby_id (remove_member p infos) = li_lobby_id infos" "li_owner_id (remove_member p infos) = li_owner_id infos"
  "li_allow_host_migration (remove_member p infos) = li_allow_host_migration infos"
  "li_lobby_id (change_member p f infos) = li_lobby_id infos" "li_owner_id (change_member p f infos) = li_owner_id infos"
  by (simp_all add: lobby_recount_def remove_member_def change_member_def)

interpretation owned: lobby_law "owned_entry me X" me for me X
  by unfold_locales (auto simp: owned_entry_def)

text \<open>What a game has to respect: it speaks for itself, promotes somebody else, and its own roster leaves it out.\<close>

fun own_op :: "string \<Rightarrow> lobby_op \<Rightarrow> bool" where
  "own_op me (lop_create random now options client_data delegate) =
     (case options of Some (versioned version o') \<Rightarrow> clo_local_user_id o' \<in> {None, Some me} | None \<Rightarrow> True)"
| "own_op me (lop_promote now options client_data delegate) =
     (case options of Some (i, user, target) \<Rightarrow> target \<noteq> Some me | None \<Rightarrow> True)"
| "own_op me (lop_join connect now options client_data delegate) = (\<not> is_known_peer me connect)"
| "own_op me _ = True"

abbreviation owned_lobbies :: "sdk_lobby \<Rightarrow> bool" where
  "owned_lobbies st \<equiv> lobbies_ok (owned_entry (lo_product_user_id st) {}) st"

lemma queue_result_lobbies [simp]:
  "lo_lobbies (queue_lobby_result now type info d b st) = lo_lobbies st"
  "lo_lobbies (deliver_id now type d client_data code i st) = lo_lobbies st"
  "lo_lobbies (deliver_result now type d client_data code st) = lo_lobbies st"
  "lo_product_user_id (queue_lobby_result now type info d b st) = lo_product_user_id st"
  "lo_product_user_id (deliver_id now type d client_data code i st) = lo_product_user_id st"
  "lo_product_user_id (deliver_result now type d client_data code st) = lo_product_user_id st"
  by (simp_all add: queue_lobby_result_def deliver_id_def deliver_result_def)

lemma lobbies_ok_queue [simp]:
  "lobbies_ok P (deliver_id now type d client_data code i st) = lobbies_ok P st"
  "lobbies_ok P (deliver_result now type d client_data code st) = lobbies_ok P st"
  by (simp_all add: lobbies_ok_def)

lemma user_id_kept [simp]:
  "lo_product_user_id (put_lobby i e st) = lo_product_user_id st"
  "lo_product_user_id (put_lobby_infos i e infos st) = lo_product_user_id st"
  "lo_product_user_id (erase_lobby i st) = lo_product_user_id st"
  "lo_product_user_id (fire_lobby_update i st) = lo_product_user_id st"
  "lo_product_user_id (fire_member_update i target st) = lo_product_user_id st"
  "lo_product_user_id (fire_member_status i target status st) = lo_product_user_id st"
  "lo_product_user_id (run_lobby_work lost ws st) = lo_product_user_id st"
  "lo_product_user_id (lobby_send_to lost peer type payload st) = lo_product_user_id st"
  "lo_product_user_id (broadcast_lobby lost i st) = lo_product_user_id st"
  "lo_product_user_id (broadcast_to_members lost i type payload except st) = lo_product_user_id st"
  "lo_product_user_id (send_each lost type payload peers st) = lo_product_user_id st"
  by (simp_all add: mesh_only_keeps(1))

lemma close_owned:
  assumes "lobbies_ok (owned_entry me {}) st" and "lo_product_user_id st = me" and "find_lobby i st = Some e"
  shows "lobbies_ok (owned_entry me {i}) (close_hosted_lobby lost i e st)"
proof -
  have st: "lobbies_ok (owned_entry me {i}) st"
    using assms(1) by (rule lobbies_ok_mono) (simp add: owned_entry_def)
  moreover have "owned_entry me {i} i (e\<lparr>le_infos := lobby_recount (remove_member p ((le_infos e)\<lparr>li_owner_id := h\<rparr>))\<rparr>)" for p h
    using lobbies_ok_find [OF assms(1,3)] by (simp add: owned_entry_def)
  ultimately show ?thesis
    using assms(2) by (auto simp: close_hosted_lobby_def Let_def owned.sends_law lobbies_ok_put_infos)
qed

lemma give_up_owned:
  assumes "lobbies_ok (owned_entry me {}) st" and "lo_product_user_id st = me" and "find_lobby i st = Some e"
  shows "lobbies_ok (owned_entry me {}) (give_up_lobby lost i e st)"
proof -
  have erased: "lobbies_ok (owned_entry me {}) (erase_lobby i s)" if "lobbies_ok (owned_entry me {i}) s" for s
    using that by (auto simp: lobbies_ok_def owned_entry_def erase_lobby_def om_erase_def om_ok_filter)
  have "lobbies_ok (owned_entry me {i}) (lobby_send_to lost p t y st)" for p t y
    using owned.sends_law(1) [OF assms(1,2)] by (rule lobbies_ok_mono) (simp add: owned_entry_def)
  with close_owned [OF assms] show ?thesis by (simp add: give_up_lobby_def erased)
qed

lemma new_copy_owned:
  assumes "lobbies_ok (owned_entry me {}) st" and "li_owner_id infos \<noteq> me"
  shows "lobbies_ok (owned_entry me {}) (begin_join now user infos client_data d st)"
proof -
  have "lobbies_ok (owned_entry me {}) (put_lobby (li_lobby_id infos)
      \<lparr>le_infos = infos, le_local_user = user, le_local_state = lobby_joining\<rparr> st)"
    using assms by (intro lobbies_ok_put) (simp_all add: owned_entry_def)
  then show ?thesis by (simp add: begin_join_def Let_def lobbies_ok_def)
qed

lemma begin_join_user [simp]: "lo_product_user_id (begin_join now user infos client_data d st) = lo_product_user_id st"
  by (simp add: begin_join_def Let_def)

lemma settle_lobbies [simp]: "lo_lobbies (settle_lobby_result res code st) = lo_lobbies st"
  by (simp add: settle_lobby_result_def Let_def)

lemma tell_lobbies [simp]: "lo_lobbies (tell_changes previous infos st) = lo_lobbies st"
proof -
  have "lo_lobbies (foldl (\<lambda>s m. tell_of_members i previous m s) s ms) = lo_lobbies s" for i s ms
    by (induction ms arbitrary: s)
      (simp_all add: tell_of_members_def fire_member_status_def fire_member_update_def split: option.split)
  moreover have "lo_lobbies (foldl (\<lambda>s m. tell_of_leavers i infos m s) s ms) = lo_lobbies s" for i s ms
    by (induction ms arbitrary: s) (simp_all add: tell_of_leavers_def fire_member_status_def)
  ultimately show ?thesis
    by (simp add: tell_changes_def Let_def fire_member_status_def fire_lobby_update_def)
qed

lemma response_lobbies [simp]: "lo_lobbies (on_lobby_search_response source answer st) = lo_lobbies st"
proof -
  have "lo_lobbies (foldl (\<lambda>s h. answer_lobby_search source answer h s) s hs) = lo_lobbies s" for s hs
    by (induction hs arbitrary: s) (simp_all add: answer_lobby_search_def split: option.split)
  then show ?thesis by (simp add: on_lobby_search_response_def)
qed

text \<open>A message changes the table by one of its handlers, or not at all.\<close>

lemma message_law:
  assumes st: "lobbies_ok (owned_entry me {}) st" and me: "lo_product_user_id st = me"
  shows "lobbies_ok (owned_entry me {}) (snd (lobby_on_network_message lost connect message st))"
proof -
  have find: "li_lobby_id (le_infos e) = i \<and> (le_local_state e = lobby_hosting \<longleftrightarrow> li_owner_id (le_infos e) = me)"
    if "find_lobby i st = Some e" for i e
    using lobbies_ok_find [OF st that] by (simp add: owned_entry_def)
  have put: "lobbies_ok (owned_entry me {}) (put_lobby_infos i e infos st)"
    if "find_lobby i st = Some e" "li_lobby_id infos = li_lobby_id (le_infos e)"
      "li_owner_id infos = li_owner_id (le_infos e)" for i e infos
    using lobbies_ok_put_infos [OF st, where i = i and e = e and infos = infos] find [OF that(1)] that by (simp add: owned_entry_def)
  have request: "lobbies_ok (owned_entry me {}) (on_lobby_join_request lost connect source request st)" for source request
  proof (cases "find_lobby (ljq_lobby_id request) st")
    case (Some e)
    obtain verdict infos where j: "judge_lobby_join connect source request (le_infos e) = (verdict, infos)" by fastforce
    then have "li_lobby_id infos = li_lobby_id (le_infos e)" "li_owner_id infos = li_owner_id (le_infos e)"
      by (auto simp: judge_lobby_join_def split: if_splits)
    from put [OF Some this] show ?thesis
      using st me by (simp add: on_lobby_join_request_def Some j Let_def owned.sends_law)
  qed (use st in \<open>simp add: on_lobby_join_request_def\<close>)
  have answer: "lobbies_ok (owned_entry me {}) (on_lobby_join_response source answer st)" if "source \<noteq> me" for source answer
  proof -
    have "lobbies_ok (owned_entry me {}) (settle_lobby_result res code st)" for res code
      using st by (simp add: lobbies_ok_def)
    then show ?thesis
      using st that find
      by (auto simp: on_lobby_join_response_def Let_def lobbies_ok_erase owned_entry_def intro!: lobbies_ok_put
          split: option.split)
  qed
  have infos: "lobbies_ok (owned_entry me {}) (on_lobby_infos source infos st)" for source infos
  proof (cases "find_lobby (li_lobby_id infos) st")
    case (Some e)
    have "lobbies_ok (owned_entry me {}) (put_lobby (li_lobby_id infos) (e\<lparr>le_infos := infos, le_local_state :=
        (if li_owner_id infos = lo_product_user_id st then lobby_hosting else lobby_joined)\<rparr>) st)"
      using me by (intro lobbies_ok_put [OF st]) (simp add: owned_entry_def)
    then show ?thesis using st by (simp add: on_lobby_infos_def Some lobbies_ok_same [OF tell_lobbies])
  qed (use st in \<open>simp add: on_lobby_infos_def\<close>)
  have rest: "lobbies_ok (owned_entry me {}) (on_lobby_leave lost source u st)"
    "lobbies_ok (owned_entry me {}) (on_lobby_member_update lost source u st)"
    "lobbies_ok (owned_entry me {}) (on_lobby_destroy source n st)"
    "lobbies_ok (owned_entry me {}) (on_lobby_search_response source a st)"
    "lobbies_ok (owned_entry me {}) (on_lobby_search lost source q st)" for source u n a q
    using st me
    by (auto simp: on_lobby_leave_def on_lobby_member_update_def on_lobby_destroy_def on_lobby_search_def Let_def
        put owned.sends_law lobbies_ok_erase split: option.split) (simp add: lobbies_ok_def)
  show ?thesis
    using st me
    by (auto simp: lobby_on_network_message_def lobby_when_read_def Let_def owned.run_law request answer infos rest
        split: option.split)
qed

section \<open>Operations that leave the table alone\<close>

lemma tell_user [simp]: "lo_product_user_id (tell_changes previous infos st) = lo_product_user_id st"
proof -
  have "lo_product_user_id (foldl (\<lambda>s m. tell_of_members i previous m s) s ms) = lo_product_user_id s" for i s ms
    by (induction ms arbitrary: s) (simp_all add: tell_of_members_def split: option.split)
  moreover have "lo_product_user_id (foldl (\<lambda>s m. tell_of_leavers i infos m s) s ms) = lo_product_user_id s" for i s ms
    by (induction ms arbitrary: s) (simp_all add: tell_of_leavers_def)
  ultimately show ?thesis by (simp add: tell_changes_def Let_def)
qed

lemma handlers_user [simp]:
  "lo_product_user_id (on_lobby_search lost source query st) = lo_product_user_id st"
  "lo_product_user_id (on_lobby_search_response source answer st) = lo_product_user_id st"
  "lo_product_user_id (on_lobby_join_request lost connect source request st) = lo_product_user_id st"
  "lo_product_user_id (on_lobby_join_response source verdict st) = lo_product_user_id st"
  "lo_product_user_id (on_lobby_infos source infos st) = lo_product_user_id st"
  "lo_product_user_id (on_lobby_leave lost source notice st) = lo_product_user_id st"
  "lo_product_user_id (on_lobby_member_update lost source notice st) = lo_product_user_id st"
  "lo_product_user_id (on_lobby_destroy source gone st) = lo_product_user_id st"
proof -
  have "lo_product_user_id (foldl (\<lambda>s h. answer_lobby_search source answer h s) s hs) = lo_product_user_id s" for s hs
    by (induction hs arbitrary: s) (simp_all add: answer_lobby_search_def split: option.split)
  then show "lo_product_user_id (on_lobby_search_response source answer st) = lo_product_user_id st"
    by (simp add: on_lobby_search_response_def)
  show "lo_product_user_id (on_lobby_join_request lost connect source request st) = lo_product_user_id st"
    by (simp add: on_lobby_join_request_def Let_def case_prod_beta split: option.split)
  show "lo_product_user_id (on_lobby_join_response source verdict st) = lo_product_user_id st"
    by (simp add: on_lobby_join_response_def Let_def settle_lobby_result_def split: option.split)
qed (simp_all add: on_lobby_search_def on_lobby_infos_def on_lobby_leave_def on_lobby_member_update_def
    on_lobby_destroy_def Let_def split: option.split)

lemma message_user: "lo_product_user_id (snd (lobby_on_network_message lost connect message st)) = lo_product_user_id st"
  by (simp add: lobby_on_network_message_def lobby_when_read_def Let_def split: option.split)

lemma lobby_stage_keeps:
  "lo_lobbies (lobby_stage_do st op) = lo_lobbies st" "lo_product_user_id (lobby_stage_do st op) = lo_product_user_id st"
  by (cases op; simp add: set_lobby_modification_def update_lobby_modification_def lobby_mod_release_def
      lobby_mod_set_bucket_id_def lobby_mod_set_permission_level_def lobby_mod_set_max_members_def
      lobby_mod_set_invites_allowed_def lobby_mod_add_attribute_def lobby_mod_remove_attribute_def
      lobby_mod_add_member_attribute_def lobby_mod_remove_member_attribute_def
      split: option.split sum.split prod.split)+

lemma lobby_query_keeps:
  "lo_lobbies (lobby_query_do st op) = lo_lobbies st" "lo_product_user_id (lobby_query_do st op) = lo_product_user_id st"
  by (cases op; simp add: set_lobby_search_def create_lobby_search_def lobby_search_release_def search_set_lobby_id_def
      lobby_search_set_target_user_def lobby_search_set_parameter_def lobby_search_remove_parameter_def
      lobby_search_set_max_results_def split: option.split sum.split prod.split versioned.split)+

lemma lobby_view_keeps:
  "lo_lobbies (lobby_view_do st op) = lo_lobbies st" "lo_product_user_id (lobby_view_do st op) = lo_product_user_id st"
  by (cases op; simp add: lobby_search_copy_result_def copy_lobby_details_handle_def add_lobby_details_def
      lobby_details_copy_info_def lobby_details_copy_attribute_by_index_def lobby_details_copy_attribute_by_key_def
      details_copy_member_info_def details_copy_member_attribute_by_index_def
      details_copy_member_attribute_by_key_def lobby_emit_attribute_def lobby_details_release_def
      release_lobby_details_info_def release_lobby_details_member_info_def release_lobby_attribute_def Let_def
      split: option.split prod.split)+

lemma lobby_run_callbacks_keeps:
  "lo_product_user_id (snd (snd (lobby_run_callbacks now res r st))) = lo_product_user_id st"
  by (simp add: lobby_run_callbacks_def finish_lobby_search_def abandon_lobby_join_def split: option.split)

lemma lobby_run_callbacks_ok:
  "lobbies_ok P st \<Longrightarrow> lobbies_ok P (snd (snd (lobby_run_callbacks now res r st)))"
  by (auto simp: lobby_run_callbacks_def finish_lobby_search_def abandon_lobby_join_def lobbies_ok_erase
      lobbies_ok_same [of "st\<lparr>lo_searches := _\<rparr>" st] split: option.split)

lemma drain_lobby_ok:
  "lobbies_ok P st \<Longrightarrow> lobbies_ok P (snd (snd (drain_lobby_results now queue st)))"
  "lo_product_user_id (snd (snd (drain_lobby_results now queue st))) = lo_product_user_id st"
proof (induction queue arbitrary: st)
  case (Cons x queue)
  obtain res r where x: "x = (res, r)" by (cases x)
  {
    case 1
    then show ?case
      using Cons.IH(1) lobby_run_callbacks_ok by (auto simp: x Let_def case_prod_beta)
  next
    case 2
    show ?case
      using Cons.IH(2) by (auto simp: x Let_def case_prod_beta lobby_run_callbacks_keeps)
  }
qed simp_all

section \<open>Every operation\<close>

lemma create_owned:
  assumes "lobbies_ok (owned_entry me {}) st" and "own_op me (lop_create random now options client_data delegate)"
  shows "lobbies_ok (owned_entry me {}) (create_lobby random now options client_data delegate st)"
proof -
  have "owned_entry me {} i (created_lobby version o' me i)" for version o' i
    by (simp add: owned_entry_def created_lobby_def)
  then show ?thesis
    using assms by (auto simp: create_lobby_def Let_def intro!: lobbies_ok_put split: option.split versioned.splits)
qed

lemma promote_owned:
  assumes "lobbies_ok (owned_entry me {}) st" and "lo_product_user_id st = me"
    and "own_op me (lop_promote now options client_data delegate)"
  shows "lobbies_ok (owned_entry me {}) (promote_member lost now options client_data delegate st)"
proof -
  have "lobbies_ok (owned_entry me {}) (broadcast_lobby lost i (put_lobby i
      (e\<lparr>le_infos := (le_infos e)\<lparr>li_owner_id := target\<rparr>, le_local_state := lobby_joined\<rparr>) st))"
    if "find_lobby i st = Some e" "target \<noteq> me" for i e target
    using lobbies_ok_find [OF assms(1) that(1)] that assms
    by (intro owned.sends_law lobbies_ok_put) (simp_all add: owned_entry_def)
  then show ?thesis using assms by (auto simp: promote_member_def Let_def split: option.split)
qed

lemma kick_owned:
  assumes "lobbies_ok (owned_entry me {}) st" and "lo_product_user_id st = me"
  shows "lobbies_ok (owned_entry me {}) (kick_member lost now options client_data delegate st)"
proof -
  have "lobbies_ok (owned_entry me {}) (put_lobby_infos i e (lobby_recount (remove_member target (le_infos e))) st)"
    if "find_lobby i st = Some e" for i e target
    using lobbies_ok_find [OF assms(1) that]
    by (intro lobbies_ok_put_infos assms) (simp add: owned_entry_def)
  then show ?thesis using assms by (auto simp: kick_member_def Let_def owned.sends_law split: option.split)
qed

lemma update_owned:
  assumes "lobbies_ok (owned_entry me {}) st" and "lo_product_user_id st = me"
  shows "lobbies_ok (owned_entry me {}) (update_lobby lost now options client_data delegate st)"
proof -
  have "lobbies_ok (owned_entry me {}) (put_lobby_infos i e (updated_infos me object (le_infos e)) st)"
    if "find_lobby i st = Some e" for i e object
    using lobbies_ok_find [OF assms(1) that]
    by (intro lobbies_ok_put_infos assms) (simp add: owned_entry_def updated_infos_def update_settings_def)
  then show ?thesis
    using assms by (auto simp: update_lobby_def Let_def owned.sends_law split: option.split versioned.split)
qed

lemma join_owned:
  assumes "lobbies_ok (owned_entry me {}) st" and "lo_product_user_id st = me" and "me \<noteq> []"
  shows "\<not> is_known_peer me connect \<Longrightarrow>
      lobbies_ok (owned_entry me {}) (join_lobby lost connect now options client_data delegate st)"
    "lobbies_ok (owned_entry me {}) (join_lobby_by_id lost now options2 client_data delegate st)"
proof -
  have copy: "lobbies_ok (owned_entry me {}) (begin_join now user infos client_data d st)" if "li_owner_id infos \<noteq> me"
    for user infos d
    by (rule new_copy_owned [OF assms(1) that])
  have "li_owner_id (new_lobby_infos\<lparr>li_lobby_id := i\<rparr>) \<noteq> me" for i
    using assms(3) by (simp add: new_lobby_infos_def)
  then show "lobbies_ok (owned_entry me {}) (join_lobby_by_id lost now options2 client_data delegate st)"
    using assms by (auto simp: join_lobby_by_id_def Let_def owned.send_each_law copy split: option.split)
  show "lobbies_ok (owned_entry me {}) (join_lobby lost connect now options client_data delegate st)"
    if "\<not> is_known_peer me connect"
  proof -
    have "lobbies_ok (owned_entry me {}) (lobby_send_to lost p type y (begin_join now user infos client_data d st))"
      if "is_known_peer (li_owner_id infos) connect" for p type y user infos d
      using that \<open>\<not> is_known_peer me connect\<close> assms by (intro owned.sends_law copy) auto
    then show ?thesis using assms by (auto simp: join_lobby_def Let_def split: option.split)
  qed
qed

lemma find_owned:
  assumes "lobbies_ok (owned_entry me {}) st" and "lo_product_user_id st = me"
  shows "lobbies_ok (owned_entry me {}) (lobby_search_find lost now h options client_data delegate st)"
proof -
  have "lobbies_ok (owned_entry me {}) (send_each lost type payload peers (st\<lparr>lo_next_search_id := n\<rparr>))" for type payload peers n
    by (rule owned.send_each_law) (use assms in \<open>simp_all add: lobbies_ok_def\<close>)
  then show ?thesis
    using assms by (auto simp: lobby_search_find_def begin_lobby_find_def Let_def lobbies_ok_def split: option.split)
qed

lemma owned_step:
  assumes "lobbies_ok (owned_entry me {}) st \<and> lo_product_user_id st = me" and "me \<noteq> []" and "own_op me op"
  shows "lobbies_ok (owned_entry me {}) (lobby_do lost st op) \<and> lo_product_user_id (lobby_do lost st op) = me"
proof -
  have st: "lobbies_ok (owned_entry me {}) st" and me: "lo_product_user_id st = me" using assms(1) by auto
  have same: "?thesis" if "lo_lobbies (lobby_do lost st op) = lo_lobbies st"
    "lo_product_user_id (lobby_do lost st op) = lo_product_user_id st"
    using that assms(1) by (simp add: lobbies_ok_def)
  have leave: "lobbies_ok (owned_entry me {}) (destroy_or_leave type lost now options client_data delegate st) \<and>
      lo_product_user_id (destroy_or_leave type lost now options client_data delegate st) = me"
    for type now options client_data delegate
    using st me give_up_owned [OF st me]
    by (auto simp: destroy_or_leave_def give_up_lobby_def close_hosted_lobby_def Let_def split: option.split)
  show ?thesis
  proof (cases op)
    case (lop_create random now options client_data delegate)
    then show ?thesis
      using create_owned [OF st] assms(3) me by (auto simp: create_lobby_def Let_def split: option.split versioned.split)
  next
    case (lop_promote now options client_data delegate)
    then show ?thesis
      using promote_owned [OF st me] assms(3) me by (auto simp: promote_member_def Let_def split: option.split)
  next
    case (lop_kick now options client_data delegate)
    then show ?thesis
      using kick_owned [OF st me] me by (auto simp: kick_member_def Let_def split: option.split)
  next
    case (lop_update now options client_data delegate)
    then show ?thesis
      using update_owned [OF st me] me by (auto simp: update_lobby_def Let_def split: option.split versioned.split)
  next
    case (lop_join connect now options client_data delegate)
    then show ?thesis
      using join_owned(1) [OF st me assms(2)] assms(3) me by (auto simp: join_lobby_def Let_def split: option.split)
  next
    case (lop_join_by_id now options client_data delegate)
    then show ?thesis
      using join_owned(2) [OF st me assms(2)] me by (auto simp: join_lobby_by_id_def Let_def split: option.split)
  next
    case (lop_find now h options client_data delegate)
    then show ?thesis
      using find_owned [OF st me] me
      by (auto simp: lobby_search_find_def begin_lobby_find_def Let_def split: option.split)
  next
    case (lop_collect now)
    then show ?thesis
      using drain_lobby_ok(1) [OF st, of now "lo_results st"] drain_lobby_ok(2) [of now "lo_results st" st] me
      by (simp add: lobby_collect_def case_prod_beta lobbies_ok_def)
  next
    case (lop_message connect message)
    have "lo_product_user_id (snd (lobby_on_network_message lost connect message st)) = me"
      using me message_user [of lost connect message st] by simp
    then show ?thesis using message_law [OF st me] lop_message by simp
  next
    case lop_deinit
    then show ?thesis using assms(1) by (simp add: lobby_emu_deinit_def lobbies_ok_def)
  next
    case (lop_destroy now options client_data delegate)
    then show ?thesis using leave by (simp add: destroy_lobby_def)
  next
    case (lop_leave now options client_data delegate)
    then show ?thesis using leave by (simp add: leave_lobby_def)
  qed (rule same; simp add: lobby_stage_keeps lobby_query_keeps lobby_view_keeps lobby_emu_init_def
      add_lobby_notification_def remove_lobby_notify_def queue_lobby_stub_result_def lobby_fire_def
      lobby_free_callback_def split: option.split prod.split list.split)+
qed

end
