(* ===== verification/Lobby_Properties.thy ===== *)
theory Lobby_Properties
  imports Lobby_Invariant
begin

text \<open>
  Who hosts a lobby: exactly its owner, in every run; and what happens to it when the owner is lost,
  that the survivors agree on one heir, and two ways in which nobody is left to host it.
\<close>

section \<open>The owner hosts\<close>

text \<open>C34. In every run, whatever peers send and whoever is lost in the middle of a send, we host exactly
  the lobbies we own, each under its own id, as long as the game acts under its own id and promotes
  somebody else when it promotes.\<close>

theorem we_host_exactly_what_we_own:
  assumes "st = run (lobby_do lost) (new_sdk_lobby me game owner) ops"
    and "\<forall>op\<in>set ops. own_op me op" and "me \<noteq> []"
    and "find_lobby i st = Some e"
  shows "li_lobby_id (le_infos e) = i \<and> (le_local_state e = lobby_hosting \<longleftrightarrow> li_owner_id (le_infos e) = me)"
proof -
  have "lobbies_ok (owned_entry me {}) s \<and> lo_product_user_id s = me \<Longrightarrow>
      lobbies_ok (owned_entry me {}) (run (lobby_do lost) s ops) \<and> lo_product_user_id (run (lobby_do lost) s ops) = me" for s
    using assms(2) owned_step [OF _ assms(3)] by (induction ops arbitrary: s) auto
  from this [of "new_sdk_lobby me game owner"] have "lobbies_ok (owned_entry me {}) st"
    by (simp add: assms(1) new_sdk_lobby_def lobbies_ok_def)
  from lobbies_ok_find [OF this assms(4)] show ?thesis by (simp add: owned_entry_def)
qed

section \<open>Election\<close>

definition member_ids :: "lobby_infos \<Rightarrow> string set" where
  "member_ids infos = lm_user_id ` set (li_members infos)"

lemma elect_owner_snoc:
  "elect_owner (ms @ [m]) p =
     (if lm_user_id m = p then elect_owner ms p
      else if elect_owner ms p = [] \<or> lm_user_id m < elect_owner ms p then lm_user_id m else elect_owner ms p)"
  by (simp add: elect_owner_def)

lemma elect_owner_least:
  assumes "[] \<notin> lm_user_id ` set ms"
  shows "if lm_user_id ` set ms - {p} = {} then elect_owner ms p = []
    else elect_owner ms p \<in> lm_user_id ` set ms - {p} \<and> (\<forall>q\<in>lm_user_id ` set ms - {p}. elect_owner ms p \<le> q)"
  using assms
proof (induction ms rule: rev_induct)
  case Nil
  then show ?case by (simp add: elect_owner_def)
next
  case (snoc m ms)
  have new: "lm_user_id m \<noteq> []" and IH: "if lm_user_id ` set ms - {p} = {} then elect_owner ms p = []
      else elect_owner ms p \<in> lm_user_id ` set ms - {p} \<and> (\<forall>q\<in>lm_user_id ` set ms - {p}. elect_owner ms p \<le> q)"
    using snoc by auto
  consider "lm_user_id m = p" | "lm_user_id m \<noteq> p" "lm_user_id ` set ms - {p} = {}"
    | "lm_user_id m \<noteq> p" "lm_user_id ` set ms - {p} \<noteq> {}" by blast
  then show ?case
  proof cases
    case 1
    then have "lm_user_id ` set (ms @ [m]) - {p} = lm_user_id ` set ms - {p}" by auto
    moreover have "elect_owner (ms @ [m]) p = elect_owner ms p" using 1 by (simp add: elect_owner_snoc)
    ultimately show ?thesis using IH by (simp only:)
  next
    case 2
    then have "lm_user_id ` set (ms @ [m]) - {p} = {lm_user_id m}" by auto
    then show ?thesis using IH 2 new by (simp add: elect_owner_snoc)
  next
    case 3
    then have eq: "lm_user_id ` set (ms @ [m]) - {p} = insert (lm_user_id m) (lm_user_id ` set ms - {p})" by auto
    have "elect_owner ms p \<in> lm_user_id ` set ms - {p}" "\<forall>q\<in>lm_user_id ` set ms - {p}. elect_owner ms p \<le> q"
      using IH 3 by simp_all
    moreover from this(1) have "elect_owner ms p \<noteq> []" using snoc.prems by auto
    ultimately show ?thesis
      unfolding eq elect_owner_snoc using 3 by (auto intro: less_imp_le order.trans)
  qed
qed

lemma elect_owner_cong:
  assumes "lm_user_id ` set ms - {p} = lm_user_id ` set ns - {p}" and "[] \<notin> lm_user_id ` set ms" and "[] \<notin> lm_user_id ` set ns"
  shows "elect_owner ms p = elect_owner ns p"
  using elect_owner_least [OF assms(2), of p] elect_owner_least [OF assms(3), of p] assms(1)
  by (auto split: if_splits intro: order.antisym)

lemma remove_member_ids: "lm_user_id ` set (remove_member_from p ms) - {p} = lm_user_id ` set ms - {p}"
  by (induction ms) auto

lemma remove_member_subset: "set (remove_member_from p ms) \<subseteq> set ms"
  by (induction ms) auto

section \<open>The loss of a peer, when no send breaks\<close>

definition unbroken :: lost_in_send where
  "unbroken calls = []"

definition lost_entry :: "string \<Rightarrow> string \<Rightarrow> lobby_entry \<Rightarrow> lobby_entry option" where
  "lost_entry me p e =
     (if le_local_state e \<noteq> lobby_hosting \<and> li_owner_id (le_infos e) = p
      then
        let infos = remove_member p (le_infos e); heir = heir_of infos p
        in if heir = [] then None
           else Some (e\<lparr>le_infos := lobby_recount (infos\<lparr>li_owner_id := heir\<rparr>),
                  le_local_state := (if heir = me then lobby_hosting else lobby_joined)\<rparr>)
      else if le_local_state e = lobby_hosting \<and> find_member (le_infos e) p \<noteq> None
      then Some (e\<lparr>le_infos := lobby_recount (remove_member p (le_infos e))\<rparr>)
      else Some e)"

fun quiet_work :: "lobby_work \<Rightarrow> bool" where
  "quiet_work (w_lost _) = False"
| "quiet_work (w_scan _ _) = False"
| "quiet_work _ = True"

lemma hand_over_unbroken: "hand_over unbroken peer type payload st = (gone, st') \<Longrightarrow> gone = [] \<and> lo_lobbies st' = lo_lobbies st"
  by (auto simp: hand_over_def unbroken_def Let_def)


lemma find_lobby_put [simp]: "find_lobby i (put_lobby j e st) = (if i = j then Some e else find_lobby i st)"
  "find_lobby i (put_lobby_infos j e infos st) = (if i = j then Some (e\<lparr>le_infos := infos\<rparr>) else find_lobby i st)"
  "find_lobby i (erase_lobby j st) = (if i = j then None else find_lobby i st)"
  by (simp_all add: find_lobby_def put_lobby_def put_lobby_infos_def erase_lobby_def)

text \<open>A walk and a notification leave the table alone when nobody is lost.\<close>

lemma quiet_step:
  assumes "quiet_work w"
  shows "lo_lobbies (snd (lobby_work_step unbroken w st)) = lo_lobbies st \<and>
    (\<forall>v\<in>set (fst (lobby_work_step unbroken w st)). quiet_work v)"
proof (cases w)
  case (w_walk i type payload except k)
  obtain gone s where h: "hand_over unbroken (members_of i st ! k) type payload st = (gone, s)" by fastforce
  from hand_over_unbroken [OF h] show ?thesis by (simp add: w_walk h Let_def)
qed (use assms in \<open>simp_all add: fire_member_status_def fire_lobby_update_def\<close>)

lemma run_lobby_work_append: "run_lobby_work lost (ws @ vs) st = run_lobby_work lost vs (run_lobby_work lost ws st)"
proof (induction lost ws st rule: run_lobby_work.induct)
  case (2 lost w ws st)
  obtain calls st' where s: "lobby_work_step lost w st = (calls, st')" by fastforce
  from "2.IH" [OF s [symmetric]] show ?case by (simp add: run_lobby_work.simps(2) s)
qed simp

lemma quiet_run:
  assumes "\<forall>w\<in>set ws. quiet_work w"
  shows "lo_lobbies (run_lobby_work unbroken ws st) = lo_lobbies st"
proof -
  have "lost = unbroken \<Longrightarrow> \<forall>w\<in>set ws. quiet_work w \<Longrightarrow> lo_lobbies (run_lobby_work lost ws st) = lo_lobbies st" for lost
  proof (induction lost ws st rule: run_lobby_work.induct)
    case (2 lost w ws st)
    obtain calls st' where s: "lobby_work_step lost w st = (calls, st')" by fastforce
    have "quiet_work w" using "2.prems" by simp
    from quiet_step [OF this, of st] s "2.prems"(1)
    have "lo_lobbies st' = lo_lobbies st" and "\<forall>v\<in>set (calls @ ws). quiet_work v" using "2.prems"(2) by auto
    with "2.IH" [OF s [symmetric] "2.prems"(1)] show ?case by (simp add: run_lobby_work.simps(2) s)
  qed simp
  with assms show ?thesis by simp
qed

lemma quiet_lose: "\<forall>w\<in>set (fst (lose_in p i st)). quiet_work w"
  by (auto simp: lose_in_def lose_owner_def lose_member_def walk_infos_def Let_def split: option.splits if_splits)

lemma lose_in_find:
  "find_lobby i (snd (lose_in p j st)) =
     (if i = j then Option.bind (find_lobby i st) (lost_entry (lo_product_user_id st) p) else find_lobby i st)"
  by (auto simp: lose_in_def lose_owner_def lose_member_def lost_entry_def Let_def split: option.split)

lemma scan_find:
  assumes "distinct ids"
  shows "find_lobby i (run_lobby_work unbroken [w_scan p ids] st) =
    (if i \<in> set ids then Option.bind (find_lobby i st) (lost_entry (lo_product_user_id st) p) else find_lobby i st)"
  using assms
proof (induction ids arbitrary: st)
  case (Cons j ids)
  obtain calls s where l: "lose_in p j st = (calls, s)" by fastforce
  have "run_lobby_work unbroken [w_scan p (j # ids)] st = run_lobby_work unbroken (calls @ [w_scan p ids]) s"
    by (simp add: run_lobby_work.simps(2) l)
  also have "\<dots> = run_lobby_work unbroken [w_scan p ids] (run_lobby_work unbroken calls s)"
    by (rule run_lobby_work_append)
  finally have r: "run_lobby_work unbroken [w_scan p (j # ids)] st =
      run_lobby_work unbroken [w_scan p ids] (run_lobby_work unbroken calls s)" .
  have "lo_lobbies (run_lobby_work unbroken calls s) = lo_lobbies s"
    using quiet_run quiet_lose [of p j st] l by simp
  then have f: "find_lobby k (run_lobby_work unbroken calls s) = find_lobby k s" for k by (simp add: find_lobby_def)
  have s: "find_lobby k s = (if k = j then Option.bind (find_lobby k st) (lost_entry (lo_product_user_id st) p)
      else find_lobby k st)" for k
    using lose_in_find [of k p j st] l by simp
  have u: "lo_product_user_id s = lo_product_user_id st"
    using mesh_only_keeps(1) [OF mesh_only_lose, of p j st] l by simp
  show ?case using Cons by (auto simp: r f s u)
qed (simp add: run_lobby_work.simps(2))

lemma peer_lost_find:
  assumes "om_ok (lo_lobbies st)" and "p \<noteq> []" and "p \<noteq> lo_product_user_id st"
  shows "find_lobby i (run_lobby_work unbroken [w_lost p] st) =
    Option.bind (find_lobby i st) (lost_entry (lo_product_user_id st) p)"
proof -
  have "distinct (map fst (lo_lobbies st))" by (rule om_ok_distinct [OF assms(1)])
  moreover have "i \<notin> set (map fst (lo_lobbies st)) \<Longrightarrow> find_lobby i st = None"
    by (simp add: find_lobby_def om_find_None)
  ultimately show ?thesis
    using assms scan_find [of "map fst (lo_lobbies st)" i p st] by (auto simp: run_lobby_work.simps(2))
qed

section \<open>The owner is lost\<close>

lemma disconnect_find:
  assumes "om_ok (lo_lobbies st)" and "env_type_tag m = tag_of peer_disconnected" and "env_source_id m = p"
    and "p \<noteq> []" and "p \<noteq> lo_product_user_id st"
  shows "find_lobby i (snd (lobby_on_network_message unbroken connect m st)) =
    Option.bind (find_lobby i st) (lost_entry (lo_product_user_id st) p)"
  using assms peer_lost_find [OF assms(1,4,5)] by (simp add: lobby_on_network_message_def Let_def)

lemma heir_least:
  assumes "[] \<notin> member_ids infos" and "q \<in> member_ids infos" and "q \<noteq> p" and "li_allow_host_migration infos"
  shows "heir_of (remove_member p infos) p \<in> member_ids infos - {p}"
    and "\<forall>r\<in>member_ids infos - {p}. heir_of (remove_member p infos) p \<le> r"
proof -
  have left: "lm_user_id ` set (remove_member_from p (li_members infos)) - {p} = member_ids infos - {p}"
    by (simp add: remove_member_ids member_ids_def)
  have "[] \<notin> lm_user_id ` set (remove_member_from p (li_members infos))"
    using assms(1) remove_member_subset [of p "li_members infos"] by (auto simp: member_ids_def)
  note least = elect_owner_least [OF this, of p, unfolded left]
  have "member_ids infos - {p} \<noteq> {}" using assms(2,3) by auto
  note least = least [unfolded if_not_P [OF this]]
  have "heir_of (remove_member p infos) p = elect_owner (remove_member_from p (li_members infos)) p"
    using assms(4) by (simp add: heir_of_def) (simp add: remove_member_def)
  with least show "heir_of (remove_member p infos) p \<in> member_ids infos - {p}"
    "\<forall>r\<in>member_ids infos - {p}. heir_of (remove_member p infos) p \<le> r" by simp_all
qed

text \<open>What a survivor makes of a lobby that was the lost peer's.\<close>

definition inherited :: "string \<Rightarrow> string \<Rightarrow> lobby_entry option \<Rightarrow> bool" where
  "inherited me heir found \<longleftrightarrow>
     (\<exists>e. found = Some e \<and> li_owner_id (le_infos e) = heir \<and>
        (le_local_state e = (if me = heir then lobby_hosting else lobby_joined)))"

lemma survivor_inherits:
  assumes "om_ok (lo_lobbies st)" and "env_type_tag m = tag_of peer_disconnected" and "env_source_id m = p" and "p \<noteq> []"
    and "find_lobby i st = Some e" and "le_local_state e \<noteq> lobby_hosting" and "li_owner_id (le_infos e) = p"
    and "lo_product_user_id st = me" and "me \<noteq> p" and "me \<in> member_ids (le_infos e)" and "[] \<notin> member_ids (le_infos e)"
  shows "if li_allow_host_migration (le_infos e)
    then inherited me (heir_of (remove_member p (le_infos e)) p)
           (find_lobby i (snd (lobby_on_network_message unbroken connect m st)))
    else find_lobby i (snd (lobby_on_network_message unbroken connect m st)) = None"
proof -
  have "p \<noteq> lo_product_user_id st" using assms(8,9) by simp
  note found = disconnect_find [OF assms(1-4) this, of i connect]
  have lost: "lost_entry me p e = (let heir = heir_of (remove_member p (le_infos e)) p in
      if heir = [] then None
      else Some (e\<lparr>le_infos := lobby_recount ((remove_member p (le_infos e))\<lparr>li_owner_id := heir\<rparr>),
             le_local_state := (if heir = me then lobby_hosting else lobby_joined)\<rparr>))"
    using assms(6,7) by (simp add: lost_entry_def Let_def)
  show ?thesis
  proof (cases "li_allow_host_migration (le_infos e)")
    case True
    from heir_least(1) [OF assms(11,10,9) True] assms(11)
    have "heir_of (remove_member p (le_infos e)) p \<noteq> []" by auto
    then show ?thesis using True assms(5,8) by (auto simp: found lost inherited_def)
  next
    case False
    then have "heir_of (remove_member p (le_infos e)) p = []" by (simp add: heir_of_def)
    then show ?thesis using False assms(5,8) by (simp add: found lost)
  qed
qed

text \<open>C35. When the owner of a lobby is lost, any two survivors that know the same members come to the
  same result without a word: with host migration the least remaining member owns the lobby, hosts it,
  and every other survivor follows it; without, the lobby is gone for all.\<close>

theorem survivors_agree_on_the_heir:
  assumes "om_ok (lo_lobbies A)" and "om_ok (lo_lobbies B)"
    and "lo_product_user_id A = a" and "lo_product_user_id B = b"
    and "find_lobby i A = Some e" and "le_local_state e \<noteq> lobby_hosting" and "li_owner_id (le_infos e) = p"
    and "find_lobby i B = Some f" and "le_local_state f \<noteq> lobby_hosting" and "li_owner_id (le_infos f) = p"
    and "member_ids (le_infos f) = member_ids (le_infos e)"
    and "li_allow_host_migration (le_infos f) = li_allow_host_migration (le_infos e)"
    and "{a, b} \<subseteq> member_ids (le_infos e)" and "[] \<notin> member_ids (le_infos e)" and "p \<notin> {a, b, []}"
    and "env_type_tag m = tag_of peer_disconnected" and "env_source_id m = p"
    and "A' = snd (lobby_on_network_message unbroken ca m A)" and "B' = snd (lobby_on_network_message unbroken cb m B)"
  shows "if li_allow_host_migration (le_infos e)
    then \<exists>heir\<in>member_ids (le_infos e) - {p}. (\<forall>q\<in>member_ids (le_infos e) - {p}. heir \<le> q) \<and>
           inherited a heir (find_lobby i A') \<and> inherited b heir (find_lobby i B')
    else find_lobby i A' = None \<and> find_lobby i B' = None"
proof -
  let ?h = "heir_of (remove_member p (le_infos e)) p" and ?k = "heir_of (remove_member p (le_infos f)) p"
  have "p \<noteq> []" "a \<noteq> p" "b \<noteq> p" "a \<in> member_ids (le_infos e)" "b \<in> member_ids (le_infos f)"
    "[] \<notin> member_ids (le_infos f)"
    using assms(11,13-15) by auto
  note A = survivor_inherits [OF assms(1,16,17) this(1) assms(5-7,3) this(2,4) assms(14), of ca, folded assms(18)]
    and B = survivor_inherits [OF assms(2,16,17) this(1) assms(8-10,4) this(3,5,6), of cb, folded assms(19)]
  show ?thesis
  proof (cases "li_allow_host_migration (le_infos e)")
    case True
    note h = heir_least [OF assms(14) \<open>a \<in> _\<close> \<open>a \<noteq> p\<close> True]
    note k = heir_least [OF \<open>[] \<notin> member_ids (le_infos f)\<close> \<open>b \<in> _\<close> \<open>b \<noteq> p\<close>, unfolded assms(11,12), OF True]
    have "?k = ?h" using h k by (intro order.antisym) auto
    then show ?thesis using A B True assms(12) h by auto
  next
    case False
    then show ?thesis using A B assms(12) by simp
  qed
qed

section \<open>Two ways to lose the host\<close>

text \<open>A property that calls keep which are about other players is kept when nothing else is on the stack.\<close>

lemma run_work_about_others:
  assumes step: "\<And>w s. P s \<Longrightarrow> Q w \<Longrightarrow> P (snd (lobby_work_step lost w s)) \<and> (\<forall>v\<in>set (fst (lobby_work_step lost w s)). Q v)"
  shows "P st \<Longrightarrow> \<forall>w\<in>set ws. Q w \<Longrightarrow> P (run_lobby_work lost ws st)"
proof -
  have "lost' = lost \<Longrightarrow> P st \<Longrightarrow> \<forall>w\<in>set ws. Q w \<Longrightarrow> P (run_lobby_work lost' ws st)" for lost'
  proof (induction lost' ws st rule: run_lobby_work.induct)
    case (2 lost' w ws st)
    obtain calls st' where s: "lobby_work_step lost' w st = (calls, st')" by fastforce
    have "P st'" and "\<forall>v\<in>set (calls @ ws). Q v" using step [of st w] "2.prems" s by auto
    from "2.IH" [OF s [symmetric] "2.prems"(1) this] show ?case by (simp add: run_lobby_work.simps(2) s)
  qed simp
  then show "P st \<Longrightarrow> \<forall>w\<in>set ws. Q w \<Longrightarrow> P (run_lobby_work lost ws st)" by blast
qed

fun not_about :: "string \<Rightarrow> lobby_work \<Rightarrow> bool" where
  "not_about me (w_scan p ids) = (p \<noteq> me)"
| "not_about me _ = True"

lemma lose_in_not_about: "\<forall>w\<in>set (fst (lose_in p i st)). not_about me w"
  by (auto simp: lose_in_def lose_owner_def lose_member_def walk_infos_def Let_def split: option.splits if_splits)

lemma unhosted_stays:
  assumes "find_lobby i st = Some e" and "le_local_state e \<noteq> lobby_hosting" and "li_owner_id (le_infos e) = lo_product_user_id st"
    and "\<forall>w\<in>set ws. not_about (lo_product_user_id st) w"
  shows "find_lobby i (run_lobby_work lost ws st) = Some e"
proof -
  let ?me = "lo_product_user_id st"
  let ?P = "\<lambda>s. find_lobby i s = Some e \<and> lo_product_user_id s = ?me"
  have "?P (snd (lobby_work_step lost w s)) \<and> (\<forall>v\<in>set (fst (lobby_work_step lost w s)). not_about ?me v)"
    if s: "?P s" and w: "not_about ?me w" for w s
  proof -
    have lose: "find_lobby i (snd (lose_in p j s)) = Some e" if "p \<noteq> ?me" for p j
      using s that assms(2,3) by (auto simp: lose_in_find lost_entry_def)
    have same: "find_lobby i (snd (hand_over lost p t y s)) = Some e" for p t y
      using s by (simp add: find_lobby_def hand_over_def Let_def)
    show ?thesis
      using s w lose same lose_in_not_about mesh_only_keeps(1) [OF mesh_only_step, of lost w s]
      by (cases "(lost, w, s)" rule: lobby_work_step.cases)
        (auto simp: Let_def case_prod_beta find_lobby_def fire_member_status_def fire_lobby_update_def)
  qed
  then have "?P (run_lobby_work lost ws st)"
    by (rule run_work_about_others [where Q = "not_about ?me"]) (use assms in auto)
  then show ?thesis by simp
qed

text \<open>C36. An owner who promotes itself stops hosting while it stays the owner: its lobby is then nobody's,
  whoever is lost meanwhile, and every join request for it goes unanswered.\<close>

theorem self_promotion_orphans_the_lobby:
  assumes "find_lobby i st = Some e" and "le_local_state e = lobby_hosting"
    and "find_member (le_infos e) (lo_product_user_id st) \<noteq> None"
    and "st' = promote_member lost now (Some (Some i, Some user, Some (lo_product_user_id st))) client_data (Some d) st"
  shows "\<exists>e'. find_lobby i st' = Some e' \<and> li_owner_id (le_infos e') = lo_product_user_id st \<and>
      le_local_state e' = lobby_joined \<and>
      (\<forall>lost connect source request. ljq_lobby_id request = i \<longrightarrow>
         on_lobby_join_request lost connect source request st' = st')"
proof -
  let ?e = "e\<lparr>le_infos := (le_infos e)\<lparr>li_owner_id := lo_product_user_id st\<rparr>, le_local_state := lobby_joined\<rparr>"
  obtain m where m: "find_member (le_infos e) (lo_product_user_id st) = Some m" using assms(3) by blast
  have "\<forall>w\<in>set (walk_infos i (put_lobby i ?e st)). not_about (lo_product_user_id st) w"
    by (simp add: walk_infos_def)
  then have "find_lobby i (broadcast_lobby lost i (put_lobby i ?e st)) = Some ?e"
    unfolding broadcast_lobby_def by (intro unhosted_stays) simp_all
  moreover have "st' = deliver_id now cb_lobby_promote d client_data EOS_Success i
      (fire_member_status i (lo_product_user_id st) lms_promoted (broadcast_lobby lost i (put_lobby i ?e st)))"
    using assms(1,2) m by (simp add: assms(4) promote_member_def)
  ultimately have "find_lobby i st' = Some ?e"
    by (simp add: find_lobby_def fire_member_status_def)
  then show ?thesis by (simp add: on_lobby_join_request_def)
qed

interpretation table: lobby_law "\<lambda>_ _. True" me for me
  by unfold_locales simp_all

lemma disconnect_table:
  assumes "om_ok (lo_lobbies st)" and "env_type_tag m = tag_of peer_disconnected"
  shows "om_ok (lo_lobbies (snd (lobby_on_network_message lost connect m st)))"
proof -
  have "lobbies_ok (\<lambda>_ _. True) st" using assms(1) by (simp add: lobbies_ok_def)
  from table.run_law [OF this refl, of lost "[w_lost (env_source_id m)]"] show ?thesis
    using assms by (simp add: lobby_on_network_message_def Let_def lobbies_ok_def)
qed

text \<open>A member that does not host forgets nobody when another member is lost, and the election asks
  the roster alone: if the owner is lost right after the member next in line, the survivors make that
  lost member the owner, and the lobby is left without a host.\<close>

theorem a_lost_member_can_inherit:
  assumes "om_ok (lo_lobbies st)" and "find_lobby i st = Some e" and "le_local_state e \<noteq> lobby_hosting"
    and "li_owner_id (le_infos e) = p" and "li_allow_host_migration (le_infos e)"
    and "q \<in> member_ids (le_infos e)" and "q \<notin> {p, lo_product_user_id st}" and "[] \<notin> member_ids (le_infos e)"
    and "\<forall>r\<in>member_ids (le_infos e) - {p}. q \<le> r" and "p \<notin> {lo_product_user_id st, []}"
    and "env_type_tag m1 = tag_of peer_disconnected" and "env_source_id m1 = q"
    and "env_type_tag m2 = tag_of peer_disconnected" and "env_source_id m2 = p"
    and "st1 = snd (lobby_on_network_message unbroken connect m1 st)"
    and "st2 = snd (lobby_on_network_message unbroken connect m2 st1)"
  shows "\<exists>e'. find_lobby i st2 = Some e' \<and> li_owner_id (le_infos e') = q \<and> le_local_state e' = lobby_joined"
proof -
  have q: "q \<noteq> []" "q \<noteq> p" "q \<noteq> lo_product_user_id st" using assms(6-8) by auto
  have me: "lo_product_user_id st1 = lo_product_user_id st" by (simp add: assms(15) message_user)
  have "find_lobby i st1 = Some e"
    using disconnect_find [OF assms(1,11,12) q(1,3), of i connect] assms(2-4,15) q(2) by (simp add: lost_entry_def)
  moreover have "om_ok (lo_lobbies st1)" unfolding assms(15) by (rule disconnect_table [OF assms(1,11)])
  moreover have "heir_of (remove_member p (le_infos e)) p = q"
    using heir_least [OF assms(8,6) q(2) assms(5)] assms(6,9) q(2) by (intro order.antisym) auto
  ultimately show ?thesis
    using disconnect_find [of st1 m2 p i connect] assms(3,4,10,13,14,16) q me
    by (simp add: lost_entry_def Let_def)
qed

section \<open>Witnesses\<close>

text \<open>A lobby of three: \<open>boss\<close> owns it, \<open>ann\<close> and \<open>bob\<close> are on it.\<close>

definition team_lobby :: lobby_infos where
  "team_lobby = new_lobby_infos\<lparr>li_lobby_id := ''L'', li_owner_id := ''boss'', li_max_members := 4,
     li_allow_host_migration := True, li_members := map new_lobby_member [''boss'', ''ann'', ''bob'']\<rparr>"

definition with_team :: "string \<Rightarrow> sdk_lobby" where
  "with_team me = (new_sdk_lobby me ''g'' 7)\<lparr>lo_lobbies := [(''L'', \<lparr>le_infos = team_lobby, le_local_user = me,
     le_local_state = (if me = ''boss'' then lobby_hosting else lobby_joined)\<rparr>)]\<rparr>"

definition gone_message :: "string \<Rightarrow> net_envelope" where
  "gone_message p = \<lparr>env_type_tag = tag_of peer_disconnected, env_source_id = p, env_dest_id = [], env_game_id = ''g'',
     env_timestamp = 0, env_payload = []\<rparr>"

lemma with_team_simps:
  "om_ok (lo_lobbies (with_team me))" "lo_product_user_id (with_team me) = me"
  "find_lobby ''L'' (with_team me) = Some \<lparr>le_infos = team_lobby, le_local_user = me,
     le_local_state = (if me = ''boss'' then lobby_hosting else lobby_joined)\<rparr>"
  "member_ids team_lobby = {''boss'', ''ann'', ''bob''}" "li_allow_host_migration team_lobby"
  "li_owner_id team_lobby = ''boss''"
  by (auto simp: with_team_def new_sdk_lobby_def om_ok_def find_lobby_def om_find_Cons member_ids_def team_lobby_def
      new_lobby_infos_def new_lobby_member_def)

lemmas ann_team = with_team_simps(1-3) [where me = "''ann''"]
lemmas bob_team = with_team_simps(1-3) [where me = "''bob''"]
lemmas boss_team = with_team_simps(1-3) [where me = "''boss''"]

lemma gone_message_simps [simp]:
  "env_type_tag (gone_message p) = tag_of peer_disconnected" "env_source_id (gone_message p) = p"
  by (simp_all add: gone_message_def)

definition own_lobby_ops :: "lobby_op list" where
  "own_lobby_ops = [lop_init, lop_create None 0 (Some (versioned 8 \<lparr>clo_local_user_id = Some ''boss'',
     clo_max_lobby_members = 4, clo_permission_level = 0, clo_allow_invites = True, clo_bucket_id = None,
     clo_disable_host_migration = False, clo_enable_rtc_room = False, clo_lobby_id = Some ''L'',
     clo_enable_join_by_id = True\<rparr>)) 0 (Some 1)]"

theorem we_host_exactly_what_we_own_witness:
  "\<exists>e. find_lobby ''L'' (run (lobby_do unbroken) (new_sdk_lobby ''boss'' ''g'' 7) own_lobby_ops) = Some e \<and>
     le_local_state e = lobby_hosting \<and> li_owner_id (le_infos e) = ''boss''"
proof -
  obtain e where e: "find_lobby ''L'' (run (lobby_do unbroken) (new_sdk_lobby ''boss'' ''g'' 7) own_lobby_ops) = Some e"
      "le_local_state e = lobby_hosting"
    by (auto simp: own_lobby_ops_def lobby_emu_init_def new_sdk_lobby_def create_lobby_def Let_def version_ok_def
        createlobby_with_lobby_id_def find_lobby_def put_lobby_def om_find_Cons created_lobby_def)
  have "\<forall>op\<in>set own_lobby_ops. own_op ''boss'' op" by (simp add: own_lobby_ops_def)
  with we_host_exactly_what_we_own [OF refl this _ e(1)] e show ?thesis by auto
qed

theorem survivors_agree_on_the_heir_witness:
  "\<exists>heir. inherited ''ann'' heir (find_lobby ''L'' (snd (lobby_on_network_message unbroken
       (new_sdk_connect ''ann'' ''g'' ''A'') (gone_message ''boss'') (with_team ''ann'')))) \<and>
     inherited ''bob'' heir (find_lobby ''L'' (snd (lobby_on_network_message unbroken
       (new_sdk_connect ''bob'' ''g'' ''B'') (gone_message ''boss'') (with_team ''bob''))))"
proof -
  have "if li_allow_host_migration team_lobby
    then \<exists>heir\<in>member_ids team_lobby - {''boss''}. (\<forall>q\<in>member_ids team_lobby - {''boss''}. heir \<le> q) \<and>
      inherited ''ann'' heir (find_lobby ''L'' (snd (lobby_on_network_message unbroken
        (new_sdk_connect ''ann'' ''g'' ''A'') (gone_message ''boss'') (with_team ''ann'')))) \<and>
      inherited ''bob'' heir (find_lobby ''L'' (snd (lobby_on_network_message unbroken
        (new_sdk_connect ''bob'' ''g'' ''B'') (gone_message ''boss'') (with_team ''bob''))))
    else find_lobby ''L'' (snd (lobby_on_network_message unbroken
        (new_sdk_connect ''ann'' ''g'' ''A'') (gone_message ''boss'') (with_team ''ann''))) = None \<and>
      find_lobby ''L'' (snd (lobby_on_network_message unbroken
        (new_sdk_connect ''bob'' ''g'' ''B'') (gone_message ''boss'') (with_team ''bob''))) = None"
    using survivors_agree_on_the_heir [OF ann_team(1) bob_team(1) ann_team(2) bob_team(2) ann_team(3) _ _ bob_team(3)
        _ _ _ _ _ _ _ gone_message_simps [where p = "''boss''"] refl refl]
    by (simp add: with_team_simps(4-6))
  then show ?thesis using with_team_simps(5) by (simp only: if_True) blast
qed

theorem self_promotion_orphans_the_lobby_witness:
  "\<exists>e'. find_lobby ''L'' (promote_member unbroken 0 (Some (Some ''L'', Some ''boss'', Some ''boss'')) 0 (Some 7)
       (with_team ''boss'')) = Some e' \<and> li_owner_id (le_infos e') = ''boss'' \<and> le_local_state e' = lobby_joined"
proof -
  have "find_member team_lobby ''boss'' \<noteq> None" by (simp add: team_lobby_def find_member_def new_lobby_member_def)
  then show ?thesis
    using self_promotion_orphans_the_lobby [OF boss_team(3) _ _ refl, unfolded boss_team(2),
        where lost = unbroken and now = 0 and user = "''boss''" and client_data = 0 and d = 7] by auto
qed

theorem a_lost_member_can_inherit_witness:
  "\<exists>e'. find_lobby ''L'' (snd (lobby_on_network_message unbroken (new_sdk_connect ''bob'' ''g'' ''B'') (gone_message ''boss'')
       (snd (lobby_on_network_message unbroken (new_sdk_connect ''bob'' ''g'' ''B'') (gone_message ''ann'') (with_team ''bob''))))) =
     Some e' \<and> li_owner_id (le_infos e') = ''ann'' \<and> le_local_state e' = lobby_joined"
  by (rule a_lost_member_can_inherit [OF with_team_simps(1,3) _ _ _ _ _ _ _ _ gone_message_simps gone_message_simps refl refl])
    (auto simp: with_team_simps)

end
