(* ===== verification/Notices.thy ===== *)
theory Notices
  imports Eos_Types Callbacks
begin

text \<open>
  What interfaces do with the callback manager: a completion that is done when it is queued, and the
  firing of notifications.  A notification is looked up again right before it is fired; its fields are
  written into the registered result and its delegate is handed them.  The delegates are recorded with
  what they hear, in order; one that calls back while it is fired is not modelled.
\<close>

definition blank_result :: "'p \<Rightarrow> 'p frame_result" where
  "blank_result payload = \<lparr>fr_type_id = 0, fr_payload = payload, fr_func = None, fr_ok_timeout = 0,
     fr_created_time = 0, fr_done = False, fr_remove_on_timeout = False\<rparr>"

definition new_result :: "msec \<Rightarrow> int \<Rightarrow> 'p \<Rightarrow> nat \<Rightarrow> 'p frame_result" where
  "new_result now type info delegate = create_callback now type info (Some delegate) 0 (blank_result info)"

definition done_result :: "msec \<Rightarrow> int \<Rightarrow> 'p \<Rightarrow> nat \<Rightarrow> 'p frame_result" where
  "done_result now type info delegate = (new_result now type info delegate)\<lparr>fr_done := True\<rparr>"

definition add_notice :: "nat \<Rightarrow> msec \<Rightarrow> int \<Rightarrow> 'p \<Rightarrow> nat option \<Rightarrow> 'p callback_manager \<Rightarrow> u64 \<times> 'p callback_manager" where
  "add_notice owner now type info delegate cm =
     (case delegate of None \<Rightarrow> (0, cm) | Some d \<Rightarrow> add_notification owner (new_result now type info d) cm)"

definition fire_notice :: "nat \<Rightarrow> ('p \<Rightarrow> 'p) \<Rightarrow> u64 \<Rightarrow> 'p callback_manager \<Rightarrow> (nat \<times> 'p) list \<times> 'p callback_manager" where
  "fire_notice owner fill i cm =
     (case find_notification owner i cm of
        None \<Rightarrow> ([], cm)
      | Some note \<Rightarrow>
          let info = fill (fr_payload note)
          in (case fr_func note of None \<Rightarrow> [] | Some delegate \<Rightarrow> [(delegate, info)],
              cm\<lparr>cm_notifications := om_put owner
                  (om_put i (note\<lparr>fr_payload := info\<rparr>) (om_at owner [] (cm_notifications cm)))
                  (cm_notifications cm)\<rparr>))"

fun fire_each :: "nat \<Rightarrow> ('p \<Rightarrow> 'p) \<Rightarrow> u64 list \<Rightarrow> 'p callback_manager \<Rightarrow> (nat \<times> 'p) list \<times> 'p callback_manager" where
  "fire_each owner fill [] cm = ([], cm)"
| "fire_each owner fill (i # is) cm =
     (case fire_notice owner fill i cm of
        (heard, cm1) \<Rightarrow> (case fire_each owner fill is cm1 of (heard', cm2) \<Rightarrow> (heard @ heard', cm2)))"

definition fire_notices :: "nat \<Rightarrow> int \<Rightarrow> ('p \<Rightarrow> 'p) \<Rightarrow> 'p callback_manager \<Rightarrow> (nat \<times> 'p) list \<times> 'p callback_manager" where
  "fire_notices owner type fill cm = fire_each owner fill (notification_ids owner type cm) cm"

text \<open>The queues are not touched by a firing.\<close>

lemma fire_notice_queues [simp]:
  "cm_callbacks_to_run (snd (fire_notice owner fill i cm)) = cm_callbacks_to_run cm"
  by (simp add: fire_notice_def Let_def split: option.split)

lemma fire_each_queues [simp]:
  "cm_callbacks_to_run (snd (fire_each owner fill is cm)) = cm_callbacks_to_run cm"
  by (induction "is" arbitrary: cm) (simp_all add: split_beta)

lemma fire_notices_queues [simp]:
  "cm_callbacks_to_run (snd (fire_notices owner type fill cm)) = cm_callbacks_to_run cm"
  by (simp add: fire_notices_def)

text \<open>
  Every delegate registered for the event hears it once, in the order of the ids, with the fields
  written into what it registered.
\<close>

lemma fire_notice_others:
  "j \<noteq> i \<Longrightarrow> find_notification owner j (snd (fire_notice owner fill i cm)) = find_notification owner j cm"
  by (auto simp: fire_notice_def find_notification_def om_at_def Let_def split: option.splits)

lemma fire_notice_heard:
  "fst (fire_notice owner fill i cm) =
     (case find_notification owner i cm of
        None \<Rightarrow> []
      | Some note \<Rightarrow> (case fr_func note of None \<Rightarrow> [] | Some d \<Rightarrow> [(d, fill (fr_payload note))]))"
  by (simp add: fire_notice_def Let_def split: option.split)

lemma fire_each_heard:
  "distinct is \<Longrightarrow>
   fst (fire_each owner fill is cm) =
     concat (map (\<lambda>i. case find_notification owner i cm of
        None \<Rightarrow> []
      | Some note \<Rightarrow> (case fr_func note of None \<Rightarrow> [] | Some d \<Rightarrow> [(d, fill (fr_payload note))])) is)"
proof (induction "is" arbitrary: cm)
  case (Cons i "is")
  have "find_notification owner j (snd (fire_notice owner fill i cm)) = find_notification owner j cm"
    if "j \<in> set is" for j
    using that Cons.prems by (intro fire_notice_others) auto
  then have "map (\<lambda>j. case find_notification owner j (snd (fire_notice owner fill i cm)) of None \<Rightarrow> []
        | Some note \<Rightarrow> (case fr_func note of None \<Rightarrow> [] | Some d \<Rightarrow> [(d, fill (fr_payload note))])) is =
      map (\<lambda>j. case find_notification owner j cm of None \<Rightarrow> []
        | Some note \<Rightarrow> (case fr_func note of None \<Rightarrow> [] | Some d \<Rightarrow> [(d, fill (fr_payload note))])) is"
    by (intro map_cong) auto
  with Cons.IH [of "snd (fire_notice owner fill i cm)"] Cons.prems
  show ?case by (simp add: split_beta fire_notice_heard)
qed simp

end
