(* ===== verification/Presence.thy ===== *)
theory Presence
  imports Notices Handles Wire
begin

text \<open>
  \<^verbatim>\<open>interfaces/presence.cpp\<close>: what we say of ourselves, staged and then set; what each peer said of the
  account its key derives; and the questions that wait for an answer.  Results are named by the order
  of their creation.  A send may lose peers, and the handler forgets them before the send returns.  The
  array of an option struct holds as many entries as its count says.
\<close>

section \<open>Constants\<close>

definition cb_presence_query :: int where "cb_presence_query = 1"
definition cb_presence_set :: int where "cb_presence_set = 2"
definition cb_presence_changed :: int where "cb_presence_changed = 3"
definition cb_join_accepted :: int where "cb_join_accepted = 4"

definition query_timeout :: msec where "query_timeout = 1000"

definition max_data_keys :: nat where "max_data_keys = 32"
definition max_key_length :: nat where "max_key_length = 64"
definition max_value_length :: nat where "max_value_length = 255"
definition max_rich_text_length :: nat where "max_rich_text_length = 255"
definition max_join_info_length :: nat where "max_join_info_length = 255"

definition pst_offline :: i32 where "pst_offline = 0"
definition pst_online :: i32 where "pst_online = 1"
definition pst_do_not_disturb :: i32 where "pst_do_not_disturb = 4"

lemmas presence_caps = max_data_keys_def max_key_length_def max_value_length_def max_rich_text_length_def
  max_join_info_length_def

section \<open>State\<close>

record presence_modification =
  pm_set_status :: bool
  pm_status :: i32
  pm_set_rich_text :: bool
  pm_rich_text :: string
  pm_set_join_info :: bool
  pm_join_info :: string
  pm_data_set :: "presence_data_record list"
  pm_data_deleted :: "string list"

record pending_query =
  pdq_local_id :: string
  pdq_target_id :: string
  pdq_deadline :: msec

text \<open>The fields of the callback infos, over all of them.\<close>

record presence_callback =
  pcb_code :: eos_result
  pcb_client_data :: nat
  pcb_local :: id_handle
  pcb_target :: id_handle
  pcb_rich_code :: eos_result

text \<open>What \<^verbatim>\<open>CopyPresence\<close> hands out.\<close>

record presence_view =
  pv_status :: i32
  pv_user_id :: id_handle
  pv_product_id :: string
  pv_product_version :: string
  pv_platform :: string
  pv_rich_text :: string
  pv_records :: "presence_data_record list"
  pv_product_name :: string
  pv_integrated_platform :: string

text \<open>
  \<open>sp_mesh\<close> is who is connected, as \<^verbatim>\<open>network_.peer_ids()\<close> lists them; \<open>sp_platform\<close> is the name of the
  system the library was built for.
\<close>

record sdk_presence =
  sp_epic_id :: string
  sp_product_user_id :: string
  sp_product_id :: string
  sp_platform :: string
  sp_mesh :: "string list"
  sp_calls :: "mesh_call list"
  sp_presences :: "(string, presence_info) omap"
  sp_epic_owner :: "(string, string) omap"
  sp_peer_epic :: "(string, string) omap"
  sp_handle_counter :: u64
  sp_modifications :: "presence_modification handle_store"
  sp_pending_queries :: "(nat, pending_query) omap"
  sp_registered :: bool
  sp_results :: "(nat \<times> presence_callback frame_result) list"
  sp_ready :: "(nat \<times> presence_callback frame_result) list"
  sp_next_result :: nat
  sp_owner :: nat
  sp_callbacks :: "presence_callback callback_manager"
  sp_heard :: "(nat \<times> presence_callback) list"
  sp_infos :: "(nat, presence_view) omap"
  sp_next_pointer :: nat

definition new_sdk_presence :: "string \<Rightarrow> string \<Rightarrow> string \<Rightarrow> string \<Rightarrow> nat \<Rightarrow> sdk_presence" where
  "new_sdk_presence epic_id product_user_id product_id platform owner =
     \<lparr>sp_epic_id = epic_id, sp_product_user_id = product_user_id, sp_product_id = product_id,
      sp_platform = platform, sp_mesh = [], sp_calls = [], sp_presences = [], sp_epic_owner = [],
      sp_peer_epic = [], sp_handle_counter = 1, sp_modifications = [], sp_pending_queries = [],
      sp_registered = False, sp_results = [], sp_ready = [], sp_next_result = 1, sp_owner = owner,
      sp_callbacks = new_callback_manager, sp_heard = [], sp_infos = [], sp_next_pointer = 1\<rparr>"

definition presence_message_types :: "message_type list" where
  "presence_message_types = [mt_presence_request, mt_presence_info, peer_connected, peer_disconnected]"

definition seeded_presence :: "sdk_presence \<Rightarrow> presence_info" where
  "seeded_presence st =
     \<lparr>pi_epic_id = sp_epic_id st, pi_status = pst_online, pi_product_id = sp_product_id st,
      pi_product_version = ''1.0'', pi_platform = sp_platform st, pi_rich_text = [],
      pi_product_name = sp_product_id st, pi_integrated_platform = [], pi_join_info = [], pi_records = []\<rparr>"

definition seed_myself :: "sdk_presence \<Rightarrow> sdk_presence" where
  "seed_myself st =
     (if sp_epic_id st = [] then st
      else st\<lparr>sp_presences := om_put (sp_epic_id st) (seeded_presence st) (sp_presences st)\<rparr>)"

definition presence_emu_init :: "sdk_presence \<Rightarrow> sdk_presence" where
  "presence_emu_init st =
     (if sp_registered st then st
      else (seed_myself (st\<lparr>sp_callbacks := register_callbacks (sp_owner st) (register_frame (sp_owner st) (sp_callbacks st)),
              sp_calls := sp_calls st @ map mesh_listen presence_message_types\<rparr>))\<lparr>sp_registered := True\<rparr>)"

definition presence_emu_deinit :: "sdk_presence \<Rightarrow> sdk_presence" where
  "presence_emu_deinit st =
     (if \<not> sp_registered st then st
      else st\<lparr>sp_calls := sp_calls st @ map mesh_unlisten presence_message_types,
              sp_callbacks := unregister_frame (sp_owner st) (fst (unregister_callbacks (sp_owner st) (sp_callbacks st))),
              sp_results := [], sp_presences := [], sp_epic_owner := [], sp_peer_epic := [],
              sp_modifications := hs_clear (sp_modifications st), sp_pending_queries := [],
              sp_registered := False\<rparr>)"

definition find_presence :: "string \<Rightarrow> sdk_presence \<Rightarrow> presence_info option" where
  "find_presence epic_id st = om_find epic_id (sp_presences st)"

section \<open>Rules for a presence\<close>

definition presence_within_caps :: "presence_info \<Rightarrow> bool" where
  "presence_within_caps info \<longleftrightarrow>
     (if sint (pi_status info) < sint pst_offline \<or> sint pst_do_not_disturb < sint (pi_status info) then False
      else if max_rich_text_length < length (pi_rich_text info) \<or>
              max_join_info_length < length (pi_join_info info) then False
      else if max_data_keys < length (pi_records info) then False
      else list_all (\<lambda>r. \<not> (max_key_length < length (pr_key r) \<or> max_value_length < length (pr_value r)))
             (pi_records info))"

definition presence_equal :: "presence_info \<Rightarrow> presence_info \<Rightarrow> bool" where
  "presence_equal a b \<longleftrightarrow>
     pi_status a = pi_status b \<and> pi_rich_text a = pi_rich_text b \<and> pi_join_info a = pi_join_info b \<and>
     pi_product_id a = pi_product_id b \<and> pi_product_version a = pi_product_version b \<and>
     pi_platform a = pi_platform b \<and> pi_product_name a = pi_product_name b \<and>
     pi_integrated_platform a = pi_integrated_platform b \<and>
     list_all2 (\<lambda>x y. pr_key x = pr_key y \<and> pr_value x = pr_value y) (pi_records a) (pi_records b)"

section \<open>Results\<close>

definition empty_presence_callback :: presence_callback where
  "empty_presence_callback = \<lparr>pcb_code = EOS_Success, pcb_client_data = 0, pcb_local = None,
     pcb_target = None, pcb_rich_code = EOS_Success\<rparr>"

definition queue_presence_result :: "presence_callback frame_result \<Rightarrow> sdk_presence \<Rightarrow> sdk_presence" where
  "queue_presence_result r st =
     st\<lparr>sp_results := sp_results st @ [(sp_next_result st, r)], sp_next_result := Suc (sp_next_result st)\<rparr>"

text \<open>The delegate is not null where this is called.\<close>

definition deliver_query :: "msec \<Rightarrow> nat \<Rightarrow> nat \<Rightarrow> string \<Rightarrow> string \<Rightarrow> eos_result \<Rightarrow> sdk_presence \<Rightarrow> sdk_presence" where
  "deliver_query now client_data d local target code st =
     queue_presence_result (done_result now cb_presence_query
       (empty_presence_callback\<lparr>pcb_code := code, pcb_client_data := client_data,
          pcb_local := handle_of_id local, pcb_target := handle_of_id target\<rparr>) d) st"

section \<open>The mesh\<close>

text \<open>A peer that leaves takes what it said, and its account, with it.\<close>

definition forget_presences :: "string \<Rightarrow> sdk_presence \<Rightarrow> sdk_presence" where
  "forget_presences peer st =
     st\<lparr>sp_peer_epic := om_erase peer (sp_peer_epic st),
        sp_presences := filter (\<lambda>e. om_find (fst e) (sp_epic_owner st) \<noteq> Some peer) (sp_presences st),
        sp_epic_owner := filter (\<lambda>e. snd e \<noteq> peer) (sp_epic_owner st)\<rparr>"

definition presence_peer_lost :: "string \<Rightarrow> sdk_presence \<Rightarrow> sdk_presence" where
  "presence_peer_lost peer st =
     (if peer = [] \<or> peer = sp_product_user_id st then st else forget_presences peer st)"

definition presence_send :: "lost_in_send \<Rightarrow> message_type \<Rightarrow> bytes \<Rightarrow> string \<Rightarrow> sdk_presence \<Rightarrow> sdk_presence" where
  "presence_send lost type payload peer st =
     (let envelope = \<lparr>env_type_tag = tag_of type, env_source_id = sp_product_user_id st, env_dest_id = peer,
                      env_game_id = sp_product_id st, env_timestamp = 0, env_payload = payload\<rparr>;
          calls = sp_calls st @ [mesh_send envelope];
          gone = remdups (filter (\<lambda>p. p \<in> set (sp_mesh st)) (lost calls))
      in foldl (\<lambda>s p. presence_peer_lost p s)
           (st\<lparr>sp_calls := calls, sp_mesh := filter (\<lambda>p. p \<notin> set gone) (sp_mesh st)\<rparr>) gone)"

definition presence_send_all :: "lost_in_send \<Rightarrow> message_type \<Rightarrow> bytes \<Rightarrow> string list \<Rightarrow> sdk_presence \<Rightarrow> sdk_presence" where
  "presence_send_all lost type payload peers st = foldl (\<lambda>s p. presence_send lost type payload p s) st peers"

definition broadcast_my_presence :: "lost_in_send \<Rightarrow> string \<Rightarrow> sdk_presence \<Rightarrow> sdk_presence" where
  "broadcast_my_presence lost to_peer st =
     (case find_presence (sp_epic_id st) st of
        None \<Rightarrow> st
      | Some self \<Rightarrow>
          presence_send_all lost mt_presence_info (serialize_presence_info self)
            (if to_peer \<noteq> [] then [to_peer] else sp_mesh st) st)"

section \<open>Asking\<close>

definition query_presence_latest :: int where "query_presence_latest = 1"
definition has_presence_latest :: int where "has_presence_latest = 1"
definition copy_presence_latest :: int where "copy_presence_latest = 3"
definition create_presence_modification_latest :: int where "create_presence_modification_latest = 1"
definition set_presence_latest :: int where "set_presence_latest = 1"
definition get_join_info_latest :: int where "get_join_info_latest = 1"

text \<open>The ids in the options are the local user's and the target's.\<close>

type_synonym presence_pair = "(id_handle \<times> id_handle) versioned option"

definition ask_for_presence :: "lost_in_send \<Rightarrow> msec \<Rightarrow> string \<Rightarrow> string \<Rightarrow> nat \<Rightarrow> nat \<Rightarrow> sdk_presence \<Rightarrow> sdk_presence" where
  "ask_for_presence lost now local target client_data d st =
     (let st' = queue_presence_result (new_result now cb_presence_query
            (empty_presence_callback\<lparr>pcb_client_data := client_data, pcb_local := Some local,
               pcb_target := Some target\<rparr>) d)
          (st\<lparr>sp_pending_queries := om_put (sp_next_result st)
                \<lparr>pdq_local_id = local, pdq_target_id = target, pdq_deadline = now + query_timeout\<rparr>
                (sp_pending_queries st)\<rparr>)
      in presence_send_all lost mt_presence_request
           (serialize_presence_request \<lparr>pq_target_epic_id = target\<rparr>) (sp_mesh st') st')"

definition query_presence :: "lost_in_send \<Rightarrow> msec \<Rightarrow> presence_pair \<Rightarrow> nat \<Rightarrow> nat option \<Rightarrow> sdk_presence \<Rightarrow> sdk_presence" where
  "query_presence lost now options client_data delegate st =
     (case delegate of
        None \<Rightarrow> st
      | Some d \<Rightarrow>
          (case options of
             Some (versioned v (Some local, Some target)) \<Rightarrow>
               if \<not> version_ok v query_presence_latest
               then deliver_query now client_data d [] [] EOS_InvalidParameters st
               else if local \<noteq> sp_epic_id st then deliver_query now client_data d local target EOS_InvalidUser st
               else if find_presence target st \<noteq> None
               then deliver_query now client_data d local target EOS_Success st
               else ask_for_presence lost now local target client_data d st
           | _ \<Rightarrow> deliver_query now client_data d [] [] EOS_InvalidParameters st))"

definition has_presence :: "presence_pair \<Rightarrow> sdk_presence \<Rightarrow> bool" where
  "has_presence options st =
     (case options of
        Some (versioned v (Some _, Some target)) \<Rightarrow> version_ok v has_presence_latest \<and> find_presence target st \<noteq> None
      | _ \<Rightarrow> False)"

definition build_presence_info :: "presence_info \<Rightarrow> presence_view" where
  "build_presence_info from =
     \<lparr>pv_status = pi_status from, pv_user_id = Some (pi_epic_id from), pv_product_id = pi_product_id from,
      pv_product_version = pi_product_version from, pv_platform = pi_platform from,
      pv_rich_text = pi_rich_text from, pv_records = pi_records from, pv_product_name = pi_product_name from,
      pv_integrated_platform = pi_integrated_platform from\<rparr>"

text \<open>The code, the pointer handed out, and the state with the struct it points at.\<close>

definition copy_presence :: "presence_pair \<Rightarrow> bool \<Rightarrow> sdk_presence \<Rightarrow> eos_result \<times> nat option \<times> sdk_presence" where
  "copy_presence options has_out st =
     (if \<not> has_out then (EOS_InvalidParameters, None, st)
      else
        (case options of
           Some (versioned v (Some _, Some target)) \<Rightarrow>
             if \<not> version_ok v copy_presence_latest then (EOS_InvalidParameters, None, st)
             else
               (case find_presence target st of
                  None \<Rightarrow> (EOS_NotFound, None, st)
                | Some found \<Rightarrow>
                    (EOS_Success, Some (sp_next_pointer st),
                     st\<lparr>sp_infos := om_put (sp_next_pointer st) (build_presence_info found) (sp_infos st),
                        sp_next_pointer := Suc (sp_next_pointer st)\<rparr>))
         | _ \<Rightarrow> (EOS_InvalidParameters, None, st)))"

definition release_presence_info :: "nat \<Rightarrow> sdk_presence \<Rightarrow> sdk_presence" where
  "release_presence_info pointer st =
     (if pointer = 0 then st else st\<lparr>sp_infos := om_erase pointer (sp_infos st)\<rparr>)"

text \<open>The code, what is written to the buffer and to the length.\<close>

definition get_join_info :: "presence_pair \<Rightarrow> bool \<Rightarrow> i32 option \<Rightarrow> sdk_presence \<Rightarrow>
    eos_result \<times> string option \<times> i32 option" where
  "get_join_info options has_buffer inout_length st =
     (case inout_length of
        None \<Rightarrow> (EOS_InvalidParameters, None, None)
      | Some room \<Rightarrow>
          if \<not> has_buffer then (EOS_InvalidParameters, None, Some room)
          else
            (case options of
               Some (versioned v (Some _, Some target)) \<Rightarrow>
                 if \<not> version_ok v get_join_info_latest then (EOS_InvalidParameters, None, Some room)
                 else
                   (case find_presence target st of
                      None \<Rightarrow> (EOS_NotFound, None, Some room)
                    | Some found \<Rightarrow>
                        if pi_join_info found = [] then (EOS_NotFound, None, Some room)
                        else
                          let needed = word_of_nat (length (pi_join_info found)) + 1
                          in if sint room < sint needed then (EOS_LimitExceeded, None, Some needed)
                             else (EOS_Success, Some (pi_join_info found), Some needed))
             | _ \<Rightarrow> (EOS_InvalidParameters, None, Some room)))"

section \<open>Staging a change\<close>

definition create_presence_modification :: "id_handle versioned option \<Rightarrow> bool \<Rightarrow> sdk_presence \<Rightarrow>
    eos_result \<times> u64 option \<times> sdk_presence" where
  "create_presence_modification options has_out st =
     (if \<not> has_out then (EOS_InvalidParameters, None, st)
      else
        (case options of
           Some (versioned v (Some local)) \<Rightarrow>
             if \<not> version_ok v create_presence_modification_latest then (EOS_InvalidParameters, None, st)
             else if local \<noteq> sp_epic_id st then (EOS_InvalidUser, None, st)
             else
               (case hs_add \<lparr>pm_set_status = False, pm_status = 0, pm_set_rich_text = False, pm_rich_text = [],
                      pm_set_join_info = False, pm_join_info = [], pm_data_set = [], pm_data_deleted = []\<rparr>
                    (sp_handle_counter st) (sp_modifications st) of
                  (h, counter, store) \<Rightarrow>
                    (EOS_Success, Some h, st\<lparr>sp_handle_counter := counter, sp_modifications := store\<rparr>))
         | _ \<Rightarrow> (EOS_InvalidParameters, None, st)))"

text \<open>The change to a staged modification, or the code that refuses it.\<close>

definition stage_presence :: "u64 \<Rightarrow> int \<Rightarrow> 'x versioned option \<Rightarrow>
    ('x \<Rightarrow> presence_modification \<Rightarrow> eos_result + presence_modification) \<Rightarrow> sdk_presence \<Rightarrow> eos_result \<times> sdk_presence" where
  "stage_presence handle latest options change st =
     (case (hs_find handle (sp_modifications st), options) of
        (Some object, Some (versioned v x)) \<Rightarrow>
          if \<not> version_ok v latest then (EOS_InvalidParameters, st)
          else
            (case change x object of
               Inl code \<Rightarrow> (code, st)
             | Inr object' \<Rightarrow> (EOS_Success, st\<lparr>sp_modifications := om_put handle object' (sp_modifications st)\<rparr>))
      | _ \<Rightarrow> (EOS_InvalidParameters, st))"

definition stage_status :: "i32 \<Rightarrow> presence_modification \<Rightarrow> eos_result + presence_modification" where
  "stage_status status object = Inr (object\<lparr>pm_set_status := True, pm_status := status\<rparr>)"

definition stage_rich_text :: "string option \<Rightarrow> presence_modification \<Rightarrow> eos_result + presence_modification" where
  "stage_rich_text rich object =
     (case rich of
        None \<Rightarrow> Inl EOS_InvalidParameters
      | Some r \<Rightarrow>
          if max_rich_text_length < length r then Inl EOS_LimitExceeded
          else Inr (object\<lparr>pm_set_rich_text := True, pm_rich_text := r\<rparr>))"

type_synonym raw_record = "string option \<times> string option"

fun check_records :: "raw_record list \<Rightarrow> eos_result option" where
  "check_records [] = None"
| "check_records ((Some key, Some v) # records) =
     (if max_key_length < length key \<or> max_value_length < length v then Some EOS_LimitExceeded
      else check_records records)"
| "check_records (_ # records) = Some EOS_InvalidParameters"

fun read_records :: "raw_record list \<Rightarrow> presence_data_record list" where
  "read_records [] = []"
| "read_records ((key, v) # records) =
     \<lparr>pr_key = text_or_empty key, pr_value = text_or_empty v\<rparr> # read_records records"

definition stage_data :: "i32 \<times> raw_record list option \<Rightarrow> presence_modification \<Rightarrow> eos_result + presence_modification" where
  "stage_data x object =
     (case x of (n, records) \<Rightarrow>
        if 0 < sint n \<and> records = None then Inl EOS_InvalidParameters
        else if sint n < 0 \<or> max_data_keys < nat (sint n) then Inl EOS_LimitExceeded
        else
          let given = take (nat (sint n)) (case records of None \<Rightarrow> [] | Some rs \<Rightarrow> rs)
          in (case check_records given of
                Some code \<Rightarrow> Inl code
              | None \<Rightarrow> Inr (object\<lparr>pm_data_set := pm_data_set object @ read_records given\<rparr>)))"

definition stage_deletion :: "i32 \<times> string option list option \<Rightarrow> presence_modification \<Rightarrow>
    eos_result + presence_modification" where
  "stage_deletion x object =
     (case x of (n, records) \<Rightarrow>
        if 0 < sint n \<and> records = None then Inl EOS_InvalidParameters
        else if sint n < 0 \<or> max_data_keys < nat (sint n) then Inl EOS_LimitExceeded
        else
          let given = take (nat (sint n)) (case records of None \<Rightarrow> [] | Some rs \<Rightarrow> rs)
          in if None \<in> set given then Inl EOS_InvalidParameters
             else Inr (object\<lparr>pm_data_deleted := pm_data_deleted object @ map text_or_empty given\<rparr>))"

definition stage_join_info :: "string option \<Rightarrow> presence_modification \<Rightarrow> eos_result + presence_modification" where
  "stage_join_info info object =
     (if max_join_info_length < length (text_or_empty info) then Inl EOS_LimitExceeded
      else Inr (object\<lparr>pm_set_join_info := True, pm_join_info := text_or_empty info\<rparr>))"

text \<open>The templates are accepted and stored nowhere.\<close>

definition stage_template :: "string option \<Rightarrow> presence_modification \<Rightarrow> eos_result + presence_modification" where
  "stage_template template object = (if template = None then Inl EOS_InvalidParameters else Inr object)"

definition modification_set_status :: "u64 \<Rightarrow> i32 versioned option \<Rightarrow> sdk_presence \<Rightarrow> eos_result \<times> sdk_presence" where
  "modification_set_status h options = stage_presence h 1 options stage_status"

definition modification_set_raw_rich_text :: "u64 \<Rightarrow> string option versioned option \<Rightarrow> sdk_presence \<Rightarrow> eos_result \<times> sdk_presence" where
  "modification_set_raw_rich_text h options = stage_presence h 1 options stage_rich_text"

definition modification_set_data :: "u64 \<Rightarrow> (i32 \<times> raw_record list option) versioned option \<Rightarrow>
    sdk_presence \<Rightarrow> eos_result \<times> sdk_presence" where
  "modification_set_data h options = stage_presence h 1 options stage_data"

definition modification_delete_data :: "u64 \<Rightarrow> (i32 \<times> string option list option) versioned option \<Rightarrow>
    sdk_presence \<Rightarrow> eos_result \<times> sdk_presence" where
  "modification_delete_data h options = stage_presence h 1 options stage_deletion"

definition modification_set_join_info :: "u64 \<Rightarrow> string option versioned option \<Rightarrow> sdk_presence \<Rightarrow> eos_result \<times> sdk_presence" where
  "modification_set_join_info h options = stage_presence h 1 options stage_join_info"

definition modification_set_template_id :: "u64 \<Rightarrow> string option versioned option \<Rightarrow> sdk_presence \<Rightarrow> eos_result \<times> sdk_presence" where
  "modification_set_template_id h options = stage_presence h 1 options stage_template"

definition modification_set_template_data :: "u64 \<Rightarrow> string option versioned option \<Rightarrow> sdk_presence \<Rightarrow> eos_result \<times> sdk_presence" where
  "modification_set_template_data h options = stage_presence h 1 options stage_template"

definition presence_modification_release :: "u64 \<Rightarrow> sdk_presence \<Rightarrow> sdk_presence" where
  "presence_modification_release h st = st\<lparr>sp_modifications := hs_release h (sp_modifications st)\<rparr>"

section \<open>Setting it\<close>

definition delete_records :: "string list \<Rightarrow> presence_data_record list \<Rightarrow> presence_data_record list" where
  "delete_records keys records = foldl (\<lambda>rs key. filter (\<lambda>r. pr_key r \<noteq> key) rs) records keys"

fun put_record :: "presence_data_record list \<Rightarrow> presence_data_record \<Rightarrow> presence_data_record list" where
  "put_record [] staged = [staged]"
| "put_record (r # rs) staged =
     (if pr_key r = pr_key staged then r\<lparr>pr_value := pr_value staged\<rparr> # rs else r # put_record rs staged)"

definition merged_records :: "presence_modification \<Rightarrow> presence_data_record list \<Rightarrow> presence_data_record list" where
  "merged_records staged records = foldl put_record (delete_records (pm_data_deleted staged) records) (pm_data_set staged)"

definition merged_presence :: "presence_modification \<Rightarrow> presence_info \<Rightarrow> presence_info" where
  "merged_presence staged self =
     self\<lparr>pi_status := (if pm_set_status staged then pm_status staged else pi_status self),
          pi_rich_text := (if pm_set_rich_text staged then pm_rich_text staged else pi_rich_text self),
          pi_join_info := (if pm_set_join_info staged then pm_join_info staged else pi_join_info self),
          pi_records := merged_records staged (pi_records self)\<rparr>"

text \<open>The code and the state; nothing changes where the records would be too many.\<close>

definition merge_into_own :: "lost_in_send \<Rightarrow> presence_modification \<Rightarrow> sdk_presence \<Rightarrow> eos_result \<times> sdk_presence" where
  "merge_into_own lost staged st =
     (case find_presence (sp_epic_id st) st of
        None \<Rightarrow> (EOS_Success, st)
      | Some self \<Rightarrow>
          if max_data_keys < length (merged_records staged (pi_records self)) then (EOS_LimitExceeded, st)
          else (EOS_Success, broadcast_my_presence lost []
                 (st\<lparr>sp_presences := om_put (sp_epic_id st) (merged_presence staged self) (sp_presences st)\<rparr>)))"

definition apply_presence :: "lost_in_send \<Rightarrow> presence_modification \<Rightarrow> sdk_presence \<Rightarrow> eos_result \<times> sdk_presence" where
  "apply_presence lost staged st =
     merge_into_own lost staged (if find_presence (sp_epic_id st) st = None then seed_myself st else st)"

definition set_presence :: "lost_in_send \<Rightarrow> msec \<Rightarrow> (id_handle \<times> u64) versioned option \<Rightarrow> nat \<Rightarrow> nat option \<Rightarrow>
    sdk_presence \<Rightarrow> sdk_presence" where
  "set_presence lost now options client_data delegate st =
     (case delegate of
        None \<Rightarrow> st
      | Some d \<Rightarrow>
          let (code, local, st') =
            (case options of
               Some (versioned v (Some local, handle)) \<Rightarrow>
                 if \<not> version_ok v set_presence_latest then (EOS_InvalidParameters, [], st)
                 else if local \<noteq> sp_epic_id st then (EOS_InvalidUser, local, st)
                 else
                   (case hs_find handle (sp_modifications st) of
                      None \<Rightarrow> (EOS_InvalidParameters, local, st)
                    | Some staged \<Rightarrow> (case apply_presence lost staged st of (code, st') \<Rightarrow> (code, local, st')))
             | _ \<Rightarrow> (EOS_InvalidParameters, [], st))
          in queue_presence_result (done_result now cb_presence_set
               (empty_presence_callback\<lparr>pcb_code := code, pcb_client_data := client_data,
                  pcb_local := handle_of_id local, pcb_rich_code := code\<rparr>) d) st')"

section \<open>Notifications\<close>

definition add_presence_notice :: "int \<Rightarrow> msec \<Rightarrow> nat \<Rightarrow> nat option \<Rightarrow> sdk_presence \<Rightarrow> u64 \<times> sdk_presence" where
  "add_presence_notice type now client_data delegate st =
     (case add_notice (sp_owner st) now type (empty_presence_callback\<lparr>pcb_client_data := client_data\<rparr>) delegate
          (sp_callbacks st) of
        (i, cm) \<Rightarrow> (i, st\<lparr>sp_callbacks := cm\<rparr>))"

definition add_notify_on_presence_changed :: "msec \<Rightarrow> nat \<Rightarrow> nat option \<Rightarrow> sdk_presence \<Rightarrow> u64 \<times> sdk_presence" where
  "add_notify_on_presence_changed = add_presence_notice cb_presence_changed"

definition add_notify_join_game_accepted :: "msec \<Rightarrow> nat \<Rightarrow> nat option \<Rightarrow> sdk_presence \<Rightarrow> u64 \<times> sdk_presence" where
  "add_notify_join_game_accepted = add_presence_notice cb_join_accepted"

definition remove_presence_notice :: "u64 \<Rightarrow> sdk_presence \<Rightarrow> sdk_presence" where
  "remove_presence_notice i st = st\<lparr>sp_callbacks := remove_notification (sp_owner st) i (sp_callbacks st)\<rparr>"

definition fire_presence_changed :: "string \<Rightarrow> sdk_presence \<Rightarrow> sdk_presence" where
  "fire_presence_changed changed st =
     (case fire_notices (sp_owner st) cb_presence_changed
          (\<lambda>info. info\<lparr>pcb_local := Some (sp_epic_id st), pcb_target := Some changed\<rparr>) (sp_callbacks st) of
        (heard, cm) \<Rightarrow> st\<lparr>sp_callbacks := cm, sp_heard := sp_heard st @ heard\<rparr>)"

section \<open>Messages\<close>

definition settle :: "nat list \<Rightarrow> nat \<times> presence_callback frame_result \<Rightarrow> nat \<times> presence_callback frame_result" where
  "settle waiting e =
     (if fst e \<in> set waiting
      then (fst e, (snd e)\<lparr>fr_payload := (fr_payload (snd e))\<lparr>pcb_code := EOS_Success\<rparr>, fr_done := True\<rparr>) else e)"

definition settle_queries :: "string \<Rightarrow> sdk_presence \<Rightarrow> sdk_presence" where
  "settle_queries epic_id st =
     (let waiting = map fst (filter (\<lambda>e. pdq_target_id (snd e) = epic_id) (sp_pending_queries st))
      in st\<lparr>sp_results := map (settle waiting) (sp_results st), sp_ready := map (settle waiting) (sp_ready st)\<rparr>)"

definition on_presence_info :: "string \<Rightarrow> presence_info \<Rightarrow> sdk_presence \<Rightarrow> sdk_presence" where
  "on_presence_info source incoming st =
     (let epic_id = pi_epic_id incoming
      in if epic_id = [] \<or> epic_id = sp_epic_id st then st
         else if \<not> presence_within_caps incoming then st
         else if om_find source (sp_peer_epic st) \<noteq> Some epic_id then st
         else
           let changed = (case find_presence epic_id st of
                            None \<Rightarrow> True
                          | Some existing \<Rightarrow> \<not> presence_equal existing incoming);
               st' = st\<lparr>sp_epic_owner := om_put epic_id source (sp_epic_owner st),
                        sp_presences := om_put epic_id incoming (sp_presences st)\<rparr>
           in settle_queries epic_id (if changed then fire_presence_changed epic_id st' else st'))"

definition on_peer_connected :: "lost_in_send \<Rightarrow> net_envelope \<Rightarrow> sdk_presence \<Rightarrow> sdk_presence" where
  "on_peer_connected lost message st =
     (let st' = (if env_payload message = [] then st
                 else st\<lparr>sp_peer_epic := om_put (env_source_id message) (string_of_bytes (env_payload message))
                        (sp_peer_epic st)\<rparr>)
      in if env_game_id message = [] \<or> env_game_id message = sp_product_id st'
         then broadcast_my_presence lost (env_source_id message) st' else st')"

definition presence_on_network_message :: "lost_in_send \<Rightarrow> net_envelope \<Rightarrow> sdk_presence \<Rightarrow> bool \<times> sdk_presence" where
  "presence_on_network_message lost message st =
     (let source = env_source_id message; tag = env_type_tag message; reader = reader_of (env_payload message)
      in if source = [] \<or> source = sp_product_user_id st then (True, st)
         else if tag = tag_of peer_connected then (True, on_peer_connected lost message st)
         else if tag = tag_of peer_disconnected then (True, forget_presences source st)
         else if env_game_id message \<noteq> sp_product_id st then (True, st)
         else if tag = tag_of mt_presence_request then
           (True, (case fst (deserialize_presence_request reader) of
                     None \<Rightarrow> st
                   | Some request \<Rightarrow>
                       if pq_target_epic_id request = sp_epic_id st
                       then broadcast_my_presence lost source st else st))
         else if tag = tag_of mt_presence_info then
           (True, (case fst (deserialize_presence_info reader) of
                     None \<Rightarrow> st | Some incoming \<Rightarrow> on_presence_info source incoming st))
         else (False, st))"

section \<open>Ticks\<close>

definition presence_run_callbacks :: "msec \<Rightarrow> nat \<Rightarrow> presence_callback frame_result \<Rightarrow> sdk_presence \<Rightarrow>
    bool \<times> presence_callback frame_result" where
  "presence_run_callbacks now res r st =
     (case om_find res (sp_pending_queries st) of
        None \<Rightarrow> (False, r)
      | Some pending \<Rightarrow>
          if fr_done r then (True, r)
          else if pdq_deadline pending < now
          then (True, r\<lparr>fr_payload := (fr_payload r)\<lparr>pcb_code := EOS_NotFound\<rparr>\<rparr>)
          else (False, r))"

definition presence_free_callback :: "nat \<Rightarrow> sdk_presence \<Rightarrow> sdk_presence" where
  "presence_free_callback res st = st\<lparr>sp_pending_queries := om_erase res (sp_pending_queries st)\<rparr>"

definition presence_turn :: "msec \<Rightarrow> nat \<times> presence_callback frame_result \<Rightarrow> sdk_presence \<Rightarrow>
    bool \<times> (nat \<times> presence_callback frame_result)" where
  "presence_turn now e st =
     (if callback_ok_timeout now (snd e)
      then (if fr_done (snd e) then (True, e)
            else (case presence_run_callbacks now (fst e) (snd e) st of (goes, r) \<Rightarrow> (goes, (fst e, r))))
      else (False, e))"

definition presence_collect :: "msec \<Rightarrow> sdk_presence \<Rightarrow> sdk_presence" where
  "presence_collect now st =
     (let turns = map (\<lambda>e. presence_turn now e st) (sp_results st)
      in st\<lparr>sp_results := map snd (filter (\<lambda>t. \<not> fst t) turns),
            sp_ready := sp_ready st @ map snd (filter fst turns)\<rparr>)"

definition presence_fire :: "sdk_presence \<Rightarrow> presence_callback frame_result option \<times> sdk_presence" where
  "presence_fire st =
     (case sp_ready st of
        [] \<Rightarrow> (None, st)
      | (res, r) # ready \<Rightarrow> (Some r, presence_free_callback res (st\<lparr>sp_ready := ready\<rparr>)))"

definition presence_cb_run_frame :: "sdk_presence \<Rightarrow> bool \<times> sdk_presence" where
  "presence_cb_run_frame st = (True, st)"

end
