(* ===== verification/Presence_Runs.thy ===== *)
theory Presence_Runs
  imports Presence
begin

text \<open>
  The operations of \<^verbatim>\<open>sdk_presence\<close> as a type, so that a run is a list of them, and what each can change.
  Between two operations the mesh may change as it likes.
\<close>

section \<open>Operations\<close>

datatype presence_op =
    pop_init
  | pop_deinit
  | pop_mesh "string list"
  | pop_message net_envelope
  | pop_query msec presence_pair nat "nat option"
  | pop_set msec "(id_handle \<times> u64) versioned option" nat "nat option"
  | pop_create "id_handle versioned option" bool
  | pop_status u64 "i32 versioned option"
  | pop_rich_text u64 "string option versioned option"
  | pop_data u64 "(i32 \<times> raw_record list option) versioned option"
  | pop_delete u64 "(i32 \<times> string option list option) versioned option"
  | pop_join_info u64 "string option versioned option"
  | pop_template u64 "string option versioned option"
  | pop_release u64
  | pop_copy presence_pair bool
  | pop_release_info nat
  | pop_notify int msec nat "nat option"
  | pop_remove u64
  | pop_collect msec
  | pop_fire

fun presence_do :: "lost_in_send \<Rightarrow> sdk_presence \<Rightarrow> presence_op \<Rightarrow> sdk_presence" where
  "presence_do lost st pop_init = presence_emu_init st"
| "presence_do lost st pop_deinit = presence_emu_deinit st"
| "presence_do lost st (pop_mesh peers) = st\<lparr>sp_mesh := peers\<rparr>"
| "presence_do lost st (pop_message m) = snd (presence_on_network_message lost m st)"
| "presence_do lost st (pop_query now options client_data delegate) = query_presence lost now options client_data delegate st"
| "presence_do lost st (pop_set now options client_data delegate) = set_presence lost now options client_data delegate st"
| "presence_do lost st (pop_create options has_out) = snd (snd (create_presence_modification options has_out st))"
| "presence_do lost st (pop_status h options) = snd (modification_set_status h options st)"
| "presence_do lost st (pop_rich_text h options) = snd (modification_set_raw_rich_text h options st)"
| "presence_do lost st (pop_data h options) = snd (modification_set_data h options st)"
| "presence_do lost st (pop_delete h options) = snd (modification_delete_data h options st)"
| "presence_do lost st (pop_join_info h options) = snd (modification_set_join_info h options st)"
| "presence_do lost st (pop_template h options) = snd (modification_set_template_id h options st)"
| "presence_do lost st (pop_release h) = presence_modification_release h st"
| "presence_do lost st (pop_copy options has_out) = snd (snd (copy_presence options has_out st))"
| "presence_do lost st (pop_release_info pointer) = release_presence_info pointer st"
| "presence_do lost st (pop_notify type now client_data delegate) = snd (add_presence_notice type now client_data delegate st)"
| "presence_do lost st (pop_remove i) = remove_presence_notice i st"
| "presence_do lost st (pop_collect now) = presence_collect now st"
| "presence_do lost st pop_fire = snd (presence_fire st)"

section \<open>What a send can change\<close>

text \<open>It can only make the interface forget peers; what has no owner stays.\<close>

lemma om_find_filter_key: "om_find k (filter (\<lambda>e. P (fst e)) m) = (if P k then om_find k m else None)"
  by (induction m) (auto simp: om_find_Cons)

definition only_forgets :: "sdk_presence \<Rightarrow> sdk_presence \<Rightarrow> bool" where
  "only_forgets st st' \<longleftrightarrow>
     (om_ok (sp_epic_owner st) \<longrightarrow> om_ok (sp_epic_owner st') \<and>
        (\<forall>e p. find_presence e st' = Some p \<longrightarrow>
           find_presence e st = Some p \<and> om_find e (sp_epic_owner st') = om_find e (sp_epic_owner st)) \<and>
        (\<forall>e. om_find e (sp_epic_owner st) = None \<longrightarrow>
           find_presence e st' = find_presence e st \<and> om_find e (sp_epic_owner st') = None)) \<and>
     (\<forall>s x. om_find s (sp_peer_epic st') = Some x \<longrightarrow> om_find s (sp_peer_epic st) = Some x)"

definition mesh_part :: "sdk_presence \<Rightarrow> sdk_presence \<Rightarrow> bool" where
  "mesh_part st st' \<longleftrightarrow>
     st' = st\<lparr>sp_calls := sp_calls st', sp_mesh := sp_mesh st', sp_presences := sp_presences st',
              sp_epic_owner := sp_epic_owner st', sp_peer_epic := sp_peer_epic st'\<rparr>"

definition quieter :: "sdk_presence \<Rightarrow> sdk_presence \<Rightarrow> bool" where
  "quieter st st' \<longleftrightarrow> mesh_part st st' \<and> only_forgets st st'"

lemma mesh_partI:
  "st' = st\<lparr>sp_calls := c, sp_mesh := m, sp_presences := p, sp_epic_owner := eo, sp_peer_epic := pe\<rparr> \<Longrightarrow> mesh_part st st'"
  by (simp add: mesh_part_def)

lemma mesh_part_trans:
  assumes "mesh_part a b" and "mesh_part b c" shows "mesh_part a c"
proof (rule mesh_partI)
  show "c = a\<lparr>sp_calls := sp_calls c, sp_mesh := sp_mesh c, sp_presences := sp_presences c,
      sp_epic_owner := sp_epic_owner c, sp_peer_epic := sp_peer_epic c\<rparr>"
    by (subst assms(2) [unfolded mesh_part_def], subst assms(1) [unfolded mesh_part_def]) simp
qed

lemma only_forgetsD:
  assumes "only_forgets st st'"
  shows "om_find s (sp_peer_epic st') = Some x \<Longrightarrow> om_find s (sp_peer_epic st) = Some x"
    "om_ok (sp_epic_owner st) \<Longrightarrow> om_ok (sp_epic_owner st')"
    "om_ok (sp_epic_owner st) \<Longrightarrow> find_presence e st' = Some p \<Longrightarrow> find_presence e st = Some p"
    "om_ok (sp_epic_owner st) \<Longrightarrow> find_presence e st' = Some p \<Longrightarrow>
       om_find e (sp_epic_owner st') = om_find e (sp_epic_owner st)"
    "om_ok (sp_epic_owner st) \<Longrightarrow> om_find e (sp_epic_owner st) = None \<Longrightarrow> find_presence e st' = find_presence e st"
    "om_ok (sp_epic_owner st) \<Longrightarrow> om_find e (sp_epic_owner st) = None \<Longrightarrow> om_find e (sp_epic_owner st') = None"
  using assms unfolding only_forgets_def by blast+

lemma only_forgets_trans:
  assumes ab: "only_forgets a b" and bc: "only_forgets b c" shows "only_forgets a c"
  unfolding only_forgets_def
proof (intro conjI impI allI)
  show "\<And>s x. om_find s (sp_peer_epic c) = Some x \<Longrightarrow> om_find s (sp_peer_epic a) = Some x"
    by (rule only_forgetsD(1) [OF ab], rule only_forgetsD(1) [OF bc])
next
  assume a: "om_ok (sp_epic_owner a)"
  note b = only_forgetsD(2) [OF ab a]
  show "om_ok (sp_epic_owner c)" by (rule only_forgetsD(2) [OF bc b])
  show "find_presence e a = Some p" if "find_presence e c = Some p" for e p
    using only_forgetsD(3) [OF ab a] only_forgetsD(3) [OF bc b] that by simp
  show "om_find e (sp_epic_owner c) = om_find e (sp_epic_owner a)" if "find_presence e c = Some p" for e p
    using only_forgetsD(4) [OF ab a] only_forgetsD(3) [OF bc b that] only_forgetsD(4) [OF bc b that] by simp
  show "find_presence e c = find_presence e a" if "om_find e (sp_epic_owner a) = None" for e
    using only_forgetsD(5,6) [OF ab a that] only_forgetsD(5) [OF bc b] by simp
  show "om_find e (sp_epic_owner c) = None" if "om_find e (sp_epic_owner a) = None" for e
    using only_forgetsD(6) [OF ab a that] only_forgetsD(6) [OF bc b] by simp
qed

lemma quieter_refl [simp]: "quieter st st"
  by (simp add: quieter_def mesh_part_def only_forgets_def)

lemma quieter_trans: "quieter a b \<Longrightarrow> quieter b c \<Longrightarrow> quieter a c"
  unfolding quieter_def by (auto intro: mesh_part_trans only_forgets_trans)

lemma quieter_forget: "quieter st (forget_presences peer st)"
  by (auto simp: quieter_def mesh_part_def only_forgets_def forget_presences_def find_presence_def om_find_filter
      om_find_filter_key [of _ "\<lambda>k. om_find k (sp_epic_owner st) \<noteq> Some peer"] split: option.splits if_splits)

lemma quieter_lost: "quieter st (presence_peer_lost peer st)"
  by (simp add: presence_peer_lost_def quieter_forget)

lemma quieter_foldl:
  assumes "\<And>s x. quieter s (f s x)" shows "quieter st (foldl f st xs)"
proof (induction xs arbitrary: st)
  case (Cons x xs)
  show ?case using quieter_trans [OF assms [of st x] Cons] by simp
qed simp

lemma quieter_send: "quieter st (presence_send lost type payload peer st)"
proof -
  have "quieter st (st\<lparr>sp_calls := calls, sp_mesh := ps\<rparr>)" for calls ps
    by (simp add: quieter_def mesh_part_def only_forgets_def find_presence_def)
  from quieter_trans [OF this quieter_foldl [OF quieter_lost]] show ?thesis
    by (simp add: presence_send_def Let_def)
qed

lemma quieter_send_all: "quieter st (presence_send_all lost type payload peers st)"
  unfolding presence_send_all_def by (rule quieter_foldl [OF quieter_send])

lemma quieter_broadcast: "quieter st (broadcast_my_presence lost peer st)"
  by (simp add: broadcast_my_presence_def quieter_send_all split: option.split)

lemma quieter_keeps:
  assumes "quieter st st'"
  shows "sp_epic_id st' = sp_epic_id st" "sp_product_user_id st' = sp_product_user_id st"
    "sp_product_id st' = sp_product_id st" "sp_platform st' = sp_platform st"
    "sp_modifications st' = sp_modifications st" "sp_pending_queries st' = sp_pending_queries st"
    "sp_results st' = sp_results st" "sp_ready st' = sp_ready st" "sp_next_result st' = sp_next_result st"
    "sp_owner st' = sp_owner st" "sp_callbacks st' = sp_callbacks st" "sp_heard st' = sp_heard st"
  by (subst assms [unfolded quieter_def mesh_part_def, THEN conjunct1], simp)+

lemmas quieter_sends = quieter_keeps [OF quieter_send] quieter_keeps [OF quieter_send_all] quieter_keeps [OF quieter_broadcast]

declare quieter_sends [simp]

text \<open>What was handed to the router.\<close>

lemma lost_calls_keep [simp]: "sp_calls (foldl (\<lambda>s p. presence_peer_lost p s) st ps) = sp_calls st"
  by (induction ps arbitrary: st) (simp_all add: presence_peer_lost_def forget_presences_def)

definition presence_letter :: "message_type \<Rightarrow> bytes \<Rightarrow> string \<Rightarrow> sdk_presence \<Rightarrow> net_envelope" where
  "presence_letter type payload peer st =
     \<lparr>env_type_tag = tag_of type, env_source_id = sp_product_user_id st, env_dest_id = peer,
      env_game_id = sp_product_id st, env_timestamp = 0, env_payload = payload\<rparr>"

lemma presence_send_calls:
  "sp_calls (presence_send lost type payload peer st) = sp_calls st @ [mesh_send (presence_letter type payload peer st)]"
  by (simp add: presence_send_def Let_def presence_letter_def)

lemma presence_send_all_calls:
  "sp_calls (presence_send_all lost type payload peers st) =
     sp_calls st @ map (\<lambda>p. mesh_send (presence_letter type payload p st)) peers"
proof (induction peers arbitrary: st)
  case (Cons p peers)
  have "presence_letter type payload q (presence_send lost type payload p st) = presence_letter type payload q st" for q
    by (simp add: presence_letter_def)
  with Cons [of "presence_send lost type payload p st"] show ?case
    by (simp add: presence_send_all_def presence_send_calls)
qed (simp add: presence_send_all_def)

section \<open>What an operation leaves alone\<close>

lemma stage_presence_cases:
  "snd (stage_presence h latest options change st) = st \<or>
   (\<exists>mods. snd (stage_presence h latest options change st) = st\<lparr>sp_modifications := mods\<rparr>)"
proof (cases "hs_find h (sp_modifications st)")
  case (Some object)
  show ?thesis
  proof (cases options)
    case asked: (Some o')
    obtain v x where o': "o' = versioned v x" by (cases o')
    show ?thesis
    proof (cases "version_ok v latest")
      case True
      with Some asked o' show ?thesis by (cases "change x object") (auto simp only: stage_presence_def option.case prod.case
            versioned.case sum.case not_True_eq_False if_False snd_conv)
    qed (simp add: stage_presence_def Some asked o')
  qed (simp add: stage_presence_def Some)
qed (simp add: stage_presence_def)

lemma own_modifications: "st = st\<lparr>sp_modifications := sp_modifications st\<rparr>"
  by simp

lemma stage_presence_state:
  "\<exists>mods. snd (stage_presence h latest options change st) = st\<lparr>sp_modifications := mods\<rparr>"
  using stage_presence_cases [of h latest options change st] own_modifications [of st] by metis

lemma stage_presence_keeps:
  "sp_epic_id (snd (stage_presence h latest options change st)) = sp_epic_id st"
  "sp_product_user_id (snd (stage_presence h latest options change st)) = sp_product_user_id st"
  "sp_product_id (snd (stage_presence h latest options change st)) = sp_product_id st"
  "sp_presences (snd (stage_presence h latest options change st)) = sp_presences st"
  "sp_epic_owner (snd (stage_presence h latest options change st)) = sp_epic_owner st"
  "sp_peer_epic (snd (stage_presence h latest options change st)) = sp_peer_epic st"
  "sp_calls (snd (stage_presence h latest options change st)) = sp_calls st"
  "sp_results (snd (stage_presence h latest options change st)) = sp_results st"
  "sp_ready (snd (stage_presence h latest options change st)) = sp_ready st"
  "sp_pending_queries (snd (stage_presence h latest options change st)) = sp_pending_queries st"
  "sp_next_result (snd (stage_presence h latest options change st)) = sp_next_result st"
  using stage_presence_state [of h latest options change st] by auto

lemmas modification_sets = modification_set_status_def modification_set_raw_rich_text_def modification_set_data_def
  modification_delete_data_def modification_set_join_info_def modification_set_template_id_def

lemma seed_myself_keeps [simp]:
  "sp_epic_id (seed_myself st) = sp_epic_id st" "sp_product_user_id (seed_myself st) = sp_product_user_id st"
  "sp_product_id (seed_myself st) = sp_product_id st" "sp_platform (seed_myself st) = sp_platform st"
  "sp_epic_owner (seed_myself st) = sp_epic_owner st" "sp_peer_epic (seed_myself st) = sp_peer_epic st"
  "sp_calls (seed_myself st) = sp_calls st" "sp_results (seed_myself st) = sp_results st"
  "sp_ready (seed_myself st) = sp_ready st" "sp_pending_queries (seed_myself st) = sp_pending_queries st"
  "sp_next_result (seed_myself st) = sp_next_result st" "sp_mesh (seed_myself st) = sp_mesh st"
  by (simp_all add: seed_myself_def)

lemma queue_presence_result_keeps [simp]:
  "sp_epic_id (queue_presence_result r st) = sp_epic_id st"
  "sp_product_user_id (queue_presence_result r st) = sp_product_user_id st"
  "sp_product_id (queue_presence_result r st) = sp_product_id st"
  "sp_platform (queue_presence_result r st) = sp_platform st"
  "sp_presences (queue_presence_result r st) = sp_presences st"
  "sp_epic_owner (queue_presence_result r st) = sp_epic_owner st"
  "sp_peer_epic (queue_presence_result r st) = sp_peer_epic st"
  "sp_calls (queue_presence_result r st) = sp_calls st"
  "sp_ready (queue_presence_result r st) = sp_ready st"
  "sp_mesh (queue_presence_result r st) = sp_mesh st"
  "sp_pending_queries (queue_presence_result r st) = sp_pending_queries st"
  by (simp_all add: queue_presence_result_def)

text \<open>An operation is calm when it only forgets peers, or writes our own presence.\<close>

definition calm :: "sdk_presence \<Rightarrow> sdk_presence \<Rightarrow> bool" where
  "calm st st' \<longleftrightarrow>
     (om_ok (sp_epic_owner st) \<longrightarrow> om_ok (sp_epic_owner st') \<and>
        (\<forall>e p. e \<noteq> sp_epic_id st \<longrightarrow> find_presence e st' = Some p \<longrightarrow>
           find_presence e st = Some p \<and> om_find e (sp_epic_owner st') = om_find e (sp_epic_owner st))) \<and>
     (\<forall>s x. om_find s (sp_peer_epic st') = Some x \<longrightarrow> om_find s (sp_peer_epic st) = Some x)"

lemma calm_same:
  "sp_presences st' = sp_presences st \<Longrightarrow> sp_epic_owner st' = sp_epic_owner st \<Longrightarrow>
   sp_peer_epic st' = sp_peer_epic st \<Longrightarrow> calm st st'"
  by (simp add: calm_def find_presence_def)

lemma calm_forgets: "only_forgets st st' \<Longrightarrow> calm st st'"
  unfolding calm_def only_forgets_def by blast

lemma calm_quieter: "quieter st st' \<Longrightarrow> calm st st'"
  by (simp add: quieter_def calm_forgets)

text \<open>Writing our own entry first changes nothing for the others.\<close>

lemma calm_own:
  assumes "calm (st\<lparr>sp_presences := om_put (sp_epic_id st) p (sp_presences st)\<rparr>) st'"
  shows "calm st st'"
  using assms unfolding calm_def find_presence_def by (simp cong: conj_cong)

lemma calm_seed: "calm (seed_myself st) st' \<Longrightarrow> calm st st'"
  by (cases "sp_epic_id st = []") (simp_all add: seed_myself_def calm_own)

lemma calm_apply: "calm st (snd (apply_presence lost staged st))"
proof -
  have "calm s (snd (merge_into_own lost staged s))" for s
    by (auto simp: merge_into_own_def calm_same intro!: calm_own [OF calm_quieter [OF quieter_broadcast]] split: option.split)
  from this [of st] calm_seed [OF this [of "seed_myself st"]] show ?thesis
    by (simp add: apply_presence_def)
qed

lemma calm_cong:
  "calm st st1 \<Longrightarrow> sp_presences st2 = sp_presences st1 \<Longrightarrow> sp_epic_owner st2 = sp_epic_owner st1 \<Longrightarrow>
   sp_peer_epic st2 = sp_peer_epic st1 \<Longrightarrow> calm st st2"
  by (simp add: calm_def find_presence_def)

lemma calm_set: "calm st (set_presence lost now options client_data delegate st)"
proof -
  have "calm st (queue_presence_result r st1)" if "apply_presence lost staged st = (c, st1)" for staged c st1 r
    using calm_cong [OF calm_apply [of st lost staged], of "queue_presence_result r st1"] that by simp
  then show ?thesis
    by (auto simp: set_presence_def calm_same split: option.split versioned.split prod.split)
qed

lemma calm_query: "calm st (query_presence lost now options client_data delegate st)"
proof -
  have "calm st (ask_for_presence lost now local target cd d st)" for local target cd d
  proof -
    let ?q = "queue_presence_result (new_result now cb_presence_query
            (empty_presence_callback\<lparr>pcb_client_data := cd, pcb_local := Some local, pcb_target := Some target\<rparr>) d)
          (st\<lparr>sp_pending_queries := om_put (sp_next_result st)
                \<lparr>pdq_local_id = local, pdq_target_id = target, pdq_deadline = now + query_timeout\<rparr>
                (sp_pending_queries st)\<rparr>)"
    have "calm ?q (ask_for_presence lost now local target cd d st)"
      unfolding ask_for_presence_def Let_def by (rule calm_quieter [OF quieter_send_all])
    then show ?thesis by (simp add: calm_def find_presence_def)
  qed
  then show ?thesis
    by (auto simp: query_presence_def deliver_query_def calm_same split: option.split versioned.split)
qed

fun is_message :: "presence_op \<Rightarrow> bool" where
  "is_message (pop_message _) = True"
| "is_message _ = False"

lemma calm_op: "\<not> is_message op \<Longrightarrow> calm st (presence_do lost st op)"
proof (cases op)
  case pop_init
  have "calm (seed_myself st) (presence_emu_init st)" if "\<not> sp_registered st"
    using that by (intro calm_same) (simp_all add: presence_emu_init_def seed_myself_def seeded_presence_def)
  then show ?thesis using pop_init calm_seed by (cases "sp_registered st") (auto simp: presence_emu_init_def calm_same)
next
  case pop_deinit
  then show ?thesis by (simp add: presence_emu_deinit_def calm_def find_presence_def)
qed (auto simp: calm_query calm_set modification_sets stage_presence_keeps create_presence_modification_def
    presence_modification_release_def copy_presence_def release_presence_info_def add_presence_notice_def
    remove_presence_notice_def presence_collect_def presence_fire_def presence_free_callback_def Let_def
    split: option.split versioned.split prod.split list.split intro!: calm_same)

text \<open>What a message comes to; our own, and those of nobody, come to nothing.\<close>

definition from_other :: "net_envelope \<Rightarrow> sdk_presence \<Rightarrow> bool" where
  "from_other m st \<longleftrightarrow> env_source_id m \<noteq> [] \<and> env_source_id m \<noteq> sp_product_user_id st"

lemma presence_message_cases:
  defines "m_after \<equiv> \<lambda>lost m st. snd (presence_on_network_message lost m st)"
  shows "(m_after lost m st = st \<and> \<not> (env_type_tag m = tag_of peer_disconnected \<and> from_other m st)) \<or>
   (env_type_tag m = tag_of peer_connected \<and> from_other m st \<and> m_after lost m st = on_peer_connected lost m st) \<or>
   (env_type_tag m = tag_of peer_disconnected \<and> from_other m st \<and>
      m_after lost m st = forget_presences (env_source_id m) st) \<or>
   (env_type_tag m = tag_of mt_presence_request \<and>
      m_after lost m st = broadcast_my_presence lost (env_source_id m) st) \<or>
   (\<exists>p. env_type_tag m = tag_of mt_presence_info \<and> from_other m st \<and>
      fst (deserialize_presence_info (reader_of (env_payload m))) = Some p \<and>
      env_game_id m = sp_product_id st \<and>
      m_after lost m st = on_presence_info (env_source_id m) p st)"
  unfolding m_after_def presence_on_network_message_def Let_def from_other_def
  by (simp split: option.split)

end
