(* ===== verification/Presence_Properties.thy ===== *)
theory Presence_Properties
  imports Presence_Runs
begin

text \<open>
  What \<^verbatim>\<open>interfaces/presence.cpp\<close> promises: a presence is what its own player said and is gone with it;
  what we announce is believed, unless the game set a status there is none of; and no question waits
  for ever.
\<close>

section \<open>Whose presence it is\<close>

definition says_presence :: "net_envelope \<Rightarrow> presence_info \<Rightarrow> bool" where
  "says_presence m p \<longleftrightarrow>
     env_type_tag m = tag_of mt_presence_info \<and>
     fst (deserialize_presence_info (reader_of (env_payload m))) = Some p"

text \<open>The router told us of the player, with the account its key derives, and has not told of its leaving.\<close>

definition proved_account :: "presence_op list \<Rightarrow> string \<Rightarrow> string \<Rightarrow> bool" where
  "proved_account ops peer epic \<longleftrightarrow>
     (\<exists>c. pop_message c \<in> set ops \<and> env_type_tag c = tag_of peer_connected \<and> env_source_id c = peer \<and>
        string_of_bytes (env_payload c) = epic)"

definition has_left :: "presence_op list \<Rightarrow> string \<Rightarrow> bool" where
  "has_left ops peer \<longleftrightarrow>
     (\<exists>d. pop_message d \<in> set ops \<and> env_type_tag d = tag_of peer_disconnected \<and> env_source_id d = peer)"

definition spoken_for :: "string \<Rightarrow> presence_op list \<Rightarrow> string \<Rightarrow> string \<Rightarrow> presence_info \<Rightarrow> bool" where
  "spoken_for puid ops peer epic p \<longleftrightarrow>
     peer \<noteq> puid \<and> peer \<noteq> [] \<and> presence_within_caps p \<and> pi_epic_id p = epic \<and>
     (\<exists>xs m ys. ops = xs @ pop_message m # ys \<and> env_source_id m = peer \<and> says_presence m p \<and>
        proved_account xs peer epic \<and> \<not> has_left ys peer)"

lemma proved_account_append: "proved_account ops peer epic \<Longrightarrow> proved_account (ops @ later) peer epic"
  by (auto simp: proved_account_def)

lemma spoken_for_snoc:
  assumes "spoken_for puid ops peer epic p" and "\<not> has_left [op] peer"
  shows "spoken_for puid (ops @ [op]) peer epic p"
proof -
  obtain xs m ys where "ops = xs @ pop_message m # ys" "env_source_id m = peer" "says_presence m p"
    "proved_account xs peer epic" "\<not> has_left ys peer" using assms(1) unfolding spoken_for_def by blast
  moreover have "\<not> has_left (ys @ [op]) peer" using \<open>\<not> has_left ys peer\<close> assms(2) by (auto simp: has_left_def)
  ultimately show ?thesis using assms(1) unfolding spoken_for_def by (metis append_Cons append_assoc)
qed

definition presence_history :: "string \<Rightarrow> presence_op list \<Rightarrow> sdk_presence \<Rightarrow> bool" where
  "presence_history puid ops st \<longleftrightarrow>
     sp_product_user_id st = puid \<and> om_ok (sp_epic_owner st) \<and>
     (\<forall>peer epic. om_find peer (sp_peer_epic st) = Some epic \<longrightarrow> proved_account ops peer epic) \<and>
     (\<forall>epic p. epic \<noteq> sp_epic_id st \<longrightarrow> find_presence epic st = Some p \<longrightarrow>
        (\<exists>peer. om_find epic (sp_epic_owner st) = Some peer \<and> spoken_for puid ops peer epic p))"

lemma on_presence_info_keeps [simp]:
  "sp_epic_id (on_presence_info source p st) = sp_epic_id st"
  "sp_product_user_id (on_presence_info source p st) = sp_product_user_id st"
  "sp_product_id (on_presence_info source p st) = sp_product_id st"
  "sp_calls (on_presence_info source p st) = sp_calls st"
  "sp_platform (on_presence_info source p st) = sp_platform st"
  "sp_modifications (on_presence_info source p st) = sp_modifications st"
  "sp_peer_epic (on_presence_info source p st) = sp_peer_epic st"
  by (simp_all add: on_presence_info_def settle_queries_def fire_presence_changed_def Let_def split: prod.split option.split)

lemma on_presence_info_find:
  "find_presence e (on_presence_info source p st) =
     (if pi_epic_id p = e \<and> e \<noteq> [] \<and> e \<noteq> sp_epic_id st \<and> presence_within_caps p \<and> om_find source (sp_peer_epic st) = Some e
      then Some p else find_presence e st)"
  by (auto simp: on_presence_info_def settle_queries_def fire_presence_changed_def find_presence_def Let_def
      split: prod.split option.split)

lemma on_presence_info_owner:
  "sp_epic_owner (on_presence_info source p st) =
     (if pi_epic_id p \<noteq> [] \<and> pi_epic_id p \<noteq> sp_epic_id st \<and> presence_within_caps p \<and>
         om_find source (sp_peer_epic st) = Some (pi_epic_id p)
      then om_put (pi_epic_id p) source (sp_epic_owner st) else sp_epic_owner st)"
  by (auto simp: on_presence_info_def settle_queries_def fire_presence_changed_def Let_def
      split: prod.split option.split)

lemma presence_message_ids [simp]:
  "sp_epic_id (snd (presence_on_network_message lost m st)) = sp_epic_id st"
  "sp_product_user_id (snd (presence_on_network_message lost m st)) = sp_product_user_id st"
  "sp_product_id (snd (presence_on_network_message lost m st)) = sp_product_id st"
  by (simp_all add: presence_on_network_message_def on_peer_connected_def forget_presences_def Let_def split: option.split)

lemma presence_apply_ids [simp]:
  "sp_epic_id (snd (apply_presence lost staged st)) = sp_epic_id st"
  "sp_product_user_id (snd (apply_presence lost staged st)) = sp_product_user_id st"
  "sp_product_id (snd (apply_presence lost staged st)) = sp_product_id st"
  by (simp_all add: apply_presence_def merge_into_own_def split: option.split)

lemma presence_op_ids [simp]:
  "sp_epic_id (presence_do lost st op) = sp_epic_id st"
  "sp_product_user_id (presence_do lost st op) = sp_product_user_id st"
  "sp_product_id (presence_do lost st op) = sp_product_id st"
  by (cases op; simp add: presence_emu_init_def presence_emu_deinit_def query_presence_def ask_for_presence_def
      deliver_query_def set_presence_def modification_sets stage_presence_keeps create_presence_modification_def
      presence_modification_release_def copy_presence_def release_presence_info_def add_presence_notice_def
      remove_presence_notice_def presence_collect_def presence_fire_def presence_free_callback_def Let_def split_beta
      split: option.split versioned.split list.split)+

lemma history_spoken:
  assumes "presence_history puid ops st" and "epic \<noteq> sp_epic_id st" and "find_presence epic st = Some p"
  obtains peer where "om_find epic (sp_epic_owner st) = Some peer" "spoken_for puid ops peer epic p"
  using assms unfolding presence_history_def by blast

lemma history_calm:
  assumes "presence_history puid ops st" and "calm st st'"
    and "sp_product_user_id st' = sp_product_user_id st" and "sp_epic_id st' = sp_epic_id st"
    and left: "\<And>epic p. epic \<noteq> sp_epic_id st \<Longrightarrow> find_presence epic st' = Some p \<Longrightarrow>
      \<not> has_left [op] (the (om_find epic (sp_epic_owner st)))"
  shows "presence_history puid (ops @ [op]) st'"
  unfolding presence_history_def
proof (intro conjI allI impI)
  show "sp_product_user_id st' = puid" "om_ok (sp_epic_owner st')"
    using assms(1-3) by (simp_all add: presence_history_def calm_def)
next
  fix peer epic assume "om_find peer (sp_peer_epic st') = Some epic"
  then have "om_find peer (sp_peer_epic st) = Some epic" using assms(2) by (simp add: calm_def)
  then show "proved_account (ops @ [op]) peer epic"
    using assms(1) by (auto simp: presence_history_def intro: proved_account_append)
next
  fix epic p assume epic: "epic \<noteq> sp_epic_id st'" and p: "find_presence epic st' = Some p"
  then have same: "find_presence epic st = Some p" "om_find epic (sp_epic_owner st') = om_find epic (sp_epic_owner st)"
    using assms(1,2,4) by (auto simp: presence_history_def calm_def)
  have "epic \<noteq> sp_epic_id st" using epic assms(4) by simp
  from history_spoken [OF assms(1) this same(1)]
  obtain peer where "om_find epic (sp_epic_owner st) = Some peer" "spoken_for puid ops peer epic p" .
  with left [of epic p] epic p assms(4) same show "\<exists>peer. om_find epic (sp_epic_owner st') = Some peer \<and>
      spoken_for puid (ops @ [op]) peer epic p" by (auto intro: spoken_for_snoc)
qed

lemma history_told:
  assumes h: "presence_history puid ops st" and says: "says_presence m p" and other: "from_other m st"
  shows "presence_history puid (ops @ [pop_message m]) (on_presence_info (env_source_id m) p st)"
proof -
  let ?st = "on_presence_info (env_source_id m) p st"
  have stays: "\<not> has_left [pop_message m] peer" for peer
    using says by (auto simp: has_left_def says_presence_def)
  have new: "spoken_for puid (ops @ [pop_message m]) (env_source_id m) (pi_epic_id p) p"
    if "presence_within_caps p" "om_find (env_source_id m) (sp_peer_epic st) = Some (pi_epic_id p)"
  proof -
    have "proved_account ops (env_source_id m) (pi_epic_id p)" "\<not> has_left [] (env_source_id m)"
      using h that(2) by (simp_all add: presence_history_def has_left_def)
    moreover have "env_source_id m \<noteq> puid" "env_source_id m \<noteq> []"
      using other h by (simp_all add: from_other_def presence_history_def)
    ultimately show ?thesis using that(1) says unfolding spoken_for_def by blast
  qed
  show ?thesis unfolding presence_history_def
  proof (intro conjI allI impI)
    show "sp_product_user_id ?st = puid" "om_ok (sp_epic_owner ?st)"
      using h by (simp_all add: presence_history_def on_presence_info_owner)
  next
    fix peer epic assume "om_find peer (sp_peer_epic ?st) = Some epic"
    then show "proved_account (ops @ [pop_message m]) peer epic"
      using h by (auto simp: presence_history_def intro: proved_account_append)
  next
    fix epic q assume epic: "epic \<noteq> sp_epic_id ?st" and q: "find_presence epic ?st = Some q"
    show "\<exists>peer. om_find epic (sp_epic_owner ?st) = Some peer \<and> spoken_for puid (ops @ [pop_message m]) peer epic q"
    proof (cases "pi_epic_id p = epic \<and> epic \<noteq> [] \<and> presence_within_caps p \<and>
        om_find (env_source_id m) (sp_peer_epic st) = Some epic")
      case True
      with q epic new show ?thesis by (auto simp: on_presence_info_find on_presence_info_owner)
    next
      case False
      with q epic have "find_presence epic st = Some q" by (auto simp: on_presence_info_find split: if_splits)
      moreover have "epic \<noteq> sp_epic_id st" using epic by simp
      ultimately obtain peer where "om_find epic (sp_epic_owner st) = Some peer" "spoken_for puid ops peer epic q"
        by (metis history_spoken [OF h])
      moreover have "om_find epic (sp_epic_owner ?st) = om_find epic (sp_epic_owner st)"
        using False epic by (auto simp: on_presence_info_owner)
      ultimately show ?thesis using spoken_for_snoc [OF _ stays] by metis
    qed
  qed
qed

lemma history_joined:
  assumes h: "presence_history puid ops st" and tag: "env_type_tag m = tag_of peer_connected"
  shows "presence_history puid (ops @ [pop_message m]) (on_peer_connected lost m st)"
proof -
  let ?st = "if env_payload m = [] then st
    else st\<lparr>sp_peer_epic := om_put (env_source_id m) (string_of_bytes (env_payload m)) (sp_peer_epic st)\<rparr>"
  have stays: "\<not> has_left [pop_message m] peer" for peer
    using tag by (auto simp: has_left_def)
  have part: "quieter ?st (on_peer_connected lost m st)"
    by (simp add: on_peer_connected_def Let_def quieter_broadcast)
  then have forgets: "only_forgets ?st (on_peer_connected lost m st)" by (simp add: quieter_def)
  have ids: "sp_product_user_id (on_peer_connected lost m st) = sp_product_user_id st"
    "sp_epic_id (on_peer_connected lost m st) = sp_epic_id st"
    by (simp_all add: on_peer_connected_def Let_def)
  have ok: "om_ok (sp_epic_owner ?st)" using h by (simp add: presence_history_def)
  show ?thesis unfolding presence_history_def ids
  proof (intro conjI allI impI)
    show "sp_product_user_id st = puid" using h by (simp add: presence_history_def)
    show "om_ok (sp_epic_owner (on_peer_connected lost m st))" by (rule only_forgetsD(2) [OF forgets ok])
  next
    fix peer epic assume "om_find peer (sp_peer_epic (on_peer_connected lost m st)) = Some epic"
    from only_forgetsD(1) [OF forgets this] h tag show "proved_account (ops @ [pop_message m]) peer epic"
      by (auto simp: presence_history_def proved_account_def split: if_splits)
  next
    fix epic p assume epic: "epic \<noteq> sp_epic_id st" and p: "find_presence epic (on_peer_connected lost m st) = Some p"
    have "find_presence epic ?st = find_presence epic st" "sp_epic_owner ?st = sp_epic_owner st"
      by (simp_all add: find_presence_def)
    with only_forgetsD(3,4) [OF forgets ok p]
    have "find_presence epic st = Some p"
      "om_find epic (sp_epic_owner (on_peer_connected lost m st)) = om_find epic (sp_epic_owner st)" by simp_all
    then show "\<exists>peer. om_find epic (sp_epic_owner (on_peer_connected lost m st)) = Some peer \<and>
        spoken_for puid (ops @ [pop_message m]) peer epic p"
      using history_spoken [OF h epic] spoken_for_snoc [OF _ stays] by metis
  qed
qed

lemma history_gone:
  assumes h: "presence_history puid ops st" and tag: "env_type_tag m = tag_of peer_disconnected"
  shows "presence_history puid (ops @ [pop_message m]) (forget_presences (env_source_id m) st)"
proof (rule history_calm [OF h calm_quieter [OF quieter_forget]])
  show "sp_product_user_id (forget_presences (env_source_id m) st) = sp_product_user_id st"
    "sp_epic_id (forget_presences (env_source_id m) st) = sp_epic_id st" by (simp_all add: forget_presences_def)
  fix epic p assume epic: "epic \<noteq> sp_epic_id st" and p: "find_presence epic (forget_presences (env_source_id m) st) = Some p"
  then have "find_presence epic st = Some p" "om_find epic (sp_epic_owner st) \<noteq> Some (env_source_id m)"
    by (auto simp: forget_presences_def find_presence_def
        om_find_filter_key [of _ "\<lambda>k. om_find k (sp_epic_owner st) \<noteq> Some (env_source_id m)"] split: if_splits)
  with history_spoken [OF h epic] show "\<not> has_left [pop_message m] (the (om_find epic (sp_epic_owner st)))"
    by (force simp: has_left_def)
qed

lemma history_step:
  assumes h: "presence_history puid ops st"
  shows "presence_history puid (ops @ [op]) (presence_do lost st op)"
proof (cases "is_message op")
  case True
  then obtain m where pop_message: "op = pop_message m" by (cases op) auto
  note m = presence_message_cases [of lost m st]
  have idle: "presence_history puid (ops @ [pop_message m]) st'"
    if quiet: "quieter st st'" and tag: "\<not> (env_type_tag m = tag_of peer_disconnected \<and> from_other m st)" for st'
  proof (rule history_calm [OF h calm_quieter [OF quiet]])
    fix epic p assume "epic \<noteq> sp_epic_id st" "find_presence epic st' = Some p"
    moreover from this have "find_presence epic st = Some p"
      using h calm_quieter [OF quiet] by (simp add: presence_history_def calm_def)
    ultimately obtain peer where "om_find epic (sp_epic_owner st) = Some peer" "peer \<noteq> puid" "peer \<noteq> []"
      using history_spoken [OF h] unfolding spoken_for_def by metis
    then show "\<not> has_left [pop_message m] (the (om_find epic (sp_epic_owner st)))"
      using h tag by (auto simp: has_left_def from_other_def presence_history_def)
  qed (simp_all add: quieter_keeps [OF quiet])
  show ?thesis
    using m idle [OF quieter_refl] idle [OF quieter_broadcast] history_joined [OF h] history_gone [OF h] history_told [OF h]
    by (auto simp: pop_message says_presence_def)
next
  case False
  then have "\<not> has_left [op] peer" for peer by (auto simp: has_left_def)
  then show ?thesis by (intro history_calm [OF h calm_op [OF False]]) simp_all
qed

lemma history_run:
  "presence_history puid ops (run (presence_do lost) (new_sdk_presence me puid game platform owner) ops)"
proof (induction ops rule: rev_induct)
  case Nil
  show ?case by (simp add: presence_history_def new_sdk_presence_def find_presence_def)
next
  case (snoc op ops)
  from history_step [OF this] show ?case by (simp add: run_append)
qed

text \<open>C37. Whatever a game and its peers do, the presence we hold for another account was said by a player
  whose key derives that very account, after the router told us so, it is within the limits, and that
  player has not left since.\<close>

theorem presence_is_its_players_word:
  assumes "find_presence epic (run (presence_do lost) (new_sdk_presence me puid game platform owner) ops) = Some p"
    and "epic \<noteq> me"
  shows "\<exists>xs m ys. ops = xs @ pop_message m # ys \<and> env_source_id m \<noteq> puid \<and> says_presence m p \<and>
    pi_epic_id p = epic \<and> presence_within_caps p \<and>
    proved_account xs (env_source_id m) epic \<and> \<not> has_left ys (env_source_id m)"
proof -
  have "sp_epic_id (run (presence_do lost) (new_sdk_presence me puid game platform owner) ops) = me"
    by (induction ops rule: rev_induct) (simp_all add: run_append new_sdk_presence_def)
  with assms(2) have "epic \<noteq> sp_epic_id (run (presence_do lost) (new_sdk_presence me puid game platform owner) ops)"
    by simp
  from history_spoken [OF history_run this assms(1)] show ?thesis unfolding spoken_for_def by metis
qed

end
