(* ===== verification/Presence_Announced.thy ===== *)
theory Presence_Announced
  imports Presence_Properties
begin

text \<open>
  What we announce: as long as the game stages statuses there are, every presence we hand to the mesh is
  one its receivers accept; a status there is none of is taken from the game and refused by everyone.
\<close>

section \<open>Our own presence stays within the limits\<close>

definition status_in_range :: "i32 \<Rightarrow> bool" where
  "status_in_range s \<longleftrightarrow> sint pst_offline \<le> sint s \<and> sint s \<le> sint pst_do_not_disturb"

definition record_within_caps :: "presence_data_record \<Rightarrow> bool" where
  "record_within_caps r \<longleftrightarrow> length (pr_key r) \<le> max_key_length \<and> length (pr_value r) \<le> max_value_length"

lemma presence_within_caps_iff:
  "presence_within_caps p \<longleftrightarrow>
     status_in_range (pi_status p) \<and> length (pi_rich_text p) \<le> max_rich_text_length \<and>
     length (pi_join_info p) \<le> max_join_info_length \<and> length (pi_records p) \<le> max_data_keys \<and>
     list_all record_within_caps (pi_records p)"
proof -
  have "record_within_caps = (\<lambda>r. \<not> (max_key_length < length (pr_key r) \<or> max_value_length < length (pr_value r)))"
    by (auto simp: record_within_caps_def fun_eq_iff)
  then show ?thesis by (auto simp: presence_within_caps_def status_in_range_def not_less)
qed

definition staged_within_caps :: "presence_modification \<Rightarrow> bool" where
  "staged_within_caps x \<longleftrightarrow>
     (pm_set_status x \<longrightarrow> status_in_range (pm_status x)) \<and>
     (pm_set_rich_text x \<longrightarrow> length (pm_rich_text x) \<le> max_rich_text_length) \<and>
     (pm_set_join_info x \<longrightarrow> length (pm_join_info x) \<le> max_join_info_length) \<and>
     list_all record_within_caps (pm_data_set x)"

text \<open>Ours carries our account, the title, and the name of the system.\<close>

definition own_presence :: "string \<Rightarrow> string \<Rightarrow> string \<Rightarrow> presence_info \<Rightarrow> bool" where
  "own_presence me game platform p \<longleftrightarrow>
     presence_within_caps p \<and> pi_epic_id p = me \<and> pi_product_id p = game \<and> pi_product_version p = ''1.0'' \<and>
     pi_platform p = platform \<and> pi_product_name p = game \<and> pi_integrated_platform p = []"

lemma own_presence_ok:
  assumes "own_presence me game platform p" and "string_ok me" "string_ok game" "string_ok platform"
  shows "presence_info_ok p"
  using assms
  by (auto simp: own_presence_def presence_within_caps_iff presence_info_ok_def presence_data_record_ok_def
      string_ok_def fits64_def record_within_caps_def presence_caps max_data_records_def list_all_iff)

lemma put_record_within: "list_all record_within_caps rs \<Longrightarrow> record_within_caps r \<Longrightarrow> list_all record_within_caps (put_record rs r)"
  by (induction rs r rule: put_record.induct) (auto simp: record_within_caps_def)

lemma merged_records_within:
  assumes "list_all record_within_caps records" and "staged_within_caps x"
  shows "list_all record_within_caps (merged_records x records)"
proof -
  have "list_all record_within_caps (delete_records ks rs)" if "list_all record_within_caps rs" for ks rs
  proof -
    have "set (foldl (\<lambda>rs key. filter (\<lambda>r. pr_key r \<noteq> key) rs) rs ks) \<subseteq> set rs"
      by (induction ks arbitrary: rs) fastforce+
    then show ?thesis using that unfolding delete_records_def list_all_iff by blast
  qed
  moreover have "list_all record_within_caps (foldl put_record rs ss)"
    if "list_all record_within_caps rs" "list_all record_within_caps ss" for rs ss
    using that by (induction ss arbitrary: rs) (auto intro: put_record_within)
  ultimately show ?thesis using assms by (simp add: merged_records_def staged_within_caps_def)
qed

lemma merged_own:
  assumes "own_presence me game platform p" and "staged_within_caps x"
    and "\<not> max_data_keys < length (merged_records x (pi_records p))"
  shows "own_presence me game platform (merged_presence x p)"
  using assms merged_records_within [OF _ assms(2), of "pi_records p"]
  by (auto simp: own_presence_def presence_within_caps_iff merged_presence_def staged_within_caps_def)

section \<open>Staging\<close>

fun in_range_op :: "presence_op \<Rightarrow> bool" where
  "in_range_op (pop_status h (Some (versioned v status))) = status_in_range status"
| "in_range_op _ = True"

lemma read_records_within:
  "check_records rs = None \<Longrightarrow> list_all record_within_caps (read_records rs)"
  by (induction rs rule: check_records.induct) (auto simp: record_within_caps_def text_or_empty_def split: if_splits)

lemma stage_within:
  assumes "staged_within_caps x"
  shows "status_in_range s \<Longrightarrow> stage_status s x = Inr y \<Longrightarrow> staged_within_caps y"
    and "stage_rich_text t x = Inr y \<Longrightarrow> staged_within_caps y"
    and "stage_data d x = Inr y \<Longrightarrow> staged_within_caps y"
    and "stage_deletion k x = Inr y \<Longrightarrow> staged_within_caps y"
    and "stage_join_info t x = Inr y \<Longrightarrow> staged_within_caps y"
    and "stage_template t x = Inr y \<Longrightarrow> staged_within_caps y"
  using assms
  by (auto simp: stage_status_def stage_rich_text_def stage_data_def stage_deletion_def stage_join_info_def
      stage_template_def staged_within_caps_def Let_def read_records_within split: option.splits if_splits prod.splits)

section \<open>The invariant\<close>

definition announcing :: "string \<Rightarrow> string \<Rightarrow> string \<Rightarrow> string \<Rightarrow> sdk_presence \<Rightarrow> bool" where
  "announcing me puid game platform st \<longleftrightarrow>
     sp_epic_id st = me \<and> sp_product_user_id st = puid \<and> sp_product_id st = game \<and> sp_platform st = platform \<and>
     om_ok (sp_epic_owner st) \<and>
     (\<forall>p. find_presence me st = Some p \<longrightarrow> own_presence me game platform p) \<and>
     (\<forall>h x. hs_find h (sp_modifications st) = Some x \<longrightarrow> staged_within_caps x) \<and>
     (\<forall>m. mesh_send m \<in> set (sp_calls st) \<longrightarrow> env_type_tag m = tag_of mt_presence_info \<longrightarrow>
        env_source_id m = puid \<and> env_game_id m = game \<and>
        (\<exists>p. own_presence me game platform p \<and> env_payload m = serialize_presence_info p))"

lemma announcing_mesh:
  assumes inv: "announcing me puid game platform st" and quiet: "quieter st st'"
    and sent: "\<And>m. mesh_send m \<in> set (sp_calls st') \<Longrightarrow> env_type_tag m = tag_of mt_presence_info \<Longrightarrow>
      mesh_send m \<in> set (sp_calls st) \<or>
      (env_source_id m = puid \<and> env_game_id m = game \<and>
       (\<exists>p. own_presence me game platform p \<and> env_payload m = serialize_presence_info p))"
  shows "announcing me puid game platform st'"
proof -
  have forgets: "only_forgets st st'" and ok: "om_ok (sp_epic_owner st)"
    using inv quiet by (simp_all add: quieter_def announcing_def)
  have "sp_platform st' = sp_platform st" using quiet by (simp add: quieter_keeps)
  then show ?thesis
    using inv sent quieter_keeps [OF quiet] only_forgetsD(2,3) [OF forgets ok] unfolding announcing_def by metis
qed

lemma announcing_broadcast:
  assumes "announcing me puid game platform st"
  shows "announcing me puid game platform (broadcast_my_presence lost peer st)"
proof (rule announcing_mesh [OF assms quieter_broadcast])
  fix m assume "mesh_send m \<in> set (sp_calls (broadcast_my_presence lost peer st))"
  then show "mesh_send m \<in> set (sp_calls st) \<or> (env_source_id m = puid \<and> env_game_id m = game \<and>
      (\<exists>p. own_presence me game platform p \<and> env_payload m = serialize_presence_info p))"
    using assms by (auto simp: broadcast_my_presence_def presence_send_all_calls presence_letter_def announcing_def
        split: option.splits if_splits)
qed

text \<open>What is neither of ours nor of a letter does not matter.\<close>

lemma announcing_cong:
  assumes "announcing me puid game platform st"
    and "sp_epic_id st' = sp_epic_id st" "sp_product_user_id st' = sp_product_user_id st"
    "sp_product_id st' = sp_product_id st" "sp_platform st' = sp_platform st"
    and "om_ok (sp_epic_owner st')" "find_presence me st' = find_presence me st"
    and "sp_modifications st' = sp_modifications st"
    and "\<And>m. mesh_send m \<in> set (sp_calls st') \<Longrightarrow> mesh_send m \<in> set (sp_calls st)"
  shows "announcing me puid game platform st'"
  using assms unfolding announcing_def by metis

lemma announcing_updates [simp]:
  "announcing me puid game platform (st\<lparr>sp_mesh := ps\<rparr>) = announcing me puid game platform st"
  "announcing me puid game platform (st\<lparr>sp_infos := infos\<rparr>) = announcing me puid game platform st"
  "announcing me puid game platform (st\<lparr>sp_callbacks := cm\<rparr>) = announcing me puid game platform st"
  "announcing me puid game platform (st\<lparr>sp_results := rs, sp_ready := ready\<rparr>) = announcing me puid game platform st"
  by (simp_all add: announcing_def find_presence_def)

lemma announcing_own:
  assumes "announcing me puid game platform st" and "own_presence me game platform p"
  shows "announcing me puid game platform (st\<lparr>sp_presences := om_put me p (sp_presences st)\<rparr>)"
  using assms by (simp add: announcing_def find_presence_def)

lemma announcing_seed:
  assumes "announcing me puid game platform st"
  shows "announcing me puid game platform (seed_myself st)"
proof -
  have "own_presence me game platform (seeded_presence st)"
    using assms by (simp add: announcing_def own_presence_def seeded_presence_def presence_within_caps_iff
        status_in_range_def pst_offline_def pst_online_def pst_do_not_disturb_def)
  moreover have "sp_epic_id st = me" using assms by (simp add: announcing_def)
  ultimately show ?thesis using announcing_own [OF assms] assms by (auto simp: seed_myself_def)
qed

lemma announcing_merge:
  assumes inv: "announcing me puid game platform st" and staged: "staged_within_caps x"
  shows "announcing me puid game platform (snd (merge_into_own lost x st))"
proof (cases "find_presence me st")
  case None
  then show ?thesis using inv by (simp add: merge_into_own_def announcing_def)
next
  case (Some p)
  have me: "sp_epic_id st = me" and own: "own_presence me game platform p"
    using inv Some by (simp_all add: announcing_def)
  show ?thesis
  proof (cases "max_data_keys < length (merged_records x (pi_records p))")
    case True
    with Some inv show ?thesis by (simp add: merge_into_own_def me)
  next
    case False
    with Some announcing_broadcast [OF announcing_own [OF inv merged_own [OF own staged False]]] show ?thesis
      by (simp add: merge_into_own_def me)
  qed
qed

lemma announcing_apply:
  "announcing me puid game platform st \<Longrightarrow> staged_within_caps x \<Longrightarrow>
   announcing me puid game platform (snd (apply_presence lost x st))"
  by (simp add: apply_presence_def announcing_merge announcing_seed)

lemma announcing_queue: "announcing me puid game platform (queue_presence_result r st) = announcing me puid game platform st"
  by (simp add: announcing_def find_presence_def queue_presence_result_def)

lemma announcing_set:
  assumes "announcing me puid game platform st"
  shows "announcing me puid game platform (set_presence lost now options client_data delegate st)"
proof -
  have "announcing me puid game platform st1"
    if "hs_find h (sp_modifications st) = Some x" "apply_presence lost x st = (c, st1)" for h x c st1
    using announcing_apply [OF assms, of x lost] that assms unfolding announcing_def by (metis snd_conv)
  then show ?thesis
    using assms by (auto simp: set_presence_def announcing_queue split: option.split versioned.split prod.split)
qed

lemma announcing_ask:
  assumes "announcing me puid game platform st"
  shows "announcing me puid game platform (ask_for_presence lost now local target client_data d st)"
proof -
  let ?st = "queue_presence_result (new_result now cb_presence_query
      (empty_presence_callback\<lparr>pcb_client_data := client_data, pcb_local := Some local, pcb_target := Some target\<rparr>) d)
    (st\<lparr>sp_pending_queries := om_put (sp_next_result st)
      \<lparr>pdq_local_id = local, pdq_target_id = target, pdq_deadline = now + query_timeout\<rparr> (sp_pending_queries st)\<rparr>)"
  have inv: "announcing me puid game platform ?st"
    using assms by (simp add: announcing_queue) (simp add: announcing_def find_presence_def)
  have "announcing me puid game platform (presence_send_all lost mt_presence_request payload peers ?st)" for payload peers
    by (rule announcing_mesh [OF inv quieter_send_all]) (auto simp: presence_send_all_calls presence_letter_def)
  then show ?thesis by (simp add: ask_for_presence_def Let_def)
qed

lemma announcing_stage:
  assumes inv: "announcing me puid game platform st"
    and change: "\<And>v x y z. options = Some (versioned v z) \<Longrightarrow> staged_within_caps x \<Longrightarrow> change z x = Inr y \<Longrightarrow> staged_within_caps y"
  shows "announcing me puid game platform (snd (stage_presence h latest options change st))"
proof -
  have "staged_within_caps x" if "hs_find i (sp_modifications st) = Some x" for i x
    using inv that by (auto simp: announcing_def)
  then have "staged_within_caps y" if "options = Some (versioned v z)" "hs_find i (sp_modifications st) = Some x"
    "change z x = Inr y" for v z i x y using change that by metis
  with inv show ?thesis
    by (auto simp: stage_presence_def announcing_def find_presence_def hs_find_def split: option.split versioned.split sum.split)
qed

lemma announcing_message:
  assumes inv: "announcing me puid game platform st"
  shows "announcing me puid game platform (snd (presence_on_network_message lost m st))"
proof -
  have joined: "announcing me puid game platform (on_peer_connected lost m st)"
  proof -
    have "announcing me puid game platform (st\<lparr>sp_peer_epic := e\<rparr>)" for e
      using inv by (simp add: announcing_def find_presence_def)
    then show ?thesis using inv by (simp add: on_peer_connected_def Let_def announcing_broadcast)
  qed
  have gone: "announcing me puid game platform (forget_presences peer st)" for peer
    by (rule announcing_mesh [OF inv quieter_forget]) (simp add: forget_presences_def)
  have told: "announcing me puid game platform (on_presence_info source p st)" for source p
    by (rule announcing_cong [OF inv])
      (use inv in \<open>auto simp: announcing_def on_presence_info_find on_presence_info_owner\<close>)
  show ?thesis
    using presence_message_cases [of lost m st] inv joined gone told announcing_broadcast [OF inv]
    by (elim disjE exE conjE) simp_all
qed

lemma announcing_op:
  assumes inv: "announcing me puid game platform st" and op: "in_range_op op"
  shows "announcing me puid game platform (presence_do lost st op)"
proof (cases op)
  case (pop_status h options)
  then show ?thesis using op
    by (cases op rule: in_range_op.cases)
      (auto simp: modification_set_status_def intro!: announcing_stage [OF inv] intro: stage_within)
next
  case pop_init
  have "announcing me puid game platform (st\<lparr>sp_callbacks := c, sp_calls := sp_calls st @ map mesh_listen ts\<rparr>)" for c ts
    using inv by (auto simp: announcing_def find_presence_def)
  from announcing_seed [OF this] have "announcing me puid game platform
      ((seed_myself (st\<lparr>sp_callbacks := c, sp_calls := sp_calls st @ map mesh_listen ts\<rparr>))\<lparr>sp_registered := True\<rparr>)" for c ts
    by (simp add: announcing_def find_presence_def)
  with pop_init inv show ?thesis by (simp add: presence_emu_init_def)
next
  case pop_deinit
  then show ?thesis using inv by (auto simp: presence_emu_deinit_def announcing_def find_presence_def hs_clear_def hs_find_def)
next
  case (pop_query now options cd delegate)
  then show ?thesis using inv
    by (auto simp: query_presence_def deliver_query_def announcing_queue announcing_ask split: option.split versioned.split)
next
  case (pop_create options has_out)
  then show ?thesis using inv
    by (auto simp: create_presence_modification_def announcing_def find_presence_def hs_find_def hs_add_def
        next_handle_id_def staged_within_caps_def split: option.split versioned.split)
next
  case (pop_release h)
  then show ?thesis using inv
    by (auto simp: presence_modification_release_def announcing_def find_presence_def hs_find_def hs_release_def)
next
  case (pop_copy options has_out)
  then show ?thesis using inv
    by (auto simp: copy_presence_def announcing_def find_presence_def split: option.split versioned.split)
next
  case (pop_notify type now cd delegate)
  then show ?thesis using inv by (simp add: add_presence_notice_def announcing_def find_presence_def split: prod.split)
next
  case pop_fire
  then show ?thesis using inv
    by (auto simp: presence_fire_def presence_free_callback_def announcing_def find_presence_def split: list.split)
qed (use inv in \<open>auto simp: announcing_message announcing_set modification_sets presence_collect_def Let_def
      release_presence_info_def remove_presence_notice_def intro!: announcing_stage [OF inv]
      intro: stage_within announcing_cong [OF inv] simp del: tag_of.simps\<close>)


lemma announcing_run:
  assumes "list_all in_range_op ops"
  shows "announcing me puid game platform (run (presence_do lost) (new_sdk_presence me puid game platform owner) ops)"
  using assms
proof (induction ops rule: rev_induct)
  case Nil
  show ?case by (simp add: announcing_def new_sdk_presence_def find_presence_def hs_find_def)
next
  case (snoc op ops)
  then show ?case by (simp add: run_append announcing_op)
qed

section \<open>What its receiver makes of it\<close>

lemma on_presence_message:
  assumes "env_source_id m \<noteq> []" and "env_source_id m \<noteq> sp_product_user_id B"
    and "env_game_id m = sp_product_id B" and "env_type_tag m = tag_of mt_presence_info"
    and "fst (deserialize_presence_info (reader_of (env_payload m))) = Some p"
  shows "snd (presence_on_network_message lost m B) = on_presence_info (env_source_id m) p B"
  using assms by (simp add: presence_on_network_message_def Let_def)

text \<open>C38. As long as the game stages only statuses there are, every presence we ever hand to the mesh is
  believed by whoever meets us: a peer of the same title that knows the account our key derives holds,
  after the message, exactly the presence we sent, and it is ours and within the limits.\<close>

theorem what_we_announce_is_believed:
  assumes "list_all in_range_op ops"
    and "mesh_send m \<in> set (sp_calls (run (presence_do lost) (new_sdk_presence me puid game platform owner) ops))"
    and "env_type_tag m = tag_of mt_presence_info"
    and "string_ok me" "string_ok game" "string_ok platform" and "me \<noteq> []" "puid \<noteq> []"
    and "sp_epic_id B \<noteq> me" "sp_product_user_id B \<noteq> puid" "sp_product_id B = game"
    and "om_find puid (sp_peer_epic B) = Some me"
  shows "\<exists>p. says_presence m p \<and> own_presence me game platform p \<and>
    find_presence me (snd (presence_on_network_message lost' m B)) = Some p"
proof -
  obtain p where p: "own_presence me game platform p" "env_payload m = serialize_presence_info p"
    and m: "env_source_id m = puid" "env_game_id m = game"
    using announcing_run [OF assms(1)] assms(2,3) unfolding announcing_def by metis
  have "presence_info_ok p" by (rule own_presence_ok [OF p(1) assms(4-6)])
  then have "fst (deserialize_presence_info (reader_of (env_payload m))) = Some p"
    using presence_info_codec.roundtrip [of p] by (simp add: p(2))
  moreover from this have "snd (presence_on_network_message lost' m B) = on_presence_info puid p B"
    using on_presence_message [of m B p] assms m by simp
  ultimately show ?thesis
    using p(1) assms by (auto simp: says_presence_def on_presence_info_find own_presence_def)
qed

text \<open>C39. A game that stages a status there is none of is told that all went well, twice, and from then on
  nobody believes us: each message that announces the presence leaves every receiver as it was, so our
  friends go on seeing what we were before.\<close>

theorem odd_status_is_taken_and_refused_by_all:
  assumes "hs_find h (sp_modifications A) = Some x" and "find_presence (sp_epic_id A) A = Some self"
    and "\<not> status_in_range s" and "\<not> max_data_keys < length (merged_records x (pi_records self))"
    and "presence_info_ok (merged_presence (x\<lparr>pm_set_status := True, pm_status := s\<rparr>) self)"
    and "A1 = snd (modification_set_status h (Some (versioned 1 s)) A)"
    and "A2 = set_presence lost now (Some (versioned 1 (Some (sp_epic_id A), h))) cd (Some d) A1"
  shows "fst (modification_set_status h (Some (versioned 1 s)) A) = EOS_Success \<and>
    pcb_code (fr_payload (snd (last (sp_results A2)))) = EOS_Success \<and>
    (\<exists>sent. sp_calls A2 = sp_calls A @ map mesh_send sent \<and> map env_dest_id sent = sp_mesh A \<and>
       list_all (\<lambda>m. env_type_tag m = tag_of mt_presence_info \<and>
         snd (presence_on_network_message lost' m B) = B) sent)"
proof -
  let ?x = "x\<lparr>pm_set_status := True, pm_status := s\<rparr>" and ?p = "merged_presence (x\<lparr>pm_set_status := True, pm_status := s\<rparr>) self"
  let ?sent = "map (\<lambda>p. presence_letter mt_presence_info (serialize_presence_info ?p) p A) (sp_mesh A)"
  have A1: "A1 = A\<lparr>sp_modifications := om_put h ?x (sp_modifications A)\<rparr>"
    using assms(1,6) by (simp add: modification_set_status_def stage_presence_def stage_status_def version_ok_def)
  have records: "merged_records ?x = merged_records x" by (simp add: merged_records_def fun_eq_iff)
  have "apply_presence lost ?x A1 = (EOS_Success, broadcast_my_presence lost []
      (A1\<lparr>sp_presences := om_put (sp_epic_id A) ?p (sp_presences A)\<rparr>))"
    using assms(2,4) by (simp add: apply_presence_def merge_into_own_def A1 find_presence_def records)
  then have A2: "A2 = queue_presence_result (done_result now cb_presence_set
      (empty_presence_callback\<lparr>pcb_code := EOS_Success, pcb_client_data := cd, pcb_local := handle_of_id (sp_epic_id A),
         pcb_rich_code := EOS_Success\<rparr>) d)
      (broadcast_my_presence lost [] (A1\<lparr>sp_presences := om_put (sp_epic_id A) ?p (sp_presences A)\<rparr>))"
    using assms(1) by (simp add: assms(7) set_presence_def version_ok_def set_presence_latest_def A1 hs_find_def)
  have "sp_calls A2 = sp_calls A @ map mesh_send ?sent"
    by (simp add: A2 broadcast_my_presence_def find_presence_def presence_send_all_calls A1 presence_letter_def)
  moreover have "snd (presence_on_network_message lost' m B) = B" if m: "m \<in> set ?sent" for m
  proof -
    have "fst (deserialize_presence_info (reader_of (env_payload m))) = Some ?p" and tag: "env_type_tag m = tag_of mt_presence_info"
      using m presence_info_codec.roundtrip [OF assms(5)] by (auto simp: presence_letter_def)
    moreover have "on_presence_info source ?p B = B" for source
      using assms(3) by (simp add: on_presence_info_def Let_def presence_within_caps_iff merged_presence_def)
    ultimately show ?thesis by (simp add: presence_on_network_message_def Let_def)
  qed
  ultimately show ?thesis
    using A1 by (auto intro!: exI [of _ ?sent] simp: A2 queue_presence_result_def done_result_def new_result_def create_callback_def
        assms(6) presence_letter_def comp_def list_all_iff)
      (simp_all add: modification_set_status_def stage_presence_def stage_status_def version_ok_def assms(1))
qed

end
