(* ===== verification/Presence_Queries.thy ===== *)
theory Presence_Queries
  imports Presence_Announced
begin

text \<open>
  Questions that wait: each is named, has a deadline a second after it was asked, and leaves the queue
  in the first tick past it, whatever the mesh does meanwhile.
\<close>

definition queue_names :: "sdk_presence \<Rightarrow> nat list" where
  "queue_names st = map fst (sp_results st) @ map fst (sp_ready st)"

definition waits_properly :: "sdk_presence \<Rightarrow> nat \<times> presence_callback frame_result \<Rightarrow> bool" where
  "waits_properly st e \<longleftrightarrow>
     fr_ok_timeout (snd e) = 0 \<and>
     (fr_done (snd e) \<or>
      (\<exists>q. om_find (fst e) (sp_pending_queries st) = Some q \<and>
         pdq_deadline q = fr_created_time (snd e) + query_timeout))"

definition queries_ok :: "sdk_presence \<Rightarrow> bool" where
  "queries_ok st \<longleftrightarrow>
     distinct (queue_names st) \<and> (\<forall>i\<in>set (queue_names st). i < sp_next_result st) \<and>
     (\<forall>e\<in>set (sp_results st). waits_properly st e)"

lemma queries_ok_cong:
  assumes "queries_ok st" and "sp_results st' = sp_results st" "sp_ready st' = sp_ready st"
    "sp_next_result st' = sp_next_result st" "sp_pending_queries st' = sp_pending_queries st"
  shows "queries_ok st'"
  using assms by (simp add: queries_ok_def queue_names_def waits_properly_def)

lemma queries_ok_quieter: "queries_ok st \<Longrightarrow> quieter st st' \<Longrightarrow> queries_ok st'"
  by (rule queries_ok_cong) (simp_all add: quieter_keeps)

lemma queries_ok_queue:
  assumes "queries_ok st" and "waits_properly st (sp_next_result st, r)"
  shows "queries_ok (queue_presence_result r st)"
  using assms by (auto simp: queries_ok_def queue_names_def queue_presence_result_def waits_properly_def less_Suc_eq)

lemma done_waits_properly: "waits_properly st (i, done_result now type info d)"
  by (simp add: waits_properly_def done_result_def new_result_def create_callback_def)

lemma queries_ok_done: "queries_ok st \<Longrightarrow> queries_ok (queue_presence_result (done_result now type info d) st)"
  by (rule queries_ok_queue [OF _ done_waits_properly])

text \<open>A new question has a name nobody has.\<close>

lemma queries_ok_ask:
  assumes "queries_ok st"
  shows "queries_ok (ask_for_presence lost now local target client_data d st)"
proof -
  let ?st = "st\<lparr>sp_pending_queries := om_put (sp_next_result st)
      \<lparr>pdq_local_id = local, pdq_target_id = target, pdq_deadline = now + query_timeout\<rparr> (sp_pending_queries st)\<rparr>"
  have "queries_ok ?st"
  proof -
    have "waits_properly ?st e" if "e \<in> set (sp_results st)" for e
    proof -
      have "fst e < sp_next_result st" "waits_properly st e"
        using assms imageI [OF that, of fst] that by (auto simp: queries_ok_def queue_names_def)
      then show ?thesis by (auto simp: waits_properly_def)
    qed
    then show ?thesis using assms by (simp add: queries_ok_def queue_names_def)
  qed
  then have "queries_ok (queue_presence_result (new_result now cb_presence_query info d) ?st)" for info
    by (rule queries_ok_queue) (simp add: waits_properly_def new_result_def create_callback_def)
  then show ?thesis
    unfolding ask_for_presence_def Let_def by (rule queries_ok_quieter [OF _ quieter_send_all])
qed

lemma queries_ok_settle:
  assumes "queries_ok st" shows "queries_ok (settle_queries epic st)"
proof -
  have name: "fst \<circ> settle w = fst" for w by (simp add: settle_def fun_eq_iff)
  then have "queue_names (settle_queries epic st) = queue_names st"
    by (simp add: queue_names_def settle_queries_def Let_def)
  moreover have "waits_properly (settle_queries epic st) (settle w e)" if "waits_properly st e" for w e
    using that by (simp add: waits_properly_def settle_def settle_queries_def Let_def)
  moreover have "sp_next_result (settle_queries epic st) = sp_next_result st"
    "\<exists>w. sp_results (settle_queries epic st) = map (settle w) (sp_results st)"
    by (auto simp: settle_queries_def Let_def)
  ultimately show ?thesis using assms unfolding queries_ok_def by fastforce
qed

lemma queries_ok_told:
  assumes "queries_ok st" shows "queries_ok (on_presence_info source p st)"
proof -
  have "queries_ok (st\<lparr>sp_epic_owner := o', sp_presences := ps\<rparr>)"
    "queries_ok (fire_presence_changed e (st\<lparr>sp_epic_owner := o', sp_presences := ps\<rparr>))" for o' ps e
    by (rule queries_ok_cong [OF assms]; simp add: fire_presence_changed_def split: prod.split)+
  then show ?thesis
    using assms by (auto simp: on_presence_info_def Let_def intro!: queries_ok_settle)
qed

lemma presence_turn_name [simp]: "fst (snd (presence_turn now e st)) = fst e"
  by (simp add: presence_turn_def split: prod.split)

lemma presence_turn_kept: "\<not> fst (presence_turn now e st) \<Longrightarrow> snd (presence_turn now e st) = e"
  by (auto simp: presence_turn_def presence_run_callbacks_def split: option.splits if_splits prod.splits)

lemma collect_results:
  "sp_results (presence_collect now st) = filter (\<lambda>e. \<not> fst (presence_turn now e st)) (sp_results st)"
proof -
  have "map snd (filter (\<lambda>t. \<not> fst t) (map (\<lambda>e. presence_turn now e st) es)) =
      filter (\<lambda>e. \<not> fst (presence_turn now e st)) es" for es
    by (induction es) (simp_all add: presence_turn_kept)
  then show ?thesis by (simp add: presence_collect_def Let_def)
qed

lemma collect_names: "mset (queue_names (presence_collect now st)) = mset (queue_names st)"
proof -
  have "map fst (map snd (filter fst (map (\<lambda>e. presence_turn now e st) es))) =
      map fst (filter (\<lambda>e. fst (presence_turn now e st)) es)" for es
    by (induction es) simp_all
  then have ready: "map fst (sp_ready (presence_collect now st)) =
      map fst (sp_ready st) @ map fst (filter (\<lambda>e. fst (presence_turn now e st)) (sp_results st))"
    by (simp add: presence_collect_def Let_def)
  have "mset (map fst (filter P es)) + mset (map fst (filter (\<lambda>e. \<not> P e) es)) = mset (map fst es)"
    for P and es :: "(nat \<times> presence_callback frame_result) list"
    by (induction es) simp_all
  from this [of "\<lambda>e. fst (presence_turn now e st)" "sp_results st"] show ?thesis
    by (simp add: queue_names_def ready collect_results ac_simps del: mset_map mset_filter)
qed

lemma queries_ok_collect:
  assumes "queries_ok st" shows "queries_ok (presence_collect now st)"
proof -
  note names = mset_eq_setD [OF collect_names] mset_eq_imp_distinct_iff [OF collect_names]
  have "sp_next_result (presence_collect now st) = sp_next_result st"
    "sp_pending_queries (presence_collect now st) = sp_pending_queries st"
    by (simp_all add: presence_collect_def Let_def)
  then show ?thesis using assms by (auto simp: queries_ok_def names collect_results waits_properly_def)
qed

text \<open>Firing frees the name of what has left the queue.\<close>

lemma queries_ok_fire:
  assumes "queries_ok st" shows "queries_ok (snd (presence_fire st))"
proof (cases "sp_ready st")
  case Nil
  then show ?thesis using assms by (simp add: presence_fire_def)
next
  case (Cons e ready)
  have other: "fst x \<noteq> fst e" if "x \<in> set (sp_results st)" for x
  proof
    assume "fst x = fst e"
    with imageI [OF that, of fst] have "fst e \<in> fst ` set (sp_results st)" by simp
    with assms Cons show False by (simp add: queries_ok_def queue_names_def)
  qed
  show ?thesis
    using assms Cons other
    by (auto simp: presence_fire_def presence_free_callback_def queries_ok_def queue_names_def waits_properly_def
        split: prod.split) force+
qed

lemma queries_ok_message:
  assumes "queries_ok st" shows "queries_ok (snd (presence_on_network_message lost m st))"
proof -
  have "queries_ok (on_peer_connected lost m st)"
  proof -
    have "queries_ok (st\<lparr>sp_peer_epic := e\<rparr>)" for e by (rule queries_ok_cong [OF assms]) simp_all
    then show ?thesis using assms by (simp add: on_peer_connected_def Let_def queries_ok_quieter [OF _ quieter_broadcast])
  qed
  then show ?thesis
    using presence_message_cases [of lost m st] assms queries_ok_told [OF assms]
      queries_ok_quieter [OF assms quieter_forget] queries_ok_quieter [OF assms quieter_broadcast]
    by (elim disjE exE conjE) simp_all
qed

lemma queries_ok_set:
  assumes "queries_ok st" shows "queries_ok (set_presence lost now options client_data delegate st)"
proof -
  have merge: "queries_ok (snd (merge_into_own lost x s))" if "queries_ok s" for x s
  proof -
    have "queries_ok (s\<lparr>sp_presences := ps\<rparr>)" for ps by (rule queries_ok_cong [OF that]) simp_all
    then show ?thesis using that by (simp add: merge_into_own_def queries_ok_quieter [OF _ quieter_broadcast] split: option.split)
  qed
  have "queries_ok (seed_myself st)" by (rule queries_ok_cong [OF assms]) simp_all
  with assms have "queries_ok (snd (apply_presence lost x st))" for x by (simp add: apply_presence_def merge)
  then have "queries_ok st1" if "apply_presence lost x st = (c, st1)" for x c st1 using that by (metis snd_conv)
  then show ?thesis
    using assms by (auto simp: set_presence_def intro!: queries_ok_done split: option.split versioned.split prod.split)
qed

lemma queries_ok_op:
  assumes "queries_ok st" shows "queries_ok (presence_do lost st op)"
proof (cases op)
  case pop_init
  then show ?thesis by (auto simp: presence_emu_init_def intro!: queries_ok_cong [OF assms])
next
  case pop_deinit
  then show ?thesis using assms by (auto simp: presence_emu_deinit_def queries_ok_def queue_names_def)
next
  case (pop_query now options cd delegate)
  then show ?thesis using assms
    by (auto simp: query_presence_def deliver_query_def intro!: queries_ok_done queries_ok_ask split: option.split versioned.split)
qed (use assms in \<open>auto simp: queries_ok_message queries_ok_set queries_ok_collect queries_ok_fire modification_sets
      stage_presence_keeps create_presence_modification_def presence_modification_release_def copy_presence_def
      release_presence_info_def add_presence_notice_def remove_presence_notice_def
      intro!: queries_ok_cong [OF assms] split: option.split versioned.split prod.split\<close>)

interpretation queries: transition_system "new_sdk_presence me puid game platform owner" "presence_do lost" queries_ok
  by unfold_locales (simp_all add: queries_ok_op, simp add: queries_ok_def queue_names_def new_sdk_presence_def)

text \<open>C40. No question waits for ever: after any tick, what is still in the queue was asked at most a second
  before it, whatever the game and the mesh did, answered or not.\<close>

theorem no_query_waits_longer:
  assumes "(i, r) \<in> set (sp_results (presence_collect now
      (run (presence_do lost) (new_sdk_presence me puid game platform owner) ops)))"
    and "fr_created_time r \<le> now"
  shows "now \<le> fr_created_time r + 1000"
proof -
  let ?st = "run (presence_do lost) (new_sdk_presence me puid game platform owner) ops"
  have stays: "\<not> fst (presence_turn now (i, r) ?st)" and queued: "(i, r) \<in> set (sp_results ?st)"
    using assms(1) by (auto simp: collect_results)
  have "waits_properly ?st (i, r)"
    using queries.inv_run [of lost me puid game platform owner ops] queued unfolding queries_ok_def by blast
  with stays assms(2) show ?thesis
    by (auto simp: waits_properly_def presence_turn_def callback_ok_timeout_def presence_run_callbacks_def
        query_timeout_def split: if_splits)
qed

section \<open>Witnesses\<close>

text \<open>Two players of one title, each told of the other by its router.\<close>

definition joins_with :: "string \<Rightarrow> string \<Rightarrow> net_envelope" where
  "joins_with peer epic =
     \<lparr>env_type_tag = tag_of peer_connected, env_source_id = peer, env_dest_id = [], env_game_id = [],
      env_timestamp = 0, env_payload = bytes_of_string epic\<rparr>"

abbreviation fresh_a :: sdk_presence where "fresh_a \<equiv> new_sdk_presence ''ea'' ''a'' ''g'' ''Linux'' 7"
abbreviation fresh_b :: sdk_presence where "fresh_b \<equiv> new_sdk_presence ''eb'' ''b'' ''g'' ''Linux'' 7"
abbreviation all_reached :: lost_in_send where "all_reached \<equiv> \<lambda>_. []"

definition presence_of_b :: presence_info where "presence_of_b = seeded_presence fresh_b"
definition presence_of_a :: presence_info where "presence_of_a = seeded_presence fresh_a"

definition b_tells_a :: net_envelope where
  "b_tells_a = presence_letter mt_presence_info (serialize_presence_info presence_of_b) ''a'' fresh_b"
definition a_tells_b :: net_envelope where
  "a_tells_b = presence_letter mt_presence_info (serialize_presence_info presence_of_a) ''b'' fresh_a"

definition ops_meet_b :: "presence_op list" where
  "ops_meet_b = [pop_init, pop_message (joins_with ''b'' ''eb''), pop_message b_tells_a]"
definition ops_of_asker :: "presence_op list" where
  "ops_of_asker = [pop_init, pop_query 5 (Some (versioned 1 (Some ''ea'', Some ''ec''))) 0 (Some 7)]"

lemma seeded_within [simp]: "presence_within_caps (seeded_presence st)"
  by (simp add: presence_within_caps_def seeded_presence_def pst_offline_def pst_online_def pst_do_not_disturb_def)

lemma seeded_reads: "length (sp_epic_id st) < 2 ^ 64 \<Longrightarrow> length (sp_product_id st) < 2 ^ 64 \<Longrightarrow> length (sp_platform st) < 2 ^ 64 \<Longrightarrow>
    fst (deserialize_presence_info (reader_of (serialize_presence_info (seeded_presence st)))) = Some (seeded_presence st)"
  using presence_info_codec.roundtrip [of "seeded_presence st"]
  by (simp add: presence_info_ok_def seeded_presence_def string_ok_def fits64_def)

lemmas meeting_simps = presence_on_network_message_def on_peer_connected_def broadcast_my_presence_def
  presence_send_all_def presence_send_def find_presence_def presence_emu_init_def seed_myself_def
  new_sdk_presence_def joins_with_def presence_letter_def Let_def om_find_Cons

lemma b_is_read: "fst (deserialize_presence_info (reader_of (serialize_presence_info presence_of_b))) = Some presence_of_b"
  unfolding presence_of_b_def by (rule seeded_reads) (simp_all add: new_sdk_presence_def)

lemma after_meeting_b:
  "find_presence ''eb'' (run (presence_do all_reached) fresh_a ops_meet_b) = Some presence_of_b"
proof -
  have id: "pi_epic_id presence_of_b = ''eb''" "presence_within_caps presence_of_b"
    by (simp_all add: presence_of_b_def) (simp add: seeded_presence_def new_sdk_presence_def)
  have "env_source_id b_tells_a = ''b''" "env_game_id b_tells_a = ''g''" "env_type_tag b_tells_a = tag_of mt_presence_info"
    "env_payload b_tells_a = serialize_presence_info presence_of_b"
    by (simp_all add: b_tells_a_def presence_letter_def new_sdk_presence_def)
  then have says: "snd (presence_on_network_message all_reached b_tells_a st) = on_presence_info ''b'' presence_of_b st"
    if "sp_product_user_id st = ''a''" "sp_product_id st = ''g''" for st
    using that b_is_read by (simp add: presence_on_network_message_def Let_def)
  let ?st = "snd (presence_on_network_message all_reached (joins_with ''b'' ''eb'') (presence_emu_init fresh_a))"
  have "sp_product_user_id ?st = ''a''" "sp_product_id ?st = ''g''" "sp_epic_id ?st = ''ea''"
    "om_find ''b'' (sp_peer_epic ?st) = Some ''eb''"
    by (simp_all add: meeting_simps)
  then show ?thesis by (simp add: ops_meet_b_def says on_presence_info_find id)
qed

theorem presence_is_its_players_word_witness:
  "\<exists>xs m ys. ops_meet_b = xs @ pop_message m # ys \<and> env_source_id m \<noteq> ''a'' \<and> says_presence m presence_of_b \<and>
    pi_epic_id presence_of_b = ''eb'' \<and> presence_within_caps presence_of_b \<and>
    proved_account xs (env_source_id m) ''eb'' \<and> \<not> has_left ys (env_source_id m)"
  by (rule presence_is_its_players_word [OF after_meeting_b]) simp

lemma a_greets_b:
  "sp_calls (run (presence_do all_reached) fresh_a [pop_init, pop_message (joins_with ''b'' ''eb'')]) =
     map mesh_listen presence_message_types @ [mesh_send a_tells_b]"
  by (simp add: a_tells_b_def presence_of_a_def seeded_presence_def meeting_simps)

theorem what_we_announce_is_believed_witness:
  "\<exists>p. says_presence a_tells_b p \<and> own_presence ''ea'' ''g'' ''Linux'' p \<and>
    find_presence ''ea'' (snd (presence_on_network_message all_reached a_tells_b
      (fresh_b\<lparr>sp_peer_epic := [(''a'', ''ea'')]\<rparr>))) = Some p"
proof -
  have "mesh_send a_tells_b \<in> set (sp_calls (run (presence_do all_reached) fresh_a
      [pop_init, pop_message (joins_with ''b'' ''eb'')]))" unfolding a_greets_b by simp
  from what_we_announce_is_believed [OF _ this, where lost' = all_reached and B = "fresh_b\<lparr>sp_peer_epic := [(''a'', ''ea'')]\<rparr>"]
  show ?thesis
    by (simp add: string_ok_def fits64_def a_tells_b_def presence_letter_def new_sdk_presence_def om_find_Cons)
qed

definition staged_a :: sdk_presence where
  "staged_a = (seed_myself fresh_a)\<lparr>sp_mesh := [''b''], sp_modifications := [(1,
     \<lparr>pm_set_status = False, pm_status = 0, pm_set_rich_text = False, pm_rich_text = [],
      pm_set_join_info = False, pm_join_info = [], pm_data_set = [], pm_data_deleted = []\<rparr>)]\<rparr>"

theorem odd_status_is_taken_and_refused_by_all_witness:
  "\<exists>sent. sp_calls (set_presence all_reached 0 (Some (versioned 1 (Some ''ea'', 1))) 0 (Some 7)
       (snd (modification_set_status 1 (Some (versioned 1 9)) staged_a))) = map mesh_send sent \<and>
     map env_dest_id sent = [''b''] \<and>
     list_all (\<lambda>m. env_type_tag m = tag_of mt_presence_info \<and>
       snd (presence_on_network_message all_reached m fresh_b) = fresh_b) sent"
proof -
  have a: "sp_epic_id staged_a = ''ea''" "sp_calls staged_a = []" "sp_mesh staged_a = [''b'']"
    by (simp_all add: staged_a_def new_sdk_presence_def)
  have "presence_info_ok (merged_presence \<lparr>pm_set_status = True, pm_status = 9, pm_set_rich_text = False, pm_rich_text = [],
      pm_set_join_info = False, pm_join_info = [], pm_data_set = [], pm_data_deleted = []\<rparr> presence_of_a)"
    by (simp add: presence_info_ok_def merged_presence_def merged_records_def delete_records_def presence_of_a_def
        seeded_presence_def new_sdk_presence_def string_ok_def fits64_def)
  then show ?thesis
    using odd_status_is_taken_and_refused_by_all [where A = staged_a and h = 1 and s = 9 and self = presence_of_a and now = 0
        and cd = 0 and d = 7 and lost = all_reached and lost' = all_reached and B = fresh_b, OF _ _ _ _ _ refl refl]
    by (simp add: a) (simp add: staged_a_def hs_find_def om_find_Cons find_presence_def seed_myself_def presence_of_a_def
        new_sdk_presence_def status_in_range_def pst_offline_def pst_do_not_disturb_def merged_records_def delete_records_def
        seeded_presence_def max_data_keys_def)
qed

lemma still_waiting:
  "\<exists>r. (1, r) \<in> set (sp_results (presence_collect 1000 (run (presence_do all_reached) fresh_a ops_of_asker))) \<and>
     fr_created_time r = 5"
  by (simp add: ops_of_asker_def query_presence_def version_ok_def query_presence_latest_def ask_for_presence_def
      queue_presence_result_def collect_results presence_turn_def presence_run_callbacks_def callback_ok_timeout_def
      query_timeout_def new_result_def create_callback_def blank_result_def meeting_simps)

theorem no_query_waits_longer_witness:
  "\<exists>r. (1, r) \<in> set (sp_results (presence_collect 1000 (run (presence_do all_reached) fresh_a ops_of_asker))) \<and>
     fr_created_time r = 5 \<and> 1000 \<le> fr_created_time r + 1000"
  using still_waiting no_query_waits_longer [of 1 _ 1000 all_reached "''ea''" "''a''" "''g''" "''Linux''" 7 ops_of_asker]
  by (auto simp del: run_Cons)

end
