(* ===== verification/Utf8.thy ===== *)
theory Utf8
  imports Prelude
begin

unbundle bit_operations_syntax

text \<open>
  UTF-8 as \<^verbatim>\<open>common/json_writer.cpp\<close>, \<^verbatim>\<open>core/config.cpp\<close> and \<^verbatim>\<open>core/config_file.cpp\<close> decode it, each in
  a loop of its own with the same steps: the length of the scalar at the start of a text, and whether a
  text consists of scalars.  Texts are byte lists here.
\<close>

section \<open>One scalar\<close>

definition utf8_lead :: "u8 \<Rightarrow> (nat \<times> u32) option" where
  "utf8_lead lead =
     (if drop_bit 5 lead = 0x6 then Some (2, ucast (lead AND 0x1F))
      else if drop_bit 4 lead = 0xE then Some (3, ucast (lead AND 0x0F))
      else if drop_bit 3 lead = 0x1E then Some (4, ucast (lead AND 0x07))
      else None)"

fun utf8_continue :: "nat \<Rightarrow> u32 \<Rightarrow> bytes \<Rightarrow> u32 option" where
  "utf8_continue 0 codepoint s = Some codepoint"
| "utf8_continue (Suc k) codepoint [] = None"
| "utf8_continue (Suc k) codepoint (cont # s) =
     (if drop_bit 6 cont \<noteq> 0x2 then None
      else utf8_continue k (push_bit 6 codepoint OR ucast (cont AND 0x3F)) s)"

definition is_scalar :: "nat \<Rightarrow> u32 \<Rightarrow> bool" where
  "is_scalar n codepoint \<longleftrightarrow>
     \<not> ((n = 2 \<and> codepoint < 0x80) \<or> (n = 3 \<and> codepoint < 0x800) \<or> (n = 4 \<and> codepoint < 0x10000) \<or>
        codepoint > 0x10FFFF \<or> (codepoint \<ge> 0xD800 \<and> codepoint \<le> 0xDFFF))"

text \<open>The length of the scalar a text starts with.\<close>

definition decode_utf8 :: "bytes \<Rightarrow> nat option" where
  "decode_utf8 s =
     (case s of
        [] \<Rightarrow> None
      | lead # rest \<Rightarrow>
          if lead < 0x80 then Some 1
          else
            (case utf8_lead lead of
               None \<Rightarrow> None
             | Some (n, bits) \<Rightarrow>
                 if length s < n then None
                 else
                   (case utf8_continue (n - 1) bits rest of
                      None \<Rightarrow> None
                    | Some codepoint \<Rightarrow> if is_scalar n codepoint then Some n else None)))"

lemma utf8_lead_length: "utf8_lead lead = Some (n, bits) \<Longrightarrow> 2 \<le> n \<and> n \<le> 4"
  by (auto simp: utf8_lead_def split: if_splits)

lemma decode_utf8_cases:
  assumes "decode_utf8 s = Some n"
  obtains (ascii) c rest where "s = c # rest" "c < 0x80" "n = 1"
  | (wide) lead rest bits cp where "s = lead # rest" "\<not> lead < 0x80" "utf8_lead lead = Some (n, bits)"
      "n \<le> length s" "utf8_continue (n - 1) bits rest = Some cp" "is_scalar n cp"
proof (cases s)
  case Nil
  with assms show ?thesis by (simp add: decode_utf8_def)
next
  case (Cons lead rest)
  show ?thesis
  proof (cases "lead < 0x80")
    case True
    with Cons assms show ?thesis by (intro ascii) (auto simp: decode_utf8_def)
  next
    case False
    obtain m bits where lead: "utf8_lead lead = Some (m, bits)"
      using assms Cons False by (auto simp: decode_utf8_def split: option.splits)
    with assms Cons False obtain cp where "m = n" "n \<le> length s" "utf8_continue (n - 1) bits rest = Some cp" "is_scalar n cp"
      by (auto simp: decode_utf8_def not_less split: if_splits option.splits)
    with Cons False lead show ?thesis by (intro wide) auto
  qed
qed

lemma decode_utf8_length:
  assumes "decode_utf8 s = Some n"
  shows "1 \<le> n" "n \<le> 4" "n \<le> length s"
proof -
  from assms have "1 \<le> n \<and> n \<le> 4 \<and> n \<le> length s"
  proof (cases rule: decode_utf8_cases)
    case (wide lead rest bits cp)
    then show ?thesis using utf8_lead_length [OF wide(3)] by linarith
  qed simp
  then show "1 \<le> n" "n \<le> 4" "n \<le> length s" by simp_all
qed

lemma utf8_continue_prefix:
  "k \<le> length s \<Longrightarrow> utf8_continue k codepoint (take k s @ t) = utf8_continue k codepoint s"
  by (induction k codepoint s rule: utf8_continue.induct) simp_all

lemma utf8_continue_bytes: "utf8_continue k cp s = Some cp' \<Longrightarrow> list_all (\<lambda>c. drop_bit 6 c = 2) (take k s)"
  by (induction k cp s rule: utf8_continue.induct) (auto split: if_splits)

text \<open>Only the bytes of the scalar itself matter.\<close>

lemma decode_utf8_prefix:
  assumes "decode_utf8 s = Some n" shows "decode_utf8 (take n s @ t) = Some n"
  using assms
proof (cases rule: decode_utf8_cases)
  case (ascii c rest)
  then show ?thesis by (simp add: decode_utf8_def)
next
  case (wide lead rest bits cp)
  from utf8_lead_length [OF wide(3)] obtain k where n: "n = Suc k" by (cases n) auto
  have "utf8_continue k bits (take k rest @ t) = utf8_continue k bits rest"
    by (rule utf8_continue_prefix) (use wide n in simp)
  with wide n show ?thesis by (simp add: decode_utf8_def)
qed

lemma decode_utf8_ascii: "c < 0x80 \<Longrightarrow> decode_utf8 (c # s) = Some 1"
  by (simp add: decode_utf8_def)

section \<open>Texts\<close>

function utf8_valid :: "bytes \<Rightarrow> bool" where
  "utf8_valid s =
     (if s = [] then True
      else (case decode_utf8 s of None \<Rightarrow> False | Some n \<Rightarrow> utf8_valid (drop n s)))"
  by auto
termination
  by (relation "measure length") (auto dest: decode_utf8_length)

declare utf8_valid.simps [simp del]

lemma utf8_valid_Nil [simp]: "utf8_valid []"
  by (simp add: utf8_valid.simps)

lemma utf8_valid_step: "decode_utf8 s = Some n \<Longrightarrow> utf8_valid s = utf8_valid (drop n s)"
  by (subst utf8_valid.simps) (auto dest: decode_utf8_length)

text \<open>The same text with U+FFFD in place of each byte that starts no scalar.\<close>

definition replacement :: bytes where "replacement = [0xEF, 0xBF, 0xBD]"

function cleaned :: "bytes \<Rightarrow> bytes" where
  "cleaned s =
     (if s = [] then []
      else (case decode_utf8 s of
              Some n \<Rightarrow> take n s @ cleaned (drop n s)
            | None \<Rightarrow> replacement @ cleaned (tl s)))"
  by auto
termination
  by (relation "measure length") (auto dest: decode_utf8_length)

declare cleaned.simps [simp del]

lemma cleaned_Nil [simp]: "cleaned [] = []"
  by (simp add: cleaned.simps)

lemma decode_replacement: "decode_utf8 (replacement @ t) = Some 3"
proof -
  have "utf8_lead 0xEF = Some (3, 0xF)" "drop_bit 6 (0xBF :: u8) = 2" "drop_bit 6 (0xBD :: u8) = 2"
    "push_bit 6 (push_bit 6 0xF OR ucast (0xBF AND 0x3F :: u8)) OR ucast (0xBD AND 0x3F :: u8) = (0xFFFD :: u32)"
    "is_scalar 3 0xFFFD" "\<not> (0xEF :: u8) < 0x80"
    by code_simp+
  then show ?thesis by (simp add: replacement_def decode_utf8_def eval_nat_numeral)
qed

lemma utf8_valid_append: "utf8_valid s \<Longrightarrow> utf8_valid t \<Longrightarrow> utf8_valid (s @ t)"
proof (induction s rule: utf8_valid.induct)
  case (1 s)
  show ?case
  proof (cases "s = []")
    case False
    with "1.prems" obtain n where n: "decode_utf8 s = Some n" "utf8_valid (drop n s)"
      by (subst (asm) utf8_valid.simps) (auto split: option.splits)
    have "decode_utf8 (s @ t) = Some n" using decode_utf8_prefix [OF n(1), of "drop n s @ t"] by (simp flip: append_assoc)
    from utf8_valid_step [OF this] "1.IH" [OF False n] "1.prems" decode_utf8_length [OF n(1)]
    show ?thesis by simp
  qed (use "1.prems" in simp)
qed

theorem cleaned_valid: "utf8_valid (cleaned s)"
proof (induction s rule: cleaned.induct)
  case (1 s)
  show ?case
  proof (cases "decode_utf8 s")
    case None
    then have "utf8_valid (replacement @ cleaned (tl s))" if "s \<noteq> []"
      using 1 that utf8_valid_step [OF decode_replacement] by (simp add: replacement_def)
    with None show ?thesis by (subst cleaned.simps) simp
  next
    case (Some n)
    have "utf8_valid (take n s @ cleaned (drop n s))" if "s \<noteq> []"
      using 1(2) [OF that Some] utf8_valid_step [OF decode_utf8_prefix [OF Some]] decode_utf8_length [OF Some] by simp
    with Some show ?thesis by (subst cleaned.simps) simp
  qed
qed

lemma cleaned_id: "utf8_valid s \<Longrightarrow> cleaned s = s"
proof (induction s rule: cleaned.induct)
  case (1 s)
  show ?case
  proof (cases "s = []")
    case False
    with "1.prems" obtain n where n: "decode_utf8 s = Some n" "utf8_valid (drop n s)"
      by (subst (asm) utf8_valid.simps) (auto split: option.splits)
    with "1.IH"(2) [OF False n(1)] False show ?thesis by (subst cleaned.simps) simp
  qed simp
qed

end
