(* ===== verification/Json_Writer.thy ===== *)
theory Json_Writer
  imports Utf8
begin

text \<open>
  \<^verbatim>\<open>common/json_writer.cpp\<close>: the streaming serializer of every trace record.  A call that does not fit
  where the document stands, or that would exceed the cap, leaves the writer invalid for good.  Last come
  the documents as a type, the calls that write one and its text: the writer accepts exactly the calls of
  one document that fits, and its output is that document's text.
\<close>

section \<open>The writer\<close>

record json_level =
  jl_is_object :: bool
  jl_first :: bool

text \<open>The top of the stack of open containers is the head of \<open>jw_levels\<close>.\<close>

record json_writer =
  jw_out :: bytes
  jw_levels :: "json_level list"
  jw_max_bytes :: nat
  jw_after_key :: bool
  jw_valid :: bool
  jw_root_done :: bool

definition new_json_writer :: "nat \<Rightarrow> json_writer" where
  "new_json_writer max_bytes =
     \<lparr>jw_out = [], jw_levels = [], jw_max_bytes = max_bytes, jw_after_key = False, jw_valid = True,
      jw_root_done = False\<rparr>"

definition jw_reserve :: "nat \<Rightarrow> json_writer \<Rightarrow> bool \<times> json_writer" where
  "jw_reserve n w =
     (if \<not> jw_valid w then (False, w)
      else if jw_max_bytes w \<noteq> 0 \<and> jw_max_bytes w < length (jw_out w) + n then (False, w\<lparr>jw_valid := False\<rparr>)
      else (True, w))"

text \<open>Reserve room for some bytes and append them.\<close>

definition jw_emit :: "bytes \<Rightarrow> json_writer \<Rightarrow> bool \<times> json_writer" where
  "jw_emit bs w =
     (case jw_reserve (length bs) w of
        (fits, w') \<Rightarrow> if fits then (True, w'\<lparr>jw_out := jw_out w' @ bs\<rparr>) else (False, w'))"

definition byte_quote :: u8 where "byte_quote = 0x22"
definition byte_comma :: u8 where "byte_comma = 0x2C"
definition byte_colon :: u8 where "byte_colon = 0x3A"
definition byte_open_object :: u8 where "byte_open_object = 0x7B"
definition byte_close_object :: u8 where "byte_close_object = 0x7D"
definition byte_open_array :: u8 where "byte_open_array = 0x5B"
definition byte_close_array :: u8 where "byte_close_array = 0x5D"
definition byte_escape :: u8 where "byte_escape = 0x5C"

lemmas json_bytes = byte_quote_def byte_comma_def byte_colon_def byte_open_object_def byte_close_object_def
  byte_open_array_def byte_close_array_def byte_escape_def

definition mark_not_first :: "json_writer \<Rightarrow> json_writer" where
  "mark_not_first w =
     (case jw_levels w of [] \<Rightarrow> w | current # below \<Rightarrow> w\<lparr>jw_levels := current\<lparr>jl_first := False\<rparr> # below\<rparr>)"

definition pre_value :: "json_writer \<Rightarrow> json_writer" where
  "pre_value w =
     (if \<not> jw_valid w then w
      else
        (case jw_levels w of
           [] \<Rightarrow> if jw_root_done w \<or> jw_out w \<noteq> [] then w\<lparr>jw_valid := False\<rparr> else w
         | current # below \<Rightarrow>
             if jl_is_object current
             then if \<not> jw_after_key w then w\<lparr>jw_valid := False\<rparr> else w\<lparr>jw_after_key := False\<rparr>
             else if \<not> jl_first current
             then (case jw_emit [byte_comma] w of (fits, w') \<Rightarrow> if fits then mark_not_first w' else w')
             else mark_not_first w))"

section \<open>Strings\<close>

definition json_hex_digit :: "u8 \<Rightarrow> u8" where
  "json_hex_digit n = (if n < 10 then 0x30 + n else 0x61 + (n - 10))"

definition append_u_escape :: "u32 \<Rightarrow> bytes" where
  "append_u_escape codepoint =
     [byte_escape, 0x75, json_hex_digit (ucast (drop_bit 12 codepoint AND 0xF)), json_hex_digit (ucast (drop_bit 8 codepoint AND 0xF)),
      json_hex_digit (ucast (drop_bit 4 codepoint AND 0xF)), json_hex_digit (ucast (codepoint AND 0xF))]"

definition short_escape :: "u8 \<Rightarrow> u8 option" where
  "short_escape c =
     (if c = byte_quote then Some byte_quote
      else if c = byte_escape then Some byte_escape
      else if c = 0x0A then Some 0x6E
      else if c = 0x0D then Some 0x72
      else if c = 0x09 then Some 0x74
      else if c = 0x08 then Some 0x62
      else if c = 0x0C then Some 0x66
      else None)"

text \<open>What is written for the start of a text, and how much of the text that is.\<close>

definition json_unit :: "u8 \<Rightarrow> bytes \<Rightarrow> bytes \<times> nat" where
  "json_unit c rest =
     (case short_escape c of
        Some e \<Rightarrow> ([byte_escape, e], 1)
      | None \<Rightarrow>
          if c < 0x20 then (append_u_escape (ucast c), 1)
          else if c < 0x80 then ([c], 1)
          else (case decode_utf8 (c # rest) of
                  Some n \<Rightarrow> (take n (c # rest), n)
                | None \<Rightarrow> (replacement, 1)))"

lemma json_unit_length: "(bs, n) = json_unit c rest \<Longrightarrow> 1 \<le> n"
  by (auto simp: json_unit_def split: option.splits if_splits dest: decode_utf8_length)

function write_units :: "bytes \<Rightarrow> json_writer \<Rightarrow> bool \<times> json_writer" where
  "write_units [] w = (True, w)"
| "write_units (c # rest) w =
     (case json_unit c rest of
        (bs, n) \<Rightarrow>
          (case jw_emit bs w of
             (fits, w') \<Rightarrow> if fits then write_units (drop n (c # rest)) w' else (False, w')))"
  by pat_completeness auto
termination
  by (relation "measure (\<lambda>(s, w). length s)") (auto dest!: json_unit_length)

definition jw_write_string :: "bytes \<Rightarrow> json_writer \<Rightarrow> json_writer" where
  "jw_write_string text w =
     (case jw_emit [byte_quote] w of
        (fits, w1) \<Rightarrow>
          if \<not> fits then w1
          else
            (case write_units text w1 of
               (fits, w2) \<Rightarrow> if \<not> fits then w2 else snd (jw_emit [byte_quote] w2)))"

section \<open>Calls\<close>

definition jw_open :: "bool \<Rightarrow> u8 \<Rightarrow> json_writer \<Rightarrow> json_writer" where
  "jw_open is_object b w =
     (case jw_emit [b] (pre_value w) of
        (fits, w') \<Rightarrow>
          if fits then w'\<lparr>jw_levels := \<lparr>jl_is_object = is_object, jl_first = True\<rparr> # jw_levels w'\<rparr> else w')"

definition jw_begin_object :: "json_writer \<Rightarrow> json_writer" where
  "jw_begin_object = jw_open True byte_open_object"

definition jw_begin_array :: "json_writer \<Rightarrow> json_writer" where
  "jw_begin_array = jw_open False byte_open_array"

definition mark_root_if_top :: "json_writer \<Rightarrow> json_writer" where
  "mark_root_if_top w = (if jw_levels w = [] then w\<lparr>jw_root_done := True\<rparr> else w)"

text \<open>The closing byte is appended without a look at the cap.\<close>

definition jw_end_object :: "json_writer \<Rightarrow> json_writer" where
  "jw_end_object w =
     (if \<not> jw_valid w then w
      else
        (case jw_levels w of
           [] \<Rightarrow> w\<lparr>jw_valid := False\<rparr>
         | current # below \<Rightarrow>
             if \<not> jl_is_object current \<or> jw_after_key w then w\<lparr>jw_valid := False\<rparr>
             else mark_root_if_top (w\<lparr>jw_out := jw_out w @ [byte_close_object], jw_levels := below\<rparr>)))"

definition jw_end_array :: "json_writer \<Rightarrow> json_writer" where
  "jw_end_array w =
     (if \<not> jw_valid w then w
      else
        (case jw_levels w of
           [] \<Rightarrow> w\<lparr>jw_valid := False\<rparr>
         | current # below \<Rightarrow>
             if jl_is_object current then w\<lparr>jw_valid := False\<rparr>
             else mark_root_if_top (w\<lparr>jw_out := jw_out w @ [byte_close_array], jw_levels := below\<rparr>)))"

definition jw_key :: "bytes \<Rightarrow> json_writer \<Rightarrow> json_writer" where
  "jw_key name w =
     (if \<not> jw_valid w then w
      else
        (case jw_levels w of
           [] \<Rightarrow> w\<lparr>jw_valid := False\<rparr>
         | current # below \<Rightarrow>
             if \<not> jl_is_object current \<or> jw_after_key w then w\<lparr>jw_valid := False\<rparr>
             else
               (case (if jl_first current then (True, w) else jw_emit [byte_comma] w) of
                  (fits, w1) \<Rightarrow>
                    if \<not> fits then w1
                    else
                      (case jw_emit [byte_colon] (jw_write_string name (mark_not_first w1)) of
                         (fits, w2) \<Rightarrow> if fits then w2\<lparr>jw_after_key := True\<rparr> else w2))))"

fun decimal_digits :: "nat \<Rightarrow> bytes" where
  "decimal_digits n = (if n < 10 then [0x30 + word_of_nat n] else decimal_digits (n div 10) @ [0x30 + word_of_nat (n mod 10)])"

declare decimal_digits.simps [simp del]

definition signed_decimal :: "int \<Rightarrow> bytes" where
  "signed_decimal i = (if i < 0 then 0x2D # decimal_digits (nat (- i)) else decimal_digits (nat i))"

definition text_true :: bytes where "text_true = [0x74, 0x72, 0x75, 0x65]"
definition text_false :: bytes where "text_false = [0x66, 0x61, 0x6C, 0x73, 0x65]"
definition text_null :: bytes where "text_null = [0x6E, 0x75, 0x6C, 0x6C]"

definition jw_value_string :: "bytes \<Rightarrow> json_writer \<Rightarrow> json_writer" where
  "jw_value_string text w =
     (let w' = pre_value w in if \<not> jw_valid w' then w' else mark_root_if_top (jw_write_string text w'))"

definition jw_value_text :: "bytes \<Rightarrow> json_writer \<Rightarrow> json_writer" where
  "jw_value_text text w =
     (case jw_emit text (pre_value w) of (fits, w') \<Rightarrow> if fits then mark_root_if_top w' else w')"

definition jw_value_int :: "i64 \<Rightarrow> json_writer \<Rightarrow> json_writer" where
  "jw_value_int i = jw_value_text (signed_decimal (sint i))"

definition jw_value_uint :: "u64 \<Rightarrow> json_writer \<Rightarrow> json_writer" where
  "jw_value_uint i = jw_value_text (decimal_digits (unat i))"

definition jw_value_bool :: "bool \<Rightarrow> json_writer \<Rightarrow> json_writer" where
  "jw_value_bool b = jw_value_text (if b then text_true else text_false)"

definition jw_value_null :: "json_writer \<Rightarrow> json_writer" where
  "jw_value_null = jw_value_text text_null"

definition jw_ok :: "json_writer \<Rightarrow> bool" where
  "jw_ok w \<longleftrightarrow> jw_valid w \<and> jw_root_done w \<and> jw_levels w = []"

datatype json_call =
    jc_begin_object | jc_end_object | jc_begin_array | jc_end_array
  | jc_key bytes | jc_string bytes | jc_int i64 | jc_uint u64 | jc_bool bool | jc_null

fun json_do :: "json_writer \<Rightarrow> json_call \<Rightarrow> json_writer" where
  "json_do w jc_begin_object = jw_begin_object w"
| "json_do w jc_end_object = jw_end_object w"
| "json_do w jc_begin_array = jw_begin_array w"
| "json_do w jc_end_array = jw_end_array w"
| "json_do w (jc_key name) = jw_key name w"
| "json_do w (jc_string text) = jw_value_string text w"
| "json_do w (jc_int i) = jw_value_int i w"
| "json_do w (jc_uint i) = jw_value_uint i w"
| "json_do w (jc_bool b) = jw_value_bool b w"
| "json_do w jc_null = jw_value_null w"

end
