(* ===== verification/Json_Documents.thy ===== *)
theory Json_Documents
  imports Json_Writer
begin

text \<open>
  What the calls to the writer of \<^theory_text>\<open>Json_Writer\<close> come to: one step per call that says where the call fits
  and what it appends, the documents as a type, and that the writer accepts the calls of a document and
  nothing else.
\<close>

section \<open>One call, one step\<close>

text \<open>States are the same when both are invalid, or they are equal.\<close>

definition same_writer :: "json_writer \<Rightarrow> json_writer \<Rightarrow> bool" where
  "same_writer w w' \<longleftrightarrow> jw_valid w = jw_valid w' \<and> (jw_valid w \<longrightarrow> w = w')"

function json_text :: "bytes \<Rightarrow> bytes" where
  "json_text [] = []"
| "json_text (c # rest) = (case json_unit c rest of (bs, n) \<Rightarrow> bs @ json_text (drop n (c # rest)))"
  by pat_completeness auto
termination
  by (relation "measure length") (auto dest!: json_unit_length)

definition json_quoted :: "bytes \<Rightarrow> bytes" where
  "json_quoted text = [byte_quote] @ json_text text @ [byte_quote]"

definition jw_fits :: "json_writer \<Rightarrow> nat \<Rightarrow> bool" where
  "jw_fits w n \<longleftrightarrow> jw_valid w \<and> (jw_max_bytes w = 0 \<or> length (jw_out w) + n \<le> jw_max_bytes w)"

lemma jw_emit_eq: "jw_emit bs w = (if jw_fits w (length bs) then (True, w\<lparr>jw_out := jw_out w @ bs\<rparr>) else (False, w\<lparr>jw_valid := False\<rparr>))"
  by (auto simp: jw_emit_def jw_reserve_def jw_fits_def)

lemma jw_fits_valid: "jw_fits w n \<Longrightarrow> jw_valid w"
  by (simp add: jw_fits_def)

lemma write_units_eq:
  "jw_fits w 0 \<Longrightarrow>
   \<exists>w'. \<not> jw_valid w' \<and>
     write_units s w = (if jw_fits w (length (json_text s)) then (True, w\<lparr>jw_out := jw_out w @ json_text s\<rparr>) else (False, w'))"
proof (induction s w rule: write_units.induct)
  case (1 w)
  then show ?case by (auto intro: exI [of _ "w\<lparr>jw_valid := False\<rparr>"])
next
  case (2 c rest w)
  obtain bs n where u: "json_unit c rest = (bs, n)" by fastforce
  show ?case
  proof (cases "jw_fits w (length bs)")
    case True
    let ?w = "w\<lparr>jw_out := jw_out w @ bs\<rparr>"
    have e: "jw_emit bs w = (True, ?w)" using True by (simp add: jw_emit_eq)
    have "jw_fits ?w 0" using True by (simp add: jw_fits_def)
    from "2.IH" [OF u [symmetric] e [symmetric] TrueI this]
    obtain w' where w': "\<not> jw_valid w'"
      "write_units (drop n (c # rest)) ?w = (if jw_fits ?w (length (json_text (drop n (c # rest))))
         then (True, ?w\<lparr>jw_out := jw_out ?w @ json_text (drop n (c # rest))\<rparr>) else (False, w'))" by blast
    have "jw_fits ?w (length (json_text (drop n (c # rest)))) = jw_fits w (length (json_text (c # rest)))"
      using u by (simp add: jw_fits_def add.assoc)
    with w' u e show ?thesis by (intro exI [of _ w']) simp
  next
    case False
    then have "\<not> jw_fits w (length (json_text (c # rest)))" using u by (auto simp: jw_fits_def)
    with False u show ?thesis by (intro exI [of _ "w\<lparr>jw_valid := False\<rparr>"]) (simp add: jw_emit_eq)
  qed
qed

lemma jw_write_string_eq:
  "\<exists>w'. \<not> jw_valid w' \<and>
     jw_write_string s w = (if jw_fits w (length (json_quoted s)) then w\<lparr>jw_out := jw_out w @ json_quoted s\<rparr> else w')"
proof (cases "jw_fits w 1")
  case True
  let ?w = "w\<lparr>jw_out := jw_out w @ [byte_quote]\<rparr>"
  have e: "jw_emit [byte_quote] w = (True, ?w)" using True by (simp add: jw_emit_eq)
  have "jw_fits ?w 0" using True by (simp add: jw_fits_def)
  from write_units_eq [OF this, of s]
  obtain w' where w': "\<not> jw_valid w'" "write_units s ?w = (if jw_fits ?w (length (json_text s))
      then (True, ?w\<lparr>jw_out := jw_out ?w @ json_text s\<rparr>) else (False, w'))" by blast
  show ?thesis
  proof (cases "jw_fits ?w (length (json_text s))")
    case False
    then have "\<not> jw_fits w (length (json_quoted s))" by (auto simp: jw_fits_def json_quoted_def)
    with w' e False show ?thesis by (intro exI [of _ w']) (simp add: jw_write_string_def)
  next
    case fits: True
    let ?w2 = "?w\<lparr>jw_out := jw_out ?w @ json_text s\<rparr>"
    have "jw_fits ?w2 1 = jw_fits w (length (json_quoted s))" by (auto simp: jw_fits_def json_quoted_def)
    with w' e fits show ?thesis
      by (intro exI [of _ "?w2\<lparr>jw_valid := False\<rparr>"]) (simp add: jw_write_string_def jw_emit_eq json_quoted_def)
  qed
next
  case False
  then have "\<not> jw_fits w (length (json_quoted s))" by (auto simp: jw_fits_def json_quoted_def)
  with False show ?thesis
    by (intro exI [of _ "w\<lparr>jw_valid := False\<rparr>"]) (simp add: jw_write_string_def jw_emit_eq)
qed

text \<open>
  Where a value may stand, and the separator it needs; then what each call appends and the control state
  it leaves: the open containers and whether a key waits for its value.
\<close>

definition value_place :: "json_writer \<Rightarrow> bytes option" where
  "value_place w =
     (case jw_levels w of
        [] \<Rightarrow> if jw_root_done w \<or> jw_out w \<noteq> [] then None else Some []
      | current # _ \<Rightarrow>
          if jl_is_object current then (if jw_after_key w then Some [] else None)
          else Some (if jl_first current then [] else [byte_comma]))"

definition value_levels :: "json_writer \<Rightarrow> json_level list" where
  "value_levels w =
     (case jw_levels w of
        [] \<Rightarrow> []
      | current # below \<Rightarrow> (if jl_is_object current then current else current\<lparr>jl_first := False\<rparr>) # below)"

fun scalar_text :: "json_call \<Rightarrow> bytes option" where
  "scalar_text (jc_string s) = Some (json_quoted s)"
| "scalar_text (jc_int i) = Some (signed_decimal (sint i))"
| "scalar_text (jc_uint i) = Some (decimal_digits (unat i))"
| "scalar_text (jc_bool b) = Some (if b then text_true else text_false)"
| "scalar_text jc_null = Some text_null"
| "scalar_text _ = None"

fun opens :: "json_call \<Rightarrow> (bool \<times> u8) option" where
  "opens jc_begin_object = Some (True, byte_open_object)"
| "opens jc_begin_array = Some (False, byte_open_array)"
| "opens _ = None"

definition step_value :: "bytes \<Rightarrow> json_level list \<Rightarrow> json_writer \<Rightarrow> json_writer option" where
  "step_value text inside w =
     (case value_place w of
        None \<Rightarrow> None
      | Some sep \<Rightarrow>
          if \<not> jw_fits w (length (sep @ text)) then None
          else Some (w\<lparr>jw_out := jw_out w @ sep @ text, jw_levels := inside @ value_levels w, jw_after_key := False,
                 jw_root_done := (jw_root_done w \<or> inside @ jw_levels w = [])\<rparr>))"

definition step_close :: "bool \<Rightarrow> u8 \<Rightarrow> json_writer \<Rightarrow> json_writer option" where
  "step_close is_object b w =
     (case jw_levels w of
        [] \<Rightarrow> None
      | current # below \<Rightarrow>
          if jl_is_object current \<noteq> is_object \<or> jw_after_key w then None
          else Some (w\<lparr>jw_out := jw_out w @ [b], jw_levels := below, jw_root_done := (jw_root_done w \<or> below = [])\<rparr>))"

definition step_key :: "bytes \<Rightarrow> json_writer \<Rightarrow> json_writer option" where
  "step_key name w =
     (case jw_levels w of
        [] \<Rightarrow> None
      | current # below \<Rightarrow>
          let text = (if jl_first current then [] else [byte_comma]) @ json_quoted name @ [byte_colon]
          in if \<not> jl_is_object current \<or> jw_after_key w \<or> \<not> jw_fits w (length text) then None
             else Some (w\<lparr>jw_out := jw_out w @ text, jw_levels := current\<lparr>jl_first := False\<rparr> # below,
                          jw_after_key := True\<rparr>))"

fun json_step :: "json_writer \<Rightarrow> json_call \<Rightarrow> json_writer option" where
  "json_step w jc_begin_object = step_value [byte_open_object] [\<lparr>jl_is_object = True, jl_first = True\<rparr>] w"
| "json_step w jc_begin_array = step_value [byte_open_array] [\<lparr>jl_is_object = False, jl_first = True\<rparr>] w"
| "json_step w jc_end_object = step_close True byte_close_object w"
| "json_step w jc_end_array = step_close False byte_close_array w"
| "json_step w (jc_key name) = step_key name w"
| "json_step w (jc_string s) = step_value (json_quoted s) [] w"
| "json_step w (jc_int i) = step_value (signed_decimal (sint i)) [] w"
| "json_step w (jc_uint i) = step_value (decimal_digits (unat i)) [] w"
| "json_step w (jc_bool b) = step_value (if b then text_true else text_false) [] w"
| "json_step w jc_null = step_value text_null [] w"

text \<open>No key waits inside an array: what makes a close agree with its step.\<close>

definition key_in_object :: "json_writer \<Rightarrow> bool" where
  "key_in_object w \<longleftrightarrow> (jw_after_key w \<longrightarrow> (\<exists>current below. jw_levels w = current # below \<and> jl_is_object current))"


lemma pre_value_eq:
  assumes "jw_valid w" "key_in_object w"
  shows "value_place w = None \<Longrightarrow> \<not> jw_valid (pre_value w)"
    and "value_place w = Some sep \<Longrightarrow>
           (if sep = [] \<or> jw_fits w (length sep)
            then pre_value w = w\<lparr>jw_out := jw_out w @ sep, jw_levels := value_levels w, jw_after_key := False\<rparr>
            else \<not> jw_valid (pre_value w))"
proof -
  have no_key: "jw_after_key w = False" if "\<not> (\<exists>current below. jw_levels w = current # below \<and> jl_is_object current)"
    using assms(2) that by (auto simp: key_in_object_def)
  have same: "w\<lparr>jw_out := jw_out w, jw_levels := jw_levels w, jw_after_key := jw_after_key w\<rparr> = w" by simp
  show "value_place w = None \<Longrightarrow> \<not> jw_valid (pre_value w)"
    using assms(1) by (cases "jw_levels w") (simp_all add: pre_value_def value_place_def split: if_split_asm)
  show "value_place w = Some sep \<Longrightarrow>
           (if sep = [] \<or> jw_fits w (length sep)
            then pre_value w = w\<lparr>jw_out := jw_out w @ sep, jw_levels := value_levels w, jw_after_key := False\<rparr>
            else \<not> jw_valid (pre_value w))"
  proof (cases "jw_levels w")
    case Nil
    have k: "jw_after_key w = False" by (rule no_key) (simp add: Nil)
    assume "value_place w = Some sep"
    then have "sep = []" "pre_value w = w"
      using Nil assms(1) by (simp_all add: pre_value_def value_place_def split: if_split_asm)
    with same show ?thesis by (simp add: value_levels_def Nil k)
  next
    case (Cons current below)
    assume place: "value_place w = Some sep"
    show ?thesis
    proof (cases "jl_is_object current")
      case True
      with place Cons have "sep = []" "jw_after_key w" by (simp_all add: value_place_def split: if_split_asm)
      moreover have "w\<lparr>jw_out := jw_out w, jw_levels := current # below, jw_after_key := False\<rparr> = w\<lparr>jw_after_key := False\<rparr>"
        using Cons by (cases w) simp
      ultimately show ?thesis using True Cons assms(1) by (simp add: pre_value_def value_levels_def)
    next
      case False
      have k: "jw_after_key w = False" by (rule no_key) (simp add: Cons False)
      have keep: "w\<lparr>jw_out := out, jw_levels := levels, jw_after_key := False\<rparr> = w\<lparr>jw_out := out, jw_levels := levels\<rparr>" for out levels
        using k by (cases w) simp
      have keep_out: "w\<lparr>jw_levels := levels, jw_after_key := False\<rparr> = w\<lparr>jw_levels := levels\<rparr>" for levels
        using k by (cases w) simp
      show ?thesis
      proof (cases "jl_first current")
        case True
        with place False Cons have "sep = []" by (simp add: value_place_def)
        with True False Cons assms(1) show ?thesis by (simp add: pre_value_def value_levels_def mark_not_first_def keep_out)
      next
        case other: False
        with place False Cons have "sep = [byte_comma]" by (simp add: value_place_def)
        with other False Cons assms(1) show ?thesis
          by (simp add: pre_value_def value_levels_def mark_not_first_def jw_emit_eq keep)
      qed
    qed
  qed
qed

lemma emit_after_pre_value:
  assumes "jw_valid w" "key_in_object w"
  shows "value_place w = None \<Longrightarrow> \<exists>w'. \<not> jw_valid w' \<and> jw_emit text (pre_value w) = (False, w')"
    and "value_place w = Some sep \<Longrightarrow> \<not> jw_fits w (length (sep @ text)) \<Longrightarrow>
           \<exists>w'. \<not> jw_valid w' \<and> jw_emit text (pre_value w) = (False, w')"
    and "value_place w = Some sep \<Longrightarrow> jw_fits w (length (sep @ text)) \<Longrightarrow>
           jw_emit text (pre_value w) =
             (True, w\<lparr>jw_out := jw_out w @ sep @ text, jw_levels := value_levels w, jw_after_key := False\<rparr>)"
  using pre_value_eq [OF assms] by (auto simp: jw_emit_eq jw_fits_def split: if_splits)

lemma value_levels_Nil: "value_levels w = [] \<longleftrightarrow> jw_levels w = []"
  by (simp add: value_levels_def split: list.splits)

text \<open>What one call comes to.\<close>

definition call_meets :: "json_writer option \<Rightarrow> json_writer \<Rightarrow> bool" where
  "call_meets spec w' \<longleftrightarrow>
     (case spec of None \<Rightarrow> \<not> jw_valid w' | Some w'' \<Rightarrow> w' = w'' \<and> jw_valid w'' \<and> key_in_object w'')"

lemma call_meets_None: "\<not> jw_valid w' \<Longrightarrow> call_meets None w'"
  by (simp add: call_meets_def)

lemma call_meets_value_text:
  assumes "jw_valid w" "key_in_object w"
  shows "call_meets (step_value text [] w) (jw_value_text text w)"
proof (cases "value_place w")
  case None
  with emit_after_pre_value(1) [OF assms None, of "text"] show ?thesis
    by (auto simp: step_value_def jw_value_text_def call_meets_def)
next
  case (Some sep)
  show ?thesis
  proof (cases "jw_fits w (length (sep @ text))")
    case True
    with Some assms emit_after_pre_value(3) [OF assms Some True] show ?thesis
      by (auto simp: step_value_def jw_value_text_def call_meets_def mark_root_if_top_def value_levels_Nil key_in_object_def)
  next
    case False
    with Some emit_after_pre_value(2) [OF assms Some False] show ?thesis
      by (auto simp: step_value_def jw_value_text_def call_meets_def)
  qed
qed

lemma call_meets_open:
  assumes "jw_valid w" "key_in_object w"
  shows "call_meets (step_value [b] [\<lparr>jl_is_object = is_object, jl_first = True\<rparr>] w) (jw_open is_object b w)"
proof (cases "value_place w")
  case None
  with emit_after_pre_value(1) [OF assms None, of "[b]"] show ?thesis
    by (auto simp: step_value_def jw_open_def call_meets_def)
next
  case (Some sep)
  show ?thesis
  proof (cases "jw_fits w (length (sep @ [b]))")
    case True
    with Some assms emit_after_pre_value(3) [OF assms Some True] show ?thesis
      by (auto simp: step_value_def jw_open_def call_meets_def key_in_object_def)
  next
    case False
    with Some emit_after_pre_value(2) [OF assms Some False] show ?thesis
      by (auto simp: step_value_def jw_open_def call_meets_def)
  qed
qed

lemma call_meets_value_string:
  assumes "jw_valid w" "key_in_object w"
  shows "call_meets (step_value (json_quoted s) [] w) (jw_value_string s w)"
proof (cases "value_place w")
  case None
  with pre_value_eq(1) [OF assms None] show ?thesis by (simp add: step_value_def jw_value_string_def call_meets_def)
next
  case (Some sep)
  from pre_value_eq(2) [OF assms Some] jw_write_string_eq [of s "pre_value w"] obtain w' where w': "\<not> jw_valid w'"
    "jw_write_string s (pre_value w) = (if jw_fits (pre_value w) (length (json_quoted s))
       then (pre_value w)\<lparr>jw_out := jw_out (pre_value w) @ json_quoted s\<rparr> else w')" by blast
  show ?thesis
  proof (cases "sep = [] \<or> jw_fits w (length sep)")
    case True
    with pre_value_eq(2) [OF assms Some]
    have p: "pre_value w = w\<lparr>jw_out := jw_out w @ sep, jw_levels := value_levels w, jw_after_key := False\<rparr>" by simp
    have "jw_fits (pre_value w) (length (json_quoted s)) = jw_fits w (length (sep @ json_quoted s))"
      by (simp add: p jw_fits_def add.assoc)
    with Some assms w' show ?thesis
      by (auto simp: p step_value_def jw_value_string_def call_meets_def mark_root_if_top_def value_levels_Nil
          key_in_object_def)
  next
    case False
    with pre_value_eq(2) [OF assms Some] have "\<not> jw_valid (pre_value w)" by simp
    moreover have "\<not> jw_fits w (length (sep @ json_quoted s))" using False by (auto simp: jw_fits_def)
    ultimately show ?thesis using Some by (simp add: step_value_def jw_value_string_def call_meets_def)
  qed
qed

lemma call_meets_key:
  assumes "jw_valid w" "key_in_object w" shows "call_meets (step_key name w) (jw_key name w)"
proof (cases "jw_levels w")
  case Nil
  with assms show ?thesis by (simp add: step_key_def jw_key_def call_meets_def)
next
  case (Cons current below)
  show ?thesis
  proof (cases "jl_is_object current \<and> \<not> jw_after_key w")
    case False
    with Cons assms show ?thesis by (auto simp: step_key_def jw_key_def call_meets_def Let_def)
  next
    case place: True
    define sep where "sep = (if jl_first current then [] else [byte_comma])"
    define w1 where "w1 = w\<lparr>jw_out := jw_out w @ sep, jw_levels := current\<lparr>jl_first := False\<rparr> # below\<rparr>"
    have key: "jw_key name w = (if sep = [] \<or> jw_fits w (length sep)
        then (case jw_emit [byte_colon] (jw_write_string name w1) of
                (fits, w2) \<Rightarrow> if fits then w2\<lparr>jw_after_key := True\<rparr> else w2)
        else w\<lparr>jw_valid := False\<rparr>)"
      using Cons place assms(1) by (auto simp: jw_key_def sep_def w1_def jw_emit_eq mark_not_first_def)
    from jw_write_string_eq [of name w1] obtain w' where w': "\<not> jw_valid w'"
      "jw_write_string name w1 = (if jw_fits w1 (length (json_quoted name))
         then w1\<lparr>jw_out := jw_out w1 @ json_quoted name\<rparr> else w')" by blast
    have fits: "jw_fits w1 n = jw_fits w (length sep + n)" for n by (simp add: w1_def jw_fits_def add.assoc)
    show ?thesis
    proof (cases "jw_fits w (length (sep @ json_quoted name @ [byte_colon]))")
      case True
      then have 1: "sep = [] \<or> jw_fits w (length sep)" "jw_fits w1 (length (json_quoted name))"
        "jw_fits (w1\<lparr>jw_out := jw_out w1 @ json_quoted name\<rparr>) 1" by (auto simp: jw_fits_def w1_def)
      with w' have "jw_key name w = w1\<lparr>jw_out := jw_out w1 @ json_quoted name @ [byte_colon], jw_after_key := True\<rparr>"
        by (simp add: key jw_emit_eq)
      with True Cons place assms show ?thesis
        by (auto simp: step_key_def call_meets_def key_in_object_def w1_def sep_def Let_def)
    next
      case False
      have "\<not> jw_valid (jw_key name w)"
      proof (cases "(sep = [] \<or> jw_fits w (length sep)) \<and> jw_fits w1 (length (json_quoted name))")
        case True
        with False have "\<not> jw_fits (w1\<lparr>jw_out := jw_out w1 @ json_quoted name\<rparr>) 1" by (auto simp: jw_fits_def w1_def)
        with True w' show ?thesis by (auto simp: key jw_emit_eq)
      next
        case False
        with w' show ?thesis by (auto simp: key jw_emit_eq dest: jw_fits_valid)
      qed
      with False Cons place show ?thesis by (auto simp: step_key_def call_meets_def sep_def Let_def)
    qed
  qed
qed

lemma call_meets_close:
  assumes "jw_valid w" "key_in_object w"
  shows "call_meets (step_close True byte_close_object w) (jw_end_object w)"
    and "call_meets (step_close False byte_close_array w) (jw_end_array w)"
  using assms
  by (auto simp: step_close_def jw_end_object_def jw_end_array_def call_meets_def mark_root_if_top_def key_in_object_def
      split: list.splits)

lemma json_do_step:
  assumes "jw_valid w" "key_in_object w" shows "call_meets (json_step w c) (json_do w c)"
  using call_meets_value_text [OF assms] call_meets_open [OF assms] call_meets_value_string [OF assms]
    call_meets_key [OF assms] call_meets_close [OF assms]
  by (cases c) (simp_all add: jw_begin_object_def jw_begin_array_def jw_value_int_def jw_value_uint_def
      jw_value_bool_def jw_value_null_def)

section \<open>Documents\<close>

datatype json =
    j_string bytes | j_int i64 | j_uint u64 | j_bool bool | j_null
  | j_array "json list" | j_object "(bytes \<times> json) list"

fun json_calls :: "json \<Rightarrow> json_call list" where
  "json_calls (j_string s) = [jc_string s]"
| "json_calls (j_int i) = [jc_int i]"
| "json_calls (j_uint i) = [jc_uint i]"
| "json_calls (j_bool b) = [jc_bool b]"
| "json_calls j_null = [jc_null]"
| "json_calls (j_array items) = jc_begin_array # concat (map json_calls items) @ [jc_end_array]"
| "json_calls (j_object members) =
     jc_begin_object # concat (map (\<lambda>(name, v). jc_key name # json_calls v) members) @ [jc_end_object]"

fun commas :: "bytes list \<Rightarrow> bytes" where
  "commas [] = []"
| "commas [t] = t"
| "commas (t # u # ts) = t @ byte_comma # commas (u # ts)"

fun json_render :: "json \<Rightarrow> bytes" where
  "json_render (j_string s) = json_quoted s"
| "json_render (j_int i) = signed_decimal (sint i)"
| "json_render (j_uint i) = decimal_digits (unat i)"
| "json_render (j_bool b) = (if b then text_true else text_false)"
| "json_render j_null = text_null"
| "json_render (j_array items) = byte_open_array # commas (map json_render items) @ [byte_close_array]"
| "json_render (j_object members) =
     byte_open_object # commas (map (\<lambda>(name, v). json_quoted name @ byte_colon # json_render v) members) @
     [byte_close_object]"

definition json_run :: "nat \<Rightarrow> json_call list \<Rightarrow> json_writer" where
  "json_run max_bytes calls = foldl json_do (new_json_writer max_bytes) calls"

definition separator :: "'a list \<Rightarrow> bytes" where
  "separator written = (if written = [] then [] else [byte_comma])"

lemma commas_snoc: "commas (ts @ [t]) = commas ts @ separator ts @ t"
  by (induction ts rule: commas.induct) (simp_all add: separator_def)

section \<open>Unfinished documents\<close>

text \<open>The containers still open, innermost first; an object may hold a key that waits for its value.\<close>

datatype json_frame = fr_array "json list" | fr_object "(bytes \<times> json) list" "bytes option"

datatype json_progress = pr_root json | pr_open "json_frame list"

definition member_text :: "bytes \<times> json \<Rightarrow> bytes" where
  "member_text m = json_quoted (fst m) @ byte_colon # json_render (snd m)"

fun frame_calls :: "json_frame \<Rightarrow> json_call list" where
  "frame_calls (fr_array items) = jc_begin_array # concat (map json_calls items)"
| "frame_calls (fr_object members pending) =
     jc_begin_object # concat (map (\<lambda>(name, v). jc_key name # json_calls v) members) @
     (case pending of None \<Rightarrow> [] | Some name \<Rightarrow> [jc_key name])"

fun frame_text :: "json_frame \<Rightarrow> bytes" where
  "frame_text (fr_array items) = byte_open_array # commas (map json_render items)"
| "frame_text (fr_object members pending) =
     byte_open_object # commas (map member_text members) @
     (case pending of None \<Rightarrow> [] | Some name \<Rightarrow> separator members @ json_quoted name @ [byte_colon])"

fun frame_separator :: "json_frame \<Rightarrow> bytes" where
  "frame_separator (fr_array items) = separator items"
| "frame_separator (fr_object _ _) = []"

fun frame_ready :: "json_frame \<Rightarrow> bool" where
  "frame_ready (fr_array _) = True"
| "frame_ready (fr_object _ pending) = (pending \<noteq> None)"

fun frame_level :: "json_frame \<Rightarrow> json_level" where
  "frame_level (fr_array items) = \<lparr>jl_is_object = False, jl_first = (items = [])\<rparr>"
| "frame_level (fr_object members pending) =
     \<lparr>jl_is_object = True, jl_first = (members = [] \<and> pending = None)\<rparr>"

text \<open>A frame that holds a value in the making has written the separator before it.\<close>

fun outer_level :: "json_frame \<Rightarrow> json_level" where
  "outer_level f = (frame_level f)\<lparr>jl_first := False\<rparr>"

fun progress_calls :: "json_progress \<Rightarrow> json_call list" where
  "progress_calls (pr_root doc) = json_calls doc"
| "progress_calls (pr_open fs) = concat (map frame_calls (rev fs))"

definition outer_text :: "json_frame list \<Rightarrow> bytes" where
  "outer_text fs = concat (map (\<lambda>f. frame_text f @ frame_separator f) (rev fs))"

fun progress_text :: "json_progress \<Rightarrow> bytes" where
  "progress_text (pr_root doc) = json_render doc"
| "progress_text (pr_open []) = []"
| "progress_text (pr_open (f # fs)) = outer_text fs @ frame_text f"

fun progress_levels :: "json_progress \<Rightarrow> json_level list" where
  "progress_levels (pr_open (f # fs)) = frame_level f # map outer_level fs"
| "progress_levels _ = []"

fun progress_after_key :: "json_progress \<Rightarrow> bool" where
  "progress_after_key (pr_open (fr_object _ pending # fs)) = (pending \<noteq> None)"
| "progress_after_key _ = False"

fun progress_sound :: "json_progress \<Rightarrow> bool" where
  "progress_sound (pr_open (f # fs)) = list_all frame_ready fs"
| "progress_sound _ = True"

definition writes :: "json_call list \<Rightarrow> json_writer \<Rightarrow> json_progress \<Rightarrow> bool" where
  "writes calls w p \<longleftrightarrow>
     jw_valid w \<and> calls = progress_calls p \<and> jw_out w = progress_text p \<and> jw_levels w = progress_levels p \<and>
     jw_after_key w = progress_after_key p \<and> jw_root_done w = (case p of pr_root _ \<Rightarrow> True | pr_open _ \<Rightarrow> False) \<and>
     progress_sound p"

fun frame_put :: "json \<Rightarrow> json_frame list \<Rightarrow> json_progress" where
  "frame_put doc [] = pr_root doc"
| "frame_put doc (fr_array items # fs) = pr_open (fr_array (items @ [doc]) # fs)"
| "frame_put doc (fr_object members (Some name) # fs) = pr_open (fr_object (members @ [(name, doc)]) None # fs)"
| "frame_put doc (fr_object members None # fs) = pr_open (fr_object members None # fs)"

fun frame_doc :: "json_frame \<Rightarrow> json" where
  "frame_doc (fr_array items) = j_array items"
| "frame_doc (fr_object members _) = j_object members"

lemma outer_text_Cons: "outer_text (f # fs) = outer_text fs @ frame_text f @ frame_separator f"
  by (simp add: outer_text_def)

lemma json_render_member: "json_render (j_object members) = byte_open_object # commas (map member_text members) @ [byte_close_object]"
  by (simp add: member_text_def [abs_def] case_prod_beta')

lemma frame_put_facts:
  assumes "list_all frame_ready fs"
  shows "progress_calls (frame_put doc fs) = progress_calls (pr_open fs) @ json_calls doc"
    and "progress_text (frame_put doc fs) = outer_text fs @ json_render doc"
    and "progress_levels (frame_put doc fs) = map outer_level fs"
    and "\<not> progress_after_key (frame_put doc fs)"
    and "progress_sound (frame_put doc fs)"
    and "(case frame_put doc fs of pr_root _ \<Rightarrow> True | pr_open _ \<Rightarrow> False) = (fs = [])"
  using assms
  by (cases "(doc, fs)" rule: frame_put.cases;
      simp add: outer_text_def commas_snoc separator_def member_text_def)+

lemma writes_value_place:
  assumes "writes calls w p" "value_place w = Some sep"
  obtains fs where "p = pr_open fs" "list_all frame_ready fs" "jw_out w @ sep = outer_text fs"
    "value_levels w = map outer_level fs" "calls = progress_calls (pr_open fs)" "jw_levels w = [] \<longleftrightarrow> fs = []"
    "jw_valid w" "\<not> jw_root_done w"
proof (cases p)
  case (pr_root doc)
  with assms show ?thesis by (simp add: writes_def value_place_def)
next
  case (pr_open fs)
  show ?thesis
  proof (cases fs)
    case Nil
    with pr_open assms show ?thesis
      by (intro that [of fs]) (auto simp: writes_def value_place_def value_levels_def outer_text_def split: if_splits)
  next
    case (Cons f fs')
    with pr_open assms show ?thesis
      by (cases f; intro that [of fs])
        (auto simp: writes_def value_place_def value_levels_def outer_text_Cons separator_def split: if_splits option.splits)
  qed
qed

lemma writes_put:
  assumes "writes calls w p" "step_value t [] w = Some w'" "json_render doc = t" "json_calls doc = [c]"
  shows "\<exists>p'. writes (calls @ [c]) w' p'"
proof -
  from assms(2) obtain sep where sep: "value_place w = Some sep" by (auto simp: step_value_def split: option.splits)
  from writes_value_place [OF assms(1) sep] obtain fs where fs: "list_all frame_ready fs" "jw_out w @ sep = outer_text fs"
    "value_levels w = map outer_level fs" "calls = progress_calls (pr_open fs)" "jw_levels w = [] \<longleftrightarrow> fs = []"
    "jw_valid w" "\<not> jw_root_done w" by metis
  from assms(2) sep fs have "w' = w\<lparr>jw_out := outer_text fs @ t, jw_levels := map outer_level fs, jw_after_key := False,
      jw_root_done := (fs = [])\<rparr>"
    by (auto simp: step_value_def split: if_splits simp flip: append_assoc)
  with fs assms(3,4) frame_put_facts [OF fs(1), of doc] have "writes (calls @ [c]) w' (frame_put doc fs)"
    by (simp add: writes_def del: progress_calls.simps)
  then show ?thesis ..
qed

lemma writes_open:
  assumes "writes calls w p" "step_value [b] [\<lparr>jl_is_object = is_object, jl_first = True\<rparr>] w = Some w'"
    "frame_level f = \<lparr>jl_is_object = is_object, jl_first = True\<rparr>" "frame_text f = [b]" "frame_calls f = [c]"
    "\<And>fs. \<not> progress_after_key (pr_open (f # fs))"
  shows "\<exists>p'. writes (calls @ [c]) w' p'"
proof -
  from assms(2) obtain sep where sep: "value_place w = Some sep" by (auto simp: step_value_def split: option.splits)
  from writes_value_place [OF assms(1) sep] obtain fs where fs: "list_all frame_ready fs" "jw_out w @ sep = outer_text fs"
    "value_levels w = map outer_level fs" "calls = progress_calls (pr_open fs)" "jw_levels w = [] \<longleftrightarrow> fs = []"
    "jw_valid w" "\<not> jw_root_done w" by metis
  from assms(2) sep fs have "w' = w\<lparr>jw_out := outer_text fs @ [b],
      jw_levels := \<lparr>jl_is_object = is_object, jl_first = True\<rparr> # map outer_level fs, jw_after_key := False\<rparr>"
    by (auto simp: step_value_def split: if_splits simp flip: append_assoc)
  with fs assms(3-6) have "writes (calls @ [c]) w' (pr_open (f # fs))"
    by (simp add: writes_def)
  then show ?thesis ..
qed

lemma writes_close:
  assumes "writes calls w p" "step_close is_object b w = Some w'"
    "\<And>f. jl_is_object (frame_level f) = is_object \<Longrightarrow> \<not> progress_after_key (pr_open [f]) \<Longrightarrow>
       json_calls (frame_doc f) = frame_calls f @ [c] \<and> json_render (frame_doc f) = frame_text f @ [b]"
  shows "\<exists>p'. writes (calls @ [c]) w' p'"
proof -
  from assms(1,2) obtain f fs where p: "p = pr_open (f # fs)"
    by (auto simp: writes_def step_close_def split: list.splits elim: progress_levels.elims)
  with assms(1,2) have f: "jl_is_object (frame_level f) = is_object" "\<not> progress_after_key (pr_open [f])"
    and w': "w' = w\<lparr>jw_out := outer_text fs @ frame_text f @ [b], jw_levels := map outer_level fs, jw_root_done := (fs = [])\<rparr>"
    and fs: "list_all frame_ready fs" and calls: "calls = progress_calls (pr_open (f # fs))" and v: "jw_valid w"
      "\<not> jw_after_key w"
    by (cases f; auto simp: writes_def step_close_def split: if_splits)+
  from assms(3) [OF f] frame_put_facts [OF fs, of "frame_doc f"] w' calls v
  have "writes (calls @ [c]) w' (frame_put (frame_doc f) fs)" by (simp add: writes_def)
  then show ?thesis ..
qed

lemma writes_key:
  assumes "writes calls w p" "step_key name w = Some w'"
  shows "\<exists>p'. writes (calls @ [jc_key name]) w' p'"
proof -
  from assms obtain f fs where p: "p = pr_open (f # fs)"
    by (auto simp: writes_def step_key_def split: list.splits elim: progress_levels.elims)
  with assms obtain members where "f = fr_object members None"
    by (cases f) (auto simp: writes_def step_key_def Let_def split: if_splits)
  with p assms have "writes (calls @ [jc_key name]) w' (pr_open (fr_object members (Some name) # fs))"
    by (auto simp: writes_def step_key_def Let_def separator_def split: if_splits)
  then show ?thesis ..
qed

lemma writes_step:
  assumes "writes calls w p" "json_step w c = Some w'" shows "\<exists>p'. writes (calls @ [c]) w' p'"
proof (cases c)
  case jc_begin_object
  with assms show ?thesis by (intro writes_open [where f = "fr_object [] None"]) auto
next
  case jc_begin_array
  with assms show ?thesis by (intro writes_open [where f = "fr_array []"]) auto
next
  case jc_end_object
  show ?thesis
  proof (rule writes_close [OF assms(1)])
    show "step_close True byte_close_object w = Some w'" using assms(2) jc_end_object by simp
    show "json_calls (frame_doc f) = frame_calls f @ [c] \<and> json_render (frame_doc f) = frame_text f @ [byte_close_object]"
      if "jl_is_object (frame_level f) = True" "\<not> progress_after_key (pr_open [f])" for f
      using that jc_end_object by (cases f) (auto simp: json_render_member simp del: json_render.simps)
  qed
next
  case jc_end_array
  show ?thesis
  proof (rule writes_close [OF assms(1)])
    show "step_close False byte_close_array w = Some w'" using assms(2) jc_end_array by simp
    show "json_calls (frame_doc f) = frame_calls f @ [c] \<and> json_render (frame_doc f) = frame_text f @ [byte_close_array]"
      if "jl_is_object (frame_level f) = False" "\<not> progress_after_key (pr_open [f])" for f
      using that jc_end_array by (cases f) auto
  qed
next
  case (jc_key name)
  with assms show ?thesis using writes_key by simp
next
  case (jc_string s)
  with assms show ?thesis by (intro writes_put [where doc = "j_string s"]) auto
next
  case (jc_int i)
  with assms show ?thesis by (intro writes_put [where doc = "j_int i"]) auto
next
  case (jc_uint i)
  with assms show ?thesis by (intro writes_put [where doc = "j_uint i"]) auto
next
  case (jc_bool b)
  with assms show ?thesis by (intro writes_put [where doc = "j_bool b"]) auto
next
  case jc_null
  with assms show ?thesis by (intro writes_put [where doc = j_null]) auto
qed

section \<open>Runs\<close>

lemma call_meets_Some:
  assumes "call_meets spec w'" "jw_valid w'" shows "spec = Some w'" "key_in_object w'"
  using assms by (auto simp: call_meets_def split: option.splits)

lemma json_do_invalid: "\<not> jw_valid w \<Longrightarrow> \<not> jw_valid (json_do w c)"
  by (cases c)
    (simp_all add: jw_begin_object_def jw_begin_array_def jw_open_def jw_end_object_def jw_end_array_def jw_key_def
      jw_value_string_def jw_value_int_def jw_value_uint_def jw_value_bool_def jw_value_null_def jw_value_text_def
      jw_emit_def jw_reserve_def pre_value_def)

lemma json_run_snoc: "json_run cap (calls @ [c]) = json_do (json_run cap calls) c"
  by (simp add: json_run_def)

lemma json_run_writes:
  "jw_valid (json_run cap calls) \<Longrightarrow> key_in_object (json_run cap calls) \<and> (\<exists>p. writes calls (json_run cap calls) p)"
proof (induction calls rule: rev_induct)
  case Nil
  have "writes [] (json_run cap []) (pr_open [])" by (simp add: writes_def json_run_def new_json_writer_def)
  then show ?case by (auto simp: json_run_def new_json_writer_def key_in_object_def)
next
  case (snoc c calls)
  let ?w = "json_run cap calls"
  have v: "jw_valid ?w" using snoc.prems json_do_invalid by (auto simp: json_run_snoc)
  with snoc.IH obtain p where p: "key_in_object ?w" "writes calls ?w p" by auto
  from call_meets_Some [OF json_do_step [OF v p(1)]] snoc.prems
  have "json_step ?w c = Some (json_do ?w c)" "key_in_object (json_do ?w c)" by (auto simp: json_run_snoc)
  with writes_step [OF p(2)] show ?case by (auto simp: json_run_snoc)
qed

lemma json_sound:
  assumes "jw_ok (json_run cap calls)"
  obtains doc where "calls = json_calls doc" "jw_out (json_run cap calls) = json_render doc"
proof -
  from assms json_run_writes obtain p where p: "writes calls (json_run cap calls) p" by (auto simp: jw_ok_def)
  with assms have "\<exists>doc. p = pr_root doc" by (cases p) (auto simp: writes_def jw_ok_def)
  with p that show thesis by (auto simp: writes_def)
qed

text \<open>The calls of a document that fits come to one step.\<close>

definition json_runs :: "json_call list \<Rightarrow> json_writer \<Rightarrow> json_writer \<Rightarrow> bool" where
  "json_runs calls w w' \<longleftrightarrow> foldl json_do w calls = w' \<and> jw_valid w' \<and> key_in_object w'"

lemma json_runs_Nil: "jw_valid w \<Longrightarrow> key_in_object w \<Longrightarrow> json_runs [] w w"
  by (simp add: json_runs_def)

lemma json_runs_append: "json_runs calls w w' \<Longrightarrow> json_runs calls' w' w'' \<Longrightarrow> json_runs (calls @ calls') w w''"
  by (simp add: json_runs_def)

lemma json_runs_one:
  assumes "jw_valid w" "key_in_object w" "json_step w c = Some w'" shows "json_runs [c] w w'"
  using json_do_step [OF assms(1,2), of c] assms(3) by (auto simp: json_runs_def call_meets_def)

definition value_after :: "json_writer \<Rightarrow> bytes \<Rightarrow> json_writer" where
  "value_after w t =
     w\<lparr>jw_out := jw_out w @ t, jw_levels := value_levels w, jw_after_key := False,
       jw_root_done := (jw_root_done w \<or> jw_levels w = [])\<rparr>"

definition written_ok :: "json \<Rightarrow> bool" where
  "written_ok doc \<longleftrightarrow>
     (\<forall>w sep. jw_valid w \<and> key_in_object w \<and> value_place w = Some sep \<and> jw_fits w (length (sep @ json_render doc)) \<longrightarrow>
        json_runs (json_calls doc) w (value_after w (sep @ json_render doc)))"

lemma written_okD:
  "written_ok doc \<Longrightarrow> jw_valid w \<Longrightarrow> key_in_object w \<Longrightarrow> value_place w = Some sep \<Longrightarrow>
   jw_fits w (length (sep @ json_render doc)) \<Longrightarrow> json_runs (json_calls doc) w (value_after w (sep @ json_render doc))"
  by (simp add: written_ok_def)

lemma written_scalar:
  assumes "json_calls doc = [c]" "\<And>w. json_step w c = step_value (json_render doc) [] w"
  shows "written_ok doc"
  unfolding written_ok_def
proof (intro allI impI, elim conjE)
  fix w sep
  assume w: "jw_valid w" "key_in_object w" "value_place w = Some sep" "jw_fits w (length (sep @ json_render doc))"
  then have "json_step w c = Some (value_after w (sep @ json_render doc))"
    by (simp add: assms(2) step_value_def value_after_def)
  with json_runs_one [OF w(1,2)] assms(1) show "json_runs (json_calls doc) w (value_after w (sep @ json_render doc))"
    by simp
qed

text \<open>The texts of further items or members, with their separators.\<close>

definition list_tail :: "bool \<Rightarrow> bytes list \<Rightarrow> bytes" where
  "list_tail first ts = (if ts = [] then [] else (if first then [] else [byte_comma]) @ commas ts)"

lemma list_tail_Cons: "list_tail first (t # ts) = (if first then [] else [byte_comma]) @ t @ list_tail False ts"
  by (cases ts) (simp_all add: list_tail_def)

lemma list_tail_first: "list_tail True ts = commas ts"
  by (simp add: list_tail_def)

definition in_level :: "bool \<Rightarrow> bool \<Rightarrow> json_level list \<Rightarrow> json_writer \<Rightarrow> bool" where
  "in_level is_object first below w \<longleftrightarrow>
     jw_valid w \<and> \<not> jw_after_key w \<and> jw_levels w = \<lparr>jl_is_object = is_object, jl_first = first\<rparr> # below"

lemma in_level_stays:
  assumes "in_level is_object first below w"
  shows "json_runs [] w (w\<lparr>jw_out := jw_out w @ [], jw_levels := \<lparr>jl_is_object = is_object, jl_first = first\<rparr> # below\<rparr>)"
proof -
  from assms have "w\<lparr>jw_out := jw_out w @ [], jw_levels := \<lparr>jl_is_object = is_object, jl_first = first\<rparr> # below\<rparr> = w"
    by (cases w) (simp add: in_level_def)
  moreover from assms have "json_runs [] w w" by (auto simp: in_level_def key_in_object_def intro: json_runs_Nil)
  ultimately show ?thesis by (simp only:)
qed

lemma items_written:
  assumes "\<And>doc. doc \<in> set items \<Longrightarrow> written_ok doc" "in_level False first below w"
    "jw_fits w (length (list_tail first (map json_render items)))"
  shows "json_runs (concat (map json_calls items)) w
    (w\<lparr>jw_out := jw_out w @ list_tail first (map json_render items),
      jw_levels := \<lparr>jl_is_object = False, jl_first = (first \<and> items = [])\<rparr> # below\<rparr>)"
  using assms
proof (induction items arbitrary: w first)
  case Nil
  with in_level_stays show ?case by (fastforce simp: list_tail_def)
next
  case (Cons doc items)
  let ?sep = "if first then [] else [byte_comma]"
  let ?w = "value_after w (?sep @ json_render doc)"
  let ?t = "list_tail False (map json_render items)"
  from Cons.prems(2) have w: "jw_valid w" "key_in_object w" "value_place w = Some ?sep"
    by (auto simp: in_level_def key_in_object_def value_place_def)
  have fits: "jw_fits w (length (?sep @ json_render doc))" "jw_fits ?w (length ?t)"
    using Cons.prems(3) w(1) by (auto simp: list_tail_Cons jw_fits_def value_after_def)
  from written_okD [OF Cons.prems(1) w fits(1)] have "json_runs (json_calls doc) w ?w" by simp
  moreover have "in_level False False below ?w"
    using Cons.prems(2) by (simp add: in_level_def value_after_def value_levels_def)
  from Cons.IH [OF Cons.prems(1) this fits(2)] have "json_runs (concat (map json_calls items)) ?w
    (?w\<lparr>jw_out := jw_out ?w @ ?t, jw_levels := \<lparr>jl_is_object = False, jl_first = False\<rparr> # below\<rparr>)" by simp
  moreover have "?w\<lparr>jw_out := jw_out ?w @ ?t, jw_levels := \<lparr>jl_is_object = False, jl_first = False\<rparr> # below\<rparr> =
      w\<lparr>jw_out := jw_out w @ list_tail first (map json_render (doc # items)),
        jw_levels := \<lparr>jl_is_object = False, jl_first = (first \<and> doc # items = [])\<rparr> # below\<rparr>"
    using Cons.prems(2) by (cases w) (simp add: value_after_def list_tail_Cons in_level_def)
  ultimately show ?case using json_runs_append by fastforce
qed

lemma member_text_pair: "member_text (name, doc) = json_quoted name @ byte_colon # json_render doc"
  by (simp add: member_text_def)

lemma members_written:
  assumes "\<And>m. m \<in> set members \<Longrightarrow> written_ok (snd m)" "in_level True first below w"
    "jw_fits w (length (list_tail first (map member_text members)))"
  shows "json_runs (concat (map (\<lambda>(name, v). jc_key name # json_calls v) members)) w
    (w\<lparr>jw_out := jw_out w @ list_tail first (map member_text members),
      jw_levels := \<lparr>jl_is_object = True, jl_first = (first \<and> members = [])\<rparr> # below\<rparr>)"
  using assms
proof (induction members arbitrary: w first)
  case Nil
  with in_level_stays show ?case by (fastforce simp: list_tail_def)
next
  case (Cons m members)
  obtain name doc where m: "m = (name, doc)" by fastforce
  let ?k = "(if first then [] else [byte_comma]) @ json_quoted name @ [byte_colon]"
  let ?keyed = "w\<lparr>jw_out := jw_out w @ ?k, jw_levels := \<lparr>jl_is_object = True, jl_first = False\<rparr> # below, jw_after_key := True\<rparr>"
  let ?w = "value_after ?keyed (json_render doc)"
  let ?t = "list_tail False (map member_text members)"
  from Cons.prems(2) have w: "jw_valid w" "key_in_object w" by (auto simp: in_level_def key_in_object_def)
  have "jw_fits w (length ?k)"
    using Cons.prems(3) w(1) by (auto simp: list_tail_Cons jw_fits_def m member_text_pair)
  with Cons.prems(2) have "json_step w (jc_key name) = Some ?keyed" by (simp add: in_level_def step_key_def)
  from json_runs_one [OF w this] have key: "json_runs [jc_key name] w ?keyed" .
  have w0: "jw_valid ?keyed" "key_in_object ?keyed" "value_place ?keyed = Some []"
    using w(1) by (simp_all add: key_in_object_def value_place_def)
  have fits: "jw_fits ?keyed (length ([] @ json_render doc))" "jw_fits ?w (length ?t)"
    using Cons.prems(3) w(1) by (auto simp: list_tail_Cons jw_fits_def value_after_def m member_text_pair)
  have "written_ok doc" using Cons.prems(1) m by fastforce
  from written_okD [OF this w0 fits(1)] have val: "json_runs (json_calls doc) ?keyed ?w" by simp
  have "in_level True False below ?w"
    using Cons.prems(2) by (simp add: in_level_def value_after_def value_levels_def)
  from Cons.IH [OF _ this fits(2)] Cons.prems(1)
  have rest: "json_runs (concat (map (\<lambda>(name, v). jc_key name # json_calls v) members)) ?w
    (?w\<lparr>jw_out := jw_out ?w @ ?t, jw_levels := \<lparr>jl_is_object = True, jl_first = False\<rparr> # below\<rparr>)" by simp
  have same: "?w\<lparr>jw_out := jw_out ?w @ ?t, jw_levels := \<lparr>jl_is_object = True, jl_first = False\<rparr> # below\<rparr> =
      w\<lparr>jw_out := jw_out w @ list_tail first (map member_text (m # members)),
        jw_levels := \<lparr>jl_is_object = True, jl_first = (first \<and> m # members = [])\<rparr> # below\<rparr>"
    using Cons.prems(2) by (cases w) (simp add: value_after_def list_tail_Cons in_level_def m member_text_pair)
  have calls: "concat (map (\<lambda>(name, v). jc_key name # json_calls v) (m # members)) =
      [jc_key name] @ json_calls doc @ concat (map (\<lambda>(name, v). jc_key name # json_calls v) members)"
    by (simp add: m)
  from json_runs_append [OF key json_runs_append [OF val rest]] show ?case unfolding calls same .
qed

text \<open>A container around its body.\<close>

lemma written_container:
  assumes calls: "json_calls doc = [c] @ body @ [c']"
    and render: "json_render doc = [b] @ inside @ [b']"
    and opens: "\<And>w. json_step w c = step_value [b] [\<lparr>jl_is_object = is_object, jl_first = True\<rparr>] w"
    and closes: "\<And>w. json_step w c' = step_close is_object b' w"
    and body: "\<And>w below. in_level is_object True below w \<Longrightarrow> jw_fits w (length inside) \<Longrightarrow>
      json_runs body w (w\<lparr>jw_out := jw_out w @ inside, jw_levels := \<lparr>jl_is_object = is_object, jl_first = bare\<rparr> # below\<rparr>)"
  shows "written_ok doc"
  unfolding written_ok_def
proof (intro allI impI, elim conjE)
  fix w sep
  assume w: "jw_valid w" "key_in_object w" "value_place w = Some sep" "jw_fits w (length (sep @ json_render doc))"
  let ?below = "value_levels w"
  let ?w1 = "w\<lparr>jw_out := jw_out w @ sep @ [b], jw_levels := \<lparr>jl_is_object = is_object, jl_first = True\<rparr> # ?below,
    jw_after_key := False\<rparr>"
  let ?w2 = "?w1\<lparr>jw_out := jw_out ?w1 @ inside, jw_levels := \<lparr>jl_is_object = is_object, jl_first = bare\<rparr> # ?below\<rparr>"
  from w have "json_step w c = Some ?w1" by (auto simp: opens step_value_def render jw_fits_def)
  from json_runs_one [OF w(1,2) this] have 1: "json_runs [c] w ?w1" .
  have "in_level is_object True ?below ?w1" "jw_fits ?w1 (length inside)"
    using w by (auto simp: in_level_def render jw_fits_def)
  from body [OF this] have 2: "json_runs body ?w1 ?w2" .
  have "json_step ?w2 c' = Some (value_after w (sep @ json_render doc))"
    by (simp add: closes step_close_def value_after_def render value_levels_Nil)
  from json_runs_one [OF _ _ this] w(1) have "json_runs [c'] ?w2 (value_after w (sep @ json_render doc))"
    by (simp add: key_in_object_def)
  with 1 2 show "json_runs (json_calls doc) w (value_after w (sep @ json_render doc))"
    unfolding calls by (meson json_runs_append)
qed

lemma doc_written: "written_ok doc"
proof (induction doc)
  case (j_string s) then show ?case by (rule written_scalar) auto
next
  case (j_int i) then show ?case by (rule written_scalar) auto
next
  case (j_uint i) then show ?case by (rule written_scalar) auto
next
  case (j_bool b) then show ?case by (rule written_scalar) auto
next
  case j_null then show ?case by (rule written_scalar) auto
next
  case (j_array items)
  show ?case
    by (rule written_container [where body = "concat (map json_calls items)" and inside = "commas (map json_render items)"
          and b = byte_open_array and b' = byte_close_array and is_object = False and bare = "items = []"])
      (use items_written [OF j_array, of items True] in \<open>auto simp: list_tail_first\<close>)
next
  case (j_object members)
  show ?case
    by (rule written_container [where body = "concat (map (\<lambda>(name, v). jc_key name # json_calls v) members)"
          and inside = "commas (map member_text members)"
          and b = byte_open_object and b' = byte_close_object and is_object = True and bare = "members = []"])
      (use members_written [of members True] j_object in \<open>auto simp: list_tail_first json_render_member simp del: json_render.simps\<close>)
qed

lemma json_complete:
  assumes "cap = 0 \<or> length (json_render doc) \<le> cap"
  shows "jw_ok (json_run cap (json_calls doc))" "jw_out (json_run cap (json_calls doc)) = json_render doc"
proof -
  let ?w = "new_json_writer cap"
  have "jw_valid ?w" "key_in_object ?w" "value_place ?w = Some []" "jw_fits ?w (length ([] @ json_render doc))"
    using assms by (auto simp: new_json_writer_def key_in_object_def value_place_def jw_fits_def)
  from written_okD [OF doc_written this]
  have "json_run cap (json_calls doc) = value_after ?w (json_render doc)" "jw_valid (value_after ?w (json_render doc))"
    by (simp_all add: json_runs_def json_run_def)
  then show "jw_ok (json_run cap (json_calls doc))" "jw_out (json_run cap (json_calls doc)) = json_render doc"
    by (simp_all add: jw_ok_def value_after_def value_levels_def new_json_writer_def)
qed

theorem writer_writes_documents:
  "(jw_ok (json_run cap calls) \<longrightarrow>
      (\<exists>doc. calls = json_calls doc \<and> jw_out (json_run cap calls) = json_render doc)) \<and>
   (cap = 0 \<or> length (json_render doc) \<le> cap \<longrightarrow>
      jw_ok (json_run cap (json_calls doc)) \<and> jw_out (json_run cap (json_calls doc)) = json_render doc)"
  using json_complete [of cap doc] by (auto elim: json_sound)

theorem writer_writes_documents_witness:
  "jw_out (json_run 10 (json_calls (j_array [j_bool True, j_array []]))) = [0x5B, 0x74, 0x72, 0x75, 0x65, 0x2C, 0x5B, 0x5D, 0x5D] \<and>
   (\<exists>doc. [jc_begin_array, jc_null, jc_end_array] = json_calls doc)"
proof -
  have l: "json_render (j_array [j_bool True, j_array []]) = [0x5B, 0x74, 0x72, 0x75, 0x65, 0x2C, 0x5B, 0x5D, 0x5D]"
    by (simp add: json_bytes text_true_def)
  have "jw_ok (json_run 10 [jc_begin_array, jc_null, jc_end_array])" by code_simp
  with writer_writes_documents [of 10 "[jc_begin_array, jc_null, jc_end_array]"]
    writer_writes_documents [of 10 "[]" "j_array [j_bool True, j_array []]"] l
  show ?thesis by (auto simp del: json_render.simps)
qed

section \<open>The cap\<close>

definition is_close :: "json_call \<Rightarrow> bool" where
  "is_close c \<longleftrightarrow> c = jc_end_object \<or> c = jc_end_array"

lemma json_step_cap:
  assumes "json_step w c = Some w'" "jw_max_bytes w \<noteq> 0" "length (jw_out w) \<le> jw_max_bytes w + n"
  shows "length (jw_out w') \<le> jw_max_bytes w + (if is_close c then Suc n else n)" "jw_max_bytes w' = jw_max_bytes w"
  using assms
  by (cases c; auto simp: is_close_def step_value_def step_close_def step_key_def jw_fits_def Let_def
        split: option.splits list.splits if_splits)+

lemma json_run_cap:
  assumes "cap \<noteq> 0"
  shows "jw_valid (json_run cap calls) \<Longrightarrow>
    length (jw_out (json_run cap calls)) \<le> cap + length (filter is_close calls) \<and> jw_max_bytes (json_run cap calls) = cap"
proof (induction calls rule: rev_induct)
  case Nil
  show ?case by (simp add: json_run_def new_json_writer_def)
next
  case (snoc c calls)
  let ?w = "json_run cap calls"
  have v: "jw_valid ?w" using snoc.prems json_do_invalid by (auto simp: json_run_snoc)
  with json_run_writes have "key_in_object ?w" by auto
  from call_meets_Some [OF json_do_step [OF v this]] snoc.prems
  have step: "json_step ?w c = Some (json_do ?w c)" by (auto simp: json_run_snoc)
  from snoc.IH [OF v] json_step_cap [OF step, of "length (filter is_close calls)"] assms show ?case
    by (auto simp: json_run_snoc split: if_splits)
qed

fun nested_arrays :: "nat \<Rightarrow> json" where
  "nested_arrays 0 = j_array []"
| "nested_arrays (Suc n) = j_array [nested_arrays n]"

lemma nested_calls: "json_calls (nested_arrays n) = replicate (Suc n) jc_begin_array @ replicate (Suc n) jc_end_array"
proof (induction n)
  case (Suc n)
  have "json_calls (nested_arrays (Suc n)) = jc_begin_array # json_calls (nested_arrays n) @ [jc_end_array]" by simp
  also have "\<dots> = replicate (Suc (Suc n)) jc_begin_array @ (replicate (Suc n) jc_end_array @ [jc_end_array])"
    by (simp only: Suc replicate.simps append_Cons append_assoc append_Nil)
  finally show ?case by (simp add: replicate_append_same)
qed simp

definition opened_arrays :: "nat \<Rightarrow> nat \<Rightarrow> json_writer" where
  "opened_arrays cap k = (new_json_writer cap)\<lparr>jw_out := replicate (Suc k) byte_open_array,
      jw_levels := \<lparr>jl_is_object = False, jl_first = True\<rparr> # replicate k \<lparr>jl_is_object = False, jl_first = False\<rparr>\<rparr>"

lemma open_one_array: "Suc k < cap \<Longrightarrow> json_do (opened_arrays cap k) jc_begin_array = opened_arrays cap (Suc k)"
  by (simp add: opened_arrays_def new_json_writer_def jw_begin_array_def jw_open_def pre_value_def mark_not_first_def
      jw_emit_def jw_reserve_def replicate_append_same)

lemma open_arrays:
  "k < cap \<Longrightarrow> foldl json_do (new_json_writer cap) (replicate (Suc k) jc_begin_array) = opened_arrays cap k"
proof (induction k)
  case 0
  then show ?case
    by (simp add: opened_arrays_def new_json_writer_def jw_begin_array_def jw_open_def pre_value_def jw_emit_def jw_reserve_def)
next
  case (Suc k)
  have "foldl json_do w (replicate (Suc (Suc k)) jc_begin_array) =
      json_do (foldl json_do w (replicate (Suc k) jc_begin_array)) jc_begin_array" for w
    by (simp only: replicate_Suc [of "Suc k"] replicate_append_same [symmetric] foldl_append foldl.simps)
  moreover from Suc have "foldl json_do (new_json_writer cap) (replicate (Suc k) jc_begin_array) = opened_arrays cap k"
    by (simp only: Suc_lessD)
  ultimately show ?case by (simp only: open_one_array [OF Suc.prems])
qed

lemma close_arrays:
  assumes "jw_valid w" "\<not> jw_after_key w" "jw_levels w \<noteq> []" "\<forall>l \<in> set (jw_levels w). \<not> jl_is_object l"
  shows "foldl json_do w (replicate (length (jw_levels w)) jc_end_array) =
    w\<lparr>jw_out := jw_out w @ replicate (length (jw_levels w)) byte_close_array, jw_levels := [], jw_root_done := True\<rparr>"
  using assms
proof (induction "jw_levels w" arbitrary: w)
  case (Cons l below)
  let ?w = "jw_end_array w"
  have w': "?w = w\<lparr>jw_out := jw_out w @ [byte_close_array], jw_levels := below, jw_root_done := (below = [] \<or> jw_root_done w)\<rparr>"
    using Cons.prems Cons.hyps(2) [symmetric] by (auto simp: jw_end_array_def mark_root_if_top_def)
  show ?case
  proof (cases "below = []")
    case True
    with w' Cons.hyps(2) [symmetric] show ?thesis by simp
  next
    case False
    have "foldl json_do ?w (replicate (length (jw_levels ?w)) jc_end_array) =
      ?w\<lparr>jw_out := jw_out ?w @ replicate (length (jw_levels ?w)) byte_close_array, jw_levels := [], jw_root_done := True\<rparr>"
      by (rule Cons.hyps(1)) (use False w' Cons.prems Cons.hyps(2) [symmetric] in auto)
    with w' Cons.hyps(2) [symmetric] False show ?thesis by simp
  qed
qed simp

lemma nested_run:
  "json_run (Suc n) (json_calls (nested_arrays n)) = (opened_arrays (Suc n) n)\<lparr>jw_levels := [], jw_root_done := True,
     jw_out := replicate (Suc n) byte_open_array @ replicate (Suc n) byte_close_array\<rparr>"
proof -
  let ?w = "opened_arrays (Suc n) n"
  have l: "length (jw_levels ?w) = Suc n" "jw_out ?w = replicate (Suc n) byte_open_array" by (simp_all add: opened_arrays_def)
  have "json_run (Suc n) (json_calls (nested_arrays n)) = foldl json_do ?w (replicate (length (jw_levels ?w)) jc_end_array)"
    unfolding json_run_def nested_calls foldl_append l by (simp only: open_arrays lessI)
  also have "\<dots> = ?w\<lparr>jw_out := jw_out ?w @ replicate (length (jw_levels ?w)) byte_close_array, jw_levels := [], jw_root_done := True\<rparr>"
    by (rule close_arrays) (auto simp: opened_arrays_def new_json_writer_def)
  finally show ?thesis by (simp only: l) (simp add: opened_arrays_def)
qed

theorem closing_brackets_overrun_the_cap:
  "(cap \<noteq> 0 \<and> jw_ok (json_run cap calls) \<longrightarrow>
      length (jw_out (json_run cap calls)) \<le> cap + length (filter is_close calls)) \<and>
   jw_ok (json_run (Suc n) (json_calls (nested_arrays n))) \<and>
   length (jw_out (json_run (Suc n) (json_calls (nested_arrays n)))) = 2 * Suc n"
  using json_run_cap [of cap calls] unfolding nested_run by (auto simp: jw_ok_def opened_arrays_def new_json_writer_def)

theorem closing_brackets_overrun_the_cap_witness:
  "length (jw_out (json_run 2 [jc_begin_array, jc_end_array])) \<le> 3 \<and>
   jw_ok (json_run 1 [jc_begin_array, jc_end_array]) \<and> length (jw_out (json_run 1 [jc_begin_array, jc_end_array])) = 2"
proof -
  have "jw_ok (json_run 2 [jc_begin_array, jc_end_array])" by code_simp
  then show ?thesis
    using closing_brackets_overrun_the_cap [of 2 "[jc_begin_array, jc_end_array]" 0] by (simp add: is_close_def)
qed

end
