(* ===== verification/Config_File.thy ===== *)
theory Config_File
  imports Json_Documents
begin

text \<open>
  \<^verbatim>\<open>core/config_file.cpp\<close>: the bounded reader of the configuration file, on the bytes still to be read.  The
  readers of a value recurse on the nesting still allowed, the loop of an array on the elements still
  allowed, the loop of an object on fuel, of which the length of the input is always enough.
\<close>

section \<open>The parsed file\<close>

text \<open>A typed look-up fills its out parameter only when it answers \<open>lk_ok\<close>.\<close>

datatype 'a lookup = lk_missing | lk_wrong_type | lk_ok 'a

datatype config_node = k_string bytes | k_int i64 | k_int_array "i64 list" | k_bool bool | k_other

type_synonym config_file = "bytes \<rightharpoonup> config_node"

definition cf_get_string :: "config_file \<Rightarrow> bytes \<Rightarrow> bytes lookup" where
  "cf_get_string file key =
     (case file key of None \<Rightarrow> lk_missing | Some (k_string s) \<Rightarrow> lk_ok s | Some _ \<Rightarrow> lk_wrong_type)"

definition get_int :: "config_file \<Rightarrow> bytes \<Rightarrow> i64 lookup" where
  "get_int file key =
     (case file key of None \<Rightarrow> lk_missing | Some (k_int i) \<Rightarrow> lk_ok i | Some _ \<Rightarrow> lk_wrong_type)"

definition get_int_pair :: "config_file \<Rightarrow> bytes \<Rightarrow> (i64 \<times> i64) lookup" where
  "get_int_pair file key =
     (case file key of
        None \<Rightarrow> lk_missing
      | Some (k_int_array ints) \<Rightarrow> if length ints \<noteq> 2 then lk_wrong_type else lk_ok (ints ! 0, ints ! 1)
      | Some _ \<Rightarrow> lk_wrong_type)"

definition cf_get_bool :: "config_file \<Rightarrow> bytes \<Rightarrow> bool lookup" where
  "cf_get_bool file key =
     (case file key of None \<Rightarrow> lk_missing | Some (k_bool b) \<Rightarrow> lk_ok b | Some _ \<Rightarrow> lk_wrong_type)"

definition set_string :: "bytes \<Rightarrow> bytes \<Rightarrow> config_file \<Rightarrow> config_file" where
  "set_string key s file = file(key \<mapsto> k_string s)"

definition set_bool :: "bytes \<Rightarrow> bool \<Rightarrow> config_file \<Rightarrow> config_file" where
  "set_bool key b file = file(key \<mapsto> k_bool b)"

definition set_int :: "bytes \<Rightarrow> i64 \<Rightarrow> config_file \<Rightarrow> config_file" where
  "set_int key i file = file(key \<mapsto> k_int i)"

definition set_int_array :: "bytes \<Rightarrow> i64 list \<Rightarrow> config_file \<Rightarrow> config_file" where
  "set_int_array key ints file = file(key \<mapsto> k_int_array ints)"

definition set_other :: "bytes \<Rightarrow> config_file \<Rightarrow> config_file" where
  "set_other key file = file(key \<mapsto> k_other)"

section \<open>The reader\<close>

definition max_input :: nat where "max_input = 65536"
definition max_token :: nat where "max_token = 4096"
definition max_array :: nat where "max_array = 64"
definition max_depth :: nat where "max_depth = 8"

lemmas reader_limits = max_input_def max_token_def max_array_def max_depth_def

text \<open>A helper answers the first error, or what it read and the bytes after it.\<close>

type_synonym 'a parsed = "string + 'a \<times> bytes"

datatype value_node =
    v_string bytes | v_int i64 | v_number | v_bool bool | v_null | v_array "value_node list" | v_object

definition is_digit :: "u8 \<Rightarrow> bool" where "is_digit c \<longleftrightarrow> 0x30 \<le> c \<and> c \<le> 0x39"

definition digit_at :: "bytes \<Rightarrow> bool" where
  "digit_at s \<longleftrightarrow> (case s of [] \<Rightarrow> False | c # _ \<Rightarrow> is_digit c)"

definition is_space :: "u8 \<Rightarrow> bool" where
  "is_space c \<longleftrightarrow> c = 0x20 \<or> c = 0x09 \<or> c = 0x0A \<or> c = 0x0D"

definition skip_ws :: "bytes \<Rightarrow> bytes" where "skip_ws = dropWhile is_space"

fun token_digits :: "u64 \<Rightarrow> u64 \<Rightarrow> bytes \<Rightarrow> u64 option" where
  "token_digits limit so_far [] = Some so_far"
| "token_digits limit so_far (c # cs) =
     (let digit = ucast (c - 0x30) in
      if (limit - digit) div 10 < so_far then None else token_digits limit (so_far * 10 + digit) cs)"

definition int64_min_magnitude :: u64 where "int64_min_magnitude = 9223372036854775808"

definition token_to_i64 :: "bytes \<Rightarrow> i64 option" where
  "token_to_i64 text =
     (let negative = hd text = 0x2D;
          limit = (if negative then int64_min_magnitude else int64_min_magnitude - 1)
      in case token_digits limit 0 (if negative then tl text else text) of
           None \<Rightarrow> None
         | Some magnitude \<Rightarrow>
             Some (if negative then (if magnitude = int64_min_magnitude then 0x8000000000000000 else - magnitude)
                   else magnitude))"

definition append_utf8 :: "u32 \<Rightarrow> bytes" where
  "append_utf8 cp =
     (if cp < 0x80 then [ucast cp]
      else if cp < 0x800 then [ucast (0xC0 OR drop_bit 6 cp), ucast (0x80 OR (cp AND 0x3F))]
      else if cp < 0x10000
      then [ucast (0xE0 OR drop_bit 12 cp), ucast (0x80 OR (drop_bit 6 cp AND 0x3F)), ucast (0x80 OR (cp AND 0x3F))]
      else [ucast (0xF0 OR drop_bit 18 cp), ucast (0x80 OR (drop_bit 12 cp AND 0x3F)),
            ucast (0x80 OR (drop_bit 6 cp AND 0x3F)), ucast (0x80 OR (cp AND 0x3F))])"

definition hex_value :: "u8 \<Rightarrow> u32 option" where
  "hex_value c =
     (if is_digit c then Some (ucast (c - 0x30))
      else if 0x61 \<le> c \<and> c \<le> 0x66 then Some (ucast (c - 0x61) + 10)
      else if 0x41 \<le> c \<and> c \<le> 0x46 then Some (ucast (c - 0x41) + 10)
      else None)"

fun hex4_digits :: "nat \<Rightarrow> u32 \<Rightarrow> bytes \<Rightarrow> u32 option" where
  "hex4_digits 0 so_far s = Some so_far"
| "hex4_digits (Suc k) so_far [] = None"
| "hex4_digits (Suc k) so_far (c # s) =
     (case hex_value c of None \<Rightarrow> None | Some digit \<Rightarrow> hex4_digits k (push_bit 4 so_far OR digit) s)"

definition read_hex4 :: "bytes \<Rightarrow> u32 parsed" where
  "read_hex4 s =
     (if length s < 4 then Inl ''truncated unicode escape''
      else (case hex4_digits 4 0 s of None \<Rightarrow> Inl ''bad unicode escape'' | Some cp \<Rightarrow> Inr (cp, drop 4 s)))"

definition read_u_escape :: "bytes \<Rightarrow> bytes parsed" where
  "read_u_escape s =
     (case read_hex4 s of
        Inl e \<Rightarrow> Inl e
      | Inr (cp, s1) \<Rightarrow>
          if 0xD800 \<le> cp \<and> cp \<le> 0xDBFF then
            (case s1 of
               b # u # s2 \<Rightarrow>
                 if b \<noteq> byte_escape \<or> u \<noteq> 0x75 then Inl ''lone high surrogate''
                 else
                   (case read_hex4 s2 of
                      Inl e \<Rightarrow> Inl e
                    | Inr (low, s3) \<Rightarrow>
                        if low < 0xDC00 \<or> 0xDFFF < low then Inl ''invalid low surrogate''
                        else Inr (append_utf8 (0x10000 + push_bit 10 (cp - 0xD800) + (low - 0xDC00)), s3))
             | _ \<Rightarrow> Inl ''lone high surrogate'')
          else if 0xDC00 \<le> cp \<and> cp \<le> 0xDFFF then Inl ''lone low surrogate''
          else Inr (append_utf8 cp, s1))"

definition escaped_byte :: "u8 \<Rightarrow> u8 option" where
  "escaped_byte e =
     (if e = byte_quote then Some byte_quote
      else if e = byte_escape then Some byte_escape
      else if e = 0x2F then Some 0x2F
      else if e = 0x62 then Some 0x08
      else if e = 0x66 then Some 0x0C
      else if e = 0x6E then Some 0x0A
      else if e = 0x72 then Some 0x0D
      else if e = 0x74 then Some 0x09
      else None)"

text \<open>One pass of the loop of \<^verbatim>\<open>parse_string\<close>: the bytes one character stands for.\<close>

definition string_unit :: "u8 \<Rightarrow> bytes \<Rightarrow> bytes parsed" where
  "string_unit c rest =
     (if c < 0x20 then Inl ''unescaped control character in string''
      else if c \<noteq> byte_escape then
        (if c < 0x80 then Inr ([c], rest)
         else (case decode_utf8 (c # rest) of
                 None \<Rightarrow> Inl ''invalid UTF-8 in string''
               | Some n \<Rightarrow> Inr (take n (c # rest), drop n (c # rest))))
      else
        (case rest of
           [] \<Rightarrow> Inl ''unterminated escape''
         | e # rest' \<Rightarrow>
             (case escaped_byte e of
                Some b \<Rightarrow> Inr ([b], rest')
              | None \<Rightarrow> if e = 0x75 then read_u_escape rest' else Inl ''invalid escape'')))"

lemma read_hex4_shorter: "read_hex4 s = Inr (cp, t) \<Longrightarrow> length t < length s"
  by (auto simp: read_hex4_def split: if_splits option.splits)

lemma read_u_escape_shorter: "read_u_escape s = Inr (bs, t) \<Longrightarrow> length t < length s"
  by (auto simp: read_u_escape_def split: sum.splits if_splits list.splits dest!: read_hex4_shorter)

lemma string_unit_shorter: "string_unit c rest = Inr (bs, t) \<Longrightarrow> length t \<le> length rest"
  by (auto simp: string_unit_def split: if_splits option.splits list.splits
      dest!: read_u_escape_shorter decode_utf8_length(1))

function scan_string :: "nat \<Rightarrow> bytes \<Rightarrow> bytes \<Rightarrow> bytes parsed" where
  "scan_string span out [] = Inl ''unterminated string''"
| "scan_string span out (c # rest) =
     (if c = byte_quote then Inr (out, rest)
      else
        (case string_unit c rest of
           Inl e \<Rightarrow> Inl e
         | Inr (bs, t) \<Rightarrow>
             let span' = span + (length (c # rest) - length t)
             in if max_token < length (out @ bs) \<or> max_token < span' then Inl ''string too long''
                else scan_string span' (out @ bs) t))"
  by pat_completeness auto
termination
  by (relation "measure (\<lambda>(span, out, s). length s)") (auto dest!: string_unit_shorter)

definition parse_string :: "bytes \<Rightarrow> bytes parsed" where
  "parse_string s = scan_string 0 [] (tl s)"

section \<open>Numbers and literals\<close>

definition number_integer :: "bytes \<Rightarrow> string + bytes" where
  "number_integer s =
     (if \<not> digit_at s then Inl ''invalid number''
      else if hd s = 0x30 then (if digit_at (tl s) then Inl ''leading zero in number'' else Inr (tl s))
      else Inr (dropWhile is_digit s))"

definition number_fraction :: "bytes \<Rightarrow> string + (bool \<times> bytes)" where
  "number_fraction s =
     (case s of
        c # s' \<Rightarrow>
          if c \<noteq> 0x2E then Inr (False, s)
          else if \<not> digit_at s' then Inl ''invalid fraction'' else Inr (True, dropWhile is_digit s')
      | [] \<Rightarrow> Inr (False, s))"

definition number_exponent :: "bytes \<Rightarrow> string + (bool \<times> bytes)" where
  "number_exponent s =
     (case s of
        c # s' \<Rightarrow>
          if c \<noteq> 0x65 \<and> c \<noteq> 0x45 then Inr (False, s)
          else
            (let s'' = (case s' of b # t \<Rightarrow> if b = 0x2B \<or> b = 0x2D then t else s' | [] \<Rightarrow> s')
             in if \<not> digit_at s'' then Inl ''invalid exponent'' else Inr (True, dropWhile is_digit s''))
      | [] \<Rightarrow> Inr (False, s))"

definition parse_number :: "bytes \<Rightarrow> value_node parsed" where
  "parse_number s =
     (case number_integer (if hd s = 0x2D then tl s else s) of
        Inl e \<Rightarrow> Inl e
      | Inr s1 \<Rightarrow>
          (case number_fraction s1 of
             Inl e \<Rightarrow> Inl e
           | Inr (fraction, s2) \<Rightarrow>
               (case number_exponent s2 of
                  Inl e \<Rightarrow> Inl e
                | Inr (exponent, s3) \<Rightarrow>
                    let token = take (length s - length s3) s
                    in if max_token < length token then Inl ''number too long''
                       else Inr ((if fraction \<or> exponent then v_number
                                  else (case token_to_i64 token of Some i \<Rightarrow> v_int i | None \<Rightarrow> v_number)), s3))))"

definition parse_literal :: "bytes \<Rightarrow> value_node \<Rightarrow> bytes \<Rightarrow> value_node parsed" where
  "parse_literal literal v s =
     (if take (length literal) s \<noteq> literal then Inl ''invalid literal'' else Inr (v, drop (length literal) s))"

section \<open>Values\<close>

definition quoted_char :: "char \<Rightarrow> string" where "quoted_char c = [CHR 0x27, c, CHR 0x27]"

definition expected :: "char \<Rightarrow> char \<Rightarrow> string" where
  "expected a b = ''expected '' @ quoted_char a @ '' or '' @ quoted_char b"

text \<open>The loops of an array and of an object, over the reader of their values.\<close>

fun array_loop :: "(bytes \<Rightarrow> value_node parsed) \<Rightarrow> nat \<Rightarrow> value_node list \<Rightarrow> bytes \<Rightarrow> value_node list parsed" where
  "array_loop read 0 elements s = Inl ''too many array elements''"
| "array_loop read (Suc k) elements s =
     (case read s of
        Inl e \<Rightarrow> Inl e
      | Inr (element, s1) \<Rightarrow>
          (case skip_ws s1 of
             [] \<Rightarrow> Inl ''unterminated array''
           | c # s2 \<Rightarrow>
               if c = byte_comma then array_loop read k (elements @ [element]) s2
               else if c = byte_close_array then Inr (elements @ [element], s2)
               else Inl (expected CHR '','' CHR '']'')))"

text \<open>\<open>seen\<close> are the members read so far: their names are the \<^verbatim>\<open>seen\<close> set, and the top level collects them.\<close>

fun object_loop ::
  "(bytes \<Rightarrow> value_node parsed) \<Rightarrow> nat \<Rightarrow> (bytes \<times> value_node) list \<Rightarrow> bytes \<Rightarrow> (bytes \<times> value_node) list parsed" where
  "object_loop read 0 seen s = Inl ''out of fuel''"
| "object_loop read (Suc fuel) seen s =
     (case skip_ws s of
        [] \<Rightarrow> Inl ''expected string key''
      | c # _ \<Rightarrow>
          if c \<noteq> byte_quote then Inl ''expected string key''
          else
            (case parse_string (skip_ws s) of
               Inl e \<Rightarrow> Inl e
             | Inr (key, s1) \<Rightarrow>
                 if key \<in> fst ` set seen then Inl ''duplicate key''
                 else
                   (case skip_ws s1 of
                      [] \<Rightarrow> Inl (''expected '' @ quoted_char CHR '':'')
                    | c1 # s2 \<Rightarrow>
                        if c1 \<noteq> byte_colon then Inl (''expected '' @ quoted_char CHR '':'')
                        else
                          (case read s2 of
                             Inl e \<Rightarrow> Inl e
                           | Inr (v, s3) \<Rightarrow>
                               (case skip_ws s3 of
                                  [] \<Rightarrow> Inl ''unterminated object''
                                | c2 # s4 \<Rightarrow>
                                    if c2 = byte_comma then object_loop read fuel (seen @ [(key, v)]) s4
                                    else if c2 = byte_close_object then Inr (seen @ [(key, v)], s4)
                                    else Inl (expected CHR '','' CHR ''}''))))))"

definition parse_array_body :: "(bytes \<Rightarrow> value_node parsed) \<Rightarrow> bytes \<Rightarrow> value_node list parsed" where
  "parse_array_body read s =
     (case skip_ws (tl s) of
        c # s1 \<Rightarrow> if c = byte_close_array then Inr ([], s1) else array_loop read max_array [] (c # s1)
      | [] \<Rightarrow> array_loop read max_array [] [])"

definition parse_object_body :: "(bytes \<Rightarrow> value_node parsed) \<Rightarrow> bytes \<Rightarrow> (bytes \<times> value_node) list parsed" where
  "parse_object_body read s =
     (case skip_ws (tl s) of
        c # s1 \<Rightarrow> if c = byte_close_object then Inr ([], s1) else object_loop read (length s) [] (c # s1)
      | [] \<Rightarrow> object_loop read (length s) [] [])"

text \<open>The nesting still allowed: an opening bracket at none is one too many.\<close>

fun parse_value :: "nat \<Rightarrow> bytes \<Rightarrow> value_node parsed" where
  "parse_value depth s =
     (case skip_ws s of
        [] \<Rightarrow> Inl ''unexpected end of input''
      | c # s1 \<Rightarrow>
          if c = byte_open_object then
            (case depth of
               0 \<Rightarrow> Inl ''nesting too deep''
             | Suc inner \<Rightarrow>
                 (case parse_object_body (parse_value inner) (c # s1) of
                    Inl e \<Rightarrow> Inl e
                  | Inr (members, s2) \<Rightarrow> Inr (v_object, s2)))
          else if c = byte_open_array then
            (case depth of
               0 \<Rightarrow> Inl ''nesting too deep''
             | Suc inner \<Rightarrow>
                 (case parse_array_body (parse_value inner) (c # s1) of
                    Inl e \<Rightarrow> Inl e
                  | Inr (elements, s2) \<Rightarrow> Inr (v_array elements, s2)))
          else if c = byte_quote then
            (case parse_string (c # s1) of Inl e \<Rightarrow> Inl e | Inr (out, s2) \<Rightarrow> Inr (v_string out, s2))
          else if c = 0x2D \<or> is_digit c then parse_number (c # s1)
          else if c = 0x74 then parse_literal text_true (v_bool True) (c # s1)
          else if c = 0x66 then parse_literal text_false (v_bool False) (c # s1)
          else if c = 0x6E then parse_literal text_null v_null (c # s1)
          else Inl ''unexpected character'')"

declare parse_value.simps [simp del]

section \<open>The whole file\<close>

fun node_int :: "value_node \<Rightarrow> i64 option" where
  "node_int (v_int i) = Some i"
| "node_int _ = None"

text \<open>The integers of an array up to its first other element, and whether there is none.\<close>

fun all_ints :: "value_node list \<Rightarrow> i64 list \<times> bool" where
  "all_ints [] = ([], True)"
| "all_ints (v # vs) =
     (case node_int v of None \<Rightarrow> ([], False) | Some i \<Rightarrow> (case all_ints vs of (ints, all) \<Rightarrow> (i # ints, all)))"

fun store :: "config_file \<Rightarrow> bytes \<times> value_node \<Rightarrow> config_file" where
  "store file (key, v_string s) = set_string key s file"
| "store file (key, v_int i) = set_int key i file"
| "store file (key, v_bool b) = set_bool key b file"
| "store file (key, v_array elements) =
     (case all_ints elements of (ints, all) \<Rightarrow> if all then set_int_array key ints file else set_other key file)"
| "store file (key, v_number) = set_other key file"
| "store file (key, v_null) = set_other key file"
| "store file (key, v_object) = set_other key file"

definition byte_order_mark :: bytes where "byte_order_mark = [0xEF, 0xBB, 0xBF]"

definition parse_top :: "bytes \<Rightarrow> string + config_file" where
  "parse_top s =
     (case skip_ws (if take 3 s = byte_order_mark then drop 3 s else s) of
        [] \<Rightarrow> Inl ''top-level value must be an object''
      | c # s1 \<Rightarrow>
          if c \<noteq> byte_open_object then Inl ''top-level value must be an object''
          else
            (case parse_object_body (parse_value (max_depth - 1)) (c # s1) of
               Inl e \<Rightarrow> Inl e
             | Inr (members, s2) \<Rightarrow>
                 if skip_ws s2 \<noteq> [] then Inl ''trailing content after top-level object''
                 else Inr (foldl store Map.empty members)))"

text \<open>The answer is a file or an error; with an error the caller's file is left empty.\<close>

definition parse_config_file :: "bytes \<Rightarrow> string + config_file" where
  "parse_config_file s = (if max_input < length s then Inl ''input too large'' else parse_top s)"

end
