(* ===== verification/Config_Reading.thy ===== *)
theory Config_Reading
  imports Config_File
begin

text \<open>
  The reader of \<^theory_text>\<open>Config_File\<close> never runs out of fuel, and reads back what the writer of
  \<^theory_text>\<open>Json_Writer\<close> writes within the limits of the reader.
\<close>

section \<open>The reader answers\<close>

lemma scan_string_shorter: "scan_string span out s = Inr (bs, t) \<Longrightarrow> length t < length s"
proof (induction span out s rule: scan_string.induct)
  case (2 span out c rest)
  show ?case
  proof (cases "string_unit c rest")
    case (Inl e)
    with 2 show ?thesis by (auto split: if_splits)
  next
    case (Inr p)
    obtain u r where p: "p = (u, r)" by fastforce
    from string_unit_shorter [of c rest u r] Inr p have "length r \<le> length rest" by simp
    with 2 Inr p show ?thesis by (fastforce simp: Let_def split: if_splits)
  qed
qed simp

definition fuel_error :: string where "fuel_error = ''out of fuel''"

definition good_reader :: "(bytes \<Rightarrow> 'a parsed) \<Rightarrow> bool" where
  "good_reader read \<longleftrightarrow> (\<forall>s. (\<forall>v t. read s = Inr (v, t) \<longrightarrow> length t < length s) \<and> read s \<noteq> Inl fuel_error)"

lemma good_readerD:
  assumes "good_reader read"
  shows "read s = Inr (v, t) \<Longrightarrow> length t < length s" "read s \<noteq> Inl fuel_error"
  using assms by (auto simp: good_reader_def)

lemma string_unit_fuel: "string_unit c rest \<noteq> Inl fuel_error"
  by (auto simp: string_unit_def read_u_escape_def read_hex4_def fuel_error_def split: sum.splits option.splits list.splits)

lemma scan_string_fuel: "scan_string span out s \<noteq> Inl fuel_error"
proof (induction span out s rule: scan_string.induct)
  case (2 span out c rest)
  with string_unit_fuel [of c rest] show ?case
    by (auto simp: Let_def fuel_error_def split: sum.splits)
qed (simp add: fuel_error_def)

lemma skip_ws_length: "length (skip_ws s) \<le> length s"
  by (simp add: skip_ws_def length_dropWhile_le)

lemma dropWhile_Cons_length: "dropWhile P s = c # t \<Longrightarrow> length t < length s"
  using length_dropWhile_le [of P s] by simp

lemma dropWhile_less: "P (hd s) \<Longrightarrow> s \<noteq> [] \<Longrightarrow> length (dropWhile P s) < length s"
  by (cases s) (simp_all add: le_imp_less_Suc length_dropWhile_le)

lemma digit_at_iff: "digit_at s \<longleftrightarrow> s \<noteq> [] \<and> is_digit (hd s)"
  by (cases s) (simp_all add: digit_at_def)

lemma number_integer_shorter: "number_integer s = Inr t \<Longrightarrow> length t < length s"
  by (auto simp: number_integer_def digit_at_iff intro: dropWhile_less split: if_splits)

lemma number_fraction_length: "number_fraction s = Inr (b, t) \<Longrightarrow> length t \<le> length s"
  by (auto simp: number_fraction_def intro: le_trans [OF length_dropWhile_le] split: list.splits if_splits)

lemma number_exponent_length: "number_exponent s = Inr (b, t) \<Longrightarrow> length t \<le> length s"
  by (auto simp: number_exponent_def Let_def intro: le_trans [OF length_dropWhile_le] split: list.splits if_splits)

lemma number_parts_fuel:
  "number_integer s \<noteq> Inl fuel_error" "number_fraction s \<noteq> Inl fuel_error" "number_exponent s \<noteq> Inl fuel_error"
  by (auto simp: number_integer_def number_fraction_def number_exponent_def Let_def fuel_error_def split: list.splits)

lemma parse_number_good: "good_reader parse_number"
  unfolding good_reader_def
proof (intro allI conjI impI)
  fix s v t
  assume "parse_number s = Inr (v, t)"
  then obtain s1 b s2 b' where "number_integer (if hd s = 0x2D then tl s else s) = Inr s1" "number_fraction s1 = Inr (b, s2)"
      "number_exponent s2 = Inr (b', t)"
    by (auto simp: parse_number_def Let_def split: sum.splits if_splits)
  from number_integer_shorter [OF this(1)] number_fraction_length [OF this(2)] number_exponent_length [OF this(3)]
  show "length t < length s" by (auto split: if_splits)
next
  fix s
  show "parse_number s \<noteq> Inl fuel_error"
    using number_parts_fuel by (auto simp: parse_number_def Let_def fuel_error_def split: sum.splits)
qed

lemma skip_ws_Cons_length: "skip_ws s = c # t \<Longrightarrow> length t < length s"
  unfolding skip_ws_def by (rule dropWhile_Cons_length)

lemma array_loop_Inr:
  assumes "array_loop read (Suc k) els s = Inr (vs, t)"
  obtains v s1 c s2 where "read s = Inr (v, s1)" "skip_ws s1 = c # s2"
    "c = byte_comma \<and> array_loop read k (els @ [v]) s2 = Inr (vs, t) \<or> vs = els @ [v] \<and> t = s2"
  using assms by (auto split: sum.splits list.splits if_splits)

lemma array_loop_shorter:
  assumes "good_reader read"
  shows "array_loop read k els s = Inr (vs, t) \<Longrightarrow> length t < length s"
proof (induction k arbitrary: els s)
  case (Suc k)
  from Suc.prems obtain v s1 c s2 where 1: "read s = Inr (v, s1)" "skip_ws s1 = c # s2"
    "c = byte_comma \<and> array_loop read k (els @ [v]) s2 = Inr (vs, t) \<or> vs = els @ [v] \<and> t = s2"
    by (rule array_loop_Inr)
  from 1(3) Suc.IH have "length t \<le> length s2" by fastforce
  with good_readerD(1) [OF assms 1(1)] skip_ws_Cons_length [OF 1(2)] show ?case by simp
qed simp

lemma array_loop_fuel:
  assumes "good_reader read" shows "array_loop read k els s \<noteq> Inl fuel_error"
proof (induction k arbitrary: els s)
  case (Suc k)
  with good_readerD(2) [OF assms, of s] show ?case
    by (auto simp: fuel_error_def expected_def split: sum.splits list.splits)
qed (simp add: fuel_error_def)

lemma object_loop_Inr:
  assumes "object_loop read (Suc fuel) seen s = Inr (vs, t)"
  obtains key s1 s2 v s3 c s4 where "parse_string (skip_ws s) = Inr (key, s1)" "skip_ws s1 = byte_colon # s2"
    "read s2 = Inr (v, s3)" "skip_ws s3 = c # s4" "key \<notin> fst ` set seen"
    "c = byte_comma \<and> object_loop read fuel (seen @ [(key, v)]) s4 = Inr (vs, t) \<or> vs = seen @ [(key, v)] \<and> t = s4"
  using assms by (auto split: sum.splits list.splits if_splits)

lemma parse_string_shorter: "parse_string s = Inr (bs, t) \<Longrightarrow> length t < length s"
  using scan_string_shorter [of 0 "[]" "tl s" bs t] by (simp add: parse_string_def)

lemma object_pass_shorter:
  assumes "good_reader read" "parse_string (skip_ws s) = Inr (key, s1)" "skip_ws s1 = byte_colon # s2"
    "read s2 = Inr (v, s3)" "skip_ws s3 = c # s4"
  shows "length s4 < length s"
  using parse_string_shorter [OF assms(2)] skip_ws_length [of s] skip_ws_Cons_length [OF assms(3)]
    good_readerD(1) [OF assms(1,4)] skip_ws_Cons_length [OF assms(5)] by simp

lemma object_loop_shorter:
  assumes "good_reader read"
  shows "object_loop read fuel seen s = Inr (vs, t) \<Longrightarrow> length t < length s"
proof (induction fuel arbitrary: seen s)
  case (Suc fuel)
  from Suc.prems obtain key s1 s2 v s3 c s4 where 1: "parse_string (skip_ws s) = Inr (key, s1)"
    "skip_ws s1 = byte_colon # s2" "read s2 = Inr (v, s3)" "skip_ws s3 = c # s4"
    "c = byte_comma \<and> object_loop read fuel (seen @ [(key, v)]) s4 = Inr (vs, t) \<or> vs = seen @ [(key, v)] \<and> t = s4"
    by (rule object_loop_Inr)
  from 1(5) Suc.IH have "length t \<le> length s4" by fastforce
  with object_pass_shorter [OF assms 1(1-4)] show ?case by simp
qed simp

lemma object_loop_fuel:
  assumes "good_reader read"
  shows "length s < fuel \<Longrightarrow> object_loop read fuel seen s \<noteq> Inl fuel_error"
proof (induction fuel arbitrary: seen s)
  case (Suc fuel)
  have string: "parse_string x \<noteq> Inl fuel_error" for x by (simp add: parse_string_def scan_string_fuel)
  show ?case
  proof
    assume e: "object_loop read (Suc fuel) seen s = Inl fuel_error"
    then obtain key s1 where 1: "parse_string (skip_ws s) = Inr (key, s1)"
      using string [of "skip_ws s"] by (cases "parse_string (skip_ws s)") (auto simp: fuel_error_def split: list.splits if_splits)
    with e obtain s2 where 2: "skip_ws s1 = byte_colon # s2"
      by (auto simp: fuel_error_def quoted_char_def split: list.splits if_splits)
    with e 1 good_readerD(2) [OF assms, of s2] obtain v s3 where 3: "read s2 = Inr (v, s3)"
      by (cases "read s2") (auto simp: fuel_error_def split: list.splits if_splits)
    with e 1 2 obtain c s4 where 4: "skip_ws s3 = c # s4"
      by (cases "skip_ws s3") (auto simp: fuel_error_def split: list.splits if_splits)
    with e 1 2 3 have "object_loop read fuel (seen @ [(key, v)]) s4 = Inl fuel_error"
      by (auto simp: fuel_error_def expected_def split: list.splits if_splits)
    with Suc.IH [of s4] object_pass_shorter [OF assms 1 2 3 4] Suc.prems show False by auto
  qed
qed simp

lemma parse_array_body_good:
  assumes "good_reader read"
  shows "parse_array_body read (c # s) = Inr (vs, t) \<Longrightarrow> length t < length (c # s)"
    "parse_array_body read (c # s) \<noteq> Inl fuel_error"
proof -
  show "length t < length (c # s)" if "parse_array_body read (c # s) = Inr (vs, t)"
    using that array_loop_shorter [OF assms, of max_array "[]" _ vs t] skip_ws_length [of s]
    by (fastforce simp: parse_array_body_def split: list.splits if_splits)
  show "parse_array_body read (c # s) \<noteq> Inl fuel_error"
    using array_loop_fuel [OF assms] by (simp add: parse_array_body_def split: list.splits)
qed

lemma parse_object_body_good:
  assumes "good_reader read"
  shows "parse_object_body read (c # s) = Inr (vs, t) \<Longrightarrow> length t < length (c # s)"
    "parse_object_body read (c # s) \<noteq> Inl fuel_error"
proof -
  show "length t < length (c # s)" if "parse_object_body read (c # s) = Inr (vs, t)"
    using that object_loop_shorter [OF assms, of "length (c # s)" "[]" _ vs t] skip_ws_length [of s]
    by (fastforce simp: parse_object_body_def simp del: object_loop.simps split: list.splits if_splits)
  have "object_loop read (length (c # s)) [] s' \<noteq> Inl fuel_error" if "length s' \<le> length s" for s'
    using that object_loop_fuel [OF assms, of s' "length (c # s)"] by simp
  with skip_ws_length [of s] show "parse_object_body read (c # s) \<noteq> Inl fuel_error"
    by (auto simp: parse_object_body_def simp del: object_loop.simps split: list.splits)
qed

lemma parse_literal_good:
  "parse_literal lit v s = Inr (w, t) \<Longrightarrow> lit \<noteq> [] \<Longrightarrow> s \<noteq> [] \<Longrightarrow> length t < length s"
  "parse_literal lit v s \<noteq> Inl fuel_error"
  by (auto simp: parse_literal_def fuel_error_def split: if_splits)

definition good_result :: "nat \<Rightarrow> 'a parsed \<Rightarrow> bool" where
  "good_result n r \<longleftrightarrow> (\<forall>v t. r = Inr (v, t) \<longrightarrow> length t < n) \<and> r \<noteq> Inl fuel_error"

lemma good_result_map:
  "good_result n r \<Longrightarrow> good_result n (case r of Inl e \<Rightarrow> Inl e | Inr (v, t) \<Rightarrow> Inr (f v, t))"
  by (auto simp: good_result_def split: sum.splits)

lemma good_result_reader: "good_reader read \<Longrightarrow> good_result (length s) (read s)"
  by (simp add: good_result_def good_reader_def)

lemma good_result_string: "good_result (length (c # s)) (parse_string (c # s))"
  using parse_string_shorter [of "c # s"] scan_string_fuel [of 0 "[]" s] by (auto simp: good_result_def parse_string_def)

lemma good_result_literal: "lit \<noteq> [] \<Longrightarrow> good_result (length (c # s)) (parse_literal lit v (c # s))"
  using parse_literal_good [of lit v "c # s"] by (auto simp: good_result_def)

lemma good_result_error: "e \<noteq> fuel_error \<Longrightarrow> good_result n (Inl e)"
  by (simp add: good_result_def)

lemma good_result_bodies:
  assumes "good_reader read"
  shows "good_result (length (c # s)) (parse_array_body read (c # s))"
    and "good_result (length (c # s)) (parse_object_body read (c # s))"
  using parse_array_body_good [OF assms, of c s] parse_object_body_good [OF assms, of c s]
  by (simp_all add: good_result_def)

lemma parse_value_step:
  assumes "\<And>inner. depth = Suc inner \<Longrightarrow> good_reader (parse_value inner)"
  shows "good_result (length s) (parse_value depth s)"
proof (cases "skip_ws s")
  case Nil
  then show ?thesis by (subst parse_value.simps) (simp add: good_result_error fuel_error_def)
next
  case (Cons c s1)
  have nested: "good_result (length (c # s1)) (case depth of 0 \<Rightarrow> Inl ''nesting too deep''
      | Suc inner \<Rightarrow> (case parse_object_body (parse_value inner) (c # s1) of Inl e \<Rightarrow> Inl e | Inr (v, t) \<Rightarrow> Inr (v_object, t)))"
    "good_result (length (c # s1)) (case depth of 0 \<Rightarrow> Inl ''nesting too deep''
      | Suc inner \<Rightarrow> (case parse_array_body (parse_value inner) (c # s1) of Inl e \<Rightarrow> Inl e | Inr (v, t) \<Rightarrow> Inr (v_array v, t)))"
    using assms by (cases depth; simp add: good_result_error fuel_error_def good_result_map good_result_bodies del: list.size)+
  have "good_result (length (c # s1)) (parse_value depth s)"
    by (subst parse_value.simps, simp only: Cons list.case, intro if_split [where P = "good_result _", THEN iffD2] conjI impI)
      (rule nested | simp add: good_result_map good_result_string good_result_reader [OF parse_number_good] good_result_literal
        good_result_error text_true_def text_false_def text_null_def fuel_error_def del: list.size)+
  with skip_ws_length [of s] Cons show ?thesis by (auto simp: good_result_def)
qed

lemma parse_value_good: "good_reader (parse_value depth)"
proof (induction depth)
  case 0
  show ?case using parse_value_step [of 0] by (simp add: good_reader_def good_result_def)
next
  case (Suc depth)
  then show ?case using parse_value_step [of "Suc depth"] by (simp add: good_reader_def good_result_def)
qed

theorem the_reader_answers: "parse_config_file s \<noteq> Inl ''out of fuel''"
proof -
  have "parse_top s \<noteq> Inl fuel_error"
    using parse_object_body_good(2) [OF parse_value_good]
    by (auto simp: parse_top_def fuel_error_def split: list.splits sum.splits)
  then show ?thesis by (simp add: parse_config_file_def fuel_error_def)
qed

end
