(* ===== verification/Config_Roundtrip.thy ===== *)
theory Config_Roundtrip
  imports Config_Reading
begin

text \<open>
  What the writer of \<^theory_text>\<open>Json_Writer\<close> writes within the limits of the reader of \<^theory_text>\<open>Config_File\<close>, that
  reader reads back: texts with what is no UTF-8 replaced, integers as they are.
\<close>

section \<open>Strings\<close>

lemma hex_digits_prefix: "length s = k \<Longrightarrow> hex4_digits k a (s @ t) = hex4_digits k a s"
  by (induction k a s rule: hex4_digits.induct) (auto split: option.splits)

lemma control_escapes:
  "list_all (\<lambda>n. let c = word_of_nat n :: u8 in
      hex4_digits 4 0 (drop 2 (append_u_escape (ucast c))) = Some (ucast c) \<and> append_utf8 (ucast c) = [c] \<and> (ucast c :: u32) < 0x20) [0..<32]"
  by code_simp

lemma control_escape:
  assumes "c < 0x20"
  shows "hex4_digits 4 0 (drop 2 (append_u_escape (ucast c))) = Some (ucast c)" "append_utf8 (ucast c) = [c]" "(ucast c :: u32) < 0x20"
proof -
  from assms have "unat c \<in> set [0..<32]" by (simp add: word_less_nat_alt)
  with control_escapes have "(\<lambda>n. let c = word_of_nat n :: u8 in
      hex4_digits 4 0 (drop 2 (append_u_escape (ucast c))) = Some (ucast c) \<and> append_utf8 (ucast c) = [c] \<and> (ucast c :: u32) < 0x20) (unat c)"
    by (simp only: list_all_iff)
  then show "hex4_digits 4 0 (drop 2 (append_u_escape (ucast c))) = Some (ucast c)" "append_utf8 (ucast c) = [c]" "(ucast c :: u32) < 0x20"
    by (simp_all add: Let_def)
qed

lemma read_control_escape:
  assumes "c < 0x20"
  obtains h where "append_u_escape (ucast c) = byte_escape # 0x75 # h" "\<And>t. read_u_escape (h @ t) = Inr ([c], t)"
proof -
  let ?h = "drop 2 (append_u_escape (ucast c))"
  have h: "append_u_escape (ucast c) = byte_escape # 0x75 # ?h" "length ?h = 4" by (simp_all add: append_u_escape_def)
  have "ucast c < (0x20 :: u32)" using control_escape(3) [OF assms] .
  then have "\<not> 0xD800 \<le> (ucast c :: u32)" "\<not> 0xDC00 \<le> (ucast c :: u32)"
    by (auto simp: not_le intro: less_trans)
  with hex_digits_prefix [OF h(2), of 0] h(2) control_escape [OF assms]
  have "read_u_escape (?h @ t) = Inr ([c], t)" for t by (simp add: read_u_escape_def read_hex4_def)
  with h(1) that show thesis by blast
qed

lemma short_escape_back: "short_escape c = Some e \<Longrightarrow> escaped_byte e = Some c \<and> c < 0x80"
  by (auto simp: short_escape_def escaped_byte_def json_bytes split: if_splits)

text \<open>What one unit reads back as.\<close>

lemma json_unit_read:
  assumes "json_unit c rest = (bs, n)"
  obtains b bs' out where "bs = b # bs'" "b \<noteq> byte_quote" "\<And>t. string_unit b (bs' @ t) = Inr (out, t)"
    "cleaned (c # rest) = out @ cleaned (drop n (c # rest))" "length out \<le> length bs"
proof -
  have ascii: "cleaned (c # rest) = [c] @ cleaned rest" if "c < 0x80"
    using decode_utf8_ascii [OF that, of rest] by (subst cleaned.simps) simp
  show thesis
  proof (cases "short_escape c")
    case (Some e)
    with assms short_escape_back [OF Some] ascii show thesis
      by (intro that [of byte_escape "[e]" "[c]"]) (auto simp: json_unit_def string_unit_def json_bytes)
  next
    case None
    then have plain: "c \<noteq> byte_quote" "c \<noteq> byte_escape" by (auto simp: short_escape_def split: if_splits)
    consider "c < 0x20" | "\<not> c < 0x20" "c < 0x80" | (wide) "\<not> c < 0x80" by blast
    then show thesis
    proof cases
      case 1
      from read_control_escape [OF 1] obtain h where h: "append_u_escape (ucast c) = byte_escape # 0x75 # h"
        "\<And>t. read_u_escape (h @ t) = Inr ([c], t)" by metis
      have "escaped_byte 0x75 = None" "\<not> byte_escape < 0x20" "byte_escape \<noteq> byte_quote"
        by (simp_all add: escaped_byte_def json_bytes)
      moreover have "c < 0x80" using 1 by (rule less_trans) simp
      ultimately show thesis using assms None 1 h ascii
        by (intro that [of byte_escape "0x75 # h" "[c]"])
          (auto simp: json_unit_def string_unit_def append_u_escape_def)
    next
      case 2
      with assms None plain ascii show thesis
        by (intro that [of c "[]" "[c]"]) (auto simp: json_unit_def string_unit_def)
    next
      case wide
      then have c: "\<not> c < 0x20" using less_trans [of c "0x20" "0x80"] by fastforce
      show thesis
      proof (cases "decode_utf8 (c # rest)")
        case (Some k)
        from decode_utf8_length [OF Some] obtain m where k: "k = Suc m" by (cases k) auto
        have "decode_utf8 (c # take m rest @ t) = Some k" for t using decode_utf8_prefix [OF Some, of t] k by simp
        moreover have "length rest \<ge> m" using decode_utf8_length [OF Some] k by simp
        moreover have "cleaned (c # rest) = take k (c # rest) @ cleaned (drop k (c # rest))"
          using Some by (subst cleaned.simps) simp
        ultimately show thesis using assms None wide c plain Some k
          by (intro that [of c "take m rest" "take k (c # rest)"]) (auto simp: json_unit_def string_unit_def)
      next
        case bad: None
        have "cleaned (c # rest) = replacement @ cleaned rest" using bad by (subst cleaned.simps) simp
        moreover have "decode_utf8 (0xEF # 0xBF # 0xBD # t) = Some 3" for t
          using decode_replacement [of t] by (simp add: replacement_def)
        ultimately show thesis using assms None wide c bad
          by (intro that [of "0xEF" "[0xBF, 0xBD]" replacement])
            (auto simp: json_unit_def string_unit_def replacement_def json_bytes)
      qed
    qed
  qed
qed

lemma scan_json_text:
  "length out \<le> span \<Longrightarrow> span + length (json_text s) \<le> max_token \<Longrightarrow>
   scan_string span out (json_text s @ byte_quote # t) = Inr (out @ cleaned s, t)"
proof (induction s arbitrary: span out rule: json_text.induct)
  case 1
  then show ?case by simp
next
  case (2 c rest)
  obtain bs n where u: "json_unit c rest = (bs, n)" by fastforce
  from json_unit_read [OF this] obtain b bs' out' where o: "bs = b # bs'" "b \<noteq> byte_quote"
    "\<And>t. string_unit b (bs' @ t) = Inr (out', t)" "cleaned (c # rest) = out' @ cleaned (drop n (c # rest))"
    "length out' \<le> length bs" by metis
  let ?t = "json_text (drop n (c # rest)) @ byte_quote # t"
  have len: "length bs + length (json_text (drop n (c # rest))) = length (json_text (c # rest))" using u by simp
  have "scan_string (span + length bs) (out @ out') ?t = Inr ((out @ out') @ cleaned (drop n (c # rest)), t)"
    by (rule "2.IH" [OF u [symmetric]]) (use "2.prems" o(5) len in auto)
  moreover have "length (out @ out') \<le> max_token" "span + length bs \<le> max_token"
    using "2.prems" o(5) len by auto
  ultimately show ?case using o u by simp
qed

lemma parse_json_quoted:
  "length (json_text s) \<le> max_token \<Longrightarrow> parse_string (json_quoted s @ t) = Inr (cleaned s, t)"
  using scan_json_text [of "[]" 0 s t] by (simp add: parse_string_def json_quoted_def)

section \<open>Numbers\<close>

lemma digit_word: "r < 10 \<Longrightarrow> is_digit (0x30 + word_of_nat r) \<and> (0x30 + word_of_nat r :: u8) - 0x30 = word_of_nat r"
proof -
  have "list_all (\<lambda>r. is_digit (0x30 + word_of_nat r)) [0..<10]" by code_simp
  then show "r < 10 \<Longrightarrow> ?thesis" by (simp add: list_all_iff)
qed

lemma decimal_digits: "list_all is_digit (decimal_digits n) \<and> decimal_digits n \<noteq> []"
proof (induction n rule: decimal_digits.induct)
  case (1 n)
  then show ?case by (subst (1 2) decimal_digits.simps) (auto simp: digit_word)
qed

lemma decimal_head: "0 < n \<Longrightarrow> hd (decimal_digits n) \<noteq> 0x30"
proof (induction n rule: decimal_digits.induct)
  case (1 n)
  show ?case
  proof (cases "n < 10")
    case True
    have all: "\<forall>r \<in> set [0..<10]. r = 0 \<or> (0x30 + word_of_nat r :: u8) \<noteq> 0x30" by code_simp
    have "(0x30 + word_of_nat n :: u8) \<noteq> 0x30"
      by (rule bspec [OF all, THEN disjE, of n]) (use True "1.prems" in \<open>simp_all only: set_upt atLeastLessThan_iff le0 not_gr0 simp_thms\<close>)
    moreover have "decimal_digits n = [0x30 + word_of_nat n]" using True by (subst decimal_digits.simps) simp
    ultimately show ?thesis by (simp only: list.sel not_False_eq_True)
  next
    case False
    with 1 decimal_digits [of "n div 10"] show ?thesis by (subst decimal_digits.simps) simp
  qed
qed

lemma decimal_length: "n < 10 ^ k \<Longrightarrow> 0 < k \<Longrightarrow> length (decimal_digits n) \<le> k"
proof (induction k arbitrary: n)
  case (Suc k)
  show ?case
  proof (cases "n < 10")
    case False
    with Suc.prems have "n div 10 < 10 ^ k" "0 < k" by (auto simp: less_mult_imp_div_less mult.commute intro: gr0I)
    with Suc.IH False show ?thesis by (subst decimal_digits.simps) simp
  qed (subst decimal_digits.simps, simp)
qed simp

lemma token_digits_append:
  "token_digits limit v (xs @ ys) = (case token_digits limit v xs of None \<Rightarrow> None | Some v' \<Rightarrow> token_digits limit v' ys)"
  by (induction limit v xs rule: token_digits.induct) (simp_all add: Let_def)

lemma token_digit:
  assumes "r < 10" "q \<le> L" "9 \<le> L" "L < 2 ^ 64"
  shows "token_digits (word_of_nat L) (word_of_nat q) [0x30 + word_of_nat r] =
    (if 10 * q + r \<le> L then Some (word_of_nat (10 * q + r)) else None)"
proof -
  have d: "(ucast (word_of_nat r :: u8) :: u64) = word_of_nat r"
  proof -
    have "list_all (\<lambda>r. (ucast (word_of_nat r :: u8) :: u64) = word_of_nat r) [0..<10]" by code_simp
    with assms(1) show ?thesis by (simp add: list_all_iff)
  qed
  have div: "(word_of_nat k :: u64) div 10 = word_of_nat (k div 10)" if "k < 2 ^ 64" for k
    using that by (simp add: word_arith_nat_div unat_of_nat take_bit_nat_eq_self_iff)
  have "(word_of_nat L - word_of_nat r :: u64) = word_of_nat (L - r)" using assms by (simp add: of_nat_diff)
  with div [of "L - r"] assms(4)
  have lim: "(word_of_nat L - word_of_nat r :: u64) div 10 = word_of_nat ((L - r) div 10)" by simp
  have "(word_of_nat ((L - r) div 10) :: u64) < word_of_nat q \<longleftrightarrow> (L - r) div 10 < q"
    using assms by (subst word_less_nat_alt) (simp add: unat_of_nat take_bit_nat_eq_self_iff)
  also have "\<dots> \<longleftrightarrow> \<not> 10 * q + r \<le> L" using assms by linarith
  finally show ?thesis using digit_word [OF assms(1)] d lim by (simp add: Let_def mult.commute)
qed

lemma token_digits_decimal:
  assumes "9 \<le> L" "L < 2 ^ 64"
  shows "token_digits (word_of_nat L) 0 (decimal_digits n) = (if n \<le> L then Some (word_of_nat n) else None)"
proof (induction n rule: decimal_digits.induct)
  case (1 n)
  show ?case
  proof (cases "n < 10")
    case True
    with token_digit [OF True _ assms, of 0] show ?thesis by (subst decimal_digits.simps) simp
  next
    case False
    with 1 have q: "token_digits (word_of_nat L) 0 (decimal_digits (n div 10)) =
        (if n div 10 \<le> L then Some (word_of_nat (n div 10)) else None)" by simp
    have n: "10 * (n div 10) + n mod 10 = n" by simp
    have "\<not> n \<le> L" if "\<not> n div 10 \<le> L" using that by linarith
    with False q token_digit [OF _ _ assms, of "n mod 10" "n div 10"] n show ?thesis
      by (subst decimal_digits.simps) (auto simp: token_digits_append)
  qed
qed

text \<open>Where the writer goes on after a number, no number goes on.\<close>

definition number_ends :: "bytes \<Rightarrow> bool" where
  "number_ends t \<longleftrightarrow> t = [] \<or> \<not> is_digit (hd t) \<and> hd t \<notin> {0x2E, 0x65, 0x45}"

lemma number_ends_parts:
  assumes "number_ends t"
  shows "number_fraction t = Inr (False, t)" "number_exponent t = Inr (False, t)"
    "\<not> digit_at t" "dropWhile is_digit t = t"
  using assms by (auto simp: number_ends_def number_fraction_def number_exponent_def digit_at_iff split: list.splits
      intro: dropWhile_eq_self_iff [THEN iffD2])

lemma number_integer_decimal: "number_ends t \<Longrightarrow> number_integer (decimal_digits n @ t) = Inr t"
proof (cases "n = 0")
  case True
  assume "number_ends t"
  with True show ?thesis
    by (subst decimal_digits.simps) (simp add: number_integer_def number_ends_parts(3), simp add: digit_at_def is_digit_def)
next
  case False
  assume t: "number_ends t"
  from decimal_digits [of n] have "dropWhile is_digit (decimal_digits n @ t) = t" "digit_at (decimal_digits n @ t)" "hd (decimal_digits n @ t) = hd (decimal_digits n)"
    using number_ends_parts(4) [OF t] by (auto simp: dropWhile_append2 list_all_iff digit_at_iff)
  with decimal_head False show ?thesis by (simp add: number_integer_def)
qed

lemma parse_number_text:
  assumes "number_ends t" "neg = [] \<or> neg = [0x2D]" "length (neg @ decimal_digits n) \<le> max_token"
  shows "parse_number (neg @ decimal_digits n @ t) =
    Inr (case token_to_i64 (neg @ decimal_digits n) of Some i \<Rightarrow> v_int i | None \<Rightarrow> v_number, t)"
proof -
  have "hd (decimal_digits n) \<noteq> 0x2D" using decimal_digits [of n] by (cases "decimal_digits n") (auto simp: is_digit_def)
  then have "(if hd (neg @ decimal_digits n @ t) = 0x2D then tl (neg @ decimal_digits n @ t) else neg @ decimal_digits n @ t) = decimal_digits n @ t"
    using assms(2) decimal_digits [of n] by auto
  moreover have "take (length (neg @ decimal_digits n @ t) - length t) (neg @ decimal_digits n @ t) = neg @ decimal_digits n" by simp
  ultimately show ?thesis using assms number_integer_decimal [OF assms(1)] number_ends_parts(1,2) [OF assms(1)]
    unfolding parse_number_def by (simp only: sum.case prod.case Let_def if_False simp_thms) auto
qed

lemma token_positive: "token_to_i64 (decimal_digits n) = (if n < 2 ^ 63 then Some (word_of_nat n) else None)"
proof -
  have "hd (decimal_digits n) \<noteq> 0x2D" using decimal_digits [of n] by (cases "decimal_digits n") (auto simp: is_digit_def)
  moreover have "int64_min_magnitude - 1 = word_of_nat (2 ^ 63 - 1)" by (simp add: int64_min_magnitude_def)
  ultimately show ?thesis using token_digits_decimal [of "2 ^ 63 - 1" n]
    by (auto simp: token_to_i64_def Let_def simp del: of_nat_numeral of_nat_diff)
qed

lemma token_negative: "n \<le> 2 ^ 63 \<Longrightarrow> token_to_i64 (0x2D # decimal_digits n) = Some (- word_of_nat n)"
proof -
  assume n: "n \<le> 2 ^ 63"
  have m: "int64_min_magnitude = word_of_nat (2 ^ 63)" by (simp add: int64_min_magnitude_def)
  have "(0x8000000000000000 :: u64) = - int64_min_magnitude" by (simp add: int64_min_magnitude_def)
  with token_digits_decimal [of "2 ^ 63" n] n show ?thesis
    by (auto simp: token_to_i64_def Let_def m simp del: of_nat_numeral of_nat_power)
qed

lemma decimal_short: "n < 2 ^ 64 \<Longrightarrow> length (decimal_digits n) \<le> 20"
  by (rule decimal_length) simp_all

lemma parse_uint:
  assumes "number_ends t"
  shows "parse_number (decimal_digits (unat (u :: u64)) @ t) = Inr (if unat u < 2 ^ 63 then v_int u else v_number, t)"
proof -
  have "unat u < 2 ^ 64" using unsigned_less [of u] by simp
  from decimal_short [OF this] parse_number_text [OF assms, of "[]" "unat u"] show ?thesis
    by (simp add: reader_limits token_positive)
qed

lemma parse_int:
  assumes "number_ends t" shows "parse_number (signed_decimal (sint (i :: i64)) @ t) = Inr (v_int i, t)"
proof -
  have same: "word_of_int (sint i) = i" by simp
  have i: "- (2 ^ 63) \<le> sint i" "sint i < 2 ^ 63" using sint_ge [of i] sint_lt [of i] by simp_all
  show ?thesis
  proof (cases "sint i < 0")
    case True
    let ?n = "nat (- sint i)"
    have n: "?n \<le> 2 ^ 63" using i by simp
    have "int ?n = - sint i" using True by simp
    then have "word_of_int (int ?n) = (word_of_int (- sint i) :: u64)" by (simp only:)
    then have "(word_of_nat ?n :: u64) = - i" by (simp only: of_int_of_nat_eq of_int_minus same)
    then have "token_to_i64 ([0x2D] @ decimal_digits ?n) = Some i"
      using token_negative [OF n] by (simp only: append_Cons append_Nil minus_minus)
    moreover have "length ([0x2D] @ decimal_digits ?n) \<le> max_token" using decimal_short [of ?n] n by (simp add: reader_limits)
    ultimately show ?thesis using True parse_number_text [OF assms, of "[0x2D]" ?n] by (simp add: signed_decimal_def)
  next
    case False
    let ?n = "nat (sint i)"
    have n: "?n < 2 ^ 63" using i False by simp
    have "int ?n = sint i" using False by simp
    then have "word_of_int (int ?n) = (word_of_int (sint i) :: u64)" by (simp only:)
    then have "(word_of_nat ?n :: u64) = i" by (simp only: of_int_of_nat_eq same)
    then have "token_to_i64 (decimal_digits ?n) = Some i" using token_positive [of ?n] n by (simp only: if_True)
    moreover have "length ([] @ decimal_digits ?n) \<le> max_token" using decimal_short [of ?n] n by (simp add: reader_limits)
    ultimately show ?thesis using False parse_number_text [OF assms, of "[]" ?n] by (simp add: signed_decimal_def)
  qed
qed

section \<open>Documents\<close>

text \<open>What the reader keeps of a document, and which documents are within its limits.\<close>

fun value_of :: "json \<Rightarrow> value_node" where
  "value_of (j_string s) = v_string (cleaned s)"
| "value_of (j_int i) = v_int i"
| "value_of (j_uint u) = (if unat u < 2 ^ 63 then v_int u else v_number)"
| "value_of (j_bool b) = v_bool b"
| "value_of j_null = v_null"
| "value_of (j_array items) = v_array (map value_of items)"
| "value_of (j_object members) = v_object"

definition name_fits :: "bytes \<Rightarrow> bool" where "name_fits s \<longleftrightarrow> length (json_text s) \<le> max_token"

fun reads_back :: "nat \<Rightarrow> json \<Rightarrow> bool" where
  "reads_back depth (j_string s) = name_fits s"
| "reads_back depth (j_array items) = (0 < depth \<and> length items \<le> max_array \<and> list_all (reads_back (depth - 1)) items)"
| "reads_back depth (j_object members) =
     (0 < depth \<and> distinct (map (\<lambda>(name, v). cleaned name) members) \<and>
      list_all (\<lambda>(name, v). name_fits name \<and> reads_back (depth - 1) v) members)"
| "reads_back depth _ = True"

lemma skip_ws_head: "\<not> is_space c \<Longrightarrow> skip_ws (c # s) = c # s"
  by (simp add: skip_ws_def)

lemma brackets_no_space:
  "\<not> is_space byte_comma" "\<not> is_space byte_colon" "\<not> is_space byte_quote" "\<not> is_space byte_close_array"
  "\<not> is_space byte_close_object" "\<not> is_space byte_open_array" "\<not> is_space byte_open_object"
  by (simp_all add: json_bytes is_space_def)

lemma brackets_number_ends:
  "number_ends (byte_comma # t)" "number_ends (byte_close_array # t)" "number_ends (byte_close_object # t)"
  by (simp_all add: number_ends_def json_bytes is_digit_def)

lemma digit_token: "is_digit c \<Longrightarrow> \<not> is_space c \<and> c \<noteq> byte_close_array \<and> c \<noteq> byte_close_object"
  by (auto simp: is_digit_def is_space_def json_bytes)

text \<open>A document starts with a byte that is no space and closes nothing.\<close>

lemma json_render_head:
  obtains c s where "json_render doc = c # s" "\<not> is_space c" "c \<noteq> byte_close_array" "c \<noteq> byte_close_object"
proof -
  have digits: "\<exists>c s. decimal_digits n = c # s \<and> is_digit c" for n
    using decimal_digits [of n] by (cases "decimal_digits n") auto
  have "\<exists>c s. json_render doc = c # s \<and> \<not> is_space c \<and> c \<noteq> byte_close_array \<and> c \<noteq> byte_close_object"
  proof (cases doc)
    case (j_int i)
    with digits [of "nat (sint i)"] show ?thesis
      by (auto simp: signed_decimal_def is_space_def json_bytes is_digit_def)
  next
    case (j_uint u)
    with digits [of "unat u"] show ?thesis by (auto simp: digit_token)
  qed (simp_all add: json_quoted_def text_true_def text_false_def text_null_def is_space_def json_bytes)
  then show thesis using that by blast
qed

lemma parse_value_token:
  assumes "\<not> is_space c" "c \<noteq> byte_open_object" "c \<noteq> byte_open_array"
  shows "parse_value depth (c # s) =
    (if c = byte_quote then (case parse_string (c # s) of Inl e \<Rightarrow> Inl e | Inr (out, s2) \<Rightarrow> Inr (v_string out, s2))
     else if c = 0x2D \<or> is_digit c then parse_number (c # s)
     else if c = 0x74 then parse_literal text_true (v_bool True) (c # s)
     else if c = 0x66 then parse_literal text_false (v_bool False) (c # s)
     else if c = 0x6E then parse_literal text_null v_null (c # s)
     else Inl ''unexpected character'')"
  by (subst parse_value.simps) (simp add: skip_ws_head assms)

lemma parse_value_string:
  "name_fits x \<Longrightarrow> parse_value depth (json_quoted x @ t) = Inr (v_string (cleaned x), t)"
  using parse_json_quoted [of x t] parse_value_token [of byte_quote depth "json_text x @ byte_quote # t"]
  by (simp add: name_fits_def json_quoted_def brackets_no_space) (simp add: json_bytes)

lemma parse_value_number:
  assumes "s = c # s'" "c = 0x2D \<or> is_digit c" shows "parse_value depth (s @ t) = parse_number (s @ t)"
proof -
  have "\<not> is_space c" "c \<noteq> byte_open_object" "c \<noteq> byte_open_array" "c \<noteq> byte_quote"
    using assms(2) by (auto simp: is_space_def is_digit_def json_bytes)
  with assms show ?thesis by (simp add: parse_value_token)
qed

lemma decimal_Cons: obtains c s where "decimal_digits n = c # s" "is_digit c"
  using decimal_digits [of n] by (cases "decimal_digits n") auto

lemma signed_decimal_Cons: obtains c s where "signed_decimal i = c # s" "c = 0x2D \<or> is_digit c"
  using decimal_Cons [of "nat i"] decimal_Cons by (metis signed_decimal_def)

lemma parse_value_literal:
  "parse_value depth (text_true @ t) = Inr (v_bool True, t)"
  "parse_value depth (text_false @ t) = Inr (v_bool False, t)"
  "parse_value depth (text_null @ t) = Inr (v_null, t)"
  by (simp_all add: text_true_def text_false_def text_null_def parse_value_token is_space_def json_bytes is_digit_def
      parse_literal_def)

definition reads :: "nat \<Rightarrow> json \<Rightarrow> bool" where
  "reads depth doc \<longleftrightarrow> (\<forall>t. number_ends t \<longrightarrow> parse_value depth (json_render doc @ t) = Inr (value_of doc, t))"

lemma array_loop_reads:
  assumes "items \<noteq> []" "length items \<le> k" "\<And>doc. doc \<in> set items \<Longrightarrow> reads depth doc"
  shows "array_loop (parse_value depth) k els (commas (map json_render items) @ byte_close_array # t) =
    Inr (els @ map value_of items, t)"
  using assms
proof (induction items arbitrary: k els)
  case (Cons doc items)
  then obtain k' where k: "k = Suc k'" by (cases k) auto
  have doc: "parse_value depth (json_render doc @ byte_close_array # t) = Inr (value_of doc, byte_close_array # t)"
    "parse_value depth (json_render doc @ byte_comma # s) = Inr (value_of doc, byte_comma # s)" for s
    using Cons.prems(3) [of doc] by (simp_all add: reads_def brackets_number_ends)
  show ?case
  proof (cases items)
    case Nil
    with k doc show ?thesis by (simp add: skip_ws_head brackets_no_space) (simp add: json_bytes)
  next
    case (Cons d ds)
    have "array_loop (parse_value depth) k' (els @ [value_of doc]) (commas (map json_render items) @ byte_close_array # t) =
        Inr ((els @ [value_of doc]) @ map value_of items, t)"
      by (rule Cons.IH) (use Cons Cons.prems k in auto)
    with Cons k doc show ?thesis by (simp add: skip_ws_head brackets_no_space)
  qed
qed simp

definition member_of :: "bytes \<times> json \<Rightarrow> bytes \<times> value_node" where
  "member_of m = (cleaned (fst m), value_of (snd m))"

definition member_fits :: "nat \<Rightarrow> bytes \<times> json \<Rightarrow> bool" where
  "member_fits depth m \<longleftrightarrow> name_fits (fst m) \<and> reads depth (snd m)"

lemma object_loop_reads:
  assumes "members \<noteq> []" "length members \<le> fuel" "\<And>m. m \<in> set members \<Longrightarrow> member_fits depth m"
    "distinct (map fst seen @ map (cleaned \<circ> fst) members)"
  shows "object_loop (parse_value depth) fuel seen (commas (map member_text members) @ byte_close_object # t) =
    Inr (seen @ map member_of members, t)"
  using assms
proof (induction members arbitrary: fuel seen)
  case (Cons m members)
  then obtain fuel' where fuel: "fuel = Suc fuel'" by (cases fuel) auto
  obtain name doc where m: "m = (name, doc)" by fastforce
  let ?v = "json_render doc"
  from Cons.prems(3) [of m] m have fits: "name_fits name" "reads depth doc" by (simp_all add: member_fits_def)
  have key: "parse_string (json_quoted name @ byte_colon # s) = Inr (cleaned name, byte_colon # s)" for s
    using fits(1) parse_json_quoted by (simp add: name_fits_def)
  have head: "skip_ws (json_quoted name @ s) = json_quoted name @ s" "hd (json_quoted name @ s) = byte_quote"
    "json_quoted name @ s = byte_quote # tl (json_quoted name @ s)" for s
    by (simp_all add: json_quoted_def skip_ws_head brackets_no_space)
  have new: "cleaned name \<notin> fst ` set seen" using Cons.prems(4) m by auto
  have step: "object_loop (parse_value depth) (Suc fuel') seen (json_quoted name @ byte_colon # ?v @ c # s) =
      (if c = byte_comma then object_loop (parse_value depth) fuel' (seen @ [member_of m]) s
       else if c = byte_close_object then Inr (seen @ [member_of m], s)
       else Inl (expected CHR '','' CHR ''}''))"
    if c: "number_ends (c # s)" "\<not> is_space c" for c s
  proof -
    let ?s = "json_quoted name @ byte_colon # ?v @ c # s"
    have "parse_value depth (?v @ c # s) = Inr (value_of doc, c # s)" using fits(2) c(1) by (simp add: reads_def)
    moreover have "skip_ws ?s = byte_quote # tl ?s" using head(1,3) by metis
    moreover have "parse_string (skip_ws ?s) = Inr (cleaned name, byte_colon # ?v @ c # s)"
      by (simp only: head(1) key)
    ultimately show ?thesis using new c(2)
      by (simp add: skip_ws_head brackets_no_space member_of_def m)
  qed
  show ?case
  proof (cases members)
    case Nil
    with fuel step [of byte_close_object t] m show ?thesis
      by (simp add: member_text_pair brackets_no_space brackets_number_ends) (simp add: json_bytes)
  next
    case (Cons m' ms)
    have "object_loop (parse_value depth) fuel' (seen @ [member_of m]) (commas (map member_text members) @ byte_close_object # t) =
        Inr ((seen @ [member_of m]) @ map member_of members, t)"
      by (rule Cons.IH) (use Cons Cons.prems fuel m in \<open>auto simp: member_of_def\<close>)
    with Cons fuel step [of byte_comma "commas (map member_text members) @ byte_close_object # t"] m show ?thesis
      by (simp add: member_text_pair brackets_no_space brackets_number_ends)
  qed
qed simp

lemma commas_length: "(\<And>t. t \<in> set ts \<Longrightarrow> t \<noteq> []) \<Longrightarrow> length ts \<le> length (commas ts)"
  by (induction ts rule: commas.induct) (auto simp: Suc_le_eq)

lemma commas_head: "ts \<noteq> [] \<Longrightarrow> hd ts = c # s \<Longrightarrow> \<exists>s'. commas ts = c # s'"
  by (cases ts rule: commas.cases) auto

lemma parse_array_body_reads:
  assumes "length items \<le> max_array" "\<And>doc. doc \<in> set items \<Longrightarrow> reads depth doc"
  shows "parse_array_body (parse_value depth) (byte_open_array # commas (map json_render items) @ byte_close_array # t) =
    Inr (map value_of items, t)"
proof (cases items)
  case Nil
  then show ?thesis by (simp add: parse_array_body_def skip_ws_head brackets_no_space)
next
  case (Cons doc ds)
  from json_render_head [of doc] obtain c s where c: "json_render doc = c # s" "\<not> is_space c" "c \<noteq> byte_close_array" by metis
  with commas_head [of "map json_render items" c s] Cons obtain s' where s': "commas (map json_render items) = c # s'" by auto
  have "array_loop (parse_value depth) max_array [] (commas (map json_render items) @ byte_close_array # t) =
      Inr ([] @ map value_of items, t)"
    by (rule array_loop_reads) (use assms Cons in auto)
  with s' c show ?thesis by (simp add: parse_array_body_def skip_ws_head)
qed

lemma parse_object_body_reads:
  assumes "distinct (map (cleaned \<circ> fst) members)" "\<And>m. m \<in> set members \<Longrightarrow> member_fits depth m"
  shows "parse_object_body (parse_value depth) (byte_open_object # commas (map member_text members) @ byte_close_object # t) =
    Inr (map member_of members, t)"
proof (cases members)
  case Nil
  then show ?thesis by (simp add: parse_object_body_def skip_ws_head brackets_no_space)
next
  case (Cons m ms)
  have texts: "t \<noteq> []" if "t \<in> set (map member_text members)" for t
    using that by (auto simp: member_text_def json_quoted_def)
  have "hd (map member_text members) = byte_quote # tl (member_text m)"
    using Cons by (simp add: member_text_def json_quoted_def)
  with commas_head [of "map member_text members"] Cons obtain s' where
    s': "commas (map member_text members) = byte_quote # s'" by fastforce
  have len: "length members \<le> length (commas (map member_text members))"
    using commas_length [of "map member_text members", OF texts] by simp
  let ?s = "byte_open_object # commas (map member_text members) @ byte_close_object # t"
  have "object_loop (parse_value depth) (length ?s) [] (commas (map member_text members) @ byte_close_object # t) =
      Inr ([] @ map member_of members, t)"
    by (rule object_loop_reads) (use assms Cons len in auto)
  with s' show ?thesis
    by (simp add: parse_object_body_def skip_ws_head brackets_no_space del: object_loop.simps) (simp add: json_bytes)
qed

lemma doc_reads: "reads_back depth doc \<Longrightarrow> reads depth doc"
proof (induction doc arbitrary: depth)
  case (j_string s)
  then show ?case by (simp add: reads_def parse_value_string)
next
  case (j_int i)
  show ?case unfolding reads_def
  proof (intro allI impI)
    fix t assume t: "number_ends t"
    from signed_decimal_Cons [of "sint i"] obtain c s where "signed_decimal (sint i) = c # s" "c = 0x2D \<or> is_digit c" by metis
    from parse_value_number [OF this] parse_int [OF t]
    show "parse_value depth (json_render (j_int i) @ t) = Inr (value_of (j_int i), t)" by simp
  qed
next
  case (j_uint u)
  show ?case unfolding reads_def
  proof (intro allI impI)
    fix t assume t: "number_ends t"
    from decimal_Cons [of "unat u"] obtain c s where "decimal_digits (unat u) = c # s" "c = 0x2D \<or> is_digit c" by metis
    from parse_value_number [OF this] parse_uint [OF t]
    show "parse_value depth (json_render (j_uint u) @ t) = Inr (value_of (j_uint u), t)" by simp
  qed
next
  case (j_bool b)
  then show ?case by (simp add: reads_def parse_value_literal)
next
  case j_null
  then show ?case by (simp add: reads_def parse_value_literal)
next
  case (j_array items)
  from j_array.prems obtain inner where d: "depth = Suc inner" "length items \<le> max_array" "list_all (reads_back inner) items"
    by (cases depth) auto
  with j_array.IH have "reads inner doc" if "doc \<in> set items" for doc using that by (auto simp: list_all_iff)
  from parse_array_body_reads [OF d(2) this] d(1) show ?case
    by (auto simp: reads_def parse_value.simps [of "Suc inner"] skip_ws_head brackets_no_space) (simp_all add: json_bytes)
next
  case (j_object members)
  from j_object.prems obtain inner where d: "depth = Suc inner" "distinct (map (cleaned \<circ> fst) members)"
    "list_all (\<lambda>m. name_fits (fst m) \<and> reads_back inner (snd m)) members"
    by (cases depth) (auto simp: case_prod_beta' comp_def)
  with j_object.IH have "member_fits inner m" if "m \<in> set members" for m
    using that by (cases m) (fastforce simp: list_all_iff member_fits_def)
  from parse_object_body_reads [OF d(2) this] d(1) show ?case
    by (auto simp: reads_def parse_value.simps [of "Suc inner"] skip_ws_head brackets_no_space json_render_member
        simp del: json_render.simps)
qed

section \<open>The round trip\<close>

text \<open>What the configuration keeps of a top-level value.\<close>

fun int_of :: "json \<Rightarrow> i64 option" where
  "int_of (j_int i) = Some i"
| "int_of (j_uint u) = (if unat u < 2 ^ 63 then Some u else None)"
| "int_of _ = None"

fun node_of :: "json \<Rightarrow> config_node" where
  "node_of (j_string s) = k_string (cleaned s)"
| "node_of (j_bool b) = k_bool b"
| "node_of (j_array items) = (case those (map int_of items) of Some ints \<Rightarrow> k_int_array ints | None \<Rightarrow> k_other)"
| "node_of v = (case int_of v of Some i \<Rightarrow> k_int i | None \<Rightarrow> k_other)"

definition written_config :: "(bytes \<times> json) list \<Rightarrow> config_file" where
  "written_config members = map_of (map (\<lambda>(name, v). (cleaned name, node_of v)) members)"

lemma node_int_value: "node_int (value_of v) = int_of v"
  by (cases v) simp_all

lemma all_ints_those:
  "all_ints (map value_of items) = (ints, all) \<Longrightarrow> those (map int_of items) = (if all then Some ints else None)"
  by (induction items arbitrary: ints all) (auto simp: node_int_value split: option.splits prod.splits if_splits)

lemma store_value: "store f (key, value_of v) = f(key \<mapsto> node_of v)"
  by (cases v)
    (auto simp: set_string_def set_int_def set_bool_def set_int_array_def set_other_def
      dest: all_ints_those split: prod.splits if_splits)

lemma foldl_store:
  "distinct (map (cleaned \<circ> fst) members) \<Longrightarrow> foldl store f (map member_of members) = f ++ written_config members"
proof (induction members arbitrary: f)
  case (Cons m members)
  obtain name v where m: "m = (name, v)" by fastforce
  from Cons.prems m have "cleaned name \<notin> dom (written_config members)"
    by (auto simp: written_config_def dom_map_of_conv_image_fst case_prod_beta' image_image)
  with Cons m show ?case
    by (simp add: store_value member_of_def map_add_upd_left written_config_def del: fun_upd_apply)
qed (simp add: written_config_def)

text \<open>C21. The reader and the writer agree.  What the writer writes for an object whose names differ once
  cleaned, with texts, arrays and nesting within the limits of the reader, is read back: each
  top-level name, cleaned as the writer cleans text, holds what its value reduces to, which is the
  cleaned text, the integer where 64 signed bits hold it, the boolean, the integers of an array of
  such integers, and otherwise a value of another type.\<close>

theorem config_roundtrip:
  assumes "reads_back max_depth (j_object members)" "length (json_render (j_object members)) \<le> max_input"
  shows "parse_config_file (jw_out (json_run 0 (json_calls (j_object members)))) = Inr (written_config members)"
proof -
  let ?text = "json_render (j_object members)"
  have out: "jw_out (json_run 0 (json_calls (j_object members))) = ?text" by (rule json_complete(2)) simp
  from assms(1) have d: "distinct (map (cleaned \<circ> fst) members)"
    and fits: "\<And>m. m \<in> set members \<Longrightarrow> member_fits (max_depth - 1) m"
    by (auto simp: case_prod_beta' comp_def list_all_iff member_fits_def intro: doc_reads)
  have whole: "?text = byte_open_object # commas (map member_text members) @ [byte_close_object]"
    by (rule json_render_member)
  have "take 3 ?text \<noteq> byte_order_mark" by (simp add: whole byte_order_mark_def json_bytes del: json_render.simps)
  with parse_object_body_reads [OF d fits, of "[]"] foldl_store [OF d, of Map.empty]
  have "parse_top ?text = Inr (written_config members)"
    by (simp add: parse_top_def whole skip_ws_head brackets_no_space del: json_render.simps) (simp add: skip_ws_def)
  with assms(2) show ?thesis by (simp only: parse_config_file_def out not_le) simp
qed

lemma two_names: "json_text [0x61] = [0x61]" "json_text [0x62] = [0x62]" "cleaned [0x61] = [0x61]" "cleaned [0x62] = [0x62]"
  by (simp_all add: json_unit_def short_escape_def json_bytes decode_utf8_def cleaned.simps [of "[0x61]"] cleaned.simps [of "[0x62]"])

theorem config_roundtrip_witness:
  "parse_config_file (jw_out (json_run 0 (json_calls (j_object [([0x61], j_array [j_int 5, j_int 7]), ([0x62], j_null)])))) =
   Inr (written_config [([0x61], j_array [j_int 5, j_int 7]), ([0x62], j_null)])"
proof (rule config_roundtrip)
  show "reads_back max_depth (j_object [([0x61], j_array [j_int 5, j_int 7]), ([0x62], j_null)])"
    by (simp add: name_fits_def two_names reader_limits del: json_text.simps)
  show "length (json_render (j_object [([0x61], j_array [j_int 5, j_int 7]), ([0x62], j_null)])) \<le> max_input"
    by (simp add: json_quoted_def two_names reader_limits signed_decimal_def decimal_digits.simps text_null_def
        del: json_text.simps)
qed

end
