(* ===== verification/Config.thy ===== *)
theory Config
  imports Config_Roundtrip
begin

text \<open>
  \<^verbatim>\<open>core/config.cpp\<close> and \<^verbatim>\<open>core/system_config_source.cpp\<close>: the configuration of a run, resolved field by
  field from the environment, the parsed file and the defaults.  What the operating system answers is an
  argument: the environment, the bounded read of a file, and which paths are absolute.
\<close>

section \<open>The resolved configuration\<close>

datatype trace_level = tl_off | tl_errors | tl_lifecycle | tl_full

datatype log_level = ll_off | ll_fatal | ll_error | ll_warn | ll_info | ll_debug | ll_trace

record discovery_range =
  dr_first :: u16
  dr_last :: u16

record config_diagnostic =
  cd_field :: string
  cd_source :: string
  cd_reason :: string
  cd_action :: string
  cd_message :: string

record resolved_config =
  rc_display_name :: bytes
  rc_data_dir :: bytes
  rc_run_dir :: bytes
  rc_trace_dir :: bytes
  rc_level :: trace_level
  rc_trace_max_bytes :: u64
  rc_trace_max_rotated_files :: u32
  rc_discovery_ports :: discovery_range
  rc_instance_label :: bytes
  rc_locale :: bytes
  rc_logging :: log_level
  rc_enable_lan :: bool
  rc_enable_overlay :: bool
  rc_unlock_dlcs :: bool
  rc_diagnostics :: "config_diagnostic list"

text \<open>The interface \<^verbatim>\<open>config_source\<close>, one look-up per method.\<close>

record config_source =
  cs_env :: "string \<Rightarrow> bytes option"
  cs_file_string :: "string \<Rightarrow> bytes lookup"
  cs_file_int :: "string \<Rightarrow> i64 lookup"
  cs_file_int_pair :: "string \<Rightarrow> (i64 \<times> i64) lookup"
  cs_file_bool :: "string \<Rightarrow> bool lookup"

record config_defaults =
  df_data_dir :: bytes
  df_default_ports :: discovery_range

section \<open>Values\<close>

definition default_max_bytes :: u64 where "default_max_bytes = 67108864"
definition min_max_bytes :: u64 where "min_max_bytes = 65536"
definition max_max_bytes :: u64 where "max_max_bytes = 1073741824"
definition default_rotated :: u32 where "default_rotated = 8"
definition max_rotated :: u32 where "max_rotated = 64"
definition max_display_chars :: nat where "max_display_chars = 16"
definition max_display_bytes :: nat where "max_display_bytes = 64"
definition max_label_chars :: nat where "max_label_chars = 32"
definition max_port :: int where "max_port = 65535"
definition max_port_span :: int where "max_port_span = 64"
definition max_locale_chars :: nat where "max_locale_chars = 16"

lemmas config_limits = default_max_bytes_def min_max_bytes_def max_max_bytes_def default_rotated_def max_rotated_def
  max_display_chars_def max_display_bytes_def max_label_chars_def max_port_def max_port_span_def max_locale_chars_def

definition is_upper :: "u8 \<Rightarrow> bool" where "is_upper c \<longleftrightarrow> 0x41 \<le> c \<and> c \<le> 0x5A"
definition is_lower :: "u8 \<Rightarrow> bool" where "is_lower c \<longleftrightarrow> 0x61 \<le> c \<and> c \<le> 0x7A"

definition lowered :: "bytes \<Rightarrow> bytes" where
  "lowered = map (\<lambda>c. if is_upper c then c - 0x41 + 0x61 else c)"

text \<open>Words of the configuration, as the bytes of their ASCII spelling.\<close>

abbreviation ascii :: "string \<Rightarrow> bytes" where "ascii \<equiv> bytes_of_string"

definition parse_flag_text :: "bytes \<Rightarrow> bool option" where
  "parse_flag_text text =
     (let value = lowered text in
      if value \<in> {ascii ''true'', ascii ''1'', ascii ''yes'', ascii ''on''} then Some True
      else if value \<in> {ascii ''false'', ascii ''0'', ascii ''no'', ascii ''off''} then Some False
      else None)"

definition parse_log_level :: "bytes \<Rightarrow> log_level option" where
  "parse_log_level text =
     (let value = lowered text in
      if value = ascii ''off'' then Some ll_off
      else if value = ascii ''fatal'' then Some ll_fatal
      else if value = ascii ''err'' \<or> value = ascii ''error'' then Some ll_error
      else if value = ascii ''warn'' \<or> value = ascii ''warning'' then Some ll_warn
      else if value = ascii ''info'' then Some ll_info
      else if value = ascii ''debug'' then Some ll_debug
      else if value = ascii ''trace'' then Some ll_trace
      else None)"

definition valid_locale :: "bytes \<Rightarrow> bool" where
  "valid_locale text \<longleftrightarrow>
     text \<noteq> [] \<and> length text \<le> max_locale_chars \<and>
     list_all (\<lambda>c. is_lower c \<or> is_upper c \<or> c = 0x2D \<or> c = 0x5F) text"

fun parse_digits :: "i64 \<Rightarrow> bytes \<Rightarrow> i64 option" where
  "parse_digits value [] = Some value"
| "parse_digits value (c # cs) =
     (if \<not> is_digit c then None
      else
        (let digit = ucast (c - 0x30) in
         if (sint (0x7FFFFFFFFFFFFFFF :: i64) - sint digit) div 10 < sint value then None
         else parse_digits (value * 10 + digit) cs))"

definition parse_int :: "bytes \<Rightarrow> i64 option" where
  "parse_int text =
     (case text of
        [] \<Rightarrow> None
      | c # cs \<Rightarrow>
          if c = 0x2D then (if cs = [] then None else map_option uminus (parse_digits 0 cs))
          else parse_digits 0 text)"

definition has_nul :: "bytes \<Rightarrow> bool" where "has_nul text \<longleftrightarrow> 0 \<in> set text"

definition text_reject_reason :: "bytes \<Rightarrow> string option" where
  "text_reject_reason text =
     (if has_nul text then Some ''embedded NUL''
      else if \<not> utf8_valid text then Some ''invalid UTF-8''
      else None)"

definition path_reject_reason :: "bytes \<Rightarrow> string option" where
  "path_reject_reason text = (if has_nul text then Some ''embedded NUL'' else None)"

definition lead_length :: "u8 \<Rightarrow> nat" where
  "lead_length lead = (if 0xF0 \<le> lead then 4 else if 0xE0 \<le> lead then 3 else if 0xC0 \<le> lead then 2 else 1)"

text \<open>With so many characters and bytes still allowed.\<close>

fun utf8_truncate :: "nat \<Rightarrow> nat \<Rightarrow> bytes \<Rightarrow> bytes" where
  "utf8_truncate 0 max_bytes s = []"
| "utf8_truncate (Suc chars) max_bytes [] = []"
| "utf8_truncate (Suc chars) max_bytes (lead # rest) =
     (let n = lead_length lead in
      if max_bytes < n \<or> length (lead # rest) < n then []
      else take n (lead # rest) @ utf8_truncate chars (max_bytes - n) (drop n (lead # rest)))"

definition valid_label :: "bytes \<Rightarrow> bool" where
  "valid_label label \<longleftrightarrow>
     label \<noteq> [] \<and> length label \<le> max_label_chars \<and> label \<noteq> ascii ''.'' \<and> label \<noteq> ascii ''..'' \<and>
     list_all (\<lambda>c. is_upper c \<or> is_lower c \<or> is_digit c \<or> c = 0x2E \<or> c = 0x5F \<or> c = 0x2D) label"

definition parse_level :: "bytes \<Rightarrow> trace_level option" where
  "parse_level text =
     (if text = ascii ''off'' then Some tl_off
      else if text = ascii ''errors'' then Some tl_errors
      else if text = ascii ''lifecycle'' then Some tl_lifecycle
      else if text = ascii ''full'' then Some tl_full
      else None)"

definition parse_port_range :: "bytes \<Rightarrow> (i64 \<times> i64) option" where
  "parse_port_range text =
     (let first = takeWhile (\<lambda>c. c \<noteq> 0x2D) text; dash = length first in
      if first = text \<or> dash = 0 \<or> length text \<le> dash + 1 then None
      else
        (case parse_int (take dash text) of
           None \<Rightarrow> None
         | Some a \<Rightarrow> (case parse_int (drop (dash + 1) text) of None \<Rightarrow> None | Some b \<Rightarrow> Some (a, b))))"

definition valid_ports :: "i64 \<Rightarrow> i64 \<Rightarrow> discovery_range option" where
  "valid_ports a b =
     (if sint a \<le> 0 \<or> sint b \<le> 0 \<or> max_port < sint a \<or> max_port < sint b \<or> sint b < sint a \<or>
         max_port_span < sint b - sint a + 1
      then None
      else Some \<lparr>dr_first = ucast a, dr_last = ucast b\<rparr>)"

definition env_ports :: "bytes \<Rightarrow> discovery_range option" where
  "env_ports raw = (case parse_port_range raw of None \<Rightarrow> None | Some (a, b) \<Rightarrow> valid_ports a b)"

section \<open>One field after the other\<close>

definition env_value :: "config_source \<Rightarrow> string \<Rightarrow> bytes option" where
  "env_value source name =
     (case cs_env source name of None \<Rightarrow> None | Some value \<Rightarrow> if value = [] then None else Some value)"

definition add_diag :: "string \<Rightarrow> string \<Rightarrow> string \<Rightarrow> string \<Rightarrow> resolved_config \<Rightarrow> resolved_config" where
  "add_diag field origin reason action config =
     config\<lparr>rc_diagnostics := rc_diagnostics config @
       [\<lparr>cd_field = field, cd_source = origin, cd_reason = reason, cd_action = action, cd_message = []\<rparr>]\<rparr>"

definition clamp_bytes :: "i64 \<Rightarrow> string \<Rightarrow> resolved_config \<Rightarrow> u64 \<times> resolved_config" where
  "clamp_bytes value origin config =
     (if sint value < sint min_max_bytes
      then (min_max_bytes, add_diag ''trace_max_bytes'' origin ''below minimum'' ''clamped'' config)
      else if max_max_bytes < value
      then (max_max_bytes, add_diag ''trace_max_bytes'' origin ''above maximum'' ''clamped'' config)
      else (value, config))"

definition clamp_rotated :: "i64 \<Rightarrow> string \<Rightarrow> resolved_config \<Rightarrow> u32 \<times> resolved_config" where
  "clamp_rotated value origin config =
     (if sint value < 0 then (0, add_diag ''trace_max_rotated_files'' origin ''negative'' ''clamped'' config)
      else if sint (ucast max_rotated :: i64) < sint value
      then (max_rotated, add_diag ''trace_max_rotated_files'' origin ''above maximum'' ''clamped'' config)
      else (ucast value, config))"

text \<open>
  A candidate carries the layer it came from.  A step of the resolution gives the candidate of a layer, or
  none, and the configuration with what it had to say about that layer.
\<close>

type_synonym 'a found = "(string \<times> 'a) option \<times> resolved_config"

definition ignored :: "string \<Rightarrow> string \<Rightarrow> string \<Rightarrow> resolved_config \<Rightarrow> 'a found" where
  "ignored field origin reason config = (None, add_diag field origin reason ''ignored'' config)"

definition or_else :: "'a found \<Rightarrow> (resolved_config \<Rightarrow> 'a found) \<Rightarrow> 'a found" where
  "or_else candidate next_layer =
     (case candidate of (None, config) \<Rightarrow> next_layer config | (Some c, config) \<Rightarrow> (Some c, config))"

text \<open>Taking a candidate into its field.\<close>

definition take_found :: "('a \<Rightarrow> resolved_config \<Rightarrow> resolved_config) \<Rightarrow> 'a found \<Rightarrow> resolved_config" where
  "take_found set_field r = (case r of (None, c) \<Rightarrow> c | (Some (used, v), c) \<Rightarrow> set_field v c)"

text \<open>A spelling of ours, then the one other emulators use.\<close>

definition file_string_alias :: "config_source \<Rightarrow> string \<Rightarrow> string \<Rightarrow> bytes lookup" where
  "file_string_alias source key alias =
     (case cs_file_string source key of lk_missing \<Rightarrow> cs_file_string source alias | answer \<Rightarrow> answer)"

definition display_name_layers :: "config_source \<Rightarrow> resolved_config \<Rightarrow> bytes found" where
  "display_name_layers source config =
     or_else
       (case env_value source ''EOSR_DISPLAY_NAME'' of
           None \<Rightarrow> (None, config)
         | Some raw \<Rightarrow>
             (case text_reject_reason raw of
                None \<Rightarrow> (Some (''environment'', raw), config)
              | Some bad \<Rightarrow> ignored ''display_name'' ''environment'' bad config))
        (\<lambda>config. case file_string_alias source ''display_name'' ''username'' of
           lk_ok raw \<Rightarrow>
             if raw = [] then (None, config)
             else (case text_reject_reason raw of
                     None \<Rightarrow> (Some (''file'', raw), config)
                   | Some bad \<Rightarrow> ignored ''display_name'' ''file'' bad config)
         | lk_wrong_type \<Rightarrow> ignored ''display_name'' ''file'' ''wrong type'' config
         | lk_missing \<Rightarrow> (None, config))"

definition resolve_display_name :: "config_source \<Rightarrow> resolved_config \<Rightarrow> resolved_config" where
  "resolve_display_name source config =
     (case display_name_layers source config of
        (None, config) \<Rightarrow> config
      | (Some (used, candidate), config) \<Rightarrow>
          let bounded = utf8_truncate max_display_chars max_display_bytes candidate
          in (if length bounded \<noteq> length candidate
              then add_diag ''display_name'' used ''exceeds length cap'' ''truncated'' config
              else config)\<lparr>rc_display_name := bounded\<rparr>)"

definition trace_level_layers :: "config_source \<Rightarrow> resolved_config \<Rightarrow> trace_level found" where
  "trace_level_layers source config =
     or_else
       (case env_value source ''EOSR_TRACE'' of
          None \<Rightarrow> (None, config)
        | Some raw \<Rightarrow>
            (case parse_level raw of
               Some level \<Rightarrow> (Some (''environment'', level), config)
             | None \<Rightarrow> ignored ''trace_level'' ''environment'' ''unrecognized value'' config))
       (\<lambda>config. case cs_file_string source ''trace_level'' of
          lk_ok raw \<Rightarrow>
            (case parse_level raw of
               Some level \<Rightarrow> (Some (''file'', level), config)
             | None \<Rightarrow> ignored ''trace_level'' ''file'' ''unrecognized value'' config)
        | lk_wrong_type \<Rightarrow> ignored ''trace_level'' ''file'' ''wrong type'' config
        | lk_missing \<Rightarrow> (None, config))"

definition resolve_trace_level :: "config_source \<Rightarrow> resolved_config \<Rightarrow> resolved_config" where
  "resolve_trace_level source config =
     take_found (\<lambda>v config. config\<lparr>rc_level := v\<rparr>) (trace_level_layers source config)"

text \<open>The two integers of the trace have the same layers.\<close>

definition integer_layers :: "config_source \<Rightarrow> string \<Rightarrow> string \<Rightarrow> resolved_config \<Rightarrow> i64 found" where
  "integer_layers source variable field config =
     or_else
       (case env_value source variable of
          None \<Rightarrow> (None, config)
        | Some raw \<Rightarrow>
            (case parse_int raw of
               Some i \<Rightarrow> (Some (''environment'', i), config)
             | None \<Rightarrow> ignored field ''environment'' ''not an integer'' config))
       (\<lambda>config. case cs_file_int source field of
          lk_ok i \<Rightarrow> (Some (''file'', i), config)
        | lk_wrong_type \<Rightarrow> ignored field ''file'' ''wrong type'' config
        | lk_missing \<Rightarrow> (None, config))"

definition resolve_trace_max_bytes :: "config_source \<Rightarrow> resolved_config \<Rightarrow> resolved_config" where
  "resolve_trace_max_bytes source config =
     (case integer_layers source ''EOSR_TRACE_MAX_BYTES'' ''trace_max_bytes'' config of
        (None, config) \<Rightarrow> config
      | (Some (used, i), config) \<Rightarrow>
          (case clamp_bytes i used config of (n, config) \<Rightarrow> config\<lparr>rc_trace_max_bytes := n\<rparr>))"

definition resolve_trace_max_rotated_files :: "config_source \<Rightarrow> resolved_config \<Rightarrow> resolved_config" where
  "resolve_trace_max_rotated_files source config =
     (case integer_layers source ''EOSR_TRACE_MAX_ROTATED'' ''trace_max_rotated_files'' config of
        (None, config) \<Rightarrow> config
      | (Some (used, i), config) \<Rightarrow>
          (case clamp_rotated i used config of (n, config) \<Rightarrow> config\<lparr>rc_trace_max_rotated_files := n\<rparr>))"

definition discovery_ports_layers :: "config_source \<Rightarrow> resolved_config \<Rightarrow> discovery_range found" where
  "discovery_ports_layers source config =
     or_else
       (case env_value source ''EOSR_DISCOVERY_PORTS'' of
          None \<Rightarrow> (None, config)
        | Some raw \<Rightarrow>
            (case env_ports raw of
               Some ports \<Rightarrow> (Some (''environment'', ports), config)
             | None \<Rightarrow> ignored ''discovery_ports'' ''environment'' ''invalid range'' config))
       (\<lambda>config. case cs_file_int_pair source ''discovery_ports'' of
          lk_ok (a, b) \<Rightarrow>
            (case valid_ports a b of
               Some ports \<Rightarrow> (Some (''file'', ports), config)
             | None \<Rightarrow> ignored ''discovery_ports'' ''file'' ''invalid range'' config)
        | lk_wrong_type \<Rightarrow> ignored ''discovery_ports'' ''file'' ''wrong type'' config
        | lk_missing \<Rightarrow> (None, config))"

definition resolve_discovery_ports :: "config_source \<Rightarrow> resolved_config \<Rightarrow> resolved_config" where
  "resolve_discovery_ports source config =
     take_found (\<lambda>v config. config\<lparr>rc_discovery_ports := v\<rparr>) (discovery_ports_layers source config)"

definition instance_label_layers :: "config_source \<Rightarrow> resolved_config \<Rightarrow> bytes found" where
  "instance_label_layers source config =
     or_else
       (case env_value source ''EOSR_INSTANCE_LABEL'' of
          None \<Rightarrow> (None, config)
        | Some raw \<Rightarrow>
            if valid_label raw then (Some (''environment'', raw), config)
            else ignored ''instance_label'' ''environment'' ''not a path-safe slug'' config)
       (\<lambda>config. case cs_file_string source ''instance_label'' of
          lk_ok raw \<Rightarrow>
            if raw = [] then (None, config)
            else if valid_label raw then (Some (''file'', raw), config)
            else ignored ''instance_label'' ''file'' ''not a path-safe slug'' config
        | lk_wrong_type \<Rightarrow> ignored ''instance_label'' ''file'' ''wrong type'' config
        | lk_missing \<Rightarrow> (None, config))"

definition resolve_instance_label :: "config_source \<Rightarrow> resolved_config \<Rightarrow> resolved_config" where
  "resolve_instance_label source config =
     take_found (\<lambda>v config. config\<lparr>rc_instance_label := v\<rparr>) (instance_label_layers source config)"

text \<open>
  For the trace directory, the locale and the log level the layer is chosen first and its value judged
  afterwards: an environment value that is rejected does not yield to the file.
\<close>

definition first_layer :: "config_source \<Rightarrow> string \<Rightarrow> string \<Rightarrow> bytes lookup \<Rightarrow> resolved_config \<Rightarrow> bytes found" where
  "first_layer source variable field in_file config =
     (case env_value source variable of
        Some raw \<Rightarrow> (Some (''environment'', raw), config)
      | None \<Rightarrow>
          (case in_file of
             lk_ok raw \<Rightarrow> if raw = [] then (None, config) else (Some (''file'', raw), config)
           | lk_wrong_type \<Rightarrow> ignored field ''file'' ''wrong type'' config
           | lk_missing \<Rightarrow> (None, config)))"

definition trace_dir_choice :: "config_source \<Rightarrow> resolved_config \<Rightarrow> bytes \<times> resolved_config" where
  "trace_dir_choice source config =
     (case first_layer source ''EOSR_TRACE_DIR'' ''trace_dir'' (cs_file_string source ''trace_dir'') config of
        (None, config) \<Rightarrow> (ascii ''traces'', config)
      | (Some (used, candidate), config) \<Rightarrow>
          (case path_reject_reason candidate of
             None \<Rightarrow> (candidate, config)
           | Some bad \<Rightarrow> (ascii ''traces'', add_diag ''trace_dir'' used bad ''ignored'' config)))"

definition resolve_trace_dir :: "(bytes \<Rightarrow> bool) \<Rightarrow> config_source \<Rightarrow> resolved_config \<Rightarrow> resolved_config" where
  "resolve_trace_dir absolute source config =
     (case trace_dir_choice source config of
        (dir, config) \<Rightarrow>
          config\<lparr>rc_trace_dir := (if absolute dir then dir else rc_data_dir config @ ascii ''/'' @ dir)\<rparr>)"

definition resolve_run_dir :: "config_source \<Rightarrow> resolved_config \<Rightarrow> resolved_config" where
  "resolve_run_dir source config =
     (case env_value source ''EOSR_RUN_DIR'' of
        None \<Rightarrow> config
      | Some raw \<Rightarrow>
          (case path_reject_reason raw of
             None \<Rightarrow> config\<lparr>rc_run_dir := raw\<rparr>
           | Some bad \<Rightarrow> add_diag ''run_dir'' ''environment'' bad ''ignored'' config))"

definition resolve_locale :: "config_source \<Rightarrow> resolved_config \<Rightarrow> resolved_config" where
  "resolve_locale source config =
     (case first_layer source ''EOSR_LOCALE'' ''locale'' (file_string_alias source ''locale'' ''language'') config of
        (None, config) \<Rightarrow> config
      | (Some (used, candidate), config) \<Rightarrow>
          if valid_locale candidate then config\<lparr>rc_locale := candidate\<rparr>
          else add_diag ''locale'' used ''not a language tag'' ''ignored'' config)"

definition resolve_log_level :: "config_source \<Rightarrow> resolved_config \<Rightarrow> resolved_config" where
  "resolve_log_level source config =
     (case first_layer source ''EOSR_LOG_LEVEL'' ''log_level'' (cs_file_string source ''log_level'') config of
        (None, config) \<Rightarrow> config
      | (Some (used, candidate), config) \<Rightarrow>
          (case parse_log_level candidate of
             Some level \<Rightarrow> config\<lparr>rc_logging := level\<rparr>
           | None \<Rightarrow> add_diag ''log_level'' used ''unrecognized value'' ''ignored'' config))"

definition resolve_flag :: "config_source \<Rightarrow> string \<Rightarrow> string \<Rightarrow> resolved_config \<Rightarrow> bool found" where
  "resolve_flag source variable field config =
     or_else
       (case env_value source variable of
          None \<Rightarrow> (None, config)
        | Some raw \<Rightarrow>
            (case parse_flag_text raw of
               Some b \<Rightarrow> (Some (''environment'', b), config)
             | None \<Rightarrow> ignored field ''environment'' ''not a boolean'' config))
       (\<lambda>config. case cs_file_bool source field of
          lk_ok b \<Rightarrow> (Some (''file'', b), config)
        | lk_wrong_type \<Rightarrow> ignored field ''file'' ''wrong type'' config
        | lk_missing \<Rightarrow> (None, config))"

definition reject_unsupported :: "config_source \<Rightarrow> string \<Rightarrow> string \<Rightarrow> resolved_config \<Rightarrow> resolved_config" where
  "reject_unsupported source key reason config =
     (if cs_file_string source key \<noteq> lk_missing then add_diag key ''file'' reason ''ignored'' config else config)"

definition report_flag :: "string \<Rightarrow> string \<Rightarrow> (string \<times> bool) option \<Rightarrow> resolved_config \<Rightarrow> resolved_config" where
  "report_flag field reason chosen config =
     (case chosen of
        None \<Rightarrow> config
      | Some (used, on) \<Rightarrow> if on then add_diag field used reason ''ignored'' config else config)"

definition resolve_enable_lan :: "config_source \<Rightarrow> resolved_config \<Rightarrow> resolved_config" where
  "resolve_enable_lan source config =
     take_found (\<lambda>v config. config\<lparr>rc_enable_lan := v\<rparr>)
       (resolve_flag source ''EOSR_ENABLE_LAN'' ''enable_lan'' config)"

text \<open>The overlay and the unlocked content are taken, and reported once both unsupported keys were.\<close>

definition resolve_unsupported :: "config_source \<Rightarrow> resolved_config \<Rightarrow> resolved_config" where
  "resolve_unsupported source config =
     (case resolve_flag source ''EOSR_ENABLE_OVERLAY'' ''enable_overlay'' config of
        (overlay, config1) \<Rightarrow>
          (case resolve_flag source ''EOSR_UNLOCK_DLCS'' ''unlock_dlcs''
             (case overlay of None \<Rightarrow> config1 | Some (_, b) \<Rightarrow> config1\<lparr>rc_enable_overlay := b\<rparr>) of
             (dlcs, config2) \<Rightarrow>
               report_flag ''unlock_dlcs'' ''no ecom interface yet'' dlcs
                (report_flag ''enable_overlay'' ''no overlay to show'' overlay
                  (reject_unsupported source ''productuserid'' ''identity is derived from the profile key''
                    (reject_unsupported source ''epicid'' ''identity is derived from the profile key''
                      (case dlcs of None \<Rightarrow> config2 | Some (_, b) \<Rightarrow> config2\<lparr>rc_unlock_dlcs := b\<rparr>))))))"

definition default_config :: "config_defaults \<Rightarrow> resolved_config" where
  "default_config defaults =
     \<lparr>rc_display_name = ascii ''Player'', rc_data_dir = df_data_dir defaults, rc_run_dir = [], rc_trace_dir = [],
      rc_level = tl_off, rc_trace_max_bytes = default_max_bytes, rc_trace_max_rotated_files = default_rotated,
      rc_discovery_ports = df_default_ports defaults, rc_instance_label = [], rc_locale = ascii ''en'',
      rc_logging = ll_off, rc_enable_lan = True, rc_enable_overlay = False, rc_unlock_dlcs = False,
      rc_diagnostics = []\<rparr>"

definition resolve_config :: "(bytes \<Rightarrow> bool) \<Rightarrow> config_source \<Rightarrow> config_defaults \<Rightarrow> resolved_config" where
  "resolve_config absolute source defaults =
     (resolve_unsupported source \<circ> resolve_enable_lan source \<circ> resolve_log_level source \<circ> resolve_locale source \<circ>
      resolve_run_dir source \<circ> resolve_trace_dir absolute source \<circ> resolve_instance_label source \<circ>
      resolve_discovery_ports source \<circ> resolve_trace_max_rotated_files source \<circ> resolve_trace_max_bytes source \<circ>
      resolve_trace_level source \<circ> resolve_display_name source) (default_config defaults)"

section \<open>The real source\<close>

definition path_is_absolute_posix :: "bytes \<Rightarrow> bool" where
  "path_is_absolute_posix path \<longleftrightarrow> path \<noteq> [] \<and> hd path = 0x2F"

definition path_is_absolute_windows :: "bytes \<Rightarrow> bool" where
  "path_is_absolute_windows path \<longleftrightarrow>
     path \<noteq> [] \<and>
     (hd path = 0x2F \<or> hd path = 0x5C \<or>
      3 \<le> length path \<and> path ! 1 = 0x3A \<and> (path ! 2 = 0x2F \<or> path ! 2 = 0x5C) \<and>
      (is_upper (hd path) \<or> is_lower (hd path)))"

datatype file_read = fr_ok bytes | fr_missing | fr_unreadable | fr_too_large

definition recognized_env :: "string list" where
  "recognized_env =
     [''EOSR_DISPLAY_NAME'', ''EOSR_RUN_DIR'', ''EOSR_TRACE_DIR'', ''EOSR_TRACE'',
      ''EOSR_TRACE_MAX_BYTES'', ''EOSR_TRACE_MAX_ROTATED'', ''EOSR_DISCOVERY_PORTS'', ''EOSR_INSTANCE_LABEL'',
      ''EOSR_LOCALE'', ''EOSR_LOG_LEVEL'', ''EOSR_ENABLE_LAN'', ''EOSR_ENABLE_OVERLAY'', ''EOSR_UNLOCK_DLCS'']"

definition config_diag :: "string \<Rightarrow> string \<Rightarrow> string \<Rightarrow> config_diagnostic" where
  "config_diag origin reason message =
     \<lparr>cd_field = ''config'', cd_source = origin, cd_reason = reason, cd_action = ''ignored'', cd_message = message\<rparr>"

definition load_file ::
  "(bytes \<Rightarrow> bool) \<Rightarrow> (bytes \<Rightarrow> nat \<Rightarrow> file_read) \<Rightarrow> bytes option \<Rightarrow> bytes \<Rightarrow> config_file \<times> config_diagnostic list" where
  "load_file absolute read_file selector data_dir =
     (let explicit = (case selector of Some path \<Rightarrow> path \<noteq> [] | None \<Rightarrow> False);
          path = (if explicit then (if absolute (the selector) then the selector else data_dir @ ascii ''/'' @ the selector)
                  else data_dir @ ascii ''/eosr.json'');
          origin = (if explicit then ''environment'' else ''file'')
      in case read_file path max_input of
           fr_missing \<Rightarrow> (Map.empty, if explicit then [config_diag origin ''file not found'' []] else [])
         | fr_unreadable \<Rightarrow> (Map.empty, [config_diag origin ''unreadable'' []])
         | fr_too_large \<Rightarrow> (Map.empty, [config_diag origin ''too large'' []])
         | fr_ok s \<Rightarrow>
             (case parse_config_file s of
                Inr f \<Rightarrow> (f, [])
              | Inl e \<Rightarrow> (Map.empty, [config_diag origin ''parse error'' e])))"

definition system_config_source :: "(string \<Rightarrow> bytes option) \<Rightarrow> config_file \<Rightarrow> config_source" where
  "system_config_source getenv f =
     \<lparr>cs_env = (\<lambda>name. if name \<in> set recognized_env then getenv name else None),
      cs_file_string = (\<lambda>key. cf_get_string f (ascii key)),
      cs_file_int = (\<lambda>key. get_int f (ascii key)),
      cs_file_int_pair = (\<lambda>key. get_int_pair f (ascii key)),
      cs_file_bool = (\<lambda>key. cf_get_bool f (ascii key))\<rparr>"

definition load_resolved_config ::
  "(bytes \<Rightarrow> bool) \<Rightarrow> (string \<Rightarrow> bytes option) \<Rightarrow> (bytes \<Rightarrow> nat \<Rightarrow> file_read) \<Rightarrow> bytes \<Rightarrow> discovery_range \<Rightarrow> resolved_config" where
  "load_resolved_config absolute getenv read_file data_dir ports =
     (case load_file absolute read_file (getenv ''EOSR_CONFIG'') data_dir of
        (f, loading) \<Rightarrow>
          (let config = resolve_config absolute (system_config_source getenv f)
             \<lparr>df_data_dir = data_dir, df_default_ports = ports\<rparr>
           in config\<lparr>rc_diagnostics := rc_diagnostics config @ loading\<rparr>))"

end
