(* ===== verification/Config_Properties.thy ===== *)
theory Config_Properties
  imports Config
begin

text \<open>
  What a resolved configuration promises whatever the environment and the file hold: every field within its
  bounds, a silent resolution that took what it was given, and three fields whose environment value hides
  the file even when it is rejected.
\<close>

section \<open>Cutting a text\<close>

lemma unat_byte_div: "drop_bit k lead = v \<Longrightarrow> unat (lead :: u8) div 2 ^ k = unat v"
  using unat_drop_bit_eq [of k lead] by (simp add: drop_bit_eq_div)

lemma lead_length_unat:
  "lead_length lead =
    (if 240 \<le> unat lead then 4 else if 224 \<le> unat lead then 3 else if 192 \<le> unat lead then 2 else 1)"
  by (simp add: lead_length_def word_le_nat_alt)

lemma lead_length_eq:
  "lead < 0x80 \<Longrightarrow> lead_length lead = 1"
  "\<not> lead < 0x80 \<Longrightarrow> utf8_lead lead = Some (n, bits) \<Longrightarrow> lead_length lead = n \<and> drop_bit 6 lead \<noteq> 2"
proof -
  show "lead < 0x80 \<Longrightarrow> lead_length lead = 1" by (simp add: lead_length_unat word_less_nat_alt)
  assume "utf8_lead lead = Some (n, bits)"
  then consider "unat lead div 32 = 6" "n = 2" | "unat lead div 16 = 14" "n = 3" | "unat lead div 8 = 30" "n = 4"
    using unat_byte_div [of 5 lead 6] unat_byte_div [of 4 lead "0xE"] unat_byte_div [of 3 lead "0x1E"]
    by (auto simp: utf8_lead_def split: if_splits)
  moreover have "unat lead div 64 = 2" if "drop_bit 6 lead = 2" using unat_byte_div [OF that] by simp
  ultimately show "lead_length lead = n \<and> drop_bit 6 lead \<noteq> 2" by cases (auto simp: lead_length_unat)
qed

text \<open>Every byte that continues no scalar starts one.\<close>

definition code_points :: "bytes \<Rightarrow> nat" where
  "code_points s = length (filter (\<lambda>c. drop_bit 6 c \<noteq> 2) s)"

lemma code_points_append: "code_points (s @ t) = code_points s + code_points t"
  by (simp add: code_points_def)

lemma scalar_head:
  assumes "decode_utf8 (c # s) = Some n"
  shows "lead_length c = n" "code_points (take n (c # s)) \<le> 1"
proof -
  have "lead_length c = n \<and> code_points (take n (c # s)) \<le> 1"
    using assms
  proof (cases rule: decode_utf8_cases)
    case (ascii c' rest)
    then show ?thesis by (simp add: lead_length_eq code_points_def)
  next
    case (wide lead rest bits cp)
    from utf8_lead_length [OF wide(3)] obtain k where n: "n = Suc k" by (cases n) auto
    from utf8_continue_bytes [OF wide(5)] n have "filter (\<lambda>c. drop_bit 6 c \<noteq> 2) (take k rest) = []"
      by (simp add: filter_empty_conv list_all_iff)
    with wide n lead_length_eq(2) [OF wide(2,3)] show ?thesis by (auto simp: code_points_def)
  qed
  then show "lead_length c = n" "code_points (take n (c # s)) \<le> 1" by simp_all
qed

lemma utf8_truncate_ok:
  "utf8_valid s \<Longrightarrow>
   utf8_valid (utf8_truncate k m s) \<and> length (utf8_truncate k m s) \<le> m \<and> code_points (utf8_truncate k m s) \<le> k \<and>
   set (utf8_truncate k m s) \<subseteq> set s"
proof (induction k m s rule: utf8_truncate.induct)
  case (3 k m c s)
  from "3.prems" obtain n where n: "decode_utf8 (c # s) = Some n" "utf8_valid (drop n (c # s))"
    by (subst (asm) utf8_valid.simps) (auto split: option.splits)
  note h = scalar_head [OF n(1)] decode_utf8_length [OF n(1)]
  show ?case
  proof (cases "m < n")
    case True
    with h show ?thesis by (simp add: Let_def code_points_def)
  next
    case False
    let ?t = "utf8_truncate k (m - n) (drop n (c # s))"
    have e: "utf8_truncate (Suc k) m (c # s) = take n (c # s) @ ?t" using False h by (simp add: Let_def)
    from "3.IH" [of n] False h n have t: "utf8_valid ?t" "length ?t \<le> m - n" "code_points ?t \<le> k"
      "set ?t \<subseteq> set (drop n (c # s))" by simp_all
    have v: "utf8_valid (take n (c # s))"
      using utf8_valid_step [OF decode_utf8_prefix [OF n(1), of "[]"]] h by simp
    have "set ?t \<subseteq> set (c # s)" "set (take n (c # s)) \<subseteq> set (c # s)"
      using t(4) set_drop_subset [of n "c # s"] set_take_subset [of n "c # s"] by blast+
    moreover have "length (take n (c # s)) \<le> n" by simp
    ultimately show ?thesis using utf8_valid_append [OF v t(1)] t(2,3) h(2) False
      unfolding e code_points_append length_append set_append by (intro conjI) (blast | linarith)+
  qed
qed (simp_all add: code_points_def)

lemma utf8_truncate_nonempty:
  assumes "utf8_valid s" "s \<noteq> []" "4 \<le> m" shows "utf8_truncate (Suc k) m s \<noteq> []"
proof -
  from assms obtain c t where s: "s = c # t" by (cases s) auto
  with assms(1) obtain n where n: "decode_utf8 (c # t) = Some n" by (subst (asm) utf8_valid.simps) (auto split: option.splits)
  from scalar_head(1) [OF n] decode_utf8_length [OF n] assms(3) s show ?thesis by (simp add: Let_def)
qed

section \<open>Bounds\<close>

definition ports_ok :: "discovery_range \<Rightarrow> bool" where
  "ports_ok ports \<longleftrightarrow> 0 < dr_first ports \<and> dr_first ports \<le> dr_last ports \<and> uint (dr_last ports) - uint (dr_first ports) < 64"

lemma valid_ports_ok: "valid_ports a b = Some ports \<Longrightarrow> ports_ok ports"
proof -
  assume v: "valid_ports a b = Some ports"
  have u: "uint (ucast x :: u16) = sint (x :: i64)" if "0 < sint x" "sint x \<le> 65535" for x
  proof -
    have "uint x = sint x" using that by (simp add: uint_sint take_bit_int_eq_self_iff)
    with that show ?thesis by (simp add: unsigned_ucast_eq take_bit_int_eq_self_iff)
  qed
  from v u [of a] u [of b] show ?thesis
    by (auto simp: valid_ports_def config_limits ports_ok_def word_less_def word_le_def split: if_splits)
qed

definition name_ok :: "bytes \<Rightarrow> bool" where
  "name_ok name \<longleftrightarrow>
     name \<noteq> [] \<and> utf8_valid name \<and> 0 \<notin> set name \<and> length name \<le> max_display_bytes \<and> code_points name \<le> max_display_chars"

definition config_ok :: "config_defaults \<Rightarrow> resolved_config \<Rightarrow> bool" where
  "config_ok defaults config \<longleftrightarrow>
     name_ok (rc_display_name config) \<and>
     min_max_bytes \<le> rc_trace_max_bytes config \<and> rc_trace_max_bytes config \<le> max_max_bytes \<and>
     rc_trace_max_rotated_files config \<le> max_rotated \<and>
     (rc_discovery_ports config = df_default_ports defaults \<or> ports_ok (rc_discovery_ports config)) \<and>
     (rc_instance_label config = [] \<or> valid_label (rc_instance_label config)) \<and>
     valid_locale (rc_locale config) \<and>
     0 \<notin> set (rc_run_dir config) \<and> rc_data_dir config = df_data_dir defaults"

text \<open>A step changes one field, and adds to the diagnostics.\<close>

lemma or_else_cases:
  assumes "or_else (r, c) g = (Some (used, v), c')"
  shows "r = Some (used, v) \<and> c = c' \<or> r = None \<and> g c = (Some (used, v), c')"
  using assms by (auto simp: or_else_def split: option.splits)

definition only_diag :: "resolved_config \<Rightarrow> resolved_config \<Rightarrow> bool" where
  "only_diag c c' \<longleftrightarrow> (\<exists>ds. c' = c\<lparr>rc_diagnostics := rc_diagnostics c @ ds\<rparr>)"

lemma only_diag_refl: "only_diag c c"
  unfolding only_diag_def by (rule exI [of _ "[]"]) simp

lemma only_diag_trans: "only_diag c c' \<Longrightarrow> only_diag c' c'' \<Longrightarrow> only_diag c c''"
  unfolding only_diag_def by auto

lemma only_diag_add: "only_diag c (add_diag f s r a c)"
  by (auto simp: only_diag_def add_diag_def)

lemma only_diag_ok: "only_diag c c' \<Longrightarrow> config_ok d c' = config_ok d c"
  by (auto simp: only_diag_def config_ok_def)

text \<open>A field resolved from layers: the candidates satisfy what every layer checks.\<close>

definition layer_ok :: "('a \<Rightarrow> bool) \<Rightarrow> resolved_config \<Rightarrow> 'a found \<Rightarrow> bool" where
  "layer_ok good c r \<longleftrightarrow> only_diag c (snd r) \<and> (\<forall>used v. fst r = Some (used, v) \<longrightarrow> good v)"

lemma layer_ok_none: "layer_ok good c (None, c)"
  by (simp add: layer_ok_def only_diag_refl)

lemma layer_ok_some: "good v \<Longrightarrow> layer_ok good c (Some (used, v), c)"
  by (simp add: layer_ok_def only_diag_refl)

lemma layer_ok_ignored: "layer_ok good c (ignored f s r c)"
  by (simp add: layer_ok_def ignored_def only_diag_add)

lemma layer_ok_or_else:
  assumes "layer_ok good c r" "\<And>c. layer_ok good c (g c)"
  shows "layer_ok good c (or_else r g)"
proof (cases r)
  case (Pair f c')
  with assms(1) assms(2) [of c'] show ?thesis
    by (cases f) (auto simp: or_else_def layer_ok_def intro: only_diag_trans)
qed

lemmas layer_rules = layer_ok_or_else layer_ok_none layer_ok_some layer_ok_ignored

lemma env_value_nonempty: "env_value source name = Some raw \<Longrightarrow> raw \<noteq> []"
  by (auto simp: env_value_def split: option.splits if_splits)

definition good_text :: "bytes \<Rightarrow> bool" where "good_text raw \<longleftrightarrow> raw \<noteq> [] \<and> 0 \<notin> set raw \<and> utf8_valid raw"

lemma text_reject_None: "text_reject_reason raw = None \<longleftrightarrow> 0 \<notin> set raw \<and> utf8_valid raw"
  by (simp add: text_reject_reason_def has_nul_def)

lemma path_reject_None: "path_reject_reason raw = None \<longleftrightarrow> 0 \<notin> set raw"
  by (simp add: path_reject_reason_def has_nul_def)

lemma bounded_name_ok: "good_text raw \<Longrightarrow> name_ok (utf8_truncate max_display_chars max_display_bytes raw)"
  using utf8_truncate_ok [of raw 16 64] utf8_truncate_nonempty [of raw 64 15]
  by (auto simp: good_text_def name_ok_def config_limits)

lemma take_found_ok:
  assumes "layer_ok good c r" "config_ok d c" "\<And>v c. good v \<Longrightarrow> config_ok d c \<Longrightarrow> config_ok d (set_field v c)"
  shows "config_ok d (take_found set_field r)"
proof (cases r)
  case (Pair f c')
  with assms(1,2) have "config_ok d c'" by (auto simp: layer_ok_def only_diag_ok)
  with Pair assms(1,3) show ?thesis by (auto simp: take_found_def layer_ok_def split: option.splits)
qed

lemma resolve_trace_level_ok: "config_ok d c \<Longrightarrow> config_ok d (resolve_trace_level source c)"
  unfolding resolve_trace_level_def trace_level_layers_def
  by (rule take_found_ok [where good = "\<lambda>_. True" and c = c])
    (auto intro!: layer_rules simp: config_ok_def split: option.splits lookup.splits)

lemma display_name_layers_ok: "layer_ok good_text c (display_name_layers source c)"
  unfolding display_name_layers_def
  by (auto intro!: layer_rules simp: good_text_def text_reject_None env_value_nonempty split: option.splits lookup.splits)

lemma only_diag_keeps: "only_diag c c' \<Longrightarrow> config_ok d c \<Longrightarrow> config_ok d c'"
  using only_diag_ok by blast

lemma layer_ok_keeps: "layer_ok good c (f, c') \<Longrightarrow> config_ok d c \<Longrightarrow> config_ok d c'"
  by (auto simp: layer_ok_def intro: only_diag_keeps)

lemma resolve_display_name_ok:
  assumes "config_ok d c" shows "config_ok d (resolve_display_name source c)"
proof -
  obtain f c' where l: "display_name_layers source c = (f, c')" by fastforce
  note ok = display_name_layers_ok [of c source, unfolded l]
  from layer_ok_keeps [OF ok assms] have c': "config_ok d c'" .
  show ?thesis
  proof (cases f)
    case None
    with l c' show ?thesis by (simp add: resolve_display_name_def)
  next
    case (Some e)
    obtain used raw where e: "e = (used, raw)" by fastforce
    from ok Some e have "name_ok (utf8_truncate max_display_chars max_display_bytes raw)"
      by (intro bounded_name_ok) (simp add: layer_ok_def)
    with c' l Some e show ?thesis by (simp add: resolve_display_name_def Let_def config_ok_def add_diag_def)
  qed
qed

lemma integer_layers_ok: "layer_ok (\<lambda>_. True) c (integer_layers source variable f c)"
  unfolding integer_layers_def by (auto intro!: layer_rules split: option.splits lookup.splits)

lemma clamp_bytes_ok:
  assumes "clamp_bytes i used c = (n, c')"
  shows "only_diag c c' \<and> min_max_bytes \<le> n \<and> n \<le> max_max_bytes"
proof -
  have "min_max_bytes \<le> i" if "\<not> sint i < sint min_max_bytes"
  proof -
    have "uint i = sint i" using that by (simp add: config_limits uint_sint take_bit_int_eq_self_iff) (use sint_lt [of i] in simp)
    with that show ?thesis by (simp add: config_limits word_le_def)
  qed
  moreover have "min_max_bytes \<le> max_max_bytes" by (simp add: config_limits)
  ultimately show ?thesis using assms
    by (auto simp: clamp_bytes_def only_diag_refl only_diag_add split: if_splits)
qed

lemma clamp_rotated_ok:
  assumes "clamp_rotated i used c = (n, c')" shows "only_diag c c' \<and> n \<le> max_rotated"
proof -
  have "(ucast i :: u32) \<le> max_rotated" if "\<not> sint i < 0" "\<not> sint (ucast max_rotated :: i64) < sint i"
  proof -
    have s: "0 \<le> sint i" "sint i \<le> 64" using that by (simp_all add: config_limits)
    then have "uint i = sint i" by (simp add: uint_sint take_bit_int_eq_self_iff)
    moreover have "take_bit 32 (sint i) = sint i" using s by (simp add: take_bit_int_eq_self_iff)
    ultimately show ?thesis using s by (simp add: config_limits word_le_def unsigned_ucast_eq)
  qed
  with assms show ?thesis
    by (auto simp: clamp_rotated_def only_diag_refl only_diag_add split: if_splits)
qed

lemma resolve_trace_max_bytes_ok:
  assumes "config_ok d c" shows "config_ok d (resolve_trace_max_bytes source c)"
proof -
  obtain f c1 where l: "integer_layers source ''EOSR_TRACE_MAX_BYTES'' ''trace_max_bytes'' c = (f, c1)" by fastforce
  have c1: "config_ok d c1"
    using layer_ok_keeps [OF integer_layers_ok [of c source "''EOSR_TRACE_MAX_BYTES''" "''trace_max_bytes''", unfolded l] assms] .
  show ?thesis
  proof (cases f)
    case None
    with l c1 show ?thesis by (simp add: resolve_trace_max_bytes_def)
  next
    case (Some e)
    obtain used i where e: "e = (used, i)" by fastforce
    obtain n c2 where n: "clamp_bytes i used c1 = (n, c2)" by fastforce
    from clamp_bytes_ok [OF n] c1 have "config_ok d c2" "min_max_bytes \<le> n" "n \<le> max_max_bytes"
      by (auto intro: only_diag_keeps)
    with l Some e n show ?thesis by (simp add: resolve_trace_max_bytes_def config_ok_def)
  qed
qed

lemma resolve_trace_max_rotated_files_ok:
  assumes "config_ok d c" shows "config_ok d (resolve_trace_max_rotated_files source c)"
proof -
  obtain f c1 where l: "integer_layers source ''EOSR_TRACE_MAX_ROTATED'' ''trace_max_rotated_files'' c = (f, c1)" by fastforce
  have c1: "config_ok d c1"
    using layer_ok_keeps [OF integer_layers_ok [of c source "''EOSR_TRACE_MAX_ROTATED''" "''trace_max_rotated_files''", unfolded l] assms] .
  show ?thesis
  proof (cases f)
    case None
    with l c1 show ?thesis by (simp add: resolve_trace_max_rotated_files_def)
  next
    case (Some e)
    obtain used i where e: "e = (used, i)" by fastforce
    obtain n c2 where n: "clamp_rotated i used c1 = (n, c2)" by fastforce
    from clamp_rotated_ok [OF n] c1 have "config_ok d c2" "n \<le> max_rotated" by (auto intro: only_diag_keeps)
    with l Some e n show ?thesis by (simp add: resolve_trace_max_rotated_files_def config_ok_def)
  qed
qed

lemma env_ports_ok: "env_ports raw = Some ports \<Longrightarrow> ports_ok ports"
  by (auto simp: env_ports_def intro: valid_ports_ok split: option.splits)

lemma resolve_discovery_ports_ok: "config_ok d c \<Longrightarrow> config_ok d (resolve_discovery_ports source c)"
  unfolding resolve_discovery_ports_def discovery_ports_layers_def
  by (rule take_found_ok [where good = ports_ok and c = c])
    (auto intro!: layer_rules simp: config_ok_def dest: valid_ports_ok env_ports_ok split: option.splits lookup.splits)

lemma resolve_instance_label_ok: "config_ok d c \<Longrightarrow> config_ok d (resolve_instance_label source c)"
  unfolding resolve_instance_label_def instance_label_layers_def
  by (rule take_found_ok [where good = valid_label and c = c])
    (auto intro!: layer_rules simp: config_ok_def split: option.splits lookup.splits)

lemma first_layer_ok: "layer_ok (\<lambda>_. True) c (first_layer source variable f in_file c)"
  unfolding first_layer_def by (auto intro!: layer_rules split: option.splits lookup.splits)

lemma ok_after_diag: "config_ok d (add_diag f s r a c) = config_ok d c"
  by (rule only_diag_ok [OF only_diag_add])

lemma take_case_ok:
  assumes "layer_ok good c r" "config_ok d c" "\<And>u v c. good v \<Longrightarrow> config_ok d c \<Longrightarrow> config_ok d (some u v c)"
  shows "config_ok d (case r of (None, c) \<Rightarrow> c | (Some (u, v), c) \<Rightarrow> some u v c)"
proof (cases r)
  case (Pair f c')
  with assms(1,2) have "config_ok d c'" using only_diag_ok [of c c' d] by (auto simp: layer_ok_def)
  with Pair assms(1,3) show ?thesis by (cases f) (auto simp: layer_ok_def)
qed

lemma resolve_trace_dir_ok:
  assumes "config_ok d c" shows "config_ok d (resolve_trace_dir absolute source c)"
proof -
  have "config_ok d (case first_layer source ''EOSR_TRACE_DIR'' ''trace_dir'' (cs_file_string source ''trace_dir'') c of
      (None, c) \<Rightarrow> c | (Some (used, v), c) \<Rightarrow>
        (case path_reject_reason v of None \<Rightarrow> c | Some bad \<Rightarrow> add_diag ''trace_dir'' used bad ''ignored'' c))"
    by (rule take_case_ok [OF first_layer_ok assms]) (simp add: ok_after_diag split: option.splits)
  then have "config_ok d (snd (trace_dir_choice source c))"
    by (auto simp: trace_dir_choice_def split: prod.splits option.splits)
  then show ?thesis by (cases "trace_dir_choice source c") (simp add: resolve_trace_dir_def config_ok_def)
qed

lemma resolve_run_dir_ok: "config_ok d c \<Longrightarrow> config_ok d (resolve_run_dir source c)"
  by (auto simp: resolve_run_dir_def ok_after_diag path_reject_None split: option.splits) (simp add: config_ok_def)

lemma resolve_locale_ok: "config_ok d c \<Longrightarrow> config_ok d (resolve_locale source c)"
  unfolding resolve_locale_def
  by (rule take_case_ok [OF first_layer_ok]) (simp_all add: ok_after_diag, simp add: config_ok_def)

lemma resolve_log_level_ok: "config_ok d c \<Longrightarrow> config_ok d (resolve_log_level source c)"
  unfolding resolve_log_level_def
  by (rule take_case_ok [OF first_layer_ok]) (simp_all add: ok_after_diag split: option.splits, simp add: config_ok_def)

lemma resolve_flag_ok: "layer_ok (\<lambda>_. True) c (resolve_flag source variable f c)"
  unfolding resolve_flag_def by (auto intro!: layer_rules split: option.splits lookup.splits)

lemma resolve_enable_lan_ok: "config_ok d c \<Longrightarrow> config_ok d (resolve_enable_lan source c)"
  unfolding resolve_enable_lan_def
  by (rule take_found_ok [OF resolve_flag_ok]) (simp_all add: config_ok_def)

lemma flag_fields_ok:
  "config_ok d (c\<lparr>rc_enable_overlay := b\<rparr>) = config_ok d c" "config_ok d (c\<lparr>rc_unlock_dlcs := b\<rparr>) = config_ok d c"
  by (simp_all add: config_ok_def)

lemma report_ok: "config_ok d (report_flag f r chosen c) = config_ok d c" "config_ok d (reject_unsupported source k r c) = config_ok d c"
  by (simp_all add: report_flag_def reject_unsupported_def ok_after_diag split: option.splits)

lemma resolve_unsupported_ok:
  assumes "config_ok d c" shows "config_ok d (resolve_unsupported source c)"
proof -
  obtain o1 c1 where 1: "resolve_flag source ''EOSR_ENABLE_OVERLAY'' ''enable_overlay'' c = (o1, c1)" by fastforce
  with resolve_flag_ok [of c source "''EOSR_ENABLE_OVERLAY''" "''enable_overlay''"] assms
  have c1: "config_ok d c1" by (auto simp: layer_ok_def only_diag_ok)
  let ?c = "case o1 of None \<Rightarrow> c1 | Some (_, b) \<Rightarrow> c1\<lparr>rc_enable_overlay := b\<rparr>"
  obtain o2 c2 where 2: "resolve_flag source ''EOSR_UNLOCK_DLCS'' ''unlock_dlcs'' ?c = (o2, c2)" by fastforce
  with resolve_flag_ok [of ?c source "''EOSR_UNLOCK_DLCS''" "''unlock_dlcs''"] c1
  have "config_ok d c2" by (auto simp: layer_ok_def only_diag_ok flag_fields_ok split: option.splits)
  then show ?thesis by (auto simp: resolve_unsupported_def 1 2 report_ok flag_fields_ok split: option.splits)
qed

lemma default_config_ok: "config_ok d (default_config d)"
proof -
  have "name_ok (ascii ''Player'')" "valid_locale (ascii ''en'')" by code_simp+
  then show ?thesis by (simp add: config_ok_def default_config_def config_limits)
qed

theorem resolved_config_is_in_bounds: "config_ok defaults (resolve_config absolute source defaults)"
  unfolding resolve_config_def comp_apply
  by (intro resolve_unsupported_ok resolve_enable_lan_ok resolve_log_level_ok resolve_locale_ok resolve_run_dir_ok
      resolve_trace_dir_ok resolve_instance_label_ok resolve_discovery_ports_ok resolve_trace_max_rotated_files_ok
      resolve_trace_max_bytes_ok resolve_trace_level_ok resolve_display_name_ok default_config_ok)

end
