(* ===== verification/Config_Silence.thy ===== *)
theory Config_Silence
  imports Config_Properties
begin

text \<open>
  A resolution without a diagnostic is the plain one: the environment's value, else the file's, else the
  default, with no check and no bound.  And three fields whose environment value hides the file even when
  it is rejected.
\<close>

section \<open>The plain resolution\<close>

definition or_default :: "'a option \<Rightarrow> 'a \<Rightarrow> 'a" where
  "or_default given dflt = (case given of Some v \<Rightarrow> v | None \<Rightarrow> dflt)"

definition given_value :: "config_source \<Rightarrow> string \<Rightarrow> (bytes \<Rightarrow> 'a option) \<Rightarrow> 'a lookup \<Rightarrow> 'a option" where
  "given_value source variable parse in_file =
     (case env_value source variable of
        Some raw \<Rightarrow> parse raw
      | None \<Rightarrow> (case in_file of lk_ok v \<Rightarrow> Some v | _ \<Rightarrow> None))"

definition given_text :: "config_source \<Rightarrow> string \<Rightarrow> bytes lookup \<Rightarrow> bytes option" where
  "given_text source variable in_file =
     (case given_value source variable Some in_file of
        None \<Rightarrow> None | Some raw \<Rightarrow> if raw = [] then None else Some raw)"

definition plain_ports :: "(i64 \<times> i64) option \<Rightarrow> discovery_range option" where
  "plain_ports given = map_option (\<lambda>(a, b). \<lparr>dr_first = ucast a, dr_last = ucast b\<rparr>) given"

definition plain_config :: "(bytes \<Rightarrow> bool) \<Rightarrow> config_source \<Rightarrow> config_defaults \<Rightarrow> resolved_config" where
  "plain_config absolute source defaults =
     \<lparr>rc_display_name =
        or_default (given_text source ''EOSR_DISPLAY_NAME'' (file_string_alias source ''display_name'' ''username''))
          (ascii ''Player''),
      rc_data_dir = df_data_dir defaults,
      rc_run_dir = or_default (env_value source ''EOSR_RUN_DIR'') [],
      rc_trace_dir =
        (let dir = or_default (given_text source ''EOSR_TRACE_DIR'' (cs_file_string source ''trace_dir'')) (ascii ''traces'')
         in if absolute dir then dir else df_data_dir defaults @ ascii ''/'' @ dir),
      rc_level =
        or_default (Option.bind (given_text source ''EOSR_TRACE'' (cs_file_string source ''trace_level'')) parse_level) tl_off,
      rc_trace_max_bytes =
        or_default (given_value source ''EOSR_TRACE_MAX_BYTES'' parse_int (cs_file_int source ''trace_max_bytes''))
          default_max_bytes,
      rc_trace_max_rotated_files =
        or_default (map_option ucast
          (given_value source ''EOSR_TRACE_MAX_ROTATED'' parse_int (cs_file_int source ''trace_max_rotated_files'')))
          default_rotated,
      rc_discovery_ports =
        or_default (plain_ports
          (given_value source ''EOSR_DISCOVERY_PORTS'' parse_port_range (cs_file_int_pair source ''discovery_ports'')))
          (df_default_ports defaults),
      rc_instance_label =
        or_default (given_text source ''EOSR_INSTANCE_LABEL'' (cs_file_string source ''instance_label'')) [],
      rc_locale =
        or_default (given_text source ''EOSR_LOCALE'' (file_string_alias source ''locale'' ''language'')) (ascii ''en''),
      rc_logging =
        or_default (Option.bind (given_text source ''EOSR_LOG_LEVEL'' (cs_file_string source ''log_level'')) parse_log_level)
          ll_off,
      rc_enable_lan =
        or_default (given_value source ''EOSR_ENABLE_LAN'' parse_flag_text (cs_file_bool source ''enable_lan'')) True,
      rc_enable_overlay = False,
      rc_unlock_dlcs = False,
      rc_diagnostics = []\<rparr>"

section \<open>One silent step\<close>

definition silent :: "resolved_config \<Rightarrow> bool" where "silent c \<longleftrightarrow> rc_diagnostics c = []"

lemma silent_add [simp]: "\<not> silent (add_diag f s r a c)"
  by (simp add: silent_def add_diag_def)

lemma silent_ignored [simp]: "ignored f s r c = (None, add_diag f s r ''ignored'' c)"
  by (simp add: ignored_def)

lemma silent_update [simp]:
  "silent (c\<lparr>rc_display_name := a\<rparr>) = silent c" "silent (c\<lparr>rc_level := b\<rparr>) = silent c"
  "silent (c\<lparr>rc_trace_max_bytes := x\<rparr>) = silent c" "silent (c\<lparr>rc_trace_max_rotated_files := y\<rparr>) = silent c"
  "silent (c\<lparr>rc_discovery_ports := z\<rparr>) = silent c" "silent (c\<lparr>rc_instance_label := a\<rparr>) = silent c"
  "silent (c\<lparr>rc_trace_dir := a\<rparr>) = silent c" "silent (c\<lparr>rc_run_dir := a\<rparr>) = silent c"
  "silent (c\<lparr>rc_locale := a\<rparr>) = silent c" "silent (c\<lparr>rc_logging := l\<rparr>) = silent c"
  "silent (c\<lparr>rc_enable_lan := d\<rparr>) = silent c" "silent (c\<lparr>rc_enable_overlay := d\<rparr>) = silent c"
  "silent (c\<lparr>rc_unlock_dlcs := d\<rparr>) = silent c"
  by (simp_all add: silent_def)

lemma utf8_truncate_prefix: "\<exists>t. s = utf8_truncate k m s @ t"
proof (induction k m s rule: utf8_truncate.induct)
  case (3 k m c s)
  let ?n = "lead_length c"
  show ?case
  proof (cases "m < ?n \<or> length (c # s) < ?n")
    case False
    with "3.IH" [of ?n] obtain t where "drop ?n (c # s) = utf8_truncate k (m - ?n) (drop ?n (c # s)) @ t" by auto
    then have "c # s = take ?n (c # s) @ utf8_truncate k (m - ?n) (drop ?n (c # s)) @ t"
      by (metis append_take_drop_id)
    with False show ?thesis by (intro exI [of _ t]) (simp add: Let_def del: take_Cons' drop_Cons')
  qed (auto simp: Let_def)
qed simp_all

lemma utf8_truncate_whole: "length (utf8_truncate k m s) = length s \<Longrightarrow> utf8_truncate k m s = s"
  using utf8_truncate_prefix [of s k m] by (metis append_Nil2 append_eq_append_conv)

lemma only_diag_silent: "only_diag c c' \<Longrightarrow> silent c' \<Longrightarrow> c' = c"
  by (auto simp: only_diag_def silent_def)

lemma silent_or_else:
  assumes "silent (snd (or_else r g))" "layer_ok good c r" "\<And>c. layer_ok good' c (g c)"
  shows "snd r = c" "silent c" "or_else r g = (case fst r of None \<Rightarrow> g c | Some x \<Rightarrow> (Some x, c))"
proof -
  obtain f c' where r: "r = (f, c')" by fastforce
  have "silent c'"
  proof (cases f)
    case None
    with assms(1) r have "silent (snd (g c'))" by (simp add: or_else_def)
    with assms(3) [of c'] only_diag_silent [of c' "snd (g c')"] show ?thesis by (auto simp: layer_ok_def)
  next
    case (Some x)
    with assms(1) r show ?thesis by (auto simp: or_else_def split: option.splits)
  qed
  with assms(2) r have c: "c' = c" by (auto simp: layer_ok_def dest: only_diag_silent)
  with r \<open>silent c'\<close> show "snd r = c" "silent c" "or_else r g = (case fst r of None \<Rightarrow> g c | Some x \<Rightarrow> (Some x, c))"
    by (auto simp: or_else_def split: option.splits)
qed

definition silently :: "resolved_config \<Rightarrow> 'a found \<Rightarrow> 'a option \<Rightarrow> bool" where
  "silently c r given \<longleftrightarrow> (silent (snd r) \<longrightarrow> silent c \<and> snd r = c \<and> given = map_option snd (fst r))"

lemma silently_or_else:
  assumes "layer_ok good c r" "\<And>c. layer_ok good' c (g c)"
    "silent (snd r) \<Longrightarrow> fst r \<noteq> None \<Longrightarrow> given = map_option snd (fst r)"
    "\<And>c. silent (snd r) \<Longrightarrow> fst r = None \<Longrightarrow> silently c (g c) given"
  shows "silently c (or_else r g) given"
  unfolding silently_def
proof
  assume s: "silent (snd (or_else r g))"
  note o = silent_or_else [OF s assms(1,2)]
  show "silent c \<and> snd (or_else r g) = c \<and> given = map_option snd (fst (or_else r g))"
  proof (cases "fst r")
    case None
    with o s assms(4) [of c] show ?thesis by (auto simp: silently_def)
  next
    case (Some x)
    with o assms(3) show ?thesis by auto
  qed
qed

lemma layer_ok_diag: "layer_ok good c (None, add_diag f s r a c)"
  by (simp add: layer_ok_def only_diag_add)

lemmas silent_layers = layer_ok_or_else layer_ok_none layer_ok_some layer_ok_diag

lemma display_name_silently:
  "silently c (display_name_layers source c)
     (given_text source ''EOSR_DISPLAY_NAME'' (file_string_alias source ''display_name'' ''username''))"
  unfolding display_name_layers_def
  by (rule silently_or_else [where good = "\<lambda>_. True" and good' = "\<lambda>_. True"])
    (auto intro!: silent_layers simp: silently_def given_text_def given_value_def env_value_nonempty
      split: option.splits lookup.splits)

lemma integer_silently:
  "silently c (integer_layers source variable f c) (given_value source variable parse_int (cs_file_int source f))"
  unfolding integer_layers_def
  by (rule silently_or_else [where good = "\<lambda>_. True" and good' = "\<lambda>_. True"])
    (auto intro!: silent_layers simp: silently_def given_value_def split: option.splits lookup.splits)

lemma flag_silently:
  "silently c (resolve_flag source variable f c) (given_value source variable parse_flag_text (cs_file_bool source f))"
  unfolding resolve_flag_def
  by (rule silently_or_else [where good = "\<lambda>_. True" and good' = "\<lambda>_. True"])
    (auto intro!: silent_layers simp: silently_def given_value_def split: option.splits lookup.splits)

lemma first_layer_silently: "silently c (first_layer source variable f in_file c) (given_text source variable in_file)"
  by (auto simp: first_layer_def silently_def given_text_def given_value_def env_value_nonempty
      split: option.splits lookup.splits)

lemma trace_level_silently:
  "silently c (trace_level_layers source c)
     (Option.bind (given_text source ''EOSR_TRACE'' (cs_file_string source ''trace_level'')) parse_level)"
proof -
  have "parse_level [] = None" by code_simp
  then show ?thesis unfolding trace_level_layers_def
    by (intro silently_or_else [where good = "\<lambda>_. True" and good' = "\<lambda>_. True"])
      (auto intro!: silent_layers simp: silently_def given_text_def given_value_def env_value_nonempty
        split: option.splits lookup.splits)
qed

lemma instance_label_silently:
  "silently c (instance_label_layers source c)
     (given_text source ''EOSR_INSTANCE_LABEL'' (cs_file_string source ''instance_label''))"
  unfolding instance_label_layers_def
  by (rule silently_or_else [where good = "\<lambda>_. True" and good' = "\<lambda>_. True"])
    (auto intro!: silent_layers simp: silently_def given_text_def given_value_def env_value_nonempty
      split: option.splits lookup.splits if_splits prod.splits)

lemma valid_ports_plain: "valid_ports a b = Some ports \<Longrightarrow> ports = \<lparr>dr_first = ucast a, dr_last = ucast b\<rparr>"
  by (simp add: valid_ports_def split: if_splits)

lemma env_ports_plain: "env_ports raw = Some ports \<Longrightarrow> plain_ports (parse_port_range raw) = Some ports"
  by (auto simp: env_ports_def plain_ports_def dest: valid_ports_plain split: option.splits)

lemma file_ports_plain: "valid_ports a b = Some ports \<Longrightarrow> plain_ports (Some (a, b)) = Some ports"
  using valid_ports_plain [of a b ports] by (simp add: plain_ports_def)

lemma plain_ports_None: "plain_ports None = None"
  by (simp add: plain_ports_def)

lemma discovery_ports_silently:
  "silently c (discovery_ports_layers source c)
     (plain_ports (given_value source ''EOSR_DISCOVERY_PORTS'' parse_port_range (cs_file_int_pair source ''discovery_ports'')))"
  unfolding discovery_ports_layers_def
  by (rule silently_or_else [where good = "\<lambda>_. True" and good' = "\<lambda>_. True"])
    (auto intro!: silent_layers simp: silently_def given_value_def env_ports_plain file_ports_plain plain_ports_None
      split: option.splits lookup.splits if_splits prod.splits)

section \<open>The silent steps\<close>

text \<open>A step that is silent took what was given into its field, and the steps before it were silent.\<close>

lemma silently_take:
  assumes "silently c r given" "silent (take_found set_field r)" "\<And>v c. silent (set_field v c) \<Longrightarrow> silent c"
  shows "silent c \<and> take_found set_field r = (case given of None \<Rightarrow> c | Some v \<Rightarrow> set_field v c)"
  using assms by (cases r; cases "fst r") (auto simp: silently_def take_found_def)

lemma display_name_step:
  assumes "silent (resolve_display_name source c)"
  shows "silent c \<and> resolve_display_name source c = c\<lparr>rc_display_name :=
    or_default (given_text source ''EOSR_DISPLAY_NAME'' (file_string_alias source ''display_name'' ''username'')) (rc_display_name c)\<rparr>"
proof -
  obtain f c' where r: "display_name_layers source c = (f, c')" by fastforce
  from assms display_name_silently [of c source] r show ?thesis
    by (cases f) (auto simp: resolve_display_name_def silently_def or_default_def Let_def dest!: utf8_truncate_whole
        split: if_splits)
qed

lemma trace_level_step:
  "silent (resolve_trace_level source c) \<Longrightarrow> silent c \<and> resolve_trace_level source c = c\<lparr>rc_level :=
    or_default (Option.bind (given_text source ''EOSR_TRACE'' (cs_file_string source ''trace_level'')) parse_level) (rc_level c)\<rparr>"
  unfolding resolve_trace_level_def
  by (drule silently_take [OF trace_level_silently]) (auto simp: or_default_def split: option.splits)

lemma discovery_ports_step:
  "silent (resolve_discovery_ports source c) \<Longrightarrow> silent c \<and> resolve_discovery_ports source c = c\<lparr>rc_discovery_ports :=
    or_default (plain_ports (given_value source ''EOSR_DISCOVERY_PORTS'' parse_port_range
      (cs_file_int_pair source ''discovery_ports''))) (rc_discovery_ports c)\<rparr>"
  unfolding resolve_discovery_ports_def
  by (drule silently_take [OF discovery_ports_silently]) (auto simp: or_default_def split: option.splits)

lemma instance_label_step:
  "silent (resolve_instance_label source c) \<Longrightarrow> silent c \<and> resolve_instance_label source c = c\<lparr>rc_instance_label :=
    or_default (given_text source ''EOSR_INSTANCE_LABEL'' (cs_file_string source ''instance_label'')) (rc_instance_label c)\<rparr>"
  unfolding resolve_instance_label_def
  by (drule silently_take [OF instance_label_silently]) (auto simp: or_default_def split: option.splits)

lemma enable_lan_step:
  "silent (resolve_enable_lan source c) \<Longrightarrow> silent c \<and> resolve_enable_lan source c = c\<lparr>rc_enable_lan :=
    or_default (given_value source ''EOSR_ENABLE_LAN'' parse_flag_text (cs_file_bool source ''enable_lan'')) (rc_enable_lan c)\<rparr>"
  unfolding resolve_enable_lan_def
  by (drule silently_take [OF flag_silently]) (auto simp: or_default_def split: option.splits)

lemma trace_max_bytes_step:
  assumes "silent (resolve_trace_max_bytes source c)"
  shows "silent c \<and> resolve_trace_max_bytes source c = c\<lparr>rc_trace_max_bytes :=
    or_default (given_value source ''EOSR_TRACE_MAX_BYTES'' parse_int (cs_file_int source ''trace_max_bytes'')) (rc_trace_max_bytes c)\<rparr>"
proof -
  obtain f c' where r: "integer_layers source ''EOSR_TRACE_MAX_BYTES'' ''trace_max_bytes'' c = (f, c')" by fastforce
  from assms integer_silently [of c source "''EOSR_TRACE_MAX_BYTES''" "''trace_max_bytes''"] r show ?thesis
    by (cases f) (auto simp: resolve_trace_max_bytes_def silently_def or_default_def clamp_bytes_def split: if_splits)
qed

lemma trace_max_rotated_files_step:
  assumes "silent (resolve_trace_max_rotated_files source c)"
  shows "silent c \<and> resolve_trace_max_rotated_files source c = c\<lparr>rc_trace_max_rotated_files :=
    or_default (map_option ucast (given_value source ''EOSR_TRACE_MAX_ROTATED'' parse_int
      (cs_file_int source ''trace_max_rotated_files''))) (rc_trace_max_rotated_files c)\<rparr>"
proof -
  obtain f c' where r: "integer_layers source ''EOSR_TRACE_MAX_ROTATED'' ''trace_max_rotated_files'' c = (f, c')" by fastforce
  from assms integer_silently [of c source "''EOSR_TRACE_MAX_ROTATED''" "''trace_max_rotated_files''"] r show ?thesis
    by (cases f) (auto simp: resolve_trace_max_rotated_files_def silently_def or_default_def clamp_rotated_def
        split: if_splits)
qed

lemma trace_dir_step:
  assumes "silent (resolve_trace_dir absolute source c)"
  shows "silent c \<and> resolve_trace_dir absolute source c = c\<lparr>rc_trace_dir :=
    (let dir = or_default (given_text source ''EOSR_TRACE_DIR'' (cs_file_string source ''trace_dir'')) (ascii ''traces'')
     in if absolute dir then dir else rc_data_dir c @ ascii ''/'' @ dir)\<rparr>"
proof -
  obtain f c' where r: "first_layer source ''EOSR_TRACE_DIR'' ''trace_dir'' (cs_file_string source ''trace_dir'') c = (f, c')"
    by fastforce
  with first_layer_silently [of c source "''EOSR_TRACE_DIR''" "''trace_dir''" "cs_file_string source ''trace_dir''"] assms
  show ?thesis
    by (cases f) (auto simp: resolve_trace_dir_def trace_dir_choice_def silently_def or_default_def Let_def split: option.splits)
qed

lemma run_dir_step:
  "silent (resolve_run_dir source c) \<Longrightarrow>
   silent c \<and> resolve_run_dir source c = c\<lparr>rc_run_dir := or_default (env_value source ''EOSR_RUN_DIR'') (rc_run_dir c)\<rparr>"
  by (auto simp: resolve_run_dir_def or_default_def split: option.splits)

lemma locale_step:
  assumes "silent (resolve_locale source c)"
  shows "silent c \<and> resolve_locale source c = c\<lparr>rc_locale :=
    or_default (given_text source ''EOSR_LOCALE'' (file_string_alias source ''locale'' ''language'')) (rc_locale c)\<rparr>"
proof -
  let ?file = "file_string_alias source ''locale'' ''language''"
  obtain f c' where r: "first_layer source ''EOSR_LOCALE'' ''locale'' ?file c = (f, c')" by fastforce
  with first_layer_silently [of c source "''EOSR_LOCALE''" "''locale''" ?file] assms show ?thesis
    by (cases f) (auto simp: resolve_locale_def silently_def or_default_def split: if_splits)
qed

lemma log_level_step:
  assumes "silent (resolve_log_level source c)"
  shows "silent c \<and> resolve_log_level source c = c\<lparr>rc_logging :=
    or_default (Option.bind (given_text source ''EOSR_LOG_LEVEL'' (cs_file_string source ''log_level'')) parse_log_level) (rc_logging c)\<rparr>"
proof -
  let ?file = "cs_file_string source ''log_level''"
  obtain f c' where r: "first_layer source ''EOSR_LOG_LEVEL'' ''log_level'' ?file c = (f, c')" by fastforce
  with first_layer_silently [of c source "''EOSR_LOG_LEVEL''" "''log_level''" ?file] assms show ?thesis
    by (cases f) (auto simp: resolve_log_level_def silently_def or_default_def split: option.splits)
qed

lemma report_silent:
  "silent (report_flag f r chosen c) \<longleftrightarrow> silent c \<and> (\<forall>used. chosen \<noteq> Some (used, True))"
  "silent (report_flag f r chosen c) \<Longrightarrow> report_flag f r chosen c = c"
  by (auto simp: report_flag_def split: option.splits if_splits)

lemma reject_silent:
  "silent (reject_unsupported source k r c) \<Longrightarrow> reject_unsupported source k r c = c"
  by (auto simp: reject_unsupported_def split: if_splits)

lemma unsupported_step:
  assumes "silent (resolve_unsupported source c)"
  shows "silent c \<and> (\<not> rc_enable_overlay c \<and> \<not> rc_unlock_dlcs c \<longrightarrow> resolve_unsupported source c = c)"
proof -
  obtain o1 c1 where 1: "resolve_flag source ''EOSR_ENABLE_OVERLAY'' ''enable_overlay'' c = (o1, c1)" by fastforce
  let ?c = "case o1 of None \<Rightarrow> c1 | Some (_, b) \<Rightarrow> c1\<lparr>rc_enable_overlay := b\<rparr>"
  obtain o2 c2 where 2: "resolve_flag source ''EOSR_UNLOCK_DLCS'' ''unlock_dlcs'' ?c = (o2, c2)" by fastforce
  let ?d = "case o2 of None \<Rightarrow> c2 | Some (_, b) \<Rightarrow> c2\<lparr>rc_unlock_dlcs := b\<rparr>"
  let ?reason = "''identity is derived from the profile key''"
  let ?e = "reject_unsupported source ''productuserid'' ?reason (reject_unsupported source ''epicid'' ?reason ?d)"
  have r: "resolve_unsupported source c = report_flag ''unlock_dlcs'' ''no ecom interface yet'' o2
      (report_flag ''enable_overlay'' ''no overlay to show'' o1 ?e)" by (simp add: resolve_unsupported_def 1 2)
  have all: "(silent ?e \<and> (\<forall>used. o1 \<noteq> Some (used, True))) \<and> (\<forall>used. o2 \<noteq> Some (used, True))"
    using assms unfolding r report_silent(1) .
  then have e: "silent ?e" and on: "\<forall>used. o1 \<noteq> Some (used, True)" "\<forall>used. o2 \<noteq> Some (used, True)" by blast+
  let ?inner = "reject_unsupported source ''epicid'' ?reason ?d"
  have "?e = ?inner" "silent ?inner" using reject_silent [OF e] e by simp_all
  with reject_silent [of source "''epicid''" ?reason ?d] have same: "?e = ?d" by simp
  have "silent (report_flag ''enable_overlay'' ''no overlay to show'' o1 ?e)" using e on(1) report_silent(1) by blast
  from report_silent(2) [OF this] report_silent(2) [of "''unlock_dlcs''" "''no ecom interface yet''" o2
      "report_flag ''enable_overlay'' ''no overlay to show'' o1 ?e"] assms r same e
  have d: "silent ?d" "resolve_unsupported source c = ?d" by simp_all
  then have "silent c2" by (auto split: option.splits)
  with 2 flag_silently [of ?c source "''EOSR_UNLOCK_DLCS''" "''unlock_dlcs''"] have c: "silent ?c" "c2 = ?c"
    by (auto simp: silently_def)
  then have "silent c1" by (auto split: option.splits)
  with 1 flag_silently [of c source "''EOSR_ENABLE_OVERLAY''" "''enable_overlay''"] have "silent c" "c1 = c"
    by (auto simp: silently_def)
  with c d on show ?thesis by (cases c; cases o1; cases o2) auto
qed

theorem silent_resolution_is_the_plain_one:
  assumes "rc_diagnostics (resolve_config absolute source defaults) = []"
  shows "resolve_config absolute source defaults = plain_config absolute source defaults"
proof -
  let ?c = "default_config defaults"
  define c1 where "c1 = resolve_display_name source ?c"
  define c2 where "c2 = resolve_trace_level source c1"
  define c3 where "c3 = resolve_trace_max_bytes source c2"
  define c4 where "c4 = resolve_trace_max_rotated_files source c3"
  define c5 where "c5 = resolve_discovery_ports source c4"
  define c6 where "c6 = resolve_instance_label source c5"
  define c7 where "c7 = resolve_trace_dir absolute source c6"
  define c8 where "c8 = resolve_run_dir source c7"
  define c9 where "c9 = resolve_locale source c8"
  define c10 where "c10 = resolve_log_level source c9"
  define c11 where "c11 = resolve_enable_lan source c10"
  have r: "resolve_config absolute source defaults = resolve_unsupported source c11"
    by (simp add: resolve_config_def c1_def c2_def c3_def c4_def c5_def c6_def c7_def c8_def c9_def c10_def c11_def)
  with assms have "silent (resolve_unsupported source c11)" by (simp add: silent_def)
  note s11 = unsupported_step [OF this]
  note s10 = enable_lan_step [of source c10, folded c11_def, OF s11 [THEN conjunct1]]
  note s9 = log_level_step [of source c9, folded c10_def, OF s10 [THEN conjunct1]]
  note s8 = locale_step [of source c8, folded c9_def, OF s9 [THEN conjunct1]]
  note s7 = run_dir_step [of source c7, folded c8_def, OF s8 [THEN conjunct1]]
  note s6 = trace_dir_step [of absolute source c6, folded c7_def, OF s7 [THEN conjunct1]]
  note s5 = instance_label_step [of source c5, folded c6_def, OF s6 [THEN conjunct1]]
  note s4 = discovery_ports_step [of source c4, folded c5_def, OF s5 [THEN conjunct1]]
  note s3 = trace_max_rotated_files_step [of source c3, folded c4_def, OF s4 [THEN conjunct1]]
  note s2 = trace_max_bytes_step [of source c2, folded c3_def, OF s3 [THEN conjunct1]]
  note s1 = trace_level_step [of source c1, folded c2_def, OF s2 [THEN conjunct1]]
  note s0 = display_name_step [of source ?c, folded c1_def, OF s1 [THEN conjunct1]]
  note eqs = s0 [THEN conjunct2] s1 [THEN conjunct2] s2 [THEN conjunct2] s3 [THEN conjunct2] s4 [THEN conjunct2]
    s5 [THEN conjunct2] s6 [THEN conjunct2] s7 [THEN conjunct2] s8 [THEN conjunct2] s9 [THEN conjunct2] s10 [THEN conjunct2]
  have c11: "c11 = plain_config absolute source defaults"
    unfolding eqs plain_config_def default_config_def by (simp add: Let_def)
  then have "resolve_unsupported source c11 = c11" using s11 by (simp add: plain_config_def)
  with r c11 show ?thesis by simp
qed

section \<open>What hides the file\<close>

text \<open>The three fields that are compared; a step of another field leaves them.\<close>

definition three_fields :: "resolved_config \<Rightarrow> bytes \<times> log_level \<times> bytes" where
  "three_fields c = (rc_locale c, rc_logging c, rc_instance_label c)"

lemma three_fields_diag: "only_diag c c' \<Longrightarrow> three_fields c' = three_fields c"
  by (auto simp: only_diag_def three_fields_def)

lemma three_fields_layers: "layer_ok good c r \<Longrightarrow> three_fields (snd r) = three_fields c"
  by (auto simp: layer_ok_def intro: three_fields_diag)

lemma three_fields_take:
  assumes "layer_ok good c r" "\<And>v c. three_fields (set_field v c) = three_fields c"
  shows "three_fields (take_found set_field r) = three_fields c"
  using three_fields_layers [OF assms(1)] assms(2)
  by (cases r; cases "fst r") (auto simp: take_found_def)

lemma three_fields_add: "three_fields (add_diag f s r a c) = three_fields c"
  by (rule three_fields_diag [OF only_diag_add])

lemma layers_ok_all:
  "layer_ok (\<lambda>_. True) c (trace_level_layers source c)"
  "layer_ok (\<lambda>_. True) c (discovery_ports_layers source c)"
  "layer_ok (\<lambda>_. True) c (display_name_layers source c)"
  unfolding trace_level_layers_def discovery_ports_layers_def display_name_layers_def
  by (auto intro!: silent_layers split: option.splits lookup.splits)

lemma three_fields_steps:
  "three_fields (resolve_trace_level source c) = three_fields c"
  "three_fields (resolve_discovery_ports source c) = three_fields c"
  "three_fields (resolve_enable_lan source c) = three_fields c"
  unfolding resolve_trace_level_def resolve_discovery_ports_def resolve_enable_lan_def
  by (rule three_fields_take [OF layers_ok_all(1)] three_fields_take [OF layers_ok_all(2)]
      three_fields_take [OF resolve_flag_ok], simp add: three_fields_def)+

lemma three_fields_display: "three_fields (resolve_display_name source c) = three_fields c"
proof -
  obtain f c' where r: "display_name_layers source c = (f, c')" by fastforce
  with three_fields_layers [OF layers_ok_all(3), of source c] show ?thesis
    by (cases f) (auto simp: resolve_display_name_def Let_def three_fields_def add_diag_def)
qed

lemma three_fields_integers:
  "three_fields (resolve_trace_max_bytes source c) = three_fields c"
  "three_fields (resolve_trace_max_rotated_files source c) = three_fields c"
proof -
  show "three_fields (resolve_trace_max_bytes source c) = three_fields c"
    using three_fields_layers [OF integer_layers_ok, of source "''EOSR_TRACE_MAX_BYTES''" "''trace_max_bytes''" c]
    by (cases "integer_layers source ''EOSR_TRACE_MAX_BYTES'' ''trace_max_bytes'' c")
      (auto simp: resolve_trace_max_bytes_def clamp_bytes_def three_fields_def add_diag_def split: option.splits)
  show "three_fields (resolve_trace_max_rotated_files source c) = three_fields c"
    using three_fields_layers [OF integer_layers_ok, of source "''EOSR_TRACE_MAX_ROTATED''" "''trace_max_rotated_files''" c]
    by (cases "integer_layers source ''EOSR_TRACE_MAX_ROTATED'' ''trace_max_rotated_files'' c")
      (auto simp: resolve_trace_max_rotated_files_def clamp_rotated_def three_fields_def add_diag_def split: option.splits)
qed

lemma three_fields_dirs:
  "three_fields (resolve_trace_dir absolute source c) = three_fields c"
  "three_fields (resolve_run_dir source c) = three_fields c"
proof -
  let ?r = "first_layer source ''EOSR_TRACE_DIR'' ''trace_dir'' (cs_file_string source ''trace_dir'') c"
  obtain f c' where "?r = (f, c')" by fastforce
  with three_fields_layers [OF first_layer_ok, of source "''EOSR_TRACE_DIR''" "''trace_dir''" "cs_file_string source ''trace_dir''" c]
  show "three_fields (resolve_trace_dir absolute source c) = three_fields c"
    by (cases f) (auto simp: resolve_trace_dir_def trace_dir_choice_def three_fields_def add_diag_def split: option.splits)
  show "three_fields (resolve_run_dir source c) = three_fields c"
    by (auto simp: resolve_run_dir_def three_fields_def add_diag_def split: option.splits)
qed

lemma three_fields_unsupported: "three_fields (resolve_unsupported source c) = three_fields c"
proof -
  obtain o1 c1 where 1: "resolve_flag source ''EOSR_ENABLE_OVERLAY'' ''enable_overlay'' c = (o1, c1)" by fastforce
  let ?c = "case o1 of None \<Rightarrow> c1 | Some (_, b) \<Rightarrow> c1\<lparr>rc_enable_overlay := b\<rparr>"
  obtain o2 c2 where 2: "resolve_flag source ''EOSR_UNLOCK_DLCS'' ''unlock_dlcs'' ?c = (o2, c2)" by fastforce
  from three_fields_layers [OF resolve_flag_ok, of source "''EOSR_ENABLE_OVERLAY''" "''enable_overlay''" c] 1
    three_fields_layers [OF resolve_flag_ok, of source "''EOSR_UNLOCK_DLCS''" "''unlock_dlcs''" ?c] 2
  have "three_fields c1 = three_fields c" "three_fields c2 = three_fields ?c" by auto
  then show ?thesis
    by (auto simp: resolve_unsupported_def 1 2 report_flag_def reject_unsupported_def three_fields_def add_diag_def
        split: option.splits)
qed

lemmas three_fields_kept = three_fields_steps three_fields_display three_fields_integers three_fields_dirs
  three_fields_unsupported

lemma label_step:
  assumes "env_value source ''EOSR_INSTANCE_LABEL'' = Some raw" "\<not> valid_label raw"
    "cs_file_string source ''instance_label'' = lk_ok label" "valid_label label"
  shows "rc_instance_label (resolve_instance_label source c) = label"
  using assms
  by (auto simp: resolve_instance_label_def instance_label_layers_def or_else_def take_found_def valid_label_def)

lemma locale_hidden:
  assumes "env_value source ''EOSR_LOCALE'' = Some raw" "\<not> valid_locale raw"
  shows "rc_locale (resolve_locale source c) = rc_locale c"
  using assms by (simp add: resolve_locale_def first_layer_def add_diag_def)

lemma log_level_hidden:
  assumes "env_value source ''EOSR_LOG_LEVEL'' = Some raw" "parse_log_level raw = None"
  shows "rc_logging (resolve_log_level source c) = rc_logging c"
  using assms by (simp add: resolve_log_level_def first_layer_def add_diag_def)

theorem rejected_environment_hides_the_file:
  "(env_value source ''EOSR_LOCALE'' = Some raw \<and> \<not> valid_locale raw \<longrightarrow>
      rc_locale (resolve_config absolute source defaults) = ascii ''en'') \<and>
   (env_value source ''EOSR_LOG_LEVEL'' = Some raw \<and> parse_log_level raw = None \<longrightarrow>
      rc_logging (resolve_config absolute source defaults) = ll_off) \<and>
   (env_value source ''EOSR_INSTANCE_LABEL'' = Some raw \<and> \<not> valid_label raw \<and>
    cs_file_string source ''instance_label'' = lk_ok label \<and> valid_label label \<longrightarrow>
      rc_instance_label (resolve_config absolute source defaults) = label)"
proof -
  define c5 where "c5 = (resolve_discovery_ports source \<circ> resolve_trace_max_rotated_files source \<circ>
    resolve_trace_max_bytes source \<circ> resolve_trace_level source \<circ> resolve_display_name source) (default_config defaults)"
  define c6 where "c6 = resolve_instance_label source c5"
  define c8 where "c8 = resolve_run_dir source (resolve_trace_dir absolute source c6)"
  define c9 where "c9 = resolve_locale source c8"
  define c10 where "c10 = resolve_log_level source c9"
  have "three_fields c5 = three_fields (default_config defaults)" by (simp add: c5_def three_fields_kept)
  then have 5: "rc_locale c5 = ascii ''en''" "rc_logging c5 = ll_off" by (simp_all add: three_fields_def default_config_def)
  have others: "rc_locale (resolve_instance_label source c) = rc_locale c" "rc_logging (resolve_instance_label source c) = rc_logging c" for c
    using instance_label_silently [of c source]
    by (auto simp: resolve_instance_label_def take_found_def instance_label_layers_def or_else_def add_diag_def
        split: option.splits prod.splits lookup.splits if_splits)
  have kept: "three_fields c8 = three_fields c6" by (simp add: c8_def three_fields_kept)
  have locale_others: "rc_logging (resolve_locale source c) = rc_logging c" "rc_instance_label (resolve_locale source c) = rc_instance_label c"
    and log_others: "rc_locale (resolve_log_level source c) = rc_locale c" "rc_instance_label (resolve_log_level source c) = rc_instance_label c" for c
    by (auto simp: resolve_locale_def resolve_log_level_def first_layer_def add_diag_def split: option.splits lookup.splits prod.splits)
  have end_state: "three_fields (resolve_config absolute source defaults) = three_fields c10"
    by (simp add: resolve_config_def c10_def c9_def c8_def c6_def c5_def three_fields_kept)
  then have final: "rc_locale (resolve_config absolute source defaults) = rc_locale c10"
    "rc_logging (resolve_config absolute source defaults) = rc_logging c10"
    "rc_instance_label (resolve_config absolute source defaults) = rc_instance_label c10"
    by (simp_all add: three_fields_def)
  from kept have c8: "rc_locale c8 = rc_locale c6" "rc_logging c8 = rc_logging c6" "rc_instance_label c8 = rc_instance_label c6"
    by (simp_all add: three_fields_def)
  show ?thesis
    using 5 others c8 locale_others log_others locale_hidden [of source raw c8] log_level_hidden [of source raw c9]
      label_step [of source raw label c5]
    by (simp add: final c10_def c9_def c6_def)
qed

section \<open>Witnesses\<close>

definition sample_source :: "(string \<times> bytes) list \<Rightarrow> (bytes \<times> json) list \<Rightarrow> config_source" where
  "sample_source env members = system_config_source (map_of env) (written_config members)"

definition sample_defaults :: config_defaults where
  "sample_defaults = \<lparr>df_data_dir = ascii ''/d'', df_default_ports = \<lparr>dr_first = 45700, dr_last = 45703\<rparr>\<rparr>"

lemma sample_silent:
  "rc_diagnostics (resolve_config path_is_absolute_posix (sample_source [(''EOSR_LOCALE'', ascii ''de'')] []) sample_defaults) = []"
  by code_simp

theorem silent_resolution_is_the_plain_one_witness:
  "rc_locale (resolve_config path_is_absolute_posix (sample_source [(''EOSR_LOCALE'', ascii ''de'')] []) sample_defaults) =
   rc_locale (plain_config path_is_absolute_posix (sample_source [(''EOSR_LOCALE'', ascii ''de'')] []) sample_defaults)"
  by (simp only: silent_resolution_is_the_plain_one [OF sample_silent])

theorem rejected_environment_hides_the_file_witness:
  "rc_locale (resolve_config path_is_absolute_posix
     (sample_source [(''EOSR_LOCALE'', ascii ''d3'')] [(ascii ''locale'', j_string (ascii ''de''))]) sample_defaults) = ascii ''en''"
proof -
  have "env_value (sample_source [(''EOSR_LOCALE'', ascii ''d3'')] [(ascii ''locale'', j_string (ascii ''de''))]) ''EOSR_LOCALE'' =
      Some (ascii ''d3'')" "\<not> valid_locale (ascii ''d3'')" by code_simp+
  then show ?thesis using rejected_environment_hides_the_file by blast
qed

end
