(* ===== verification/Trace_Events.thy ===== *)
theory Trace_Events
  imports Json_Documents
begin

text \<open>
  \<^verbatim>\<open>core/trace_event.cpp\<close>: the records of a trace.  Text enters the body of a record only through a value that passed
  a format check, and a field only under the name, with the type and in the body the schema gives it.
\<close>

section \<open>Values\<close>

datatype trace_kind = tk_int | tk_uint | tk_flag | tk_label | tk_fingerprint | tk_enum

record trace_value =
  tv_type :: trace_kind
  tv_int_value :: i64
  tv_uint_value :: u64
  tv_flag_value :: bool
  tv_text :: bytes
  tv_valid :: bool

definition max_record_bytes :: nat where "max_record_bytes = 60000"
definition max_body_fields :: nat where "max_body_fields = 32"
definition max_label_bytes :: nat where "max_label_bytes = 64"
definition max_name_bytes :: nat where "max_name_bytes = 128"

lemmas trace_limits = max_record_bytes_def max_body_fields_def max_label_bytes_def max_name_bytes_def

definition is_lower_hex :: "u8 \<Rightarrow> bool" where
  "is_lower_hex c \<longleftrightarrow> 0x30 \<le> c \<and> c \<le> 0x39 \<or> 0x61 \<le> c \<and> c \<le> 0x66"

definition is_ident_start :: "u8 \<Rightarrow> bool" where
  "is_ident_start c \<longleftrightarrow> 0x61 \<le> c \<and> c \<le> 0x7A \<or> 0x41 \<le> c \<and> c \<le> 0x5A \<or> c = 0x5F"

definition is_ident_char :: "u8 \<Rightarrow> bool" where
  "is_ident_char c \<longleftrightarrow> is_ident_start c \<or> 0x30 \<le> c \<and> c \<le> 0x39"

definition valid_ident :: "bytes \<Rightarrow> nat \<Rightarrow> bool" where
  "valid_ident text cap \<longleftrightarrow>
     text \<noteq> [] \<and> length text \<le> cap \<and> is_ident_start (hd text) \<and> list_all is_ident_char (tl text)"

definition byte_hash :: u8 where "byte_hash = 0x23"

definition trace_label_ok :: "bytes \<Rightarrow> bool" where
  "trace_label_ok text \<longleftrightarrow>
     (let name = takeWhile (\<lambda>c. c \<noteq> byte_hash) text; digits = drop (length name + 1) text in
      text \<noteq> [] \<and> length text \<le> max_label_bytes \<and>
      byte_hash \<in> set text \<and> name \<noteq> [] \<and> digits \<noteq> [] \<and>
      0x61 \<le> hd text \<and> hd text \<le> 0x7A \<and>
      list_all (\<lambda>c. 0x61 \<le> c \<and> c \<le> 0x7A \<or> 0x30 \<le> c \<and> c \<le> 0x39 \<or> c = 0x5F) name \<and>
      list_all (\<lambda>c. 0x30 \<le> c \<and> c \<le> 0x39) digits)"

definition valid_fingerprint :: "bytes \<Rightarrow> bool" where
  "valid_fingerprint text \<longleftrightarrow> length text = 16 \<and> list_all is_lower_hex text"

definition no_value :: trace_value where
  "no_value = \<lparr>tv_type = tk_int, tv_int_value = 0, tv_uint_value = 0, tv_flag_value = False, tv_text = [], tv_valid = False\<rparr>"

definition tv_int :: "i64 \<Rightarrow> trace_value" where
  "tv_int i = no_value\<lparr>tv_type := tk_int, tv_int_value := i, tv_valid := True\<rparr>"

definition tv_uint :: "u64 \<Rightarrow> trace_value" where
  "tv_uint i = no_value\<lparr>tv_type := tk_uint, tv_uint_value := i, tv_valid := True\<rparr>"

definition tv_flag :: "bool \<Rightarrow> trace_value" where
  "tv_flag b = no_value\<lparr>tv_type := tk_flag, tv_flag_value := b, tv_valid := True\<rparr>"

definition tv_label :: "bytes \<Rightarrow> trace_value" where
  "tv_label s = no_value\<lparr>tv_type := tk_label, tv_text := s, tv_valid := trace_label_ok s\<rparr>"

definition tv_fingerprint :: "bytes \<Rightarrow> trace_value" where
  "tv_fingerprint s = no_value\<lparr>tv_type := tk_fingerprint, tv_text := s, tv_valid := valid_fingerprint s\<rparr>"

definition tv_enum :: "bytes \<Rightarrow> trace_value" where
  "tv_enum s = no_value\<lparr>tv_type := tk_enum, tv_text := s, tv_valid := valid_ident s max_label_bytes\<rparr>"

section \<open>The schema\<close>

text \<open>A number outside the enumeration is treated as \<open>fi_invalid\<close> is.\<close>

datatype field_id =
    fi_invalid | fi_peer | fi_peer_fp | fi_bytes | fi_channel | fi_reliability | fi_port_first | fi_port_last | fi_reason
  | fi_handle | fi_local | fi_target | fi_puid | fi_eaid | fi_account | fi_socket | fi_lobby | fi_session
  | fi_cred_type | fi_status | fi_index | fi_count | fi_len
  | fi_dropped_files | fi_dropped_bytes | fi_source | fi_level
  | fi_config_field | fi_action | fi_port

record trace_field =
  tf_id :: field_id
  tf_value :: trace_value

definition make_field :: "field_id \<Rightarrow> trace_value \<Rightarrow> trace_field" where
  "make_field i v = \<lparr>tf_id = i, tf_value = v\<rparr>"

datatype record_kind = rk_meta | rk_call | rk_callback | rk_return | rk_notify | rk_net

fun field_info :: "field_id \<Rightarrow> (string \<times> trace_kind) option" where
  "field_info fi_peer = Some (''peer'', tk_label)"
| "field_info fi_peer_fp = Some (''peer_fp'', tk_fingerprint)"
| "field_info fi_bytes = Some (''bytes'', tk_uint)"
| "field_info fi_channel = Some (''channel'', tk_int)"
| "field_info fi_reliability = Some (''reliability'', tk_enum)"
| "field_info fi_port_first = Some (''port_first'', tk_uint)"
| "field_info fi_port_last = Some (''port_last'', tk_uint)"
| "field_info fi_reason = Some (''reason'', tk_enum)"
| "field_info fi_handle = Some (''handle'', tk_label)"
| "field_info fi_local = Some (''local'', tk_label)"
| "field_info fi_target = Some (''target'', tk_label)"
| "field_info fi_puid = Some (''puid'', tk_label)"
| "field_info fi_eaid = Some (''eaid'', tk_label)"
| "field_info fi_account = Some (''account'', tk_label)"
| "field_info fi_socket = Some (''socket'', tk_label)"
| "field_info fi_lobby = Some (''lobby'', tk_label)"
| "field_info fi_session = Some (''session'', tk_label)"
| "field_info fi_cred_type = Some (''cred_type'', tk_enum)"
| "field_info fi_status = Some (''status'', tk_enum)"
| "field_info fi_index = Some (''index'', tk_uint)"
| "field_info fi_count = Some (''count'', tk_uint)"
| "field_info fi_len = Some (''len'', tk_uint)"
| "field_info fi_dropped_files = Some (''dropped_files'', tk_uint)"
| "field_info fi_dropped_bytes = Some (''dropped_bytes'', tk_uint)"
| "field_info fi_source = Some (''source'', tk_enum)"
| "field_info fi_level = Some (''level'', tk_enum)"
| "field_info fi_config_field = Some (''field'', tk_enum)"
| "field_info fi_action = Some (''action'', tk_enum)"
| "field_info fi_port = Some (''port'', tk_uint)"
| "field_info fi_invalid = None"

fun body_fields :: "record_kind \<Rightarrow> field_id list" where
  "body_fields rk_meta =
     [fi_peer_fp, fi_config_field, fi_source, fi_reason, fi_action, fi_level, fi_dropped_files, fi_dropped_bytes]"
| "body_fields rk_net =
     [fi_peer, fi_peer_fp, fi_bytes, fi_channel, fi_reliability, fi_port, fi_port_first, fi_port_last, fi_reason,
      fi_socket, fi_count]"
| "body_fields rk_call =
     [fi_cred_type, fi_local, fi_target, fi_account, fi_socket, fi_channel, fi_reliability, fi_status, fi_index,
      fi_count, fi_len, fi_port_first, fi_port_last]"
| "body_fields rk_callback =
     [fi_puid, fi_eaid, fi_local, fi_target, fi_account, fi_handle, fi_status, fi_count, fi_session, fi_lobby]"
| "body_fields rk_return = [fi_handle, fi_session, fi_lobby, fi_len, fi_count]"
| "body_fields rk_notify = [fi_target, fi_local, fi_status]"

definition field_allowed :: "record_kind \<Rightarrow> field_id \<Rightarrow> bool" where
  "field_allowed body i \<longleftrightarrow> i \<in> set (body_fields body)"

section \<open>Writing a record\<close>

definition write_value :: "trace_value \<Rightarrow> json_writer \<Rightarrow> json_writer" where
  "write_value v w =
     (case tv_type v of
        tk_int \<Rightarrow> jw_value_int (tv_int_value v) w
      | tk_uint \<Rightarrow> jw_value_uint (tv_uint_value v) w
      | tk_flag \<Rightarrow> jw_value_bool (tv_flag_value v) w
      | _ \<Rightarrow> jw_value_string (tv_text v) w)"

fun write_fields :: "record_kind \<Rightarrow> field_id list \<Rightarrow> trace_field list \<Rightarrow> json_writer \<Rightarrow> json_writer" where
  "write_fields body seen [] w = w"
| "write_fields body seen (f # fs) w =
     (if max_body_fields \<le> length seen then w
      else
        (case field_info (tf_id f) of
           None \<Rightarrow> write_fields body seen fs w
         | Some (name, kind) \<Rightarrow>
             if \<not> field_allowed body (tf_id f) \<or> tv_type (tf_value f) \<noteq> kind \<or> \<not> tv_valid (tf_value f) \<or>
                tf_id f \<in> set seen
             then write_fields body seen fs w
             else write_fields body (seen @ [tf_id f]) fs
                    (write_value (tf_value f) (jw_key (bytes_of_string name) w))))"

definition write_group :: "string \<Rightarrow> record_kind \<Rightarrow> trace_field list \<Rightarrow> json_writer \<Rightarrow> json_writer" where
  "write_group name body fs w =
     jw_end_object (write_fields body [] fs (jw_begin_object (jw_key (bytes_of_string name) w)))"

record trace_envelope =
  te_schema_version :: u32
  te_seq :: u64
  te_t_mono_ns :: u64
  te_pid :: u64
  te_inst :: bytes
  te_tid :: bytes

definition field_uint :: "string \<Rightarrow> u64 \<Rightarrow> json_writer \<Rightarrow> json_writer" where
  "field_uint name v w = jw_value_uint v (jw_key (bytes_of_string name) w)"

definition field_int :: "string \<Rightarrow> i64 \<Rightarrow> json_writer \<Rightarrow> json_writer" where
  "field_int name v w = jw_value_int v (jw_key (bytes_of_string name) w)"

definition field_string :: "string \<Rightarrow> bytes \<Rightarrow> json_writer \<Rightarrow> json_writer" where
  "field_string name v w = jw_value_string v (jw_key (bytes_of_string name) w)"

definition field_bool :: "string \<Rightarrow> bool \<Rightarrow> json_writer \<Rightarrow> json_writer" where
  "field_bool name v w = jw_value_bool v (jw_key (bytes_of_string name) w)"

definition field_null :: "string \<Rightarrow> json_writer \<Rightarrow> json_writer" where
  "field_null name w = jw_value_null (jw_key (bytes_of_string name) w)"

definition write_envelope :: "trace_envelope \<Rightarrow> string \<Rightarrow> json_writer \<Rightarrow> json_writer" where
  "write_envelope env kind w =
     (let w1 = field_uint ''pid'' (te_pid env) (field_uint ''t'' (te_t_mono_ns env) (field_uint ''seq'' (te_seq env)
                 (field_uint ''v'' (ucast (te_schema_version env)) w)));
          w2 = (if te_inst env = [] then field_null ''inst'' w1 else field_string ''inst'' (te_inst env) w1)
      in field_string ''kind'' (bytes_of_string kind) (field_string ''tid'' (te_tid env) w2))"

definition json_finish :: "json_writer \<Rightarrow> bytes" where
  "json_finish w = (if jw_ok w then jw_out w else [])"

record trace_result_code =
  rr_code :: i32
  rr_name :: bytes

datatype return_kind = r_result | r_value | r_void

record trace_return =
  tr_type :: return_kind
  tr_result :: trace_result_code
  tr_value_type :: string
  tr_value :: trace_value
  tr_value_is_null :: bool
  tr_out :: "trace_field list"

definition return_value_ok :: "trace_return \<Rightarrow> bool" where
  "return_value_ok r =
     (if tr_value_is_null r
      then \<not> tv_valid (tr_value r) \<and> (tr_value_type r = ''handle'' \<or> tr_value_type r = ''notification_id'')
      else if \<not> tv_valid (tr_value r) then False
      else
        (let t = tr_value_type r; k = tv_type (tr_value r) in
         if t = ''bool'' then k = tk_flag
         else if t = ''count'' \<or> t = ''flags'' \<or> t = ''length'' then k = tk_uint
         else if t = ''handle'' \<or> t = ''notification_id'' then k = tk_label
         else if t = ''enum'' then k = tk_enum
         else False))"

definition no_return :: trace_return where
  "no_return = \<lparr>tr_type = r_void, tr_result = \<lparr>rr_code = 0, rr_name = []\<rparr>, tr_value_type = '''', tr_value = no_value,
     tr_value_is_null = False, tr_out = []\<rparr>"

definition return_result :: "i32 \<Rightarrow> bytes \<Rightarrow> trace_return" where
  "return_result code name = no_return\<lparr>tr_type := r_result, tr_result := \<lparr>rr_code = code, rr_name = name\<rparr>\<rparr>"

definition return_void :: trace_return where "return_void = no_return\<lparr>tr_type := r_void\<rparr>"

definition return_typed :: "string \<Rightarrow> trace_value \<Rightarrow> trace_return" where
  "return_typed t v = no_return\<lparr>tr_type := r_value, tr_value_type := t, tr_value := v\<rparr>"

definition return_bool :: "bool \<Rightarrow> trace_return" where "return_bool b = return_typed ''bool'' (tv_flag b)"
definition return_count :: "u64 \<Rightarrow> trace_return" where "return_count n = return_typed ''count'' (tv_uint n)"
definition return_flags :: "u64 \<Rightarrow> trace_return" where "return_flags n = return_typed ''flags'' (tv_uint n)"
definition return_length :: "u64 \<Rightarrow> trace_return" where "return_length n = return_typed ''length'' (tv_uint n)"
definition return_handle :: "bytes \<Rightarrow> trace_return" where "return_handle s = return_typed ''handle'' (tv_label s)"
definition return_enum :: "bytes \<Rightarrow> trace_return" where "return_enum s = return_typed ''enum'' (tv_enum s)"

definition return_notification_id :: "bytes \<Rightarrow> trace_return" where
  "return_notification_id s = return_typed ''notification_id'' (tv_label s)"

definition return_null_handle :: trace_return where
  "return_null_handle = no_return\<lparr>tr_type := r_value, tr_value_type := ''handle'', tr_value_is_null := True\<rparr>"

definition return_null_notification_id :: trace_return where
  "return_null_notification_id =
     no_return\<lparr>tr_type := r_value, tr_value_type := ''notification_id'', tr_value_is_null := True\<rparr>"

section \<open>The six records\<close>

definition new_record :: "trace_envelope \<Rightarrow> string \<Rightarrow> json_writer" where
  "new_record env kind = write_envelope env kind (jw_begin_object (new_json_writer max_record_bytes))"

definition corr_ok :: "bytes \<Rightarrow> bool" where "corr_ok corr \<longleftrightarrow> corr = [] \<or> trace_label_ok corr"

definition write_corr :: "bytes \<Rightarrow> json_writer \<Rightarrow> json_writer" where
  "write_corr corr w = (if corr = [] then w else field_string ''corr'' corr w)"

definition serialize_meta :: "trace_envelope \<Rightarrow> bytes \<Rightarrow> trace_field list \<Rightarrow> bytes" where
  "serialize_meta env event fs =
     (if \<not> valid_ident event max_name_bytes then []
      else json_finish (jw_end_object (write_fields rk_meta [] fs (field_string ''event'' event (new_record env ''meta'')))))"

definition serialize_call :: "trace_envelope \<Rightarrow> bytes \<Rightarrow> i32 \<Rightarrow> bytes \<Rightarrow> trace_field list \<Rightarrow> bytes" where
  "serialize_call env fn api corr args =
     (if \<not> valid_ident fn max_name_bytes \<or> \<not> corr_ok corr then []
      else
        (let w = write_corr corr (field_int ''api'' (scast api) (field_string ''fn'' fn (new_record env ''call'')))
         in json_finish (jw_end_object (write_group ''args'' rk_call args w))))"

definition write_return :: "trace_return \<Rightarrow> json_writer \<Rightarrow> json_writer" where
  "write_return r w =
     (case tr_type r of
        r_result \<Rightarrow>
          jw_end_object (field_string ''name'' (rr_name (tr_result r)) (field_int ''code'' (scast (rr_code (tr_result r)))
            (jw_begin_object (jw_key (bytes_of_string ''result'') w))))
      | r_value \<Rightarrow>
          (let w1 = jw_key (bytes_of_string ''v'') (field_string ''type'' (bytes_of_string (tr_value_type r))
                      (jw_begin_object (jw_key (bytes_of_string ''value'') w)))
           in jw_end_object (if tr_value_is_null r then jw_value_null w1 else write_value (tr_value r) w1))
      | r_void \<Rightarrow> field_bool ''void'' True w)"

definition serialize_return :: "trace_envelope \<Rightarrow> bytes \<Rightarrow> bytes \<Rightarrow> trace_return \<Rightarrow> bytes" where
  "serialize_return env fn corr r =
     (if \<not> valid_ident fn max_name_bytes \<or> \<not> corr_ok corr then []
      else if tr_type r = r_value \<and> \<not> return_value_ok r then []
      else if tr_type r = r_result \<and> \<not> valid_ident (rr_name (tr_result r)) max_name_bytes then []
      else
        (let w = write_return r (write_corr corr (field_string ''fn'' fn (new_record env ''return'')))
         in json_finish (jw_end_object (if tr_out r = [] then w else write_group ''out'' rk_return (tr_out r) w))))"

definition serialize_callback ::
  "trace_envelope \<Rightarrow> bytes \<Rightarrow> bytes \<Rightarrow> trace_result_code \<Rightarrow> trace_field list \<Rightarrow> bytes" where
  "serialize_callback env fn corr r payload =
     (if \<not> valid_ident fn max_name_bytes \<or> \<not> corr_ok corr then []
      else if rr_name r \<noteq> [] \<and> \<not> valid_ident (rr_name r) max_name_bytes then []
      else
        (let w = field_int ''code'' (scast (rr_code r)) (jw_begin_object (jw_key (bytes_of_string ''result'')
                   (write_corr corr (field_string ''fn'' fn (new_record env ''callback'')))));
             w1 = jw_end_object (if rr_name r = [] then field_null ''name'' w else field_string ''name'' (rr_name r) w)
         in json_finish (jw_end_object (write_group ''payload'' rk_callback payload w1))))"

definition serialize_notify ::
  "trace_envelope \<Rightarrow> bytes \<Rightarrow> bytes \<Rightarrow> bytes \<Rightarrow> trace_field list \<Rightarrow> bytes" where
  "serialize_notify env event action i fs =
     (if \<not> valid_ident event max_name_bytes \<or>
         action \<notin> {bytes_of_string ''register'', bytes_of_string ''remove'', bytes_of_string ''fire''} \<or>
         \<not> trace_label_ok i
      then []
      else json_finish (jw_end_object (write_fields rk_notify [] fs
             (field_string ''id'' i (field_string ''action'' action (field_string ''event'' event (new_record env ''notify'')))))))"

definition serialize_net :: "trace_envelope \<Rightarrow> bytes \<Rightarrow> trace_field list \<Rightarrow> bytes" where
  "serialize_net env event fs =
     (if \<not> valid_ident event max_name_bytes then []
      else json_finish (jw_end_object (write_fields rk_net [] fs (field_string ''event'' event (new_record env ''net'')))))"

end
