(* ===== verification/Trace_Documents.thy ===== *)
theory Trace_Documents
  imports Trace_Events
begin

text \<open>
  A trace record as a document: what each of the six functions of \<^theory_text>\<open>Trace_Events\<close> writes, and that it is
  one line of valid UTF-8 within the cap and three bytes.
\<close>

section \<open>The documents\<close>

definition value_json :: "trace_value \<Rightarrow> json" where
  "value_json v =
     (case tv_type v of
        tk_int \<Rightarrow> j_int (tv_int_value v)
      | tk_uint \<Rightarrow> j_uint (tv_uint_value v)
      | tk_flag \<Rightarrow> j_bool (tv_flag_value v)
      | _ \<Rightarrow> j_string (tv_text v))"

text \<open>The fields a body keeps, in order: known, allowed, of the right type, valid, and not yet there.\<close>

fun body_members :: "record_kind \<Rightarrow> field_id list \<Rightarrow> trace_field list \<Rightarrow> (bytes \<times> json) list" where
  "body_members body seen [] = []"
| "body_members body seen (f # fs) =
     (if max_body_fields \<le> length seen then []
      else
        (case field_info (tf_id f) of
           None \<Rightarrow> body_members body seen fs
         | Some (name, kind) \<Rightarrow>
             if field_allowed body (tf_id f) \<and> tv_type (tf_value f) = kind \<and> tv_valid (tf_value f) \<and> tf_id f \<notin> set seen
             then (bytes_of_string name, value_json (tf_value f)) # body_members body (seen @ [tf_id f]) fs
             else body_members body seen fs))"

abbreviation member :: "string \<Rightarrow> json \<Rightarrow> bytes \<times> json" where "member name v \<equiv> (bytes_of_string name, v)"

definition envelope_members :: "trace_envelope \<Rightarrow> string \<Rightarrow> (bytes \<times> json) list" where
  "envelope_members env kind =
     [member ''v'' (j_uint (ucast (te_schema_version env))), member ''seq'' (j_uint (te_seq env)),
      member ''t'' (j_uint (te_t_mono_ns env)), member ''pid'' (j_uint (te_pid env)),
      member ''inst'' (if te_inst env = [] then j_null else j_string (te_inst env)),
      member ''tid'' (j_string (te_tid env)), member ''kind'' (j_string (bytes_of_string kind))]"

definition corr_members :: "bytes \<Rightarrow> (bytes \<times> json) list" where
  "corr_members corr = (if corr = [] then [] else [member ''corr'' (j_string corr)])"

definition return_members :: "trace_return \<Rightarrow> (bytes \<times> json) list" where
  "return_members r =
     (case tr_type r of
        r_result \<Rightarrow>
          [member ''result'' (j_object [member ''code'' (j_int (scast (rr_code (tr_result r)))),
             member ''name'' (j_string (rr_name (tr_result r)))])]
      | r_value \<Rightarrow>
          [member ''value'' (j_object [member ''type'' (j_string (bytes_of_string (tr_value_type r))),
             member ''v'' (if tr_value_is_null r then j_null else value_json (tr_value r))])]
      | r_void \<Rightarrow> [member ''void'' (j_bool True)])"

datatype trace_record =
    tm_meta trace_envelope bytes "trace_field list"
  | tm_call trace_envelope bytes i32 bytes "trace_field list"
  | tm_return trace_envelope bytes bytes trace_return
  | tm_callback trace_envelope bytes bytes trace_result_code "trace_field list"
  | tm_notify trace_envelope bytes bytes bytes "trace_field list"
  | tm_net trace_envelope bytes "trace_field list"

fun serialize :: "trace_record \<Rightarrow> bytes" where
  "serialize (tm_meta env event fs) = serialize_meta env event fs"
| "serialize (tm_call env fn api corr args) = serialize_call env fn api corr args"
| "serialize (tm_return env fn corr r) = serialize_return env fn corr r"
| "serialize (tm_callback env fn corr r payload) = serialize_callback env fn corr r payload"
| "serialize (tm_notify env event action i fs) = serialize_notify env event action i fs"
| "serialize (tm_net env event fs) = serialize_net env event fs"

fun record_ok :: "trace_record \<Rightarrow> bool" where
  "record_ok (tm_meta env event fs) = valid_ident event max_name_bytes"
| "record_ok (tm_call env fn api corr args) = (valid_ident fn max_name_bytes \<and> corr_ok corr)"
| "record_ok (tm_return env fn corr r) =
     (valid_ident fn max_name_bytes \<and> corr_ok corr \<and> (tr_type r = r_value \<longrightarrow> return_value_ok r) \<and>
      (tr_type r = r_result \<longrightarrow> valid_ident (rr_name (tr_result r)) max_name_bytes))"
| "record_ok (tm_callback env fn corr r payload) =
     (valid_ident fn max_name_bytes \<and> corr_ok corr \<and> (rr_name r \<noteq> [] \<longrightarrow> valid_ident (rr_name r) max_name_bytes))"
| "record_ok (tm_notify env event action i fs) =
     (valid_ident event max_name_bytes \<and>
      action \<in> {bytes_of_string ''register'', bytes_of_string ''remove'', bytes_of_string ''fire''} \<and> trace_label_ok i)"
| "record_ok (tm_net env event fs) = valid_ident event max_name_bytes"

fun record_members :: "trace_record \<Rightarrow> (bytes \<times> json) list" where
  "record_members (tm_meta env event fs) =
     envelope_members env ''meta'' @ [member ''event'' (j_string event)] @ body_members rk_meta [] fs"
| "record_members (tm_call env fn api corr args) =
     envelope_members env ''call'' @ [member ''fn'' (j_string fn), member ''api'' (j_int (scast api))] @ corr_members corr @
     [member ''args'' (j_object (body_members rk_call [] args))]"
| "record_members (tm_return env fn corr r) =
     envelope_members env ''return'' @ [member ''fn'' (j_string fn)] @ corr_members corr @ return_members r @
     (if tr_out r = [] then [] else [member ''out'' (j_object (body_members rk_return [] (tr_out r)))])"
| "record_members (tm_callback env fn corr r payload) =
     envelope_members env ''callback'' @ [member ''fn'' (j_string fn)] @ corr_members corr @
     [member ''result'' (j_object [member ''code'' (j_int (scast (rr_code r))),
        member ''name'' (if rr_name r = [] then j_null else j_string (rr_name r))]),
      member ''payload'' (j_object (body_members rk_callback [] payload))]"
| "record_members (tm_notify env event action i fs) =
     envelope_members env ''notify'' @
     [member ''event'' (j_string event), member ''action'' (j_string action), member ''id'' (j_string i)] @
     body_members rk_notify [] fs"
| "record_members (tm_net env event fs) =
     envelope_members env ''net'' @ [member ''event'' (j_string event)] @ body_members rk_net [] fs"

definition record_doc :: "trace_record \<Rightarrow> json" where "record_doc r = j_object (record_members r)"

section \<open>Writing is making the calls of the document\<close>

definition does :: "json_writer \<Rightarrow> (bytes \<times> json) list \<Rightarrow> json_writer" where
  "does w members = foldl json_do w (concat (map (\<lambda>(name, v). jc_key name # json_calls v) members))"

lemma does_append: "does w (ms @ ms') = does (does w ms) ms'"
  by (simp add: does_def)

lemma does_Nil: "does w [] = w"
  by (simp add: does_def)

lemma does_scalar: "json_calls v = [c] \<Longrightarrow> does w ((name, v) # ms) = does (json_do (jw_key name w) c) ms"
  by (simp add: does_def)

lemma does_object:
  "does w ((name, j_object ms) # ms') = does (jw_end_object (does (jw_begin_object (jw_key name w)) ms)) ms'"
  by (simp add: does_def)

lemma write_value_calls: "json_calls (value_json v) = [c] \<Longrightarrow> write_value v w = json_do w c"
  by (auto simp: write_value_def value_json_def split: trace_kind.splits)

lemma value_json_calls: "\<exists>c. json_calls (value_json v) = [c] \<and> \<not> is_close c"
  by (simp add: value_json_def is_close_def split: trace_kind.splits)

lemma does_value: "does w ((name, value_json v) # ms) = does (write_value v (jw_key name w)) ms"
  using value_json_calls [of v] write_value_calls by (metis does_scalar)

lemma write_fields_does: "write_fields body seen fs w = does w (body_members body seen fs)"
  by (induction body seen fs w rule: write_fields.induct) (auto simp: does_Nil does_value split: option.splits)

lemmas writes_does = does_append does_Nil does_scalar does_object does_value write_fields_does

lemma write_envelope_does: "write_envelope env kind w = does w (envelope_members env kind)"
  by (simp add: write_envelope_def envelope_members_def Let_def writes_does field_uint_def field_null_def field_string_def)

lemma write_corr_does: "write_corr corr w = does w (corr_members corr)"
  by (simp add: write_corr_def corr_members_def writes_does field_string_def)

lemma write_return_does: "write_return r w = does w (return_members r)"
  by (simp add: write_return_def return_members_def Let_def writes_does field_string_def field_int_def field_bool_def
      split: return_kind.splits)

lemma write_group_does: "write_group name body fs w = does w [member name (j_object (body_members body [] fs))]"
  by (simp add: write_group_def writes_does)

lemma record_run:
  "json_run max_record_bytes (json_calls (record_doc r)) = jw_end_object (does (jw_begin_object (new_json_writer max_record_bytes)) (record_members r))"
  by (simp add: json_run_def record_doc_def does_def)

lemma serialize_doc:
  "serialize r = (if record_ok r then json_finish (json_run max_record_bytes (json_calls (record_doc r))) else [])"
  unfolding record_run
  by (cases r)
    (auto simp: serialize_meta_def serialize_call_def serialize_return_def serialize_callback_def serialize_notify_def
      serialize_net_def new_record_def write_envelope_does write_corr_does write_return_does write_group_does
      writes_does field_string_def field_int_def field_null_def Let_def)

section \<open>A record is its document\<close>

lemma uncapped_place:
  "value_place (w\<lparr>jw_max_bytes := 0\<rparr>) = value_place w" "value_levels (w\<lparr>jw_max_bytes := 0\<rparr>) = value_levels w"
  "jw_fits w n \<Longrightarrow> jw_fits (w\<lparr>jw_max_bytes := 0\<rparr>) n"
  by (simp_all add: value_place_def value_levels_def jw_fits_def)

lemma uncapped_step:
  "step_value text inside w = Some w' \<Longrightarrow> step_value text inside (w\<lparr>jw_max_bytes := 0\<rparr>) = Some (w'\<lparr>jw_max_bytes := 0\<rparr>)"
  "step_close is_object b w = Some w' \<Longrightarrow> step_close is_object b (w\<lparr>jw_max_bytes := 0\<rparr>) = Some (w'\<lparr>jw_max_bytes := 0\<rparr>)"
  "step_key name w = Some w' \<Longrightarrow> step_key name (w\<lparr>jw_max_bytes := 0\<rparr>) = Some (w'\<lparr>jw_max_bytes := 0\<rparr>)"
proof -
  show "step_value text inside w = Some w' \<Longrightarrow> step_value text inside (w\<lparr>jw_max_bytes := 0\<rparr>) = Some (w'\<lparr>jw_max_bytes := 0\<rparr>)"
    by (cases "value_place w"; cases "inside @ jw_levels w = []")
      (simp_all add: step_value_def uncapped_place split: if_split_asm, auto)
  show "step_close is_object b w = Some w' \<Longrightarrow> step_close is_object b (w\<lparr>jw_max_bytes := 0\<rparr>) = Some (w'\<lparr>jw_max_bytes := 0\<rparr>)"
    by (cases "jw_levels w") (simp_all add: step_close_def split: if_split_asm, auto)
  show "step_key name w = Some w' \<Longrightarrow> step_key name (w\<lparr>jw_max_bytes := 0\<rparr>) = Some (w'\<lparr>jw_max_bytes := 0\<rparr>)"
    by (cases "jw_levels w") (simp_all add: step_key_def Let_def uncapped_place split: if_split_asm, auto simp: uncapped_place)
qed

lemma json_step_uncapped:
  "json_step w c = Some w' \<Longrightarrow> json_step (w\<lparr>jw_max_bytes := 0\<rparr>) c = Some (w'\<lparr>jw_max_bytes := 0\<rparr>)"
  using uncapped_step by (cases c) simp_all

lemma json_run_uncapped:
  "jw_valid (json_run cap calls) \<Longrightarrow> json_run 0 calls = (json_run cap calls)\<lparr>jw_max_bytes := 0\<rparr>"
proof (induction calls rule: rev_induct)
  case Nil
  show ?case by (simp add: json_run_def new_json_writer_def)
next
  case (snoc c calls)
  let ?w = "json_run cap calls"
  have v: "jw_valid ?w" using snoc.prems json_do_invalid by (auto simp: json_run_snoc)
  with json_run_writes have k: "key_in_object ?w" by auto
  from call_meets_Some [OF json_do_step [OF v k]] snoc.prems
  have "json_step ?w c = Some (json_do ?w c)" by (auto simp: json_run_snoc)
  from json_step_uncapped [OF this] json_do_step [of "?w\<lparr>jw_max_bytes := 0\<rparr>" c] v k
  have "json_do (?w\<lparr>jw_max_bytes := 0\<rparr>) c = (json_do ?w c)\<lparr>jw_max_bytes := 0\<rparr>"
    by (simp add: call_meets_def key_in_object_def)
  with snoc.IH [OF v] show ?case by (simp add: json_run_snoc)
qed

lemma json_finish_doc:
  assumes "cap \<noteq> 0"
  shows "json_finish (json_run cap (json_calls doc)) \<in> {[], json_render doc}"
    and "length (json_render doc) \<le> cap \<Longrightarrow> json_finish (json_run cap (json_calls doc)) = json_render doc"
    and "json_finish (json_run cap (json_calls doc)) \<noteq> [] \<Longrightarrow>
      length (json_render doc) \<le> cap + length (filter is_close (json_calls doc))"
proof -
  have out: "jw_out (json_run cap (json_calls doc)) = json_render doc" if "jw_ok (json_run cap (json_calls doc))"
    using that json_run_uncapped [of cap "json_calls doc"] json_complete(2) [of 0 doc] by (simp add: jw_ok_def)
  then show "json_finish (json_run cap (json_calls doc)) \<in> {[], json_render doc}" by (simp add: json_finish_def)
  show "json_finish (json_run cap (json_calls doc)) = json_render doc" if "length (json_render doc) \<le> cap"
    using json_complete [of cap doc] that by (simp add: json_finish_def)
  show "length (json_render doc) \<le> cap + length (filter is_close (json_calls doc))"
    if "json_finish (json_run cap (json_calls doc)) \<noteq> []"
    using that out json_run_cap [OF assms, of "json_calls doc"] by (auto simp: json_finish_def jw_ok_def split: if_splits)
qed

text \<open>The closing brackets of a record: its own, of its result or value, and of its last group.\<close>

definition closes :: "(bytes \<times> json) list \<Rightarrow> nat" where
  "closes members = length (filter is_close (concat (map (\<lambda>(name, v). jc_key name # json_calls v) members)))"

lemma closes_append: "closes (ms @ ms') = closes ms + closes ms'"
  by (simp add: closes_def)

lemma closes_Nil: "closes [] = 0"
  by (simp add: closes_def)

lemma closes_scalar: "json_calls v = [c] \<Longrightarrow> \<not> is_close c \<Longrightarrow> closes ((name, v) # ms) = closes ms"
  by (simp add: closes_def is_close_def)

lemma closes_object: "closes ((name, j_object ms) # ms') = Suc (closes ms + closes ms')"
  by (simp add: closes_def is_close_def)

lemma closes_body: "closes (body_members body seen fs) = 0"
  using value_json_calls closes_scalar
  by (induction body seen fs rule: body_members.induct) (auto simp: closes_Nil split: option.splits, metis)

lemma closes_record: "length (filter is_close (json_calls (record_doc r))) \<le> 3"
proof -
  have "closes (record_members r) \<le> 2"
  proof (cases r)
    case (tm_return env fn corr ret)
    obtain c where c: "json_calls (value_json (tr_value ret)) = [c]" "\<not> is_close c" using value_json_calls by blast
    show ?thesis
      by (cases "tr_type ret")
        (simp_all add: tm_return closes_append closes_Nil closes_scalar closes_object closes_body envelope_members_def
          corr_members_def return_members_def is_close_def c [unfolded is_close_def])
  qed (simp_all add: closes_append closes_Nil closes_scalar closes_object closes_body envelope_members_def
      corr_members_def is_close_def)
  then show ?thesis by (simp add: record_doc_def closes_def is_close_def)
qed

theorem a_record_is_its_document:
  "serialize r \<in> {[], json_render (record_doc r)} \<and>
   (record_ok r \<and> length (json_render (record_doc r)) \<le> max_record_bytes \<longrightarrow> serialize r = json_render (record_doc r)) \<and>
   (serialize r \<noteq> [] \<longrightarrow> record_ok r \<and> length (serialize r) \<le> max_record_bytes + 3)"
proof -
  have cap: "max_record_bytes \<noteq> 0" by (simp add: trace_limits)
  note f = json_finish_doc [OF cap, of "record_doc r"]
  show ?thesis using f closes_record [of r] by (cases "record_ok r") (auto simp: serialize_doc)
qed

section \<open>One line of UTF-8\<close>

definition clean :: "bytes \<Rightarrow> bool" where "clean s \<longleftrightarrow> utf8_valid s \<and> list_all (\<lambda>c. 0x20 \<le> c) s"

definition is_digit_byte :: "u8 \<Rightarrow> bool" where "is_digit_byte c \<longleftrightarrow> 0x30 \<le> c \<and> c \<le> 0x39"

lemma clean_append: "clean s \<Longrightarrow> clean t \<Longrightarrow> clean (s @ t)"
  by (simp add: clean_def utf8_valid_append)

lemma clean_Nil: "clean []"
  by (simp add: clean_def)

lemma clean_Cons: "0x20 \<le> c \<Longrightarrow> c < 0x80 \<Longrightarrow> clean s \<Longrightarrow> clean (c # s)"
  using utf8_valid_step [OF decode_utf8_ascii, of c s] by (simp add: clean_def)

lemma control_clean: "list_all (\<lambda>n. clean (append_u_escape (ucast (word_of_nat n :: u8)))) [0..<32]"
  by code_simp

lemma control_escape_clean: "(c :: u8) < 0x20 \<Longrightarrow> clean (append_u_escape (ucast c))"
proof -
  assume "c < 0x20"
  then have "unat c \<in> set [0..<32]" by (simp add: word_less_nat_alt)
  with control_clean have "(\<lambda>n. clean (append_u_escape (ucast (word_of_nat n :: u8)))) (unat c)"
    by (simp only: list_all_iff)
  then show ?thesis by simp
qed

lemma high_byte:
  assumes "drop_bit 6 c = 2 \<or> \<not> c < 0x80" shows "(0x20 :: u8) \<le> c"
  using assms
proof
  assume "drop_bit 6 c = 2"
  then have "unat c div 64 = 2" using unat_drop_bit_eq [of 6 c] by (simp add: drop_bit_eq_div)
  then show ?thesis by (simp add: word_le_nat_alt)
next
  assume "\<not> c < 0x80"
  then show ?thesis by (simp add: word_le_nat_alt word_less_nat_alt)
qed

lemma scalar_clean:
  assumes "decode_utf8 (c # s) = Some n" "\<not> c < 0x80" shows "clean (take n (c # s))"
proof -
  from decode_utf8_length [OF assms(1)] have n: "1 \<le> n" "n \<le> length (c # s)" by simp_all
  have "utf8_valid (take n (c # s))"
    using utf8_valid_step [OF decode_utf8_prefix [OF assms(1), of "[]"]] n by simp
  moreover from assms(1) have "list_all (\<lambda>c. 0x20 \<le> c) (take n (c # s))"
  proof (cases rule: decode_utf8_cases)
    case (ascii c' rest)
    with assms(2) show ?thesis by simp
  next
    case (wide lead rest bits cp)
    from n(1) obtain k where k: "n = Suc k" by (cases n) auto
    from utf8_continue_bytes [OF wide(5)] k have "list_all (\<lambda>c. drop_bit 6 c = 2) (take k rest)" by simp
    with wide k high_byte show ?thesis by (auto simp: list_all_iff)
  qed
  ultimately show ?thesis by (simp add: clean_def)
qed

lemma json_unit_clean: "json_unit c rest = (bs, n) \<Longrightarrow> clean bs"
proof -
  have "clean replacement" by code_simp
  moreover have "clean [byte_escape, e]" if "short_escape c = Some e" for e
    using that by (auto simp: short_escape_def json_bytes intro!: clean_Cons clean_Nil split: if_splits)
  ultimately show "json_unit c rest = (bs, n) \<Longrightarrow> clean bs"
    by (auto simp: json_unit_def not_less intro: control_escape_clean scalar_clean clean_Cons clean_Nil
        split: option.splits if_splits)
qed

lemma json_text_clean: "clean (json_text s)"
proof (induction s rule: json_text.induct)
  case (2 c rest)
  obtain bs n where u: "json_unit c rest = (bs, n)" by fastforce
  with "2.IH" [OF u [symmetric]] json_unit_clean [OF u] show ?case by (simp add: clean_append)
qed (simp add: clean_Nil)

lemma json_quoted_clean: "clean (json_quoted s)"
  by (auto simp: json_quoted_def byte_quote_def intro!: clean_Cons clean_append json_text_clean clean_Nil)

lemma digits_clean: "list_all is_digit_byte s \<Longrightarrow> clean s"
proof (induction s)
  case (Cons c s)
  then have "0x20 \<le> c" using order_trans [of "0x20 :: u8" "0x30" c] by (simp add: is_digit_byte_def)
  moreover have "c < 0x80" using Cons.prems le_less_trans [of c "0x39" "0x80 :: u8"] by (simp add: is_digit_byte_def)
  ultimately show ?case using Cons by (simp add: clean_Cons)
qed (simp add: clean_Nil)

lemma ten_digits: "list_all (\<lambda>r. is_digit_byte (0x30 + word_of_nat r)) [0..<10]"
  by code_simp

lemma one_digit: "r < 10 \<Longrightarrow> is_digit_byte (0x30 + word_of_nat r)"
  using ten_digits unfolding list_all_iff set_upt by (drule_tac x = r in bspec) simp_all

lemma decimal_clean: "clean (decimal_digits n)"
proof (rule digits_clean, induction n rule: decimal_digits.induct)
  case (1 n)
  show ?case
  proof (cases "n < 10")
    case True
    then show ?thesis using one_digit [OF True] decimal_digits.simps [of n] by simp
  next
    case False
    have "n mod 10 < 10" by simp
    from one_digit [OF this] 1 False show ?thesis
      unfolding decimal_digits.simps [of n] if_not_P [OF False] list_all_append by simp
  qed
qed

lemma commas_clean: "(\<And>t. t \<in> set ts \<Longrightarrow> clean t) \<Longrightarrow> clean (commas ts)"
proof (induction ts rule: commas.induct)
  case (3 t u ts)
  have "clean [byte_comma]" by code_simp
  with 3 clean_append [of "[byte_comma]" "commas (u # ts)"] show ?case by (simp add: clean_append)
qed (simp_all add: clean_Nil)

lemma clean_texts: "clean text_true" "clean text_false" "clean text_null" "clean [0x5B]" "clean [0x5D]" "clean [0x7B]" "clean [0x7D]"
    "clean [0x3A]" "clean [0x2D]"
  by code_simp+

lemma bracketed_clean: "clean [b] \<Longrightarrow> clean [e] \<Longrightarrow> clean s \<Longrightarrow> clean (b # s @ [e])"
  using clean_append [of "[b]" "s @ [e]"] clean_append [of s "[e]"] by simp

lemma json_render_clean: "clean (json_render doc)"
proof (induction doc)
  case (j_int i)
  have "clean (0x2D # decimal_digits n)" for n using clean_append [OF clean_texts(9) decimal_clean [of n]] by simp
  then show ?case by (simp add: signed_decimal_def decimal_clean)
next
  case (j_array items)
  then have "clean (commas (map json_render items))" by (intro commas_clean) auto
  then show ?case using bracketed_clean [OF clean_texts(4,5)] by (simp add: json_bytes)
next
  case (j_object members)
  have "clean (member_text m)" if "m \<in> set members" for m
  proof -
    obtain name v where m: "m = (name, v)" by fastforce
    with j_object that have "clean (json_render v)" by fastforce
    with m show ?thesis
      using clean_append [OF json_quoted_clean [of name] clean_append [OF clean_texts(8)]] by (simp add: member_text_def json_bytes)
  qed
  then have "clean (commas (map member_text members))" by (intro commas_clean) auto
  then show ?case unfolding json_render_member using bracketed_clean [OF clean_texts(6,7)] by (simp add: json_bytes)
qed (simp_all add: clean_texts json_quoted_clean decimal_clean)

theorem a_record_is_one_line: "utf8_valid (serialize r) \<and> list_all (\<lambda>c. 0x20 \<le> c) (serialize r)"
  using a_record_is_its_document [of r] json_render_clean [of "record_doc r"] by (auto simp: clean_def)

end
