(* ===== verification/Spec2Isabelle.thy ===== *)
theory Spec2Isabelle
  imports Wire_Properties Channel_Properties Handles Callbacks P2P_Properties Identity Router_Delivery Router_Liveness
    Connect_Properties Sessions_Found Lobby_Properties Presence_Queries Config_Silence Trace_Documents
begin

text \<open>
  EOS-Reimagined stands in for an online-services SDK on a local network: games call the SDK's C
  functions, and instances find each other by UDP broadcast and talk over an authenticated mesh.
  This development models the core of it, bottom up, with the theorems that make each part correct.
  Paths are relative to \<^verbatim>\<open>src/src\<close>.

  \<^bold>\<open>How the parts interact.\<close>  A game calls an interface, such as P2P.  The interface wraps what it has to
  say in an envelope and hands it to the message router.  The router seals a copy for each peer with that
  peer's channel, frames it and writes it to the peer's connection; the far router reads frames, opens
  them, sets the envelope's source to the id its sender's key derives, and dispatches it to the
  interfaces that listen for its tag.  Interfaces answer the game through the callback manager.  Who a
  peer is rests on its profile key alone: the handshake proves the key, and every id is derived from it.

  \<^bold>\<open>Foundations.\<close>  \<^verbatim>\<open>Prelude\<close>: machine words, strings as bytes, \<^verbatim>\<open>std::map\<close> as an association list in key order
  (several loops depend on that order), and the locale \<^verbatim>\<open>transition_system\<close>, whose interpretations give
  each component's invariant over all its runs.

  \<^bold>\<open>Wire format.\<close>  \<^verbatim>\<open>Byte_Buffer\<close> (\<^verbatim>\<open>common/byte_buffer.cpp\<close>), \<^verbatim>\<open>Messages\<close> (\<^verbatim>\<open>net/messages.h\<close>), \<^verbatim>\<open>Codec\<close>, \<^verbatim>\<open>Wire\<close> and
  \<^verbatim>\<open>Wire_Lobby\<close> (\<^verbatim>\<open>net/wire.cpp\<close>), \<^verbatim>\<open>Framing\<close> (frames on a stream).  A reader is its data, its cursor and
  whether it failed; a getter returns an option and the reader.  The locale \<^verbatim>\<open>codec\<close> states the contract of
  a message's two functions and is interpreted for every message type; \<^verbatim>\<open>framer\<close> says why the cuts of a
  stream do not matter.  \<^verbatim>\<open>Wire_Properties\<close> holds the round trips, the caps and the safety of the readers.

  \<^bold>\<open>The channel.\<close>  \<^verbatim>\<open>Crypto\<close> (\<^verbatim>\<open>common/crypto.cpp\<close>), \<^verbatim>\<open>Aead\<close> (the part of the vendored Monocypher the channel
  uses), \<^verbatim>\<open>Secure_Channel\<close> (\<^verbatim>\<open>net/secure_channel.cpp\<close>), \<^verbatim>\<open>Peer_Channel\<close> and \<^verbatim>\<open>Replay_Window\<close>
  (\<^verbatim>\<open>net/peer_channel.cpp\<close>).  \<^verbatim>\<open>Handshake\<close> and \<^verbatim>\<open>Channel_Sessions\<close> run two ends against each other;
  \<^verbatim>\<open>Channel_Properties\<close> states that they agree, that only what was sealed opens, in order and once, and
  that no nonce repeats.  X25519 is the parameter \<^verbatim>\<open>x25519\<close>, and what the handshake needs of it, that both
  ends compute one shared secret, is a named hypothesis.

  \<^bold>\<open>Identity.\<close>  \<^verbatim>\<open>Identity\<close> (\<^verbatim>\<open>core/identity.cpp\<close>): ids from keys, the profile file, export and import.  The
  files, the locks on profile slots and the random source are the parameter \<^verbatim>\<open>profile_files\<close>.

  \<^bold>\<open>The router.\<close>  \<^verbatim>\<open>Router\<close>, \<^verbatim>\<open>Router_Mesh\<close> and \<^verbatim>\<open>Router_Tick\<close> (\<^verbatim>\<open>net/message_router.cpp\<close>): sending and
  dispatching; discovery, dialing and datagrams; handshakes, adoption, frames, expiry, start and stop.  The
  router's state is the record \<^verbatim>\<open>message_router\<close> with the class's members.  Sockets, clock and random source
  are the record \<^verbatim>\<open>net_env\<close>: each answer is a function of the log of everything done so far, so an
  environment may answer every question as it likes, and a theorem for all environments is a theorem for
  every network.  A loop that reads until there is nothing left gets, from the environment, the list of
  what it finds.  A listener may send, register or unregister while it handles a message, and a failed
  send drops a peer, which notifies listeners again: \<^verbatim>\<open>run_work\<close> runs that call stack as a list of calls,
  and its termination proof shows that it always comes to an end.  \<^verbatim>\<open>Router_Delivery\<close> takes messages from one
  router to another; \<^verbatim>\<open>Router_Invariant\<close> and \<^verbatim>\<open>Router_Properties\<close> show who can be in the mesh and what can be
  delivered; \<^verbatim>\<open>Router_Liveness\<close> shows what ends (the clock may move on while a tick runs, but no read of it
  shows less than the time the tick began), and a peer that is lost while it is adopted.

  \<^bold>\<open>Handles and callbacks.\<close>  \<^verbatim>\<open>Handles\<close> (\<^verbatim>\<open>common/ids.cpp\<close>, \<^verbatim>\<open>common/handle_store.h\<close>) and \<^verbatim>\<open>Callbacks\<close>
  (\<^verbatim>\<open>core/callback_manager.cpp\<close>, \<^verbatim>\<open>core/frame_result.cpp\<close>): a released handle stays dead, every result is
  delivered once, in order and not before its time.

  \<^bold>\<open>P2P.\<close>  \<^verbatim>\<open>P2P\<close>, \<^verbatim>\<open>P2P_Connections\<close> and \<^verbatim>\<open>P2P_Notify\<close> (\<^verbatim>\<open>interfaces/p2p.cpp\<close>): packets, connections and
  messages, notifications.  What the interface hands to the mesh is the log \<^verbatim>\<open>p2_out\<close>, and whether a
  datagram can go out is its parameter.  \<^verbatim>\<open>P2P_Invariant\<close>, \<^verbatim>\<open>P2P_States\<close>, \<^verbatim>\<open>P2P_Delivery\<close> and
  \<^verbatim>\<open>P2P_Properties\<close> state the protocol of a connection as an inductive step relation, that peers cannot
  touch each other's connections, delivery in order, and the bounds of the queues, also when the game
  changes its limits.  A lost peer is reported as interrupted and takes its waiting packets with it, which
  the documentation of the notification denies.  \<^verbatim>\<open>Eos_Types\<close> has what interfaces share.

  \<^bold>\<open>Connect.\<close>  \<^verbatim>\<open>Connect\<close> (\<^verbatim>\<open>interfaces/connect.cpp\<close>): login, the roster of known players that hosts consult,
  status notifications.  \<^verbatim>\<open>Connect_Properties\<close> shows that an entry of the roster changes only by a message of
  the player it names, by that player's loss or by our own shutdown, and that a login after the mesh
  connected is announced to nobody.

  \<^bold>\<open>Sessions.\<close>  \<^verbatim>\<open>Sessions\<close> (state, attributes, sending), \<^verbatim>\<open>Sessions_Modify\<close> (staging), \<^verbatim>\<open>Sessions_Lifecycle\<close>
  (create, update, start, end, destroy, rosters, join), \<^verbatim>\<open>Sessions_Search\<close> (searches, details, views) and
  \<^verbatim>\<open>Sessions_Network\<close> (ticks and messages) are \<^verbatim>\<open>interfaces/sessions.cpp\<close>.  A queued result is named by the
  order of its creation where the code has its address.  A send may lose peers, as the parameter \<open>lost\<close>
  says, and the loss comes back into the interface before the send returns, as it does in the code.
  \<^verbatim>\<open>Sessions_Runs\<close> has the operations as a type and their effect on the table of sessions;
  \<^verbatim>\<open>Sessions_Invariant\<close> reduces an invariant of every entry to a law per kind of change, the locale
  \<^verbatim>\<open>entry_property\<close>; \<^verbatim>\<open>Sessions_Frames\<close> says what each operation leaves alone; \<^verbatim>\<open>Sessions_Properties\<close> and
  \<^verbatim>\<open>Sessions_Found\<close> show that hosted sessions stay well formed, that players who do not own a session move
  only themselves, and what a search can find.

  \<^bold>\<open>Lobby.\<close>  \<^verbatim>\<open>Lobby\<close> (state, attributes, results, what is sent), \<^verbatim>\<open>Lobby_Mesh\<close> (the mesh at work),
  \<^verbatim>\<open>Lobby_Modify\<close> (staging of changes), \<^verbatim>\<open>Lobby_Lifecycle\<close> (create, join, leave, promote, kick, destroy,
  searches, details) and \<^verbatim>\<open>Lobby_Network\<close> (ticks and messages) are \<^verbatim>\<open>interfaces/lobby.cpp\<close>.  The loss of a peer
  inside a send makes the interface elect heirs and send again, which may lose the next peer: \<^verbatim>\<open>Lobby_Mesh\<close>
  runs that as a list of calls, \<^verbatim>\<open>run_lobby_work\<close>, which ends because each loss takes a peer out of the mesh.
  Game callbacks are recorded in the order they are made and do not call back.  \<^verbatim>\<open>Lobby_Runs\<close> has the operations
  as a type; \<^verbatim>\<open>Lobby_Invariant\<close> reduces an invariant of every lobby to the laws of the locale \<^verbatim>\<open>lobby_law\<close>;
  \<^verbatim>\<open>Lobby_Properties\<close> shows that a player hosts exactly the lobbies it owns, that survivors agree on the heir
  of a lost owner, that an owner who promotes itself leaves the lobby without a host, and that a member who
  is lost already can inherit it.

  \<^bold>\<open>Presence.\<close>  \<^verbatim>\<open>Presence\<close> (\<^verbatim>\<open>interfaces/presence.cpp\<close>) and \<^verbatim>\<open>Notices\<close> (what interfaces do with the callback
  manager): staging and setting our own presence, the questions that wait, what peers say of themselves.
  \<^verbatim>\<open>Presence_Runs\<close> has the operations as a type; \<^verbatim>\<open>Presence_Properties\<close>, \<^verbatim>\<open>Presence_Announced\<close> and
  \<^verbatim>\<open>Presence_Queries\<close> show that a presence is its own player's word and is gone with it, that what we
  announce is believed, except with a status there is none of, and that no question waits longer than a
  second.

  \<^bold>\<open>JSON, configuration and trace records.\<close>  Texts are byte lists; \<^verbatim>\<open>Utf8\<close> has the scan of one scalar that
  \<^verbatim>\<open>common/json_writer.cpp\<close>, \<^verbatim>\<open>core/config_file.cpp\<close> and \<^verbatim>\<open>core/config.cpp\<close> each spell out.  \<^verbatim>\<open>Json_Writer\<close> is
  the writer with its stack of open containers and its cap; \<^verbatim>\<open>Json_Documents\<close> shows that a writer that says
  it is done has written one document and which, and that closing brackets are not counted against the cap.
  \<^verbatim>\<open>Config_File\<close> is the bounded reader of \<^verbatim>\<open>eosr.json\<close>: each helper gives an error or a value and the bytes
  left, nesting is bounded by the depth of the recursion (eight), an array by its 64 elements, and the loop
  over the members of an object by the length of the text as fuel.  \<^verbatim>\<open>Config_Reading\<close> shows that this fuel
  is always enough, and
  \<^verbatim>\<open>Config_Roundtrip\<close> that what the writer writes is read back.  \<^verbatim>\<open>Config\<close> (\<^verbatim>\<open>core/config.cpp\<close>,
  \<^verbatim>\<open>core/system_config_source.cpp\<close>) resolves each field, one step per field in the order of the code, from the
  environment and the file, which are parameters; what differs by platform, which paths are absolute, has
  both its definitions.  \<^verbatim>\<open>Config_Properties\<close> shows that every field ends up within its bounds, \<^verbatim>\<open>Config_Silence\<close>
  that a resolution with nothing to report is the plain one, and that for three fields a rejected
  environment value hides the file.  \<^verbatim>\<open>Trace_Events\<close> (\<^verbatim>\<open>core/trace_event.cpp\<close>) builds the six kinds of trace
  records; \<^verbatim>\<open>Trace_Documents\<close> shows that each is its document or nothing, is one line of valid UTF-8, and is
  over the cap by three bytes at most.

  \<^bold>\<open>Bounds and recursion.\<close>  Sizes and counters keep their width (\<^verbatim>\<open>u64\<close> queue bytes, \<^verbatim>\<open>u32\<close> frame lengths); string and
  list lengths are naturals, and the code's limits appear as hypotheses where a length has to fit.  Loops
  end by a measure, the length of the buffer they consume; the one loop that may not end, the offer to the
  self-pipe, is a \<^theory_text>\<open>partial_function\<close>, and that it returns is a theorem with a hypothesis.

  \<^bold>\<open>Not modelled.\<close>  The tracer and its files, where interfaces record a trace, and log lines (nothing depends on
  them), wiping of secrets, locks (the SDK runs on one thread), friends, user info, auth and UI interfaces,
  the flat C functions that forward to the interfaces, and the operating-system wrappers.
  In the P2P model a send does not report a lost peer from inside itself.  An \<^verbatim>\<open>EOS_Bool\<close> is a bool, and of the
  result codes only those the modelled code returns exist.  Times are milliseconds of the steady clock, and
  deadlines do not overflow.
\<close>

end
